(* ===== verification/Prelude.thy ===== *)
theory Prelude
  imports Main "HOL-Library.Word"
begin

text \<open>
  Shared vocabulary of the development: machine integers, fallible results, operations
  that mutate a state, and the weakest-precondition calculus the component proofs use.

  Integers. An unsigned Rust integer (\<open>u64\<close>, \<open>u32\<close>, \<open>usize\<close>) is a natural number whose
  width is written out wherever the code can leave it: \<open>checked_add\<close> and its kin answer
  \<open>None\<close> beyond \<open>u64_max\<close>, conversions to a narrower type fail beyond its maximum.
  \<open>usize\<close> is taken 64 bits wide (the native target), so a conversion between \<open>usize\<close> and
  \<open>u64\<close> never fails. Bytes, hashes and bit fields, where the code works bitwise or wraps,
  are words of their exact width.

  Results. \<open>Result\<close> is a sum with the error on the left; \<open>rbind\<close> is the \<open>?\<close> operator.
  An operation on \<open>&mut self\<close> keeps its mutations when it fails, so it is a function from
  a state to a result and a state; \<open>pbind\<close> sequences two of them.
\<close>

section \<open>Machine integers\<close>

type_synonym byte = "8 word"

definition u64_max :: nat where
  "u64_max = 18446744073709551615"

definition u32_max :: nat where
  "u32_max = 4294967295"

definition checked_add :: "nat \<Rightarrow> nat \<Rightarrow> nat option" where
  "checked_add a b = (if a + b \<le> u64_max then Some (a + b) else None)"

definition checked_mul :: "nat \<Rightarrow> nat \<Rightarrow> nat option" where
  "checked_mul a b = (if a * b \<le> u64_max then Some (a * b) else None)"

definition checked_sub :: "nat \<Rightarrow> nat \<Rightarrow> nat option" where
  "checked_sub a b = (if b \<le> a then Some (a - b) else None)"

definition checked_add_u32 :: "nat \<Rightarrow> nat \<Rightarrow> nat option" where
  "checked_add_u32 a b = (if a + b \<le> u32_max then Some (a + b) else None)"

definition saturating_add :: "nat \<Rightarrow> nat \<Rightarrow> nat" where
  "saturating_add a b = min u64_max (a + b)"

definition saturating_sub :: "nat \<Rightarrow> nat \<Rightarrow> nat" where
  "saturating_sub a b = a - b"

definition saturating_mul :: "nat \<Rightarrow> nat \<Rightarrow> nat" where
  "saturating_mul a b = min u64_max (a * b)"

definition u32_try_from :: "nat \<Rightarrow> nat option" where
  "u32_try_from n = (if n \<le> u32_max then Some n else None)"

definition u64_try_from :: "nat \<Rightarrow> nat option" where
  "u64_try_from n = (if n \<le> u64_max then Some n else None)"

definition div_ceil :: "nat \<Rightarrow> nat \<Rightarrow> nat" where
  "div_ceil a b = (if a mod b = 0 then a div b else a div b + 1)"

lemma checked_add_Some [simp]: "checked_add a b = Some c \<longleftrightarrow> a + b \<le> u64_max \<and> c = a + b"
  by (auto simp: checked_add_def)

lemma checked_add_None [simp]: "checked_add a b = None \<longleftrightarrow> u64_max < a + b"
  by (auto simp: checked_add_def)

lemma checked_mul_Some [simp]: "checked_mul a b = Some c \<longleftrightarrow> a * b \<le> u64_max \<and> c = a * b"
  by (auto simp: checked_mul_def)

lemma checked_mul_None [simp]: "checked_mul a b = None \<longleftrightarrow> u64_max < a * b"
  by (auto simp: checked_mul_def)

lemma checked_sub_Some [simp]: "checked_sub a b = Some c \<longleftrightarrow> b \<le> a \<and> c = a - b"
  by (auto simp: checked_sub_def)

lemma checked_sub_None [simp]: "checked_sub a b = None \<longleftrightarrow> a < b"
  by (auto simp: checked_sub_def)

lemma checked_add_u32_Some [simp]:
  "checked_add_u32 a b = Some c \<longleftrightarrow> a + b \<le> u32_max \<and> c = a + b"
  by (auto simp: checked_add_u32_def)

lemma checked_add_u32_None [simp]: "checked_add_u32 a b = None \<longleftrightarrow> u32_max < a + b"
  by (auto simp: checked_add_u32_def)

lemma u32_try_from_Some [simp]: "u32_try_from n = Some m \<longleftrightarrow> n \<le> u32_max \<and> m = n"
  by (auto simp: u32_try_from_def)

lemma u32_try_from_None [simp]: "u32_try_from n = None \<longleftrightarrow> u32_max < n"
  by (auto simp: u32_try_from_def)

lemma u64_try_from_Some [simp]: "u64_try_from n = Some m \<longleftrightarrow> n \<le> u64_max \<and> m = n"
  by (auto simp: u64_try_from_def)

lemma u64_try_from_None [simp]: "u64_try_from n = None \<longleftrightarrow> u64_max < n"
  by (auto simp: u64_try_from_def)

lemma checked_fits [simp]:
  "a + b \<le> u64_max \<Longrightarrow> checked_add a b = Some (a + b)"
  "a * b \<le> u64_max \<Longrightarrow> checked_mul a b = Some (a * b)"
  "b \<le> a \<Longrightarrow> checked_sub a b = Some (a - b)"
  "a + b \<le> u32_max \<Longrightarrow> checked_add_u32 a b = Some (a + b)"
  "n \<le> u32_max \<Longrightarrow> u32_try_from n = Some n"
  "n \<le> u64_max \<Longrightarrow> u64_try_from n = Some n"
  by simp_all

lemma checked_overflows [simp]:
  "u64_max < a + b \<Longrightarrow> checked_add a b = None"
  "u64_max < a * b \<Longrightarrow> checked_mul a b = None"
  "a < b \<Longrightarrow> checked_sub a b = None"
  "u32_max < a + b \<Longrightarrow> checked_add_u32 a b = None"
  "u32_max < n \<Longrightarrow> u32_try_from n = None"
  "u64_max < n \<Longrightarrow> u64_try_from n = None"
  by simp_all

lemma u32_max_less_u64_max: "u32_max < u64_max"
  by (simp add: u32_max_def u64_max_def)

section \<open>Fallible results\<close>

fun rbind :: "'e + 'a \<Rightarrow> ('a \<Rightarrow> 'e + 'b) \<Rightarrow> 'e + 'b" where
  "rbind (Inl e) f = Inl e"
| "rbind (Inr a) f = f a"

fun ok_or :: "'a option \<Rightarrow> 'e \<Rightarrow> 'e + 'a" where
  "ok_or None e = Inl e"
| "ok_or (Some a) e = Inr a"

definition is_ok :: "'e + 'a \<Rightarrow> bool" where
  "is_ok r = (case r of Inl _ \<Rightarrow> False | Inr _ \<Rightarrow> True)"

text \<open>A \<open>for\<close> loop whose body may return early, and a collecting map that stops at the
  first error.\<close>

fun rforeach :: "('a \<Rightarrow> 'e + unit) \<Rightarrow> 'a list \<Rightarrow> 'e + unit" where
  "rforeach f [] = Inr ()"
| "rforeach f (x # xs) = rbind (f x) (\<lambda>_. rforeach f xs)"

fun rcollect :: "('a \<Rightarrow> 'e + 'b) \<Rightarrow> 'a list \<Rightarrow> 'e + 'b list" where
  "rcollect f [] = Inr []"
| "rcollect f (x # xs) = rbind (f x) (\<lambda>y. rbind (rcollect f xs) (\<lambda>ys. Inr (y # ys)))"

fun rfold :: "('b \<Rightarrow> 'a \<Rightarrow> 'e + 'b) \<Rightarrow> 'b \<Rightarrow> 'a list \<Rightarrow> 'e + 'b" where
  "rfold f acc [] = Inr acc"
| "rfold f acc (x # xs) = rbind (f acc x) (\<lambda>acc'. rfold f acc' xs)"

lemma rbind_Inr_iff [simp]: "rbind r f = Inr b \<longleftrightarrow> (\<exists>a. r = Inr a \<and> f a = Inr b)"
  by (cases r) auto

lemma rbind_Inl_iff:
  "rbind r f = Inl e \<longleftrightarrow> r = Inl e \<or> (\<exists>a. r = Inr a \<and> f a = Inl e)"
  by (cases r) auto

lemma map_sum_Inr_iff: "map_sum id f r = Inr b \<longleftrightarrow> (\<exists>a. r = Inr a \<and> b = f a)"
  by (cases r) auto

lemma ok_or_Inr_iff [simp]: "ok_or m e = Inr a \<longleftrightarrow> m = Some a"
  by (cases m) auto

lemma ok_or_Inl_iff [simp]: "ok_or m e = Inl e' \<longleftrightarrow> m = None \<and> e' = e"
  by (cases m) auto

lemma is_ok_simps [simp]: "is_ok (Inr a)" "\<not> is_ok (Inl e)"
  by (simp_all add: is_ok_def)

lemma is_ok_iff: "is_ok r \<longleftrightarrow> (\<exists>a. r = Inr a)"
  by (cases r) auto

lemma is_ok_rbind: "is_ok (rbind r f) \<longleftrightarrow> (\<exists>a. r = Inr a \<and> is_ok (f a))"
  by (cases r) auto

lemma is_ok_ok_or [simp]: "is_ok (ok_or m e) \<longleftrightarrow> m \<noteq> None"
  by (cases m) auto

lemma rforeach_cong [fundef_cong]:
  "xs = ys \<Longrightarrow> (\<And>x. x \<in> set ys \<Longrightarrow> f x = g x) \<Longrightarrow> rforeach f xs = rforeach g ys"
  by (induction ys arbitrary: xs) auto

lemma rforeach_ok: "rforeach f xs = Inr u \<longleftrightarrow> (\<forall>x \<in> set xs. f x = Inr ())"
  by (induction xs) auto

lemma rforeach_is_ok: "is_ok (rforeach f xs) \<longleftrightarrow> (\<forall>x \<in> set xs. is_ok (f x))"
  by (induction xs) (auto simp: is_ok_rbind is_ok_iff)

lemma rcollect_ok:
  "rcollect f xs = Inr ys \<longleftrightarrow> length ys = length xs \<and> (\<forall>i < length xs. f (xs ! i) = Inr (ys ! i))"
proof (induction xs arbitrary: ys)
  case Nil
  then show ?case by auto
next
  case (Cons x xs)
  have "rcollect f (x # xs) = Inr ys \<longleftrightarrow>
      (\<exists>y zs. ys = y # zs \<and> f x = Inr y \<and> rcollect f xs = Inr zs)"
    by auto
  then show ?case
    by (cases ys) (auto simp: Cons.IH nth_Cons' less_Suc_eq_0_disj)
qed

lemma rcollect_append:
  "rcollect f (xs @ ys) =
    rbind (rcollect f xs) (\<lambda>as. rbind (rcollect f ys) (\<lambda>bs. Inr (as @ bs)))"
proof (induction xs)
  case Nil
  then show ?case by (cases "rcollect f ys") auto
next
  case (Cons x xs)
  then show ?case by (cases "f x"; cases "rcollect f xs"; cases "rcollect f ys") auto
qed

lemma rfold_append: "rfold f a (xs @ ys) = rbind (rfold f a xs) (\<lambda>b. rfold f b ys)"
proof (induction xs arbitrary: a)
  case Nil
  then show ?case by simp
next
  case (Cons x xs)
  then show ?case by (cases "f a x") auto
qed

section \<open>Operations on a mutable state\<close>

type_synonym ('s, 'e, 'a) prog = "'s \<Rightarrow> ('e + 'a) \<times> 's"

definition preturn :: "'a \<Rightarrow> ('s, 'e, 'a) prog" where
  "preturn a = (\<lambda>s. (Inr a, s))"

definition pfail :: "'e \<Rightarrow> ('s, 'e, 'a) prog" where
  "pfail e = (\<lambda>s. (Inl e, s))"

definition pbind :: "('s, 'e, 'a) prog \<Rightarrow> ('a \<Rightarrow> ('s, 'e, 'b) prog) \<Rightarrow> ('s, 'e, 'b) prog" where
  "pbind m f = (\<lambda>s. case m s of (Inl e, s') \<Rightarrow> (Inl e, s') | (Inr a, s') \<Rightarrow> f a s')"

definition pget :: "('s, 'e, 's) prog" where
  "pget = (\<lambda>s. (Inr s, s))"

definition pmodify :: "('s \<Rightarrow> 's) \<Rightarrow> ('s, 'e, unit) prog" where
  "pmodify f = (\<lambda>s. (Inr (), f s))"

definition plift :: "'e + 'a \<Rightarrow> ('s, 'e, 'a) prog" where
  "plift r = (\<lambda>s. (r, s))"

fun pforeach :: "('a \<Rightarrow> ('s, 'e, unit) prog) \<Rightarrow> 'a list \<Rightarrow> ('s, 'e, unit) prog" where
  "pforeach f [] = preturn ()"
| "pforeach f (x # xs) = pbind (f x) (\<lambda>_. pforeach f xs)"

fun pcollect :: "('a \<Rightarrow> ('s, 'e, 'b) prog) \<Rightarrow> 'a list \<Rightarrow> ('s, 'e, 'b list) prog" where
  "pcollect f [] = preturn []"
| "pcollect f (x # xs) = pbind (f x) (\<lambda>y. pbind (pcollect f xs) (\<lambda>ys. preturn (y # ys)))"

lemmas prog_defs = preturn_def pfail_def pbind_def pget_def pmodify_def plift_def

lemma pbind_lift_ok: "pbind (plift (Inr a)) f = f a"
  by (simp add: fun_eq_iff prog_defs)

section \<open>Weakest preconditions\<close>

text \<open>
  \<open>wp m Q E s\<close>: run from \<open>s\<close>, the operation \<open>m\<close> ends in a state where \<open>Q\<close> holds of the
  result, or fails in a state where \<open>E\<close> holds of the error.
\<close>

definition wp :: "('s, 'e, 'a) prog \<Rightarrow> ('a \<Rightarrow> 's \<Rightarrow> bool) \<Rightarrow> ('e \<Rightarrow> 's \<Rightarrow> bool) \<Rightarrow> 's \<Rightarrow> bool" where
  "wp m Q E s = (case m s of (Inl e, s') \<Rightarrow> E e s' | (Inr a, s') \<Rightarrow> Q a s')"

named_theorems wps \<open>rules that push a weakest precondition through an operation\<close>

lemma wp_return [wps]: "wp (preturn a) Q E s = Q a s"
  by (simp add: wp_def preturn_def)

lemma wp_fail [wps]: "wp (pfail e) Q E s = E e s"
  by (simp add: wp_def pfail_def)

lemma wp_bind [wps]: "wp (pbind m f) Q E s = wp m (\<lambda>a. wp (f a) Q E) E s"
  by (auto simp: wp_def pbind_def split: prod.splits sum.splits)

lemma wp_get [wps]: "wp pget Q E s = Q s s"
  by (simp add: wp_def pget_def)

lemma wp_modify [wps]: "wp (pmodify f) Q E s = Q () (f s)"
  by (simp add: wp_def pmodify_def)

lemma wp_lift [wps]: "wp (plift r) Q E s = (case r of Inl e \<Rightarrow> E e s | Inr a \<Rightarrow> Q a s)"
  by (simp add: wp_def plift_def split: sum.splits)

lemma wp_if [wps]: "wp (if b then m else n) Q E s = (if b then wp m Q E s else wp n Q E s)"
  by simp

lemma wp_foreach_Nil [wps]: "wp (pforeach f []) Q E s = Q () s"
  by (simp add: wps)

lemma wp_mono:
  assumes "wp m Q E s"
    and "\<And>a s'. Q a s' \<Longrightarrow> Q' a s'" and "\<And>e s'. E e s' \<Longrightarrow> E' e s'"
  shows "wp m Q' E' s"
  using assms by (auto simp: wp_def split: prod.splits sum.splits)

lemma wp_conj: "wp m (\<lambda>a s. Q a s \<and> Q' a s) (\<lambda>e s. E e s \<and> E' e s) s \<longleftrightarrow> wp m Q E s \<and> wp m Q' E' s"
  by (auto simp: wp_def split: prod.splits sum.splits)

lemma wp_ok: "wp m Q E s \<Longrightarrow> m s = (Inr a, s') \<Longrightarrow> Q a s'"
  by (simp add: wp_def)

lemma wp_err: "wp m Q E s \<Longrightarrow> m s = (Inl e, s') \<Longrightarrow> E e s'"
  by (simp add: wp_def)

lemma wpI:
  assumes "\<And>a s'. m s = (Inr a, s') \<Longrightarrow> Q a s'" and "\<And>e s'. m s = (Inl e, s') \<Longrightarrow> E e s'"
  shows "wp m Q E s"
  using assms by (auto simp: wp_def split: prod.splits sum.splits)

lemma wp_snd: "wp m (\<lambda>_. I) (\<lambda>_. I) s \<longleftrightarrow> I (snd (m s))"
  by (auto simp: wp_def split: prod.splits sum.splits)

text \<open>A loop keeps an invariant when its body does, whether or not the body fails.\<close>

lemma wp_foreach_inv:
  assumes "I s" and "\<And>x s. x \<in> set xs \<Longrightarrow> I s \<Longrightarrow> wp (f x) (\<lambda>_. I) E s"
  shows "wp (pforeach f xs) (\<lambda>_. I) E s"
  using assms
proof (induction xs arbitrary: s)
  case Nil
  then show ?case by (simp add: wps)
next
  case (Cons x xs)
  have "wp (f x) (\<lambda>_. I) E s" using Cons.prems by simp
  then have "wp (f x) (\<lambda>_. wp (pforeach f xs) (\<lambda>_. I) E) E s"
    by (rule wp_mono) (rule Cons.IH, auto intro: Cons.prems(2))
  then show ?case by (simp add: wps)
qed

text \<open>
  Two steps of a collecting loop that keep an invariant and relate each input to its
  output keep both over the whole loop, when the relation survives later steps.
\<close>

lemma wp_collect:
  assumes "I s"
    and "\<And>x s. x \<in> set xs \<Longrightarrow> I s \<Longrightarrow>
           wp (f x) (\<lambda>y s'. I s' \<and> le s s' \<and> R s' x y) (\<lambda>_. E) s"
    and "\<And>s. le s s" and "\<And>s t u. le s t \<Longrightarrow> le t u \<Longrightarrow> le s u"
    and "\<And>s t x y. le s t \<Longrightarrow> R s x y \<Longrightarrow> R t x y"
  shows "wp (pcollect f xs) (\<lambda>ys s'. I s' \<and> le s s' \<and> list_all2 (R s') xs ys) (\<lambda>_. E) s"
  using assms(1,2)
proof (induction xs arbitrary: s)
  case Nil
  then show ?case using assms(3) by (simp add: wps)
next
  case (Cons x xs)
  have head: "wp (f x) (\<lambda>y s'. I s' \<and> le s s' \<and> R s' x y) (\<lambda>_. E) s" using Cons.prems by simp
  have tail: "wp (pcollect f xs) (\<lambda>ys u. I u \<and> le t u \<and> list_all2 (R u) xs ys) (\<lambda>_. E) t" if "I t" for t
    by (rule Cons.IH [OF that]) (use Cons.prems(2) in auto)
  show ?case
    unfolding pcollect.simps wp_bind wp_return
  proof (rule wp_mono [OF head])
    fix y t assume t: "I t \<and> le s t \<and> R t x y"
    then have "I t" by simp
    from tail [OF this]
    show "wp (pcollect f xs) (\<lambda>ys u. I u \<and> le s u \<and> list_all2 (R u) (x # xs) (y # ys)) (\<lambda>_. E) t"
      by (rule wp_mono) (use t assms(4,5) in auto)
  qed
qed

section \<open>Panics\<close>

text \<open>The result of code that indexes or slices without a check: it returns, or it panics.\<close>

datatype 'a run = Panics | Returns 'a

fun run_bind :: "'a run \<Rightarrow> ('a \<Rightarrow> 'b run) \<Rightarrow> 'b run" where
  "run_bind Panics f = Panics"
| "run_bind (Returns a) f = f a"

definition index_get :: "'a list \<Rightarrow> nat \<Rightarrow> 'a run" where
  "index_get xs i = (if i < length xs then Returns (xs ! i) else Panics)"

definition slice_get :: "'a list \<Rightarrow> nat \<Rightarrow> nat \<Rightarrow> 'a list run" where
  "slice_get xs a b = (if a \<le> b \<and> b \<le> length xs then Returns (take (b - a) (drop a xs)) else Panics)"

section \<open>Machines driven by a list of calls\<close>

text \<open>
  The interface under which a component's operations are used by its callers: any
  sequence of calls, each of which may fail. What every call keeps, every run keeps.
\<close>

locale step_machine =
  fixes step :: "'op \<Rightarrow> 's \<Rightarrow> 's"
    and inv :: "'s \<Rightarrow> bool"
  assumes step_inv: "inv s \<Longrightarrow> inv (step call s)"
begin

lemma run_inv: "inv s \<Longrightarrow> inv (fold step calls s)"
  by (induction calls arbitrary: s) (auto intro: step_inv)

end

text \<open>A machine with a level that must stay within a limit fixed at its construction.\<close>

locale metered_machine = step_machine step inv
  for step :: "'op \<Rightarrow> 's \<Rightarrow> 's" and inv :: "'s \<Rightarrow> bool" +
  fixes level :: "'s \<Rightarrow> nat"
    and limit :: "'s \<Rightarrow> nat"
  assumes level_le: "inv s \<Longrightarrow> level s \<le> limit s"
    and limit_step: "inv s \<Longrightarrow> limit (step call s) = limit s"
begin

lemma limit_run: "inv s \<Longrightarrow> limit (fold step calls s) = limit s"
proof (induction calls arbitrary: s)
  case Nil
  then show ?case by simp
next
  case (Cons c calls)
  then show ?case using step_inv limit_step by simp
qed

lemma run_within: "inv s \<Longrightarrow> level (fold step calls s) \<le> limit s"
  using level_le [OF run_inv] limit_run by simp

end

section \<open>Lists\<close>

lemma sum_list_update_nat:
  fixes xs :: "nat list"
  shows "i < length xs \<Longrightarrow> sum_list (xs[i := v]) + xs ! i = sum_list xs + v"
proof (induction xs arbitrary: i)
  case Nil
  then show ?case by simp
next
  case (Cons x xs)
  then show ?case by (cases i) auto
qed

lemma length_takeWhile_sorted:
  assumes "sorted_wrt (<) (map f xs)" and "i < length (takeWhile (\<lambda>x. f x \<le> (k :: nat)) xs)"
  shows "f (xs ! i) \<le> k"
  using assms(2) by (metis nth_mem set_takeWhileD takeWhile_nth)

lemma nth_length_takeWhile_not:
  "length (takeWhile P xs) < length xs \<Longrightarrow> \<not> P (xs ! length (takeWhile P xs))"
  by (rule nth_length_takeWhile)

end
