(* ===== verification/Rust_Text.thy ===== *)
theory Rust_Text
  imports Prelude
begin

text \<open>
  The parts of Rust's string library the program uses: decimal formatting of unsigned
  integers, \<open>str::parse::<u64>\<close>, \<open>split_once\<close> and \<open>split_ascii_whitespace\<close>. A string is its
  list of characters; the program only splits and formats ASCII text.
\<close>

section \<open>Decimal numbers\<close>

definition digit_char :: "nat \<Rightarrow> char" where
  "digit_char d = char_of (48 + d)"

fun nat_to_dec :: "nat \<Rightarrow> string" where
  "nat_to_dec n = (if n < 10 then [digit_char n] else nat_to_dec (n div 10) @ [digit_char (n mod 10)])"

declare nat_to_dec.simps [simp del]

definition digit_value :: "char \<Rightarrow> nat option" where
  "digit_value c = (let k = of_char c :: nat in if 48 \<le> k \<and> k \<le> 57 then Some (k - 48) else None)"

fun parse_digits :: "nat \<Rightarrow> string \<Rightarrow> nat option" where
  "parse_digits acc [] = Some acc"
| "parse_digits acc (c # cs) =
     (case digit_value c of
        None \<Rightarrow> None
      | Some d \<Rightarrow> if acc * 10 + d \<le> u64_max then parse_digits (acc * 10 + d) cs else None)"

definition parse_u64 :: "string \<Rightarrow> nat option" where
  "parse_u64 s =
     (case s of
        [] \<Rightarrow> None
      | c # cs \<Rightarrow> if c = CHR ''+'' then (if cs = [] then None else parse_digits 0 cs)
                  else parse_digits 0 s)"

lemma digit_value_digit_char [simp]: "d < 10 \<Longrightarrow> digit_value (digit_char d) = Some d"
  by (simp add: digit_value_def digit_char_def)

lemma digit_char_not_special [simp]:
  assumes "d < 10"
  shows "digit_char d \<noteq> CHR ''+''" "digit_char d \<noteq> CHR '' ''"
  using digit_value_digit_char [OF assms] by (auto simp: digit_value_def)

lemma parse_digits_append:
  "parse_digits acc (xs @ ys) =
     (case parse_digits acc xs of None \<Rightarrow> None | Some acc' \<Rightarrow> parse_digits acc' ys)"
  by (induction acc xs rule: parse_digits.induct) (auto split: option.splits)

lemma parse_digits_bound: "acc \<le> u64_max \<Longrightarrow> parse_digits acc s = Some n \<Longrightarrow> n \<le> u64_max"
  by (induction acc s rule: parse_digits.induct) (auto split: option.splits if_splits)

lemma parse_digits_nat_to_dec: "n \<le> u64_max \<Longrightarrow> parse_digits 0 (nat_to_dec n) = Some n"
proof (induction n rule: nat_to_dec.induct)
  case (1 n)
  show ?case
  proof (cases "n < 10")
    case True
    then show ?thesis using 1 by (simp add: nat_to_dec.simps [of n])
  next
    case False
    have "n div 10 \<le> u64_max" using 1 by (meson div_le_dividend le_trans)
    with 1 False have "parse_digits 0 (nat_to_dec (n div 10)) = Some (n div 10)" by simp
    then show ?thesis using False 1
      by (simp add: nat_to_dec.simps [of n] parse_digits_append)
  qed
qed

lemma nat_to_dec_not_Nil [simp]: "nat_to_dec n \<noteq> []"
  by (subst nat_to_dec.simps) simp

lemma nat_to_dec_digits: "c \<in> set (nat_to_dec n) \<Longrightarrow> \<exists>d < 10. c = digit_char d"
proof (induction n rule: nat_to_dec.induct)
  case (1 n)
  show ?case
  proof (cases "n < 10")
    case True
    then show ?thesis using 1 by (auto simp: nat_to_dec.simps [of n])
  next
    case False
    have "n mod 10 < 10" by simp
    with False 1 show ?thesis by (fastforce simp: nat_to_dec.simps [of n])
  qed
qed

lemma parse_u64_nat_to_dec:
  assumes "n \<le> u64_max"
  shows "parse_u64 (nat_to_dec n) = Some n"
proof (cases "nat_to_dec n")
  case Nil
  then show ?thesis by simp
next
  case (Cons c cs)
  then have "c \<in> set (nat_to_dec n)" by simp
  then obtain d where "d < 10" and "c = digit_char d" using nat_to_dec_digits by blast
  then have "c \<noteq> CHR ''+''" by simp
  then show ?thesis
    using parse_digits_nat_to_dec [OF assms] Cons
    by (simp add: parse_u64_def del: parse_digits.simps)
qed

lemma parse_u64_bound: "parse_u64 s = Some n \<Longrightarrow> n \<le> u64_max"
  using parse_digits_bound [of 0]
  by (auto simp: parse_u64_def simp del: parse_digits.simps split: list.splits if_splits)

section \<open>Splitting\<close>

fun split_once :: "string \<Rightarrow> string \<Rightarrow> (string \<times> string) option" where
  "split_once pat [] = (if pat = [] then Some ([], []) else None)"
| "split_once pat (c # cs) =
     (if take (length pat) (c # cs) = pat then Some ([], drop (length pat) (c # cs))
      else map_option (\<lambda>(a, b). (c # a, b)) (split_once pat cs))"

definition is_ascii_whitespace :: "char \<Rightarrow> bool" where
  "is_ascii_whitespace c \<longleftrightarrow> (of_char c :: nat) \<in> {9, 10, 12, 13, 32}"

fun split_words :: "string \<Rightarrow> string \<Rightarrow> string list" where
  "split_words cur [] = (if cur = [] then [] else [cur])"
| "split_words cur (c # cs) =
     (if is_ascii_whitespace c
      then (if cur = [] then split_words [] cs else cur # split_words [] cs)
      else split_words (cur @ [c]) cs)"

definition split_ascii_whitespace :: "string \<Rightarrow> string list" where
  "split_ascii_whitespace s = split_words [] s"

definition ascii_word :: "string \<Rightarrow> bool" where
  "ascii_word w \<longleftrightarrow> w \<noteq> [] \<and> (\<forall>c \<in> set w. \<not> is_ascii_whitespace c)"

lemma digit_char_not_whitespace [simp]: "d < 10 \<Longrightarrow> \<not> is_ascii_whitespace (digit_char d)"
  by (simp add: is_ascii_whitespace_def digit_char_def)

lemma ascii_word_nat_to_dec [simp]: "ascii_word (nat_to_dec n)"
  using nat_to_dec_digits by (force simp: ascii_word_def)

lemma split_words_word: "\<forall>c \<in> set w. \<not> is_ascii_whitespace c \<Longrightarrow>
    split_words cur (w @ s) = split_words (cur @ w) s"
  by (induction w arbitrary: cur) auto

lemma split_words_Cons_word:
  assumes "ascii_word w"
  shows "split_words [] (w @ CHR '' '' # s) = w # split_words [] s"
  using assms split_words_word [of w "[]"] by (simp add: ascii_word_def is_ascii_whitespace_def)

lemma split_words_last_word:
  assumes "ascii_word w"
  shows "split_words [] w = [w]"
  using assms split_words_word [of w "[]" "[]"] by (simp add: ascii_word_def)

text \<open>
  The first occurrence of a pattern after a prefix: when the pattern's first character
  occurs nowhere else in it, an occurrence that starts inside the prefix also ends there.
\<close>

lemma split_once_prefix:
  assumes "pat = p # ps" and "p \<notin> set ps" and "split_once pat pre = None"
  shows "split_once pat (pre @ pat @ s) = Some (pre, s)"
  using assms(3)
proof (induction pre)
  case Nil
  then show ?case using assms(1) by simp
next
  case (Cons c pre)
  from Cons.prems have pre: "split_once pat pre = None"
    and nomatch: "take (length pat) (c # pre) \<noteq> pat"
    by (auto split: if_splits)
  have "take (length pat) (c # pre @ pat @ s) \<noteq> pat"
  proof
    assume match: "take (length pat) (c # pre @ pat @ s) = pat"
    show False
    proof (cases "length pat \<le> length (c # pre)")
      case True
      then have "take (length pat) (c # pre @ pat @ s) = take (length pat) (c # pre)"
        by (metis append_Cons take_all_iff take_append append.right_neutral diff_is_0_eq take_0)
      with match nomatch show False by simp
    next
      case False
      let ?k = "length (c # pre)"
      from False have k: "?k < length pat" by simp
      have "pat ! ?k = (c # pre @ pat @ s) ! ?k"
        using match k by (metis nth_take)
      also have "\<dots> = p" using assms(1) by (simp add: nth_append)
      finally have "p = pat ! ?k" by simp
      moreover have "pat ! ?k = ps ! length pre" using assms(1) by simp
      moreover have "length pre < length ps" using k assms(1) by simp
      ultimately show False using assms(2) by (metis nth_mem)
    qed
  qed
  then show ?case using Cons.IH [OF pre] by simp
qed

section \<open>Splitting at a character\<close>

text \<open>\<open>str::split\<close>, \<open>str::rsplit_once\<close>, \<open>join\<close> and \<open>str::eq_ignore_ascii_case\<close>.\<close>

fun split_char :: "char \<Rightarrow> string \<Rightarrow> string list" where
  "split_char c [] = [[]]"
| "split_char c (x # xs) =
     (if x = c then [] # split_char c xs
      else case split_char c xs of [] \<Rightarrow> [[x]] | part # parts \<Rightarrow> (x # part) # parts)"

definition rsplit_once_char :: "char \<Rightarrow> string \<Rightarrow> (string \<times> string) option" where
  "rsplit_once_char c s =
     (if c \<in> set s
      then let suffix = rev (takeWhile (\<lambda>x. x \<noteq> c) (rev s))
           in Some (take (length s - length suffix - 1) s, suffix)
      else None)"

fun join_char :: "char \<Rightarrow> string list \<Rightarrow> string" where
  "join_char c [] = []"
| "join_char c [part] = part"
| "join_char c (part # parts) = part @ c # join_char c parts"

definition ascii_lower :: "char \<Rightarrow> char" where
  "ascii_lower c = (let k = of_char c :: nat in if 65 \<le> k \<and> k \<le> 90 then char_of (k + 32) else c)"

definition eq_ignore_ascii_case :: "string \<Rightarrow> string \<Rightarrow> bool" where
  "eq_ignore_ascii_case a b \<longleftrightarrow> map ascii_lower a = map ascii_lower b"

lemma split_char_not_Nil [simp]: "split_char c s \<noteq> []"
  by (induction s) (auto split: list.splits)

lemma split_char_absent: "c \<notin> set s \<Longrightarrow> split_char c s = [s]"
  by (induction s) auto

lemma split_char_append:
  "c \<notin> set part \<Longrightarrow> split_char c (part @ c # s) = part # split_char c s"
  by (induction part) auto

lemma split_char_join:
  "parts \<noteq> [] \<Longrightarrow> \<forall>part \<in> set parts. c \<notin> set part \<Longrightarrow> split_char c (join_char c parts) = parts"
  by (induction c parts rule: join_char.induct) (auto simp: split_char_absent split_char_append)

lemma split_char_parts: "part \<in> set (split_char c s) \<Longrightarrow> c \<notin> set part"
proof (induction s arbitrary: part)
  case Nil
  then show ?case by simp
next
  case (Cons x s)
  then show ?case by (cases "split_char c s") (auto split: if_splits)
qed

lemma join_char_Nil_iff:
  "\<forall>part \<in> set parts. part \<noteq> [] \<Longrightarrow> join_char c parts = [] \<longleftrightarrow> parts = []"
  by (induction c parts rule: join_char.induct) auto

end
