(* ===== verification/Errors.thy ===== *)
theory Errors
  imports Rust_Text
begin

text \<open>
  src/src/error.rs: the structured error every boundary of the program returns, its
  builder, and the recogniser that turns the Zstd layer's diagnostics back into a
  structured resource-limit error.

  A detail value is a JSON number, string or boolean, the kinds the program attaches; the
  details are a map because \<open>serde_json::Map::insert\<close> replaces an earlier entry.
\<close>

section \<open>Codes and errors\<close>

datatype error_code =
    InvalidArgument
  | InvalidRange
  | RangeNotIndexed
  | ResourceLimit
  | Cancelled
  | HandleClosed
  | ProtocolIncompatible
  | ParseFailed
  | RuntimeFailure
  | UnsupportedRuntime
  | UnsupportedFeature

datatype detail = DetailNumber nat | DetailString string | DetailBool bool

record tabulark_error =
  err_code :: error_code
  err_message :: string
  err_retryable :: bool
  err_details :: "string \<rightharpoonup> detail"

type_synonym 'a result = "tabulark_error + 'a"

definition new_error :: "error_code \<Rightarrow> string \<Rightarrow> tabulark_error" where
  "new_error code message =
     \<lparr>err_code = code, err_message = message, err_retryable = False, err_details = Map.empty\<rparr>"

definition with_retryable :: "tabulark_error \<Rightarrow> bool \<Rightarrow> tabulark_error" where
  "with_retryable e retryable = e\<lparr>err_retryable := retryable\<rparr>"

definition with_detail :: "tabulark_error \<Rightarrow> string \<Rightarrow> detail \<Rightarrow> tabulark_error" where
  "with_detail e key value = e\<lparr>err_details := (err_details e)(key \<mapsto> value)\<rparr>"

text \<open>\<open>Display for TabularkError\<close>.\<close>

definition error_display :: "tabulark_error \<Rightarrow> string" where
  "error_display e = err_message e"

lemma new_error_sel [simp]:
  "err_code (new_error c m) = c"
  "err_message (new_error c m) = m"
  "err_retryable (new_error c m) = False"
  "err_details (new_error c m) = Map.empty"
  by (simp_all add: new_error_def)

lemma with_retryable_sel [simp]:
  "err_code (with_retryable e b) = err_code e"
  "err_message (with_retryable e b) = err_message e"
  "err_retryable (with_retryable e b) = b"
  "err_details (with_retryable e b) = err_details e"
  by (simp_all add: with_retryable_def)

lemma with_detail_sel [simp]:
  "err_code (with_detail e k v) = err_code e"
  "err_message (with_detail e k v) = err_message e"
  "err_retryable (with_detail e k v) = err_retryable e"
  "err_details (with_detail e k v) = (err_details e)(k \<mapsto> v)"
  by (simp_all add: with_detail_def)

text \<open>The error code of a failed result; \<open>None\<close> for a success.\<close>

fun fails_with :: "error_code \<Rightarrow> 'a result \<Rightarrow> bool" where
  "fails_with c (Inl e) = (err_code e = c)"
| "fails_with c (Inr a) = False"

lemma fails_with_iff: "fails_with c r \<longleftrightarrow> (\<exists>e. r = Inl e \<and> err_code e = c)"
  by (cases r) auto

section \<open>The Zstd resource-limit diagnostic\<close>

definition zstd_limit_marker :: string where
  "zstd_limit_marker = ''zstd resource limit: ''"

definition zstd_limit_error :: "nat \<Rightarrow> nat \<Rightarrow> tabulark_error" where
  "zstd_limit_error required available =
     with_detail
       (with_detail
         (with_detail
           (new_error ResourceLimit ''Zstd decompression exceeds the configured resource limit'')
           ''resource'' (DetailString ''decompression''))
         ''requiredBytes'' (DetailNumber required))
       ''availableBytes'' (DetailNumber available)"

definition zstd_decompression_limit_error :: "string \<Rightarrow> tabulark_error option" where
  "zstd_decompression_limit_error message =
     (case split_once zstd_limit_marker message of
        None \<Rightarrow> None
      | Some (_, rest) \<Rightarrow>
         (case split_ascii_whitespace rest of
            [kind, kw1, number1, kw2, number2] \<Rightarrow>
              if (kind \<noteq> ''output'' \<and> kind \<noteq> ''window'') \<or> kw1 \<noteq> ''required'' then None
              else (case parse_u64 number1 of
                      None \<Rightarrow> None
                    | Some required \<Rightarrow>
                        if kw2 \<noteq> ''available'' then None
                        else (case parse_u64 number2 of
                                None \<Rightarrow> None
                              | Some available \<Rightarrow> Some (zstd_limit_error required available)))
          | _ \<Rightarrow> None))"

lemma zstd_limit_error_sel:
  "err_code (zstd_limit_error r a) = ResourceLimit"
  "err_details (zstd_limit_error r a) ''requiredBytes'' = Some (DetailNumber r)"
  "err_details (zstd_limit_error r a) ''availableBytes'' = Some (DetailNumber a)"
  by (simp_all add: zstd_limit_error_def)

lemma zstd_recogniser_code:
  "zstd_decompression_limit_error m = Some e \<Longrightarrow> err_code e = ResourceLimit"
  by (auto simp: zstd_decompression_limit_error_def zstd_limit_error_sel
      split: option.splits list.splits if_splits)

end
