(* ===== verification/Ledger.thy ===== *)
theory Ledger
  imports Errors
begin

text \<open>
  src/src/resource.rs: the checked byte ledger every adapter runtime charges. Five
  ownership classes; four of them are owned by the runtime and admitted against a budget,
  the fifth counts bytes already handed to the caller. Native cache is reclaimed once
  before an admission is refused.

  The lemmas show that no operation, successful or failed, lets the runtime-owned bytes
  pass the budget or the high-water mark, give the exact condition under which an
  admission succeeds, and state what a refused operation leaves behind.
\<close>

section \<open>State\<close>

datatype resource_category = Persistent | ActiveOperation | IngressOutput | NativeCache | CallerOwned

definition category_count :: nat where
  "category_count = 5"

fun category_index :: "resource_category \<Rightarrow> nat" where
  "category_index Persistent = 0"
| "category_index ActiveOperation = 1"
| "category_index IngressOutput = 2"
| "category_index NativeCache = 3"
| "category_index CallerOwned = 4"

fun category_name :: "resource_category \<Rightarrow> string" where
  "category_name Persistent = ''persistent''"
| "category_name ActiveOperation = ''active-operation''"
| "category_name IngressOutput = ''ingress-output''"
| "category_name NativeCache = ''native-cache''"
| "category_name CallerOwned = ''caller-owned''"

definition is_runtime_owned :: "resource_category \<Rightarrow> bool" where
  "is_runtime_owned c = (case c of CallerOwned \<Rightarrow> False | _ \<Rightarrow> True)"

record resource_ledger =
  budget_bytes :: nat
  charged :: "nat list"
  high_water_bytes :: nat
  reclaimed_native_cache_bytes :: nat
  wasm_memory_pages :: nat
  wasm_memory_high_water_pages :: nat

record resource_snapshot =
  snap_budget_bytes :: nat
  snap_runtime_owned_bytes :: nat
  snap_high_water_bytes :: nat
  snap_persistent_bytes :: nat
  snap_active_operation_bytes :: nat
  snap_ingress_output_bytes :: nat
  snap_native_cache_bytes :: nat
  snap_caller_owned_bytes :: nat
  snap_reclaimed_native_cache_bytes :: nat
  snap_wasm_memory_pages :: nat
  snap_wasm_memory_high_water_pages :: nat

type_synonym 'a ledger_op = "(resource_ledger, tabulark_error, 'a) prog"

section \<open>Operations\<close>

definition ledger_new :: "nat \<Rightarrow> resource_ledger result" where
  "ledger_new budget =
     (if budget = 0
      then Inl (new_error InvalidArgument ''resource ledger budget must be greater than zero'')
      else Inr \<lparr>budget_bytes = budget, charged = replicate category_count 0,
                high_water_bytes = 0, reclaimed_native_cache_bytes = 0,
                wasm_memory_pages = 0, wasm_memory_high_water_pages = 0\<rparr>)"

definition runtime_owned_bytes :: "resource_ledger \<Rightarrow> nat result" where
  "runtime_owned_bytes l =
     rfold (\<lambda>total bytes. ok_or (checked_add total bytes)
              (new_error ResourceLimit ''resource ledger runtime-owned byte count overflows''))
       0 (take (category_index CallerOwned) (charged l))"

definition can_admit :: "nat \<Rightarrow> resource_ledger \<Rightarrow> bool result" where
  "can_admit bytes l =
     rbind (runtime_owned_bytes l) (\<lambda>used.
       Inr (case checked_add used bytes of None \<Rightarrow> False | Some required \<Rightarrow> required \<le> budget_bytes l))"

definition limit_error :: "resource_category \<Rightarrow> nat \<Rightarrow> resource_ledger \<Rightarrow> tabulark_error result" where
  "limit_error category bytes l =
     rbind (runtime_owned_bytes l) (\<lambda>used.
     rbind (ok_or (checked_add used bytes)
              (new_error ResourceLimit ''resource ledger admission byte count overflows'')) (\<lambda>required.
       Inr (with_detail (with_detail (with_detail (with_detail
              (new_error ResourceLimit ''adapter runtime exceeds its configured resource budget'')
              ''resource'' (DetailString (category_name category)))
              ''requiredBytes'' (DetailNumber required))
              ''availableBytes'' (DetailNumber (saturating_sub (budget_bytes l) used)))
              ''budgetBytes'' (DetailNumber (budget_bytes l)))))"

definition add_unbounded :: "resource_category \<Rightarrow> nat \<Rightarrow> unit ledger_op" where
  "add_unbounded category bytes =
     pbind pget (\<lambda>l.
     pbind (plift (ok_or (checked_add (charged l ! category_index category) bytes)
              (with_detail
                (new_error ResourceLimit ''resource ledger category byte count overflows'')
                ''resource'' (DetailString (category_name category))))) (\<lambda>total.
     pbind (pmodify (\<lambda>l. l\<lparr>charged := (charged l)[category_index category := total]\<rparr>)) (\<lambda>_.
     if is_runtime_owned category
     then pbind pget (\<lambda>l'.
          pbind (plift (runtime_owned_bytes l')) (\<lambda>owned.
          pmodify (\<lambda>l. l\<lparr>high_water_bytes := max (high_water_bytes l) owned\<rparr>)))
     else preturn ())))"

definition clear_native_cache :: "nat ledger_op" where
  "clear_native_cache =
     pbind pget (\<lambda>l.
     let reclaimed = charged l ! category_index NativeCache in
     pbind (pmodify (\<lambda>l. l\<lparr>charged := (charged l)[category_index NativeCache := 0]\<rparr>)) (\<lambda>_.
     pbind (plift (ok_or (checked_add (reclaimed_native_cache_bytes l) reclaimed)
              (new_error ResourceLimit ''resource ledger reclaimed-byte counter overflows''))) (\<lambda>total.
     pbind (pmodify (\<lambda>l. l\<lparr>reclaimed_native_cache_bytes := total\<rparr>)) (\<lambda>_.
     preturn reclaimed))))"

definition admit :: "resource_category \<Rightarrow> nat \<Rightarrow> nat ledger_op" where
  "admit category bytes =
     (if \<not> is_runtime_owned category
      then pbind (add_unbounded category bytes) (\<lambda>_. preturn 0)
      else
        pbind pget (\<lambda>l.
        pbind (plift (can_admit bytes l)) (\<lambda>fits.
        if fits then pbind (add_unbounded category bytes) (\<lambda>_. preturn 0)
        else
          pbind clear_native_cache (\<lambda>reclaimed.
          pbind pget (\<lambda>l.
          pbind (plift (can_admit bytes l)) (\<lambda>fits.
          if \<not> fits then pbind (plift (limit_error category bytes l)) pfail
          else pbind (add_unbounded category bytes) (\<lambda>_. preturn reclaimed)))))))"

definition release :: "resource_category \<Rightarrow> nat \<Rightarrow> unit ledger_op" where
  "release category bytes =
     pbind pget (\<lambda>l.
     let current = charged l ! category_index category in
     pbind (plift (ok_or (checked_sub current bytes)
              (with_detail (with_detail (with_detail
                (new_error RuntimeFailure ''resource ledger release exceeds the charged byte count'')
                ''resource'' (DetailString (category_name category)))
                ''chargedBytes'' (DetailNumber current))
                ''releaseBytes'' (DetailNumber bytes)))) (\<lambda>rest.
     pmodify (\<lambda>l. l\<lparr>charged := (charged l)[category_index category := rest]\<rparr>)))"

text \<open>\<open>replace\<close> catches the error of its own admission to restore the previous charge.\<close>

definition ledger_replace :: "resource_category \<Rightarrow> nat \<Rightarrow> nat ledger_op" where
  "ledger_replace category bytes =
     pbind pget (\<lambda>l.
     let previous = charged l ! category_index category in
     if previous = bytes then preturn 0
     else
       pbind (pmodify (\<lambda>l. l\<lparr>charged := (charged l)[category_index category := 0]\<rparr>)) (\<lambda>_.
       \<lambda>s. case admit category bytes s of
             (Inr reclaimed, s') \<Rightarrow> (Inr reclaimed, s')
           | (Inl e, s') \<Rightarrow>
               (Inl e, s'\<lparr>charged := (charged s')[category_index category := previous]\<rparr>)))"

definition release_all :: "resource_ledger \<Rightarrow> resource_ledger" where
  "release_all l = l\<lparr>charged := replicate category_count 0\<rparr>"

definition observe_wasm_memory_pages :: "nat \<Rightarrow> resource_ledger \<Rightarrow> resource_ledger" where
  "observe_wasm_memory_pages pages l =
     l\<lparr>wasm_memory_pages := pages,
       wasm_memory_high_water_pages := max (wasm_memory_high_water_pages l) pages\<rparr>"

definition snapshot :: "resource_ledger \<Rightarrow> resource_snapshot" where
  "snapshot l =
     \<lparr>snap_budget_bytes = budget_bytes l,
      snap_runtime_owned_bytes = (case runtime_owned_bytes l of Inl _ \<Rightarrow> u64_max | Inr n \<Rightarrow> n),
      snap_high_water_bytes = high_water_bytes l,
      snap_persistent_bytes = charged l ! category_index Persistent,
      snap_active_operation_bytes = charged l ! category_index ActiveOperation,
      snap_ingress_output_bytes = charged l ! category_index IngressOutput,
      snap_native_cache_bytes = charged l ! category_index NativeCache,
      snap_caller_owned_bytes = charged l ! category_index CallerOwned,
      snap_reclaimed_native_cache_bytes = reclaimed_native_cache_bytes l,
      snap_wasm_memory_pages = wasm_memory_pages l,
      snap_wasm_memory_high_water_pages = wasm_memory_high_water_pages l\<rparr>"

section \<open>Charges\<close>

definition charge :: "resource_ledger \<Rightarrow> resource_category \<Rightarrow> nat" where
  "charge l c = charged l ! category_index c"

definition owned :: "resource_ledger \<Rightarrow> nat" where
  "owned l = charge l Persistent + charge l ActiveOperation + charge l IngressOutput + charge l NativeCache"

definition set_charge :: "resource_category \<Rightarrow> nat \<Rightarrow> resource_ledger \<Rightarrow> resource_ledger" where
  "set_charge c n l = l\<lparr>charged := (charged l)[category_index c := n]\<rparr>"

definition ledger_inv :: "resource_ledger \<Rightarrow> bool" where
  "ledger_inv l \<longleftrightarrow>
     length (charged l) = category_count \<and> (\<forall>n \<in> set (charged l). n \<le> u64_max) \<and>
     0 < budget_bytes l \<and> budget_bytes l \<le> u64_max \<and> reclaimed_native_cache_bytes l \<le> u64_max \<and>
     owned l \<le> high_water_bytes l \<and> high_water_bytes l \<le> budget_bytes l"

lemma is_runtime_owned_iff [simp]: "is_runtime_owned c \<longleftrightarrow> c \<noteq> CallerOwned"
  by (cases c) (auto simp: is_runtime_owned_def)

lemma category_index_less [simp]: "category_index c < 5"
  by (cases c) auto

lemma category_index_eq [simp]: "category_index c = category_index c' \<longleftrightarrow> c = c'"
  by (cases c; cases c') auto

lemma set_charge_sel [simp]:
  "budget_bytes (set_charge c n l) = budget_bytes l"
  "high_water_bytes (set_charge c n l) = high_water_bytes l"
  "reclaimed_native_cache_bytes (set_charge c n l) = reclaimed_native_cache_bytes l"
  "wasm_memory_pages (set_charge c n l) = wasm_memory_pages l"
  "wasm_memory_high_water_pages (set_charge c n l) = wasm_memory_high_water_pages l"
  "length (charged (set_charge c n l)) = length (charged l)"
  by (simp_all add: set_charge_def)

lemma charge_set_charge:
  "length (charged l) = category_count \<Longrightarrow> charge (set_charge c n l) c' = (if c = c' then n else charge l c')"
  by (auto simp: charge_def set_charge_def category_count_def nth_list_update)

lemma charge_only_charged [simp]:
  "charge (l\<lparr>high_water_bytes := h\<rparr>) c = charge l c"
  "charge (l\<lparr>reclaimed_native_cache_bytes := h\<rparr>) c = charge l c"
  "charge (l\<lparr>wasm_memory_pages := h, wasm_memory_high_water_pages := h'\<rparr>) c = charge l c"
  by (simp_all add: charge_def)

lemma owned_only_charged [simp]:
  "owned (l\<lparr>high_water_bytes := h\<rparr>) = owned l"
  "owned (l\<lparr>reclaimed_native_cache_bytes := h\<rparr>) = owned l"
  "owned (l\<lparr>wasm_memory_pages := h, wasm_memory_high_water_pages := h'\<rparr>) = owned l"
  by (simp_all add: owned_def)

lemma owned_set_charge:
  "length (charged l) = category_count \<Longrightarrow> c \<noteq> CallerOwned \<Longrightarrow>
    owned (set_charge c n l) + charge l c = owned l + n"
  by (cases c) (auto simp: owned_def charge_set_charge)

lemma owned_set_charge_caller:
  "length (charged l) = category_count \<Longrightarrow> owned (set_charge CallerOwned n l) = owned l"
  by (simp add: owned_def charge_set_charge)

lemma charge_le_owned: "c \<noteq> CallerOwned \<Longrightarrow> charge l c \<le> owned l"
  by (cases c) (auto simp: owned_def)

lemma owned_set_charge_eq:
  "length (charged l) = category_count \<Longrightarrow> c \<noteq> CallerOwned \<Longrightarrow>
    owned (set_charge c n l) = owned l - charge l c + n"
  using owned_set_charge [of l c n] charge_le_owned [of c l] by simp

lemma charge_le_max: "ledger_inv l \<Longrightarrow> charge l c \<le> u64_max"
  by (auto simp: ledger_inv_def charge_def category_count_def)

lemma sum_take_owned:
  assumes "length (charged l) = category_count"
  shows "sum_list (take (category_index CallerOwned) (charged l)) = owned l"
proof -
  obtain a b c d e where "charged l = [a, b, c, d, e]"
    using assms by (auto simp: category_count_def numeral_eq_Suc length_Suc_conv)
  then show ?thesis by (simp add: owned_def charge_def numeral_eq_Suc)
qed

lemma rfold_checked_add:
  "acc \<le> u64_max \<Longrightarrow> rfold (\<lambda>t b. ok_or (checked_add t b) e) acc xs =
     (if acc + sum_list xs \<le> u64_max then Inr (acc + sum_list xs) else Inl e)"
proof (induction xs arbitrary: acc)
  case Nil
  then show ?case by simp
next
  case (Cons x xs)
  then show ?case by (cases "checked_add acc x") (auto simp: add.assoc)
qed

lemma runtime_owned_bytes_eq:
  "length (charged l) = category_count \<Longrightarrow> owned l \<le> u64_max \<Longrightarrow> runtime_owned_bytes l = Inr (owned l)"
  by (simp add: runtime_owned_bytes_def rfold_checked_add sum_take_owned del: category_index.simps)

lemma ledger_inv_owned: "ledger_inv l \<Longrightarrow> runtime_owned_bytes l = Inr (owned l)"
  by (rule runtime_owned_bytes_eq) (auto simp: ledger_inv_def)

lemma can_admit_eq:
  "ledger_inv l \<Longrightarrow> can_admit n l = Inr (owned l + n \<le> budget_bytes l)"
  by (auto simp: can_admit_def ledger_inv_owned ledger_inv_def split: option.splits)

lemma ledger_inv_set_charge:
  assumes "ledger_inv l" and "n \<le> u64_max" and "c \<noteq> CallerOwned \<Longrightarrow> owned l - charge l c + n \<le> high_water_bytes l"
  shows "ledger_inv (set_charge c n l)"
proof -
  have len: "length (charged l) = category_count" using assms(1) by (simp add: ledger_inv_def)
  have "owned (set_charge c n l) \<le> high_water_bytes l"
  proof (cases "c = CallerOwned")
    case True
    then show ?thesis using assms(1) len by (simp add: owned_set_charge_caller ledger_inv_def)
  next
    case False
    then show ?thesis using assms(3) len by (simp add: owned_set_charge_eq)
  qed
  moreover have "\<forall>m \<in> set (charged (set_charge c n l)). m \<le> u64_max"
    using assms(1,2) set_update_subset_insert [of "charged l" "category_index c" n]
    by (auto simp: set_charge_def ledger_inv_def)
  ultimately show ?thesis using assms(1) by (simp add: ledger_inv_def)
qed

section \<open>What each operation does\<close>

text \<open>The ledger after an admission of \<open>n\<close> runtime-owned bytes, and after a reclaim.\<close>

definition admitted :: "resource_category \<Rightarrow> nat \<Rightarrow> resource_ledger \<Rightarrow> resource_ledger" where
  "admitted c n l = (set_charge c (charge l c + n) l)\<lparr>high_water_bytes := max (high_water_bytes l) (owned l + n)\<rparr>"

definition reclaimed :: "resource_ledger \<Rightarrow> resource_ledger" where
  "reclaimed l = (set_charge NativeCache 0 l)\<lparr>reclaimed_native_cache_bytes :=
                    reclaimed_native_cache_bytes l + charge l NativeCache\<rparr>"

lemma add_unbounded_owned:
  assumes "ledger_inv l" and "c \<noteq> CallerOwned" and "owned l + n \<le> budget_bytes l"
  shows "add_unbounded c n l = (Inr (), admitted c n l)"
proof -
  have len: "length (charged l) = category_count" using assms(1) by (simp add: ledger_inv_def)
  have le: "charge l c + n \<le> u64_max" and ow: "owned l - charge l c + (charge l c + n) = owned l + n"
    and ob: "owned l + n \<le> u64_max"
    using charge_le_owned [OF assms(2), of l] assms(1,3) by (auto simp: ledger_inv_def)
  have "runtime_owned_bytes (set_charge c (charge l c + n) l) = Inr (owned l + n)"
    using runtime_owned_bytes_eq [of "set_charge c (charge l c + n) l"] len ow ob assms(2)
    by (simp add: owned_set_charge_eq)
  moreover have "checked_add (charged l ! category_index c) n = Some (charge l c + n)"
    using le by (simp add: charge_def)
  moreover have "l\<lparr>charged := (charged l)[category_index c := charge l c + n]\<rparr> = set_charge c (charge l c + n) l"
    by (simp add: set_charge_def)
  ultimately show ?thesis
    using assms(2) by (simp add: add_unbounded_def prog_defs admitted_def)
qed

lemma add_unbounded_caller:
  "add_unbounded CallerOwned n l =
     (if charge l CallerOwned + n \<le> u64_max then (Inr (), set_charge CallerOwned (charge l CallerOwned + n) l)
      else (Inl (with_detail
                (new_error ResourceLimit ''resource ledger category byte count overflows'')
                ''resource'' (DetailString ''caller-owned'')), l))"
  by (cases "checked_add (charge l CallerOwned) n")
    (auto simp: add_unbounded_def prog_defs charge_def set_charge_def)

lemma clear_native_cache_eq:
  "clear_native_cache l =
     (if reclaimed_native_cache_bytes l + charge l NativeCache \<le> u64_max
      then (Inr (charge l NativeCache), reclaimed l)
      else (Inl (new_error ResourceLimit ''resource ledger reclaimed-byte counter overflows''),
            set_charge NativeCache 0 l))"
  by (cases "checked_add (reclaimed_native_cache_bytes l) (charge l NativeCache)")
    (auto simp: clear_native_cache_def prog_defs charge_def set_charge_def reclaimed_def Let_def)

lemma ledger_inv_admitted:
  assumes "ledger_inv l" and "c \<noteq> CallerOwned" and "owned l + n \<le> budget_bytes l"
  shows "ledger_inv (admitted c n l)"
proof -
  let ?h = "max (high_water_bytes l) (owned l + n)"
  have "ledger_inv (l\<lparr>high_water_bytes := ?h\<rparr>)"
    using assms by (auto simp: ledger_inv_def)
  moreover have "charge l c + n \<le> u64_max" and "owned l - charge l c + (charge l c + n) = owned l + n"
    using charge_le_owned [OF assms(2), of l] assms(1,3) by (auto simp: ledger_inv_def)
  ultimately have "ledger_inv (set_charge c (charge l c + n) (l\<lparr>high_water_bytes := ?h\<rparr>))"
    by (intro ledger_inv_set_charge) auto
  moreover have "set_charge c (charge l c + n) (l\<lparr>high_water_bytes := ?h\<rparr>) = admitted c n l"
    by (simp add: admitted_def set_charge_def)
  ultimately show ?thesis by simp
qed

lemma ledger_inv_cleared: "ledger_inv l \<Longrightarrow> ledger_inv (set_charge NativeCache 0 l)"
  by (rule ledger_inv_set_charge) (auto simp: ledger_inv_def)

lemma ledger_inv_reclaimed:
  assumes "ledger_inv l" and "reclaimed_native_cache_bytes l + charge l NativeCache \<le> u64_max"
  shows "ledger_inv (reclaimed l)"
  using ledger_inv_cleared [OF assms(1)] assms(2) by (auto simp: reclaimed_def ledger_inv_def)

lemma owned_reclaimed:
  "ledger_inv l \<Longrightarrow> owned (reclaimed l) = owned l - charge l NativeCache"
  by (simp add: reclaimed_def owned_set_charge_eq ledger_inv_def)

lemma limit_error_eq:
  "ledger_inv l \<Longrightarrow> \<exists>e. (limit_error c n l = Inr e \<or> limit_error c n l = Inl e) \<and> err_code e = ResourceLimit"
  by (cases "checked_add (owned l) n") (auto simp: limit_error_def ledger_inv_owned)

lemma admit_caller: "admit CallerOwned n l = pbind (add_unbounded CallerOwned n) (\<lambda>_. preturn 0) l"
  by (simp add: admit_def)

lemma admit_fits:
  assumes "ledger_inv l" and "c \<noteq> CallerOwned" and "owned l + n \<le> budget_bytes l"
  shows "admit c n l = (Inr 0, admitted c n l)"
  using assms by (simp add: admit_def prog_defs can_admit_eq add_unbounded_owned)

lemma admit_reclaims:
  assumes "ledger_inv l" and "c \<noteq> CallerOwned" and "budget_bytes l < owned l + n"
    and "reclaimed_native_cache_bytes l + charge l NativeCache \<le> u64_max"
    and "owned l - charge l NativeCache + n \<le> budget_bytes l"
  shows "admit c n l = (Inr (charge l NativeCache), admitted c n (reclaimed l))"
  using assms
  by (simp add: admit_def prog_defs can_admit_eq clear_native_cache_eq add_unbounded_owned
      ledger_inv_reclaimed owned_reclaimed) (simp add: reclaimed_def)

lemma admit_refused:
  assumes inv: "ledger_inv l" and "c \<noteq> CallerOwned" and "budget_bytes l < owned l + n"
    and counter: "reclaimed_native_cache_bytes l + charge l NativeCache \<le> u64_max"
    and full: "budget_bytes l < owned l - charge l NativeCache + n"
  shows "\<exists>e. admit c n l = (Inl e, reclaimed l) \<and> err_code e = ResourceLimit"
proof -
  have inv': "ledger_inv (reclaimed l)" using inv counter by (rule ledger_inv_reclaimed)
  have budget: "budget_bytes (reclaimed l) = budget_bytes l" by (simp add: reclaimed_def)
  obtain e where "limit_error c n (reclaimed l) = Inr e \<or> limit_error c n (reclaimed l) = Inl e"
    and code: "err_code e = ResourceLimit"
    using limit_error_eq [OF inv'] by blast
  then have "admit c n l = (Inl e, reclaimed l)"
    using assms inv' budget
    by (auto simp: admit_def prog_defs can_admit_eq clear_native_cache_eq owned_reclaimed)
  with code show ?thesis by blast
qed

lemma admit_counter_overflow:
  assumes "ledger_inv l" and "c \<noteq> CallerOwned" and "budget_bytes l < owned l + n"
    and "u64_max < reclaimed_native_cache_bytes l + charge l NativeCache"
  shows "\<exists>e. admit c n l = (Inl e, set_charge NativeCache 0 l) \<and> err_code e = ResourceLimit"
  using assms by (simp add: admit_def prog_defs can_admit_eq clear_native_cache_eq)

text \<open>The four outcomes of a runtime-owned admission.\<close>

lemma admit_cases:
  assumes "ledger_inv l" and "c \<noteq> CallerOwned"
  obtains "owned l + n \<le> budget_bytes l" "admit c n l = (Inr 0, admitted c n l)"
  | "owned (reclaimed l) + n \<le> budget_bytes l" "ledger_inv (reclaimed l)"
      "admit c n l = (Inr (charge l NativeCache), admitted c n (reclaimed l))"
  | e where "ledger_inv (reclaimed l)" "admit c n l = (Inl e, reclaimed l)" "err_code e = ResourceLimit"
  | e where "admit c n l = (Inl e, set_charge NativeCache 0 l)" "err_code e = ResourceLimit"
  using admit_fits [OF assms, of n] admit_reclaims [OF assms, of n] admit_refused [OF assms, of n]
    admit_counter_overflow [OF assms, of n] owned_reclaimed [OF assms(1)] ledger_inv_reclaimed [OF assms(1)]
  by (metis not_le)

section \<open>Every operation keeps the invariant\<close>

lemma ledger_new_inv: "ledger_new b = Inr l \<Longrightarrow> b \<le> u64_max \<Longrightarrow> ledger_inv l"
  by (auto simp: ledger_new_def ledger_inv_def owned_def charge_def category_count_def
      numeral_eq_Suc split: if_splits)

lemma budget_admitted [simp]: "budget_bytes (admitted c n l) = budget_bytes l"
  "budget_bytes (reclaimed l) = budget_bytes l"
  by (simp_all add: admitted_def reclaimed_def)

lemma add_caller_inv:
  "ledger_inv l \<Longrightarrow> ledger_inv (snd (add_unbounded CallerOwned n l)) \<and>
     budget_bytes (snd (add_unbounded CallerOwned n l)) = budget_bytes l"
  by (auto simp: add_unbounded_caller intro: ledger_inv_set_charge)

lemma admit_inv:
  assumes "ledger_inv l"
  shows "ledger_inv (snd (admit c n l)) \<and> budget_bytes (snd (admit c n l)) = budget_bytes l"
proof (cases "c = CallerOwned")
  case True
  then show ?thesis
    using assms by (auto simp: admit_caller add_unbounded_caller prog_defs intro: ledger_inv_set_charge)
next
  case False
  from assms False show ?thesis
    by (cases rule: admit_cases [where n = n])
      (use assms False in \<open>auto simp: ledger_inv_admitted ledger_inv_cleared\<close>)
qed

lemma release_eq:
  "n \<le> charge l c \<Longrightarrow> release c n l = (Inr (), set_charge c (charge l c - n) l)"
  "charge l c < n \<Longrightarrow> \<exists>e. release c n l = (Inl e, l) \<and> err_code e = RuntimeFailure"
  by (simp_all add: release_def prog_defs Let_def charge_def set_charge_def)

lemma ledger_inv_lower:
  assumes "ledger_inv l" and "n \<le> charge l c"
  shows "ledger_inv (set_charge c n l)"
proof (rule ledger_inv_set_charge [OF assms(1)])
  show "n \<le> u64_max" using charge_le_max [OF assms(1), of c] assms(2) by simp
  show "owned l - charge l c + n \<le> high_water_bytes l" if "c \<noteq> CallerOwned"
    using charge_le_owned [OF that, of l] assms by (auto simp: ledger_inv_def)
qed

lemma release_inv:
  assumes "ledger_inv l"
  shows "ledger_inv (snd (release c n l)) \<and> budget_bytes (snd (release c n l)) = budget_bytes l"
proof (cases "n \<le> charge l c")
  case True
  then show ?thesis using assms ledger_inv_lower [of l "charge l c - n" c] by (simp add: release_eq)
next
  case False
  then show ?thesis using assms release_eq(2) [of l c n] by auto
qed

lemma clear_inv:
  assumes "ledger_inv l"
  shows "ledger_inv (snd (clear_native_cache l)) \<and> budget_bytes (snd (clear_native_cache l)) = budget_bytes l"
  using assms ledger_inv_reclaimed ledger_inv_cleared by (simp add: clear_native_cache_eq)

lemma ledger_replace_eq:
  "ledger_replace c n l =
     (if charge l c = n then (Inr 0, l)
      else case admit c n (set_charge c 0 l) of
             (Inr r, l') \<Rightarrow> (Inr r, l')
           | (Inl e, l') \<Rightarrow> (Inl e, set_charge c (charge l c) l'))"
  by (auto simp: ledger_replace_def prog_defs Let_def charge_def set_charge_def
      split: prod.splits sum.splits)

text \<open>What a failed admission leaves of the charges.\<close>

lemma admit_failed_frame:
  assumes "ledger_inv l" and "admit c n l = (Inl e, l')"
  shows "err_code e = ResourceLimit \<and> high_water_bytes l' = high_water_bytes l \<and>
    (\<forall>c'. charge l' c' = charge l c' \<or> c' = NativeCache \<and> charge l' c' = 0 \<and> c \<noteq> CallerOwned)"
proof (cases "c = CallerOwned")
  case True
  then show ?thesis
    using assms(2) by (auto simp: admit_caller add_unbounded_caller prog_defs split: if_splits)
next
  case False
  have len: "length (charged l) = category_count" using assms(1) by (simp add: ledger_inv_def)
  from assms(1) False show ?thesis
    by (cases rule: admit_cases [where n = n])
      (use assms(2) len False in \<open>auto simp: charge_set_charge reclaimed_def\<close>)
qed

lemma owned_mono: "(\<And>c. charge l' c \<le> charge l c) \<Longrightarrow> owned l' \<le> owned l"
  by (simp add: owned_def add_mono)

text \<open>A failed replacement: the category has its charge back, only native cache may be gone.\<close>

lemma replace_failed:
  assumes inv: "ledger_inv l" and fail: "ledger_replace c n l = (Inl e, l')"
  shows "ledger_inv l' \<and> err_code e = ResourceLimit \<and> charge l' c = charge l c \<and>
    (\<forall>c'. c' \<noteq> NativeCache \<longrightarrow> charge l' c' = charge l c')"
proof -
  let ?l0 = "set_charge c 0 l"
  have len: "length (charged l) = category_count" using inv by (simp add: ledger_inv_def)
  have inv0: "ledger_inv ?l0" using inv by (rule ledger_inv_lower) simp
  from fail obtain l1 where l1: "admit c n ?l0 = (Inl e, l1)" "l' = set_charge c (charge l c) l1"
    by (auto simp: ledger_replace_eq split: if_splits prod.splits sum.splits)
  have frame: "err_code e = ResourceLimit" "high_water_bytes l1 = high_water_bytes l"
    "\<And>c'. charge l1 c' = charge ?l0 c' \<or> c' = NativeCache \<and> charge l1 c' = 0"
    using admit_failed_frame [OF inv0 l1(1)] by auto
  have inv1: "ledger_inv l1" using admit_inv [OF inv0, of c n] l1(1) by simp
  have len1: "length (charged l1) = category_count" using inv1 by (simp add: ledger_inv_def)
  have c0: "charge l1 c = 0" using frame(3) [of c] len by (auto simp: charge_set_charge)
  have le: "owned l1 \<le> owned ?l0"
  proof (rule owned_mono)
    show "charge l1 c' \<le> charge ?l0 c'" for c' using frame(3) [of c'] by auto
  qed
  have "ledger_inv l'"
    unfolding l1(2)
  proof (rule ledger_inv_set_charge [OF inv1])
    show "charge l c \<le> u64_max" using inv by (rule charge_le_max)
    assume "c \<noteq> CallerOwned"
    then have "owned ?l0 + charge l c = owned l" using owned_set_charge [OF len, of c 0] by simp
    then show "owned l1 - charge l1 c + charge l c \<le> high_water_bytes l1"
      using le frame(2) inv c0 by (simp add: ledger_inv_def)
  qed
  moreover have "\<forall>c'. c' \<noteq> NativeCache \<longrightarrow> charge l' c' = charge l c'"
    using frame(3) len len1 l1(2) by (metis charge_set_charge)
  moreover have "charge l' c = charge l c" using l1(2) len1 by (simp add: charge_set_charge)
  ultimately show ?thesis using frame(1) by simp
qed

lemma replace_budget: "ledger_inv l \<Longrightarrow> budget_bytes (snd (ledger_replace c n l)) = budget_bytes l"
  using admit_inv [of "set_charge c 0 l" c n] ledger_inv_lower [of l 0 c]
  by (auto simp: ledger_replace_eq split: prod.splits sum.splits)

lemma replace_inv:
  assumes "ledger_inv l"
  shows "ledger_inv (snd (ledger_replace c n l))"
proof (cases "fst (ledger_replace c n l)")
  case (Inl e)
  then show ?thesis using replace_failed [OF assms] by (metis prod.collapse)
next
  case (Inr r)
  then show ?thesis
    using assms admit_inv [of "set_charge c 0 l" c n] ledger_inv_lower [of l 0 c]
    by (auto simp: ledger_replace_eq split: prod.splits sum.splits if_splits)
qed

section \<open>Runs\<close>

text \<open>A caller's view: any sequence of calls, whatever their outcomes.\<close>

datatype ledger_call =
    CallAdmit resource_category nat
  | CallRelease resource_category nat
  | CallReplace resource_category nat
  | CallClearNativeCache
  | CallReleaseAll
  | CallObserveWasmPages nat

fun ledger_step :: "ledger_call \<Rightarrow> resource_ledger \<Rightarrow> resource_ledger" where
  "ledger_step (CallAdmit c n) l = snd (admit c n l)"
| "ledger_step (CallRelease c n) l = snd (release c n l)"
| "ledger_step (CallReplace c n) l = snd (ledger_replace c n l)"
| "ledger_step CallClearNativeCache l = snd (clear_native_cache l)"
| "ledger_step CallReleaseAll l = release_all l"
| "ledger_step (CallObserveWasmPages n) l = observe_wasm_memory_pages n l"

lemma release_all_inv: "ledger_inv l \<Longrightarrow> ledger_inv (release_all l)"
  by (auto simp: ledger_inv_def release_all_def owned_def charge_def category_count_def numeral_eq_Suc)

lemma observe_inv: "ledger_inv l \<Longrightarrow> ledger_inv (observe_wasm_memory_pages n l)"
  by (simp add: observe_wasm_memory_pages_def ledger_inv_def)

interpretation ledger: metered_machine ledger_step ledger_inv owned budget_bytes
proof unfold_locales
  fix l call
  assume inv: "ledger_inv l"
  show "ledger_inv (ledger_step call l)"
    using inv admit_inv release_inv replace_inv clear_inv release_all_inv observe_inv
    by (cases call) auto
  show "owned l \<le> budget_bytes l" using inv by (simp add: ledger_inv_def)
  show "budget_bytes (ledger_step call l) = budget_bytes l"
    using inv admit_inv release_inv replace_budget clear_inv
    by (cases call) (auto simp: release_all_def observe_wasm_memory_pages_def)
qed

lemma high_water_run:
  "ledger_inv l \<Longrightarrow> owned (fold ledger_step calls l) \<le> high_water_bytes (fold ledger_step calls l) \<and>
     high_water_bytes (fold ledger_step calls l) \<le> budget_bytes l"
  using ledger.run_inv [of l calls] ledger.limit_run [of l calls] by (simp add: ledger_inv_def)

section \<open>Properties\<close>

text \<open>
  C16: Whatever sequence of calls a runtime makes on a fresh ledger, and whichever of them
  fail, the snapshot never reports more runtime-owned bytes than its high-water mark, nor a
  high-water mark above the configured budget; the total never overflows.
\<close>

theorem ledger_within_budget:
  assumes "ledger_new budget = Inr l" and "budget \<le> u64_max"
  shows "let s = snapshot (fold ledger_step calls l) in
    snap_runtime_owned_bytes s =
      snap_persistent_bytes s + snap_active_operation_bytes s +
      snap_ingress_output_bytes s + snap_native_cache_bytes s \<and>
    snap_runtime_owned_bytes s \<le> snap_high_water_bytes s \<and> snap_high_water_bytes s \<le> budget"
proof -
  have inv: "ledger_inv l" using assms by (rule ledger_new_inv)
  have b: "budget_bytes l = budget" using assms by (auto simp: ledger_new_def split: if_splits)
  show ?thesis
    using high_water_run [OF inv] ledger_inv_owned [OF ledger.run_inv [OF inv]] b
    by (simp add: snapshot_def Let_def owned_def charge_def)
qed

theorem ledger_within_budget_witness:
  "let s = snapshot (fold ledger_step [CallAdmit Persistent 60, CallAdmit NativeCache 30,
             CallAdmit ActiveOperation 35, CallAdmit IngressOutput 6]
             \<lparr>budget_bytes = 100, charged = [0, 0, 0, 0, 0], high_water_bytes = 0,
              reclaimed_native_cache_bytes = 0, wasm_memory_pages = 0,
              wasm_memory_high_water_pages = 0\<rparr>) in
   snap_runtime_owned_bytes s \<le> snap_high_water_bytes s \<and> snap_high_water_bytes s \<le> 100"
proof -
  have new: "ledger_new 100 = Inr \<lparr>budget_bytes = 100, charged = [0, 0, 0, 0, 0],
      high_water_bytes = 0, reclaimed_native_cache_bytes = 0, wasm_memory_pages = 0,
      wasm_memory_high_water_pages = 0\<rparr>"
    by (simp add: ledger_new_def category_count_def numeral_eq_Suc)
  show ?thesis
    using ledger_within_budget [OF new, of "[CallAdmit Persistent 60, CallAdmit NativeCache 30,
             CallAdmit ActiveOperation 35, CallAdmit IngressOutput 6]"]
    by (simp add: u64_max_def Let_def del: fold_simps ledger_step.simps)
qed

text \<open>
  A runtime-owned admission is granted exactly when the bytes fit the budget once the
  whole native cache has been given back; the cache itself is given up only when the
  bytes did not fit beside it, and a refusal changes no other charge.
\<close>

theorem admit_granted_iff:
  assumes "ledger_inv l" and "c \<noteq> CallerOwned"
    and "reclaimed_native_cache_bytes l + charge l NativeCache \<le> u64_max"
  shows "(is_ok (fst (admit c n l)) \<longleftrightarrow> owned l - charge l NativeCache + n \<le> budget_bytes l) \<and>
    (owned l + n \<le> budget_bytes l \<longrightarrow>
       (\<forall>c'. charge (snd (admit c n l)) c' = charge l c' + (if c' = c then n else 0))) \<and>
    (\<not> is_ok (fst (admit c n l)) \<longrightarrow>
       fails_with ResourceLimit (fst (admit c n l)) \<and>
       (\<forall>c'. c' \<noteq> NativeCache \<longrightarrow> charge (snd (admit c n l)) c' = charge l c'))"
proof -
  have len: "length (charged l) = category_count" using assms(1) by (simp add: ledger_inv_def)
  consider (fits) "owned l + n \<le> budget_bytes l"
    | (reclaims) "budget_bytes l < owned l + n" "owned l - charge l NativeCache + n \<le> budget_bytes l"
    | (refused) "budget_bytes l < owned l + n" "budget_bytes l < owned l - charge l NativeCache + n"
    by linarith
  then show ?thesis
  proof cases
    case fits
    then show ?thesis
      using admit_fits [OF assms(1,2) fits] len by (auto simp: admitted_def charge_set_charge)
  next
    case reclaims
    then show ?thesis using admit_reclaims [OF assms(1,2) reclaims(1) assms(3) reclaims(2)] by simp
  next
    case refused
    then show ?thesis
      using admit_refused [OF assms(1,2) refused(1) assms(3) refused(2)] len
      by (auto simp: reclaimed_def charge_set_charge)
  qed
qed

text \<open>
  C17: A failed replacement reports a resource limit, leaves the replaced category with the
  charge it had and every other category untouched except native cache, which may have
  been reclaimed by the attempt; the ledger stays within its budget.
\<close>

theorem replace_failure_restores:
  assumes "ledger_inv l" and "ledger_replace c n l = (Inl e, l')"
  shows "err_code e = ResourceLimit \<and> charge l' c = charge l c \<and> owned l' \<le> budget_bytes l' \<and>
    (\<forall>c'. c' \<noteq> NativeCache \<longrightarrow> charge l' c' = charge l c')"
  using replace_failed [OF assms] ledger.level_le [of l'] by simp

definition full_ledger :: resource_ledger where
  "full_ledger = \<lparr>budget_bytes = 100, charged = [60, 0, 5, 30, 0], high_water_bytes = 95,
     reclaimed_native_cache_bytes = 0, wasm_memory_pages = 0, wasm_memory_high_water_pages = 0\<rparr>"

lemma full_ledger_inv: "ledger_inv full_ledger"
  by (simp add: full_ledger_def ledger_inv_def owned_def charge_def category_count_def u64_max_def)

theorem admit_granted_iff_witness:
  "is_ok (fst (admit ActiveOperation 35 full_ledger)) \<and> \<not> is_ok (fst (admit ActiveOperation 36 full_ledger))"
  using admit_granted_iff [OF full_ledger_inv, of ActiveOperation 35]
    admit_granted_iff [OF full_ledger_inv, of ActiveOperation 36]
  by (simp add: full_ledger_def owned_def charge_def u64_max_def)

theorem replace_failure_restores_witness:
  "\<exists>e l'. ledger_replace IngressOutput 41 full_ledger = (Inl e, l') \<and> charge l' IngressOutput = 5 \<and>
     charge l' NativeCache = 0"
proof -
  let ?l = "set_charge IngressOutput 0 full_ledger"
  have inv: "ledger_inv ?l" by (rule ledger_inv_lower [OF full_ledger_inv]) simp
  obtain e where e: "admit IngressOutput 41 ?l = (Inl e, reclaimed ?l)"
    using admit_refused [OF inv, of IngressOutput 41]
    by (auto simp: full_ledger_def owned_def charge_def set_charge_def u64_max_def)
  then obtain l' where run: "ledger_replace IngressOutput 41 full_ledger = (Inl e, l')"
    and l': "l' = set_charge IngressOutput 5 (reclaimed ?l)"
    by (simp add: ledger_replace_eq) (simp add: full_ledger_def charge_def)
  have cache: "charge l' NativeCache = 0"
    unfolding l' by (simp add: full_ledger_def charge_def set_charge_def reclaimed_def)
  show ?thesis
    using replace_failure_restores [OF full_ledger_inv run] run cache
    by (auto simp: full_ledger_def charge_def)
qed

end
