(* ===== verification/Table_Model.thy ===== *)
theory Table_Model
  imports Errors
begin

text \<open>
  src/src/model.rs (first half) and \<open>TableShape\<close> of src/src/lib.rs: progressive extents,
  recursive column types, versioned schemas, capabilities, table metadata and the
  rectangular range requests every reader accepts.

  The lemmas characterise what each validating constructor accepts, show that an accepted
  range can be traversed without leaving the integers a JavaScript number holds, and that
  the nesting bound limits every chain of nested types.
\<close>

section \<open>Limits and shared checks\<close>

definition max_safe_integer :: nat where
  "max_safe_integer = 9007199254740991"

definition batch_layout_version :: nat where
  "batch_layout_version = 1"

definition max_data_type_nesting_depth :: nat where
  "max_data_type_nesting_depth = 64"

lemma max_safe_integer_less: "max_safe_integer < u64_max" "max_safe_integer + max_safe_integer \<le> u64_max"
  by (simp_all add: max_safe_integer_def u64_max_def)

definition validate_safe_integer :: "string \<Rightarrow> nat \<Rightarrow> unit result" where
  "validate_safe_integer label v =
     (if v > max_safe_integer
      then Inl (with_detail
             (new_error InvalidArgument (label @ '' exceeds the JavaScript safe integer limit''))
             ''value'' (DetailString (nat_to_dec v)))
      else Inr ())"

definition checked_end :: "string \<Rightarrow> nat \<Rightarrow> nat \<Rightarrow> nat result" where
  "checked_end label start count =
     rbind (ok_or (checked_add start count)
              (new_error InvalidRange (label @ '' range overflows u64''))) (\<lambda>range_end.
       if range_end > max_safe_integer
       then Inl (new_error InvalidRange
                  (label @ '' range end exceeds the JavaScript safe integer limit''))
       else Inr range_end)"

lemma validate_safe_integer_ok [simp]: "validate_safe_integer label v = Inr u \<longleftrightarrow> v \<le> max_safe_integer"
  by (auto simp: validate_safe_integer_def)

lemma validate_safe_integer_err:
  "max_safe_integer < v \<Longrightarrow> fails_with InvalidArgument (validate_safe_integer label v)"
  by (simp add: validate_safe_integer_def)

lemma checked_end_ok [simp]:
  "checked_end label a n = Inr e \<longleftrightarrow> e = a + n \<and> a + n \<le> max_safe_integer"
  using max_safe_integer_less by (auto simp: checked_end_def)

lemma checked_end_err:
  "max_safe_integer < a + n \<Longrightarrow> fails_with InvalidRange (checked_end label a n)"
  by (cases "checked_add a n") (auto simp: checked_end_def)

section \<open>Extents\<close>

record table_shape =
  shape_rows :: nat
  shape_columns :: nat

definition table_shape_new :: "nat \<Rightarrow> nat \<Rightarrow> table_shape" where
  "table_shape_new rows columns = \<lparr>shape_rows = rows, shape_columns = columns\<rparr>"

definition shape_is_empty :: "table_shape \<Rightarrow> bool" where
  "shape_is_empty s \<longleftrightarrow> shape_rows s = 0 \<or> shape_columns s = 0"

definition checked_cell_count :: "table_shape \<Rightarrow> nat option" where
  "checked_cell_count s = checked_mul (shape_rows s) (shape_columns s)"

datatype axis_extent = Exact nat | AtLeast nat | UnknownExtent

definition axis_exact :: "nat \<Rightarrow> axis_extent result" where
  "axis_exact v = rbind (validate_safe_integer ''extent'' v) (\<lambda>_. Inr (Exact v))"

definition axis_at_least :: "nat \<Rightarrow> axis_extent result" where
  "axis_at_least v = rbind (validate_safe_integer ''extent'' v) (\<lambda>_. Inr (AtLeast v))"

fun axis_value :: "axis_extent \<Rightarrow> nat option" where
  "axis_value (Exact v) = Some v"
| "axis_value (AtLeast v) = Some v"
| "axis_value UnknownExtent = None"

fun axis_is_exact :: "axis_extent \<Rightarrow> bool" where
  "axis_is_exact (Exact v) = True"
| "axis_is_exact _ = False"

record table_extent =
  extent_rows :: axis_extent
  extent_columns :: axis_extent

definition extent_from_shape :: "table_shape \<Rightarrow> table_extent" where
  "extent_from_shape s = \<lparr>extent_rows = Exact (shape_rows s), extent_columns = Exact (shape_columns s)\<rparr>"

definition exact_shape :: "table_extent \<Rightarrow> table_shape option" where
  "exact_shape e =
     (case (extent_rows e, extent_columns e) of
        (Exact rows, Exact columns) \<Rightarrow> Some (table_shape_new rows columns)
      | _ \<Rightarrow> None)"

lemma exact_shape_from_shape: "exact_shape (extent_from_shape s) = Some s"
  by (simp add: exact_shape_def extent_from_shape_def table_shape_new_def)

section \<open>Recursive column types\<close>

datatype time_unit = Second | Millisecond | Microsecond | Nanosecond

datatype interval_unit = YearMonth | DayTime | MonthDayNano

datatype union_mode = Sparse | Dense

text \<open>
  \<open>i8\<close> and \<open>i32\<close> payloads are integers: no operation of the model computes with them. Field
  metadata is the map its \<open>BTreeMap\<close> stands for.
\<close>

datatype table_data_type =
    TUnknown | TNull | TBoolean
  | TInt8 | TInt16 | TInt32 | TInt64 | TUInt8 | TUInt16 | TUInt32 | TUInt64
  | TFloat16 | TFloat32 | TFloat64
  | TTimestamp time_unit "string option"
  | TDate32 | TDate64
  | TTime32 time_unit | TTime64 time_unit | TDuration time_unit | TInterval interval_unit
  | TBinary | TFixedSizeBinary int | TLargeBinary | TBinaryView
  | TUtf8 | TLargeUtf8 | TUtf8View
  | TList table_field | TListView table_field | TFixedSizeList table_field int
  | TLargeList table_field | TLargeListView table_field
  | TStruct "table_field list"
  | TUnion "(int \<times> table_field) list" union_mode
  | TDictionary table_data_type table_data_type
  | TDecimal32 nat int | TDecimal64 nat int | TDecimal128 nat int | TDecimal256 nat int
  | TMap table_field bool
  | TRunEndEncoded table_field table_field
  | TExtension string "string option" table_data_type
and table_field =
    TableField (field_name: string) (field_data_type: table_data_type) (field_nullable: bool)
      (field_metadata: "string \<Rightarrow> string option")

definition table_field_new :: "string \<Rightarrow> table_data_type \<Rightarrow> bool \<Rightarrow> table_field" where
  "table_field_new name data_type nullable = TableField name data_type nullable Map.empty"

fun insert_metadata :: "string \<Rightarrow> string \<Rightarrow> table_field \<Rightarrow> table_field" where
  "insert_metadata key v (TableField n t b m) = TableField n t b (m(key \<mapsto> v))"

fun nesting_depth :: "table_data_type \<Rightarrow> nat" and field_depth :: "table_field \<Rightarrow> nat" where
  "nesting_depth (TList f) = saturating_add 1 (field_depth f)"
| "nesting_depth (TListView f) = saturating_add 1 (field_depth f)"
| "nesting_depth (TFixedSizeList f n) = saturating_add 1 (field_depth f)"
| "nesting_depth (TLargeList f) = saturating_add 1 (field_depth f)"
| "nesting_depth (TLargeListView f) = saturating_add 1 (field_depth f)"
| "nesting_depth (TMap f sorted_keys) = saturating_add 1 (field_depth f)"
| "nesting_depth (TStruct fs) = saturating_add 1 (foldr max (map field_depth fs) 0)"
| "nesting_depth (TUnion fs mode) = saturating_add 1 (foldr max (map (\<lambda>(_, f). field_depth f) fs) 0)"
| "nesting_depth (TDictionary k v) = saturating_add 1 (max (nesting_depth k) (nesting_depth v))"
| "nesting_depth (TRunEndEncoded r v) = saturating_add 1 (max (field_depth r) (field_depth v))"
| "nesting_depth (TExtension n m s) = saturating_add 1 (nesting_depth s)"
| "nesting_depth _ = saturating_add 1 0"
| "field_depth (TableField n t b m) = nesting_depth t"

text \<open>The types written directly inside a type.\<close>

fun child_types :: "table_data_type \<Rightarrow> table_data_type list" where
  "child_types (TList f) = [field_data_type f]"
| "child_types (TListView f) = [field_data_type f]"
| "child_types (TFixedSizeList f n) = [field_data_type f]"
| "child_types (TLargeList f) = [field_data_type f]"
| "child_types (TLargeListView f) = [field_data_type f]"
| "child_types (TMap f sorted_keys) = [field_data_type f]"
| "child_types (TStruct fs) = map field_data_type fs"
| "child_types (TUnion fs mode) = map (\<lambda>(_, f). field_data_type f) fs"
| "child_types (TDictionary k v) = [k, v]"
| "child_types (TRunEndEncoded r v) = [field_data_type r, field_data_type v]"
| "child_types (TExtension n m s) = [s]"
| "child_types _ = []"

lemma field_depth_eq: "field_depth f = nesting_depth (field_data_type f)"
  by (cases f) simp

lemma foldr_max_ge: "x \<in> set xs \<Longrightarrow> x \<le> foldr max xs (0 :: nat)"
  by (induction xs) auto

lemma foldr_max_map_ge: "x \<in> set xs \<Longrightarrow> f x \<le> foldr max (map f xs) (0 :: nat)"
  by (rule foldr_max_ge) simp

lemma nesting_depth_child:
  assumes "c \<in> set (child_types t)"
  shows "saturating_add 1 (nesting_depth c) \<le> nesting_depth t"
  using assms
  by (cases t)
    (auto simp: field_depth_eq saturating_add_def le_max_iff_disj case_prod_unfold
      simp flip: field_depth_eq
      dest!: foldr_max_map_ge [where f = field_depth]
        foldr_max_map_ge [where f = "\<lambda>p. field_depth (snd p)"])

lemma nesting_depth_pos: "0 < nesting_depth t"
  by (cases t) (auto simp: saturating_add_def u64_max_def)

text \<open>A chain of nested types, from the outermost inwards.\<close>

fun type_chain :: "table_data_type \<Rightarrow> table_data_type list \<Rightarrow> bool" where
  "type_chain t [] = True"
| "type_chain t (c # cs) = (c \<in> set (child_types t) \<and> type_chain c cs)"

lemma type_chain_depth: "type_chain t cs \<Longrightarrow> nesting_depth t < u64_max \<Longrightarrow> length cs < nesting_depth t"
proof (induction cs arbitrary: t)
  case Nil
  then show ?case using nesting_depth_pos by simp
next
  case (Cons c cs)
  have "saturating_add 1 (nesting_depth c) \<le> nesting_depth t"
    using Cons.prems(1) nesting_depth_child by simp
  then have "1 + nesting_depth c \<le> nesting_depth t"
    using Cons.prems(2) by (auto simp: saturating_add_def min_def split: if_splits)
  moreover have "length cs < nesting_depth c"
    using Cons.IH [of c] Cons.prems calculation by simp
  ultimately show ?case by simp
qed

section \<open>Schemas\<close>

text \<open>A JSON value, opaque to the program.\<close>

datatype json =
    JNull | JBool bool | JNumber string | JString string
  | JArray "json list" | JObject "(string \<times> json) list"

record column_schema =
  col_id :: string
  col_name :: string
  col_index :: nat
  col_data_type :: table_data_type
  col_nullable :: bool
  col_extensions :: "string \<rightharpoonup> json"

definition column_schema_new ::
    "string \<Rightarrow> string \<Rightarrow> nat \<Rightarrow> table_data_type \<Rightarrow> bool \<Rightarrow> column_schema result" where
  "column_schema_new cid name index data_type nullable =
     rbind (validate_safe_integer ''column index'' index) (\<lambda>_.
       if cid = [] then Inl (new_error InvalidArgument ''column id must not be empty'')
       else Inr \<lparr>col_id = cid, col_name = name, col_index = index, col_data_type = data_type,
                 col_nullable = nullable, col_extensions = Map.empty\<rparr>)"

text \<open>\<open>insert_extension\<close> leaves the column as it was when the key is not namespaced.\<close>

definition insert_extension ::
    "string \<Rightarrow> json \<Rightarrow> (column_schema, tabulark_error, unit) prog" where
  "insert_extension key v =
     (if CHR '':'' \<notin> set key
      then pfail (new_error InvalidArgument
              (''column extension keys must be namespaced with '' @ [CHR 0x27, CHR '':'', CHR 0x27]))
      else pmodify (\<lambda>c. c\<lparr>col_extensions := (col_extensions c)(key \<mapsto> v)\<rparr>))"

record schema =
  schema_version :: nat
  schema_columns :: "column_schema list"

definition schema_new :: "nat \<Rightarrow> column_schema list \<Rightarrow> schema result" where
  "schema_new version columns =
     rbind (validate_safe_integer ''schema version'' version) (\<lambda>_.
     rbind (rforeach (\<lambda>(expected, column).
              if col_index column \<noteq> expected
              then Inl (new_error InvalidArgument
                          ''schema column indexes must be contiguous and ordered'')
              else Inr ()) (enumerate 0 columns)) (\<lambda>_.
       Inr \<lparr>schema_version = version, schema_columns = columns\<rparr>))"

definition schema_len :: "schema \<Rightarrow> nat" where
  "schema_len s = length (schema_columns s)"

definition schema_is_empty :: "schema \<Rightarrow> bool" where
  "schema_is_empty s \<longleftrightarrow> schema_columns s = []"

lemma column_schema_new_ok:
  "column_schema_new cid name index t nullable = Inr c \<longleftrightarrow>
     index \<le> max_safe_integer \<and> cid \<noteq> [] \<and>
     c = \<lparr>col_id = cid, col_name = name, col_index = index, col_data_type = t,
          col_nullable = nullable, col_extensions = Map.empty\<rparr>"
  by (auto simp: column_schema_new_def)

lemma schema_new_ok:
  "schema_new v cs = Inr s \<longleftrightarrow>
     v \<le> max_safe_integer \<and> (\<forall>i < length cs. col_index (cs ! i) = i) \<and>
     s = \<lparr>schema_version = v, schema_columns = cs\<rparr>"
proof -
  have "(\<forall>x \<in> set (enumerate 0 cs). col_index (snd x) = fst x) \<longleftrightarrow> (\<forall>i < length cs. col_index (cs ! i) = i)"
    by (simp add: all_set_conv_all_nth nth_enumerate_eq)
  then show ?thesis
    by (auto simp: schema_new_def rforeach_ok case_prod_unfold split: if_splits)
qed

lemma schema_new_error: "schema_new v cs = Inl e \<Longrightarrow> err_code e = InvalidArgument"
proof -
  have "rforeach (\<lambda>(expected, column).
          if col_index column \<noteq> expected
          then Inl (new_error InvalidArgument m) else Inr ()) xs = Inl e \<Longrightarrow> err_code e = InvalidArgument"
    for m xs
    by (induction xs) (auto simp: rbind_Inl_iff split: if_splits)
  then show "schema_new v cs = Inl e \<Longrightarrow> err_code e = InvalidArgument"
    by (auto simp: schema_new_def rbind_Inl_iff validate_safe_integer_def split: if_splits)
qed

section \<open>Table metadata\<close>

datatype random_access = IndexedPrefix | FullAccess

record capabilities =
  cap_random_access :: random_access
  cap_typed_values :: bool
  cap_search :: bool
  cap_sort :: bool
  cap_filter :: bool
  cap_multi_table :: bool

definition capabilities_delimited :: "random_access \<Rightarrow> capabilities" where
  "capabilities_delimited a = \<lparr>cap_random_access = a, cap_typed_values = False, cap_search = False,
     cap_sort = False, cap_filter = False, cap_multi_table = False\<rparr>"

definition capabilities_typed :: "random_access \<Rightarrow> capabilities" where
  "capabilities_typed a = \<lparr>cap_random_access = a, cap_typed_values = True, cap_search = False,
     cap_sort = False, cap_filter = False, cap_multi_table = False\<rparr>"

definition capabilities_spreadsheet :: "random_access \<Rightarrow> capabilities" where
  "capabilities_spreadsheet a = \<lparr>cap_random_access = a, cap_typed_values = False, cap_search = False,
     cap_sort = False, cap_filter = False, cap_multi_table = True\<rparr>"

record table_metadata =
  meta_table_id :: string
  meta_name :: string
  meta_revision :: nat
  meta_extent :: table_extent
  meta_schema :: schema
  meta_capabilities :: capabilities

definition table_metadata_new ::
    "string \<Rightarrow> string \<Rightarrow> nat \<Rightarrow> table_extent \<Rightarrow> schema \<Rightarrow> capabilities \<Rightarrow> table_metadata" where
  "table_metadata_new tid name revision extent s c =
     \<lparr>meta_table_id = tid, meta_name = name, meta_revision = revision, meta_extent = extent,
      meta_schema = s, meta_capabilities = c\<rparr>"

section \<open>Range requests\<close>

record range_request =
  row_start :: nat
  row_count :: nat
  column_start :: nat
  column_count :: nat

definition row_end :: "range_request \<Rightarrow> nat result" where
  "row_end r = checked_end ''row'' (row_start r) (row_count r)"

definition column_end :: "range_request \<Rightarrow> nat result" where
  "column_end r = checked_end ''column'' (column_start r) (column_count r)"

definition cell_count :: "range_request \<Rightarrow> nat result" where
  "cell_count r = ok_or (checked_mul (row_count r) (column_count r))
                    (new_error InvalidRange ''range cell count overflows u64'')"

definition validate_public :: "range_request \<Rightarrow> unit result" where
  "validate_public r =
     rbind (validate_safe_integer ''row start'' (row_start r)) (\<lambda>_.
     rbind (validate_safe_integer ''row count'' (row_count r)) (\<lambda>_.
     rbind (validate_safe_integer ''column start'' (column_start r)) (\<lambda>_.
     rbind (validate_safe_integer ''column count'' (column_count r)) (\<lambda>_.
     rbind (row_end r) (\<lambda>_.
     rbind (column_end r) (\<lambda>_. Inr ()))))))"

definition range_request_new :: "nat \<Rightarrow> nat \<Rightarrow> nat \<Rightarrow> nat \<Rightarrow> range_request result" where
  "range_request_new rs rc cs cc =
     (let request = \<lparr>row_start = rs, row_count = rc, column_start = cs, column_count = cc\<rparr> in
      rbind (validate_public request) (\<lambda>_. Inr request))"

definition range_valid :: "range_request \<Rightarrow> bool" where
  "range_valid r \<longleftrightarrow> row_start r + row_count r \<le> max_safe_integer \<and>
                    column_start r + column_count r \<le> max_safe_integer"

lemma validate_public_ok [simp]: "validate_public r = Inr u \<longleftrightarrow> range_valid r"
  by (auto simp: validate_public_def range_valid_def row_end_def column_end_def)

lemma range_request_new_ok:
  "range_request_new rs rc cs cc = Inr r \<longleftrightarrow>
     r = \<lparr>row_start = rs, row_count = rc, column_start = cs, column_count = cc\<rparr> \<and> range_valid r"
  by (auto simp: range_request_new_def Let_def)

lemma range_valid_ends:
  "range_valid r \<Longrightarrow> row_end r = Inr (row_start r + row_count r)"
  "range_valid r \<Longrightarrow> column_end r = Inr (column_start r + column_count r)"
  by (simp_all add: range_valid_def row_end_def column_end_def)

lemma validate_public_codes:
  assumes "validate_public r = Inl e"
  shows "if max_safe_integer < row_start r \<or> max_safe_integer < row_count r \<or>
            max_safe_integer < column_start r \<or> max_safe_integer < column_count r
         then err_code e = InvalidArgument else err_code e = InvalidRange"
  using assms
  by (auto simp: validate_public_def rbind_Inl_iff row_end_def column_end_def
      validate_safe_integer_def checked_end_def split: if_splits)

section \<open>Properties\<close>

text \<open>
  A range request is accepted exactly when both of its exclusive ends are JavaScript-safe
  integers; a refusal distinguishes an unrepresentable coordinate from an unrepresentable
  end; and the ends of an accepted request are computed without error.
\<close>

theorem range_request_accepts:
  "(is_ok (range_request_new rs rc cs cc) \<longleftrightarrow>
      rs + rc \<le> max_safe_integer \<and> cs + cc \<le> max_safe_integer) \<and>
   (\<forall>e. range_request_new rs rc cs cc = Inl e \<longrightarrow>
      err_code e = (if max_safe_integer < max (max rs rc) (max cs cc) then InvalidArgument
                    else InvalidRange)) \<and>
   (\<forall>r. range_request_new rs rc cs cc = Inr r \<longrightarrow>
      row_end r = Inr (rs + rc) \<and> column_end r = Inr (cs + cc))"
proof (intro conjI allI impI)
  show "is_ok (range_request_new rs rc cs cc) \<longleftrightarrow>
      rs + rc \<le> max_safe_integer \<and> cs + cc \<le> max_safe_integer"
    by (simp add: is_ok_iff range_request_new_ok range_valid_def)
next
  fix e assume "range_request_new rs rc cs cc = Inl e"
  then have "validate_public \<lparr>row_start = rs, row_count = rc, column_start = cs, column_count = cc\<rparr> = Inl e"
    by (auto simp: range_request_new_def Let_def rbind_Inl_iff)
  from validate_public_codes [OF this]
  show "err_code e = (if max_safe_integer < max (max rs rc) (max cs cc) then InvalidArgument
                      else InvalidRange)"
    by (simp add: less_max_iff_disj disj_assoc)
next
  fix r assume "range_request_new rs rc cs cc = Inr r"
  then show "row_end r = Inr (rs + rc)" and "column_end r = Inr (cs + cc)"
    by (auto simp: range_request_new_ok range_valid_ends)
qed

theorem range_request_accepts_witness:
  "is_ok (range_request_new 4 2 3 1) \<and> \<not> is_ok (range_request_new 9007199254740991 1 0 1)"
  using range_request_accepts [of 4 2 3 1] range_request_accepts [of 9007199254740991 1 0 1]
  by (simp add: max_safe_integer_def)

text \<open>
  A schema snapshot is built exactly from columns whose indexes are their positions,
  under a JavaScript-safe version; every refusal is an invalid-argument error.
\<close>

theorem schema_new_contiguous:
  "(is_ok (schema_new v cs) \<longleftrightarrow> v \<le> max_safe_integer \<and> map col_index cs = [0..<length cs]) \<and>
   (\<forall>e. schema_new v cs = Inl e \<longrightarrow> err_code e = InvalidArgument)"
proof -
  have "(\<forall>i < length cs. col_index (cs ! i) = i) \<longleftrightarrow> map col_index cs = [0..<length cs]"
    unfolding list_eq_iff_nth_eq by (simp only: length_map length_upt nth_map) auto
  then have "is_ok (schema_new v cs) \<longleftrightarrow> v \<le> max_safe_integer \<and> map col_index cs = [0..<length cs]"
    by (simp only: is_ok_iff schema_new_ok) blast
  then show ?thesis using schema_new_error by blast
qed

theorem schema_new_contiguous_witness:
  "is_ok (schema_new 1 [\<lparr>col_id = ''c0'', col_name = ''a'', col_index = 0, col_data_type = TUtf8,
                         col_nullable = True, col_extensions = Map.empty\<rparr>])"
  using schema_new_contiguous [of 1 "[\<lparr>col_id = ''c0'', col_name = ''a'', col_index = 0,
      col_data_type = TUtf8, col_nullable = True, col_extensions = Map.empty\<rparr>]"]
  by (simp add: max_safe_integer_def)

end
