(* ===== verification/Utf8.thy ===== *)
theory Utf8
  imports Prelude
begin

text \<open>
  The two UTF-8 functions of Rust's standard library the program decides with:
  \<open>str::from_utf8\<close> (is a byte sequence well formed) and \<open>String::from_utf8_lossy\<close> (each
  maximal ill-formed subsequence becomes the three bytes of U+FFFD).
\<close>

definition byte_between :: "byte \<Rightarrow> byte \<Rightarrow> byte \<Rightarrow> bool" where
  "byte_between lo hi b \<longleftrightarrow> lo \<le> b \<and> b \<le> hi"

definition is_continuation :: "byte \<Rightarrow> bool" where
  "is_continuation b = byte_between 0x80 0xBF b"

text \<open>The second byte allowed after a lead byte of a three- or four-byte sequence.\<close>

definition second_byte_ok :: "byte \<Rightarrow> byte \<Rightarrow> bool" where
  "second_byte_ok lead b =
     (if lead = 0xE0 then byte_between 0xA0 0xBF b
      else if lead = 0xED then byte_between 0x80 0x9F b
      else if lead = 0xF0 then byte_between 0x90 0xBF b
      else if lead = 0xF4 then byte_between 0x80 0x8F b
      else is_continuation b)"

text \<open>
  One step from a lead byte: whether a character starts here, and how many bytes the
  character or the ill-formed subsequence takes.
\<close>

definition utf8_step :: "byte \<Rightarrow> byte list \<Rightarrow> bool \<times> nat" where
  "utf8_step b bs =
     (if b < 0x80 then (True, 1)
      else if byte_between 0xC2 0xDF b then
        (case bs of [] \<Rightarrow> (False, 1) | c # _ \<Rightarrow> if is_continuation c then (True, 2) else (False, 1))
      else if byte_between 0xE0 0xEF b then
        (case bs of [] \<Rightarrow> (False, 1)
         | c # cs \<Rightarrow> if \<not> second_byte_ok b c then (False, 1)
            else (case cs of [] \<Rightarrow> (False, 2)
                  | d # _ \<Rightarrow> if is_continuation d then (True, 3) else (False, 2)))
      else if byte_between 0xF0 0xF4 b then
        (case bs of [] \<Rightarrow> (False, 1)
         | c # cs \<Rightarrow> if \<not> second_byte_ok b c then (False, 1)
            else (case cs of [] \<Rightarrow> (False, 2)
                  | d # ds \<Rightarrow> if \<not> is_continuation d then (False, 2)
                     else (case ds of [] \<Rightarrow> (False, 3)
                           | e # _ \<Rightarrow> if is_continuation e then (True, 4) else (False, 3))))
      else (False, 1))"

fun utf8_valid :: "byte list \<Rightarrow> bool" where
  "utf8_valid [] = True"
| "utf8_valid (b # bs) = (fst (utf8_step b bs) \<and> utf8_valid (drop (snd (utf8_step b bs) - 1) bs))"

text \<open>A string and its UTF-8 bytes: one character stands for one byte.\<close>

definition string_of_bytes :: "byte list \<Rightarrow> string" where
  "string_of_bytes bytes = map (\<lambda>b. char_of (unat b)) bytes"

definition bytes_of_string :: "string \<Rightarrow> byte list" where
  "bytes_of_string s = map (\<lambda>c. word_of_nat (of_char c)) s"

lemma bytes_of_string_inverse [simp]: "string_of_bytes (bytes_of_string s) = s"
proof -
  have "char_of (unat (word_of_nat (of_char c) :: byte)) = c" for c
  proof -
    have "of_char c < (256 :: nat)" using nat_of_char_less_256 by simp
    then have "unat (word_of_nat (of_char c) :: byte) = of_char c" by (simp add: unat_of_nat)
    then show ?thesis by simp
  qed
  then show ?thesis unfolding string_of_bytes_def bytes_of_string_def map_map by (intro map_idI) simp
qed

lemma string_of_bytes_inverse [simp]: "bytes_of_string (string_of_bytes bs) = bs"
proof -
  have "(word_of_nat (of_char (char_of (unat b) :: char)) :: byte) = b" for b
  proof -
    have "unat b < 256" using unsigned_less [of b, where ?'a = nat] by simp
    then show ?thesis by simp
  qed
  then show ?thesis unfolding string_of_bytes_def bytes_of_string_def map_map by (intro map_idI) simp
qed

lemma length_bytes_of_string [simp]: "length (bytes_of_string s) = length s"
  by (simp add: bytes_of_string_def)

lemma length_string_of_bytes [simp]: "length (string_of_bytes bs) = length bs"
  by (simp add: string_of_bytes_def)

definition replacement_character :: "byte list" where
  "replacement_character = [0xEF, 0xBF, 0xBD]"

fun utf8_lossy :: "byte list \<Rightarrow> byte list" where
  "utf8_lossy [] = []"
| "utf8_lossy (b # bs) =
     (if fst (utf8_step b bs) then take (snd (utf8_step b bs)) (b # bs) else replacement_character) @
     utf8_lossy (drop (snd (utf8_step b bs) - 1) bs)"

lemma utf8_step_pos: "0 < snd (utf8_step b bs)"
  by (auto simp: utf8_step_def split: list.splits)

lemma utf8_step_append:
  "fst (utf8_step b bs) \<Longrightarrow>
     utf8_step b (bs @ cs) = utf8_step b bs \<and> snd (utf8_step b bs) \<le> Suc (length bs)"
  by (auto simp: utf8_step_def split: list.splits if_splits)

lemma utf8_step_take:
  "fst (utf8_step b bs) \<Longrightarrow> utf8_step b (take (snd (utf8_step b bs) - 1) bs) = utf8_step b bs"
  by (auto simp: utf8_step_def split: list.splits if_splits)

lemma utf8_valid_append: "utf8_valid xs \<Longrightarrow> utf8_valid (xs @ ys) = utf8_valid ys"
proof (induction xs rule: utf8_valid.induct)
  case 1
  then show ?case by simp
next
  case (2 b bs)
  then have step: "fst (utf8_step b bs)" by simp
  from utf8_step_append [OF step, of ys]
  have "utf8_step b (bs @ ys) = utf8_step b bs" and "snd (utf8_step b bs) - 1 \<le> length bs" by auto
  then show ?case using 2 by simp
qed

lemma utf8_valid_replacement: "utf8_valid replacement_character"
  by (simp add: replacement_character_def utf8_step_def byte_between_def is_continuation_def
      second_byte_ok_def)

lemma utf8_lossy_valid: "utf8_valid (utf8_lossy xs)"
proof (induction xs rule: utf8_lossy.induct)
  case 1
  then show ?case by simp
next
  case (2 b bs)
  obtain ok n where step: "utf8_step b bs = (ok, n)" by (cases "utf8_step b bs")
  have "utf8_valid (if ok then take n (b # bs) else replacement_character)"
  proof (cases ok)
    case True
    have "0 < n" using utf8_step_pos [of b bs] step by simp
    then have t: "take n (b # bs) = b # take (n - 1) bs" by (cases n) auto
    have "utf8_step b (take (n - 1) bs) = (True, n)"
      using utf8_step_take [of b bs] step True by simp
    then show ?thesis using True t by simp
  next
    case False
    then show ?thesis by (simp add: utf8_valid_replacement)
  qed
  then show ?case using 2 step by (cases ok) (simp_all add: utf8_valid_append)
qed

lemma utf8_lossy_id: "utf8_valid xs \<Longrightarrow> utf8_lossy xs = xs"
proof (induction xs rule: utf8_valid.induct)
  case 1
  then show ?case by simp
next
  case (2 b bs)
  have "0 < snd (utf8_step b bs)" by (rule utf8_step_pos)
  then have "take (snd (utf8_step b bs)) (b # bs) = b # take (snd (utf8_step b bs) - 1) bs"
    by (cases "snd (utf8_step b bs)") auto
  then show ?case using 2 by simp
qed

lemma utf8_valid_concat: "\<forall>x \<in> set xs. utf8_valid x \<Longrightarrow> utf8_valid (concat xs)"
  by (induction xs) (auto simp: utf8_valid_append)

end
