(* ===== verification/Batches.thy ===== *)
theory Batches
  imports Table_Model Utf8
begin

unbundle bit_operations_syntax

text \<open>
  src/src/model.rs (second half): the encoded batches that cross the Worker boundary. A
  string column is concatenated UTF-8 with 32-bit offsets and a validity bitmap; a typed
  batch is a pool of byte buffers and recursive descriptors that point into it; a string
  batch is converted to a typed one with its buffers deduplicated.
\<close>

section \<open>String columns\<close>

record string_column_batch =
  scb_column_id :: string
  scb_data :: "byte list"
  scb_offsets :: "nat list"
  scb_validity :: "byte list"

fun windows_ordered :: "nat list \<Rightarrow> bool" where
  "windows_ordered (a # b # rest) = (a \<le> b \<and> windows_ordered (b # rest))"
| "windows_ordered _ = True"

definition string_column_batch_new ::
    "string \<Rightarrow> byte list \<Rightarrow> nat list \<Rightarrow> byte list \<Rightarrow> string_column_batch result" where
  "string_column_batch_new cid data offsets validity =
     (if offsets = [] \<or> offsets ! 0 \<noteq> 0
      then Inl (new_error InvalidArgument ''string offsets must start with zero'')
      else if \<not> windows_ordered offsets
      then Inl (new_error InvalidArgument ''string offsets must be monotonic'')
      else if last offsets \<noteq> length data
      then Inl (new_error InvalidArgument ''the final string offset must equal the data length'')
      else if length validity \<noteq> div_ceil (length offsets - 1) 8
      then Inl (new_error InvalidArgument
                  ''validity bitmap length does not match the value count'')
      else if \<not> utf8_valid data
      then Inl (new_error InvalidArgument ''string column data must be valid UTF-8'')
      else Inr \<lparr>scb_column_id = cid, scb_data = data, scb_offsets = offsets, scb_validity = validity\<rparr>)"

definition scb_len :: "string_column_batch \<Rightarrow> nat" where
  "scb_len b = saturating_sub (length (scb_offsets b)) 1"

definition bit_mask :: "nat \<Rightarrow> byte" where
  "bit_mask i = push_bit (i mod 8) 1"

text \<open>\<open>value\<close>: outside the column, null, or the decoded text (absent when ill formed).\<close>

definition scb_value :: "string_column_batch \<Rightarrow> nat \<Rightarrow> byte list option option run" where
  "scb_value b i =
     (if i \<ge> scb_len b then Returns None
      else run_bind (index_get (scb_validity b) (i div 8)) (\<lambda>byte.
        if byte AND bit_mask i = 0 then Returns (Some None)
        else run_bind (index_get (scb_offsets b) i) (\<lambda>start.
             run_bind (index_get (scb_offsets b) (i + 1)) (\<lambda>stop.
             run_bind (slice_get (scb_data b) start stop) (\<lambda>text.
               Returns (Some (if utf8_valid text then Some text else None)))))))"

definition scb_wf :: "string_column_batch \<Rightarrow> bool" where
  "scb_wf b \<longleftrightarrow> scb_offsets b \<noteq> [] \<and> scb_offsets b ! 0 = 0 \<and> sorted (scb_offsets b) \<and>
     last (scb_offsets b) = length (scb_data b) \<and>
     length (scb_validity b) = div_ceil (length (scb_offsets b) - 1) 8 \<and> utf8_valid (scb_data b)"

lemma windows_ordered_sorted: "windows_ordered xs \<longleftrightarrow> sorted xs"
  by (induction xs rule: windows_ordered.induct) (auto intro: order_trans)

lemma string_column_batch_new_ok:
  "string_column_batch_new cid data offsets validity = Inr b \<longleftrightarrow>
     b = \<lparr>scb_column_id = cid, scb_data = data, scb_offsets = offsets, scb_validity = validity\<rparr> \<and> scb_wf b"
  by (auto simp: string_column_batch_new_def scb_wf_def windows_ordered_sorted)

lemma string_column_batch_new_err:
  "string_column_batch_new cid data offsets validity = Inl e \<Longrightarrow> err_code e = InvalidArgument"
  by (auto simp: string_column_batch_new_def split: if_splits)

lemma div_ceil_8: "i < n \<Longrightarrow> i div 8 < div_ceil n 8"
proof (cases "n mod 8 = 0")
  case True
  assume "i < n"
  also have "n = n div 8 * 8" using True by (simp add: dvd_div_mult_self mod_0_imp_dvd)
  finally have "i div 8 < n div 8" by (rule less_mult_imp_div_less)
  with True show ?thesis by (simp add: div_ceil_def)
next
  case False
  assume "i < n"
  then have "i div 8 \<le> n div 8" by (simp add: div_le_mono)
  with False show ?thesis by (simp add: div_ceil_def)
qed

section \<open>Buffer pool references\<close>

type_synonym batch_buffer = "byte list"

record buffer_slice =
  slice_index :: nat
  slice_offset :: nat
  slice_length :: nat

definition buffer_slice_new :: "nat \<Rightarrow> nat \<Rightarrow> nat \<Rightarrow> buffer_slice result" where
  "buffer_slice_new buffer_index byte_offset byte_length =
     rbind (validate_safe_integer ''buffer byte offset'' byte_offset) (\<lambda>_.
     rbind (validate_safe_integer ''buffer byte length'' byte_length) (\<lambda>_.
     rbind (checked_end ''buffer byte'' byte_offset byte_length) (\<lambda>_.
       Inr \<lparr>slice_index = buffer_index, slice_offset = byte_offset, slice_length = byte_length\<rparr>)))"

definition slice_byte_end :: "buffer_slice \<Rightarrow> nat result" where
  "slice_byte_end s = checked_end ''buffer byte'' (slice_offset s) (slice_length s)"

record bitmap_slice =
  bitmap_buffer :: buffer_slice
  bitmap_bit_offset :: nat

definition bitmap_slice_new :: "buffer_slice \<Rightarrow> nat \<Rightarrow> bitmap_slice result" where
  "bitmap_slice_new buffer bit_offset =
     rbind (validate_safe_integer ''bitmap bit offset'' bit_offset) (\<lambda>_.
       Inr \<lparr>bitmap_buffer = buffer, bitmap_bit_offset = bit_offset\<rparr>)"

section \<open>Recursive array descriptors\<close>

datatype array_layout =
    LNull
  | LBitmap bitmap_slice
  | LFixedWidth buffer_slice
  | LVariableWidth buffer_slice buffer_slice
  | LView buffer_slice "buffer_slice list"
  | LList buffer_slice array_descriptor
  | LListView buffer_slice buffer_slice array_descriptor
  | LFixedSizeList array_descriptor
  | LStruct "array_descriptor list"
  | LUnion buffer_slice "buffer_slice option" "(int \<times> array_descriptor) list"
  | LDictionary array_descriptor array_descriptor
  | LRunEndEncoded array_descriptor array_descriptor
and array_descriptor =
    ArrayDescriptor (ad_data_type: table_data_type) (ad_length: nat)
      (ad_validity: "bitmap_slice option") (ad_layout: array_layout)

definition array_descriptor_new ::
    "table_data_type \<Rightarrow> nat \<Rightarrow> bitmap_slice option \<Rightarrow> array_layout \<Rightarrow> array_descriptor result" where
  "array_descriptor_new data_type n validity layout =
     rbind (validate_safe_integer ''array length'' n) (\<lambda>_.
       if nesting_depth data_type > max_data_type_nesting_depth
       then Inl (with_detail (with_detail
              (new_error ResourceLimit ''array data type exceeds the maximum nesting depth'')
              ''nestingDepth'' (DetailNumber (nesting_depth data_type)))
              ''maxNestingDepth'' (DetailNumber max_data_type_nesting_depth))
       else Inr (ArrayDescriptor data_type n validity layout))"

record typed_column_batch =
  tcb_column_id :: string
  tcb_native :: array_descriptor
  tcb_display :: array_descriptor

fun is_variable_width :: "array_layout \<Rightarrow> bool" where
  "is_variable_width (LVariableWidth _ _) = True"
| "is_variable_width _ = False"

definition typed_column_batch_new ::
    "string \<Rightarrow> array_descriptor \<Rightarrow> array_descriptor \<Rightarrow> typed_column_batch result" where
  "typed_column_batch_new cid native display =
     (if cid = [] then Inl (new_error InvalidArgument ''typed batch column id must not be empty'')
      else if ad_length native \<noteq> ad_length display
      then Inl (new_error InvalidArgument ''native and display arrays must have equal lengths'')
      else if ad_data_type display \<noteq> TUtf8 \<or> \<not> is_variable_width (ad_layout display)
      then Inl (new_error InvalidArgument
                  ''display arrays must use the UTF-8 variable-width layout'')
      else Inr \<lparr>tcb_column_id = cid, tcb_native = native, tcb_display = display\<rparr>)"

section \<open>Bounds validation\<close>

definition validate_buffer :: "batch_buffer list \<Rightarrow> buffer_slice \<Rightarrow> unit result" where
  "validate_buffer buffers s =
     (if \<not> slice_index s < length buffers
      then Inl (with_detail
             (new_error InvalidArgument ''buffer slice references a missing pool entry'')
             ''bufferIndex'' (DetailNumber (slice_index s)))
      else
        rbind (slice_byte_end s) (\<lambda>byte_end.
          if byte_end > length (buffers ! slice_index s)
          then Inl (with_detail (with_detail (with_detail
                 (new_error InvalidArgument ''buffer slice exceeds its pool entry'')
                 ''bufferIndex'' (DetailNumber (slice_index s)))
                 ''byteEnd'' (DetailNumber byte_end))
                 ''bufferLength'' (DetailNumber (length (buffers ! slice_index s))))
          else Inr ()))"

definition validate_bitmap :: "batch_buffer list \<Rightarrow> bitmap_slice \<Rightarrow> nat \<Rightarrow> unit result" where
  "validate_bitmap buffers bitmap n =
     rbind (validate_buffer buffers (bitmap_buffer bitmap)) (\<lambda>_.
     rbind (ok_or (checked_mul (slice_length (bitmap_buffer bitmap)) 8)
              (new_error InvalidArgument ''bitmap size overflows'')) (\<lambda>available_bits.
     rbind (ok_or (checked_add (bitmap_bit_offset bitmap) n)
              (new_error InvalidArgument ''bitmap range overflows'')) (\<lambda>required_bits.
       if required_bits > available_bits
       then Inl (new_error InvalidArgument ''bitmap slice is shorter than its logical array'')
       else Inr ())))"

fun validate_array_buffers :: "batch_buffer list \<Rightarrow> array_descriptor \<Rightarrow> unit result"
  and validate_layout_buffers :: "batch_buffer list \<Rightarrow> nat \<Rightarrow> array_layout \<Rightarrow> unit result" where
  "validate_array_buffers buffers (ArrayDescriptor t n validity layout) =
     rbind (case validity of None \<Rightarrow> Inr () | Some v \<Rightarrow> validate_bitmap buffers v n) (\<lambda>_.
       validate_layout_buffers buffers n layout)"
| "validate_layout_buffers buffers n LNull = Inr ()"
| "validate_layout_buffers buffers n (LBitmap values) = validate_bitmap buffers values n"
| "validate_layout_buffers buffers n (LFixedWidth values) = validate_buffer buffers values"
| "validate_layout_buffers buffers n (LVariableWidth offsets values) =
     rbind (validate_buffer buffers offsets) (\<lambda>_. validate_buffer buffers values)"
| "validate_layout_buffers buffers n (LView views view_buffers) =
     rbind (validate_buffer buffers views) (\<lambda>_. rforeach (validate_buffer buffers) view_buffers)"
| "validate_layout_buffers buffers n (LList offsets values) =
     rbind (validate_buffer buffers offsets) (\<lambda>_. validate_array_buffers buffers values)"
| "validate_layout_buffers buffers n (LListView offsets sizes values) =
     rbind (validate_buffer buffers offsets) (\<lambda>_.
     rbind (validate_buffer buffers sizes) (\<lambda>_. validate_array_buffers buffers values))"
| "validate_layout_buffers buffers n (LFixedSizeList values) = validate_array_buffers buffers values"
| "validate_layout_buffers buffers n (LStruct children) =
     rforeach (\<lambda>field. validate_array_buffers buffers field) children"
| "validate_layout_buffers buffers n (LUnion type_ids offsets children) =
     rbind (validate_buffer buffers type_ids) (\<lambda>_.
     rbind (case offsets of None \<Rightarrow> Inr () | Some s \<Rightarrow> validate_buffer buffers s) (\<lambda>_.
       rforeach (\<lambda>(_, field). validate_array_buffers buffers field) children))"
| "validate_layout_buffers buffers n (LDictionary keys values) =
     rbind (validate_array_buffers buffers keys) (\<lambda>_. validate_array_buffers buffers values)"
| "validate_layout_buffers buffers n (LRunEndEncoded run_ends values) =
     rbind (validate_array_buffers buffers run_ends) (\<lambda>_. validate_array_buffers buffers values)"

record typed_table_batch =
  ttb_layout_version :: nat
  ttb_table_id :: string
  ttb_revision :: nat
  ttb_schema_version :: nat
  ttb_range :: range_request
  ttb_complete :: bool
  ttb_buffers :: "batch_buffer list"
  ttb_columns :: "typed_column_batch list"

definition typed_table_batch_new ::
    "string \<Rightarrow> nat \<Rightarrow> nat \<Rightarrow> range_request \<Rightarrow> bool \<Rightarrow> batch_buffer list \<Rightarrow>
     typed_column_batch list \<Rightarrow> typed_table_batch result" where
  "typed_table_batch_new tid revision version returned complete buffers columns =
     rbind (validate_public returned) (\<lambda>_.
     rbind (validate_safe_integer ''batch revision'' revision) (\<lambda>_.
     rbind (validate_safe_integer ''batch schema version'' version) (\<lambda>_.
       if length columns \<noteq> column_count returned
       then Inl (new_error InvalidArgument
                   ''typed batch column count does not match its returned range'')
       else
         rbind (rforeach (\<lambda>column.
                  if ad_length (tcb_native column) \<noteq> row_count returned
                  then Inl (with_detail
                         (new_error InvalidArgument
                            ''typed batch array length does not match its returned range'')
                         ''columnId'' (DetailString (tcb_column_id column)))
                  else rbind (validate_array_buffers buffers (tcb_native column)) (\<lambda>_.
                         validate_array_buffers buffers (tcb_display column))) columns) (\<lambda>_.
         Inr \<lparr>ttb_layout_version = batch_layout_version, ttb_table_id = tid,
              ttb_revision = revision, ttb_schema_version = version, ttb_range = returned,
              ttb_complete = complete, ttb_buffers = buffers, ttb_columns = columns\<rparr>))))"

section \<open>What validation guarantees\<close>

text \<open>The slices and bitmaps of a descriptor at every depth.\<close>

fun array_slices :: "array_descriptor \<Rightarrow> buffer_slice list"
  and layout_slices :: "array_layout \<Rightarrow> buffer_slice list" where
  "array_slices (ArrayDescriptor t n validity layout) =
     (case validity of None \<Rightarrow> [] | Some v \<Rightarrow> [bitmap_buffer v]) @ layout_slices layout"
| "layout_slices LNull = []"
| "layout_slices (LBitmap values) = [bitmap_buffer values]"
| "layout_slices (LFixedWidth values) = [values]"
| "layout_slices (LVariableWidth offsets values) = [offsets, values]"
| "layout_slices (LView views view_buffers) = views # view_buffers"
| "layout_slices (LList offsets values) = offsets # array_slices values"
| "layout_slices (LListView offsets sizes values) = offsets # sizes # array_slices values"
| "layout_slices (LFixedSizeList values) = array_slices values"
| "layout_slices (LStruct children) = concat (map array_slices children)"
| "layout_slices (LUnion type_ids offsets children) =
     type_ids # (case offsets of None \<Rightarrow> [] | Some s \<Rightarrow> [s]) @ concat (map (\<lambda>(_, f). array_slices f) children)"
| "layout_slices (LDictionary keys values) = array_slices keys @ array_slices values"
| "layout_slices (LRunEndEncoded run_ends values) = array_slices run_ends @ array_slices values"

fun array_bitmaps :: "array_descriptor \<Rightarrow> (bitmap_slice \<times> nat) list"
  and layout_bitmaps :: "nat \<Rightarrow> array_layout \<Rightarrow> (bitmap_slice \<times> nat) list" where
  "array_bitmaps (ArrayDescriptor t n validity layout) =
     (case validity of None \<Rightarrow> [] | Some v \<Rightarrow> [(v, n)]) @ layout_bitmaps n layout"
| "layout_bitmaps n (LBitmap values) = [(values, n)]"
| "layout_bitmaps n (LList offsets values) = array_bitmaps values"
| "layout_bitmaps n (LListView offsets sizes values) = array_bitmaps values"
| "layout_bitmaps n (LFixedSizeList values) = array_bitmaps values"
| "layout_bitmaps n (LStruct children) = concat (map array_bitmaps children)"
| "layout_bitmaps n (LUnion type_ids offsets children) = concat (map (\<lambda>(_, f). array_bitmaps f) children)"
| "layout_bitmaps n (LDictionary keys values) = array_bitmaps keys @ array_bitmaps values"
| "layout_bitmaps n (LRunEndEncoded run_ends values) = array_bitmaps run_ends @ array_bitmaps values"
| "layout_bitmaps n _ = []"

definition slice_fits :: "batch_buffer list \<Rightarrow> buffer_slice \<Rightarrow> bool" where
  "slice_fits buffers s \<longleftrightarrow> slice_index s < length buffers \<and>
     slice_offset s + slice_length s \<le> length (buffers ! slice_index s) \<and>
     slice_offset s + slice_length s \<le> max_safe_integer"

definition bitmap_fits :: "bitmap_slice \<times> nat \<Rightarrow> bool" where
  "bitmap_fits p \<longleftrightarrow> bitmap_bit_offset (fst p) + snd p \<le> 8 * slice_length (bitmap_buffer (fst p)) \<and>
     8 * slice_length (bitmap_buffer (fst p)) \<le> u64_max"

lemma validate_buffer_ok [simp]: "validate_buffer buffers s = Inr u \<longleftrightarrow> slice_fits buffers s"
  by (auto simp: validate_buffer_def slice_fits_def slice_byte_end_def)

lemma validate_bitmap_ok [simp]:
  "validate_bitmap buffers b n = Inr u \<longleftrightarrow> slice_fits buffers (bitmap_buffer b) \<and> bitmap_fits (b, n)"
  by (auto simp: validate_bitmap_def bitmap_fits_def mult.commute split: if_splits)

lemma validate_array_ok:
  "validate_array_buffers buffers a = Inr () \<longleftrightarrow>
     (\<forall>s \<in> set (array_slices a). slice_fits buffers s) \<and> (\<forall>p \<in> set (array_bitmaps a). bitmap_fits p)"
  "validate_layout_buffers buffers n l = Inr () \<longleftrightarrow>
     (\<forall>s \<in> set (layout_slices l). slice_fits buffers s) \<and> (\<forall>p \<in> set (layout_bitmaps n l). bitmap_fits p)"
  by (induction buffers a and buffers n l rule: validate_array_buffers_validate_layout_buffers.induct)
    (auto simp: rforeach_ok split: option.splits)

lemma typed_table_batch_new_ok:
  "typed_table_batch_new tid revision version returned complete buffers columns = Inr t \<longleftrightarrow>
     range_valid returned \<and> revision \<le> max_safe_integer \<and> version \<le> max_safe_integer \<and>
     length columns = column_count returned \<and>
     (\<forall>c \<in> set columns. ad_length (tcb_native c) = row_count returned \<and>
        validate_array_buffers buffers (tcb_native c) = Inr () \<and>
        validate_array_buffers buffers (tcb_display c) = Inr ()) \<and>
     t = \<lparr>ttb_layout_version = batch_layout_version, ttb_table_id = tid, ttb_revision = revision,
          ttb_schema_version = version, ttb_range = returned, ttb_complete = complete,
          ttb_buffers = buffers, ttb_columns = columns\<rparr>"
  by (auto simp: typed_table_batch_new_def rforeach_ok split: if_splits)

text \<open>
  C15: A typed batch is accepted only when every buffer slice of every descriptor, at any
  depth of nesting, lies inside its pool entry, and every bitmap has a bit for every
  logical value; so a reader that follows the descriptors never leaves the pool.
\<close>

theorem typed_batch_in_bounds:
  assumes "typed_table_batch_new tid revision version returned complete buffers columns = Inr t"
    and "c \<in> set (ttb_columns t)" and "a = tcb_native c \<or> a = tcb_display c"
  shows "(\<forall>s \<in> set (array_slices a).
            slice_index s < length (ttb_buffers t) \<and>
            slice_offset s + slice_length s \<le> length (ttb_buffers t ! slice_index s)) \<and>
         (\<forall>(b, n) \<in> set (array_bitmaps a). bitmap_bit_offset b + n \<le> 8 * slice_length (bitmap_buffer b)) \<and>
         ad_length (tcb_native c) = row_count (ttb_range t)"
  using assms
  by (fastforce simp: typed_table_batch_new_ok validate_array_ok slice_fits_def bitmap_fits_def)

definition sample_array :: array_descriptor where
  "sample_array = ArrayDescriptor TUtf8 1
     (Some \<lparr>bitmap_buffer = \<lparr>slice_index = 0, slice_offset = 0, slice_length = 1\<rparr>, bitmap_bit_offset = 0\<rparr>)
     (LVariableWidth \<lparr>slice_index = 1, slice_offset = 0, slice_length = 8\<rparr>
                     \<lparr>slice_index = 0, slice_offset = 0, slice_length = 1\<rparr>)"

theorem typed_batch_in_bounds_witness:
  "\<exists>t. typed_table_batch_new ''table-0'' 0 1
         \<lparr>row_start = 0, row_count = 1, column_start = 0, column_count = 1\<rparr> True
         [[1], [0, 0, 0, 0, 1, 0, 0, 0]]
         [\<lparr>tcb_column_id = ''c0'', tcb_native = sample_array, tcb_display = sample_array\<rparr>] = Inr t \<and>
       (\<forall>s \<in> set (array_slices sample_array). slice_index s < length (ttb_buffers t))"
proof -
  let ?c = "\<lparr>tcb_column_id = ''c0'', tcb_native = sample_array, tcb_display = sample_array\<rparr>"
  obtain t where t: "typed_table_batch_new ''table-0'' 0 1
         \<lparr>row_start = 0, row_count = 1, column_start = 0, column_count = 1\<rparr> True
         [[1], [0, 0, 0, 0, 1, 0, 0, 0]] [?c] = Inr t" and cols: "ttb_columns t = [?c]"
    by (auto simp: typed_table_batch_new_ok sample_array_def slice_fits_def bitmap_fits_def
        max_safe_integer_def u64_max_def range_valid_def)
  show ?thesis
    using typed_batch_in_bounds [OF t, of ?c sample_array] t cols by auto
qed

text \<open>
  An array descriptor is accepted only when its type nests at most 64 levels deep: no
  chain of types written one inside the next is longer.
\<close>

theorem array_descriptor_depth:
  assumes "array_descriptor_new t n validity layout = Inr a" and "type_chain (ad_data_type a) chain"
  shows "length chain < 64 \<and> nesting_depth (ad_data_type a) \<le> 64"
proof -
  from assms(1) have "ad_data_type a = t" and depth: "nesting_depth t \<le> 64"
    by (auto simp: array_descriptor_new_def max_data_type_nesting_depth_def split: if_splits)
  with type_chain_depth [of t chain] assms(2) show ?thesis by (simp add: u64_max_def)
qed

theorem array_descriptor_depth_witness:
  "type_chain (TList (table_field_new ''item'' TInt8 True)) [TInt8] \<and> length [TInt8] < 64"
proof -
  let ?t = "TList (table_field_new ''item'' TInt8 True)"
  have new: "array_descriptor_new ?t 0 None LNull = Inr (ArrayDescriptor ?t 0 None LNull)"
    by (simp add: array_descriptor_new_def table_field_new_def saturating_add_def u64_max_def
        max_data_type_nesting_depth_def validate_safe_integer_def)
  show ?thesis
    using array_descriptor_depth [OF new, of "[TInt8]"] by (simp add: table_field_new_def)
qed

section \<open>What a string column's accessor returns\<close>

definition bit_set :: "byte list \<Rightarrow> nat \<Rightarrow> bool" where
  "bit_set bytes i \<longleftrightarrow> (bytes ! (i div 8)) AND bit_mask i \<noteq> 0"

lemma sorted_nth_le: "sorted xs \<Longrightarrow> i \<le> j \<Longrightarrow> j < length xs \<Longrightarrow> xs ! i \<le> (xs ! j :: nat)"
  by (rule sorted_nth_mono)

lemma scb_value_wf:
  assumes "scb_wf b" and "i < scb_len b"
  shows "scb_value b i =
    Returns (Some (if bit_set (scb_validity b) i
       then (let text = take (scb_offsets b ! (i + 1) - scb_offsets b ! i)
                          (drop (scb_offsets b ! i) (scb_data b))
             in if utf8_valid text then Some text else None)
       else None))"
proof -
  let ?o = "scb_offsets b"
  have i: "i + 1 < length ?o" using assms(2) by (simp add: scb_len_def saturating_sub_def)
  have srt: "sorted ?o" and lst: "last ?o = length (scb_data b)" and ne: "?o \<noteq> []"
    and val: "length (scb_validity b) = div_ceil (length ?o - 1) 8"
    using assms(1) by (auto simp: scb_wf_def)
  have "?o ! (i + 1) \<le> ?o ! (length ?o - 1)"
    using srt i by (intro sorted_nth_le) auto
  then have "?o ! (i + 1) \<le> length (scb_data b)" using lst ne by (simp add: last_conv_nth)
  moreover have "?o ! i \<le> ?o ! (i + 1)" using srt i by (intro sorted_nth_le) auto
  moreover have "i div 8 < length (scb_validity b)" using i val by (simp add: div_ceil_8)
  ultimately show ?thesis
    using assms(2) i by (simp add: scb_value_def index_get_def slice_get_def bit_set_def Let_def)
qed

text \<open>
  On a string column built by the validating constructor the accessor never panics:
  past the end it reports no value, elsewhere it reports null exactly where the validity
  bit is clear.
\<close>

theorem string_column_value_total:
  assumes "string_column_batch_new cid data offsets validity = Inr b"
  shows "scb_value b i \<noteq> Panics \<and>
    (i \<ge> length offsets - 1 \<longrightarrow> scb_value b i = Returns None) \<and>
    (i < length offsets - 1 \<longrightarrow> \<not> bit_set validity i \<longrightarrow> scb_value b i = Returns (Some None))"
proof -
  from assms have wf: "scb_wf b" and b: "scb_offsets b = offsets" "scb_validity b = validity"
    by (auto simp: string_column_batch_new_ok)
  have len: "scb_len b = length offsets - 1" using b by (simp add: scb_len_def saturating_sub_def)
  show ?thesis
  proof (cases "i < scb_len b")
    case True
    then show ?thesis using scb_value_wf [OF wf True] b len by (simp add: Let_def)
  next
    case False
    then show ?thesis using len by (simp add: scb_value_def)
  qed
qed

theorem string_column_value_total_witness:
  "\<exists>b. string_column_batch_new ''c0'' [0x61] [0, 1, 1] [1] = Inr b \<and> scb_value b 2 = Returns None"
proof -
  obtain b where b: "string_column_batch_new ''c0'' [0x61] [0, 1, 1] [1] = Inr b"
    by (simp add: string_column_batch_new_def div_ceil_def utf8_step_def)
  then show ?thesis using string_column_value_total [OF b, of 2] by auto
qed

end
