(* ===== verification/Batch_Pool.thy ===== *)
theory Batch_Pool
  imports Batches
begin

unbundle bit_operations_syntax

text \<open>
  src/src/model.rs, \<open>TableBatch\<close>: the conversion of a string batch into a typed batch, with
  its pool of byte buffers deduplicated through an FNV-1a fingerprint index.

  The interface \<open>interner\<close> states what a caller of a deduplicating pool relies on: the
  reference it gets back denotes the bytes it gave, and goes on denoting them as the pool
  grows. The conversion is proved against that interface and the pool is an instance.
\<close>

section \<open>The interface of an interning pool\<close>

locale interner =
  fixes intern :: "'b \<Rightarrow> ('s, 'e, 'r) prog"
    and inv :: "'s \<Rightarrow> bool"
    and grows :: "'s \<Rightarrow> 's \<Rightarrow> bool"
    and holds :: "'s \<Rightarrow> 'b \<Rightarrow> 'r \<Rightarrow> bool"
  assumes intern_wp:
      "inv s \<Longrightarrow> wp (intern x) (\<lambda>r s'. inv s' \<and> grows s s' \<and> holds s' x r) (\<lambda>_ _. True) s"
    and grows_refl: "grows s s"
    and grows_trans: "grows s t \<Longrightarrow> grows t u \<Longrightarrow> grows s u"
    and holds_grows: "grows s t \<Longrightarrow> holds s x r \<Longrightarrow> holds t x r"
begin

lemma intern_then:
  assumes "inv s"
    and "\<And>r s'. inv s' \<Longrightarrow> grows s s' \<Longrightarrow> holds s' x r \<Longrightarrow> wp (f r) Q (\<lambda>_ _. True) s'"
  shows "wp (pbind (intern x) f) Q (\<lambda>_ _. True) s"
  unfolding wp_bind by (rule wp_mono [OF intern_wp [OF assms(1)]]) (auto intro: assms(2))

text \<open>Three buffers interned one after the other all stay readable.\<close>

lemma intern_three:
  assumes "inv s"
    and "\<And>ra rb rc s'. inv s' \<Longrightarrow> grows s s' \<Longrightarrow> holds s' a ra \<Longrightarrow> holds s' b rb \<Longrightarrow> holds s' c rc \<Longrightarrow>
           wp (f ra rb rc) Q (\<lambda>_ _. True) s'"
  shows "wp (pbind (intern a) (\<lambda>ra. pbind (intern b) (\<lambda>rb. pbind (intern c) (\<lambda>rc. f ra rb rc)))) Q
           (\<lambda>_ _. True) s"
proof (rule intern_then [OF assms(1)])
  fix ra s1 assume 1: "inv s1" "grows s s1" "holds s1 a ra"
  show "wp (pbind (intern b) (\<lambda>rb. pbind (intern c) (\<lambda>rc. f ra rb rc))) Q (\<lambda>_ _. True) s1"
  proof (rule intern_then [OF 1(1)])
    fix rb s2 assume 2: "inv s2" "grows s1 s2" "holds s2 b rb"
    show "wp (pbind (intern c) (\<lambda>rc. f ra rb rc)) Q (\<lambda>_ _. True) s2"
    proof (rule intern_then [OF 2(1)])
      fix rc s3 assume 3: "inv s3" "grows s2 s3" "holds s3 c rc"
      show "wp (f ra rb rc) Q (\<lambda>_ _. True) s3"
        using 1 2 3 by (intro assms(2)) (blast intro: grows_trans holds_grows)+
    qed
  qed
qed

end

section \<open>The pool\<close>

definition batch_buffer_fingerprint :: "byte list \<Rightarrow> 64 word" where
  "batch_buffer_fingerprint bytes =
     foldl (\<lambda>hash byte. (hash XOR ucast byte) * 0x100000001b3) 0xcbf29ce484222325 bytes
       XOR word_rotl 32 (of_nat (length bytes))"

record intern_state =
  pool_buffers :: "batch_buffer list"
  pool_index :: "64 word \<Rightarrow> nat list option"

definition empty_pool :: intern_state where
  "empty_pool = \<lparr>pool_buffers = [], pool_index = Map.empty\<rparr>"

definition intern_batch_buffer ::
    "byte list \<Rightarrow> (intern_state, tabulark_error, buffer_slice) prog" where
  "intern_batch_buffer bytes =
     pbind (plift (ok_or (u64_try_from (length bytes))
              (new_error ResourceLimit ''typed batch buffer length exceeds the public range''))) (\<lambda>n.
     pbind pget (\<lambda>st.
     let fingerprint = batch_buffer_fingerprint bytes;
         candidates = (case pool_index st fingerprint of None \<Rightarrow> [] | Some is \<Rightarrow> is)
     in
     case find (\<lambda>i. i < length (pool_buffers st) \<and> pool_buffers st ! i = bytes) candidates of
       Some i \<Rightarrow> plift (buffer_slice_new i 0 n)
     | None \<Rightarrow>
         pbind (plift (ok_or (u32_try_from (length (pool_buffers st)))
                  (new_error ResourceLimit
                     ''typed batch contains too many buffer-pool entries''))) (\<lambda>index.
         pbind (pmodify (\<lambda>st. st\<lparr>pool_buffers := pool_buffers st @ [bytes],
                  pool_index := (pool_index st)(fingerprint \<mapsto> candidates @ [index])\<rparr>)) (\<lambda>_.
         plift (buffer_slice_new index 0 n)))))"

section \<open>Conversion\<close>

record table_batch =
  tb_table_id :: string
  tb_revision :: nat
  tb_schema_version :: nat
  tb_range :: range_request
  tb_complete :: bool
  tb_columns :: "string_column_batch list"

definition table_batch_new ::
    "string \<Rightarrow> nat \<Rightarrow> nat \<Rightarrow> range_request \<Rightarrow> bool \<Rightarrow> string_column_batch list \<Rightarrow> table_batch" where
  "table_batch_new tid revision version request complete columns =
     \<lparr>tb_table_id = tid, tb_revision = revision, tb_schema_version = version, tb_range = request,
      tb_complete = complete, tb_columns = columns\<rparr>"

definition u32_to_le_bytes :: "nat \<Rightarrow> byte list" where
  "u32_to_le_bytes n =
     [of_nat (n mod 256), of_nat (n div 256 mod 256),
      of_nat (n div 65536 mod 256), of_nat (n div 16777216 mod 256)]"

definition offset_bytes :: "nat list \<Rightarrow> byte list" where
  "offset_bytes offsets = concat (map u32_to_le_bytes offsets)"

definition row_count_error :: tabulark_error where
  "row_count_error = new_error ResourceLimit ''delimited batch row count exceeds the public range''"

definition describe_column ::
    "string \<Rightarrow> nat \<Rightarrow> buffer_slice \<Rightarrow> buffer_slice \<Rightarrow> buffer_slice \<Rightarrow> typed_column_batch result" where
  "describe_column cid n values offsets validity_buffer =
     rbind (bitmap_slice_new validity_buffer 0) (\<lambda>validity.
     rbind (array_descriptor_new TUtf8 n (Some validity) (LVariableWidth offsets values)) (\<lambda>descriptor.
       typed_column_batch_new cid descriptor descriptor))"

text \<open>\<open>to_typed\<close> reads a borrowed column: buffers first, then its length.\<close>

definition typed_column :: "string_column_batch \<Rightarrow> (intern_state, tabulark_error, typed_column_batch) prog" where
  "typed_column c =
     pbind (intern_batch_buffer (scb_data c)) (\<lambda>values.
     pbind (intern_batch_buffer (offset_bytes (scb_offsets c))) (\<lambda>offsets.
     pbind (intern_batch_buffer (scb_validity c)) (\<lambda>validity_buffer.
     pbind (plift (ok_or (u64_try_from (scb_len c)) row_count_error)) (\<lambda>n.
     plift (describe_column (scb_column_id c) n values offsets validity_buffer)))))"

definition to_typed :: "table_batch \<Rightarrow> typed_table_batch result" where
  "to_typed b =
     (case pcollect typed_column (tb_columns b) empty_pool of
        (Inl e, _) \<Rightarrow> Inl e
      | (Inr columns, st) \<Rightarrow>
          typed_table_batch_new (tb_table_id b) (tb_revision b) (tb_schema_version b) (tb_range b)
            (tb_complete b) (pool_buffers st) columns)"

text \<open>\<open>into_typed\<close> consumes the column: its length is taken before its parts are moved.\<close>

definition moved_column :: "string_column_batch \<Rightarrow> (intern_state, tabulark_error, typed_column_batch) prog" where
  "moved_column c =
     pbind (plift (ok_or (u64_try_from (saturating_sub (length (scb_offsets c)) 1)) row_count_error)) (\<lambda>n.
     pbind (intern_batch_buffer (scb_data c)) (\<lambda>values.
     pbind (intern_batch_buffer (offset_bytes (scb_offsets c))) (\<lambda>offsets.
     pbind (intern_batch_buffer (scb_validity c)) (\<lambda>validity_buffer.
     plift (describe_column (scb_column_id c) n values offsets validity_buffer)))))"

definition into_typed :: "table_batch \<Rightarrow> typed_table_batch result" where
  "into_typed b =
     (case pcollect moved_column (tb_columns b) empty_pool of
        (Inl e, _) \<Rightarrow> Inl e
      | (Inr columns, st) \<Rightarrow>
          typed_table_batch_new (tb_table_id b) (tb_revision b) (tb_schema_version b) (tb_range b)
            (tb_complete b) (pool_buffers st) columns)"

section \<open>The pool is an interner\<close>

definition slice_bytes :: "batch_buffer list \<Rightarrow> buffer_slice \<Rightarrow> byte list option" where
  "slice_bytes buffers s =
     (if slice_fits buffers s
      then Some (take (slice_length s) (drop (slice_offset s) (buffers ! slice_index s)))
      else None)"

text \<open>
  The fingerprint index lists exactly the positions of the pool, and no two entries are
  equal: a hash collision costs a comparison, never a wrong or a duplicate buffer.
\<close>

definition pool_inv :: "intern_state \<Rightarrow> bool" where
  "pool_inv st \<longleftrightarrow> distinct (pool_buffers st) \<and>
     (\<forall>h is i. pool_index st h = Some is \<longrightarrow> i \<in> set is \<longrightarrow> i < length (pool_buffers st)) \<and>
     (\<forall>i < length (pool_buffers st). \<exists>is.
        pool_index st (batch_buffer_fingerprint (pool_buffers st ! i)) = Some is \<and> i \<in> set is)"

definition pool_grows :: "intern_state \<Rightarrow> intern_state \<Rightarrow> bool" where
  "pool_grows st st' \<longleftrightarrow> (\<exists>added. pool_buffers st' = pool_buffers st @ added)"

definition pool_holds :: "intern_state \<Rightarrow> byte list \<Rightarrow> buffer_slice \<Rightarrow> bool" where
  "pool_holds st bytes s \<longleftrightarrow> slice_bytes (pool_buffers st) s = Some bytes"

lemma buffer_slice_new_ok:
  "buffer_slice_new i a n = Inr s \<longleftrightarrow>
     s = \<lparr>slice_index = i, slice_offset = a, slice_length = n\<rparr> \<and> a + n \<le> max_safe_integer"
  by (auto simp: buffer_slice_new_def)

lemma whole_slice_holds:
  "i < length (pool_buffers st) \<Longrightarrow> pool_buffers st ! i = bytes \<Longrightarrow> length bytes \<le> max_safe_integer \<Longrightarrow>
     pool_holds st bytes \<lparr>slice_index = i, slice_offset = 0, slice_length = length bytes\<rparr>"
  by (auto simp: pool_holds_def slice_bytes_def slice_fits_def)

lemma slice_bytes_append: "slice_bytes buffers s = Some x \<Longrightarrow> slice_bytes (buffers @ added) s = Some x"
  by (auto simp: slice_bytes_def slice_fits_def nth_append split: if_splits)

lemma slice_bytes_length: "slice_bytes buffers s = Some x \<Longrightarrow> length x = slice_length s"
  by (auto simp: slice_bytes_def slice_fits_def split: if_splits)

text \<open>A buffer already in the pool is found; a new one is appended and indexed.\<close>

lemma intern_found:
  assumes "pool_inv st" and "bytes \<in> set (pool_buffers st)" and "length bytes \<le> u64_max"
  shows "\<exists>i < length (pool_buffers st). pool_buffers st ! i = bytes \<and>
    intern_batch_buffer bytes st = (buffer_slice_new i 0 (length bytes), st)"
proof -
  from assms(2) obtain j where j: "j < length (pool_buffers st)" "pool_buffers st ! j = bytes"
    by (auto simp: in_set_conv_nth)
  with assms(1) obtain "is" where idx: "pool_index st (batch_buffer_fingerprint bytes) = Some is" "j \<in> set is"
    unfolding pool_inv_def by blast
  let ?P = "\<lambda>i. i < length (pool_buffers st) \<and> pool_buffers st ! i = bytes"
  from idx(2) j obtain i where i: "find ?P is = Some i" "?P i"
    by (metis (mono_tags, lifting) find_None_iff find_Some_iff not_None_eq)
  with idx assms(3) show ?thesis by (auto simp: intern_batch_buffer_def prog_defs Let_def)
qed

lemma intern_new:
  assumes "pool_inv st" and "bytes \<notin> set (pool_buffers st)" and "length bytes \<le> u64_max"
    and "length (pool_buffers st) \<le> u32_max"
  shows "\<exists>is. (pool_index st (batch_buffer_fingerprint bytes) = Some is \<or>
               pool_index st (batch_buffer_fingerprint bytes) = None \<and> is = []) \<and>
    intern_batch_buffer bytes st =
      (buffer_slice_new (length (pool_buffers st)) 0 (length bytes),
       st\<lparr>pool_buffers := pool_buffers st @ [bytes],
          pool_index := (pool_index st)(batch_buffer_fingerprint bytes \<mapsto> is @ [length (pool_buffers st)])\<rparr>)"
proof -
  have "find (\<lambda>i. i < length (pool_buffers st) \<and> pool_buffers st ! i = bytes) is = None" for "is"
    using assms(2) by (auto simp: find_None_iff)
  with assms(3,4) show ?thesis
    by (cases "pool_index st (batch_buffer_fingerprint bytes)")
      (simp_all add: intern_batch_buffer_def prog_defs Let_def)
qed

lemma intern_too_many:
  assumes "bytes \<notin> set (pool_buffers st)" and "u32_max < length (pool_buffers st)"
  shows "\<exists>e. intern_batch_buffer bytes st = (Inl e, st)"
proof -
  have "find (\<lambda>i. i < length (pool_buffers st) \<and> pool_buffers st ! i = bytes) is = None" for "is"
    using assms(1) by (auto simp: find_None_iff)
  with assms(2) show ?thesis
    by (cases "u64_try_from (length bytes)"; cases "pool_index st (batch_buffer_fingerprint bytes)")
      (simp_all add: intern_batch_buffer_def prog_defs Let_def)
qed

lemma pool_inv_new:
  assumes "pool_inv st" and "bytes \<notin> set (pool_buffers st)"
    and "pool_index st (batch_buffer_fingerprint bytes) = Some is \<or>
         pool_index st (batch_buffer_fingerprint bytes) = None \<and> is = []"
  shows "pool_inv (st\<lparr>pool_buffers := pool_buffers st @ [bytes],
           pool_index := (pool_index st)(batch_buffer_fingerprint bytes \<mapsto> is @ [length (pool_buffers st)])\<rparr>)"
proof -
  let ?n = "length (pool_buffers st)"
  let ?idx = "(pool_index st)(batch_buffer_fingerprint bytes \<mapsto> is @ [?n])"
  have old: "\<And>h js i. pool_index st h = Some js \<Longrightarrow> i \<in> set js \<Longrightarrow> i < ?n"
    and cover: "\<And>i. i < ?n \<Longrightarrow> \<exists>js. pool_index st (batch_buffer_fingerprint (pool_buffers st ! i)) = Some js \<and> i \<in> set js"
    using assms(1) unfolding pool_inv_def by blast+
  have "i < Suc ?n" if "?idx h = Some js" "i \<in> set js" for h js i
    using that assms(3) old by (fastforce split: if_splits intro: less_SucI)
  moreover have "\<exists>js. ?idx (batch_buffer_fingerprint ((pool_buffers st @ [bytes]) ! i)) = Some js \<and> i \<in> set js"
    if "i < Suc ?n" for i
  proof (cases "i = ?n")
    case True
    then show ?thesis by simp
  next
    case False
    with that have i: "i < ?n" by simp
    from cover [OF i] obtain js where
      "pool_index st (batch_buffer_fingerprint (pool_buffers st ! i)) = Some js" "i \<in> set js" by blast
    with i assms(3) show ?thesis by (auto simp: nth_append)
  qed
  ultimately show ?thesis
    using assms(1,2) by (simp add: pool_inv_def)
qed

lemma intern_cases:
  assumes "pool_inv st" and "intern_batch_buffer bytes st = (Inr s, st')"
  shows "pool_inv st' \<and> pool_grows st st' \<and> pool_holds st' bytes s"
proof -
  have len: "length bytes \<le> u64_max"
    using assms(2) by (auto simp: intern_batch_buffer_def prog_defs u64_try_from_def split: if_splits)
  show ?thesis
  proof (cases "bytes \<in> set (pool_buffers st)")
    case True
    from intern_found [OF assms(1) True len] assms(2)
    obtain i where "i < length (pool_buffers st)" "pool_buffers st ! i = bytes"
      "buffer_slice_new i 0 (length bytes) = Inr s" "st' = st" by auto
    then show ?thesis
      using assms(1) whole_slice_holds [of i st bytes]
      by (auto simp: buffer_slice_new_ok pool_grows_def)
  next
    case False
    then have few: "length (pool_buffers st) \<le> u32_max"
      using intern_too_many [of bytes st] assms(2) by (metis Inl_Inr_False fst_conv not_le)
    from intern_new [OF assms(1) False len few] assms(2)
    obtain "is" where idx: "pool_index st (batch_buffer_fingerprint bytes) = Some is \<or>
        pool_index st (batch_buffer_fingerprint bytes) = None \<and> is = []"
      and s: "buffer_slice_new (length (pool_buffers st)) 0 (length bytes) = Inr s"
      and st': "st' = st\<lparr>pool_buffers := pool_buffers st @ [bytes],
          pool_index := (pool_index st)(batch_buffer_fingerprint bytes \<mapsto> is @ [length (pool_buffers st)])\<rparr>"
      by auto
    have "pool_inv st'" unfolding st' using assms(1) False idx by (rule pool_inv_new)
    moreover have "pool_grows st st'" using st' by (simp add: pool_grows_def)
    moreover have "pool_holds st' bytes s"
      using s whole_slice_holds [of "length (pool_buffers st)" st' bytes] st'
      by (auto simp: buffer_slice_new_ok)
    ultimately show ?thesis by simp
  qed
qed

interpretation pool: interner intern_batch_buffer pool_inv pool_grows pool_holds
proof unfold_locales
  fix s t u :: intern_state and x and r
  show "wp (intern_batch_buffer x) (\<lambda>r s'. pool_inv s' \<and> pool_grows s s' \<and> pool_holds s' x r) (\<lambda>_ _. True) s"
    if "pool_inv s"
    by (rule wpI) (use intern_cases [OF that] in auto)
  show "pool_grows s s" by (simp add: pool_grows_def)
  show "pool_grows s t \<Longrightarrow> pool_grows t u \<Longrightarrow> pool_grows s u" by (auto simp: pool_grows_def)
  show "pool_grows s t \<Longrightarrow> pool_holds s x r \<Longrightarrow> pool_holds t x r"
    by (auto simp: pool_grows_def pool_holds_def slice_bytes_append)
qed

lemma pool_inv_empty: "pool_inv empty_pool"
  by (simp add: pool_inv_def empty_pool_def)

section \<open>Reading a converted batch\<close>

fun le_offsets :: "byte list \<Rightarrow> nat list" where
  "le_offsets (a # b # c # d # rest) =
     (unat a + 256 * unat b + 65536 * unat c + 16777216 * unat d) # le_offsets rest"
| "le_offsets _ = []"

lemma u32_le_value:
  assumes "n \<le> u32_max"
  shows "n mod 256 + 256 * (n div 256 mod 256) + 65536 * (n div 65536 mod 256) +
         16777216 * (n div 16777216 mod 256) = n"
proof -
  have n: "n div 16777216 < 256" using assms by (simp add: u32_max_def less_mult_imp_div_less)
  have "n div 65536 = 256 * (n div 16777216) + n div 65536 mod 256"
    using mult_div_mod_eq [of 256 "n div 65536"] by (simp add: div_mult2_eq [symmetric])
  moreover have "n div 256 = 256 * (n div 65536) + n div 256 mod 256"
    using mult_div_mod_eq [of 256 "n div 256"] by (simp add: div_mult2_eq [symmetric])
  moreover have "n = 256 * (n div 256) + n mod 256" by simp
  moreover have "n div 16777216 mod 256 = n div 16777216" using n by simp
  ultimately show ?thesis by linarith
qed

lemma le_offsets_offset_bytes: "\<forall>n \<in> set offsets. n \<le> u32_max \<Longrightarrow> le_offsets (offset_bytes offsets) = offsets"
proof (induction offsets)
  case Nil
  then show ?case by (simp add: offset_bytes_def)
next
  case (Cons n offsets)
  have "n div 16777216 < 256" using Cons.prems by (simp add: u32_max_def less_mult_imp_div_less)
  then have "le_offsets (u32_to_le_bytes n @ offset_bytes offsets) = n # le_offsets (offset_bytes offsets)"
    using u32_le_value [of n] Cons.prems by (simp add: u32_to_le_bytes_def unat_of_nat)
  then show ?case using Cons by (simp add: offset_bytes_def)
qed

lemma length_offset_bytes [simp]: "length (offset_bytes offsets) = 4 * length offsets"
  by (induction offsets) (auto simp: offset_bytes_def u32_to_le_bytes_def)

text \<open>A typed column denotes a string column: its buffers decode to the column's parts.\<close>

definition typed_column_reads ::
    "batch_buffer list \<Rightarrow> string_column_batch \<Rightarrow> typed_column_batch \<Rightarrow> bool" where
  "typed_column_reads buffers c tc \<longleftrightarrow>
     tcb_column_id tc = scb_column_id c \<and> tcb_display tc = tcb_native tc \<and>
     (\<exists>values offsets validity.
        tcb_native tc = ArrayDescriptor TUtf8 (scb_len c)
          (Some \<lparr>bitmap_buffer = validity, bitmap_bit_offset = 0\<rparr>) (LVariableWidth offsets values) \<and>
        slice_bytes buffers values = Some (scb_data c) \<and>
        slice_bytes buffers offsets = Some (offset_bytes (scb_offsets c)) \<and>
        slice_bytes buffers validity = Some (scb_validity c))"

lemma describe_column_ok:
  "describe_column cid n values offsets v = Inr tc \<longleftrightarrow>
     cid \<noteq> [] \<and> n \<le> max_safe_integer \<and>
     (let d = ArrayDescriptor TUtf8 n (Some \<lparr>bitmap_buffer = v, bitmap_bit_offset = 0\<rparr>)
                (LVariableWidth offsets values)
      in tc = \<lparr>tcb_column_id = cid, tcb_native = d, tcb_display = d\<rparr>)"
  by (auto simp: describe_column_def bitmap_slice_new_def array_descriptor_new_def
      typed_column_batch_new_def saturating_add_def u64_max_def max_data_type_nesting_depth_def Let_def)

lemma typed_column_reads_append:
  "typed_column_reads buffers c tc \<Longrightarrow> typed_column_reads (buffers @ rest) c tc"
  unfolding typed_column_reads_def using slice_bytes_append by blast

lemma typed_column_wp:
  assumes "pool_inv st"
  shows "wp (typed_column c) (\<lambda>tc st'. pool_inv st' \<and> pool_grows st st' \<and>
           typed_column_reads (pool_buffers st') c tc) (\<lambda>_ _. True) st"
  unfolding typed_column_def
  by (rule pool.intern_three [OF assms])
    (auto simp: wps describe_column_ok Let_def typed_column_reads_def pool_holds_def split: sum.split)

lemma typed_columns_wp:
  "wp (pcollect typed_column cs) (\<lambda>tcs st'. pool_inv st' \<and> pool_grows empty_pool st' \<and>
     list_all2 (\<lambda>c tc. typed_column_reads (pool_buffers st') c tc) cs tcs) (\<lambda>_ _. True) empty_pool"
proof (rule wp_collect [where R = "\<lambda>st c tc. typed_column_reads (pool_buffers st) c tc"])
  show "pool_inv empty_pool" by (rule pool_inv_empty)
  show "pool_grows s s" for s by (rule pool.grows_refl)
  show "pool_grows s t \<Longrightarrow> pool_grows t u \<Longrightarrow> pool_grows s u" for s t u by (rule pool.grows_trans)
  show "typed_column_reads (pool_buffers t) c tc"
    if "pool_grows s t" and "typed_column_reads (pool_buffers s) c tc" for s t c tc
    using that by (auto simp: pool_grows_def typed_column_reads_append)
qed (rule typed_column_wp)

lemma to_typed_split:
  assumes "to_typed b = Inr t"
  obtains columns st where "pcollect typed_column (tb_columns b) empty_pool = (Inr columns, st)"
    and "typed_table_batch_new (tb_table_id b) (tb_revision b) (tb_schema_version b) (tb_range b)
           (tb_complete b) (pool_buffers st) columns = Inr t"
  using assms by (auto simp: to_typed_def split: prod.splits sum.splits)

text \<open>
  C12: Converting a string batch to the typed layout loses nothing and stores nothing twice:
  every column's text, offsets and validity bitmap are read back unchanged through its
  descriptor, columns keep their order and identifiers, and the pool's buffers are distinct.
\<close>

theorem to_typed_lossless:
  assumes "to_typed b = Inr t" and "\<forall>c \<in> set (tb_columns b). \<forall>n \<in> set (scb_offsets c). n \<le> u32_max"
  shows "distinct (ttb_buffers t) \<and> ttb_range t = tb_range b \<and> ttb_complete t = tb_complete b \<and>
    list_all2 (\<lambda>c tc. tcb_column_id tc = scb_column_id c \<and> tcb_display tc = tcb_native tc \<and>
       (\<exists>values offsets validity.
          tcb_native tc = ArrayDescriptor TUtf8 (scb_len c)
            (Some \<lparr>bitmap_buffer = validity, bitmap_bit_offset = 0\<rparr>) (LVariableWidth offsets values) \<and>
          slice_bytes (ttb_buffers t) values = Some (scb_data c) \<and>
          map_option le_offsets (slice_bytes (ttb_buffers t) offsets) = Some (scb_offsets c) \<and>
          slice_bytes (ttb_buffers t) validity = Some (scb_validity c)))
      (tb_columns b) (ttb_columns t)"
proof -
  from assms(1) obtain columns st where run: "pcollect typed_column (tb_columns b) empty_pool = (Inr columns, st)"
    and new: "typed_table_batch_new (tb_table_id b) (tb_revision b) (tb_schema_version b) (tb_range b)
           (tb_complete b) (pool_buffers st) columns = Inr t" by (rule to_typed_split)
  from wp_ok [OF typed_columns_wp run] have inv: "pool_inv st"
    and all: "list_all2 (\<lambda>c tc. typed_column_reads (pool_buffers st) c tc) (tb_columns b) columns" by auto
  from new have t: "ttb_buffers t = pool_buffers st" "ttb_columns t = columns"
    "ttb_range t = tb_range b" "ttb_complete t = tb_complete b"
    by (auto simp: typed_table_batch_new_ok)
  have "list_all2 (\<lambda>c tc. c \<in> set (tb_columns b) \<and> typed_column_reads (pool_buffers st) c tc)
          (tb_columns b) columns"
    using all by (auto simp: list_all2_conv_all_nth)
  then show ?thesis
    using inv t assms(2)
    by (auto elim!: list_all2_mono simp: typed_column_reads_def pool_inv_def le_offsets_offset_bytes)
qed

section \<open>When the conversion succeeds\<close>

definition column_convertible :: "nat \<Rightarrow> string_column_batch \<Rightarrow> bool" where
  "column_convertible rows c \<longleftrightarrow> scb_wf c \<and> scb_column_id c \<noteq> [] \<and> scb_len c = rows \<and>
     length (scb_data c) \<le> max_safe_integer \<and> 4 * length (scb_offsets c) \<le> max_safe_integer"

lemma intern_succeeds:
  assumes "pool_inv st" and "length bytes \<le> max_safe_integer" and "length (pool_buffers st) \<le> u32_max"
  shows "\<exists>s st'. intern_batch_buffer bytes st = (Inr s, st') \<and>
           length (pool_buffers st') \<le> length (pool_buffers st) + 1"
proof (cases "bytes \<in> set (pool_buffers st)")
  case True
  from intern_found [OF assms(1) True] assms(2) max_safe_integer_less(1)
  obtain i where "intern_batch_buffer bytes st = (buffer_slice_new i 0 (length bytes), st)" by auto
  then show ?thesis using assms(2) by (auto simp: buffer_slice_new_def)
next
  case False
  from intern_new [OF assms(1) False _ assms(3)] assms(2) max_safe_integer_less(1)
  obtain "is" where "intern_batch_buffer bytes st =
      (buffer_slice_new (length (pool_buffers st)) 0 (length bytes),
       st\<lparr>pool_buffers := pool_buffers st @ [bytes],
          pool_index := (pool_index st)(batch_buffer_fingerprint bytes \<mapsto> is @ [length (pool_buffers st)])\<rparr>)"
    by auto
  then show ?thesis using assms(2) by (auto simp: buffer_slice_new_def)
qed

lemma intern_succeeds_then:
  assumes "pool_inv st" and "length bytes \<le> max_safe_integer" and "length (pool_buffers st) \<le> u32_max"
  obtains s st' where "intern_batch_buffer bytes st = (Inr s, st')" "pool_inv st'"
    "length (pool_buffers st') \<le> length (pool_buffers st) + 1"
  using intern_succeeds [OF assms] intern_cases [OF assms(1)] by blast

lemma scb_len_le: "scb_len c \<le> length (scb_offsets c)"
  by (simp add: scb_len_def saturating_sub_def)

lemma column_convertible_sizes:
  assumes "column_convertible rows c"
  shows "length (scb_validity c) \<le> max_safe_integer" "rows \<le> max_safe_integer"
proof -
  have o4: "4 * length (scb_offsets c) \<le> max_safe_integer" and rows: "scb_len c = rows"
    and val: "length (scb_validity c) = div_ceil (length (scb_offsets c) - 1) 8"
    and ne: "scb_offsets c \<noteq> []"
    using assms by (auto simp: column_convertible_def scb_wf_def)
  have "div_ceil n 8 \<le> n + 1" for n
    by (simp add: div_ceil_def) (metis div_le_dividend le_SucI)
  from this [of "length (scb_offsets c) - 1"] show "length (scb_validity c) \<le> max_safe_integer"
    using o4 val ne by (cases "scb_offsets c") auto
  show "rows \<le> max_safe_integer" using scb_len_le [of c] o4 rows by simp
qed

lemma typed_column_succeeds:
  assumes "pool_inv st" and "column_convertible rows c" and "length (pool_buffers st) + 2 \<le> u32_max"
  obtains tc st' where "typed_column c st = (Inr tc, st')" "pool_inv st'"
    "length (pool_buffers st') \<le> length (pool_buffers st) + 3"
proof -
  have sizes: "length (scb_data c) \<le> max_safe_integer" "length (offset_bytes (scb_offsets c)) \<le> max_safe_integer"
    "length (scb_validity c) \<le> max_safe_integer" "scb_len c \<le> max_safe_integer" "scb_column_id c \<noteq> []"
    using assms(2) column_convertible_sizes [OF assms(2)] by (auto simp: column_convertible_def)
  obtain ra s1 where 1: "intern_batch_buffer (scb_data c) st = (Inr ra, s1)" "pool_inv s1"
    "length (pool_buffers s1) \<le> length (pool_buffers st) + 1"
    using intern_succeeds_then [OF assms(1) sizes(1)] assms(3) by auto
  obtain rb s2 where 2: "intern_batch_buffer (offset_bytes (scb_offsets c)) s1 = (Inr rb, s2)" "pool_inv s2"
    "length (pool_buffers s2) \<le> length (pool_buffers s1) + 1"
    using intern_succeeds_then [OF 1(2) sizes(2)] 1(3) assms(3) by auto
  obtain rc s3 where 3: "intern_batch_buffer (scb_validity c) s2 = (Inr rc, s3)" "pool_inv s3"
    "length (pool_buffers s3) \<le> length (pool_buffers s2) + 1"
    using intern_succeeds_then [OF 2(2) sizes(3)] 1(3) 2(3) assms(3) by auto
  obtain tc where "describe_column (scb_column_id c) (scb_len c) ra rb rc = Inr tc"
    using sizes(4,5) by (auto simp: describe_column_ok Let_def)
  then have "typed_column c st = (Inr tc, s3)"
    using 1(1) 2(1) 3(1) sizes(4) max_safe_integer_less(1) by (simp add: typed_column_def prog_defs)
  then show ?thesis by (rule that) (use 1(3) 2(3) 3(2,3) in auto)
qed

lemma typed_columns_succeed:
  assumes "pool_inv st" and "\<forall>c \<in> set cs. column_convertible rows c"
    and "length (pool_buffers st) + 3 * length cs \<le> u32_max + 1"
  shows "\<exists>tcs st'. pcollect typed_column cs st = (Inr tcs, st')"
  using assms
proof (induction cs arbitrary: st)
  case Nil
  then show ?case by (simp add: prog_defs)
next
  case (Cons c cs)
  have "column_convertible rows c" "length (pool_buffers st) + 2 \<le> u32_max" using Cons.prems by auto
  then obtain tc st1 where 1: "typed_column c st = (Inr tc, st1)" "pool_inv st1"
    "length (pool_buffers st1) \<le> length (pool_buffers st) + 3"
    by (rule typed_column_succeeds [OF Cons.prems(1)])
  with Cons.prems obtain tcs st2 where "pcollect typed_column cs st1 = (Inr tcs, st2)"
    using Cons.IH [of st1] by auto
  with 1(1) show ?case by (simp add: prog_defs)
qed

lemma typed_column_reads_valid:
  assumes "typed_column_reads buffers c tc" and "column_convertible rows c"
  shows "ad_length (tcb_native tc) = rows \<and> validate_array_buffers buffers (tcb_native tc) = Inr ()"
proof -
  from assms(1) obtain vals offsets validity where
    d: "tcb_native tc = ArrayDescriptor TUtf8 (scb_len c)
          (Some \<lparr>bitmap_buffer = validity, bitmap_bit_offset = 0\<rparr>) (LVariableWidth offsets vals)"
    and b: "slice_bytes buffers vals = Some (scb_data c)"
      "slice_bytes buffers offsets = Some (offset_bytes (scb_offsets c))"
      "slice_bytes buffers validity = Some (scb_validity c)"
    unfolding typed_column_reads_def by blast
  have fits: "slice_fits buffers vals" "slice_fits buffers offsets" "slice_fits buffers validity"
    using b by (auto simp: slice_bytes_def split: if_splits)
  have len: "length (scb_validity c) = slice_length validity"
    using b(3) by (rule slice_bytes_length)
  have rows: "scb_len c = rows" using assms(2) by (simp add: column_convertible_def)
  have "length (scb_validity c) = div_ceil rows 8"
    using assms(2) by (auto simp: column_convertible_def scb_wf_def scb_len_def saturating_sub_def)
  moreover have "n \<le> 8 * div_ceil n 8" for n
  proof -
    have "n = 8 * (n div 8) + n mod 8" and "n mod 8 < 8" by simp_all
    then show ?thesis by (auto simp: div_ceil_def)
  qed
  ultimately have "rows \<le> 8 * slice_length validity" using len by metis
  moreover have "8 * slice_length validity \<le> u64_max"
    using fits(3) by (auto simp: slice_fits_def max_safe_integer_def u64_max_def)
  ultimately show ?thesis using d fits rows by (simp add: bitmap_fits_def)
qed

definition batch_convertible :: "table_batch \<Rightarrow> bool" where
  "batch_convertible b \<longleftrightarrow> range_valid (tb_range b) \<and> tb_revision b \<le> max_safe_integer \<and>
     tb_schema_version b \<le> max_safe_integer \<and>
     length (tb_columns b) = column_count (tb_range b) \<and>
     (\<forall>c \<in> set (tb_columns b). column_convertible (row_count (tb_range b)) c) \<and>
     3 * length (tb_columns b) \<le> u32_max + 1"

lemma to_typed_succeeds:
  assumes "batch_convertible b"
  shows "\<exists>t. to_typed b = Inr t"
proof -
  obtain tcs st where run: "pcollect typed_column (tb_columns b) empty_pool = (Inr tcs, st)"
    using typed_columns_succeed [OF pool_inv_empty, of "tb_columns b"] assms
    by (fastforce simp: empty_pool_def batch_convertible_def)
  from wp_ok [OF typed_columns_wp run]
  have all: "list_all2 (\<lambda>c tc. typed_column_reads (pool_buffers st) c tc) (tb_columns b) tcs" by auto
  have "ad_length (tcb_native tc) = row_count (tb_range b) \<and>
      validate_array_buffers (pool_buffers st) (tcb_native tc) = Inr () \<and> tcb_display tc = tcb_native tc"
    if tc: "tc \<in> set tcs" for tc
  proof -
    from tc obtain i where i: "i < length tcs" "tc = tcs ! i" by (auto simp: in_set_conv_nth)
    with all have r: "typed_column_reads (pool_buffers st) (tb_columns b ! i) tc"
      and "tb_columns b ! i \<in> set (tb_columns b)"
      by (auto simp: list_all2_conv_all_nth)
    with assms typed_column_reads_valid [OF r] show ?thesis
      by (auto simp: typed_column_reads_def batch_convertible_def)
  qed
  then have "\<exists>t. typed_table_batch_new (tb_table_id b) (tb_revision b) (tb_schema_version b) (tb_range b)
      (tb_complete b) (pool_buffers st) tcs = Inr t"
    using assms list_all2_lengthD [OF all] by (simp add: typed_table_batch_new_ok batch_convertible_def)
  with run show ?thesis by (auto simp: to_typed_def)
qed

text \<open>
  C13: Every well-formed string batch converts: with JavaScript-safe coordinates and sizes,
  non-empty column identifiers and at most (2^32)/3 columns, no branch of the conversion
  can fail.
\<close>

theorem to_typed_total:
  assumes "batch_convertible b"
  shows "is_ok (to_typed b)"
  using to_typed_succeeds [OF assms] by (auto simp: is_ok_iff)

text \<open>
  C14: The consuming conversion is the borrowing one: \<open>into_typed\<close> and \<open>to_typed\<close> give the
  same batch or the same error for every batch whose columns fit the address space.
\<close>

theorem into_typed_eq_to_typed:
  assumes "\<forall>c \<in> set (tb_columns b). length (scb_offsets c) \<le> u64_max"
  shows "into_typed b = to_typed b"
proof -
  have col: "moved_column c = typed_column c" if "length (scb_offsets c) \<le> u64_max" for c
    using that by (simp add: moved_column_def typed_column_def scb_len_def saturating_sub_def plift_def pbind_def)
  have "\<forall>c \<in> set cs. length (scb_offsets c) \<le> u64_max \<Longrightarrow> pcollect moved_column cs = pcollect typed_column cs" for cs
    by (induction cs) (auto simp: col)
  with assms show ?thesis by (simp add: into_typed_def to_typed_def)
qed

definition sample_batch :: table_batch where
  "sample_batch = \<lparr>tb_table_id = ''table-0'', tb_revision = 0, tb_schema_version = 1,
     tb_range = \<lparr>row_start = 0, row_count = 1, column_start = 0, column_count = 2\<rparr>, tb_complete = True,
     tb_columns = [\<lparr>scb_column_id = ''c0'', scb_data = [0x61], scb_offsets = [0, 1], scb_validity = [1]\<rparr>,
                   \<lparr>scb_column_id = ''c1'', scb_data = [0x61], scb_offsets = [0, 1], scb_validity = [1]\<rparr>]\<rparr>"

lemma sample_batch_convertible: "batch_convertible sample_batch"
  by (simp add: batch_convertible_def sample_batch_def range_valid_def column_convertible_def
      scb_wf_def scb_len_def saturating_sub_def max_safe_integer_def u32_max_def div_ceil_def
      utf8_step_def)

theorem to_typed_total_witness: "is_ok (to_typed sample_batch)"
  by (rule to_typed_total [OF sample_batch_convertible])

theorem into_typed_eq_to_typed_witness: "into_typed sample_batch = to_typed sample_batch"
  by (rule into_typed_eq_to_typed) (simp add: sample_batch_def u64_max_def)

theorem to_typed_lossless_witness:
  "\<exists>t. to_typed sample_batch = Inr t \<and> distinct (ttb_buffers t)"
proof -
  obtain t where t: "to_typed sample_batch = Inr t"
    using to_typed_succeeds [OF sample_batch_convertible] by blast
  show ?thesis
    using to_typed_lossless [OF t] t by (auto simp: sample_batch_def u32_max_def)
qed

end
