(* ===== verification/Protocol.thy ===== *)
theory Protocol
  imports Batch_Pool "HOL-Library.Multiset"
begin

text \<open>
  src/src/protocol.rs: the versioned Worker boundary. The adapter ABI lets an operation ask
  the Worker for source ranges; a cursor remembers what was asked under which revision and
  accepts exactly one matching set of results per revision. The rest of the module is the
  data of requests, responses and events, rejected unless they carry the current version.
\<close>

section \<open>Versions and identifiers\<close>

definition legacy_protocol_version :: nat where
  "legacy_protocol_version = 1"

definition protocol_v2_version :: nat where
  "protocol_v2_version = 2"

definition previous_protocol_version :: nat where
  "previous_protocol_version = 3"

definition protocol_version :: nat where
  "protocol_version = 4"

definition adapter_api_version :: nat where
  "adapter_api_version = 3"

definition max_operation_ranges_per_step :: nat where
  "max_operation_ranges_per_step = 32"

definition delimited_adapter_id :: string where
  "delimited_adapter_id = ''tabulark:delimited''"

definition ensure_protocol_version :: "nat \<Rightarrow> unit result" where
  "ensure_protocol_version actual =
     (if actual \<noteq> protocol_version
      then Inl (with_detail (with_detail
             (new_error ProtocolIncompatible ''the peer uses an unsupported Worker protocol version'')
             ''expectedProtocolVersion'' (DetailNumber protocol_version))
             ''actualProtocolVersion'' (DetailNumber actual))
      else Inr ())"

definition checked_wasm32_usize :: "nat \<Rightarrow> string \<Rightarrow> nat result" where
  "checked_wasm32_usize v field =
     rbind (ok_or (u32_try_from v)
       (with_detail (with_detail
          (new_error ResourceLimit ''value exceeds the wasm32 usize range'')
          ''field'' (DetailString field))
          ''value'' (DetailString (nat_to_dec v)))) (\<lambda>narrowed.
     ok_or (u64_try_from narrowed)
       (with_detail
          (new_error ResourceLimit ''wasm32 usize value is unavailable on this validation target'')
          ''field'' (DetailString field)))"

section \<open>Source actions\<close>

datatype adapter_action =
  ReadBytes (action_index: nat) (action_offset: nat) (action_length: nat)

definition read_bytes :: "nat \<Rightarrow> nat \<Rightarrow> adapter_action" where
  "read_bytes offset n = ReadBytes 0 offset n"

definition indexed_read_bytes :: "nat \<Rightarrow> nat \<Rightarrow> nat \<Rightarrow> adapter_action" where
  "indexed_read_bytes index offset n = ReadBytes index offset n"

definition action_end :: "adapter_action \<Rightarrow> nat result" where
  "action_end a =
     ok_or (checked_add (action_offset a) (action_length a))
       (with_detail (with_detail (with_detail
          (new_error InvalidArgument ''adapter source action range overflows u64'')
          ''actionIndex'' (DetailNumber (action_index a)))
          ''offset'' (DetailNumber (action_offset a)))
          ''length'' (DetailNumber (action_length a)))"

record adapter_action_result =
  res_action_index :: nat
  res_offset :: nat
  res_length :: nat
  res_eof :: bool

fun validate_actions_loop :: "nat set \<Rightarrow> nat \<Rightarrow> adapter_action list \<Rightarrow> nat result" where
  "validate_actions_loop ids requested [] = Inr requested"
| "validate_actions_loop ids requested (a # actions) =
     (if action_index a \<in> ids
      then Inl (with_detail
             (new_error InvalidArgument ''operation step contains a duplicate source action ID'')
             ''actionIndex'' (DetailNumber (action_index a)))
      else
        rbind (if action_offset a > max_safe_integer \<or> action_length a > max_safe_integer
               then Inr True
               else rbind (action_end a) (\<lambda>e. Inr (e > max_safe_integer))) (\<lambda>unsafe.
        if unsafe
        then Inl (with_detail
               (new_error ResourceLimit
                  ''operation source range exceeds the JavaScript safe integer boundary'')
               ''actionIndex'' (DetailNumber (action_index a)))
        else
          rbind (ok_or (checked_add requested (action_length a))
                   (new_error ResourceLimit ''operation step source byte total overflows u64'')) (\<lambda>requested'.
          validate_actions_loop (insert (action_index a) ids) requested' actions)))"

definition validate_operation_actions :: "adapter_action list \<Rightarrow> nat \<Rightarrow> nat result" where
  "validate_operation_actions actions budget =
     (if length actions > max_operation_ranges_per_step
      then Inl (with_detail (with_detail
             (new_error ResourceLimit ''operation step requests too many source ranges'')
             ''rangeCount'' (DetailNumber (length actions)))
             ''maxRangeCount'' (DetailNumber max_operation_ranges_per_step))
      else
        rbind (validate_actions_loop {} 0 actions) (\<lambda>requested.
        if requested > budget
        then Inl (with_detail (with_detail
               (new_error ResourceLimit ''operation step exceeds its source byte budget'')
               ''requestedBytes'' (DetailNumber requested))
               ''operationBudgetBytes'' (DetailNumber budget))
        else Inr requested))"

section \<open>Operation steps\<close>

datatype adapter_step_kind = Pending | Progress | Complete

record 'v adapter_step =
  step_kind :: adapter_step_kind
  step_operation_handle :: nat
  step_operation_revision :: nat
  step_actions :: "adapter_action list"
  step_cooperative_yield :: bool
  step_payload :: "'v option"

definition adapter_step_new ::
    "adapter_step_kind \<Rightarrow> nat \<Rightarrow> nat \<Rightarrow> adapter_action list \<Rightarrow> bool \<Rightarrow> 'v option \<Rightarrow> nat \<Rightarrow>
     'v adapter_step result" where
  "adapter_step_new kind handle revision actions cooperative_yield payload budget =
     rbind (validate_operation_actions actions budget) (\<lambda>_.
       if revision = 0 \<or> revision > max_safe_integer
       then Inl (with_detail
              (new_error InvalidArgument
                 ''operation revision must be a positive JavaScript safe integer'')
              ''operationRevision'' (DetailString (nat_to_dec revision)))
       else if kind = Complete \<and> (actions \<noteq> [] \<or> cooperative_yield)
       then Inl (new_error InvalidArgument ''a complete operation step cannot request more work'')
       else if kind \<noteq> Complete \<and> actions = [] \<and> \<not> cooperative_yield
       then Inl (new_error InvalidArgument
              ''a non-terminal operation step must request I/O or an explicit cooperative yield'')
       else if actions \<noteq> [] \<and> cooperative_yield
       then Inl (new_error InvalidArgument
              ''an operation step cannot request I/O and a cooperative yield together'')
       else Inr \<lparr>step_kind = kind, step_operation_handle = handle,
                 step_operation_revision = revision, step_actions = actions,
                 step_cooperative_yield = cooperative_yield, step_payload = payload\<rparr>)"

section \<open>The operation cursor\<close>

record operation_cursor =
  cursor_revision :: nat
  cursor_outstanding :: "adapter_action list"
  cursor_awaiting :: bool

definition cursor_new :: operation_cursor where
  "cursor_new = \<lparr>cursor_revision = 0, cursor_outstanding = [], cursor_awaiting = False\<rparr>"

type_synonym 'a cursor_op = "(operation_cursor, tabulark_error, 'a) prog"

definition next_revision :: "nat \<Rightarrow> nat result" where
  "next_revision current =
     rbind (ok_or (checked_add current 1)
       (new_error ResourceLimit ''operation revision space is exhausted'')) (\<lambda>revision.
     if revision > max_safe_integer
     then Inl (new_error ResourceLimit
            ''operation revision exceeds the JavaScript safe integer range'')
     else Inr revision)"

definition cursor_issue :: "adapter_action list \<Rightarrow> nat \<Rightarrow> nat cursor_op" where
  "cursor_issue actions budget =
     pbind pget (\<lambda>c.
     if cursor_awaiting c
     then pfail (new_error RuntimeFailure ''operation already has outstanding source actions'')
     else
       pbind (plift (validate_operation_actions actions budget)) (\<lambda>_.
       pbind (plift (next_revision (cursor_revision c))) (\<lambda>revision.
       pbind (pmodify (\<lambda>c. c\<lparr>cursor_revision := revision, cursor_outstanding := actions,
                             cursor_awaiting := True\<rparr>)) (\<lambda>_.
       preturn revision))))"

definition cursor_complete_revision :: "nat cursor_op" where
  "cursor_complete_revision =
     pbind pget (\<lambda>c.
     if cursor_awaiting c
     then pfail (new_error RuntimeFailure ''operation cannot complete with outstanding source actions'')
     else
       pbind (plift (next_revision (cursor_revision c))) (\<lambda>revision.
       pbind (pmodify (\<lambda>c. c\<lparr>cursor_revision := revision\<rparr>)) (\<lambda>_.
       preturn revision)))"

fun validate_results_loop ::
    "adapter_action list \<Rightarrow> nat set \<Rightarrow> adapter_action_result list \<Rightarrow> unit result" where
  "validate_results_loop outstanding seen [] = Inr ()"
| "validate_results_loop outstanding seen (r # results) =
     (if res_action_index r \<in> seen
      then Inl (with_detail
             (new_error InvalidArgument ''operation result set contains a duplicate source range'')
             ''actionIndex'' (DetailNumber (res_action_index r)))
      else
        rbind (ok_or (find (\<lambda>a. action_index a = res_action_index r) outstanding)
          (with_detail
             (new_error InvalidArgument ''operation result references an unknown source range'')
             ''actionIndex'' (DetailNumber (res_action_index r)))) (\<lambda>expected.
        rbind (ok_or (checked_add (res_offset r) (res_length r))
          (with_detail
             (new_error InvalidArgument ''operation result source range overflows u64'')
             ''actionIndex'' (DetailNumber (res_action_index r)))) (\<lambda>actual_end.
        rbind (if action_offset expected \<noteq> res_offset r \<or> action_length expected \<noteq> res_length r
               then Inr True
               else rbind (action_end expected) (\<lambda>e. Inr (e \<noteq> actual_end))) (\<lambda>mismatch.
        if mismatch
        then Inl (with_detail (with_detail (with_detail (with_detail (with_detail
               (new_error InvalidArgument ''operation result does not match its requested source range'')
               ''actionIndex'' (DetailNumber (res_action_index r)))
               ''expectedOffset'' (DetailNumber (action_offset expected)))
               ''expectedLength'' (DetailNumber (action_length expected)))
               ''actualOffset'' (DetailNumber (res_offset r)))
               ''actualLength'' (DetailNumber (res_length r)))
        else validate_results_loop outstanding (insert (res_action_index r) seen) results))))"

definition cursor_validate_results :: "nat \<Rightarrow> adapter_action_result list \<Rightarrow> unit cursor_op" where
  "cursor_validate_results revision results =
     pbind pget (\<lambda>c.
     if revision \<noteq> cursor_revision c
     then pfail (with_detail (with_detail
            (new_error InvalidArgument ''operation result revision is missing, stale, or out of order'')
            ''expectedOperationRevision'' (DetailNumber (cursor_revision c)))
            ''actualOperationRevision'' (DetailNumber revision))
     else if \<not> cursor_awaiting c
     then pfail (with_detail
            (new_error InvalidArgument ''operation revision has already consumed its result set'')
            ''operationRevision'' (DetailNumber revision))
     else if length results \<noteq> length (cursor_outstanding c)
     then pfail (with_detail (with_detail
            (new_error InvalidArgument
               ''operation result set is missing or contains extra source ranges'')
            ''expectedResults'' (DetailNumber (length (cursor_outstanding c))))
            ''actualResults'' (DetailNumber (length results)))
     else
       pbind (plift (validate_results_loop (cursor_outstanding c) {} results)) (\<lambda>_.
       pmodify (\<lambda>c. c\<lparr>cursor_outstanding := [], cursor_awaiting := False\<rparr>)))"

section \<open>Messages\<close>

record adapter_table_descriptor =
  atd_id :: string
  atd_name :: string

record adapter_progress =
  ap_source_handle :: nat
  ap_bytes_scanned :: nat
  ap_rows_discovered :: nat
  ap_done :: bool

record adapter_registration =
  reg_id :: string
  reg_module_url :: string

record hello_request =
  hello_client_name :: "string option"
  hello_adapters :: "adapter_registration list"
  hello_memory_budget_bytes :: nat

record open_source_request =
  open_adapter_id :: string
  open_options :: json

datatype request =
    Hello hello_request
  | OpenSource open_source_request
  | ListTables string
  | OpenTable string string
  | GetMetadata string
  | GetPresentation string
  | ReadPresentationRange string range_request
  | ReadRange string range_request
  | CancelRequest string
  | CloseTable string
  | CloseSource string
  | Shutdown

record request_envelope =
  req_protocol_version :: nat
  req_id :: string
  req_request :: request

definition request_envelope_new :: "string \<Rightarrow> request \<Rightarrow> request_envelope" where
  "request_envelope_new rid r =
     \<lparr>req_protocol_version = protocol_version, req_id = rid, req_request = r\<rparr>"

record hello_response =
  hr_protocol_version :: nat
  hr_adapter_api_version :: nat
  hr_batch_layout_version :: nat
  hr_adapters :: "string list"
  hr_transferable_batches :: bool

record table_descriptor =
  td_id :: string
  td_name :: string
  td_table_handle :: "string option"

datatype response_result =
    HelloResult hello_response
  | Dataset string
  | Tables "table_descriptor list"
  | Table table_descriptor
  | Metadata table_metadata
  | Presentation "json option"
  | PresentationRange "json option"
  | Batch typed_table_batch
  | Acknowledged

datatype response = Success response_result | Failure tabulark_error

record response_envelope =
  resp_protocol_version :: nat
  resp_request_id :: string
  resp_response :: response

definition response_success :: "string \<Rightarrow> response_result \<Rightarrow> response_envelope" where
  "response_success rid r =
     \<lparr>resp_protocol_version = protocol_version, resp_request_id = rid, resp_response = Success r\<rparr>"

definition response_failure :: "string \<Rightarrow> tabulark_error \<Rightarrow> response_envelope" where
  "response_failure rid e =
     \<lparr>resp_protocol_version = protocol_version, resp_request_id = rid, resp_response = Failure e\<rparr>"

record progress_event =
  pe_source_handle :: string
  pe_table_id :: "string option"
  pe_revision :: "nat option"
  pe_bytes_scanned :: nat
  pe_rows_discovered :: nat
  pe_done :: bool

record warning_event =
  we_handle :: string
  we_kind :: string
  we_message :: string
  we_byte_offset :: "nat option"
  we_row :: "nat option"

record closed_event =
  ce_handle :: string
  ce_kind :: string

datatype runtime_event =
    ProgressEvent progress_event
  | MetadataEvent table_metadata
  | WarningEvent warning_event
  | ClosedEvent closed_event
  | RuntimeErrorEvent tabulark_error

record event_envelope =
  ev_protocol_version :: nat
  ev_request_id :: "string option"
  ev_dataset_handle :: "string option"
  ev_table_handle :: "string option"
  ev_table_id :: "string option"
  ev_event :: runtime_event

section \<open>Which actions and results are accepted\<close>

definition action_safe :: "adapter_action \<Rightarrow> bool" where
  "action_safe a \<longleftrightarrow> action_offset a + action_length a \<le> max_safe_integer"

definition actions_valid :: "adapter_action list \<Rightarrow> bool" where
  "actions_valid actions \<longleftrightarrow> length actions \<le> max_operation_ranges_per_step \<and>
     distinct (map action_index actions) \<and> (\<forall>a \<in> set actions. action_safe a)"

lemma action_end_safe: "action_safe a \<Longrightarrow> action_end a = Inr (action_offset a + action_length a)"
  using max_safe_integer_less by (auto simp: action_end_def action_safe_def)

lemma unsafe_check:
  "rbind (if action_offset a > max_safe_integer \<or> action_length a > max_safe_integer
          then Inr True else rbind (action_end a) (\<lambda>e. Inr (e > max_safe_integer))) f = f (\<not> action_safe a)"
proof (cases "action_offset a > max_safe_integer \<or> action_length a > max_safe_integer")
  case True
  then show ?thesis by (auto simp: action_safe_def)
next
  case False
  then have "action_offset a + action_length a \<le> u64_max" using max_safe_integer_less(2) by simp
  with False show ?thesis by (simp add: action_end_def action_safe_def not_le)
qed

lemma actions_loop_ok:
  "t \<le> u64_max \<Longrightarrow> validate_actions_loop seen t actions = Inr n \<longleftrightarrow>
     distinct (map action_index actions) \<and> action_index ` set actions \<inter> seen = {} \<and>
     (\<forall>a \<in> set actions. action_safe a) \<and>
     t + sum_list (map action_length actions) \<le> u64_max \<and> n = t + sum_list (map action_length actions)"
proof (induction actions arbitrary: seen t)
  case Nil
  then show ?case by auto
next
  case (Cons a actions)
  show ?case
  proof (cases "action_index a \<notin> seen \<and> action_safe a \<and> t + action_length a \<le> u64_max")
    case True
    then show ?thesis
      using Cons.IH [of "t + action_length a" "insert (action_index a) seen"]
      by (auto simp: unsafe_check add.assoc)
  next
    case False
    then show ?thesis by (auto simp: unsafe_check split: if_splits)
  qed
qed

lemma actions_loop_codes:
  "validate_actions_loop seen t actions = Inl e \<Longrightarrow> err_code e \<in> {InvalidArgument, ResourceLimit}"
  by (induction seen t actions rule: validate_actions_loop.induct)
    (auto simp: unsafe_check rbind_Inl_iff simp del: ok_or.simps split: if_splits)

lemma sum_actions_bound:
  assumes "actions_valid actions"
  shows "sum_list (map action_length actions) \<le> u64_max"
proof -
  have "sum_list (map action_length as) \<le> length as * max_safe_integer" if "\<forall>a \<in> set as. action_safe a" for as
    using that by (induction as) (auto simp: action_safe_def)
  then have "sum_list (map action_length actions) \<le> length actions * max_safe_integer"
    using assms by (simp add: actions_valid_def)
  also have "\<dots> \<le> 32 * max_safe_integer"
    using assms by (simp add: actions_valid_def max_operation_ranges_per_step_def)
  also have "\<dots> \<le> u64_max" by (simp add: max_safe_integer_def u64_max_def)
  finally show ?thesis .
qed

lemma validate_operation_actions_ok:
  "validate_operation_actions actions budget = Inr n \<longleftrightarrow>
     actions_valid actions \<and> sum_list (map action_length actions) \<le> budget \<and>
     n = sum_list (map action_length actions)"
proof -
  have "validate_operation_actions actions budget = Inr n \<longleftrightarrow>
      actions_valid actions \<and> sum_list (map action_length actions) \<le> u64_max \<and>
      sum_list (map action_length actions) \<le> budget \<and> n = sum_list (map action_length actions)"
    by (auto simp: validate_operation_actions_def actions_valid_def actions_loop_ok split: if_splits)
  then show ?thesis using sum_actions_bound by blast
qed

definition action_of_result :: "adapter_action_result \<Rightarrow> adapter_action" where
  "action_of_result r = ReadBytes (res_action_index r) (res_offset r) (res_length r)"

lemma action_of_result_sel [simp]:
  "action_index (action_of_result r) = res_action_index r"
  "action_offset (action_of_result r) = res_offset r"
  "action_length (action_of_result r) = res_length r"
  by (simp_all add: action_of_result_def)

lemma find_action:
  assumes "distinct (map action_index actions)"
  shows "find (\<lambda>a. action_index a = i) actions = Some a \<longleftrightarrow> a \<in> set actions \<and> action_index a = i"
  using assms by (induction actions) auto

lemma find_action_None: "find (\<lambda>a. action_index a = i) actions = None \<longleftrightarrow> i \<notin> action_index ` set actions"
  by (auto simp: find_None_iff)

lemma action_of_result_eq:
  "action_of_result r = a \<longleftrightarrow>
     res_action_index r = action_index a \<and> res_offset r = action_offset a \<and> res_length r = action_length a"
  by (cases a) (auto simp: action_of_result_def)

text \<open>One result of the loop: it matches an outstanding action, or the loop fails.\<close>

lemma results_loop_Cons:
  assumes "actions_valid out"
  shows "validate_results_loop out seen (r # rs) = Inr u \<longleftrightarrow>
    res_action_index r \<notin> seen \<and> action_of_result r \<in> set out \<and>
    validate_results_loop out (insert (res_action_index r) seen) rs = Inr u"
proof (cases "find (\<lambda>a. action_index a = res_action_index r) out")
  case None
  then have "action_of_result r \<notin> set out"
    by (metis action_of_result_sel(1) find_action_None image_eqI)
  with None show ?thesis by simp
next
  case (Some a)
  then have a: "a \<in> set out" "action_index a = res_action_index r"
    using assms by (auto simp: find_action actions_valid_def)
  then have safe: "action_safe a" using assms by (simp add: actions_valid_def)
  have mem: "action_of_result r \<in> set out \<longleftrightarrow> action_of_result r = a"
    using a Some assms find_action [of out "res_action_index r"]
    by (metis action_of_result_sel(1) actions_valid_def option.inject)
  show ?thesis
  proof (cases "action_of_result r = a")
    case True
    then have "res_offset r + res_length r \<le> u64_max"
      using safe max_safe_integer_less by (auto simp: action_safe_def)
    with True Some safe mem a(1) show ?thesis by (auto simp: action_end_safe)
  next
    case False
    then have "action_offset a \<noteq> res_offset r \<or> action_length a \<noteq> res_length r"
      using a(2) by (auto simp: action_of_result_eq)
    with False Some mem show ?thesis by auto
  qed
qed

lemma results_loop_ok:
  "actions_valid out \<Longrightarrow> validate_results_loop out seen rs = Inr u \<longleftrightarrow>
     distinct (map res_action_index rs) \<and> res_action_index ` set rs \<inter> seen = {} \<and>
     action_of_result ` set rs \<subseteq> set out"
proof (induction rs arbitrary: seen)
  case Nil
  then show ?case by simp
next
  case (Cons r rs)
  show ?case
    unfolding results_loop_Cons [OF Cons.prems] Cons.IH [OF Cons.prems] by auto
qed

text \<open>A complete set of results is a permutation of the outstanding actions.\<close>

lemma results_permute:
  assumes "actions_valid out"
  shows "length rs = length out \<and> distinct (map res_action_index rs) \<and> action_of_result ` set rs \<subseteq> set out \<longleftrightarrow>
    mset (map action_of_result rs) = mset out"
    (is "?matched \<longleftrightarrow> ?perm")
proof
  have idx: "map res_action_index rs = map action_index (map action_of_result rs)" by simp
  have out: "distinct out" using assms by (auto simp: actions_valid_def distinct_map)
  show ?perm if ?matched
  proof -
    from that have d: "distinct (map action_of_result rs)"
      using idx by (metis distinct_map)
    have "card (set (map action_of_result rs)) = card (set out)"
      using that distinct_card [OF d] distinct_card [OF out] by simp
    then have "set (map action_of_result rs) = set out"
      using that by (intro card_subset_eq) auto
    then show ?perm using set_eq_iff_mset_eq_distinct [OF d out] by blast
  qed
  show ?matched if ?perm
  proof -
    have "mset (map action_index (map action_of_result rs)) = mset (map action_index out)"
      using that by (metis mset_map)
    then have "distinct (map res_action_index rs)"
      using assms idx by (metis actions_valid_def mset_eq_imp_distinct_iff)
    moreover have "length rs = length out" using that by (metis length_map size_mset)
    moreover have "set (map action_of_result rs) = set out" using that by (rule mset_eq_setD)
    ultimately show ?matched by auto
  qed
qed

section \<open>The cursor's invariant\<close>

definition cursor_inv :: "operation_cursor \<Rightarrow> bool" where
  "cursor_inv c \<longleftrightarrow> actions_valid (cursor_outstanding c) \<and>
     (\<not> cursor_awaiting c \<longrightarrow> cursor_outstanding c = []) \<and> cursor_revision c \<le> max_safe_integer"

lemma next_revision_ok: "next_revision r = Inr n \<longleftrightarrow> n = r + 1 \<and> r < max_safe_integer"
  using max_safe_integer_less(1) by (auto simp: next_revision_def)

text \<open>A failed call of the cursor leaves it as it was.\<close>

definition call_refused :: "(tabulark_error + 'a) \<times> operation_cursor \<Rightarrow> operation_cursor \<Rightarrow> bool" where
  "call_refused outcome c \<longleftrightarrow> (\<exists>e. outcome = (Inl e, c))"

lemma call_refusedI [simp]: "call_refused (Inl e, c) c"
  by (simp add: call_refused_def)

lemma next_revision_err: "\<not> r < max_safe_integer \<Longrightarrow> \<exists>e. next_revision r = Inl e"
  by (cases "next_revision r") (auto simp: next_revision_ok)

lemma cursor_issue_ok:
  assumes "\<not> cursor_awaiting c" and "actions_valid actions"
    and "sum_list (map action_length actions) \<le> budget" and "cursor_revision c < max_safe_integer"
  shows "cursor_issue actions budget c =
    (Inr (cursor_revision c + 1),
     c\<lparr>cursor_revision := cursor_revision c + 1, cursor_outstanding := actions, cursor_awaiting := True\<rparr>)"
proof -
  have "validate_operation_actions actions budget = Inr (sum_list (map action_length actions))"
    using assms by (simp add: validate_operation_actions_ok)
  moreover have "next_revision (cursor_revision c) = Inr (cursor_revision c + 1)"
    using assms by (simp add: next_revision_ok)
  ultimately show ?thesis using assms(1) by (simp add: cursor_issue_def prog_defs)
qed

lemma cursor_issue_refused:
  assumes "\<not> (\<not> cursor_awaiting c \<and> actions_valid actions \<and>
     sum_list (map action_length actions) \<le> budget \<and> cursor_revision c < max_safe_integer)"
  shows "call_refused (cursor_issue actions budget c) c"
proof (cases "cursor_awaiting c")
  case True
  then show ?thesis by (simp add: cursor_issue_def prog_defs)
next
  case idle: False
  show ?thesis
  proof (cases "validate_operation_actions actions budget")
    case (Inl e)
    then show ?thesis using idle by (simp add: cursor_issue_def prog_defs)
  next
    case (Inr n)
    then have "\<not> cursor_revision c < max_safe_integer"
      using assms idle by (auto simp: validate_operation_actions_ok)
    then show ?thesis using next_revision_err Inr idle by (fastforce simp: cursor_issue_def prog_defs)
  qed
qed

lemma cursor_complete_ok:
  "\<not> cursor_awaiting c \<Longrightarrow> cursor_revision c < max_safe_integer \<Longrightarrow>
     cursor_complete_revision c = (Inr (cursor_revision c + 1), c\<lparr>cursor_revision := cursor_revision c + 1\<rparr>)"
  using next_revision_ok [of "cursor_revision c" "cursor_revision c + 1"]
  by (simp add: cursor_complete_revision_def prog_defs)

lemma cursor_complete_refused:
  assumes "\<not> (\<not> cursor_awaiting c \<and> cursor_revision c < max_safe_integer)"
  shows "call_refused (cursor_complete_revision c) c"
  using assms next_revision_err [of "cursor_revision c"]
  by (auto simp: cursor_complete_revision_def prog_defs)

definition results_match :: "nat \<Rightarrow> adapter_action_result list \<Rightarrow> operation_cursor \<Rightarrow> bool" where
  "results_match revision rs c \<longleftrightarrow> revision = cursor_revision c \<and> cursor_awaiting c \<and>
     mset (map action_of_result rs) = mset (cursor_outstanding c)"

lemma results_loop_matches:
  assumes "actions_valid out" and "length rs = length out"
  shows "validate_results_loop out {} rs = Inr u \<longleftrightarrow> mset (map action_of_result rs) = mset out"
  using results_loop_ok [OF assms(1), of "{}" rs u] results_permute [OF assms(1), of rs] assms(2) by auto

lemma results_match_length:
  "results_match revision rs c \<Longrightarrow> length rs = length (cursor_outstanding c)"
  using mset_eq_length [of "map action_of_result rs" "cursor_outstanding c"]
  unfolding results_match_def length_map by blast

lemma cursor_results_ok:
  assumes "cursor_inv c" and "results_match revision rs c"
  shows "cursor_validate_results revision rs c =
    (Inr (), c\<lparr>cursor_outstanding := [], cursor_awaiting := False\<rparr>)"
proof -
  have "validate_results_loop (cursor_outstanding c) {} rs = Inr ()"
    using assms results_loop_matches [OF _ results_match_length [OF assms(2)], of "()"]
    unfolding cursor_inv_def results_match_def by blast
  then show ?thesis
    using assms(2) results_match_length [OF assms(2)]
    by (simp add: cursor_validate_results_def prog_defs results_match_def)
qed

lemma cursor_results_refused:
  assumes "cursor_inv c" and "\<not> results_match revision rs c"
  shows "call_refused (cursor_validate_results revision rs c) c"
proof (cases "revision = cursor_revision c \<and> cursor_awaiting c \<and> length rs = length (cursor_outstanding c)")
  case False
  then show ?thesis by (auto simp: cursor_validate_results_def prog_defs)
next
  case True
  show ?thesis
  proof (cases "validate_results_loop (cursor_outstanding c) {} rs")
    case (Inl e)
    then show ?thesis using True by (simp add: cursor_validate_results_def prog_defs)
  next
    case (Inr u)
    then have "results_match revision rs c"
      using True assms(1) results_loop_matches [of "cursor_outstanding c" rs u]
      unfolding cursor_inv_def results_match_def by blast
    with assms(2) show ?thesis by simp
  qed
qed

datatype cursor_call =
    CallIssue "adapter_action list" nat
  | CallComplete
  | CallResults nat "adapter_action_result list"

fun cursor_step :: "cursor_call \<Rightarrow> operation_cursor \<Rightarrow> operation_cursor" where
  "cursor_step (CallIssue actions budget) c = snd (cursor_issue actions budget c)"
| "cursor_step CallComplete c = snd (cursor_complete_revision c)"
| "cursor_step (CallResults revision rs) c = snd (cursor_validate_results revision rs c)"

lemma cursor_new_inv: "cursor_inv cursor_new"
  by (simp add: cursor_inv_def cursor_new_def actions_valid_def)

text \<open>A call succeeds with its known effect, or leaves the cursor alone.\<close>

inductive cursor_moves :: "operation_cursor \<Rightarrow> operation_cursor \<Rightarrow> bool" where
  stays: "cursor_moves c c"
| issues: "\<not> cursor_awaiting c \<Longrightarrow> actions_valid actions \<Longrightarrow> cursor_revision c < max_safe_integer \<Longrightarrow>
    cursor_moves c (c\<lparr>cursor_revision := cursor_revision c + 1, cursor_outstanding := actions,
      cursor_awaiting := True\<rparr>)"
| completes: "\<not> cursor_awaiting c \<Longrightarrow> cursor_revision c < max_safe_integer \<Longrightarrow>
    cursor_moves c (c\<lparr>cursor_revision := cursor_revision c + 1\<rparr>)"
| receives: "cursor_awaiting c \<Longrightarrow>
    cursor_moves c (c\<lparr>cursor_outstanding := [], cursor_awaiting := False\<rparr>)"

lemma refused_stays: "call_refused r c \<Longrightarrow> cursor_moves c (snd r)"
  by (auto simp: call_refused_def intro: stays)

lemma cursor_step_moves:
  assumes "cursor_inv c"
  shows "cursor_moves c (cursor_step call c)"
proof (cases call)
  case (CallIssue actions budget)
  show ?thesis
  proof (cases "\<not> cursor_awaiting c \<and> actions_valid actions \<and>
      sum_list (map action_length actions) \<le> budget \<and> cursor_revision c < max_safe_integer")
    case True
    then show ?thesis using CallIssue issues [of c actions] by (simp add: cursor_issue_ok)
  next
    case False
    then show ?thesis using CallIssue by (simp add: refused_stays cursor_issue_refused del: de_Morgan_conj)
  qed
next
  case CallComplete
  show ?thesis
  proof (cases "\<not> cursor_awaiting c \<and> cursor_revision c < max_safe_integer")
    case True
    then show ?thesis using CallComplete completes [of c] by (simp add: cursor_complete_ok)
  next
    case False
    then show ?thesis using CallComplete by (simp add: refused_stays cursor_complete_refused del: de_Morgan_conj)
  qed
next
  case (CallResults revision rs)
  then show ?thesis
    using cursor_results_refused [OF assms, of revision rs] cursor_results_ok [OF assms, of revision rs]
    by (cases "results_match revision rs c") (auto intro: refused_stays receives simp: results_match_def)
qed

lemma cursor_moves_inv: "cursor_moves c c' \<Longrightarrow> cursor_inv c \<Longrightarrow> cursor_inv c'"
  by (induction rule: cursor_moves.induct) (auto simp: cursor_inv_def actions_valid_def)

interpretation cursor: metered_machine cursor_step cursor_inv cursor_revision "\<lambda>_. max_safe_integer"
proof unfold_locales
  show "cursor_inv c \<Longrightarrow> cursor_inv (cursor_step call c)" for c call
    using cursor_step_moves cursor_moves_inv by blast
  show "cursor_inv c \<Longrightarrow> cursor_revision c \<le> max_safe_integer" for c
    by (simp add: cursor_inv_def)
qed simp

text \<open>A revision is spent once its results were accepted; it stays spent.\<close>

definition revision_spent :: "nat \<Rightarrow> operation_cursor \<Rightarrow> bool" where
  "revision_spent r c \<longleftrightarrow> cursor_inv c \<and>
     (r < cursor_revision c \<or> r = cursor_revision c \<and> \<not> cursor_awaiting c)"

lemma revision_spent_moves: "cursor_moves c c' \<Longrightarrow> revision_spent r c \<Longrightarrow> revision_spent r c'"
  by (induction rule: cursor_moves.induct)
    (auto simp: revision_spent_def cursor_inv_def actions_valid_def)

interpretation spent: step_machine cursor_step "revision_spent r" for r
proof unfold_locales
  fix c call
  assume spent: "revision_spent r c"
  then have "cursor_inv c" by (simp add: revision_spent_def)
  then show "revision_spent r (cursor_step call c)"
    by (rule revision_spent_moves [OF cursor_step_moves spent])
qed

section \<open>Properties\<close>

text \<open>
  A step may ask for source ranges exactly when there are at most 32 of them, their
  identifiers are distinct, every range ends within the JavaScript safe integers, and their
  lengths together fit the step's byte budget; it is answered with that total, and any
  other request is refused as an invalid argument or a resource limit.
\<close>

theorem operation_actions_accepted:
  "(is_ok (validate_operation_actions actions budget) \<longleftrightarrow>
      actions_valid actions \<and> sum_list (map action_length actions) \<le> budget) \<and>
   (case validate_operation_actions actions budget of
      Inr n \<Rightarrow> n = sum_list (map action_length actions)
    | Inl e \<Rightarrow> err_code e = InvalidArgument \<or> err_code e = ResourceLimit)"
proof (cases "validate_operation_actions actions budget")
  case (Inl e)
  have "err_code e = InvalidArgument \<or> err_code e = ResourceLimit"
    using Inl actions_loop_codes [of "{}" 0 actions]
    by (auto simp: validate_operation_actions_def rbind_Inl_iff split: if_splits)
  moreover have "\<not> (actions_valid actions \<and> sum_list (map action_length actions) \<le> budget)"
    using Inl validate_operation_actions_ok [of actions budget] by auto
  ultimately show ?thesis using Inl by simp
next
  case (Inr n)
  then show ?thesis using validate_operation_actions_ok [THEN iffD1, OF Inr] by simp
qed

text \<open>
  On any cursor a run can reach, results are accepted exactly when they carry the
  current revision while it awaits its results and are, in any order, one result per
  requested range with the range's own identifier, offset and length. Acceptance clears the
  outstanding set; a refusal leaves the cursor unchanged.
\<close>

theorem cursor_results_accepted:
  assumes "c = fold cursor_step calls cursor_new"
  shows "(cursor_validate_results revision rs c =
      (Inr (), c\<lparr>cursor_outstanding := [], cursor_awaiting := False\<rparr>) \<longleftrightarrow>
      revision = cursor_revision c \<and> cursor_awaiting c \<and>
      mset (map action_of_result rs) = mset (cursor_outstanding c)) \<and>
    (is_ok (fst (cursor_validate_results revision rs c)) \<or>
      snd (cursor_validate_results revision rs c) = c)"
proof -
  have inv: "cursor_inv c" using assms cursor.run_inv [OF cursor_new_inv] by simp
  show ?thesis
    unfolding results_match_def [symmetric]
    using cursor_results_ok [OF inv, of revision rs] cursor_results_refused [OF inv, of revision rs]
    by (cases "results_match revision rs c") (auto simp: call_refused_def)
qed

text \<open>
  C18: No replay. Once the results of a revision have been accepted, no sequence of further
  calls makes the cursor accept any result set under that revision again.
\<close>

theorem cursor_no_replay:
  assumes "cursor_inv c" and "fst (cursor_validate_results r rs c) = Inr ()"
  shows "\<not> is_ok (fst (cursor_validate_results r rs'
    (fold cursor_step calls (snd (cursor_validate_results r rs c)))))"
proof -
  let ?d = "snd (cursor_validate_results r rs c)"
  have "results_match r rs c"
    using assms cursor_results_refused [of c r rs]
    by (cases "results_match r rs c") (auto simp: call_refused_def)
  then have "revision_spent r ?d"
    using cursor_results_ok [OF assms(1)] assms(1)
    by (auto simp: revision_spent_def results_match_def cursor_inv_def actions_valid_def)
  then have spent: "revision_spent r (fold cursor_step calls ?d)" by (rule spent.run_inv)
  then have "\<not> results_match r rs' (fold cursor_step calls ?d)" "cursor_inv (fold cursor_step calls ?d)"
    by (auto simp: revision_spent_def results_match_def)
  then show ?thesis using cursor_results_refused by (fastforce simp: call_refused_def)
qed

text \<open>
  An operation step can be built exactly when its actions are accepted within the
  budget, its revision is a positive safe integer, and it is unambiguous about what comes
  next: a complete step asks for nothing, any other asks either for source ranges or for a
  cooperative yield, never both.
\<close>

theorem adapter_step_unambiguous:
  "is_ok (adapter_step_new kind handle revision actions yield payload budget) \<longleftrightarrow>
     actions_valid actions \<and> sum_list (map action_length actions) \<le> budget \<and>
     0 < revision \<and> revision \<le> max_safe_integer \<and>
     (if kind = Complete then actions = [] \<and> \<not> yield else (actions = []) = yield)"
  by (auto simp: adapter_step_new_def is_ok_rbind validate_operation_actions_ok)

text \<open>Concrete inputs for the hypotheses above.\<close>

definition two_reads :: "adapter_action list" where
  "two_reads = [indexed_read_bytes 7 0 16, indexed_read_bytes 9 100 4]"

definition two_results :: "adapter_action_result list" where
  "two_results =
     [\<lparr>res_action_index = 9, res_offset = 100, res_length = 4, res_eof = True\<rparr>,
      \<lparr>res_action_index = 7, res_offset = 0, res_length = 16, res_eof = False\<rparr>]"

definition awaiting_cursor :: operation_cursor where
  "awaiting_cursor = \<lparr>cursor_revision = 1, cursor_outstanding = two_reads, cursor_awaiting = True\<rparr>"

lemma two_reads_valid: "actions_valid two_reads"
  by (simp add: two_reads_def actions_valid_def action_safe_def indexed_read_bytes_def
      max_operation_ranges_per_step_def max_safe_integer_def)

lemma two_results_match: "mset (map action_of_result two_results) = mset two_reads"
  by (simp add: two_results_def two_reads_def action_of_result_def indexed_read_bytes_def)

lemma awaiting_cursor_inv: "cursor_inv awaiting_cursor"
  using two_reads_valid by (simp add: awaiting_cursor_def cursor_inv_def max_safe_integer_def)

lemma awaiting_cursor_run: "awaiting_cursor = fold cursor_step [CallIssue two_reads 20] cursor_new"
  using cursor_issue_ok [of cursor_new two_reads 20] two_reads_valid
  by (simp add: cursor_new_def awaiting_cursor_def max_safe_integer_def)
    (simp add: two_reads_def indexed_read_bytes_def)

theorem cursor_results_accepted_witness:
  "cursor_validate_results 1 two_results awaiting_cursor =
     (Inr (), \<lparr>cursor_revision = 1, cursor_outstanding = [], cursor_awaiting = False\<rparr>)"
  using cursor_results_accepted [OF awaiting_cursor_run, of 1 two_results] two_results_match
  by (simp add: awaiting_cursor_def)

theorem cursor_no_replay_witness:
  "\<not> is_ok (fst (cursor_validate_results 1 two_results (cursor_step CallComplete
     (snd (cursor_validate_results 1 two_results awaiting_cursor)))))"
proof -
  have "results_match 1 two_results awaiting_cursor"
    using two_results_match by (simp add: results_match_def awaiting_cursor_def)
  then have "fst (cursor_validate_results 1 two_results awaiting_cursor) = Inr ()"
    using cursor_results_ok [OF awaiting_cursor_inv] by simp
  from cursor_no_replay [OF awaiting_cursor_inv this, of two_results "[CallComplete]"]
  show ?thesis by (simp del: cursor_step.simps)
qed

end
