(* ===== verification/Zstd_Frame.thy ===== *)
theory Zstd_Frame
  imports Errors Byte_Order
begin

text \<open>
  crates/zstd-pure-compat/src/lib.rs: the narrow \<open>zstd\<close> replacement the Arrow and Parquet
  adapters link against. Frames are written as single-segment frames of raw blocks; on the
  way back one frame is decoded by \<open>ruzstd\<close>, which is a parameter here, under a window and
  output budget checked before the decoder allocates. The diagnostics of the budget travel
  as text through Arrow and Parquet and are recognised again by \<open>error.rs\<close>.

  \<open>Vec::try_reserve_exact\<close> is a parameter \<open>reserve\<close>: \<open>None\<close> when the allocator grants the
  bytes, the text of its error otherwise. Block headers are computed on naturals with the
  source's shifts: a block has at most \<open>2^17\<close> bytes, so the \<open>u32\<close> never wraps.
\<close>

unbundle bit_operations_syntax

declare nat_to_dec.simps [simp del]

section \<open>Constants and errors\<close>

definition min_compression_level :: int where
  "min_compression_level = -131072"

definition max_compression_level :: int where
  "max_compression_level = 22"

definition max_window_size :: nat where
  "max_window_size = 104857600"

definition max_block_size :: nat where
  "max_block_size = 131072"

definition zstd_magic :: "byte list" where
  "zstd_magic = [0x28, 0xb5, 0x2f, 0xfd]"

datatype io_kind = InvalidData | InvalidInput | OutOfMemory

record io_error =
  io_kind_of :: io_kind
  io_message :: string

definition io_error_new :: "io_kind \<Rightarrow> string \<Rightarrow> io_error" where
  "io_error_new kind message = \<lparr>io_kind_of = kind, io_message = message\<rparr>"

definition invalid_data :: "string \<Rightarrow> io_error" where
  "invalid_data message = io_error_new InvalidData message"

definition resource_limit :: "string \<Rightarrow> nat \<Rightarrow> nat \<Rightarrow> io_error" where
  "resource_limit resource required available =
     io_error_new InvalidData
       (''zstd resource limit: '' @ resource @ '' required '' @ nat_to_dec required @
        '' available '' @ nat_to_dec available)"

type_synonym 'a io_result = "io_error + 'a"

section \<open>Frame headers\<close>

record frame_header =
  content_size :: "nat option"
  window_size :: nat

definition window_of_descriptor :: "byte \<Rightarrow> nat" where
  "window_of_descriptor descriptor =
     (let exponent = unat (drop_bit 3 descriptor);
          mantissa = unat (descriptor AND 0x07);
          base = 2 ^ (10 + exponent)
      in base + (base div 8) * mantissa)"

definition dictionary_id_size :: "byte \<Rightarrow> nat" where
  "dictionary_id_size descriptor =
     (let id = descriptor AND 0x03
      in if id = 0 then 0 else if id = 1 then 1 else if id = 2 then 2 else 4)"

definition content_size_size :: "byte \<Rightarrow> nat" where
  "content_size_size descriptor =
     (let flag = drop_bit 6 descriptor; single_segment = descriptor AND 0x20 \<noteq> 0
      in if flag = 0 \<and> single_segment then 1
         else if flag = 0 then 0 else if flag = 1 then 2 else if flag = 2 then 4 else 8)"

definition parse_frame_header :: "byte list \<Rightarrow> string + frame_header" where
  "parse_frame_header source =
     (if bytes_at source 0 4 \<noteq> Some zstd_magic
      then Inl ''invalid or truncated zstd frame magic''
      else
        rbind (ok_or (byte_at source 4) ''truncated zstd frame descriptor'') (\<lambda>descriptor.
        if descriptor AND 0x18 \<noteq> 0
        then Inl ''zstd frame descriptor has a reserved bit set''
        else
          let single_segment = descriptor AND 0x20 \<noteq> 0;
              size_bytes = content_size_size descriptor
          in rbind (if single_segment then Inr (0, 5)
                    else rbind (ok_or (byte_at source 5) ''truncated zstd window descriptor'')
                           (\<lambda>w. Inr (window_of_descriptor w, 6))) (\<lambda>(window, cursor).
             rbind (ok_or (checked_add cursor (dictionary_id_size descriptor))
                      ''invalid zstd frame header length'') (\<lambda>cursor.
             rbind (ok_or (bytes_at source cursor size_bytes)
                      ''truncated zstd frame content size'') (\<lambda>stored.
             let size = (if size_bytes = 0 then None
                         else Some (le_value stored + (if size_bytes = 2 then 256 else 0)))
             in Inr \<lparr>content_size = size,
                     window_size = (if single_segment then the size else window)\<rparr>)))))"

text \<open>\<open>zstd_safe::get_frame_content_size\<close>: any header error is one unit error.\<close>

definition get_frame_content_size :: "byte list \<Rightarrow> unit + nat option" where
  "get_frame_content_size source =
     (case parse_frame_header source of Inl _ \<Rightarrow> Inl () | Inr header \<Rightarrow> Inr (content_size header))"

section \<open>Writing frames\<close>

definition encoded_content_size :: "nat \<Rightarrow> byte \<times> nat \<times> nat" where
  "encoded_content_size n =
     (if n \<le> 255 then (0, 1, n)
      else if n \<le> 65791 then (1, 2, n - 256)
      else if n \<le> u32_max then (2, 4, n)
      else (3, 8, n))"

function chunks :: "nat \<Rightarrow> 'a list \<Rightarrow> 'a list list" where
  "chunks n xs = (if n = 0 \<or> xs = [] then [] else take n xs # chunks n (drop n xs))"
  by pat_completeness auto

termination chunks
  by (relation "measure (\<lambda>(n, xs). length xs)") auto

declare chunks.simps [simp del]

definition block_header :: "nat \<Rightarrow> bool \<Rightarrow> nat" where
  "block_header block_size last_block = push_bit 3 block_size OR of_bool last_block"

fun emit_blocks :: "nat \<Rightarrow> nat \<Rightarrow> byte list list \<Rightarrow> byte list" where
  "emit_blocks block_count index [] = []"
| "emit_blocks block_count index (block # blocks) =
     le_bytes 3 (block_header (length block) (index + 1 = block_count)) @ block @
     emit_blocks block_count (index + 1) blocks"

definition block_count_of :: "byte list \<Rightarrow> nat" where
  "block_count_of source = (if source = [] then 1 else (length source - 1) div max_block_size + 1)"

definition frame_size_of :: "byte list \<Rightarrow> nat option" where
  "frame_size_of source =
     (case encoded_content_size (length source) of (_, size_bytes, _) \<Rightarrow>
       Option.bind (checked_add 4 1) (\<lambda>size.
       Option.bind (checked_add size size_bytes) (\<lambda>size.
       Option.bind (checked_mul (block_count_of source) 3) (\<lambda>headers.
       Option.bind (checked_add size headers) (\<lambda>size.
       checked_add size (length source))))))"

definition encode_raw_frame :: "(nat \<Rightarrow> string option) \<Rightarrow> byte list \<Rightarrow> byte list io_result" where
  "encode_raw_frame reserve source =
     rbind (ok_or (u64_try_from (length source))
       (io_error_new InvalidInput ''input length does not fit in a zstd frame content size'')) (\<lambda>size.
     if size > max_window_size
     then Inl (io_error_new InvalidInput
            (''zstd input exceeds compatibility limit '' @ nat_to_dec max_window_size))
     else case encoded_content_size size of (size_flag, size_bytes, stored_size) \<Rightarrow>
       rbind (ok_or (frame_size_of source)
         (io_error_new OutOfMemory ''zstd frame length overflows addressable memory'')) (\<lambda>frame_size.
       case reserve frame_size of
         Some e \<Rightarrow> Inl (io_error_new OutOfMemory (''could not reserve zstd frame buffer: '' @ e))
       | None \<Rightarrow>
           Inr (zstd_magic @ [push_bit 6 size_flag OR 0x20] @ take size_bytes (le_bytes 8 stored_size) @
             (if source = [] then take 3 (le_bytes 4 1)
              else emit_blocks (block_count_of source) 0 (chunks max_block_size source)))))"

definition int_to_dec :: "int \<Rightarrow> string" where
  "int_to_dec n = (if n < 0 then ''-'' @ nat_to_dec (nat (- n)) else nat_to_dec (nat n))"

definition compressor_new :: "int \<Rightarrow> unit io_result" where
  "compressor_new level =
     (if \<not> (min_compression_level \<le> level \<and> level \<le> max_compression_level)
      then Inl (io_error_new InvalidInput
             (''invalid zstd compression level '' @ int_to_dec level @ ''; expected '' @
              int_to_dec min_compression_level @ ''..='' @ int_to_dec max_compression_level))
      else Inr ())"

definition compress :: "(nat \<Rightarrow> string option) \<Rightarrow> byte list \<Rightarrow> byte list io_result" where
  "compress reserve source = encode_raw_frame reserve source"

section \<open>Decoding one frame under a budget\<close>

text \<open>
  The surface of \<open>ruzstd::decoding::FrameDecoder\<close> the code calls. \<open>fd_init\<close> and
  \<open>fd_decode_blocks\<close> read from the front of the source and return what is left of it;
  \<open>fd_collect\<close> lists the buffers \<open>collect_to_writer\<close> hands to the writer.
\<close>

record 'd frame_decoder =
  fd_new :: 'd
  fd_init :: "'d \<Rightarrow> byte list \<Rightarrow> string + 'd \<times> byte list"
  fd_is_finished :: "'d \<Rightarrow> bool"
  fd_decode_blocks :: "'d \<Rightarrow> byte list \<Rightarrow> string + 'd \<times> byte list"
  fd_collect :: "'d \<Rightarrow> byte list list \<times> 'd"
  fd_checksum_from_data :: "'d \<Rightarrow> nat option"
  fd_calculated_checksum :: "'d \<Rightarrow> nat option"

definition bounded_write :: "nat \<Rightarrow> byte list \<Rightarrow> byte list \<Rightarrow> byte list io_result" where
  "bounded_write capacity output buffer =
     (let required = saturating_add (length output) (length buffer)
      in if required > capacity then Inl (resource_limit ''output'' required capacity)
         else Inr (output @ buffer))"

definition collect_bounded ::
    "'d frame_decoder \<Rightarrow> 'd \<Rightarrow> byte list \<Rightarrow> nat \<Rightarrow> ('d \<times> byte list) io_result" where
  "collect_bounded D d output capacity =
     (case fd_collect D d of (buffers, d') \<Rightarrow>
       rbind (rfold (bounded_write capacity) output buffers) (\<lambda>output'. Inr (d', output')))"

partial_function (option) decode_loop ::
    "'d frame_decoder \<Rightarrow> nat \<Rightarrow> 'd \<Rightarrow> byte list \<Rightarrow> byte list \<Rightarrow> ('d \<times> byte list \<times> byte list) io_result option" where
  "decode_loop D capacity d remaining output =
     (if fd_is_finished D d then Some (Inr (d, remaining, output))
      else case fd_decode_blocks D d remaining of
             Inl m \<Rightarrow> Some (Inl (invalid_data m))
           | Inr p \<Rightarrow>
               (case collect_bounded D (fst p) output capacity of
                  Inl e \<Rightarrow> Some (Inl e)
                | Inr q \<Rightarrow> decode_loop D capacity (fst q) (snd p) (snd q)))"

definition check_decoded ::
    "'d frame_decoder \<Rightarrow> frame_header \<Rightarrow> 'd \<Rightarrow> byte list \<Rightarrow> byte list \<Rightarrow> byte list io_result" where
  "check_decoded D header d remaining output =
     (if remaining \<noteq> []
      then Inl (invalid_data
             ''trailing data or multiple zstd frames are not supported by bulk decompression'')
      else
        rbind (case content_size header of
                 None \<Rightarrow> Inr ()
               | Some expected \<Rightarrow>
                   if length output \<noteq> expected
                   then Inl (invalid_data (''zstd frame declared '' @ nat_to_dec expected @
                          '' output bytes but decoded '' @ nat_to_dec (length output)))
                   else Inr ()) (\<lambda>_.
        case fd_checksum_from_data D d of
          None \<Rightarrow> Inr output
        | Some expected \<Rightarrow>
            rbind (ok_or (fd_calculated_checksum D d)
              (invalid_data ''zstd checksum was present but could not be calculated'')) (\<lambda>actual.
            if actual \<noteq> expected
            then Inl (invalid_data ''zstd content checksum mismatch'')
            else Inr output)))"

definition check_budget :: "frame_header \<Rightarrow> nat \<Rightarrow> unit io_result" where
  "check_budget header capacity =
     (if window_size header > max_window_size
      then Inl (resource_limit ''window'' (window_size header) max_window_size)
      else
        rbind (case content_size header of
                 None \<Rightarrow> Inr ()
               | Some declared \<Rightarrow>
                   if declared > capacity then Inl (resource_limit ''output'' declared capacity) else Inr ())
          (\<lambda>_. if window_size header > capacity
               then Inl (resource_limit ''window'' (window_size header) capacity)
               else Inr ()))"

text \<open>\<open>None\<close> is a call that does not return.\<close>

definition decompress ::
    "'d frame_decoder \<Rightarrow> (nat \<Rightarrow> string option) \<Rightarrow> byte list \<Rightarrow> nat \<Rightarrow> byte list io_result option" where
  "decompress D reserve source capacity =
     (case parse_frame_header source of
        Inl m \<Rightarrow> Some (Inl (invalid_data m))
      | Inr header \<Rightarrow>
     (case check_budget header capacity of
        Inl e \<Rightarrow> Some (Inl e)
      | Inr _ \<Rightarrow>
     (case reserve (case content_size header of Some declared \<Rightarrow> declared | None \<Rightarrow> capacity) of
        Some e \<Rightarrow> Some (Inl (io_error_new OutOfMemory (''could not reserve zstd output buffer: '' @ e)))
      | None \<Rightarrow>
     (case fd_init D (fd_new D) source of
        Inl m \<Rightarrow> Some (Inl (invalid_data m))
      | Inr (d, remaining) \<Rightarrow>
     (case decode_loop D capacity d remaining [] of
        None \<Rightarrow> None
      | Some (Inl e) \<Rightarrow> Some (Inl e)
      | Some (Inr (d, remaining, output)) \<Rightarrow>
          Some (rbind (collect_bounded D d output capacity) (\<lambda>(d, output).
            check_decoded D header d remaining output)))))))"

section \<open>Headers\<close>

lemma block_header_value: "block_header n b = 8 * n + of_bool b"
  by (cases b) (simp_all add: block_header_def push_bit_eq_mult or_one_eq
      del: One_nat_def add: One_nat_def [symmetric])

lemma block_header_fields:
  "block_header n b div 8 = n" "block_header n b div 2 mod 4 = 0" "odd (block_header n b) = b"
proof -
  show "block_header n b div 8 = n" "odd (block_header n b) = b"
    by (cases b; simp add: block_header_value)+
  have "(8 * n + of_bool b) div 2 = 4 * n" by (cases b) auto
  then show "block_header n b div 2 mod 4 = 0" by (simp add: block_header_value)
qed

lemma single_segment_descriptor:
  fixes flag :: byte
  assumes "flag = 0 \<or> flag = 1 \<or> flag = 2 \<or> flag = 3"
  defines "d \<equiv> push_bit 6 flag OR 0x20"
  shows "d AND 0x18 = 0" and "d AND 0x20 \<noteq> 0" and "dictionary_id_size d = 0"
    and "content_size_size d = (if flag = 0 then 1 else if flag = 1 then 2 else if flag = 2 then 4 else 8)"
  using assms(1) by (auto simp: d_def dictionary_id_size_def content_size_size_def)

lemma encoded_content_size_cases:
  assumes "encoded_content_size n = (flag, count, stored)"
  shows "flag = 0 \<or> flag = 1 \<or> flag = 2 \<or> flag = 3"
    and "content_size_size (push_bit 6 flag OR 0x20) = count" and "count \<le> 8"
    and "n \<le> u64_max \<Longrightarrow> stored mod 256 ^ count + (if count = 2 then 256 else 0) = n" and "0 < count"
  using assms by (auto simp: encoded_content_size_def content_size_size_def Let_def u32_max_def u64_max_def
      split: if_splits)

definition frame_prefix :: "nat \<Rightarrow> byte list" where
  "frame_prefix n = (case encoded_content_size n of (flag, count, stored) \<Rightarrow>
     zstd_magic @ [push_bit 6 flag OR 0x20] @ le_bytes count stored)"

lemma parse_frame_prefix:
  assumes "n \<le> u64_max"
  shows "parse_frame_header (frame_prefix n @ body) = Inr \<lparr>content_size = Some n, window_size = n\<rparr>"
proof -
  obtain flag count stored where e: "encoded_content_size n = (flag, count, stored)"
    using prod_cases3 by blast
  note enc = encoded_content_size_cases [OF e]
  note desc = single_segment_descriptor [OF enc(1)]
  let ?src = "zstd_magic @ [push_bit 6 flag OR 0x20] @ le_bytes count stored @ body"
  have src: "frame_prefix n @ body = ?src" by (simp add: frame_prefix_def e)
  have magic: "bytes_at ?src 0 4 = Some zstd_magic" by (simp add: bytes_at_def zstd_magic_def)
  have descriptor: "byte_at ?src 4 = Some (push_bit 6 flag OR 0x20)"
    by (simp add: byte_at_def zstd_magic_def)
  have size: "bytes_at ?src 5 count = Some (le_bytes count stored)"
    by (simp add: bytes_at_def zstd_magic_def)
  show ?thesis
    unfolding src parse_frame_header_def magic descriptor
    using desc(1-3) enc(2,4,5) assms size by (simp add: Let_def le_value_le_bytes u64_max_def)
qed

section \<open>Raw blocks\<close>

text \<open>
  The body of a frame of raw blocks, as the Zstandard format defines it: a three-byte
  header holds the last-block bit, two type bits (zero for a raw block) and the size.
\<close>

definition block_fields :: "byte list \<Rightarrow> bool \<times> nat \<times> nat" where
  "block_fields h = (let v = le_value h in (odd v, v div 2 mod 4, v div 8))"

function raw_blocks :: "byte list \<Rightarrow> byte list option" where
  "raw_blocks source =
     (case bytes_at source 0 3 of
        None \<Rightarrow> None
      | Some h \<Rightarrow>
          (case block_fields h of (last_block, kind, n) \<Rightarrow>
             let rest = drop 3 source in
             if kind \<noteq> 0 \<or> n > max_block_size \<or> n > length rest then None
             else if last_block then (if length rest = n then Some rest else None)
             else map_option ((@) (take n rest)) (raw_blocks (drop n rest))))"
  by pat_completeness auto

termination raw_blocks
  by (relation "measure length") (auto simp: bytes_at_def split: if_splits)

declare raw_blocks.simps [simp del]

lemma raw_blocks_block:
  assumes "length block \<le> max_block_size"
  shows "raw_blocks (le_bytes 3 (block_header (length block) last_block) @ block @ rest) =
    (if last_block then (if rest = [] then Some block else None)
     else map_option ((@) block) (raw_blocks rest))"
proof -
  let ?h = "block_header (length block) last_block"
  have head: "bytes_at (le_bytes 3 ?h @ block @ rest) 0 3 = Some (le_bytes 3 ?h)"
    by (simp add: bytes_at_def)
  have "?h < 256 ^ 3"
    using assms by (cases last_block) (simp_all add: block_header_value max_block_size_def)
  then have "le_value (le_bytes 3 ?h) = ?h" by (simp add: le_value_le_bytes)
  then show ?thesis
    using assms by (subst raw_blocks.simps) (simp add: Let_def head block_fields_def block_header_fields)
qed

lemma raw_blocks_last:
  "length block \<le> max_block_size \<Longrightarrow>
     raw_blocks (le_bytes 3 (block_header (length block) True) @ block) = Some block"
  using raw_blocks_block [of block True "[]"] by simp

lemma raw_blocks_emit:
  "blocks \<noteq> [] \<Longrightarrow> index + length blocks = block_count \<Longrightarrow> \<forall>b \<in> set blocks. length b \<le> max_block_size \<Longrightarrow>
     raw_blocks (emit_blocks block_count index blocks) = Some (concat blocks)"
proof (induction block_count index blocks rule: emit_blocks.induct)
  case (1 block_count index)
  then show ?case by simp
next
  case (2 block_count index block blocks)
  show ?case
  proof (cases "blocks = []")
    case True
    then show ?thesis using 2(3,4) by (simp add: raw_blocks_last)
  next
    case False
    then have "index + 1 \<noteq> block_count" using 2(3) by auto
    moreover have "raw_blocks (emit_blocks block_count (index + 1) blocks) = Some (concat blocks)"
      using 2 False by simp
    ultimately show ?thesis using 2(4) by (simp add: raw_blocks_block)
  qed
qed

lemma chunks_step: "0 < n \<Longrightarrow> xs \<noteq> [] \<Longrightarrow> chunks n xs = take n xs # chunks n (drop n xs)"
  by (subst chunks.simps) simp

lemma chunks_Nil [simp]: "chunks n [] = []"
  by (subst chunks.simps) simp

lemma concat_chunks: "0 < n \<Longrightarrow> concat (chunks n xs) = xs"
proof (induction "length xs" arbitrary: xs rule: less_induct)
  case less
  then show ?case by (cases "xs = []") (simp_all add: chunks_step)
qed

lemma chunks_length: "0 < n \<Longrightarrow> \<forall>b \<in> set (chunks n xs). length b \<le> n"
proof (induction "length xs" arbitrary: xs rule: less_induct)
  case less
  show ?case
  proof (cases "xs = []")
    case True
    then show ?thesis by simp
  next
    case False
    then have "length (drop n xs) < length xs" using less.prems by simp
    then have "\<forall>b \<in> set (chunks n (drop n xs)). length b \<le> n" by (rule less.hyps) (rule less.prems)
    then show ?thesis unfolding chunks_step [OF less.prems False] by simp
  qed
qed

lemma count_chunks: "0 < n \<Longrightarrow> xs \<noteq> [] \<Longrightarrow> length (chunks n xs) = (length xs - 1) div n + 1"
proof (induction "length xs" arbitrary: xs rule: less_induct)
  case less
  show ?case
  proof (cases "length xs \<le> n")
    case True
    then have "(length xs - 1) div n = 0" using less.prems by (simp add: Suc_le_eq [symmetric])
    then show ?thesis using True less.prems by (simp add: chunks_step)
  next
    case False
    then have "length (chunks n (drop n xs)) = (length (drop n xs) - 1) div n + 1"
      using less.prems by (intro less.hyps) auto
    moreover have "(length xs - 1) div n = (length (drop n xs) - 1) div n + 1"
    proof -
      have "length xs - 1 = (length (drop n xs) - 1) + n" using False by simp
      then show ?thesis using less.prems(1) by (metis div_add_self2 less_not_refl)
    qed
    ultimately show ?thesis using less.prems by (simp add: chunks_step)
  qed
qed

definition frame_body :: "byte list \<Rightarrow> byte list" where
  "frame_body source = (if source = [] then take 3 (le_bytes 4 1)
     else emit_blocks (block_count_of source) 0 (chunks max_block_size source))"

lemma max_block_size_pos: "0 < max_block_size"
  by (simp add: max_block_size_def)

lemma raw_blocks_body: "raw_blocks (frame_body source) = Some source"
proof (cases "source = []")
  case True
  have "frame_body source = le_bytes 3 (block_header (length ([] :: byte list)) True) @ []"
    using True by (simp add: frame_body_def block_header_value take_le_bytes)
  with True show ?thesis using raw_blocks_last [of "[]"] by simp
next
  case False
  let ?blocks = "chunks max_block_size source"
  have "?blocks \<noteq> []" using False max_block_size_pos by (simp add: chunks_step)
  moreover have "0 + length ?blocks = block_count_of source"
    using False max_block_size_pos by (simp add: count_chunks block_count_of_def)
  moreover have "\<forall>b \<in> set ?blocks. length b \<le> max_block_size"
    using chunks_length max_block_size_pos by blast
  ultimately have "raw_blocks (emit_blocks (block_count_of source) 0 ?blocks) = Some (concat ?blocks)"
    by (rule raw_blocks_emit)
  with False max_block_size_pos show ?thesis by (simp add: frame_body_def concat_chunks)
qed

lemma block_count_bound: "block_count_of source \<le> length source + 1"
proof -
  have "(length source - 1) div max_block_size \<le> length source - 1" by (rule div_le_dividend)
  also have "\<dots> \<le> length source" by simp
  finally show ?thesis by (simp add: block_count_of_def)
qed

lemma frame_size_fits:
  assumes "length source \<le> max_window_size"
  shows "\<exists>n. frame_size_of source = Some n"
proof -
  obtain flag count stored where e: "encoded_content_size (length source) = (flag, count, stored)"
    using prod_cases3 by blast
  have "block_count_of source \<le> 104857601"
    using assms block_count_bound [of source] by (simp add: max_window_size_def)
  moreover have "count \<le> 8" using e by (rule encoded_content_size_cases)
  ultimately show ?thesis
    using assms by (simp add: frame_size_of_def e max_window_size_def checked_add_def checked_mul_def u64_max_def)
qed

lemma encode_raw_frame_ok:
  "encode_raw_frame reserve source = Inr frame \<longleftrightarrow>
     length source \<le> max_window_size \<and>
     (\<exists>n. frame_size_of source = Some n \<and> reserve n = None) \<and>
     frame = frame_prefix (length source) @ frame_body source"
proof -
  obtain flag count stored where e: "encoded_content_size (length source) = (flag, count, stored)"
    using prod_cases3 by blast
  have max: "max_window_size \<le> u64_max" by (simp add: max_window_size_def u64_max_def)
  show ?thesis
  proof (cases "length source \<le> max_window_size")
    case True
    then obtain n where n: "frame_size_of source = Some n" using frame_size_fits by blast
    show ?thesis
      using True max encoded_content_size_cases(3) [OF e]
      by (cases "reserve n")
        (auto simp: encode_raw_frame_def frame_prefix_def frame_body_def e n take_le_bytes)
  next
    case False
    then show ?thesis by (auto simp: encode_raw_frame_def e)
  qed
qed

section \<open>The output bound\<close>

lemma bounded_writes_bound:
  assumes "capacity < u64_max"
  shows "rfold (bounded_write capacity) acc buffers = Inr acc' \<Longrightarrow> length acc \<le> capacity \<Longrightarrow>
    length acc' \<le> capacity"
proof (induction buffers arbitrary: acc)
  case Nil
  then show ?case by simp
next
  case (Cons b buffers)
  then show ?case
    using assms by (auto simp: bounded_write_def saturating_add_def Let_def split: if_splits)
qed

lemma bounded_writes_fit:
  "length acc + length (concat buffers) \<le> capacity \<Longrightarrow>
     rfold (bounded_write capacity) acc buffers = Inr (acc @ concat buffers)"
  by (induction buffers arbitrary: acc) (auto simp: bounded_write_def saturating_add_def Let_def)

lemma collect_bounded_length:
  "collect_bounded D d acc capacity = Inr (d', acc') \<Longrightarrow> capacity < u64_max \<Longrightarrow>
     length acc \<le> capacity \<Longrightarrow> length acc' \<le> capacity"
  using bounded_writes_bound by (fastforce simp: collect_bounded_def split: prod.splits)

definition loop_outcome_fits :: "nat \<Rightarrow> byte list \<Rightarrow> ('d \<times> byte list \<times> byte list) io_result \<Rightarrow> bool" where
  "loop_outcome_fits c a r \<longleftrightarrow>
     (c < u64_max \<longrightarrow> length a \<le> c \<longrightarrow> (\<forall>q. r = Inr q \<longrightarrow> length (snd (snd q)) \<le> c))"

lemma loop_outcome_fits_step:
  "loop_outcome_fits c b r \<Longrightarrow> (c < u64_max \<Longrightarrow> length a \<le> c \<Longrightarrow> length b \<le> c) \<Longrightarrow> loop_outcome_fits c a r"
  unfolding loop_outcome_fits_def by blast

lemma loop_outcome_fits_Inl: "loop_outcome_fits c a (Inl e)"
  unfolding loop_outcome_fits_def by blast

lemma decode_loop_step_fits:
  assumes "\<And>d a. loop d a = Some r \<Longrightarrow> loop_outcome_fits c a r"
    and "(case collect_bounded D e a c of Inl m \<Rightarrow> Some (Inl m) | Inr q \<Rightarrow> loop (fst q) (snd q)) = Some r"
  shows "loop_outcome_fits c a r"
proof (cases "collect_bounded D e a c")
  case (Inl m)
  have "r = Inl m" using assms(2) unfolding Inl sum.case option.inject by (rule sym)
  then show ?thesis using loop_outcome_fits_Inl by blast
next
  case (Inr q)
  have "loop (fst q) (snd q) = Some r" using assms(2) unfolding Inr sum.case .
  then have next_fits: "loop_outcome_fits c (snd q) r" by (rule assms(1))
  have "collect_bounded D e a c = Inr (fst q, snd q)" unfolding prod.collapse by (rule Inr)
  then have "c < u64_max \<Longrightarrow> length a \<le> c \<Longrightarrow> length (snd q) \<le> c" by (rule collect_bounded_length)
  then show ?thesis by (rule loop_outcome_fits_step [OF next_fits])
qed

lemma decode_loop_fits:
  "decode_loop D c d rest a = Some r \<Longrightarrow> loop_outcome_fits c a r"
proof (rule decode_loop.raw_induct [where P = "\<lambda>_ c _ _ a r. loop_outcome_fits c a r", rotated], assumption, goal_cases)
  case (1 loop E c e rest a r)
  note ih = 1(2) and step = 1(3)
  show ?case
  proof (cases "fd_is_finished E e")
    case True
    have "r = Inr (e, rest, a)" using step unfolding if_P [OF True] by simp
    then show ?thesis by (simp add: loop_outcome_fits_def)
  next
    case False
    note unfinished = step [unfolded if_not_P [OF False]]
    show ?thesis
    proof (cases "fd_decode_blocks E e rest")
      case (Inl m)
      have "r = Inl (invalid_data m)" using unfinished unfolding Inl by simp
      then show ?thesis by (simp add: loop_outcome_fits_def)
    next
      case (Inr p)
      show ?thesis
      proof (rule decode_loop_step_fits)
        show "loop E c d' (snd p) a' = Some r \<Longrightarrow> loop_outcome_fits c a' r" for d' a'
          by (rule ih)
        show "(case collect_bounded E (fst p) a c of Inl m \<Rightarrow> Some (Inl m)
            | Inr q \<Rightarrow> loop E c (fst q) (snd p) (snd q)) = Some r"
          using unfinished unfolding Inr by simp
      qed
    qed
  qed
qed

lemma decode_loop_bound:
  "decode_loop D c d rest a = Some (Inr (d', rest', a')) \<Longrightarrow> c < u64_max \<Longrightarrow> length a \<le> c \<Longrightarrow>
     length a' \<le> c"
  using decode_loop_fits [of D c d rest a "Inr (d', rest', a')"] by (simp add: loop_outcome_fits_def)

lemma decompress_bound:
  assumes "decompress D reserve source capacity = Some (Inr decoded)" and "capacity < u64_max"
  shows "\<exists>header. parse_frame_header source = Inr header \<and>
    window_size header \<le> max_window_size \<and> window_size header \<le> capacity \<and>
    length decoded \<le> capacity \<and>
    (\<forall>n. content_size header = Some n \<longrightarrow> length decoded = n)"
proof -
  obtain header where h: "parse_frame_header source = Inr header"
    using assms(1) by (auto simp: decompress_def split: sum.splits)
  obtain u where u: "check_budget header capacity = Inr u"
    using assms(1) h by (auto simp: decompress_def split: sum.splits)
  from assms(1) h u obtain d0 r0 d1 r1 a1 where
    loop: "decode_loop D capacity d0 r0 [] = Some (Inr (d1, r1, a1))" and
    finish: "rbind (collect_bounded D d1 a1 capacity) (\<lambda>(d, a). check_decoded D header d r1 a) = Inr decoded"
    by (auto simp: decompress_def split: sum.splits option.splits)
  have a1: "length a1 \<le> capacity" using decode_loop_bound [OF loop assms(2)] by simp
  from finish obtain d2 a2 where
    collect: "collect_bounded D d1 a1 capacity = Inr (d2, a2)" and
    check: "check_decoded D header d2 r1 a2 = Inr decoded" by auto
  have "decoded = a2 \<and> (\<forall>n. content_size header = Some n \<longrightarrow> length a2 = n)"
    using check by (auto simp: check_decoded_def split: option.splits if_splits)
  moreover have "length a2 \<le> capacity" using collect_bounded_length [OF collect assms(2) a1] .
  moreover have "window_size header \<le> max_window_size \<and> window_size header \<le> capacity"
    using u by (auto simp: check_budget_def split: option.splits if_splits)
  ultimately show ?thesis using h by blast
qed

section \<open>A decoder of raw frames\<close>

text \<open>
  What the round trip needs of the external decoder, on frames of raw blocks only and only
  up to its ceiling of 100 MiB, beyond which the code never calls it: initialised at such a
  frame it stands before the first block; decoding an unfinished
  frame consumes source bytes and adds the decoded ones to those not yet collected, and
  ends with the last block; collecting hands over a front part of the pending bytes, all of
  them once the frame is finished. Frames without the checksum flag report no checksum.
\<close>

definition starts_raw_frames :: "'d frame_decoder \<Rightarrow> ('d \<Rightarrow> bool) \<Rightarrow> ('d \<Rightarrow> byte list) \<Rightarrow> bool" where
  "starts_raw_frames D plain pending \<longleftrightarrow> (\<forall>n body. n \<le> max_window_size \<longrightarrow>
     (\<exists>d. fd_init D (fd_new D) (frame_prefix n @ body) = Inr (d, body) \<and>
          plain d \<and> \<not> fd_is_finished D d \<and> pending d = []))"

definition decodes_raw_blocks :: "'d frame_decoder \<Rightarrow> ('d \<Rightarrow> bool) \<Rightarrow> ('d \<Rightarrow> byte list) \<Rightarrow> bool" where
  "decodes_raw_blocks D plain pending \<longleftrightarrow> (\<forall>d source decoded.
     plain d \<and> \<not> fd_is_finished D d \<and> raw_blocks source = Some decoded \<longrightarrow>
     (\<exists>d' source' new decoded'. fd_decode_blocks D d source = Inr (d', source') \<and> plain d' \<and>
        length source' < length source \<and> pending d' = pending d @ new \<and> decoded = new @ decoded' \<and>
        (if fd_is_finished D d' then source' = [] \<and> decoded' = []
         else raw_blocks source' = Some decoded')))"

definition collects_pending :: "'d frame_decoder \<Rightarrow> ('d \<Rightarrow> bool) \<Rightarrow> ('d \<Rightarrow> byte list) \<Rightarrow> bool" where
  "collects_pending D plain pending \<longleftrightarrow> (\<forall>d bufs d'. plain d \<and> fd_collect D d = (bufs, d') \<longrightarrow>
     pending d = concat bufs @ pending d' \<and> plain d' \<and> fd_is_finished D d' = fd_is_finished D d \<and>
     (fd_is_finished D d \<longrightarrow> pending d' = []))"

definition reads_raw_frames ::
    "'d frame_decoder \<Rightarrow> ('d \<Rightarrow> bool) \<Rightarrow> ('d \<Rightarrow> byte list) \<Rightarrow> bool" where
  "reads_raw_frames D plain pending \<longleftrightarrow>
     starts_raw_frames D plain pending \<and> decodes_raw_blocks D plain pending \<and>
     collects_pending D plain pending \<and> (\<forall>d. plain d \<longrightarrow> fd_checksum_from_data D d = None)"

lemma collect_bounded_plain:
  assumes "collects_pending D plain pending" and "plain d"
    and "length acc + length (pending d) \<le> capacity"
  shows "\<exists>d' new. collect_bounded D d acc capacity = Inr (d', acc @ new) \<and> plain d' \<and>
    pending d = new @ pending d' \<and> fd_is_finished D d' = fd_is_finished D d \<and>
    (fd_is_finished D d \<longrightarrow> pending d' = [])"
proof -
  obtain bufs d' where c: "fd_collect D d = (bufs, d')" by (cases "fd_collect D d")
  have laws: "pending d = concat bufs @ pending d'" "plain d'"
    "fd_is_finished D d' = fd_is_finished D d" "fd_is_finished D d \<longrightarrow> pending d' = []"
    using assms(1,2) c unfolding collects_pending_def by blast+
  have "length acc + length (concat bufs) \<le> capacity"
    using assms(3) unfolding laws(1) length_append by linarith
  then have "collect_bounded D d acc capacity = Inr (d', acc @ concat bufs)"
    by (simp add: collect_bounded_def c bounded_writes_fit del: length_concat)
  then show ?thesis using laws by blast
qed

text \<open>The loop returns, with everything decoded either collected or still pending.\<close>

lemma decode_loop_plain:
  assumes blocks: "decodes_raw_blocks D plain pending" and collects: "collects_pending D plain pending"
    and "plain d"
    and "if fd_is_finished D d then source = [] \<and> decoded = [] else raw_blocks source = Some decoded"
    and "length acc + length (pending d) + length decoded \<le> capacity"
  shows "\<exists>d' acc'. decode_loop D capacity d source acc = Some (Inr (d', [], acc')) \<and>
    plain d' \<and> fd_is_finished D d' \<and> acc' @ pending d' = acc @ pending d @ decoded"
  using assms(3-)
proof (induction "length source" arbitrary: d source acc decoded rule: less_induct)
  case less
  show ?case
  proof (cases "fd_is_finished D d")
    case True
    then show ?thesis using less.prems by (subst decode_loop.simps) auto
  next
    case False
    then have raw: "raw_blocks source = Some decoded" using less.prems(2) by simp
    obtain d1 source1 new decoded1 where step: "fd_decode_blocks D d source = Inr (d1, source1)" "plain d1"
      "length source1 < length source" "pending d1 = pending d @ new" "decoded = new @ decoded1"
      "if fd_is_finished D d1 then source1 = [] \<and> decoded1 = [] else raw_blocks source1 = Some decoded1"
      using blocks [unfolded decodes_raw_blocks_def, rule_format, OF conjI [OF less.prems(1) conjI [OF False raw]]]
      by blast
    have room: "length acc + length (pending d1) \<le> capacity" using less.prems(3) step(4,5) by simp
    obtain d2 got where collect: "collect_bounded D d1 acc capacity = Inr (d2, acc @ got)" "plain d2"
      "pending d1 = got @ pending d2" "fd_is_finished D d2 = fd_is_finished D d1"
      using collect_bounded_plain [OF collects step(2) room] by blast
    have split: "pending d @ new = got @ pending d2" using step(4) collect(3) by simp
    have fits: "length (acc @ got) + length (pending d2) + length decoded1 \<le> capacity"
      using less.prems(3) step(5) arg_cong [OF split, of length] by simp
    have rest: "if fd_is_finished D d2 then source1 = [] \<and> decoded1 = [] else raw_blocks source1 = Some decoded1"
      using step(6) unfolding collect(4) .
    obtain d' acc' where
      run: "decode_loop D capacity d2 source1 (acc @ got) = Some (Inr (d', [], acc'))" "plain d'"
        "fd_is_finished D d'" "acc' @ pending d' = (acc @ got) @ pending d2 @ decoded1"
      using less.hyps [OF step(3) collect(2) rest fits] by blast
    have "decode_loop D capacity d source acc = decode_loop D capacity d2 source1 (acc @ got)"
      using False by (subst decode_loop.simps) (simp add: step(1) collect(1))
    moreover have "(acc @ got) @ pending d2 @ decoded1 = acc @ pending d @ decoded"
      using arg_cong [OF split, of "\<lambda>x. acc @ x @ decoded1"] step(5) by simp
    ultimately show ?thesis using run by metis
  qed
qed

text \<open>A decoder that reads exactly the frames this module writes meets the contract.\<close>

definition raw_decode_block :: "bool \<times> byte list \<Rightarrow> byte list \<Rightarrow> string + (bool \<times> byte list) \<times> byte list" where
  "raw_decode_block d source =
     (case bytes_at source 0 3 of
        None \<Rightarrow> Inl ''truncated block header''
      | Some h \<Rightarrow>
          (case block_fields h of (last_block, kind, n) \<Rightarrow>
             let rest = drop 3 source in
             if kind \<noteq> 0 \<or> n > max_block_size \<or> n > length rest then Inl ''unsupported block''
             else if last_block \<and> length rest \<noteq> n then Inl ''trailing bytes''
             else Inr ((last_block, snd d @ take n rest), drop n rest)))"

definition raw_decoder :: "(bool \<times> byte list) frame_decoder" where
  "raw_decoder = \<lparr>fd_new = (False, []),
     fd_init = (\<lambda>d source. case byte_at source 4 of
        None \<Rightarrow> Inl ''truncated header''
      | Some descriptor \<Rightarrow> Inr ((False, []), drop (5 + content_size_size descriptor) source)),
     fd_is_finished = fst,
     fd_decode_blocks = raw_decode_block,
     fd_collect = (\<lambda>d. ([snd d], (fst d, []))),
     fd_checksum_from_data = (\<lambda>_. None),
     fd_calculated_checksum = (\<lambda>_. None)\<rparr>"

lemma frame_prefix_parts:
  "\<exists>descriptor size_bytes. frame_prefix n = zstd_magic @ [descriptor] @ size_bytes \<and>
     length size_bytes = content_size_size descriptor"
proof -
  obtain flag count stored where e: "encoded_content_size n = (flag, count, stored)"
    using prod_cases3 by blast
  have "frame_prefix n = zstd_magic @ [push_bit 6 flag OR 0x20] @ le_bytes count stored"
    by (simp add: frame_prefix_def e)
  moreover have "length (le_bytes count stored) = content_size_size (push_bit 6 flag OR 0x20)"
    unfolding encoded_content_size_cases(2) [OF e] by simp
  ultimately show ?thesis by blast
qed

lemma frame_prefix_skip:
  "byte_at (frame_prefix n @ body) 4 = Some ((frame_prefix n @ body) ! 4) \<and>
   drop (5 + content_size_size ((frame_prefix n @ body) ! 4)) (frame_prefix n @ body) = body"
  using frame_prefix_parts [of n] by (auto simp: byte_at_def zstd_magic_def)

lemma raw_decode_block_steps:
  assumes "raw_blocks source = Some decoded"
  shows "\<exists>last new source' decoded'. raw_decode_block d source = Inr ((last, snd d @ new), source') \<and>
    length source' < length source \<and> decoded = new @ decoded' \<and>
    (if last then source' = [] \<and> decoded' = [] else raw_blocks source' = Some decoded')"
proof -
  obtain h where h: "bytes_at source 0 3 = Some h"
    using assms by (subst (asm) raw_blocks.simps) (auto split: option.splits)
  obtain last_block kind n where f: "block_fields h = (last_block, kind, n)"
    using prod_cases3 by blast
  let ?rest = "drop 3 source"
  note run = assms [unfolded raw_blocks.simps [of source] h option.case f prod.case Let_def]
  have ok: "\<not> (kind \<noteq> 0 \<or> n > max_block_size \<or> n > length ?rest)"
    using run by (rule contrapos_pn) simp
  have short: "length (drop n ?rest) < length source"
    using h by (auto simp: bytes_at_def split: if_splits)
  note run = run [unfolded if_not_P [OF ok]]
  note step = raw_decode_block_def [of d source, unfolded h option.case f prod.case Let_def if_not_P [OF ok]]
  show ?thesis
  proof (cases last_block)
    case True
    then have "length ?rest = n" "decoded = ?rest" using run by (auto split: if_splits)
    then show ?thesis
      using step True short
      by (intro exI [of _ True] exI [of _ ?rest] exI [of _ "[]"] exI [of _ "[]"]) simp
  next
    case False
    then obtain decoded' where "raw_blocks (drop n ?rest) = Some decoded'" "decoded = take n ?rest @ decoded'"
      using run by auto
    then show ?thesis
      using step False short
      by (intro exI [of _ False] exI [of _ "take n ?rest"] exI [of _ "drop n ?rest"] exI [of _ decoded']) simp
  qed
qed

lemma raw_decoder_reads: "reads_raw_frames raw_decoder (\<lambda>_. True) snd"
proof -
  have "starts_raw_frames raw_decoder (\<lambda>_. True) snd"
    using frame_prefix_skip by (simp add: starts_raw_frames_def raw_decoder_def max_window_size_def u64_max_def)
  moreover have "decodes_raw_blocks raw_decoder (\<lambda>_. True) snd"
    unfolding decodes_raw_blocks_def
  proof (intro allI impI)
    fix d source decoded
    assume "True \<and> \<not> fd_is_finished raw_decoder d \<and> raw_blocks source = Some decoded"
    then obtain last new source' decoded' where
      "raw_decode_block d source = Inr ((last, snd d @ new), source')" "length source' < length source"
      "decoded = new @ decoded'"
      "if last then source' = [] \<and> decoded' = [] else raw_blocks source' = Some decoded'"
      using raw_decode_block_steps by metis
    then show "\<exists>d' source' new decoded'. fd_decode_blocks raw_decoder d source = Inr (d', source') \<and> True \<and>
        length source' < length source \<and> snd d' = snd d @ new \<and> decoded = new @ decoded' \<and>
        (if fd_is_finished raw_decoder d' then source' = [] \<and> decoded' = []
         else raw_blocks source' = Some decoded')"
      by (intro exI [of _ "(last, snd d @ new)"] exI [of _ source'] exI [of _ new] exI [of _ decoded'])
        (simp add: raw_decoder_def)
  qed
  moreover have "collects_pending raw_decoder (\<lambda>_. True) snd"
    by (auto simp: collects_pending_def raw_decoder_def)
  ultimately show ?thesis by (simp add: reads_raw_frames_def) (simp add: raw_decoder_def)
qed

lemma decompress_of_compress:
  assumes "reads_raw_frames D plain pending"
    and "compress reserve source = Inr frame"
    and "length source \<le> capacity" and "reserve (length source) = None"
  shows "decompress D reserve frame capacity = Some (Inr source)"
proof -
  note D = assms(1) [unfolded reads_raw_frames_def]
  have enc: "encode_raw_frame reserve source = Inr frame" using assms(2) by (simp add: compress_def)
  then have frame: "frame = frame_prefix (length source) @ frame_body source"
    "length source \<le> max_window_size" "length source \<le> u64_max"
    by (auto simp: encode_raw_frame_ok max_window_size_def u64_max_def)
  have header: "parse_frame_header frame =
      Inr \<lparr>content_size = Some (length source), window_size = length source\<rparr>"
    unfolding frame(1) by (rule parse_frame_prefix [OF frame(3)])
  obtain d where d: "fd_init D (fd_new D) frame = Inr (d, frame_body source)" "plain d"
      "\<not> fd_is_finished D d" "pending d = []"
    using D frame(2) unfolding starts_raw_frames_def frame(1) by blast
  have blocks: "if fd_is_finished D d then frame_body source = [] \<and> source = []
      else raw_blocks (frame_body source) = Some source"
    using d(3) raw_blocks_body by simp
  obtain d' acc where run: "decode_loop D capacity d (frame_body source) [] = Some (Inr (d', [], acc))"
      "plain d'" "fd_is_finished D d'" "acc @ pending d' = source"
    using decode_loop_plain [of D plain pending d "frame_body source" source "[]" capacity]
      D d(2,4) blocks assms(3) by auto
  have "length acc + length (pending d') \<le> capacity"
    using assms(3) run(4) by (metis length_append)
  then obtain d2 new where "collect_bounded D d' acc capacity = Inr (d2, acc @ new)" "plain d2"
      "pending d' = new @ pending d2" "pending d2 = []"
    using collect_bounded_plain [of D plain pending d' acc capacity] D run(2,3) by blast
  then show ?thesis
    using header d(1) run(1,4) assms(3,4) frame(2) D
    by (simp add: decompress_def check_budget_def check_decoded_def)
qed

section \<open>Properties\<close>

text \<open>
  C19: A written frame is what it claims to be. Its header reads back as a single segment
  whose content size and window are the length of the source, and the bytes after the
  header are, by the Zstandard block format, raw blocks that decode to the source.
\<close>

theorem encoded_frame_roundtrip:
  assumes "encode_raw_frame reserve source = Inr frame"
  shows "parse_frame_header frame = Inr \<lparr>content_size = Some (length source), window_size = length source\<rparr> \<and>
    get_frame_content_size frame = Inr (Some (length source)) \<and>
    raw_blocks (drop (5 + content_size_size (frame ! 4)) frame) = Some source"
proof -
  have frame: "frame = frame_prefix (length source) @ frame_body source" "length source \<le> u64_max"
    using assms by (auto simp: encode_raw_frame_ok max_window_size_def u64_max_def)
  have header: "parse_frame_header frame =
      Inr \<lparr>content_size = Some (length source), window_size = length source\<rparr>"
    unfolding frame(1) by (rule parse_frame_prefix [OF frame(2)])
  moreover have "raw_blocks (drop (5 + content_size_size (frame ! 4)) frame) = Some source"
    unfolding frame(1) using frame_prefix_skip raw_blocks_body by simp
  ultimately show ?thesis by (simp add: get_frame_content_size_def)
qed

text \<open>
  C20: Bulk compression and decompression are inverse for every decoder that reads frames of
  raw blocks within the window ceiling of 100 MiB: given memory for both, a source within
  that ceiling and the caller's capacity comes back, and the decoding loop terminates. The
  decoder may refuse any frame that declares more than the ceiling.
\<close>

theorem bulk_roundtrip:
  assumes "reads_raw_frames D plain pending"
    and "compress reserve source = Inr frame"
    and "length source \<le> capacity" and "reserve (length source) = None"
  shows "decompress D reserve frame capacity = Some (Inr source)"
  using assms by (rule decompress_of_compress)

text \<open>
  C21: Whatever the external decoder does, decompression that returns bytes returns at most
  the caller's capacity, from a frame whose window is within both that capacity and the
  fixed ceiling, and exactly as many bytes as the header declared when it declares them.
\<close>

theorem decompress_within_capacity:
  assumes "decompress D reserve source capacity = Some (Inr decoded)" and "capacity < u64_max"
  shows "\<exists>header. parse_frame_header source = Inr header \<and>
    window_size header \<le> min max_window_size capacity \<and> length decoded \<le> capacity \<and>
    content_size header \<in> {None, Some (length decoded)}"
proof -
  obtain header where h: "parse_frame_header source = Inr header" "window_size header \<le> max_window_size"
      "window_size header \<le> capacity" "length decoded \<le> capacity"
      "\<And>n. content_size header = Some n \<Longrightarrow> length decoded = n"
    using decompress_bound [OF assms] by blast
  then show ?thesis by (cases "content_size header") auto
qed

text \<open>
  The budget diagnostics survive their trip as text: behind any prefix without the
  marker, the message of an output or window refusal is recognised again as a structured
  resource limit carrying the same numbers.
\<close>

theorem limit_diagnostic_roundtrip:
  assumes "resource = ''output'' \<or> resource = ''window''"
    and "required \<le> u64_max" and "available \<le> u64_max"
    and "split_once zstd_limit_marker prefix = None"
  shows "zstd_decompression_limit_error (prefix @ io_message (resource_limit resource required available)) =
    Some (zstd_limit_error required available)"
proof -
  let ?rest = "resource @ CHR '' '' # ''required'' @ CHR '' '' # nat_to_dec required @
    CHR '' '' # ''available'' @ CHR '' '' # nat_to_dec available"
  have message: "io_message (resource_limit resource required available) = zstd_limit_marker @ ?rest"
    by (simp add: resource_limit_def io_error_new_def zstd_limit_marker_def)
  have marker: "split_once zstd_limit_marker (prefix @ zstd_limit_marker @ ?rest) = Some (prefix, ?rest)"
  proof (rule split_once_prefix [of _ "CHR ''z''" "tl zstd_limit_marker"])
    show "zstd_limit_marker = CHR ''z'' # tl zstd_limit_marker" by (simp add: zstd_limit_marker_def)
    show "CHR ''z'' \<notin> set (tl zstd_limit_marker)" by (simp add: zstd_limit_marker_def)
    show "split_once zstd_limit_marker prefix = None" by (rule assms(4))
  qed
  have "ascii_word resource" "ascii_word ''required''" "ascii_word ''available''"
    using assms(1) by (auto simp: ascii_word_def is_ascii_whitespace_def)
  then have words: "split_ascii_whitespace ?rest =
      [resource, ''required'', nat_to_dec required, ''available'', nat_to_dec available]"
    by (simp only: split_ascii_whitespace_def split_words_Cons_word split_words_last_word
        ascii_word_nat_to_dec)
  have kind: "\<not> ((resource \<noteq> ''output'' \<and> resource \<noteq> ''window'') \<or> ''required'' \<noteq> ''required'')"
    using assms(1) by (elim disjE) simp_all
  show ?thesis
    unfolding message zstd_decompression_limit_error_def marker option.case prod.case words list.case
      if_not_P [OF kind] parse_u64_nat_to_dec [OF assms(2)] parse_u64_nat_to_dec [OF assms(3)]
    by simp
qed

text \<open>Concrete frames for the hypotheses above.\<close>

definition sample_bytes :: "byte list" where
  "sample_bytes = [1, 2, 3]"

definition sample_frame :: "byte list" where
  "sample_frame = [0x28, 0xb5, 0x2f, 0xfd, 0x20, 3, 25, 0, 0, 1, 2, 3]"

lemma sample_frame_encoded: "encode_raw_frame (\<lambda>_. None) sample_bytes = Inr sample_frame"
proof -
  have "chunks max_block_size sample_bytes = [sample_bytes]"
    using chunks_step [OF max_block_size_pos, of sample_bytes]
    by (simp add: sample_bytes_def max_block_size_def)
  moreover have "block_count_of sample_bytes = 1"
    by (simp add: block_count_of_def sample_bytes_def max_block_size_def)
  moreover have "le_bytes 3 (block_header (length sample_bytes) True) = [25, 0, 0]"
    by (simp add: sample_bytes_def block_header_value numeral_3_eq_3)
  ultimately have "frame_body sample_bytes = [25, 0, 0, 1, 2, 3]"
    by (simp add: frame_body_def) (simp add: sample_bytes_def)
  moreover have "frame_prefix (length sample_bytes) = [0x28, 0xb5, 0x2f, 0xfd, 0x20, 3]"
    by (simp add: frame_prefix_def encoded_content_size_def sample_bytes_def zstd_magic_def)
  moreover have fits: "length sample_bytes \<le> max_window_size"
    by (simp add: sample_bytes_def max_window_size_def)
  ultimately show ?thesis
    using frame_size_fits [OF fits] by (simp add: encode_raw_frame_ok sample_frame_def)
qed

theorem encoded_frame_roundtrip_witness:
  "get_frame_content_size sample_frame = Inr (Some 3)"
  using encoded_frame_roundtrip [OF sample_frame_encoded] by (simp add: sample_bytes_def)

theorem bulk_roundtrip_witness:
  "decompress raw_decoder (\<lambda>_. None) sample_frame 8 = Some (Inr sample_bytes)"
  by (rule bulk_roundtrip [OF raw_decoder_reads])
    (simp_all add: compress_def sample_frame_encoded, simp add: sample_bytes_def)

theorem decompress_within_capacity_witness:
  "decompress raw_decoder (\<lambda>_. None) sample_frame 8 = Some (Inr sample_bytes) \<and>
   (\<exists>header. parse_frame_header sample_frame = Inr header \<and> window_size header \<le> 8)"
proof -
  have run: "decompress raw_decoder (\<lambda>_. None) sample_frame 8 = Some (Inr sample_bytes)"
  proof (rule decompress_of_compress [OF raw_decoder_reads])
    show "compress (\<lambda>_. None) sample_bytes = Inr sample_frame"
      by (simp add: compress_def sample_frame_encoded)
  qed (simp_all add: sample_bytes_def)
  from decompress_within_capacity [OF this] show ?thesis using run by (auto simp: u64_max_def)
qed

theorem limit_diagnostic_roundtrip_witness:
  "zstd_decompression_limit_error
     (''Parquet error: '' @ io_message (resource_limit ''window'' 104857601 104857600)) =
   Some (zstd_limit_error 104857601 104857600)"
  by (rule limit_diagnostic_roundtrip) (simp_all add: u64_max_def zstd_limit_marker_def)

end
