(* ===== verification/Quote_Tracker.thy ===== *)
theory Quote_Tracker
  imports Prelude
begin

text \<open>
  \<open>QuoteTracker\<close> of src/src/csv.rs: a four-state automaton that runs beside the CSV reader
  over the same bytes and reports malformed quoting with its source offset.

  Properties: feeding a source in chunks gives the issues of feeding it at once; records
  written by the CSV rules give none; a quoted field left open is reported at its opening
  quote.
\<close>

section \<open>The automaton\<close>

datatype quote_state = StartField | Unquoted | Quoted nat | AfterQuote

record quote_issue =
  issue_offset :: nat
  issue_message :: string

record quote_tracker =
  qt_delimiter :: byte
  qt_state :: quote_state
  qt_quoted_opening :: "nat option"

definition quote_byte :: byte where
  "quote_byte = 0x22"

definition is_line_break :: "byte \<Rightarrow> bool" where
  "is_line_break b \<longleftrightarrow> b = 0x0D \<or> b = 0x0A"

definition quote_tracker_new :: "byte \<Rightarrow> quote_tracker" where
  "quote_tracker_new d = \<lparr>qt_delimiter = d, qt_state = StartField, qt_quoted_opening = None\<rparr>"

definition unquoted_issue :: "nat \<Rightarrow> quote_issue" where
  "unquoted_issue offset =
     \<lparr>issue_offset = offset, issue_message = ''quote appears inside an unquoted field''\<rparr>"

definition closing_issue :: "nat \<Rightarrow> quote_issue" where
  "closing_issue offset =
     \<lparr>issue_offset = offset, issue_message = ''unexpected data follows a closing quote''\<rparr>"

definition quote_step :: "nat \<Rightarrow> byte \<Rightarrow> quote_tracker \<Rightarrow> quote_issue list \<times> quote_tracker" where
  "quote_step offset b t =
     (case qt_state t of
        StartField \<Rightarrow>
          if b = quote_byte
          then ([], t\<lparr>qt_state := Quoted offset, qt_quoted_opening := Some offset\<rparr>)
          else if b = qt_delimiter t \<or> is_line_break b then ([], t)
          else ([], t\<lparr>qt_state := Unquoted\<rparr>)
      | Unquoted \<Rightarrow>
          if b = quote_byte then ([unquoted_issue offset], t)
          else if b = qt_delimiter t \<or> is_line_break b then ([], t\<lparr>qt_state := StartField\<rparr>)
          else ([], t)
      | Quoted _ \<Rightarrow>
          if b = quote_byte then ([], t\<lparr>qt_state := AfterQuote\<rparr>) else ([], t)
      | AfterQuote \<Rightarrow>
          if b = quote_byte
          then ([], t\<lparr>qt_state := Quoted (case qt_quoted_opening t of Some o1 \<Rightarrow> o1 | None \<Rightarrow> offset)\<rparr>)
          else if b = qt_delimiter t \<or> is_line_break b
          then ([], t\<lparr>qt_state := StartField, qt_quoted_opening := None\<rparr>)
          else ([closing_issue offset], t\<lparr>qt_state := Unquoted, qt_quoted_opening := None\<rparr>))"

fun quote_consume :: "nat \<Rightarrow> byte list \<Rightarrow> quote_tracker \<Rightarrow> quote_issue list \<times> quote_tracker" where
  "quote_consume base [] t = ([], t)"
| "quote_consume base (b # bytes) t =
     (case quote_step base b t of (issues, t') \<Rightarrow>
       (case quote_consume (base + 1) bytes t' of (rest, t'') \<Rightarrow> (issues @ rest, t'')))"

definition unclosed_quote_offset :: "quote_tracker \<Rightarrow> nat option" where
  "unclosed_quote_offset t = (case qt_state t of Quoted opening \<Rightarrow> Some opening | _ \<Rightarrow> None)"

section \<open>Consumers of a source that arrives in chunks\<close>

text \<open>
  The interface between a source transport and a consumer: each chunk comes with its
  absolute offset. A consumer for which consecutive chunks can be joined does not see how
  the source was cut.
\<close>

locale chunked_consumer =
  fixes consume :: "nat \<Rightarrow> 'i list \<Rightarrow> 's \<Rightarrow> 'o list \<times> 's"
  assumes consume_Nil: "consume base [] s = ([], s)"
    and consume_append: "consume base (xs @ ys) s =
      (case consume base xs s of (o1, s1) \<Rightarrow>
        (case consume (base + length xs) ys s1 of (o2, s2) \<Rightarrow> (o1 @ o2, s2)))"
begin

fun consume_chunks :: "nat \<Rightarrow> 'i list list \<Rightarrow> 's \<Rightarrow> 'o list \<times> 's" where
  "consume_chunks base [] s = ([], s)"
| "consume_chunks base (c # cs) s =
     (case consume base c s of (o1, s1) \<Rightarrow>
       (case consume_chunks (base + length c) cs s1 of (o2, s2) \<Rightarrow> (o1 @ o2, s2)))"

lemma consume_chunks_eq: "consume_chunks base chunks s = consume base (concat chunks) s"
  by (induction chunks arbitrary: base s)
    (simp_all add: consume_Nil consume_append split: prod.splits)

end

lemma quote_consume_append:
  "quote_consume base (xs @ ys) t =
    (case quote_consume base xs t of (o1, t1) \<Rightarrow>
      (case quote_consume (base + length xs) ys t1 of (o2, t2) \<Rightarrow> (o1 @ o2, t2)))"
  by (induction base xs t rule: quote_consume.induct) (simp_all split: prod.splits)

interpretation quotes: chunked_consumer quote_consume
  by unfold_locales (simp_all add: quote_consume_append)

text \<open>The tracker fed chunk by chunk, as the scanner feeds it.\<close>

fun quote_feed :: "nat \<Rightarrow> byte list list \<Rightarrow> quote_tracker \<Rightarrow> quote_issue list \<times> quote_tracker" where
  "quote_feed base [] t = ([], t)"
| "quote_feed base (chunk # chunks) t =
     (case quote_consume base chunk t of (issues, t') \<Rightarrow>
       (case quote_feed (base + length chunk) chunks t' of (rest, t'') \<Rightarrow> (issues @ rest, t'')))"

lemma quote_feed_chunks: "quote_feed base chunks t = quotes.consume_chunks base chunks t"
  by (induction base chunks t rule: quote_feed.induct) (simp_all split: prod.splits)

section \<open>Offsets\<close>

lemma quote_step_offset: "issue \<in> set (fst (quote_step offset b t)) \<Longrightarrow> issue_offset issue = offset"
  by (auto simp: quote_step_def unquoted_issue_def closing_issue_def split: quote_state.splits if_splits)

lemma quote_step_single: "length (fst (quote_step offset b t)) \<le> 1"
  by (auto simp: quote_step_def split: quote_state.splits)

lemma quote_consume_offsets:
  "sorted_wrt (<) (map issue_offset (fst (quote_consume base bytes t))) \<and>
   (\<forall>issue \<in> set (fst (quote_consume base bytes t)).
      base \<le> issue_offset issue \<and> issue_offset issue < base + length bytes)"
proof (induction base bytes t rule: quote_consume.induct)
  case (1 base t)
  then show ?case by simp
next
  case (2 base b bytes t)
  obtain issues t' where s: "quote_step base b t = (issues, t')" by (cases "quote_step base b t")
  have single: "issues = [] \<or> (\<exists>i. issues = [i] \<and> issue_offset i = base)"
    using quote_step_single [of base b t] quote_step_offset [of _ base b t] s
    by (cases issues rule: list.exhaust [case_product list.exhaust]) (auto simp: le_Suc_eq length_Suc_conv)
  have rest: "sorted_wrt (<) (map issue_offset (fst (quote_consume (base + 1) bytes t')))"
      "\<forall>i \<in> set (fst (quote_consume (base + 1) bytes t')).
         base + 1 \<le> issue_offset i \<and> issue_offset i < base + 1 + length bytes"
    using 2 [OF s [symmetric]] by blast+
  show ?case using rest s single by (auto split: prod.splits) fastforce+
qed

section \<open>Well-formed records\<close>

text \<open>
  What a CSV writer produces: a field is written raw when it has no delimiter, quote or
  line break in it, and between quotes with every quote doubled otherwise.
\<close>

datatype cell = RawCell "byte list" | QuotedCell "byte list"

fun cell_ok :: "byte \<Rightarrow> cell \<Rightarrow> bool" where
  "cell_ok d (RawCell bytes) = (\<forall>b \<in> set bytes. b \<noteq> quote_byte \<and> b \<noteq> d \<and> \<not> is_line_break b)"
| "cell_ok d (QuotedCell bytes) = True"

definition double_quotes :: "byte list \<Rightarrow> byte list" where
  "double_quotes bytes = concat (map (\<lambda>b. if b = quote_byte then [b, b] else [b]) bytes)"

fun render_cell :: "cell \<Rightarrow> byte list" where
  "render_cell (RawCell bytes) = bytes"
| "render_cell (QuotedCell bytes) = quote_byte # double_quotes bytes @ [quote_byte]"

fun render_record :: "byte \<Rightarrow> byte list \<Rightarrow> cell list \<Rightarrow> byte list" where
  "render_record d eol [] = eol"
| "render_record d eol [c] = render_cell c @ eol"
| "render_record d eol (c # c' # cs) = render_cell c @ d # render_record d eol (c' # cs)"

definition render_table :: "byte \<Rightarrow> byte list \<Rightarrow> cell list list \<Rightarrow> byte list" where
  "render_table d eol records = concat (map (render_record d eol) records)"

definition line_ending :: "byte list \<Rightarrow> bool" where
  "line_ending eol \<longleftrightarrow> eol \<noteq> [] \<and> (\<forall>b \<in> set eol. is_line_break b)"

text \<open>A tracker between fields; delimiters are validated to be neither quotes nor line breaks.\<close>

definition at_start :: "byte \<Rightarrow> quote_tracker \<Rightarrow> bool" where
  "at_start d t \<longleftrightarrow> qt_delimiter t = d \<and> qt_state t = StartField \<and> d \<noteq> quote_byte"

definition after_cell :: "byte \<Rightarrow> quote_tracker \<Rightarrow> bool" where
  "after_cell d t \<longleftrightarrow> qt_delimiter t = d \<and> (\<forall>opening. qt_state t \<noteq> Quoted opening) \<and> d \<noteq> quote_byte"

definition silent :: "(quote_issue list \<times> quote_tracker) \<Rightarrow> (quote_tracker \<Rightarrow> bool) \<Rightarrow> bool" where
  "silent outcome P \<longleftrightarrow> fst outcome = [] \<and> P (snd outcome)"

lemma silent_append:
  assumes "silent (quote_consume base xs t) P"
    and "\<And>t'. P t' \<Longrightarrow> silent (quote_consume (base + length xs) ys t') Q"
  shows "silent (quote_consume base (xs @ ys) t) Q"
proof -
  obtain t1 where t1: "quote_consume base xs t = ([], t1)" "P t1"
    using assms(1) by (cases "quote_consume base xs t") (auto simp: silent_def)
  then show ?thesis
    using assms(2) [OF t1(2)] by (auto simp: silent_def quote_consume_append split: prod.splits)
qed

lemma consume_raw:
  assumes "\<forall>b \<in> set bytes. b \<noteq> quote_byte \<and> b \<noteq> d \<and> \<not> is_line_break b"
    and "qt_delimiter t = d" and "qt_state t = StartField \<or> qt_state t = Unquoted" and "d \<noteq> quote_byte"
  shows "silent (quote_consume base bytes t) (after_cell d)"
  using assms
proof (induction bytes arbitrary: base t)
  case Nil
  then show ?case by (auto simp: silent_def after_cell_def)
next
  case (Cons b bytes)
  let ?t = "snd (quote_step base b t)"
  have step: "quote_step base b t = ([], ?t)" "qt_delimiter ?t = d" "qt_state ?t = Unquoted"
    using Cons.prems by (auto simp: quote_step_def)
  have "silent (quote_consume (base + 1) bytes ?t) (after_cell d)"
    using Cons.prems step by (intro Cons.IH) auto
  then show ?case using step(1) by (auto simp: silent_def split: prod.splits)
qed

lemma consume_quoted_body:
  assumes "qt_delimiter t = d" and "qt_state t = Quoted opening" and "qt_quoted_opening t = Some opening"
  shows "silent (quote_consume base (double_quotes bytes) t)
    (\<lambda>t'. qt_delimiter t' = d \<and> qt_state t' = Quoted opening \<and> qt_quoted_opening t' = Some opening)"
  using assms
proof (induction bytes arbitrary: base t)
  case Nil
  then show ?case by (simp add: silent_def double_quotes_def)
next
  case (Cons b bytes)
  let ?escaped = "if b = quote_byte then [b, b] else [b]"
  have "silent (quote_consume base ?escaped t)
      (\<lambda>t'. qt_delimiter t' = d \<and> qt_state t' = Quoted opening \<and> qt_quoted_opening t' = Some opening)"
    using Cons.prems by (auto simp: silent_def quote_step_def)
  then have "silent (quote_consume base (?escaped @ double_quotes bytes) t)
      (\<lambda>t'. qt_delimiter t' = d \<and> qt_state t' = Quoted opening \<and> qt_quoted_opening t' = Some opening)"
    by (rule silent_append) (rule Cons.IH, auto)
  then show ?case by (simp add: double_quotes_def)
qed

lemma consume_cell:
  assumes "cell_ok d c" and "at_start d t"
  shows "silent (quote_consume base (render_cell c) t) (after_cell d)"
proof (cases c)
  case (RawCell bytes)
  then show ?thesis using assms consume_raw [of bytes d t base] by (auto simp: at_start_def)
next
  case (QuotedCell bytes)
  let ?inside = "\<lambda>t'. qt_delimiter t' = d \<and> qt_state t' = Quoted base \<and> qt_quoted_opening t' = Some base"
  have opened: "silent (quote_consume base [quote_byte] t) ?inside"
    using assms(2) by (auto simp: silent_def quote_step_def at_start_def)
  have closing: "silent (quote_consume b [quote_byte] t') (after_cell d)" if "?inside t'" for b t'
    using that assms(2) by (auto simp: silent_def quote_step_def at_start_def after_cell_def)
  have body: "silent (quote_consume b (double_quotes bytes @ [quote_byte]) t') (after_cell d)" if "?inside t'" for b t'
    using that closing by (auto intro!: silent_append [where P = ?inside] consume_quoted_body)
  have "silent (quote_consume base ([quote_byte] @ double_quotes bytes @ [quote_byte]) t) (after_cell d)"
    by (rule silent_append [OF opened]) (rule body)
  with QuotedCell show ?thesis by simp
qed

lemma consume_separator:
  "after_cell d t \<Longrightarrow> b = d \<or> is_line_break b \<Longrightarrow> silent (quote_consume base [b] t) (at_start d)"
  by (cases "qt_state t")
    (auto simp: silent_def quote_step_def after_cell_def at_start_def is_line_break_def quote_byte_def)

lemma at_start_after_cell: "at_start d t \<Longrightarrow> after_cell d t"
  by (auto simp: at_start_def after_cell_def)

lemma consume_eol:
  "\<forall>b \<in> set eol. is_line_break b \<Longrightarrow> eol \<noteq> [] \<Longrightarrow> after_cell d t \<Longrightarrow>
     silent (quote_consume base eol t) (at_start d)"
proof (induction eol arbitrary: base t)
  case Nil
  then show ?case by simp
next
  case (Cons b eol)
  have first: "silent (quote_consume base [b] t) (at_start d)"
    using Cons.prems by (intro consume_separator) auto
  show ?case
  proof (cases "eol = []")
    case True
    with first show ?thesis by simp
  next
    case False
    have "silent (quote_consume base ([b] @ eol) t) (at_start d)"
      using first
    proof (rule silent_append)
      fix t' assume "at_start d t'"
      then show "silent (quote_consume (base + length [b]) eol t') (at_start d)"
        using Cons.prems False by (intro Cons.IH) (auto intro: at_start_after_cell)
    qed
    then show ?thesis by simp
  qed
qed

lemma consume_record:
  "line_ending eol \<Longrightarrow> \<forall>c \<in> set cells. cell_ok d c \<Longrightarrow> at_start d t \<Longrightarrow>
     silent (quote_consume base (render_record d eol cells) t) (at_start d)"
proof (induction d eol cells arbitrary: base t rule: render_record.induct)
  case (1 d eol)
  then show ?case by (auto simp: line_ending_def intro!: consume_eol at_start_after_cell)
next
  case (2 d eol c)
  then have "silent (quote_consume base (render_cell c) t) (after_cell d)" by (intro consume_cell) auto
  then show ?case
    unfolding render_record.simps
    by (rule silent_append) (use 2 in \<open>auto simp: line_ending_def intro: consume_eol\<close>)
next
  case (3 d eol c c' cs)
  have cell: "silent (quote_consume base (render_cell c) t) (after_cell d)"
    using 3 by (intro consume_cell) auto
  have rest: "silent (quote_consume b ([d] @ render_record d eol (c' # cs)) t') (at_start d)"
    if "after_cell d t'" for b t'
    by (rule silent_append [OF consume_separator [OF that]]) (use 3 in auto)
  show ?case
    using silent_append [OF cell, of "[d] @ render_record d eol (c' # cs)" "at_start d"] rest by simp
qed

lemma consume_table:
  assumes "line_ending eol" and "\<forall>cells \<in> set records. \<forall>c \<in> set cells. cell_ok d c" and "at_start d t"
  shows "silent (quote_consume base (render_table d eol records) t) (at_start d)"
  using assms(2,3)
proof (induction records arbitrary: base t)
  case Nil
  then show ?case by (simp add: silent_def render_table_def)
next
  case (Cons cells records)
  have "silent (quote_consume base (render_record d eol cells @ render_table d eol records) t) (at_start d)"
    using Cons assms(1) by (intro silent_append [OF consume_record]) auto
  then show ?case by (simp add: render_table_def)
qed

lemma at_start_new: "d \<noteq> quote_byte \<Longrightarrow> at_start d (quote_tracker_new d)"
  by (simp add: at_start_def quote_tracker_new_def)

section \<open>Properties\<close>

text \<open>
  C11: However the transport cuts a source into chunks, the tracker reports the same issues
  at the same offsets and ends in the same state as if the source had come at once; the
  offsets increase and lie inside the source.
\<close>

theorem quote_issues_chunk_independent:
  "quote_feed base chunks t = quote_consume base (concat chunks) t \<and>
   sorted_wrt (<) (map issue_offset (fst (quote_feed base chunks t))) \<and>
   (\<forall>issue \<in> set (fst (quote_feed base chunks t)).
      base \<le> issue_offset issue \<and> issue_offset issue < base + length (concat chunks))"
  using quote_consume_offsets [of base "concat chunks" t]
  by (simp add: quote_feed_chunks quotes.consume_chunks_eq)

text \<open>The stray quote at offset 1 of \<open>a"b\<close> is found also when a cut falls just before it.\<close>

lemma quote_issues_chunk_independent_witness:
  "quote_feed 0 [[0x61], [0x22, 0x62]] (quote_tracker_new 0x2C) =
     quote_consume 0 [0x61, 0x22, 0x62] (quote_tracker_new 0x2C)"
  using quote_issues_chunk_independent [of 0 "[[0x61], [0x22, 0x62]]" "quote_tracker_new 0x2C"]
  by simp

text \<open>
  A source written by the CSV rules, raw fields without special bytes and every other
  field between quotes with its quotes doubled, raises no quoting issue under any cut into
  chunks and leaves no field open.
\<close>

theorem well_formed_source_silent:
  assumes "line_ending eol" and "\<forall>cells \<in> set records. \<forall>c \<in> set cells. cell_ok d c"
    and "d \<noteq> quote_byte" and "concat chunks = render_table d eol records"
  shows "fst (quote_feed base chunks (quote_tracker_new d)) = [] \<and>
    unclosed_quote_offset (snd (quote_feed base chunks (quote_tracker_new d))) = None"
proof -
  have "silent (quote_consume base (render_table d eol records) (quote_tracker_new d)) (at_start d)"
    using assms by (intro consume_table at_start_new)
  then show ?thesis
    unfolding quote_feed_chunks quotes.consume_chunks_eq assms(4)
    by (auto simp: silent_def at_start_def unclosed_quote_offset_def)
qed

text \<open>
  A quoted field that end-of-file cuts off is reported at its opening quote, wherever
  in the source the record that contains it begins.
\<close>

theorem unclosed_quote_located:
  assumes "line_ending eol" and "\<forall>cells \<in> set records. \<forall>c \<in> set cells. cell_ok d c"
    and "d \<noteq> quote_byte"
    and "concat chunks = render_table d eol records @ quote_byte # double_quotes bytes"
  shows "fst (quote_feed base chunks (quote_tracker_new d)) = [] \<and>
    unclosed_quote_offset (snd (quote_feed base chunks (quote_tracker_new d))) =
      Some (base + length (render_table d eol records))"
proof -
  let ?table = "render_table d eol records"
  let ?open = "base + length ?table"
  let ?inside = "\<lambda>t. qt_delimiter t = d \<and> qt_state t = Quoted ?open \<and> qt_quoted_opening t = Some ?open"
  have table: "silent (quote_consume base ?table (quote_tracker_new d)) (at_start d)"
    using assms by (intro consume_table at_start_new)
  have "silent (quote_consume ?open ([quote_byte] @ double_quotes bytes) t) ?inside" if "at_start d t" for t
  proof (rule silent_append)
    show "silent (quote_consume ?open [quote_byte] t) ?inside"
      using that by (auto simp: silent_def quote_step_def at_start_def)
  qed (auto intro: consume_quoted_body)
  with table have "silent (quote_consume base (?table @ [quote_byte] @ double_quotes bytes)
      (quote_tracker_new d)) ?inside"
    by (rule silent_append)
  then show ?thesis
    unfolding quote_feed_chunks quotes.consume_chunks_eq assms(4)
    by (auto simp: silent_def unclosed_quote_offset_def)
qed

text \<open>Concrete sources for the hypotheses above: two fields, one of them with a quote inside.\<close>

theorem well_formed_source_silent_witness:
  "fst (quote_feed 0 [[0x61, 0x2C, 0x22], [0x22, 0x22, 0x22, 0x0A]] (quote_tracker_new 0x2C)) = []"
  using well_formed_source_silent
    [of "[0x0A]" "[[RawCell [0x61], QuotedCell [0x22]]]" "0x2C"
        "[[0x61, 0x2C, 0x22], [0x22, 0x22, 0x22, 0x0A]]" 0]
  by (simp add: line_ending_def is_line_break_def quote_byte_def render_table_def double_quotes_def
      del: quote_feed.simps)

theorem unclosed_quote_located_witness:
  "unclosed_quote_offset (snd (quote_feed 0 [[0x61, 0x0A], [0x22, 0x62]] (quote_tracker_new 0x2C))) = Some 2"
  using unclosed_quote_located
    [of "[0x0A]" "[[RawCell [0x61]]]" "0x2C" "[[0x61, 0x0A], [0x22, 0x62]]" "[0x62]" 0]
  by (simp add: line_ending_def is_line_break_def quote_byte_def render_table_def double_quotes_def
      del: quote_feed.simps)

end
