(* ===== verification/Csv_Types.thy ===== *)
theory Csv_Types
  imports Batch_Pool Quote_Tracker
begin

text \<open>
  The data of src/src/csv.rs: options and limits, diagnostics, sparse checkpoints, scan
  updates and range plans, with their validation and the textual forms serde gives to the
  delimiter and the header mode.

  The CSV reader itself is the external crate \<open>csv_core\<close>; \<open>csv_env\<close> holds the part of it the
  code calls, and \<open>String::capacity\<close>, whose value is the allocator's choice. A string that
  comes from source bytes is the list of its UTF-8 bytes, one character per byte.
\<close>

section \<open>Options\<close>

datatype parse_mode = Lenient | Strict

record csv_limits =
  max_field_bytes :: nat
  max_columns :: nat
  max_cells_per_range :: nat
  max_batch_bytes :: nat
  max_diagnostics :: nat

definition csv_limits_default :: csv_limits where
  "csv_limits_default = \<lparr>max_field_bytes = 16 * 1024 * 1024, max_columns = 16384,
     max_cells_per_range = 250000, max_batch_bytes = 32 * 1024 * 1024, max_diagnostics = 1000\<rparr>"

record delimited_options =
  delimiter :: byte
  header :: bool
  mode :: parse_mode
  checkpoint_interval :: nat
  table_name :: string
  limits :: csv_limits

definition options_csv :: delimited_options where
  "options_csv = \<lparr>delimiter = 0x2C, header = True, mode = Lenient, checkpoint_interval = 1024,
     table_name = ''Table 1'', limits = csv_limits_default\<rparr>"

definition options_tsv :: delimited_options where
  "options_tsv = options_csv\<lparr>delimiter := 0x09\<rparr>"

definition options_validate :: "delimited_options \<Rightarrow> unit result" where
  "options_validate opts =
     (if \<not> delimiter opts < 0x80 \<or> delimiter opts = 0 \<or>
         delimiter opts = 0x0D \<or> delimiter opts = 0x0A \<or> delimiter opts = quote_byte
      then Inl (new_error InvalidArgument
             ''delimiter must be one non-NUL ASCII byte other than CR, LF, or quote'')
      else if checkpoint_interval opts = 0
      then Inl (new_error InvalidArgument ''checkpoint interval must be greater than zero'')
      else if max_field_bytes (limits opts) = 0 \<or> max_columns (limits opts) = 0 \<or>
              max_cells_per_range (limits opts) = 0 \<or> max_batch_bytes (limits opts) = 0
      then Inl (new_error InvalidArgument ''CSV resource limits must be greater than zero'')
      else Inr ())"

text \<open>serde's \<open>ascii_byte\<close> and \<open>header_mode\<close>: strings on the wire, one byte and a boolean inside.\<close>

definition ascii_byte_serialize :: "byte \<Rightarrow> byte list" where
  "ascii_byte_serialize b = [b]"

definition ascii_byte_deserialize :: "byte list \<Rightarrow> string + byte" where
  "ascii_byte_deserialize bytes =
     (if length bytes \<noteq> 1 \<or> \<not> bytes ! 0 < 0x80
      then Inl ''delimiter must be exactly one ASCII character''
      else Inr (bytes ! 0))"

datatype header_value = HeaderBoolean bool | HeaderName string

definition header_mode_serialize :: "bool \<Rightarrow> header_value" where
  "header_mode_serialize h = HeaderName (if h then ''first-row'' else ''none'')"

fun header_mode_deserialize :: "header_value \<Rightarrow> string + bool" where
  "header_mode_deserialize (HeaderBoolean b) = Inr b"
| "header_mode_deserialize (HeaderName s) =
     (if s = ''first-row'' then Inr True
      else if s = ''none'' then Inr False
      else Inl ''header must be first-row, none, true, or false'')"

section \<open>Diagnostics, checkpoints, plans\<close>

datatype csv_diagnostic_kind = RaggedRow | InvalidUtf8 | MalformedQuote

record csv_diagnostic =
  diag_kind :: csv_diagnostic_kind
  diag_row :: "nat option"
  diag_byte_offset :: nat
  diag_message :: string

definition csv_diagnostic_new ::
    "csv_diagnostic_kind \<Rightarrow> nat option \<Rightarrow> nat \<Rightarrow> string \<Rightarrow> csv_diagnostic" where
  "csv_diagnostic_new kind row offset message =
     \<lparr>diag_kind = kind, diag_row = row, diag_byte_offset = offset, diag_message = message\<rparr>"

fun diagnostic_kind_name :: "csv_diagnostic_kind \<Rightarrow> string" where
  "diagnostic_kind_name RaggedRow = ''ragged-row''"
| "diagnostic_kind_name InvalidUtf8 = ''invalid-utf8''"
| "diagnostic_kind_name MalformedQuote = ''malformed-quote''"

record csv_checkpoint =
  ck_row :: nat
  ck_byte_offset :: nat

record scan_update =
  su_metadata :: table_metadata
  su_bytes_scanned :: nat
  su_rows_discovered :: nat
  su_checkpoints_added :: "csv_checkpoint list"
  su_warnings :: "csv_diagnostic list"
  su_done :: bool

record range_plan =
  plan_checkpoint :: csv_checkpoint
  plan_request :: range_request
  plan_rows_to_skip :: nat

definition plan_source_offset :: "range_plan \<Rightarrow> nat" where
  "plan_source_offset p = ck_byte_offset (plan_checkpoint p)"

text \<open>
  What scanner and decoder do with a diagnostic: strict mode fails with it, lenient mode
  retains it up to the configured number.
\<close>

definition strict_error :: "csv_diagnostic \<Rightarrow> tabulark_error" where
  "strict_error d =
     (let error = with_detail (with_detail
            (new_error ParseFailed (diag_message d))
            ''kind'' (DetailString (diagnostic_kind_name (diag_kind d))))
            ''byteOffset'' (DetailNumber (diag_byte_offset d))
      in case diag_row d of Some row \<Rightarrow> with_detail error ''row'' (DetailNumber row) | None \<Rightarrow> error)"

definition retain_diagnostic ::
    "delimited_options \<Rightarrow> csv_diagnostic \<Rightarrow> csv_diagnostic list \<Rightarrow> csv_diagnostic list result" where
  "retain_diagnostic opts d diagnostics =
     (if mode opts = Strict then Inl (strict_error d)
      else if length diagnostics < max_diagnostics (limits opts) then Inr (diagnostics @ [d])
      else Inr diagnostics)"

lemma strict_error_code [simp]: "err_code (strict_error d) = ParseFailed"
  by (simp add: strict_error_def Let_def split: option.splits)

section \<open>The external reader\<close>

datatype read_field_result = InputEmpty | OutputFull | FieldEnd bool | EndOfInput

text \<open>
  \<open>env_read_field r input n\<close> reads one field from the front of \<open>input\<close> into an output of
  \<open>n\<close> bytes and answers the result, the bytes consumed, the bytes written, and the reader.
  The code slices its input and its output by these counts, so an answer that leaves either
  makes it panic; the scanner and the decoder then do not return.
\<close>

record 'r csv_env =
  env_build_reader :: "byte \<Rightarrow> 'r"
  env_read_field :: "'r \<Rightarrow> byte list \<Rightarrow> nat \<Rightarrow> (read_field_result \<times> nat \<times> byte list) \<times> 'r"
  env_string_capacity :: "string \<Rightarrow> nat"

definition field_scratch_bytes :: nat where
  "field_scratch_bytes = 16 * 1024"

definition utf8_bom :: "byte list" where
  "utf8_bom = [0xEF, 0xBB, 0xBF]"

text \<open>
  What \<open>csv_core\<close> documents of \<open>read_field\<close>: it consumes no more than the input and
  writes no more than the output; on a non-empty input it consumes something.
\<close>

definition reader_progress :: "'r csv_env \<Rightarrow> bool" where
  "reader_progress E \<longleftrightarrow> (\<forall>r input n result consumed written r'.
     env_read_field E r input n = ((result, consumed, written), r') \<longrightarrow>
       consumed \<le> length input \<and> length written \<le> n \<and> (input \<noteq> [] \<and> 0 < n \<longrightarrow> 0 < consumed))"

section \<open>Properties\<close>

text \<open>
  Options are accepted exactly when the delimiter is a printable or control ASCII byte
  that cannot be confused with a quote or a line break, the checkpoint interval is positive
  and so is every limit but the number of diagnostics; both presets are accepted.
\<close>

theorem options_accepted:
  "(is_ok (options_validate opts) \<longleftrightarrow>
      0 < delimiter opts \<and> delimiter opts < 0x80 \<and> delimiter opts \<noteq> quote_byte \<and>
      \<not> is_line_break (delimiter opts) \<and> 0 < checkpoint_interval opts \<and>
      0 < max_field_bytes (limits opts) \<and> 0 < max_columns (limits opts) \<and>
      0 < max_cells_per_range (limits opts) \<and> 0 < max_batch_bytes (limits opts)) \<and>
   is_ok (options_validate options_csv) \<and> is_ok (options_validate options_tsv)"
  by (auto simp: options_validate_def is_line_break_def word_neq_0_conv options_csv_def options_tsv_def
      csv_limits_default_def quote_byte_def)

text \<open>
  The wire forms of the delimiter and the header mode read back: every delimiter the
  validation accepts, and both header modes.
\<close>

theorem option_wire_roundtrip:
  "(is_ok (options_validate opts) \<longrightarrow>
      ascii_byte_deserialize (ascii_byte_serialize (delimiter opts)) = Inr (delimiter opts)) \<and>
   header_mode_deserialize (header_mode_serialize h) = Inr h"
  by (simp add: options_validate_def ascii_byte_serialize_def ascii_byte_deserialize_def
      header_mode_serialize_def)

theorem option_wire_roundtrip_witness:
  "ascii_byte_deserialize (ascii_byte_serialize 0x2C) = Inr 0x2C"
  using option_wire_roundtrip [of options_csv True]
  by (simp add: options_csv_def options_validate_def csv_limits_default_def quote_byte_def)

end
