(* ===== verification/Looping.thy ===== *)
theory Looping
  imports Prelude
begin

text \<open>
  Operations that contain a loop without a static bound, or slices that panic out of range.
  Such an operation maps a state to \<open>Some\<close> outcome, or to \<open>None\<close> when it does not return:
  it loops for ever, or it panics. \<open>lslice\<close> is a slice expression with the condition under
  which it does not panic. \<open>ploop\<close> runs a body until the body fails or leaves; a loop that
  the source writes with \<open>while\<close> or \<open>loop\<close> is one \<open>ploop\<close>.
  \<open>wlp\<close> is partial correctness; \<open>ploop_returns\<close> is termination by a measure.
\<close>

section \<open>Operations that may not return\<close>

type_synonym ('s, 'e, 'a) lprog = "'s \<Rightarrow> (('e + 'a) \<times> 's) option"

definition lrun :: "('s, 'e, 'a) prog \<Rightarrow> ('s, 'e, 'a) lprog" where
  "lrun m = (\<lambda>s. Some (m s))"

definition lbind :: "('s, 'e, 'a) lprog \<Rightarrow> ('a \<Rightarrow> ('s, 'e, 'b) lprog) \<Rightarrow> ('s, 'e, 'b) lprog" where
  "lbind m f = (\<lambda>s. case m s of
      None \<Rightarrow> None
    | Some (Inl e, s') \<Rightarrow> Some (Inl e, s')
    | Some (Inr a, s') \<Rightarrow> f a s')"

definition lslice :: "bool \<Rightarrow> ('s, 'e, unit) lprog" where
  "lslice in_bounds = (\<lambda>s. if in_bounds then Some (Inr (), s) else None)"

text \<open>The loop carries a value \<open>x\<close>; the body answers the next one, or \<open>None\<close> to leave.\<close>

partial_function (option) ploop :: "('x \<Rightarrow> ('s, 'e, 'x option) lprog) \<Rightarrow> 'x \<Rightarrow> ('s, 'e, unit) lprog" where
  "ploop body x s =
     (case body x s of
        None \<Rightarrow> None
      | Some outcome \<Rightarrow>
          (case outcome of
             (Inl e, s') \<Rightarrow> Some (Inl e, s')
           | (Inr next, s') \<Rightarrow>
               (case next of None \<Rightarrow> Some (Inr (), s') | Some x' \<Rightarrow> ploop body x' s')))"

section \<open>Partial correctness\<close>

definition wlp :: "('s, 'e, 'a) lprog \<Rightarrow> ('a \<Rightarrow> 's \<Rightarrow> bool) \<Rightarrow> ('e \<Rightarrow> 's \<Rightarrow> bool) \<Rightarrow> 's \<Rightarrow> bool" where
  "wlp m Q E s = (case m s of
      None \<Rightarrow> True | Some (Inl e, s') \<Rightarrow> E e s' | Some (Inr a, s') \<Rightarrow> Q a s')"

named_theorems wlps \<open>rules that push partial correctness through a looping operation\<close>

lemma wlp_run [wlps]: "wlp (lrun m) Q E = wp m Q E"
  by (simp add: wlp_def wp_def lrun_def fun_eq_iff)

lemma wlp_bind [wlps]: "wlp (lbind m f) Q E = wlp m (\<lambda>a. wlp (f a) Q E) E"
  by (auto simp: wlp_def lbind_def fun_eq_iff split: option.splits prod.splits sum.splits)

lemma wlp_slice [wlps]: "wlp (lslice in_bounds) Q E = (\<lambda>s. in_bounds \<longrightarrow> Q () s)"
  by (simp add: wlp_def lslice_def fun_eq_iff)

lemma wlp_bind_apply: "wlp (lbind m f) Q E s = wlp m (\<lambda>a. wlp (f a) Q E) E s"
  by (simp add: wlps)

text \<open>The rules of \<open>wp\<close> under a binder, where no state is applied yet.\<close>

lemma wp_return_fun [wlps]: "wp (preturn a) Q E = Q a"
  by (simp add: fun_eq_iff wps)

lemma wp_fail_fun [wlps]: "wp (pfail e) Q E = E e"
  by (simp add: fun_eq_iff wps)

lemma wp_bind_fun [wlps]: "wp (pbind m f) Q E = wp m (\<lambda>a. wp (f a) Q E) E"
  by (simp add: fun_eq_iff wps)

lemma wp_get_fun [wlps]: "wp pget Q E = (\<lambda>s. Q s s)"
  by (simp add: fun_eq_iff wps)

lemma wp_modify_fun [wlps]: "wp (pmodify f) Q E = (\<lambda>s. Q () (f s))"
  by (simp add: fun_eq_iff wps)

lemma wlp_mono:
  assumes "wlp m Q E s"
    and "\<And>a s'. Q a s' \<Longrightarrow> Q' a s'" and "\<And>e s'. E e s' \<Longrightarrow> E' e s'"
  shows "wlp m Q' E' s"
  using assms by (auto simp: wlp_def split: option.splits prod.splits sum.splits)

lemma wlp_ok: "wlp m Q E s \<Longrightarrow> m s = Some (Inr a, s') \<Longrightarrow> Q a s'"
  by (simp add: wlp_def)

lemma wlp_err: "wlp m Q E s \<Longrightarrow> m s = Some (Inl e, s') \<Longrightarrow> E e s'"
  by (simp add: wlp_def)

text \<open>An invariant of the body is an invariant of the loop.\<close>

lemma ploop_outcome:
  assumes body: "\<And>x s. I x s \<Longrightarrow>
      wlp (body x) (\<lambda>next s'. case next of None \<Rightarrow> Q s' | Some x' \<Rightarrow> I x' s') E s"
  shows "ploop body x s = Some r \<Longrightarrow> I x s \<Longrightarrow>
    (case r of (Inl e, s') \<Rightarrow> E e s' | (Inr _, s') \<Rightarrow> Q s')"
proof -
  define good where "good b x s r \<longleftrightarrow> (b = body \<longrightarrow> I x s \<longrightarrow>
    (case r of (Inl e, s') \<Rightarrow> E e s' | (Inr (_ :: unit), s') \<Rightarrow> Q s'))" for b x s r
  assume run: "ploop body x s = Some r" and inv: "I x s"
  have "good body x s r"
    using run
  proof (rule ploop.raw_induct [of "\<lambda>b x s r. good b x s r" "((body, x), s)" r, unfolded prod.case, rotated], goal_cases)
    case (1 loop b x s r)
    show ?case
      unfolding good_def
    proof (intro impI)
      assume b: "b = body" and inv: "I x s"
      obtain o1 s1 where o1: "body x s = Some (o1, s1)"
        using 1(2) unfolding b by (auto split: option.splits)
      note step = 1(2) [unfolded b o1 option.case prod.case]
      note wp = body [OF inv, unfolded wlp_def o1 option.case prod.case]
      show "case r of (Inl e, s') \<Rightarrow> E e s' | (Inr _, s') \<Rightarrow> Q s'"
      proof (cases o1)
        case (Inl e)
        have "r = (Inl e, s1)" using step unfolding Inl by simp
        moreover have "E e s1" using wp unfolding Inl by simp
        ultimately show ?thesis by simp
      next
        case (Inr nxt)
        show ?thesis
        proof (cases nxt)
          case None
          have "r = (Inr (), s1)" using step unfolding Inr None by simp
          moreover have "Q s1" using wp unfolding Inr None by simp
          ultimately show ?thesis by simp
        next
          case (Some x')
          have "loop body x' s1 = Some r" using step unfolding Inr Some by simp
          then have "good body x' s1 r" by (rule 1(1))
          moreover have "I x' s1" using wp unfolding Inr Some by simp
          ultimately show ?thesis unfolding good_def by blast
        qed
      qed
    qed
  qed
  with inv show ?thesis unfolding good_def by blast
qed

lemma wlp_loop:
  assumes "I x s"
    and "\<And>x s. I x s \<Longrightarrow>
      wlp (body x) (\<lambda>next s'. case next of None \<Rightarrow> Q s' | Some x' \<Rightarrow> I x' s') E s"
  shows "wlp (ploop body x) (\<lambda>_. Q) E s"
  using ploop_outcome [of I body Q E x s, OF assms(2) _ assms(1)]
  by (cases "ploop body x s") (auto simp: wlp_def split: prod.splits sum.splits)

section \<open>Termination\<close>

definition returns :: "('s, 'e, 'a) lprog \<Rightarrow> 's \<Rightarrow> bool" where
  "returns m s \<longleftrightarrow> m s \<noteq> None"

lemma returns_run [simp]: "returns (lrun m) s"
  by (simp add: returns_def lrun_def)

lemma lrun_iff [simp]: "lrun m s = Some r \<longleftrightarrow> m s = r"
  by (simp add: lrun_def)

lemma returns_bind:
  assumes "returns m s" and "\<And>a s'. m s = Some (Inr a, s') \<Longrightarrow> returns (f a) s'"
  shows "returns (lbind m f) s"
  using assms by (auto simp: returns_def lbind_def split: option.splits prod.splits sum.splits)

lemma returns_slice [simp]: "returns (lslice in_bounds) s \<longleftrightarrow> in_bounds"
  by (simp add: returns_def lslice_def)

lemma ploop_returns:
  assumes "I x s" and "\<And>x s. I x s \<Longrightarrow> returns (body x) s"
    and "\<And>x s x' s'. I x s \<Longrightarrow> body x s = Some (Inr (Some x'), s') \<Longrightarrow> I x' s' \<and> m x' < (m x :: nat)"
  shows "returns (ploop body x) s"
  using assms(1)
proof (induction "m x" arbitrary: x s rule: less_induct)
  case less
  obtain o1 s1 where o1: "body x s = Some (o1, s1)"
    using assms(2) [OF less.prems] by (auto simp: returns_def)
  show ?case
  proof (cases "\<exists>x'. o1 = Inr (Some x')")
    case True
    then obtain x' where x': "o1 = Inr (Some x')" by blast
    then have "returns (ploop body x') s1" using assms(3) less o1 by blast
    then show ?thesis unfolding returns_def by (subst ploop.simps) (simp add: o1 x')
  next
    case False
    then show ?thesis
      unfolding returns_def by (subst ploop.simps) (auto simp: o1 split: sum.splits option.splits)
  qed
qed

end
