(* ===== verification/Csv_Scanner.thy ===== *)
theory Csv_Scanner
  imports Csv_Types Looping
begin

text \<open>
  \<open>CsvScanner\<close> of src/src/csv.rs: the incremental scanner that keeps metadata, a sparse
  row index and diagnostics, never the source.

  Operations on \<open>&mut self\<close> are state programs; \<open>process_bytes\<close> loops until the external
  reader has taken the chunk, so it and its callers are looping programs. The reader is the
  parameter \<open>E\<close>; the safety properties hold for any reader, termination and the offset
  bounds for one that makes documented progress.
\<close>

section \<open>State\<close>

record 'r csv_scanner =
  sc_options :: delimited_options
  sc_reader :: 'r
  sc_lexical :: quote_tracker
  sc_bom_prefix :: "byte list"
  sc_bom_resolved :: bool
  sc_bytes_received :: nat
  sc_parser_offset :: nat
  sc_record_start_offset :: nat
  sc_field :: "byte list"
  sc_record_fields :: nat
  sc_header_names :: "string list"
  sc_header_pending :: bool
  sc_rows :: nat
  sc_columns :: "column_schema list"
  sc_column_string_bytes :: nat
  sc_schema_version :: nat
  sc_checkpoints :: "csv_checkpoint list"
  sc_diagnostics :: "csv_diagnostic list"
  sc_finished :: bool

type_synonym ('r, 'a) scan = "('r csv_scanner, tabulark_error, 'a) prog"
type_synonym ('r, 'a) scan_loop = "('r csv_scanner, tabulark_error, 'a) lprog"

definition scanner_new :: "'r csv_env \<Rightarrow> delimited_options \<Rightarrow> 'r csv_scanner result" where
  "scanner_new E opts =
     rbind (options_validate opts) (\<lambda>_.
     Inr \<lparr>sc_options = opts, sc_reader = env_build_reader E (delimiter opts),
          sc_lexical = quote_tracker_new (delimiter opts), sc_bom_prefix = [],
          sc_bom_resolved = False, sc_bytes_received = 0, sc_parser_offset = 0,
          sc_record_start_offset = 0, sc_field = [], sc_record_fields = 0, sc_header_names = [],
          sc_header_pending = header opts, sc_rows = 0, sc_columns = [],
          sc_column_string_bytes = 0, sc_schema_version = 0, sc_checkpoints = [],
          sc_diagnostics = [], sc_finished = False\<rparr>)"

section \<open>Fields and records\<close>

definition scanner_diagnostic :: "csv_diagnostic \<Rightarrow> ('r, unit) scan" where
  "scanner_diagnostic d =
     pbind pget (\<lambda>s.
     pbind (plift (retain_diagnostic (sc_options s) d (sc_diagnostics s))) (\<lambda>ds.
     pmodify (\<lambda>s. s\<lparr>sc_diagnostics := ds\<rparr>)))"

definition scanner_append_field :: "byte list \<Rightarrow> ('r, unit) scan" where
  "scanner_append_field bytes =
     pbind pget (\<lambda>s.
     pbind (plift (ok_or (checked_add (length (sc_field s)) (length bytes))
       (new_error ResourceLimit ''CSV field length overflow''))) (\<lambda>new_len.
     if new_len > max_field_bytes (limits (sc_options s))
     then pfail (with_detail
            (new_error ResourceLimit ''CSV field exceeds the configured byte limit'')
            ''maxFieldBytes'' (DetailNumber (max_field_bytes (limits (sc_options s)))))
     else pmodify (\<lambda>s. s\<lparr>sc_field := sc_field s @ bytes\<rparr>)))"

definition scanner_finish_field :: "('r, unit) scan" where
  "scanner_finish_field =
     pbind pget (\<lambda>s.
     pbind (plift (ok_or (checked_add (sc_record_fields s) 1)
       (new_error ResourceLimit ''CSV column count overflow''))) (\<lambda>record_fields.
     pbind (pmodify (\<lambda>s. s\<lparr>sc_record_fields := record_fields\<rparr>)) (\<lambda>_.
     if record_fields > max_columns (limits (sc_options s))
     then pfail (with_detail
            (new_error ResourceLimit ''CSV record exceeds the configured column limit'')
            ''maxColumns'' (DetailNumber (max_columns (limits (sc_options s)))))
     else
       pbind (if \<not> utf8_valid (sc_field s)
              then scanner_diagnostic (csv_diagnostic_new InvalidUtf8
                     (if \<not> sc_header_pending s then Some (sc_rows s) else None)
                     (sc_record_start_offset s)
                     ''field contains invalid UTF-8; replacement characters were used'')
              else preturn ()) (\<lambda>_.
       if sc_header_pending s
       then pmodify (\<lambda>s'. s'\<lparr>sc_header_names := sc_header_names s' @
              [string_of_bytes (if utf8_valid (sc_field s) then sc_field s else utf8_lossy (sc_field s))],
              sc_field := []\<rparr>)
       else pmodify (\<lambda>s. s\<lparr>sc_field := []\<rparr>)))))"

definition column_name :: "string list option \<Rightarrow> nat \<Rightarrow> string" where
  "column_name header_names index =
     (case header_names of
        None \<Rightarrow> ''column_'' @ nat_to_dec (index + 1)
      | Some names \<Rightarrow>
          if index < length names \<and> names ! index \<noteq> [] then names ! index
          else ''column_'' @ nat_to_dec (index + 1))"

definition column_id :: "nat \<Rightarrow> string" where
  "column_id index = ''c'' @ nat_to_dec index"

definition push_column :: "'r csv_env \<Rightarrow> string list option \<Rightarrow> nat \<Rightarrow> ('r, unit) scan" where
  "push_column E header_names index =
     (let name = column_name header_names index;
          cid = column_id index;
          string_bytes = saturating_add (env_string_capacity E cid) (env_string_capacity E name)
      in pbind (plift (ok_or (u64_try_from index)
           (new_error ResourceLimit ''column index exceeds u64''))) (\<lambda>index_u64.
         pbind (plift (column_schema_new cid name index_u64 TUtf8 True)) (\<lambda>column.
         pmodify (\<lambda>s. s\<lparr>sc_columns := sc_columns s @ [column],
           sc_column_string_bytes := saturating_add (sc_column_string_bytes s) string_bytes\<rparr>))))"

definition scanner_ensure_columns :: "'r csv_env \<Rightarrow> nat \<Rightarrow> string list option \<Rightarrow> ('r, unit) scan" where
  "scanner_ensure_columns E count header_names =
     pbind pget (\<lambda>s.
     if count > max_columns (limits (sc_options s))
     then pfail (new_error ResourceLimit ''CSV schema exceeds the configured column limit'')
     else if count \<le> length (sc_columns s) then preturn ()
     else
       pbind (pforeach (push_column E header_names) [length (sc_columns s)..<count]) (\<lambda>_.
       pbind (plift (ok_or (checked_add (sc_schema_version s) 1)
         (new_error ResourceLimit ''schema version overflow''))) (\<lambda>version.
       pmodify (\<lambda>s. s\<lparr>sc_schema_version := version\<rparr>))))"

definition scanner_data_record :: "'r csv_env \<Rightarrow> nat \<Rightarrow> ('r, unit) scan" where
  "scanner_data_record E record_fields =
     pbind pget (\<lambda>s.
     pbind (if sc_rows s mod checkpoint_interval (sc_options s) = 0
            then pmodify (\<lambda>s. s\<lparr>sc_checkpoints := sc_checkpoints s @
                   [\<lparr>ck_row = sc_rows s, ck_byte_offset = sc_record_start_offset s\<rparr>]\<rparr>)
            else preturn ()) (\<lambda>_.
     pbind (if sc_columns s = [] then scanner_ensure_columns E record_fields None
            else if record_fields \<noteq> length (sc_columns s)
            then pbind (scanner_diagnostic (csv_diagnostic_new RaggedRow (Some (sc_rows s))
                   (sc_record_start_offset s)
                   (''row has '' @ nat_to_dec record_fields @ '' fields but the current schema has '' @
                    nat_to_dec (length (sc_columns s))))) (\<lambda>_.
                 if record_fields > length (sc_columns s) then scanner_ensure_columns E record_fields None
                 else preturn ())
            else preturn ()) (\<lambda>_.
     pbind (plift (ok_or (checked_add (sc_rows s) 1)
       (new_error ResourceLimit ''CSV row count overflow''))) (\<lambda>rows.
     pmodify (\<lambda>s. s\<lparr>sc_rows := rows\<rparr>)))))"

definition scanner_finish_record :: "'r csv_env \<Rightarrow> ('r, unit) scan" where
  "scanner_finish_record E =
     pbind pget (\<lambda>s.
     pbind (pmodify (\<lambda>s. s\<lparr>sc_record_fields := 0\<rparr>)) (\<lambda>_.
     pbind (if sc_header_pending s
            then pbind (pmodify (\<lambda>s. s\<lparr>sc_header_names := []\<rparr>)) (\<lambda>_.
                 pbind (scanner_ensure_columns E (sc_record_fields s) (Some (sc_header_names s))) (\<lambda>_.
                 pmodify (\<lambda>s. s\<lparr>sc_header_pending := False\<rparr>)))
            else scanner_data_record E (sc_record_fields s)) (\<lambda>_.
     pmodify (\<lambda>s. s\<lparr>sc_record_start_offset := sc_parser_offset s\<rparr>))))"

section \<open>Bytes\<close>

definition scanner_field_end :: "'r csv_env \<Rightarrow> bool \<Rightarrow> ('r, unit) scan" where
  "scanner_field_end E record_end =
     pbind scanner_finish_field (\<lambda>_. if record_end then scanner_finish_record E else preturn ())"

text \<open>\<open>self.reader.read_field\<close> with the reader's state put back.\<close>

definition scanner_read ::
    "'r csv_env \<Rightarrow> byte list \<Rightarrow> ('r, read_field_result \<times> nat \<times> byte list) scan" where
  "scanner_read E input = (\<lambda>s.
     case env_read_field E (sc_reader s) input field_scratch_bytes of
       (answer, reader) \<Rightarrow> (Inr answer, s\<lparr>sc_reader := reader\<rparr>))"

definition scanner_advance :: "nat \<Rightarrow> ('r, unit) scan" where
  "scanner_advance consumed =
     pbind pget (\<lambda>s.
     pbind (plift (ok_or (checked_add (sc_parser_offset s) consumed)
       (new_error ResourceLimit ''parser offset overflow''))) (\<lambda>offset.
     pmodify (\<lambda>s. s\<lparr>sc_parser_offset := offset\<rparr>)))"

text \<open>
  One turn of the \<open>while\<close> loop; it answers the rest of the input, or \<open>None\<close> to leave. The
  slices \<open>&scratch[..written]\<close> and \<open>&input[consumed..]\<close> panic out of range.
\<close>

definition scanner_answer ::
    "'r csv_env \<Rightarrow> read_field_result \<Rightarrow> bool \<Rightarrow> byte list \<Rightarrow> ('r, byte list option) scan" where
  "scanner_answer E result stuck rest =
     (let continue = (if stuck
            then pfail (new_error RuntimeFailure ''CSV parser made no progress'')
            else preturn (if rest = [] then None else Some rest))
      in case result of
           InputEmpty \<Rightarrow> preturn None
         | OutputFull \<Rightarrow> continue
         | FieldEnd record_end \<Rightarrow> pbind (scanner_field_end E record_end) (\<lambda>_. continue)
         | EndOfInput \<Rightarrow> pfail (new_error RuntimeFailure
               ''CSV parser reached end before the input chunk was exhausted''))"

definition scanner_turn :: "'r csv_env \<Rightarrow> byte list \<Rightarrow> ('r, byte list option) scan_loop" where
  "scanner_turn E input =
     lbind (lrun (scanner_read E input)) (\<lambda>(result, consumed, written).
     lbind (lslice (length written \<le> field_scratch_bytes)) (\<lambda>_.
     lbind (lrun (scanner_append_field written)) (\<lambda>_.
     lbind (lrun (scanner_advance consumed)) (\<lambda>_.
     lbind (lslice (consumed \<le> length input)) (\<lambda>_.
     lrun (scanner_answer E result (consumed = 0 \<and> written = []) (drop consumed input)))))))"

definition scanner_process_bytes :: "'r csv_env \<Rightarrow> nat \<Rightarrow> byte list \<Rightarrow> ('r, unit) scan_loop" where
  "scanner_process_bytes E base bytes =
     lbind (lrun (
       pbind pget (\<lambda>s.
       if base \<noteq> sc_parser_offset s
       then pfail (with_detail (with_detail
              (new_error InvalidArgument
                 ''parser input does not begin at the expected absolute offset'')
              ''expectedOffset'' (DetailNumber (sc_parser_offset s)))
              ''actualOffset'' (DetailNumber base))
       else case quote_consume base bytes (sc_lexical s) of (issues, lexical) \<Rightarrow>
         pbind (pmodify (\<lambda>s. s\<lparr>sc_lexical := lexical\<rparr>)) (\<lambda>_.
         pforeach (\<lambda>issue. scanner_diagnostic (csv_diagnostic_new MalformedQuote None
           (issue_offset issue) (issue_message issue))) issues)))) (\<lambda>_.
     if bytes = [] then lrun (preturn ()) else ploop (scanner_turn E) bytes)"

text \<open>The count of consumed bytes is only the subject of a debug assertion here.\<close>

fun scanner_finish_loop :: "'r csv_env \<Rightarrow> nat \<Rightarrow> ('r, unit) scan_loop" where
  "scanner_finish_loop E 0 =
     lrun (pfail (new_error RuntimeFailure ''CSV parser did not terminate at end-of-file''))"
| "scanner_finish_loop E (Suc n) =
     lbind (lrun (scanner_read E [])) (\<lambda>(result, consumed, written).
     lbind (lslice (length written \<le> field_scratch_bytes)) (\<lambda>_.
     lbind (lrun (scanner_append_field written)) (\<lambda>_.
     case result of
       FieldEnd record_end \<Rightarrow> lbind (lrun (scanner_field_end E record_end)) (\<lambda>_. scanner_finish_loop E n)
     | EndOfInput \<Rightarrow> lrun (pmodify (\<lambda>s. s\<lparr>sc_finished := True\<rparr>))
     | OutputFull \<Rightarrow> scanner_finish_loop E n
     | InputEmpty \<Rightarrow> scanner_finish_loop E n)))"

definition scanner_unclosed_quote :: "('r, unit) scan" where
  "scanner_unclosed_quote =
     pbind pget (\<lambda>s.
     case unclosed_quote_offset (sc_lexical s) of
       None \<Rightarrow> preturn ()
     | Some offset \<Rightarrow> scanner_diagnostic (csv_diagnostic_new MalformedQuote None offset
         ''quoted field is not terminated before end-of-file''))"

definition scanner_finish :: "'r csv_env \<Rightarrow> ('r, unit) scan_loop" where
  "scanner_finish E = lbind (lrun scanner_unclosed_quote) (\<lambda>_. scanner_finish_loop E 4)"

section \<open>Metadata\<close>

definition scanner_metadata :: "'r csv_scanner \<Rightarrow> table_metadata result" where
  "scanner_metadata s =
     rbind (if sc_finished s then axis_exact (sc_rows s) else axis_at_least (sc_rows s)) (\<lambda>row_extent.
     rbind (ok_or (u64_try_from (length (sc_columns s)))
       (new_error ResourceLimit ''column count exceeds u64'')) (\<lambda>count.
     rbind (if sc_finished s then axis_exact count
            else if sc_columns s = [] then Inr UnknownExtent
            else axis_at_least count) (\<lambda>column_extent.
     rbind (schema_new (sc_schema_version s) (sc_columns s)) (\<lambda>sch.
     Inr (table_metadata_new ''table-0'' (table_name (sc_options s)) 0
       \<lparr>extent_rows = row_extent, extent_columns = column_extent\<rparr> sch
       (capabilities_delimited (if sc_finished s then FullAccess else IndexedPrefix)))))))"

section \<open>Feeding chunks\<close>

text \<open>
  The byte-order-mark loop: bytes join the prefix while it can still be a mark; what is
  left of the chunk comes back beside the prefix.
\<close>

definition starts_bom :: "byte list \<Rightarrow> bool" where
  "starts_bom bytes \<longleftrightarrow> take (length bytes) utf8_bom = bytes"

fun bom_take :: "byte list \<Rightarrow> byte list \<Rightarrow> byte list \<times> byte list" where
  "bom_take prefix [] = (prefix, [])"
| "bom_take prefix (b # bytes) =
     (if length prefix < length utf8_bom
      then if \<not> starts_bom (prefix @ [b]) then (prefix @ [b], bytes) else bom_take (prefix @ [b]) bytes
      else (prefix, b # bytes))"

definition scanner_resolve_bom :: "'r csv_env \<Rightarrow> byte list \<Rightarrow> bool \<Rightarrow> ('r, byte list) scan_loop" where
  "scanner_resolve_bom E bytes eof =
     lbind (lrun pget) (\<lambda>s.
     if sc_bom_resolved s then lrun (preturn bytes)
     else case bom_take (sc_bom_prefix s) bytes of (prefix, rest) \<Rightarrow>
       if \<not> starts_bom prefix \<or> length prefix = length utf8_bom \<or> eof
       then if prefix = utf8_bom
            then lrun (pbind (pmodify (\<lambda>s. s\<lparr>sc_bom_resolved := True, sc_parser_offset := 3,
                   sc_record_start_offset := 3, sc_bom_prefix := []\<rparr>)) (\<lambda>_. preturn rest))
            else lbind (lrun (pmodify (\<lambda>s. s\<lparr>sc_bom_resolved := True, sc_bom_prefix := []\<rparr>))) (\<lambda>_.
                 lbind (scanner_process_bytes E 0 prefix) (\<lambda>_. lrun (preturn rest)))
       else lrun (pbind (pmodify (\<lambda>s. s\<lparr>sc_bom_prefix := prefix\<rparr>)) (\<lambda>_. preturn rest)))"

definition scanner_accept :: "nat \<Rightarrow> byte list \<Rightarrow> ('r, unit) scan" where
  "scanner_accept absolute_offset bytes =
     pbind pget (\<lambda>s.
     if sc_finished s then pfail (new_error HandleClosed ''CSV scanner is already finalized'')
     else if absolute_offset \<noteq> sc_bytes_received s
     then pfail (with_detail (with_detail
            (new_error InvalidArgument ''CSV scan chunks must be contiguous and ordered'')
            ''expectedOffset'' (DetailNumber (sc_bytes_received s)))
            ''actualOffset'' (DetailNumber absolute_offset))
     else
       pbind (plift (ok_or (u64_try_from (length bytes))
         (new_error ResourceLimit ''source chunk is too large''))) (\<lambda>n.
       pbind (plift (ok_or (checked_add (sc_bytes_received s) n)
         (new_error ResourceLimit ''source byte offset overflow''))) (\<lambda>received.
       pmodify (\<lambda>s. s\<lparr>sc_bytes_received := received\<rparr>))))"

definition scanner_parse_rest :: "'r csv_env \<Rightarrow> nat \<Rightarrow> byte list \<Rightarrow> byte list \<Rightarrow> ('r, unit) scan_loop" where
  "scanner_parse_rest E absolute_offset bytes rest =
     lbind (lrun pget) (\<lambda>s.
     if sc_bom_resolved s \<and> rest \<noteq> []
     then scanner_process_bytes E (absolute_offset + (length bytes - length rest)) rest
     else lrun (preturn ()))"

definition scanner_end_of_file :: "'r csv_env \<Rightarrow> ('r, unit) scan_loop" where
  "scanner_end_of_file E =
     lbind (lrun pget) (\<lambda>s.
     lbind (if \<not> sc_bom_resolved s
            then lbind (lrun (pmodify (\<lambda>s. s\<lparr>sc_bom_resolved := True, sc_bom_prefix := []\<rparr>))) (\<lambda>_.
                 scanner_process_bytes E 0 (sc_bom_prefix s))
            else lrun (preturn ())) (\<lambda>_.
     scanner_finish E))"

definition scanner_update :: "'r csv_scanner \<Rightarrow> ('r, scan_update) scan" where
  "scanner_update before =
     pbind pget (\<lambda>s.
     pbind (plift (scanner_metadata s)) (\<lambda>metadata.
     preturn \<lparr>su_metadata = metadata, su_bytes_scanned = sc_bytes_received s,
       su_rows_discovered = sc_rows s,
       su_checkpoints_added = drop (length (sc_checkpoints before)) (sc_checkpoints s),
       su_warnings = drop (length (sc_diagnostics before)) (sc_diagnostics s),
       su_done = sc_finished s\<rparr>))"

definition scanner_feed_chunk ::
    "'r csv_env \<Rightarrow> nat \<Rightarrow> byte list \<Rightarrow> bool \<Rightarrow> ('r, scan_update) scan_loop" where
  "scanner_feed_chunk E absolute_offset bytes eof =
     lbind (lrun (scanner_accept absolute_offset bytes)) (\<lambda>_.
     lbind (lrun pget) (\<lambda>before.
     lbind (scanner_resolve_bom E bytes eof) (\<lambda>rest.
     lbind (scanner_parse_rest E absolute_offset bytes rest) (\<lambda>_.
     lbind (if eof then scanner_end_of_file E else lrun (preturn ())) (\<lambda>_.
     lrun (scanner_update before))))))"

section \<open>Planning ranges\<close>

definition scanner_validate_range :: "'r csv_scanner \<Rightarrow> range_request \<Rightarrow> unit result" where
  "scanner_validate_range s request =
     rbind (validate_public request) (\<lambda>_.
     rbind (cell_count request) (\<lambda>cells.
     if cells > max_cells_per_range (limits (sc_options s))
     then Inl (with_detail
            (new_error ResourceLimit ''range exceeds the configured cell limit'')
            ''maxCells'' (DetailNumber (max_cells_per_range (limits (sc_options s)))))
     else
       rbind (column_end request) (\<lambda>end_column.
       rbind (ok_or (u64_try_from (length (sc_columns s)))
         (new_error ResourceLimit ''column count exceeds u64'')) (\<lambda>schema_columns.
       if end_column > schema_columns
       then Inl (with_detail
              (new_error InvalidRange ''requested columns exceed the current schema'')
              ''schemaColumns'' (DetailNumber schema_columns))
       else Inr ()))))"

text \<open>\<open>partition_point\<close> on checkpoints in row order: how many begin at or before the row.\<close>

definition partition_point :: "('a \<Rightarrow> bool) \<Rightarrow> 'a list \<Rightarrow> nat" where
  "partition_point P xs = length (takeWhile P xs)"

definition scanner_plan_range :: "'r csv_scanner \<Rightarrow> range_request \<Rightarrow> range_plan result" where
  "scanner_plan_range s request =
     rbind (scanner_validate_range s request) (\<lambda>_.
     if row_count request > 0 \<and> \<not> sc_finished s \<and> row_start request \<ge> sc_rows s
     then Inl (with_detail (with_retryable
            (new_error RangeNotIndexed ''requested row has not been indexed yet'') True)
            ''indexedRows'' (DetailNumber (sc_rows s)))
     else
       let checkpoint =
             (case checked_sub (partition_point (\<lambda>c. ck_row c \<le> row_start request) (sc_checkpoints s)) 1 of
                Some index \<Rightarrow>
                  if index < length (sc_checkpoints s) then sc_checkpoints s ! index
                  else \<lparr>ck_row = sc_rows s, ck_byte_offset = sc_parser_offset s\<rparr>
              | None \<Rightarrow> \<lparr>ck_row = sc_rows s, ck_byte_offset = sc_parser_offset s\<rparr>)
       in Inr \<lparr>plan_checkpoint = checkpoint, plan_request = request,
               plan_rows_to_skip = saturating_sub (row_start request) (ck_row checkpoint)\<rparr>)"

end
