(* ===== verification/Csv_Scan_Invariant.thy ===== *)
theory Csv_Scan_Invariant
  imports Csv_Scanner
begin

text \<open>
  What \<open>CsvScanner\<close> of src/src/csv.rs guarantees over any sequence of chunks: the invariant of
  its index, columns and buffers, the ways it can grow, and the properties that follow for
  range planning and resource limits.
\<close>

section \<open>Invariant\<close>

text \<open>
  What every call keeps, whatever the reader answers and whether or not the call fails:
  the index lists the checkpoint rows in order, one for every multiple of the interval below
  the row count; columns are numbered and named by position; every buffer is within its
  limit.
\<close>

definition index_inv :: "'r csv_scanner \<Rightarrow> bool" where
  "index_inv s \<longleftrightarrow>
     sorted (map ck_row (sc_checkpoints s)) \<and> sorted (map ck_byte_offset (sc_checkpoints s)) \<and>
     (\<forall>c \<in> set (sc_checkpoints s). ck_row c \<le> sc_rows s \<and>
        ck_row c mod checkpoint_interval (sc_options s) = 0 \<and>
        ck_byte_offset c \<le> sc_record_start_offset s) \<and>
     (\<forall>r < sc_rows s. r mod checkpoint_interval (sc_options s) = 0 \<longrightarrow> r \<in> ck_row ` set (sc_checkpoints s)) \<and>
     sc_record_start_offset s \<le> sc_parser_offset s"

definition columns_inv :: "'r csv_scanner \<Rightarrow> bool" where
  "columns_inv s \<longleftrightarrow>
     length (sc_columns s) \<le> max_columns (limits (sc_options s)) \<and>
     (\<forall>i < length (sc_columns s). col_index (sc_columns s ! i) = i \<and> col_id (sc_columns s ! i) = column_id i) \<and>
     sc_schema_version s \<le> length (sc_columns s)"

definition buffers_inv :: "'r csv_scanner \<Rightarrow> bool" where
  "buffers_inv s \<longleftrightarrow>
     length (sc_field s) \<le> max_field_bytes (limits (sc_options s)) \<and>
     length (sc_diagnostics s) \<le> max_diagnostics (limits (sc_options s)) \<and>
     (mode (sc_options s) = Strict \<longrightarrow> sc_diagnostics s = []) \<and>
     length (sc_header_names s) \<le> sc_record_fields s \<and>
     (\<not> sc_header_pending s \<longrightarrow> sc_header_names s = []) \<and>
     length (sc_header_names s) \<le> max_columns (limits (sc_options s)) \<and>
     (\<not> sc_bom_resolved s \<longrightarrow> sc_parser_offset s = 0 \<and> sc_checkpoints s = [] \<and> sc_rows s = 0)"

definition options_fit :: "delimited_options \<Rightarrow> bool" where
  "options_fit opts \<longleftrightarrow> is_ok (options_validate opts) \<and> max_columns (limits opts) \<le> max_safe_integer"

definition scan_inv :: "'r csv_scanner \<Rightarrow> bool" where
  "scan_inv s \<longleftrightarrow> options_fit (sc_options s) \<and> index_inv s \<and> columns_inv s \<and> buffers_inv s"

text \<open>How a later state of a scanner relates to an earlier one.\<close>

definition extends :: "'a list \<Rightarrow> 'a list \<Rightarrow> bool" where
  "extends xs ys \<longleftrightarrow> (\<exists>added. ys = xs @ added)"

lemma extends_simps [simp]:
  "extends xs xs" "extends xs ys \<Longrightarrow> extends xs (ys @ zs)" "extends xs [] \<longleftrightarrow> xs = []"
  by (auto simp: extends_def)

lemma extends_length: "extends xs ys \<Longrightarrow> length xs \<le> length ys"
  by (auto simp: extends_def)

definition scan_grows :: "'r csv_scanner \<Rightarrow> 'r csv_scanner \<Rightarrow> bool" where
  "scan_grows s0 s \<longleftrightarrow>
     sc_options s0 = sc_options s \<and> sc_rows s0 \<le> sc_rows s \<and>
     extends (sc_columns s0) (sc_columns s) \<and>
     sc_schema_version s0 \<le> sc_schema_version s \<and>
     (sc_schema_version s = sc_schema_version s0 \<longrightarrow> sc_columns s = sc_columns s0) \<and>
     extends (sc_checkpoints s0) (sc_checkpoints s) \<and>
     extends (sc_diagnostics s0) (sc_diagnostics s) \<and>
     (sc_finished s0 \<longrightarrow> sc_finished s)"

definition scan_good :: "'r csv_scanner \<Rightarrow> 'r csv_scanner \<Rightarrow> bool" where
  "scan_good s0 s \<longleftrightarrow> scan_inv s \<and> scan_grows s0 s"

lemmas scan_defs = scan_good_def scan_inv_def index_inv_def columns_inv_def buffers_inv_def scan_grows_def

named_theorems good \<open>updates that keep a good scanner good\<close>

lemma good_refl: "scan_inv s \<Longrightarrow> scan_good s s"
  by (simp add: scan_good_def scan_grows_def)

lemma good_inv: "scan_good s0 s \<Longrightarrow> scan_inv s"
  by (simp add: scan_good_def)

lemma good_reader [good]: "scan_good s0 s \<Longrightarrow> scan_good s0 (s\<lparr>sc_reader := r\<rparr>)"
  by (simp add: scan_defs)

lemma good_lexical [good]: "scan_good s0 s \<Longrightarrow> scan_good s0 (s\<lparr>sc_lexical := r\<rparr>)"
  by (simp add: scan_defs)

lemma good_received [good]: "scan_good s0 s \<Longrightarrow> scan_good s0 (s\<lparr>sc_bytes_received := n\<rparr>)"
  by (simp add: scan_defs)

lemma good_finished [good]: "scan_good s0 s \<Longrightarrow> scan_good s0 (s\<lparr>sc_finished := True\<rparr>)"
  by (simp add: scan_defs)

lemma good_prefix [good]: "scan_good s0 s \<Longrightarrow> scan_good s0 (s\<lparr>sc_bom_prefix := p\<rparr>)"
  by (simp add: scan_defs)

lemma good_resolved [good]: "scan_good s0 s \<Longrightarrow> scan_good s0 (s\<lparr>sc_bom_resolved := True, sc_bom_prefix := p\<rparr>)"
  by (simp add: scan_defs)

lemma good_bom:
  "scan_good s0 s \<Longrightarrow> \<not> sc_bom_resolved s \<Longrightarrow>
     scan_good s0 (s\<lparr>sc_bom_resolved := True, sc_parser_offset := 3, sc_record_start_offset := 3,
       sc_bom_prefix := []\<rparr>)"
  by (auto simp: scan_defs)

lemma good_field [good]:
  "scan_good s0 s \<Longrightarrow> length f \<le> max_field_bytes (limits (sc_options s)) \<Longrightarrow> scan_good s0 (s\<lparr>sc_field := f\<rparr>)"
  by (simp add: scan_defs)

lemma good_record_fields [good]:
  "scan_good s0 s \<Longrightarrow> sc_record_fields s \<le> n \<Longrightarrow> scan_good s0 (s\<lparr>sc_record_fields := n\<rparr>)"
  by (simp add: scan_defs)

lemma good_pending [good]:
  "scan_good s0 s \<Longrightarrow> sc_header_names s = [] \<Longrightarrow> scan_good s0 (s\<lparr>sc_header_pending := b\<rparr>)"
  by (simp add: scan_defs)

lemma good_record_start [good]:
  "scan_good s0 s \<Longrightarrow> scan_good s0 (s\<lparr>sc_record_start_offset := sc_parser_offset s\<rparr>)"
  by (auto simp: scan_defs intro: order_trans)

lemma good_parser [good]:
  "scan_good s0 s \<Longrightarrow> sc_parser_offset s \<le> n \<Longrightarrow> sc_bom_resolved s \<Longrightarrow> scan_good s0 (s\<lparr>sc_parser_offset := n\<rparr>)"
  by (auto simp: scan_defs)

lemma good_diagnostics [good]:
  "scan_good s0 s \<Longrightarrow> retain_diagnostic (sc_options s) d (sc_diagnostics s) = Inr ds \<Longrightarrow>
     scan_good s0 (s\<lparr>sc_diagnostics := ds\<rparr>)"
  by (auto simp: scan_defs retain_diagnostic_def split: if_splits)

lemma good_checkpoint [good]:
  assumes "scan_good s0 s" and "sc_rows s mod checkpoint_interval (sc_options s) = 0" and "sc_bom_resolved s"
  shows "scan_good s0 (s\<lparr>sc_checkpoints := sc_checkpoints s @
    [\<lparr>ck_row = sc_rows s, ck_byte_offset = sc_record_start_offset s\<rparr>]\<rparr>)"
  using assms by (auto simp: scan_defs sorted_append)

lemma good_rows [good]:
  assumes "scan_good s0 s" and "sc_bom_resolved s"
    and "sc_rows s mod checkpoint_interval (sc_options s) = 0 \<longrightarrow> sc_rows s \<in> ck_row ` set (sc_checkpoints s)"
  shows "scan_good s0 (s\<lparr>sc_rows := sc_rows s + 1\<rparr>)"
  using assms by (auto simp: scan_defs less_Suc_eq)

section \<open>Columns\<close>

definition new_column :: "string list option \<Rightarrow> nat \<Rightarrow> column_schema" where
  "new_column names i = \<lparr>col_id = column_id i, col_name = column_name names i, col_index = i,
     col_data_type = TUtf8, col_nullable = True, col_extensions = Map.empty\<rparr>"

lemma push_column_eq:
  "i \<le> max_safe_integer \<Longrightarrow> \<exists>b. push_column E names i s =
     (Inr (), s\<lparr>sc_columns := sc_columns s @ [new_column names i], sc_column_string_bytes := b\<rparr>)"
  using max_safe_integer_less(1)
  by (auto simp: push_column_def prog_defs Let_def column_schema_new_def validate_safe_integer_def
      new_column_def column_id_def)

lemma push_columns_eq:
  "n \<le> m \<Longrightarrow> m \<le> max_safe_integer \<Longrightarrow> \<exists>b. pforeach (push_column E names) [n..<m] s =
     (Inr (), s\<lparr>sc_columns := sc_columns s @ map (new_column names) [n..<m], sc_column_string_bytes := b\<rparr>)"
proof (induction "m - n" arbitrary: n s)
  case 0
  then show ?case by (auto simp: prog_defs intro: exI [of _ "sc_column_string_bytes s"])
next
  case (Suc k)
  then have n: "n < m" by simp
  obtain b where b: "push_column E names n s =
      (Inr (), s\<lparr>sc_columns := sc_columns s @ [new_column names n], sc_column_string_bytes := b\<rparr>)"
    using push_column_eq [of n E names s] n Suc.prems by auto
  let ?s = "s\<lparr>sc_columns := sc_columns s @ [new_column names n], sc_column_string_bytes := b\<rparr>"
  have "\<exists>b'. pforeach (push_column E names) [Suc n..<m] ?s =
      (Inr (), ?s\<lparr>sc_columns := sc_columns ?s @ map (new_column names) [Suc n..<m], sc_column_string_bytes := b'\<rparr>)"
    using Suc.hyps(2) Suc.prems n by (intro Suc.hyps(1)) auto
  then show ?case using n b by (auto simp: upt_conv_Cons prog_defs)
qed

lemma ensure_columns_cases:
  assumes inv: "scan_inv s"
  obtains (refused) e where "scanner_ensure_columns E count names s = (Inl e, s)" and "err_code e = ResourceLimit"
    | (enough) "scanner_ensure_columns E count names s = (Inr (), s)" and "count \<le> length (sc_columns s)"
    | (extended) b where "scanner_ensure_columns E count names s = (Inr (),
        s\<lparr>sc_columns := sc_columns s @ map (new_column names) [length (sc_columns s)..<count],
          sc_column_string_bytes := b, sc_schema_version := sc_schema_version s + 1\<rparr>)"
        and "length (sc_columns s) < count" and "count \<le> max_columns (limits (sc_options s))"
proof -
  have max: "max_columns (limits (sc_options s)) \<le> max_safe_integer"
    using inv by (simp add: scan_inv_def options_fit_def)
  have version: "sc_schema_version s + 1 \<le> u64_max"
    using inv max max_safe_integer_less(1) by (simp add: scan_inv_def columns_inv_def)
  show thesis
  proof (cases "count > max_columns (limits (sc_options s))")
    case True
    then show thesis by (intro refused) (simp add: scanner_ensure_columns_def prog_defs, simp)
  next
    case small: False
    show thesis
    proof (cases "count \<le> length (sc_columns s)")
      case True
      then show thesis using small by (intro enough) (simp_all add: scanner_ensure_columns_def prog_defs)
    next
      case False
      obtain b where "pforeach (push_column E names) [length (sc_columns s)..<count] s =
          (Inr (), s\<lparr>sc_columns := sc_columns s @ map (new_column names) [length (sc_columns s)..<count],
             sc_column_string_bytes := b\<rparr>)"
        using push_columns_eq [of "length (sc_columns s)" count E names s] small False max by auto
      then have "scanner_ensure_columns E count names s = (Inr (),
          s\<lparr>sc_columns := sc_columns s @ map (new_column names) [length (sc_columns s)..<count],
            sc_column_string_bytes := b, sc_schema_version := sc_schema_version s + 1\<rparr>)"
        using small False version by (simp add: scanner_ensure_columns_def prog_defs)
      then show thesis using small False by (intro extended) auto
    qed
  qed
qed

lemma good_columns [good]:
  assumes "scan_good s0 s" and "length (sc_columns s) < count" and "count \<le> max_columns (limits (sc_options s))"
  shows "scan_good s0 (s\<lparr>sc_columns := sc_columns s @ map (new_column names) [length (sc_columns s)..<count],
    sc_column_string_bytes := b, sc_schema_version := sc_schema_version s + 1\<rparr>)"
  using assms by (auto simp: scan_defs nth_append new_column_def)

section \<open>Operations keep the invariant\<close>

text \<open>A good scanner past its byte-order mark: the only state in which bytes are parsed.\<close>

definition scan_live :: "'r csv_scanner \<Rightarrow> 'r csv_scanner \<Rightarrow> bool" where
  "scan_live s0 s \<longleftrightarrow> scan_good s0 s \<and> sc_bom_resolved s"

definition keeps_live :: "('r, 'a) scan \<Rightarrow> bool" where
  "keeps_live m \<longleftrightarrow> (\<forall>s0 s. scan_live s0 s \<longrightarrow> wp m (\<lambda>_. scan_live s0) (\<lambda>_. scan_live s0) s)"

named_theorems keeps \<open>operations and combinators that keep a live scanner live\<close>

lemma keeps_liveI:
  "(\<And>s0 s. scan_live s0 s \<Longrightarrow> wp m (\<lambda>_. scan_live s0) (\<lambda>_. scan_live s0) s) \<Longrightarrow> keeps_live m"
  by (simp add: keeps_live_def)

lemma keeps_liveD:
  "keeps_live m \<Longrightarrow> scan_live s0 s \<Longrightarrow> wp m (\<lambda>_. scan_live s0) (\<lambda>_. scan_live s0) s"
  by (simp add: keeps_live_def)

lemma keeps_return [keeps]: "keeps_live (preturn a)"
  by (simp add: keeps_live_def wps)

lemma keeps_fail [keeps]: "keeps_live (pfail e)"
  by (simp add: keeps_live_def wps)

lemma keeps_lift [keeps]: "keeps_live (plift r)"
  by (simp add: keeps_live_def wps split: sum.splits)

lemma keeps_if [keeps]: "keeps_live m \<Longrightarrow> keeps_live n \<Longrightarrow> keeps_live (if b then m else n)"
  by simp

lemma keeps_case_prod [keeps]: "(\<And>a b. keeps_live (f a b)) \<Longrightarrow> keeps_live (case x of (a, b) \<Rightarrow> f a b)"
  by (simp split: prod.splits)

lemma keeps_case_option [keeps]:
  "keeps_live m \<Longrightarrow> (\<And>a. keeps_live (f a)) \<Longrightarrow> keeps_live (case x of None \<Rightarrow> m | Some a \<Rightarrow> f a)"
  by (simp split: option.splits)

lemma keeps_case_read [keeps]:
  "keeps_live a \<Longrightarrow> keeps_live b \<Longrightarrow> (\<And>x. keeps_live (c x)) \<Longrightarrow> keeps_live d \<Longrightarrow>
     keeps_live (case r of InputEmpty \<Rightarrow> a | OutputFull \<Rightarrow> b | FieldEnd x \<Rightarrow> c x | EndOfInput \<Rightarrow> d)"
  by (simp split: read_field_result.splits)

lemma keeps_bind [keeps]:
  assumes "keeps_live m" and "\<And>a. keeps_live (f a)"
  shows "keeps_live (pbind m f)"
  unfolding keeps_live_def wp_bind
  using assms by (blast intro: wp_mono keeps_liveD)

lemma keeps_get [keeps]: "keeps_live pget"
  by (simp add: keeps_live_def wps)

lemma keeps_foreach [keeps]: "(\<And>x. keeps_live (f x)) \<Longrightarrow> keeps_live (pforeach f xs)"
  by (induction xs) (auto intro: keeps)

lemma keeps_diagnostic [keeps]: "keeps_live (scanner_diagnostic d)"
  by (intro keeps_liveI)
    (auto simp: scanner_diagnostic_def wps scan_live_def intro: good split: sum.splits)

lemma keeps_append_field [keeps]: "keeps_live (scanner_append_field bytes)"
  by (intro keeps_liveI)
    (auto simp: scanner_append_field_def wps scan_live_def intro!: good split: sum.splits)

lemma keeps_read [keeps]: "keeps_live (scanner_read E input)"
  by (intro keeps_liveI)
    (auto simp: scanner_read_def wp_def scan_live_def intro: good split: prod.splits)

lemma live_field: "scan_live s0 s \<Longrightarrow> scan_live s0 (s\<lparr>sc_field := []\<rparr>)"
  by (auto simp: scan_live_def intro: good)

text \<open>The names collected for the header fit because the field count was checked first.\<close>

lemma good_next_header_name:
  assumes "scan_good s0 s" and "sc_record_fields s + 1 \<le> max_columns (limits (sc_options s))"
    and "sc_header_pending s"
  shows "scan_good s0 (s\<lparr>sc_record_fields := sc_record_fields s + 1, sc_diagnostics := ds,
      sc_header_names := sc_header_names s @ [name], sc_field := []\<rparr>) \<longleftrightarrow>
    scan_good s0 (s\<lparr>sc_diagnostics := ds\<rparr>)"
  using assms by (auto simp: scan_defs)

lemma keeps_finish_field [keeps]: "keeps_live scanner_finish_field"
proof (intro keeps_liveI)
  fix s0 s
  assume live: "scan_live s0 s"
  then have good: "scan_good s0 s" and resolved: "sc_bom_resolved s" by (auto simp: scan_live_def)
  have counted: "scan_live s0 (s\<lparr>sc_record_fields := Suc (sc_record_fields s)\<rparr>)"
    using live by (auto simp: scan_live_def intro!: good_record_fields)
  have named: "scan_live s0 (s\<lparr>sc_record_fields := Suc (sc_record_fields s), sc_diagnostics := ds,
      sc_header_names := sc_header_names s @ [name], sc_field := []\<rparr>)"
    if "scan_good s0 (s\<lparr>sc_diagnostics := ds\<rparr>)" "Suc (sc_record_fields s) \<le> max_columns (limits (sc_options s))"
      "sc_header_pending s" for ds name
    using that good_next_header_name [OF good, where ds = ds and name = name] resolved by (simp add: scan_live_def)
  have same: "s\<lparr>sc_diagnostics := sc_diagnostics s\<rparr> = s" by simp
  have unnamed: "scan_live s0 (s\<lparr>sc_record_fields := Suc (sc_record_fields s), sc_diagnostics := ds, sc_field := []\<rparr>)"
    if "scan_good s0 (s\<lparr>sc_diagnostics := ds\<rparr>)" for ds
    using that resolved by (auto simp: scan_live_def scan_defs)
  have diag: "scan_good s0 (s\<lparr>sc_diagnostics := ds\<rparr>)"
    if "retain_diagnostic (sc_options s) d (sc_diagnostics s) = Inr ds" for d ds
    using good that by (rule good_diagnostics)
  show "wp scanner_finish_field (\<lambda>_. scan_live s0) (\<lambda>_. scan_live s0) s"
    using live counted named [where ds = "sc_diagnostics s"] unnamed [where ds = "sc_diagnostics s"] good
    by (auto simp: scanner_finish_field_def scanner_diagnostic_def wps not_less
        intro!: named unnamed diag split: sum.splits)
qed

text \<open>
  Between the checkpoint of a data record and its count: the row is not counted yet but a
  checkpoint for it is there when one is due.
\<close>

definition row_listed :: "'r csv_scanner \<Rightarrow> nat \<Rightarrow> 'r csv_scanner \<Rightarrow> bool" where
  "row_listed s0 row s \<longleftrightarrow> scan_live s0 s \<and> sc_rows s = row \<and>
     (row mod checkpoint_interval (sc_options s) = 0 \<longrightarrow> row \<in> ck_row ` set (sc_checkpoints s))"

lemma ensure_columns_wp:
  assumes "scan_inv s"
    and "Q () s"
    and "\<And>b. length (sc_columns s) < count \<Longrightarrow> count \<le> max_columns (limits (sc_options s)) \<Longrightarrow>
      Q () (s\<lparr>sc_columns := sc_columns s @ map (new_column names) [length (sc_columns s)..<count],
        sc_column_string_bytes := b, sc_schema_version := sc_schema_version s + 1\<rparr>)"
    and "\<And>e. err_code e = ResourceLimit \<Longrightarrow> F e s"
  shows "wp (scanner_ensure_columns E count names) Q F s"
  using assms(1) by (cases rule: ensure_columns_cases [where E = E and count = count and names = names])
    (use assms in \<open>simp_all add: wp_def\<close>)

lemma keeps_ensure_columns [keeps]: "keeps_live (scanner_ensure_columns E count names)"
proof (intro keeps_liveI)
  fix s0 s :: "'a csv_scanner"
  assume live: "scan_live s0 s"
  then have "scan_inv s" by (simp add: scan_live_def scan_good_def)
  then show "wp (scanner_ensure_columns E count names) (\<lambda>_. scan_live s0) (\<lambda>_. scan_live s0) s"
    by (rule ensure_columns_wp)
      (use live good_columns [of s0 s count, where names = names] in \<open>simp_all add: scan_live_def\<close>)
qed

lemma row_listed_ensure:
  assumes "row_listed s0 row s"
  shows "wp (scanner_ensure_columns E count names) (\<lambda>_. row_listed s0 row) (\<lambda>_. scan_live s0) s"
proof -
  have "scan_inv s" using assms by (simp add: row_listed_def scan_live_def scan_good_def)
  then show ?thesis
    by (rule ensure_columns_wp)
      (use assms good_columns [of s0 s count, where names = names] in \<open>simp_all add: row_listed_def scan_live_def\<close>)
qed

lemma row_listed_diagnostic:
  assumes "row_listed s0 row s"
  shows "wp (scanner_diagnostic d) (\<lambda>_. row_listed s0 row) (\<lambda>_. scan_live s0) s"
  using assms
  by (auto simp: scanner_diagnostic_def wps row_listed_def scan_live_def intro: good split: sum.splits)

lemma row_listed_checkpoint:
  assumes "scan_live s0 s"
  shows "wp (if sc_rows s mod checkpoint_interval (sc_options s) = 0
      then pmodify (\<lambda>s. s\<lparr>sc_checkpoints := sc_checkpoints s @
             [\<lparr>ck_row = sc_rows s, ck_byte_offset = sc_record_start_offset s\<rparr>]\<rparr>)
      else preturn ())
    (\<lambda>_. row_listed s0 (sc_rows s)) (\<lambda>_. scan_live s0) s"
  using assms good_checkpoint [of s0 s] by (simp add: wps row_listed_def scan_live_def)

lemma row_listed_count:
  assumes "row_listed s0 row s"
  shows "wp (pbind (plift (ok_or (checked_add row 1) e)) (\<lambda>rows. pmodify (\<lambda>s. s\<lparr>sc_rows := rows\<rparr>)))
    (\<lambda>_. scan_live s0) (\<lambda>_. scan_live s0) s"
  using assms good_rows [of s0 s]
  by (auto simp: wps row_listed_def scan_live_def split: sum.splits)

lemma row_listed_live: "row_listed s0 row s \<Longrightarrow> scan_live s0 s"
  by (simp add: row_listed_def)

lemma keeps_data_record [keeps]: "keeps_live (scanner_data_record E n)"
proof (intro keeps_liveI)
  fix s0 s :: "'a csv_scanner"
  assume live: "scan_live s0 s"
  let ?columns = "if sc_columns s = [] then scanner_ensure_columns E n None
      else if n \<noteq> length (sc_columns s)
      then pbind (scanner_diagnostic (csv_diagnostic_new RaggedRow (Some (sc_rows s))
             (sc_record_start_offset s)
             (''row has '' @ nat_to_dec n @ '' fields but the current schema has '' @
              nat_to_dec (length (sc_columns s))))) (\<lambda>_.
           if n > length (sc_columns s) then scanner_ensure_columns E n None else preturn ())
      else preturn ()"
  have columns: "wp ?columns (\<lambda>_. row_listed s0 (sc_rows s)) (\<lambda>_. scan_live s0) t"
    if "row_listed s0 (sc_rows s) t" for t
  proof -
    have "wp (if n > length (sc_columns s) then scanner_ensure_columns E n None else preturn ())
        (\<lambda>_. row_listed s0 (sc_rows s)) (\<lambda>_. scan_live s0) u" if "row_listed s0 (sc_rows s) u" for u
      using that by (simp add: wps row_listed_ensure)
    then show ?thesis
      using that row_listed_ensure [OF that] wp_mono [OF row_listed_diagnostic [OF that]]
      by (simp add: wps)
  qed
  show "wp (scanner_data_record E n) (\<lambda>_. scan_live s0) (\<lambda>_. scan_live s0) s"
    unfolding scanner_data_record_def wp_bind [of pget] wp_get
    unfolding wp_bind [of "if sc_rows s mod _ = 0 then _ else _"] wp_bind [of ?columns]
    by (rule wp_mono [OF row_listed_checkpoint [OF live]], rule wp_mono [OF columns])
      (assumption | rule row_listed_count)+
qed

lemma keeps_finish_record [keeps]: "keeps_live (scanner_finish_record E)"
proof (intro keeps_liveI)
  fix s0 s :: "'a csv_scanner"
  assume live: "scan_live s0 s"
  have started: "scan_live s0 (t\<lparr>sc_record_start_offset := sc_parser_offset t\<rparr>)" if "scan_live s0 t" for t
    using that by (auto simp: scan_live_def intro: good)
  show "wp (scanner_finish_record E) (\<lambda>_. scan_live s0) (\<lambda>_. scan_live s0) s"
  proof (cases "sc_header_pending s")
    case True
    let ?t = "s\<lparr>sc_record_fields := 0, sc_header_names := []\<rparr>"
    have names: "scan_live s0 ?t" using live by (auto simp: scan_live_def scan_defs)
    then have inv: "scan_inv ?t" by (simp add: scan_live_def scan_good_def)
    have "wp (scanner_ensure_columns E n h) (\<lambda>_ t. scan_live s0 t \<and> sc_header_names t = [])
        (\<lambda>_. scan_live s0) ?t" for n h
      by (rule ensure_columns_wp [OF inv])
        (use names good_columns [of s0 ?t n, where names = h] in \<open>simp_all add: scan_live_def\<close>)
    then have "wp (scanner_ensure_columns E n h) (\<lambda>_ t. scan_live s0
        (t\<lparr>sc_header_pending := False, sc_record_start_offset := sc_parser_offset t\<rparr>)) (\<lambda>_. scan_live s0) ?t" for n h
    proof (rule wp_mono)
      fix t :: "'a csv_scanner"
      assume "scan_live s0 t \<and> sc_header_names t = []"
      then have "scan_live s0 (t\<lparr>sc_header_pending := False\<rparr>)" by (auto simp: scan_live_def intro: good)
      from started [OF this]
      show "scan_live s0 (t\<lparr>sc_header_pending := False, sc_record_start_offset := sc_parser_offset t\<rparr>)"
        by simp
    qed
    then show ?thesis using True by (simp add: scanner_finish_record_def wps wlps)
  next
    case False
    let ?t = "s\<lparr>sc_record_fields := 0\<rparr>"
    have "scan_live s0 ?t" using live False by (auto simp: scan_live_def scan_defs)
    then have "wp (scanner_data_record E n) (\<lambda>_ t. scan_live s0
        (t\<lparr>sc_record_start_offset := sc_parser_offset t\<rparr>)) (\<lambda>_. scan_live s0) ?t" for n
      by (rule wp_mono [OF keeps_liveD [OF keeps_data_record]]) (auto intro: started)
    then show ?thesis using False by (simp add: scanner_finish_record_def wps wlps)
  qed
qed

lemma keeps_field_end [keeps]: "keeps_live (scanner_field_end E record_end)"
  unfolding scanner_field_end_def by (intro keeps)

lemma keeps_advance [keeps]: "keeps_live (scanner_advance n)"
  by (intro keeps_liveI)
    (auto simp: scanner_advance_def wps scan_live_def intro: good split: sum.splits)

lemma keeps_answer [keeps]: "keeps_live (scanner_answer E result stuck rest)"
  unfolding scanner_answer_def Let_def by (intro keeps)

lemma keeps_finished [keeps]: "keeps_live (pmodify (\<lambda>s. s\<lparr>sc_finished := True\<rparr>))"
  by (intro keeps_liveI) (auto simp: wps scan_live_def intro: good)

lemma keeps_unclosed_quote [keeps]: "keeps_live scanner_unclosed_quote"
  unfolding scanner_unclosed_quote_def by (intro keeps)

text \<open>The same for operations that may not return: whenever they do, the scanner is live.\<close>

definition loop_keeps_live :: "('r, 'a) scan_loop \<Rightarrow> bool" where
  "loop_keeps_live m \<longleftrightarrow> (\<forall>s0 s. scan_live s0 s \<longrightarrow> wlp m (\<lambda>_. scan_live s0) (\<lambda>_. scan_live s0) s)"

named_theorems loop_keeps \<open>looping operations that keep a live scanner live\<close>

lemma loop_keeps_liveD:
  "loop_keeps_live m \<Longrightarrow> scan_live s0 s \<Longrightarrow> wlp m (\<lambda>_. scan_live s0) (\<lambda>_. scan_live s0) s"
  by (simp add: loop_keeps_live_def)

lemma loop_keeps_run [loop_keeps]: "keeps_live m \<Longrightarrow> loop_keeps_live (lrun m)"
  by (simp add: loop_keeps_live_def keeps_live_def wlps)

lemma loop_keeps_slice [loop_keeps]: "loop_keeps_live (lslice b)"
  by (simp add: loop_keeps_live_def wlps)

lemma loop_keeps_bind [loop_keeps]:
  assumes "loop_keeps_live m" and "\<And>a. loop_keeps_live (f a)"
  shows "loop_keeps_live (lbind m f)"
  unfolding loop_keeps_live_def wlp_bind
  using assms by (blast intro: wlp_mono loop_keeps_liveD)

lemma loop_keeps_case_prod [loop_keeps]:
  "(\<And>a b. loop_keeps_live (f a b)) \<Longrightarrow> loop_keeps_live (case x of (a, b) \<Rightarrow> f a b)"
  by (simp split: prod.splits)

lemma loop_keeps_case_read [loop_keeps]:
  "loop_keeps_live a \<Longrightarrow> loop_keeps_live b \<Longrightarrow> (\<And>x. loop_keeps_live (c x)) \<Longrightarrow> loop_keeps_live d \<Longrightarrow>
     loop_keeps_live (case r of InputEmpty \<Rightarrow> a | OutputFull \<Rightarrow> b | FieldEnd x \<Rightarrow> c x | EndOfInput \<Rightarrow> d)"
  by (simp split: read_field_result.splits)

lemma loop_keeps_turn: "loop_keeps_live (scanner_turn E input)"
  unfolding scanner_turn_def by (intro loop_keeps keeps)

lemma loop_keeps_finish_loop: "loop_keeps_live (scanner_finish_loop E n)"
proof (induction n)
  case 0
  show ?case unfolding scanner_finish_loop.simps by (intro loop_keeps keeps)
next
  case (Suc n)
  show ?case unfolding scanner_finish_loop.simps by (intro loop_keeps keeps Suc.IH)
qed

lemma loop_keeps_finish: "loop_keeps_live (scanner_finish E)"
  unfolding scanner_finish_def by (intro loop_keeps keeps loop_keeps_finish_loop)

lemma keeps_lexical [keeps]: "keeps_live (pmodify (\<lambda>s. s\<lparr>sc_lexical := t\<rparr>))"
  by (intro keeps_liveI) (auto simp: wps scan_live_def intro: good)

text \<open>A whole chunk, partial correctness.\<close>

lemma live_process_bytes:
  assumes "scan_live s0 s"
  shows "wlp (scanner_process_bytes E base bytes) (\<lambda>_. scan_live s0) (\<lambda>_. scan_live s0) s"
proof -
  let ?head = "pbind pget (\<lambda>s.
       if base \<noteq> sc_parser_offset s
       then pfail (with_detail (with_detail
              (new_error InvalidArgument
                 ''parser input does not begin at the expected absolute offset'')
              ''expectedOffset'' (DetailNumber (sc_parser_offset s)))
              ''actualOffset'' (DetailNumber base))
       else case quote_consume base bytes (sc_lexical s) of (issues, lexical) \<Rightarrow>
         pbind (pmodify (\<lambda>s. s\<lparr>sc_lexical := lexical\<rparr>)) (\<lambda>_.
         pforeach (\<lambda>issue. scanner_diagnostic (csv_diagnostic_new MalformedQuote None
           (issue_offset issue) (issue_message issue))) issues))"
  have head: "keeps_live ?head"
    by (intro keeps)
  have loop: "wlp (ploop (scanner_turn E) bytes) (\<lambda>_. scan_live s0) (\<lambda>_. scan_live s0) t"
    if "scan_live s0 t" for t
  proof (rule wlp_loop [where I = "\<lambda>_. scan_live s0"])
    show "scan_live s0 t" by (rule that)
    fix x u assume "scan_live s0 u"
    then show "wlp (scanner_turn E x) (\<lambda>nxt s'. case nxt of None \<Rightarrow> scan_live s0 s' | Some x' \<Rightarrow> scan_live s0 s')
        (\<lambda>_. scan_live s0) u"
      by (rule wlp_mono [OF loop_keeps_liveD [OF loop_keeps_turn]]) (auto split: option.splits)
  qed
  show ?thesis
    unfolding scanner_process_bytes_def wlp_bind wlp_run
    by (rule wp_mono [OF keeps_liveD [OF head assms]]) (auto simp: wlps wps intro: loop)
qed

end
