(* ===== verification/Csv_Scanning.thy ===== *)
theory Csv_Scanning
  imports Csv_Scan_Invariant
begin

text \<open>
  Whole calls of \<open>CsvScanner\<close> (src/src/csv.rs): feeding chunks keeps the invariant whatever
  the outcome, ends when the external reader makes progress, and the range plans made from
  any state it can reach start at the nearest checkpoint.
\<close>

section \<open>Feeding keeps a scanner good\<close>

lemma good_accept:
  "scan_good s0 s \<Longrightarrow> wp (scanner_accept offset bytes) (\<lambda>_. scan_good s0) (\<lambda>_. scan_good s0) s"
  by (auto simp: scanner_accept_def wps intro: good split: sum.splits)

lemma live_good: "scan_live s0 s \<Longrightarrow> scan_good s0 s"
  by (simp add: scan_live_def)

lemma good_process_bytes:
  assumes "scan_good s0 s" and "sc_bom_resolved s"
  shows "wlp (scanner_process_bytes E base bytes) (\<lambda>_. scan_live s0) (\<lambda>_. scan_good s0) s"
  using assms by (auto intro: wlp_mono [OF live_process_bytes] live_good simp: scan_live_def)

lemma good_resolve_bom:
  assumes "scan_good s0 s"
  shows "wlp (scanner_resolve_bom E bytes eof) (\<lambda>_. scan_good s0) (\<lambda>_. scan_good s0) s"
proof (cases "sc_bom_resolved s")
  case True
  then show ?thesis using assms by (simp add: scanner_resolve_bom_def wlps wps)
next
  case False
  obtain prefix rest where taken: "bom_take (sc_bom_prefix s) bytes = (prefix, rest)"
    by (cases "bom_take (sc_bom_prefix s) bytes")
  have processed: "wlp (scanner_process_bytes E 0 prefix) (\<lambda>_. scan_good s0) (\<lambda>_. scan_good s0)
      (s\<lparr>sc_bom_resolved := True, sc_bom_prefix := []\<rparr>)"
    by (rule wlp_mono [OF good_process_bytes [OF good_resolved [OF assms]]]) (auto intro: live_good)
  show ?thesis
    using assms False good_bom [OF assms False] processed good_prefix [OF assms, of prefix]
    by (simp add: scanner_resolve_bom_def wlps wps taken)
qed

lemma good_finish:
  "scan_live s0 s \<Longrightarrow> wlp (scanner_finish E) (\<lambda>_. scan_good s0) (\<lambda>_. scan_good s0) s"
  by (rule wlp_mono [OF loop_keeps_liveD [OF loop_keeps_finish]]) (auto intro: live_good)

lemma good_parse_rest:
  assumes "scan_good s0 s"
  shows "wlp (scanner_parse_rest E offset bytes rest) (\<lambda>_. scan_good s0) (\<lambda>_. scan_good s0) s"
proof (cases "sc_bom_resolved s")
  case True
  have "wlp (scanner_process_bytes E base rest) (\<lambda>_. scan_good s0) (\<lambda>_. scan_good s0) s" for base
    by (rule wlp_mono [OF good_process_bytes [OF assms True]]) (auto intro: live_good)
  then show ?thesis using assms by (simp add: scanner_parse_rest_def wlps wps)
next
  case False
  then show ?thesis using assms by (simp add: scanner_parse_rest_def wlps wps)
qed

lemma good_end_of_file:
  assumes "scan_good s0 s"
  shows "wlp (scanner_end_of_file E) (\<lambda>_. scan_good s0) (\<lambda>_. scan_good s0) s"
proof (cases "sc_bom_resolved s")
  case True
  then have "scan_live s0 s" using assms by (simp add: scan_live_def)
  from good_finish [OF this] True show ?thesis by (simp add: scanner_end_of_file_def wlps wps)
next
  case False
  let ?t = "s\<lparr>sc_bom_resolved := True, sc_bom_prefix := []\<rparr>"
  have "wlp (scanner_process_bytes E 0 (sc_bom_prefix s))
      (\<lambda>_. wlp (scanner_finish E) (\<lambda>_. scan_good s0) (\<lambda>_. scan_good s0)) (\<lambda>_. scan_good s0) ?t"
    by (rule wlp_mono [OF good_process_bytes [OF good_resolved [OF assms]]]) (auto intro: good_finish)
  with False show ?thesis by (simp add: scanner_end_of_file_def wlps wps)
qed

text \<open>The update a call returns describes the state it leaves.\<close>

definition update_describes :: "'r csv_scanner \<Rightarrow> scan_update \<Rightarrow> 'r csv_scanner \<Rightarrow> bool" where
  "update_describes before u t \<longleftrightarrow>
     scanner_metadata t = Inr (su_metadata u) \<and> su_bytes_scanned u = sc_bytes_received t \<and>
     su_rows_discovered u = sc_rows t \<and> su_done u = sc_finished t \<and>
     sc_checkpoints t = sc_checkpoints before @ su_checkpoints_added u \<and>
     sc_diagnostics t = sc_diagnostics before @ su_warnings u"

lemma update_wp:
  assumes "scan_good s0 t" and "sc_checkpoints before = sc_checkpoints s0"
    and "sc_diagnostics before = sc_diagnostics s0"
  shows "wp (scanner_update before) (\<lambda>u t. scan_good s0 t \<and> update_describes s0 u t) (\<lambda>_. scan_good s0) t"
proof -
  have "extends (sc_checkpoints s0) (sc_checkpoints t)" "extends (sc_diagnostics s0) (sc_diagnostics t)"
    using assms(1) by (simp_all add: scan_good_def scan_grows_def)
  then show ?thesis
    using assms by (auto simp: scanner_update_def update_describes_def extends_def wps split: sum.splits)
qed

lemma accept_frame:
  "scanner_accept offset bytes s = (r, t) \<Longrightarrow> sc_checkpoints t = sc_checkpoints s \<and> sc_diagnostics t = sc_diagnostics s"
  by (auto simp: scanner_accept_def prog_defs split: if_splits sum.splits)

lemma good_feed_chunk:
  assumes "scan_inv s"
  shows "wlp (scanner_feed_chunk E offset bytes eof)
    (\<lambda>u t. scan_good s t \<and> update_describes s u t) (\<lambda>_. scan_good s) s"
proof -
  have eof: "wlp (if eof then scanner_end_of_file E else lrun (preturn ()))
      (\<lambda>_. wp (scanner_update before) (\<lambda>u t. scan_good s t \<and> update_describes s u t) (\<lambda>_. scan_good s))
      (\<lambda>_. scan_good s) t"
    if "scan_good s t" "sc_checkpoints before = sc_checkpoints s" "sc_diagnostics before = sc_diagnostics s"
    for before t
  proof (cases eof)
    case True
    then show ?thesis
      using that by (simp, intro wlp_mono [OF good_end_of_file [OF that(1)]] update_wp)
  next
    case False
    then show ?thesis using that by (simp add: wlps wps update_wp)
  qed
  have rest: "wlp (scanner_parse_rest E offset bytes rest)
      (\<lambda>_. wlp (if eof then scanner_end_of_file E else lrun (preturn ()))
        (\<lambda>_. wp (scanner_update before) (\<lambda>u t. scan_good s t \<and> update_describes s u t) (\<lambda>_. scan_good s))
        (\<lambda>_. scan_good s)) (\<lambda>_. scan_good s) t"
    if "scan_good s t" "sc_checkpoints before = sc_checkpoints s" "sc_diagnostics before = sc_diagnostics s"
    for before t rest
    using that by (intro wlp_mono [OF good_parse_rest [OF that(1)]] eof)
  have start: "wp (scanner_accept offset bytes) (\<lambda>_ t. scan_good s t \<and>
      sc_checkpoints t = sc_checkpoints s \<and> sc_diagnostics t = sc_diagnostics s) (\<lambda>_. scan_good s) s"
    using good_accept [OF good_refl [OF assms], of offset bytes] accept_frame [of offset bytes s]
    by (auto simp: wp_def split: prod.splits sum.splits)
  show ?thesis
    unfolding scanner_feed_chunk_def wlp_bind wlp_run wp_get_fun
  proof (rule wp_mono [OF start])
    fix t assume t: "scan_good s t \<and> sc_checkpoints t = sc_checkpoints s \<and> sc_diagnostics t = sc_diagnostics s"
    then have "scan_good s t" by blast
    then have "wlp (scanner_resolve_bom E bytes eof) (\<lambda>_. scan_good s) (\<lambda>_. scan_good s) t"
      by (rule good_resolve_bom)
    then show "wlp (scanner_resolve_bom E bytes eof) (\<lambda>x. wlp (scanner_parse_rest E offset bytes x)
        (\<lambda>_. wlp (if eof then scanner_end_of_file E else lrun (preturn ()))
          (\<lambda>_. wp (scanner_update t) (\<lambda>u t. scan_good s t \<and> update_describes s u t) (\<lambda>_. scan_good s))
          (\<lambda>_. scan_good s)) (\<lambda>_. scan_good s)) (\<lambda>_. scan_good s) t"
      by (rule wlp_mono) (use t rest in blast)+
  qed
qed

section \<open>Runs\<close>

text \<open>A caller's view: chunks in any order, with any outcome; a call that never returns
  leaves no state to look at.\<close>

datatype scan_call = ScanChunk nat "byte list" bool

fun scan_step :: "'r csv_env \<Rightarrow> scan_call \<Rightarrow> 'r csv_scanner \<Rightarrow> 'r csv_scanner" where
  "scan_step E (ScanChunk offset bytes eof) s =
     (case scanner_feed_chunk E offset bytes eof s of None \<Rightarrow> s | Some (_, s') \<Rightarrow> s')"

lemma feed_chunk_good:
  assumes "scan_inv s" and "scanner_feed_chunk E offset bytes eof s = Some (r, t)"
  shows "scan_good s t"
  using good_feed_chunk [OF assms(1), of E offset bytes eof] assms(2)
  by (cases r) (auto simp: wlp_def)

lemma scan_step_good: "scan_inv s \<Longrightarrow> scan_good s (scan_step E call s)"
  by (cases call) (auto simp: good_refl feed_chunk_good split: option.splits)

interpretation scans: step_machine "scan_step E" scan_inv for E
  by unfold_locales (rule good_inv [OF scan_step_good])

lemma scanner_new_inv:
  assumes "scanner_new E opts = Inr s" and "max_columns (limits opts) \<le> max_safe_integer"
  shows "scan_inv s"
proof -
  have "is_ok (options_validate opts)" using assms(1) by (auto simp: scanner_new_def is_ok_iff)
  moreover have "s = \<lparr>sc_options = opts, sc_reader = env_build_reader E (delimiter opts),
          sc_lexical = quote_tracker_new (delimiter opts), sc_bom_prefix = [],
          sc_bom_resolved = False, sc_bytes_received = 0, sc_parser_offset = 0,
          sc_record_start_offset = 0, sc_field = [], sc_record_fields = 0, sc_header_names = [],
          sc_header_pending = header opts, sc_rows = 0, sc_columns = [],
          sc_column_string_bytes = 0, sc_schema_version = 0, sc_checkpoints = [],
          sc_diagnostics = [], sc_finished = False\<rparr>"
    using assms(1) by (auto simp: scanner_new_def)
  ultimately show ?thesis
    using assms(2) by (simp add: scan_inv_def index_inv_def columns_inv_def buffers_inv_def options_fit_def)
qed

lemma grows_trans: "scan_grows a b \<Longrightarrow> scan_grows b c \<Longrightarrow> scan_grows a c"
  by (fastforce simp: scan_grows_def extends_def)

lemma scan_run_grows: "scan_inv s \<Longrightarrow> scan_grows s (fold (scan_step E) calls s)"
proof (induction calls arbitrary: s)
  case Nil
  then show ?case using good_refl by (auto simp: scan_good_def)
next
  case (Cons call calls)
  have "scan_good s (scan_step E call s)" using Cons.prems by (rule scan_step_good)
  then have "scan_grows s (scan_step E call s)" "scan_inv (scan_step E call s)"
    by (simp_all add: scan_good_def)
  then show ?case using Cons.IH [of "scan_step E call s"] by (simp add: grows_trans)
qed

section \<open>Range plans\<close>

lemma last_at_most:
  assumes "sorted (map f xs)" and "k \<in> set xs" and "f k \<le> (r :: nat)"
  shows "0 < length (takeWhile (\<lambda>x. f x \<le> r) xs) \<and>
    f k \<le> f (xs ! (length (takeWhile (\<lambda>x. f x \<le> r) xs) - 1)) \<and>
    f (xs ! (length (takeWhile (\<lambda>x. f x \<le> r) xs) - 1)) \<le> r"
proof -
  let ?n = "length (takeWhile (\<lambda>x. f x \<le> r) xs)"
  obtain i where i: "i < length xs" "xs ! i = k" using assms(2) by (auto simp: in_set_conv_nth)
  have "i < ?n"
  proof (rule ccontr)
    assume "\<not> i < ?n"
    then have "?n < length xs" using i by simp
    then have "r < f (xs ! ?n)" using nth_length_takeWhile_not [of "\<lambda>x. f x \<le> r" xs] by simp
    also have "f (xs ! ?n) \<le> f (xs ! i)"
      using sorted_nth_mono [OF assms(1), of ?n i] i \<open>\<not> i < ?n\<close> by simp
    finally show False using assms(3) i by simp
  qed
  then have n: "i \<le> ?n - 1" "?n - 1 < ?n" by auto
  moreover have len: "?n \<le> length xs" by (rule length_takeWhile_le)
  moreover have "f (xs ! (?n - 1)) \<le> r"
    using n by (metis nth_mem set_takeWhileD takeWhile_nth)
  moreover have "f (xs ! i) \<le> f (xs ! (?n - 1))"
    using sorted_nth_mono [OF assms(1), of i "?n - 1"] n len by simp
  ultimately show ?thesis using \<open>i < ?n\<close> i by auto
qed

lemma plan_checkpoint_row:
  assumes inv: "scan_inv s" and plan: "scanner_plan_range s request = Inr p"
    and row: "row_start request < sc_rows s"
  shows "plan_checkpoint p \<in> set (sc_checkpoints s) \<and>
    ck_row (plan_checkpoint p) = row_start request - row_start request mod checkpoint_interval (sc_options s)"
proof -
  let ?k = "checkpoint_interval (sc_options s)" and ?r = "row_start request"
  let ?n = "length (takeWhile (\<lambda>c. ck_row c \<le> ?r) (sc_checkpoints s))"
  note index = inv [unfolded scan_inv_def index_inv_def]
  have "(?r - ?r mod ?k) mod ?k = 0" by (simp add: minus_mod_eq_mult_div)
  moreover have "?r - ?r mod ?k < sc_rows s" using row by simp
  ultimately obtain c where c: "c \<in> set (sc_checkpoints s)" "ck_row c = ?r - ?r mod ?k"
    using index by force
  have near: "0 < ?n" "?r - ?r mod ?k \<le> ck_row (sc_checkpoints s ! (?n - 1))"
    "ck_row (sc_checkpoints s ! (?n - 1)) \<le> ?r"
    using last_at_most [of ck_row "sc_checkpoints s" c ?r] index c by auto
  have len: "?n - 1 < length (sc_checkpoints s)"
    using near(1) length_takeWhile_le [of "\<lambda>c. ck_row c \<le> ?r" "sc_checkpoints s"] by linarith
  have p: "plan_checkpoint p = sc_checkpoints s ! (?n - 1)"
    using plan near(1) len
    by (auto simp: scanner_plan_range_def partition_point_def Let_def checked_sub_def Suc_le_eq
        simp del: length_greater_0_conv split: if_splits)
  have "ck_row (sc_checkpoints s ! (?n - 1)) mod ?k = 0" using index len nth_mem by blast
  then obtain q where q: "ck_row (sc_checkpoints s ! (?n - 1)) = q * ?k"
    by (metis mod_0_imp_dvd dvd_def mult.commute)
  have "0 < ?k" using inv by (auto simp: scan_inv_def options_fit_def options_validate_def split: if_splits)
  then have "q = ?r div ?k"
    using near(2,3) unfolding q minus_mod_eq_div_mult
    by (metis div_le_mono le_antisym nonzero_mult_div_cancel_right not_gr_zero)
  then have "ck_row (plan_checkpoint p) = ?r - ?r mod ?k"
    unfolding p q by (simp add: minus_mod_eq_div_mult)
  with p len show ?thesis using nth_mem by simp
qed

section \<open>Termination\<close>

lemma scanner_read_eq:
  "scanner_read E input s = (Inr a, t) \<Longrightarrow> \<exists>r. env_read_field E (sc_reader s) input field_scratch_bytes = (a, r)"
  by (auto simp: scanner_read_def split: prod.splits)

lemma reader_answer:
  assumes "reader_progress E" and "scanner_read E input s = (Inr (result, consumed, written), t)"
  shows "consumed \<le> length input" "length written \<le> field_scratch_bytes" "input \<noteq> [] \<Longrightarrow> 0 < consumed"
  using assms(1) scanner_read_eq [OF assms(2)]
  unfolding reader_progress_def field_scratch_bytes_def by fastforce+

lemma turn_returns:
  assumes "reader_progress E"
  shows "returns (scanner_turn E input) s"
  unfolding scanner_turn_def
  by (auto intro!: returns_bind dest: reader_answer [OF assms] split: prod.splits)

lemma answer_next:
  "scanner_answer E result stuck rest s = (Inr (Some rest'), t) \<Longrightarrow> rest' = rest \<and> rest \<noteq> []"
  by (auto simp: scanner_answer_def prog_defs Let_def split: prod.splits sum.splits read_field_result.splits if_splits)

lemma turn_next:
  assumes "reader_progress E" and "input \<noteq> []" and "scanner_turn E input s = Some (Inr (Some rest), t)"
  shows "rest \<noteq> [] \<and> length rest < length input"
proof -
  obtain result consumed written u v where read: "scanner_read E input s = (Inr (result, consumed, written), u)"
    and answer: "scanner_answer E result (consumed = 0 \<and> written = []) (drop consumed input) v
      = (Inr (Some rest), t)"
    using assms(3)
    by (auto simp: scanner_turn_def lbind_def lrun_def lslice_def split: prod.splits sum.splits if_splits)
  then show ?thesis
    using assms(2) reader_answer [OF assms(1) read] answer_next [OF answer] by (cases input) auto
qed

lemma finish_loop_returns:
  assumes "reader_progress E"
  shows "returns (scanner_finish_loop E n) s"
proof (induction n arbitrary: s)
  case 0
  show ?case by simp
next
  case (Suc n)
  then show ?case
    by (auto intro!: returns_bind dest: reader_answer [OF assms]
        split: prod.splits read_field_result.splits)
qed

lemma finish_returns: "reader_progress E \<Longrightarrow> returns (scanner_finish E) s"
  unfolding scanner_finish_def by (intro returns_bind finish_loop_returns) auto

lemma process_bytes_returns:
  assumes "reader_progress E"
  shows "returns (scanner_process_bytes E base bytes) s"
proof -
  have "returns (ploop (scanner_turn E) bytes) t" if "bytes \<noteq> []" for t
    by (rule ploop_returns [where I = "\<lambda>x _. x \<noteq> []" and m = length])
      (use that turn_next [OF assms] turn_returns [OF assms] in auto)
  then show ?thesis
    unfolding scanner_process_bytes_def by (intro returns_bind) auto
qed

lemma feed_chunk_returns:
  assumes "reader_progress E"
  shows "returns (scanner_feed_chunk E offset bytes eof) s"
proof -
  note process = process_bytes_returns [OF assms]
  have "returns (scanner_resolve_bom E bytes eof) t" for t
    unfolding scanner_resolve_bom_def by (intro returns_bind) (auto intro!: returns_bind process split: prod.splits)
  moreover have "returns (scanner_parse_rest E offset bytes rest) t" for rest t
    unfolding scanner_parse_rest_def by (intro returns_bind) (auto intro: process)
  moreover have "returns (scanner_end_of_file E) t" for t
    unfolding scanner_end_of_file_def
    by (intro returns_bind) (auto intro!: returns_bind process finish_returns [OF assms])
  ultimately show ?thesis
    unfolding scanner_feed_chunk_def by (intro returns_bind) auto
qed

section \<open>A concrete reader\<close>

text \<open>Fields without quotes, ended by a comma or a line feed: enough for concrete runs.\<close>

definition plain_read_field :: "unit \<Rightarrow> byte list \<Rightarrow> nat \<Rightarrow> (read_field_result \<times> nat \<times> byte list) \<times> unit" where
  "plain_read_field r input n =
     (let text = takeWhile (\<lambda>b. b \<noteq> 0x2C \<and> b \<noteq> 0x0A) (take n input) in
      if input = [] then ((EndOfInput, 0, []), ())
      else if length text = length input then ((InputEmpty, length input, text), ())
      else if length text = n then ((OutputFull, n, text), ())
      else ((FieldEnd (input ! length text = 0x0A), length text + 1, text), ()))"

definition plain_env :: "unit csv_env" where
  "plain_env = \<lparr>env_build_reader = (\<lambda>_. ()), env_read_field = plain_read_field, env_string_capacity = length\<rparr>"

lemma plain_env_progress: "reader_progress plain_env"
  unfolding reader_progress_def
proof (intro allI impI)
  fix r :: unit and input :: "byte list" and n and result :: read_field_result and consumed written r'
  assume read: "env_read_field plain_env r input n = ((result, consumed, written), r')"
  let ?text = "takeWhile (\<lambda>b. b \<noteq> 0x2C \<and> b \<noteq> 0x0A) (take n input)"
  have short: "length ?text \<le> n" "length ?text \<le> length input"
    using length_takeWhile_le [of "\<lambda>b. b \<noteq> 0x2C \<and> b \<noteq> 0x0A" "take n input"] by simp_all
  show "consumed \<le> length input \<and> length written \<le> n \<and> (input \<noteq> [] \<and> 0 < n \<longrightarrow> 0 < consumed)"
  proof (cases "input = [] \<or> length ?text = length input \<or> length ?text = n")
    case True
    then show ?thesis using read short by (auto simp: plain_env_def plain_read_field_def Let_def split: if_splits)
  next
    case False
    then have "consumed = length ?text + 1" "written = ?text"
      using read by (auto simp: plain_env_def plain_read_field_def Let_def)
    with False short show ?thesis by auto
  qed
qed

definition plain_options :: delimited_options where
  "plain_options = options_csv\<lparr>checkpoint_interval := 2, header := False\<rparr>"

definition plain_scanner :: "unit csv_scanner" where
  "plain_scanner = (case scanner_new plain_env plain_options of Inr s \<Rightarrow> s | Inl _ \<Rightarrow> undefined)"

lemma plain_scanner_new: "scanner_new plain_env plain_options = Inr plain_scanner"
  by (simp add: plain_scanner_def scanner_new_def plain_options_def options_csv_def options_validate_def
      csv_limits_default_def quote_byte_def)

lemma four_turns: "scanner_finish_loop E 4 = scanner_finish_loop E (Suc (Suc (Suc (Suc 0))))"
  by (rule arg_cong [where f = "scanner_finish_loop E"]) simp

lemmas scan_eval =
  four_turns
  scan_step.simps scanner_feed_chunk_def lbind_def lrun_def scanner_accept_def prog_defs u64_max_def
  scanner_resolve_bom_def starts_bom_def utf8_bom_def scanner_parse_rest_def scanner_process_bytes_def
  quote_step_def is_line_break_def quote_byte_def ploop.simps scanner_turn_def lslice_def scanner_answer_def scanner_unclosed_quote_def scanner_read_def
  plain_read_field_def field_scratch_bytes_def scanner_append_field_def scanner_advance_def
  scanner_field_end_def scanner_finish_field_def utf8_step_def scanner_finish_record_def
  scanner_data_record_def scanner_ensure_columns_def push_column_def Let_def column_schema_new_def
  column_name_def column_id_def max_safe_integer_def validate_safe_integer_def axis_exact_def
  axis_at_least_def schema_new_def nat_to_dec.simps digit_char_def scanner_end_of_file_def
  scanner_finish_def unclosed_quote_offset_def scanner_update_def scanner_metadata_def
  plain_scanner_def scanner_new_def plain_options_def options_csv_def options_validate_def
  csv_limits_default_def quote_tracker_new_def plain_env_def

text \<open>Three records, one a line, checkpoints every second row.\<close>

definition plain_scanned :: "unit csv_scanner" where
  "plain_scanned = fold (scan_step plain_env)
     [ScanChunk 0 [0x31, 0x0A, 0x32] False, ScanChunk 3 [0x0A, 0x33, 0x0A] True] plain_scanner"

lemma plain_scanned_eq:
  "plain_scanned = \<lparr>sc_options = plain_options, sc_reader = (),
     sc_lexical = \<lparr>qt_delimiter = 0x2C, qt_state = StartField, qt_quoted_opening = None\<rparr>,
     sc_bom_prefix = [], sc_bom_resolved = True, sc_bytes_received = 6, sc_parser_offset = 6,
     sc_record_start_offset = 6, sc_field = [], sc_record_fields = 0, sc_header_names = [],
     sc_header_pending = False, sc_rows = 3,
     sc_columns = [\<lparr>col_id = ''c0'', col_name = ''column_1'', col_index = 0, col_data_type = TUtf8,
       col_nullable = True, col_extensions = Map.empty\<rparr>],
     sc_column_string_bytes = 10, sc_schema_version = 1,
     sc_checkpoints = [\<lparr>ck_row = 0, ck_byte_offset = 0\<rparr>, \<lparr>ck_row = 2, ck_byte_offset = 4\<rparr>],
     sc_diagnostics = [], sc_finished = True\<rparr>"
  by (simp add: plain_scanned_def scan_eval saturating_add_def char_of_def bit_Suc_0_iff)

lemma plain_options_fit: "max_columns (limits plain_options) \<le> max_safe_integer"
  by (simp add: plain_options_def options_csv_def csv_limits_default_def max_safe_integer_def)

section \<open>Properties\<close>

text \<open>
  C6: Bounded decoding. For any sequence of chunks, failed ones included, a range plan that
  starts at an indexed row points at a recorded checkpoint, the last one at or before that
  row, so the decoder skips fewer rows than the checkpoint interval and never starts
  reading beyond what the parser has passed.
\<close>

theorem plan_starts_at_nearest_checkpoint:
  assumes "scanner_new E opts = Inr s0" and "max_columns (limits opts) \<le> max_safe_integer"
    and "s = fold (scan_step E) calls s0"
    and "scanner_plan_range s request = Inr p" and "row_start request < sc_rows s"
  shows "plan_checkpoint p \<in> set (sc_checkpoints s) \<and>
    ck_row (plan_checkpoint p) + plan_rows_to_skip p = row_start request \<and>
    plan_rows_to_skip p < checkpoint_interval opts \<and>
    (\<forall>c \<in> set (sc_checkpoints s). ck_row c \<le> row_start request \<longrightarrow> ck_row c \<le> ck_row (plan_checkpoint p)) \<and>
    plan_source_offset p \<le> sc_parser_offset s"
proof -
  have inv0: "scan_inv s0" using assms(1,2) by (rule scanner_new_inv)
  have inv: "scan_inv s" unfolding assms(3) by (rule scans.run_inv [OF inv0])
  have "sc_options s = sc_options s0"
    using scan_run_grows [OF inv0, of E calls] assms(3) by (simp add: scan_grows_def)
  then have opts: "sc_options s = opts" using assms(1) by (auto simp: scanner_new_def)
  let ?k = "checkpoint_interval opts" and ?r = "row_start request"
  have k: "0 < ?k"
    using inv opts by (auto simp: scan_inv_def options_fit_def options_validate_def split: if_splits)
  have p: "plan_checkpoint p \<in> set (sc_checkpoints s)" "ck_row (plan_checkpoint p) = ?r - ?r mod ?k"
    using plan_checkpoint_row [OF inv assms(4,5)] opts by auto
  have skip: "plan_rows_to_skip p = ?r - ck_row (plan_checkpoint p)"
    using assms(4) by (auto simp: scanner_plan_range_def saturating_sub_def Let_def split: if_splits)
  have "ck_row c \<le> ?r - ?r mod ?k" if c: "c \<in> set (sc_checkpoints s)" "ck_row c \<le> ?r" for c
  proof -
    have "ck_row c mod ?k = 0" using inv c(1) opts by (auto simp: scan_inv_def index_inv_def)
    then obtain q where "ck_row c = ?k * q" by (auto simp: mod_eq_0_iff_dvd elim: dvdE)
    then have "ck_row c = ck_row c div ?k * ?k" by simp
    also have "\<dots> \<le> ?r div ?k * ?k" using c(2) by (simp add: div_le_mono mult_le_mono1)
    finally show ?thesis by (simp add: minus_mod_eq_div_mult)
  qed
  moreover have "plan_source_offset p \<le> sc_parser_offset s"
    using inv p(1) by (auto simp: scan_inv_def index_inv_def plan_source_offset_def intro: order_trans)
  moreover have "plan_rows_to_skip p = ?r mod ?k" using skip p(2) mod_le_divisor [OF k] by simp
  ultimately show ?thesis using p k by (simp add: le_add_diff_inverse2)
qed

text \<open>
  C7: Whatever bytes arrive, in whatever chunks, and whatever the external reader answers,
  the scanner's buffers stay within the configured limits: the field being decoded, the
  columns, and the retained diagnostics, of which strict mode retains none; columns are
  numbered and identified by position.
\<close>

theorem scanner_within_limits:
  assumes "scanner_new E opts = Inr s0" and "max_columns (limits opts) \<le> max_safe_integer"
    and "s = fold (scan_step E) calls s0"
  shows "length (sc_field s) \<le> max_field_bytes (limits opts) \<and>
    length (sc_columns s) \<le> max_columns (limits opts) \<and>
    length (sc_diagnostics s) \<le> max_diagnostics (limits opts) \<and>
    (mode opts = Strict \<longrightarrow> sc_diagnostics s = []) \<and>
    (\<forall>i < length (sc_columns s). col_index (sc_columns s ! i) = i \<and> col_id (sc_columns s ! i) = column_id i)"
proof -
  have inv0: "scan_inv s0" using assms(1,2) by (rule scanner_new_inv)
  have inv: "scan_inv s" unfolding assms(3) by (rule scans.run_inv [OF inv0])
  have "sc_options s = sc_options s0"
    using scan_run_grows [OF inv0, of E calls] assms(3) by (simp add: scan_grows_def)
  then have "sc_options s = opts" using assms(1) by (auto simp: scanner_new_def)
  with inv show ?thesis by (auto simp: scan_inv_def columns_inv_def buffers_inv_def)
qed

text \<open>
  Metadata only grows. Between any two moments of a scan the row count does not
  decrease, the columns known before keep their place, checkpoints and diagnostics are only
  appended, end-of-file stays reached, and the schema version tells the schemas apart: an
  unchanged version means unchanged columns.
\<close>

theorem scan_only_grows:
  assumes "scanner_new E opts = Inr s0" and "max_columns (limits opts) \<le> max_safe_integer"
    and "s = fold (scan_step E) calls s0" and "t = fold (scan_step E) later s"
  shows "sc_rows s \<le> sc_rows t \<and> take (length (sc_columns s)) (sc_columns t) = sc_columns s \<and>
    take (length (sc_checkpoints s)) (sc_checkpoints t) = sc_checkpoints s \<and>
    take (length (sc_diagnostics s)) (sc_diagnostics t) = sc_diagnostics s \<and>
    (sc_finished s \<longrightarrow> sc_finished t) \<and> sc_schema_version s \<le> sc_schema_version t \<and>
    (sc_schema_version s = sc_schema_version t \<longrightarrow> sc_columns s = sc_columns t)"
proof -
  have "scan_inv s" unfolding assms(3) by (rule scans.run_inv [OF scanner_new_inv [OF assms(1,2)]])
  then have "scan_grows s t" unfolding assms(4) by (rule scan_run_grows)
  then show ?thesis by (auto simp: scan_grows_def extends_def)
qed

text \<open>
  What a successful call reports is what it did: the update's metadata, row count,
  byte count and end-of-file flag are those of the scanner afterwards, and its checkpoints
  and warnings are exactly the ones the call added.
\<close>

theorem scan_update_faithful:
  assumes "scan_inv s" and "scanner_feed_chunk E offset bytes eof s = Some (Inr u, t)"
  shows "scanner_metadata t = Inr (su_metadata u) \<and> su_bytes_scanned u = sc_bytes_received t \<and>
    su_rows_discovered u = sc_rows t \<and> su_done u = sc_finished t \<and>
    sc_checkpoints t = sc_checkpoints s @ su_checkpoints_added u \<and>
    sc_diagnostics t = sc_diagnostics s @ su_warnings u"
  using good_feed_chunk [OF assms(1), of E offset bytes eof] assms(2)
  by (simp add: wlp_def update_describes_def)

text \<open>
  A call returns, with a result or an error, for any state, offset and bytes, provided
  the external reader consumes something of a non-empty input as it documents.
\<close>

theorem feed_chunk_terminates:
  assumes "reader_progress E"
  shows "\<exists>outcome. scanner_feed_chunk E offset bytes eof s = Some outcome"
  using feed_chunk_returns [OF assms, of offset bytes eof s] by (auto simp: returns_def)

text \<open>
  Chunks must be contiguous and precede end-of-file: a chunk for a finished scanner or
  at another offset than the next expected one is refused with its own error code and
  changes nothing.
\<close>

theorem feed_chunk_refuses_out_of_order:
  assumes "sc_finished s \<or> offset \<noteq> sc_bytes_received s"
  shows "\<exists>e. scanner_feed_chunk E offset bytes eof s = Some (Inl e, s) \<and>
    err_code e = (if sc_finished s then HandleClosed else InvalidArgument)"
  using assms by (auto simp: scanner_feed_chunk_def scanner_accept_def lbind_def lrun_def prog_defs)

text \<open>Concrete runs for the hypotheses above.\<close>

definition second_row :: range_request where
  "second_row = \<lparr>row_start = 1, row_count = 1, column_start = 0, column_count = 1\<rparr>"

theorem plan_starts_at_nearest_checkpoint_witness:
  "\<exists>p. scanner_plan_range plain_scanned second_row = Inr p \<and> plan_rows_to_skip p < 2 \<and>
     plan_checkpoint p \<in> set (sc_checkpoints plain_scanned)"
proof -
  obtain p where p: "scanner_plan_range plain_scanned second_row = Inr p"
    by (simp add: plain_scanned_eq scanner_plan_range_def scanner_validate_range_def second_row_def
        plain_options_def options_csv_def csv_limits_default_def range_valid_def max_safe_integer_def
        cell_count_def column_end_def checked_end_def u64_max_def Let_def)
  have "row_start second_row < sc_rows plain_scanned" by (simp add: plain_scanned_eq second_row_def)
  from plan_starts_at_nearest_checkpoint [OF plain_scanner_new plain_options_fit plain_scanned_def p this]
  show ?thesis using p by (auto simp: plain_options_def)
qed

theorem scanner_within_limits_witness:
  "length (sc_columns plain_scanned) \<le> 16384 \<and> sc_rows plain_scanned = 3"
  using scanner_within_limits [OF plain_scanner_new plain_options_fit plain_scanned_def]
  by (auto simp: plain_scanned_eq)

theorem scan_only_grows_witness:
  "sc_rows plain_scanned \<le> sc_rows (scan_step plain_env (ScanChunk 6 [0x34] True) plain_scanned)"
  using scan_only_grows [OF plain_scanner_new plain_options_fit plain_scanned_def,
      of "scan_step plain_env (ScanChunk 6 [0x34] True) plain_scanned" "[ScanChunk 6 [0x34] True]"]
  by (simp del: scan_step.simps)

theorem feed_chunk_terminates_witness:
  "\<exists>outcome. scanner_feed_chunk plain_env 0 [0x31, 0x0A] True plain_scanner = Some outcome"
  by (rule feed_chunk_terminates [OF plain_env_progress])

theorem feed_chunk_refuses_out_of_order_witness:
  "\<exists>e. scanner_feed_chunk plain_env 0 [0x31] False plain_scanned = Some (Inl e, plain_scanned) \<and>
     err_code e = HandleClosed"
  using feed_chunk_refuses_out_of_order [of plain_scanned 0 plain_env "[0x31]" False]
  by (simp add: plain_scanned_eq)

lemma plain_scanner_inv: "scan_inv plain_scanner"
  by (rule scanner_new_inv [OF plain_scanner_new plain_options_fit])

theorem scan_update_faithful_witness:
  "\<exists>u t. scanner_feed_chunk plain_env 0 [0x31, 0x0A] True plain_scanner = Some (Inr u, t) \<and>
     su_rows_discovered u = 1 \<and> su_done u"
proof -
  obtain u t where run: "scanner_feed_chunk plain_env 0 [0x31, 0x0A] True plain_scanner = Some (Inr u, t)"
    and rows: "sc_rows t = 1" "sc_finished t"
    by (simp add: scan_eval)
  from scan_update_faithful [OF plain_scanner_inv run] rows run show ?thesis by auto
qed

end
