(* ===== verification/String_Builder.thy ===== *)
theory String_Builder
  imports Batches
begin

unbundle bit_operations_syntax

text \<open>
  \<open>StringColumnBuilder\<close> of src/src/csv.rs: one output column that grows row by row, beside
  the byte count of the whole batch. The abstraction of a builder is the list of the
  values pushed so far (\<open>builds\<close>); the finished column answers exactly them.
\<close>

section \<open>The builder\<close>

record string_column_builder =
  cb_column_id :: string
  cb_data :: "byte list"
  cb_offsets :: "nat list"
  cb_validity :: "byte list"
  cb_values :: nat

definition builder_new :: "string \<Rightarrow> string_column_builder" where
  "builder_new cid = \<lparr>cb_column_id = cid, cb_data = [], cb_offsets = [0], cb_validity = [], cb_values = 0\<rparr>"

text \<open>
  The bitmap grows by a zero byte when the value's bit lies past its end; a present value
  sets its bit. (The source indexes the byte it has just made sure of; \<open>builds\<close> shows it.)
\<close>

definition validity_mark :: "bool \<Rightarrow> nat \<Rightarrow> byte list \<Rightarrow> byte list" where
  "validity_mark present values validity =
     (let byte = values div 8;
          grown = (if length validity \<le> byte then validity @ [0] else validity)
      in if present then grown[byte := grown ! byte OR bit_mask values] else grown)"

definition value_data :: "byte list option \<Rightarrow> byte list" where
  "value_data value = (case value of None \<Rightarrow> [] | Some v \<Rightarrow> v)"

text \<open>\<open>push\<close> mutates the builder and the shared byte count of the batch.\<close>

definition builder_push ::
    "byte list option \<Rightarrow> nat \<Rightarrow> (string_column_builder \<times> nat, tabulark_error, unit) prog" where
  "builder_push value max_bytes =
     pbind pget (\<lambda>(b, batch_bytes).
     let validity_byte = (if cb_values b mod 8 = 0 then 1 else 0);
         value_bytes = length (value_data value)
     in
     pbind (plift (ok_or (Option.bind (checked_add value_bytes 4) (\<lambda>bytes. checked_add bytes validity_byte))
       (new_error ResourceLimit ''batch byte length overflow''))) (\<lambda>encoded_bytes.
     pbind (plift (ok_or (checked_add batch_bytes encoded_bytes)
       (new_error ResourceLimit ''batch byte length overflow''))) (\<lambda>new_batch_bytes.
     if new_batch_bytes > max_bytes
     then pfail (new_error ResourceLimit ''range response exceeds the configured byte limit'')
     else
       pbind (pmodify (\<lambda>(b, n). (b\<lparr>cb_data := cb_data b @ value_data value,
         cb_validity := validity_mark (value \<noteq> None) (cb_values b) (cb_validity b)\<rparr>, n))) (\<lambda>_.
       pbind pget (\<lambda>(b, _).
       pbind (plift (ok_or (u32_try_from (length (cb_data b)))
         (new_error ResourceLimit ''one encoded string column exceeds the u32 offset limit''))) (\<lambda>offset.
       pmodify (\<lambda>(b, _). (b\<lparr>cb_offsets := cb_offsets b @ [offset], cb_values := cb_values b + 1\<rparr>,
         new_batch_bytes))))))))"

definition builder_finish :: "string_column_builder \<Rightarrow> string_column_batch result" where
  "builder_finish b = string_column_batch_new (cb_column_id b) (cb_data b) (cb_offsets b) (cb_validity b)"

section \<open>What a builder stands for\<close>

definition column_data :: "byte list option list \<Rightarrow> byte list" where
  "column_data vs = concat (map value_data vs)"

definition column_offsets :: "byte list option list \<Rightarrow> nat list" where
  "column_offsets vs = map (\<lambda>i. length (column_data (take i vs))) [0..<Suc (length vs)]"

definition marks :: "byte list \<Rightarrow> byte list option list \<Rightarrow> bool" where
  "marks validity vs \<longleftrightarrow> length validity = div_ceil (length vs) 8 \<and>
     (\<forall>k < length validity. \<forall>j < 8.
        bit (validity ! k) j \<longleftrightarrow> 8 * k + j < length vs \<and> vs ! (8 * k + j) \<noteq> None)"

definition builds :: "string_column_builder \<Rightarrow> string \<Rightarrow> byte list option list \<Rightarrow> bool" where
  "builds b cid vs \<longleftrightarrow> cb_column_id b = cid \<and> cb_values b = length vs \<and> cb_data b = column_data vs \<and>
     cb_offsets b = column_offsets vs \<and> marks (cb_validity b) vs"

definition encoded_size :: "byte list option list \<Rightarrow> nat" where
  "encoded_size vs = length (column_data vs) + 4 * length vs + div_ceil (length vs) 8"

lemma column_data_snoc: "column_data (vs @ [v]) = column_data vs @ value_data v"
  by (simp add: column_data_def)

lemma column_offsets_snoc:
  "column_offsets (vs @ [v]) = column_offsets vs @ [length (column_data (vs @ [v]))]"
  by (simp add: column_offsets_def)

lemma div_ceil_Suc: "div_ceil (Suc n) 8 = div_ceil n 8 + (if n mod 8 = 0 then 1 else 0)"
  unfolding div_ceil_def by (cases "n mod 8 = 7") (auto simp: div_Suc mod_Suc)

lemma encoded_size_snoc:
  "encoded_size (vs @ [v]) = encoded_size vs + (length (value_data v) + 4 +
     (if length vs mod 8 = 0 then 1 else 0))"
  by (simp add: encoded_size_def column_data_snoc div_ceil_Suc)

lemma bit_mask_bit: "j < 8 \<Longrightarrow> bit (bit_mask n) j \<longleftrightarrow> j = n mod 8"
  by (auto simp: bit_mask_def push_bit_of_1 bit_exp_iff)

lemma bit_set_bit: "bit_set bytes i \<longleftrightarrow> bit (bytes ! (i div 8)) (i mod 8)"
  unfolding bit_set_def bit_mask_def by (simp add: bit_iff_and_push_bit_not_eq_0)

lemma marks_Nil: "marks [] []"
  by (simp add: marks_def div_ceil_def)

lemma marks_grown:
  assumes "marks validity vs"
  defines "grown \<equiv> (if length validity \<le> length vs div 8 then validity @ [0] else validity)"
  shows "length grown = div_ceil (Suc (length vs)) 8" and "length vs div 8 < length grown"
    and "\<And>k j. k < length grown \<Longrightarrow> j < 8 \<Longrightarrow>
      bit (grown ! k) j \<longleftrightarrow> 8 * k + j < length vs \<and> vs ! (8 * k + j) \<noteq> None"
proof -
  have len: "length validity = div_ceil (length vs) 8"
    and bits: "\<And>k j. k < length validity \<Longrightarrow> j < 8 \<Longrightarrow>
      bit (validity ! k) j \<longleftrightarrow> 8 * k + j < length vs \<and> vs ! (8 * k + j) \<noteq> None"
    using assms(1) by (auto simp: marks_def)
  have grown: "grown = (if length vs mod 8 = 0 then validity @ [0] else validity)"
    using len by (auto simp: grown_def div_ceil_def)
  show "length grown = div_ceil (Suc (length vs)) 8" using len by (simp add: grown div_ceil_Suc)
  show "length vs div 8 < length grown" using len by (auto simp: grown div_ceil_def)
  fix k j :: nat assume k: "k < length grown" and j: "j < 8"
  show "bit (grown ! k) j \<longleftrightarrow> 8 * k + j < length vs \<and> vs ! (8 * k + j) \<noteq> None"
  proof (cases "k < length validity")
    case True
    then show ?thesis using bits j by (simp add: grown nth_append)
  next
    case False
    then have "k = length vs div 8" and "length vs mod 8 = 0"
      using k len by (auto simp: grown div_ceil_def split: if_splits)
    then show ?thesis using False len by (auto simp: grown nth_append div_ceil_def)
  qed
qed

lemma marks_snoc:
  assumes "marks validity vs"
  shows "marks (validity_mark (v \<noteq> None) (length vs) validity) (vs @ [v])"
proof -
  let ?n = "length vs"
  define grown where "grown = (if length validity \<le> ?n div 8 then validity @ [0] else validity)"
  note g = marks_grown [OF assms, folded grown_def]
  have result: "validity_mark (v \<noteq> None) ?n validity =
      (if v \<noteq> None then grown[?n div 8 := grown ! (?n div 8) OR bit_mask ?n] else grown)"
    by (simp add: validity_mark_def grown_def Let_def)
  have here: "8 * k + j = ?n \<longleftrightarrow> k = ?n div 8 \<and> j = ?n mod 8" if "j < 8" for k j
  proof -
    have "(8 * k + j) div 8 = k" and "(8 * k + j) mod 8 = j" using that by simp_all
    moreover have "8 * (?n div 8) + ?n mod 8 = ?n" by (rule mult_div_mod_eq)
    ultimately show ?thesis by metis
  qed
  have mark: "bit (validity_mark (v \<noteq> None) ?n validity ! k) j \<longleftrightarrow>
      bit (grown ! k) j \<or> (v \<noteq> None \<and> 8 * k + j = ?n)" if "k < length grown" "j < 8" for k j
    using that unfolding result here [OF that(2)]
    by (cases "k = ?n div 8") (auto simp: bit_or_iff bit_mask_bit)
  show ?thesis
    unfolding marks_def
  proof (intro conjI allI impI)
    show "length (validity_mark (v \<noteq> None) ?n validity) = div_ceil (length (vs @ [v])) 8"
      using g(1) unfolding result by simp
  next
    fix k j :: nat
    assume k: "k < length (validity_mark (v \<noteq> None) ?n validity)" and j: "j < 8"
    then have k: "k < length grown" unfolding result by (simp split: if_splits)
    consider "8 * k + j < ?n" | "8 * k + j = ?n" | "?n < 8 * k + j" by linarith
    then show "bit (validity_mark (v \<noteq> None) ?n validity ! k) j \<longleftrightarrow>
        8 * k + j < length (vs @ [v]) \<and> (vs @ [v]) ! (8 * k + j) \<noteq> None"
      unfolding mark [OF k j] g(3) [OF k j] by cases (simp_all add: nth_append)
  qed
qed

section \<open>Pushing\<close>

lemma builds_new: "builds (builder_new cid) cid []"
  by (simp add: builds_def builder_new_def column_data_def column_offsets_def marks_Nil)

text \<open>A push succeeds exactly within the byte limit and the width of an offset.\<close>

lemma builder_push_ok:
  assumes "builds b cid vs" and "max_bytes \<le> u64_max"
    and "n + encoded_size (vs @ [v]) \<le> max_bytes + encoded_size vs"
    and "length (column_data (vs @ [v])) \<le> u32_max"
  shows "\<exists>b'. builder_push v max_bytes (b, n) =
    (Inr (), b', n + encoded_size (vs @ [v]) - encoded_size vs) \<and> builds b' cid (vs @ [v])"
  using assms marks_snoc [of "cb_validity b" vs v]
  by (auto simp: builder_push_def prog_defs builds_def encoded_size_snoc column_offsets_snoc
      column_data_snoc Let_def)

lemma builder_push_Inr:
  assumes "builder_push v max_bytes (b, n) = (Inr (), b', n')" and "builds b cid vs"
  shows "builds b' cid (vs @ [v]) \<and> n' + encoded_size vs = n + encoded_size (vs @ [v]) \<and>
    n' \<le> max_bytes \<and> length (column_data (vs @ [v])) \<le> u32_max"
  using assms marks_snoc [of "cb_validity b" vs v]
  by (auto simp: builder_push_def prog_defs builds_def encoded_size_snoc column_offsets_snoc
      column_data_snoc Let_def bind_eq_Some_conv split: option.splits if_splits prod.splits sum.splits)

definition builder_pushes ::
    "nat \<Rightarrow> byte list option list \<Rightarrow> (string_column_builder \<times> nat, tabulark_error, unit) prog" where
  "builder_pushes max_bytes vs = pforeach (\<lambda>v. builder_push v max_bytes) vs"

lemma builder_pushes_Inr:
  assumes "builder_pushes max_bytes us (b, n) = (Inr u, b', n')" and "builds b cid vs"
  shows "builds b' cid (vs @ us) \<and> n' + encoded_size vs = n + encoded_size (vs @ us) \<and>
    (us \<noteq> [] \<longrightarrow> n' \<le> max_bytes \<and> length (column_data (vs @ us)) \<le> u32_max)"
  using assms
proof (induction us arbitrary: b n vs)
  case Nil
  then show ?case by (simp add: builder_pushes_def preturn_def)
next
  case (Cons v us)
  obtain b1 n1 where push: "builder_push v max_bytes (b, n) = (Inr (), b1, n1)"
    and rest: "builder_pushes max_bytes us (b1, n1) = (Inr u, b', n')"
    using Cons.prems(1) by (auto simp: builder_pushes_def pbind_def split: prod.splits sum.splits)
  note one = builder_push_Inr [OF push Cons.prems(2)]
  then have "builds b1 cid (vs @ [v])" by simp
  from Cons.IH [OF rest this] one show ?case
    by (cases "us = []") (auto simp: rest builder_pushes_def preturn_def)
qed

lemma encoded_size_mono: "encoded_size vs \<le> encoded_size (vs @ us)"
proof (induction us rule: rev_induct)
  case (snoc u us)
  then show ?case by (simp add: encoded_size_snoc flip: append_assoc)
qed simp

lemma builder_pushes_ok:
  assumes "builds b cid vs" and "max_bytes \<le> u64_max"
    and "n + encoded_size (vs @ us) \<le> max_bytes + encoded_size vs"
    and "length (column_data (vs @ us)) \<le> u32_max"
  shows "\<exists>b' n'. builder_pushes max_bytes us (b, n) = (Inr (), b', n')"
  using assms
proof (induction us arbitrary: b n vs)
  case Nil
  then show ?case by (simp add: builder_pushes_def preturn_def)
next
  case (Cons v us)
  let ?n1 = "n + encoded_size (vs @ [v]) - encoded_size vs"
  have "encoded_size (vs @ [v]) \<le> encoded_size (vs @ v # us)"
    using encoded_size_mono [of "vs @ [v]" us] by simp
  moreover have "length (column_data (vs @ [v])) \<le> length (column_data (vs @ v # us))"
    by (simp add: column_data_def)
  ultimately obtain b1 where push: "builder_push v max_bytes (b, n) = (Inr (), b1, ?n1)"
      and b1: "builds b1 cid (vs @ [v])"
    using builder_push_ok [OF Cons.prems(1,2), of n v] Cons.prems(3,4) by auto
  have "?n1 + encoded_size ((vs @ [v]) @ us) \<le> max_bytes + encoded_size (vs @ [v])"
    using Cons.prems(3) encoded_size_mono [of vs "[v]"] by simp
  from Cons.IH [OF b1 Cons.prems(2) this] Cons.prems(4) push
  show ?case by (simp add: builder_pushes_def pbind_def)
qed

section \<open>The finished column\<close>

lemma column_offsets_nth: "i \<le> length vs \<Longrightarrow> column_offsets vs ! i = length (column_data (take i vs))"
  unfolding column_offsets_def by (simp del: upt_Suc)

lemma length_column_offsets [simp]: "length (column_offsets vs) = Suc (length vs)"
  by (simp add: column_offsets_def)

lemma column_offsets_last: "column_offsets vs \<noteq> []" "last (column_offsets vs) = length (column_data vs)"
  by (simp_all add: column_offsets_def)

lemma column_data_split:
  assumes "i < length vs"
  shows "column_data vs = column_data (take i vs) @ value_data (vs ! i) @ column_data (drop (Suc i) vs)"
proof -
  have "vs = take i vs @ vs ! i # drop (Suc i) vs" using assms by (rule id_take_nth_drop)
  then have "column_data vs = column_data (take i vs @ vs ! i # drop (Suc i) vs)" by simp
  then show ?thesis unfolding column_data_def by simp
qed

lemma column_offsets_Suc:
  "i < length vs \<Longrightarrow> column_offsets vs ! Suc i = column_offsets vs ! i + length (value_data (vs ! i))"
  by (simp add: column_offsets_nth take_Suc_conv_app_nth column_data_snoc)

lemma column_offsets_sorted: "sorted (column_offsets vs)"
  by (rule sorted_iff_nth_Suc [THEN iffD2]) (auto simp: column_offsets_Suc)

definition present_valid :: "byte list option list \<Rightarrow> bool" where
  "present_valid vs \<longleftrightarrow> (\<forall>v \<in> set vs. utf8_valid (value_data v))"

lemma builder_finish_ok:
  assumes "builds b cid vs" and "present_valid vs"
  shows "\<exists>c. builder_finish b = Inr c \<and> scb_wf c \<and> scb_column_id c = cid \<and> scb_len c = length vs \<and>
    length (scb_data c) + 4 * length vs + length (scb_validity c) = encoded_size vs \<and>
    (\<forall>i < length vs. scb_value c i = Returns (Some (vs ! i)))"
proof -
  let ?c = "\<lparr>scb_column_id = cid, scb_data = column_data vs, scb_offsets = column_offsets vs,
    scb_validity = cb_validity b\<rparr>"
  have marks: "marks (cb_validity b) vs" using assms(1) by (simp add: builds_def)
  have wf: "scb_wf ?c"
    using marks assms(2) column_offsets_nth [of 0 vs] column_offsets_last [of vs]
    by (auto simp: scb_wf_def column_offsets_sorted marks_def present_valid_def column_data_def
        intro!: utf8_valid_concat)
  have "scb_value ?c i = Returns (Some (vs ! i))" if i: "i < length vs" for i
  proof -
    have "bit_set (cb_validity b) i \<longleftrightarrow> vs ! i \<noteq> None"
      using marks i div_ceil_8 [OF i] by (simp add: bit_set_bit marks_def)
    moreover have "take (column_offsets vs ! Suc i - column_offsets vs ! i)
        (drop (column_offsets vs ! i) (column_data vs)) = value_data (vs ! i)"
      using i by (subst column_data_split [OF i]) (simp add: column_offsets_Suc, simp add: column_offsets_nth)
    moreover have "utf8_valid (value_data (vs ! i))" using assms(2) i by (simp add: present_valid_def)
    ultimately show ?thesis
      using scb_value_wf [OF wf, of i] i
      by (auto simp: scb_len_def saturating_sub_def Let_def value_data_def)
  qed
  moreover have "builder_finish b = Inr ?c"
    using assms(1) wf by (simp add: builder_finish_def builds_def string_column_batch_new_ok)
  ultimately show ?thesis
    using wf marks by (intro exI [of _ ?c]) (simp add: scb_len_def saturating_sub_def encoded_size_def marks_def)
qed

section \<open>Properties\<close>

text \<open>
  C4: A column builder stores what it is given. Pushing values succeeds exactly when the
  batch stays within its byte limit and the column within 32-bit offsets; the finished
  column then answers every value at its row, absent ones as null, and the batch has been
  charged exactly the bytes the column encodes to.
\<close>

theorem built_column_roundtrip:
  assumes "max_bytes \<le> u64_max" and "vs \<noteq> []" and "\<forall>v \<in> set vs. utf8_valid (value_data v)"
  shows "(is_ok (fst (builder_pushes max_bytes vs (builder_new cid, n))) \<longleftrightarrow>
       n + encoded_size vs \<le> max_bytes \<and> length (column_data vs) \<le> u32_max) \<and>
    (\<forall>b n'. builder_pushes max_bytes vs (builder_new cid, n) = (Inr (), b, n') \<longrightarrow>
       (\<exists>c. builder_finish b = Inr c \<and> scb_column_id c = cid \<and> scb_len c = length vs \<and>
          n' = n + length (scb_data c) + 4 * length vs + length (scb_validity c) \<and>
          (\<forall>i < length vs. scb_value c i = Returns (Some (vs ! i)))))"
proof (intro conjI allI impI iffI)
  have empty: "encoded_size [] = 0" by (simp add: encoded_size_def column_data_def div_ceil_def)
  {
    fix b n' assume run: "builder_pushes max_bytes vs (builder_new cid, n) = (Inr (), b, n')"
    note pushed = builder_pushes_Inr [OF run builds_new, simplified append_Nil empty]
    have "present_valid vs" using assms(3) by (simp add: present_valid_def)
    then obtain c where "builder_finish b = Inr c" "scb_column_id c = cid" "scb_len c = length vs"
        "length (scb_data c) + 4 * length vs + length (scb_validity c) = encoded_size vs"
        "\<forall>i < length vs. scb_value c i = Returns (Some (vs ! i))"
      using builder_finish_ok pushed by blast
    with pushed show "\<exists>c. builder_finish b = Inr c \<and> scb_column_id c = cid \<and> scb_len c = length vs \<and>
          n' = n + length (scb_data c) + 4 * length vs + length (scb_validity c) \<and>
          (\<forall>i < length vs. scb_value c i = Returns (Some (vs ! i)))"
      by (intro exI [of _ c]) simp
  next
    assume "is_ok (fst (builder_pushes max_bytes vs (builder_new cid, n)))"
    then obtain b n' where run: "builder_pushes max_bytes vs (builder_new cid, n) = (Inr (), b, n')"
      by (cases "builder_pushes max_bytes vs (builder_new cid, n)") (auto simp: is_ok_iff)
    note pushed = builder_pushes_Inr [OF run builds_new, simplified append_Nil empty]
    with assms(2) show "n + encoded_size vs \<le> max_bytes" and "length (column_data vs) \<le> u32_max" by auto
  next
    assume "n + encoded_size vs \<le> max_bytes \<and> length (column_data vs) \<le> u32_max"
    then show "is_ok (fst (builder_pushes max_bytes vs (builder_new cid, n)))"
      using builder_pushes_ok [OF builds_new assms(1), of n vs cid] empty by auto
  }
qed

theorem built_column_roundtrip_witness:
  "is_ok (fst (builder_pushes 64 [Some [0x61, 0x62], None, Some []] (builder_new ''c0'', 4)))"
  using built_column_roundtrip [of 64 "[Some [0x61, 0x62], None, Some []]" "''c0''" 4]
  by (simp add: encoded_size_def column_data_def value_data_def div_ceil_def u64_max_def u32_max_def
      utf8_step_def)

end
