(* ===== verification/Csv_Range.thy ===== *)
theory Csv_Range
  imports Csv_Scanning String_Builder
begin

text \<open>
  \<open>RangeDecoder\<close> of src/src/csv.rs: one request is decoded from the source slice that starts
  at its checkpoint, field by field through the external reader, into one builder per
  requested column. As in the scanner, the reader is the parameter \<open>E\<close>, and a chunk is a
  loop that may not return. A decoder that has failed keeps whatever it had mutated; its
  owner drops it.
\<close>

section \<open>State\<close>

datatype range_decode_status = NeedMore | CompleteBatch table_batch

record 'r range_decoder =
  rd_options :: delimited_options
  rd_plan :: range_plan
  rd_schema :: schema
  rd_reader :: 'r
  rd_lexical :: quote_tracker
  rd_expected_offset :: nat
  rd_field :: "byte list"
  rd_field_index :: nat
  rd_current_row :: nat
  rd_selected_values :: "byte list list"
  rd_selected_valid :: "bool list"
  rd_builders :: "string_column_builder list"
  rd_returned_rows :: nat
  rd_batch_bytes :: nat
  rd_diagnostics :: "csv_diagnostic list"
  rd_done :: bool

type_synonym ('r, 'a) decode = "('r range_decoder, tabulark_error, 'a) prog"
type_synonym ('r, 'a) decode_loop = "('r range_decoder, tabulark_error, 'a) lprog"

abbreviation rd_request :: "'r range_decoder \<Rightarrow> range_request" where
  "rd_request d \<equiv> plan_request (rd_plan d)"

text \<open>
  \<open>new\<close> slices the schema at the requested columns; a plan that the scanner made fits, and
  a slice out of range panics.
\<close>

definition decoder_new ::
    "'r csv_env \<Rightarrow> delimited_options \<Rightarrow> range_plan \<Rightarrow> schema \<Rightarrow> 'r range_decoder result run" where
  "decoder_new E opts plan sch =
     (case u64_try_from (column_count (plan_request plan)) of
        None \<Rightarrow> Returns (Inl (new_error ResourceLimit ''range column count exceeds usize''))
      | Some selected \<Rightarrow>
     (case u64_try_from (column_start (plan_request plan)) of
        None \<Rightarrow> Returns (Inl (new_error ResourceLimit ''range column start exceeds usize''))
      | Some start \<Rightarrow>
     run_bind (slice_get (schema_columns sch) start (start + selected)) (\<lambda>columns.
     Returns (
       rbind (ok_or (checked_mul selected 4)
         (new_error ResourceLimit ''batch byte length overflow'')) (\<lambda>batch_bytes.
       if batch_bytes > max_batch_bytes (limits opts)
       then Inl (new_error ResourceLimit ''range response exceeds the configured byte limit'')
       else Inr \<lparr>rd_options = opts, rd_plan = plan, rd_schema = sch,
              rd_reader = env_build_reader E (delimiter opts),
              rd_lexical = quote_tracker_new (delimiter opts),
              rd_expected_offset = plan_source_offset plan, rd_field = [], rd_field_index = 0,
              rd_current_row = ck_row (plan_checkpoint plan),
              rd_selected_values = replicate selected [],
              rd_selected_valid = replicate selected False,
              rd_builders = map (\<lambda>c. builder_new (col_id c)) columns,
              rd_returned_rows = 0, rd_batch_bytes = batch_bytes, rd_diagnostics = [],
              rd_done = (row_count (plan_request plan) = 0)\<rparr>)))))"

section \<open>Fields and records\<close>

definition decoder_diagnostic :: "csv_diagnostic \<Rightarrow> ('r, unit) decode" where
  "decoder_diagnostic c =
     pbind pget (\<lambda>d.
     pbind (plift (retain_diagnostic (rd_options d) c (rd_diagnostics d))) (\<lambda>ds.
     pmodify (\<lambda>d. d\<lparr>rd_diagnostics := ds\<rparr>)))"

definition decoder_append_field :: "byte list \<Rightarrow> ('r, unit) decode" where
  "decoder_append_field bytes =
     pbind pget (\<lambda>d.
     pbind (plift (ok_or (checked_add (length (rd_field d)) (length bytes))
       (new_error ResourceLimit ''CSV field length overflow''))) (\<lambda>new_len.
     if new_len > max_field_bytes (limits (rd_options d))
     then pfail (new_error ResourceLimit ''CSV field exceeds the configured byte limit'')
     else pmodify (\<lambda>d. d\<lparr>rd_field := rd_field d @ bytes\<rparr>)))"

text \<open>\<open>current_row >= row_start && current_row < row_end()?\<close>\<close>

definition row_requested :: "'r range_decoder \<Rightarrow> bool result" where
  "row_requested d =
     (if row_start (rd_request d) \<le> rd_current_row d
      then rbind (row_end (rd_request d)) (\<lambda>stop. Inr (rd_current_row d < stop))
      else Inr False)"

definition decoder_keep_field :: "nat \<Rightarrow> ('r, unit) decode" where
  "decoder_keep_field selected_index =
     pbind pget (\<lambda>d.
     pbind (if \<not> utf8_valid (rd_field d)
            then pbind (decoder_diagnostic (csv_diagnostic_new InvalidUtf8 (Some (rd_current_row d))
                   (rd_expected_offset d)
                   ''field contains invalid UTF-8; replacement characters were used'')) (\<lambda>_.
                 pmodify (\<lambda>d. d\<lparr>rd_field := utf8_lossy (rd_field d)\<rparr>))
            else preturn ()) (\<lambda>_.
     pmodify (\<lambda>d. d\<lparr>rd_selected_values := (rd_selected_values d)[selected_index := rd_field d],
       rd_field := [], rd_selected_valid := (rd_selected_valid d)[selected_index := True]\<rparr>)))"

definition decoder_finish_field :: "('r, unit) decode" where
  "decoder_finish_field =
     pbind pget (\<lambda>d.
     pbind (plift (ok_or (checked_add (rd_field_index d) 1)
       (new_error ResourceLimit ''CSV column count overflow''))) (\<lambda>field_index.
     pbind (pmodify (\<lambda>d. d\<lparr>rd_field_index := field_index\<rparr>)) (\<lambda>_.
     if field_index > max_columns (limits (rd_options d))
     then pfail (new_error ResourceLimit ''CSV record exceeds the configured column limit'')
     else
       let logical_index = field_index - 1 in
       pbind (plift (ok_or (u64_try_from (column_start (rd_request d)))
         (new_error ResourceLimit ''column start exceeds usize''))) (\<lambda>start.
       let stop = start + length (rd_selected_values d) in
       pbind (plift (row_requested d)) (\<lambda>requested.
       if requested \<and> start \<le> logical_index \<and> logical_index < stop
       then decoder_keep_field (logical_index - start)
       else pmodify (\<lambda>d. d\<lparr>rd_field := []\<rparr>))))))"

text \<open>The loop over the zipped builders; a refused push leaves the earlier ones pushed.\<close>

fun push_row :: "nat \<Rightarrow> string_column_builder list \<Rightarrow> byte list list \<Rightarrow> bool list \<Rightarrow> nat \<Rightarrow>
    unit result \<times> string_column_builder list \<times> nat" where
  "push_row max_bytes (b # bs) (v # vs) (valid # valids) n =
     (case builder_push (if valid then Some v else None) max_bytes (b, n) of
        (Inl e, b', n') \<Rightarrow> (Inl e, b' # bs, n')
      | (Inr _, b', n') \<Rightarrow>
          (case push_row max_bytes bs vs valids n' of (r, bs', n'') \<Rightarrow> (r, b' # bs', n'')))"
| "push_row max_bytes bs _ _ n = (Inr (), bs, n)"

definition decoder_push_row :: "('r, unit) decode" where
  "decoder_push_row = (\<lambda>d.
     case push_row (max_batch_bytes (limits (rd_options d))) (rd_builders d) (rd_selected_values d)
            (rd_selected_valid d) (rd_batch_bytes d) of
       (r, builders, n) \<Rightarrow> (r, d\<lparr>rd_builders := builders, rd_batch_bytes := n\<rparr>))"

definition decoder_count_row :: "('r, unit) decode" where
  "decoder_count_row =
     pbind decoder_push_row (\<lambda>_. pmodify (\<lambda>d. d\<lparr>rd_returned_rows := rd_returned_rows d + 1\<rparr>))"

definition decoder_next_record :: "('r, unit) decode" where
  "decoder_next_record =
     pbind (pmodify (\<lambda>d. d\<lparr>rd_field_index := 0,
       rd_selected_values := map (\<lambda>_. []) (rd_selected_values d),
       rd_selected_valid := map (\<lambda>_. False) (rd_selected_valid d)\<rparr>)) (\<lambda>_.
     pbind pget (\<lambda>d.
     pbind (plift (ok_or (checked_add (rd_current_row d) 1)
       (new_error ResourceLimit ''range row count overflow''))) (\<lambda>current_row.
     pmodify (\<lambda>d. d\<lparr>rd_current_row := current_row,
       rd_done := rd_done d \<or> rd_returned_rows d = row_count (rd_request d)\<rparr>))))"

definition decoder_finish_record :: "('r, unit) decode" where
  "decoder_finish_record =
     pbind pget (\<lambda>d.
     pbind (if rd_field_index d \<noteq> schema_len (rd_schema d)
            then decoder_diagnostic (csv_diagnostic_new RaggedRow (Some (rd_current_row d))
                   (rd_expected_offset d)
                   (''row has '' @ nat_to_dec (rd_field_index d) @ '' fields but the schema has '' @
                    nat_to_dec (schema_len (rd_schema d))))
            else preturn ()) (\<lambda>_.
     pbind (plift (row_requested d)) (\<lambda>requested.
     pbind (if requested then decoder_count_row else preturn ()) (\<lambda>_.
     decoder_next_record))))"

section \<open>Batches\<close>

definition decoder_build_batch :: "bool \<Rightarrow> ('r, table_batch) decode" where
  "decoder_build_batch complete =
     pbind pget (\<lambda>d.
     pbind (plift (range_request_new (row_start (rd_request d)) (rd_returned_rows d)
       (column_start (rd_request d)) (column_count (rd_request d)))) (\<lambda>returned_range.
     pbind (pmodify (\<lambda>d. d\<lparr>rd_builders := []\<rparr>)) (\<lambda>_.
     pbind (plift (rcollect builder_finish (rd_builders d))) (\<lambda>columns.
     preturn (table_batch_new ''table-0'' 0 (schema_version (rd_schema d)) returned_range complete
       columns)))))"

definition decoder_immediate_batch :: "('r, table_batch option) decode" where
  "decoder_immediate_batch =
     pbind pget (\<lambda>d.
     if rd_done d \<and> rd_returned_rows d = 0 \<and> row_count (rd_request d) = 0
     then pbind (decoder_build_batch True) (\<lambda>b. preturn (Some b))
     else preturn None)"

section \<open>Bytes\<close>

definition decoder_field_end :: "bool \<Rightarrow> ('r, unit) decode" where
  "decoder_field_end record_end =
     pbind decoder_finish_field (\<lambda>_. if record_end then decoder_finish_record else preturn ())"

definition decoder_read ::
    "'r csv_env \<Rightarrow> byte list \<Rightarrow> ('r, read_field_result \<times> nat \<times> byte list) decode" where
  "decoder_read E input = (\<lambda>d.
     case env_read_field E (rd_reader d) input field_scratch_bytes of
       (answer, reader) \<Rightarrow> (Inr answer, d\<lparr>rd_reader := reader\<rparr>))"

definition decoder_advance :: "nat \<Rightarrow> ('r, unit) decode" where
  "decoder_advance consumed =
     pbind pget (\<lambda>d.
     pbind (plift (ok_or (checked_add (rd_expected_offset d) consumed)
       (new_error ResourceLimit ''range parser offset overflow''))) (\<lambda>offset.
     pmodify (\<lambda>d. d\<lparr>rd_expected_offset := offset\<rparr>)))"

text \<open>
  One turn of \<open>while !input.is_empty() && !self.done\<close>. The slices \<open>&scratch[..written]\<close> and
  \<open>&input[consumed..]\<close> panic out of range.
\<close>

definition decoder_answer :: "read_field_result \<Rightarrow> bool \<Rightarrow> byte list \<Rightarrow> ('r, byte list option) decode" where
  "decoder_answer result stuck rest =
     (let continue = (if stuck
            then pfail (new_error RuntimeFailure ''range parser made no progress'')
            else pbind pget (\<lambda>d. preturn (if rest = [] \<or> rd_done d then None else Some rest)))
      in case result of
           InputEmpty \<Rightarrow> preturn None
         | OutputFull \<Rightarrow> continue
         | FieldEnd record_end \<Rightarrow> pbind (decoder_field_end record_end) (\<lambda>_. continue)
         | EndOfInput \<Rightarrow> pfail (new_error RuntimeFailure
               ''range parser reached end before its chunk was exhausted''))"

definition decoder_turn :: "'r csv_env \<Rightarrow> byte list \<Rightarrow> ('r, byte list option) decode_loop" where
  "decoder_turn E input =
     lbind (lrun (decoder_read E input)) (\<lambda>(result, consumed, written).
     lbind (lslice (length written \<le> field_scratch_bytes)) (\<lambda>_.
     lbind (lrun (decoder_append_field written)) (\<lambda>_.
     lbind (lrun (decoder_advance consumed)) (\<lambda>_.
     lbind (lslice (consumed \<le> length input)) (\<lambda>_.
     lrun (decoder_answer result (consumed = 0 \<and> written = []) (drop consumed input)))))))"

definition complete_batch :: "bool \<Rightarrow> ('r, range_decode_status) decode" where
  "complete_batch complete = pbind (decoder_build_batch complete) (\<lambda>b. preturn (CompleteBatch b))"

fun decoder_eof_loop :: "'r csv_env \<Rightarrow> nat \<Rightarrow> ('r, range_decode_status) decode_loop" where
  "decoder_eof_loop E 0 =
     lrun (pfail (new_error RuntimeFailure ''range parser did not terminate at end-of-file''))"
| "decoder_eof_loop E (Suc n) =
     lbind (lrun (decoder_read E [])) (\<lambda>(result, consumed, written).
     lbind (lslice (length written \<le> field_scratch_bytes)) (\<lambda>_.
     lbind (lrun (decoder_append_field written)) (\<lambda>_.
     case result of
       FieldEnd record_end \<Rightarrow>
         lbind (lrun (decoder_field_end record_end)) (\<lambda>_.
         lbind (lrun pget) (\<lambda>d.
         if rd_done d then lrun (complete_batch True) else decoder_eof_loop E n))
     | EndOfInput \<Rightarrow>
         lrun (pbind (pmodify (\<lambda>d. d\<lparr>rd_done := True\<rparr>)) (\<lambda>_.
         pbind pget (\<lambda>d. complete_batch (rd_returned_rows d = row_count (rd_request d)))))
     | OutputFull \<Rightarrow> decoder_eof_loop E n
     | InputEmpty \<Rightarrow> decoder_eof_loop E n)))"

definition decoder_unclosed_quote :: "('r, unit) decode" where
  "decoder_unclosed_quote =
     pbind pget (\<lambda>d.
     case unclosed_quote_offset (rd_lexical d) of
       None \<Rightarrow> preturn ()
     | Some offset \<Rightarrow> decoder_diagnostic (csv_diagnostic_new MalformedQuote
         (Some (rd_current_row d)) offset
         ''quoted field is not terminated before end-of-file''))"

definition decoder_finish_eof :: "'r csv_env \<Rightarrow> ('r, range_decode_status) decode_loop" where
  "decoder_finish_eof E = lbind (lrun decoder_unclosed_quote) (\<lambda>_. decoder_eof_loop E 4)"

definition decoder_accept :: "nat \<Rightarrow> byte list \<Rightarrow> ('r, unit) decode" where
  "decoder_accept absolute_offset bytes =
     pbind pget (\<lambda>d.
     if rd_done d then pfail (new_error HandleClosed ''range decoder is already complete'')
     else if absolute_offset \<noteq> rd_expected_offset d
     then pfail (with_detail (with_detail
            (new_error InvalidArgument
               ''range chunks must be contiguous and begin at the planned offset'')
            ''expectedOffset'' (DetailNumber (rd_expected_offset d)))
            ''actualOffset'' (DetailNumber absolute_offset))
     else case quote_consume absolute_offset bytes (rd_lexical d) of (issues, lexical) \<Rightarrow>
       pbind (pmodify (\<lambda>d. d\<lparr>rd_lexical := lexical\<rparr>)) (\<lambda>_.
       pforeach (\<lambda>issue. pbind pget (\<lambda>d. decoder_diagnostic (csv_diagnostic_new MalformedQuote
         (Some (rd_current_row d)) (issue_offset issue) (issue_message issue)))) issues))"

definition decoder_feed_chunk ::
    "'r csv_env \<Rightarrow> nat \<Rightarrow> byte list \<Rightarrow> bool \<Rightarrow> ('r, range_decode_status) decode_loop" where
  "decoder_feed_chunk E absolute_offset bytes eof =
     lbind (lrun (decoder_accept absolute_offset bytes)) (\<lambda>_.
     lbind (if bytes = [] then lrun (preturn ()) else ploop (decoder_turn E) bytes) (\<lambda>_.
     lbind (lrun pget) (\<lambda>d.
     if rd_done d then lrun (complete_batch True)
     else if eof then decoder_finish_eof E
     else lrun (preturn NeedMore))))"

definition scanner_range_decoder ::
    "'r csv_env \<Rightarrow> 'r csv_scanner \<Rightarrow> range_plan \<Rightarrow> 'r range_decoder result run" where
  "scanner_range_decoder E s plan =
     (case schema_new (sc_schema_version s) (sc_columns s) of
        Inl e \<Rightarrow> Returns (Inl e)
      | Inr sch \<Rightarrow> decoder_new E (sc_options s) plan sch)"

end
