(* ===== verification/Csv_Decoding.thy ===== *)
theory Csv_Decoding
  imports Csv_Range
begin

text \<open>
  What a range decoder keeps while it succeeds: \<open>decoding\<close> ties the builders, the byte count
  and the row count together; every operation of the decoder keeps it whatever the
  external reader answers, and a finished batch inherits it.
\<close>

section \<open>The invariant\<close>

type_synonym columns = "(string \<times> byte list option list) list"

definition columns_size :: "columns \<Rightarrow> nat" where
  "columns_size cols = sum_list (map (\<lambda>c. encoded_size (snd c)) cols)"

definition column_built :: "nat \<Rightarrow> string_column_builder \<Rightarrow> string \<times> byte list option list \<Rightarrow> bool" where
  "column_built rows b c \<longleftrightarrow> builds b (fst c) (snd c) \<and> length (snd c) = rows \<and> present_valid (snd c)"

definition requested_ids :: "range_plan \<Rightarrow> schema \<Rightarrow> string list" where
  "requested_ids plan sch =
     map col_id (take (column_count (plan_request plan))
       (drop (column_start (plan_request plan)) (schema_columns sch)))"

definition row_selected :: "nat \<Rightarrow> byte list list \<Rightarrow> bool list \<Rightarrow> bool" where
  "row_selected width vs valids \<longleftrightarrow> length vs = width \<and> length valids = width \<and>
     (\<forall>i < width. valids ! i \<longrightarrow> utf8_valid (vs ! i))"

definition decoding :: "delimited_options \<Rightarrow> range_plan \<Rightarrow> schema \<Rightarrow> 'r range_decoder \<Rightarrow> bool" where
  "decoding opts plan sch d \<longleftrightarrow> rd_options d = opts \<and> rd_plan d = plan \<and> rd_schema d = sch \<and>
     row_selected (column_count (plan_request plan)) (rd_selected_values d) (rd_selected_valid d) \<and>
     rd_returned_rows d \<le> row_count (plan_request plan) \<and>
     (\<not> rd_done d \<longrightarrow> rd_returned_rows d < row_count (plan_request plan)) \<and>
     (\<exists>cols. list_all2 (column_built (rd_returned_rows d)) (rd_builders d) cols \<and>
        map fst cols = requested_ids plan sch \<and> length cols = column_count (plan_request plan) \<and>
        rd_batch_bytes d = 4 * column_count (plan_request plan) + columns_size cols) \<and>
     rd_batch_bytes d \<le> max_batch_bytes (limits opts)"

text \<open>The fields the invariant does not read.\<close>

lemma decoding_frame [simp]:
  "decoding opts plan sch (d\<lparr>rd_reader := r\<rparr>) = decoding opts plan sch d"
  "decoding opts plan sch (d\<lparr>rd_lexical := t\<rparr>) = decoding opts plan sch d"
  "decoding opts plan sch (d\<lparr>rd_expected_offset := n\<rparr>) = decoding opts plan sch d"
  "decoding opts plan sch (d\<lparr>rd_field := bytes\<rparr>) = decoding opts plan sch d"
  "decoding opts plan sch (d\<lparr>rd_field_index := n\<rparr>) = decoding opts plan sch d"
  "decoding opts plan sch (d\<lparr>rd_current_row := n\<rparr>) = decoding opts plan sch d"
  "decoding opts plan sch (d\<lparr>rd_diagnostics := ds\<rparr>) = decoding opts plan sch d"
  by (simp_all add: decoding_def)

lemma decoding_select:
  "decoding opts plan sch d \<Longrightarrow>
     row_selected (column_count (plan_request plan)) vs valids \<Longrightarrow>
     decoding opts plan sch (d\<lparr>rd_selected_values := vs, rd_field := bytes, rd_selected_valid := valids\<rparr>)"
  by (simp add: decoding_def)

lemma decoding_selected: "decoding opts plan sch d \<Longrightarrow>
    row_selected (column_count (plan_request plan)) (rd_selected_values d) (rd_selected_valid d)"
  by (simp add: decoding_def)

section \<open>Rows\<close>

definition picked :: "byte list list \<Rightarrow> bool list \<Rightarrow> byte list option list" where
  "picked vs valids = map2 (\<lambda>v valid. if valid then Some v else None) vs valids"

definition add_row :: "columns \<Rightarrow> byte list option list \<Rightarrow> columns" where
  "add_row cols row = map2 (\<lambda>c v. (fst c, snd c @ [v])) cols row"

lemma push_row_ok:
  assumes "push_row max_bytes bs vs valids n = (Inr u, bs', n')"
    and "list_all2 (column_built rows) bs cols" and "length vs = length bs"
    and "length valids = length bs" and "\<forall>v \<in> set (picked vs valids). utf8_valid (value_data v)"
  shows "list_all2 (column_built (Suc rows)) bs' (add_row cols (picked vs valids)) \<and>
    n' + columns_size cols = n + columns_size (add_row cols (picked vs valids)) \<and>
    (n \<le> max_bytes \<longrightarrow> n' \<le> max_bytes)"
  using assms
proof (induction max_bytes bs vs valids n arbitrary: cols bs' n' rule: push_row.induct)
  case (1 max_bytes b bs v vs valid valids n)
  let ?v = "if valid then Some v else None"
  obtain b1 n1 bs1 where push: "builder_push ?v max_bytes (b, n) = (Inr (), b1, n1)"
    and rest: "push_row max_bytes bs vs valids n1 = (Inr u, bs1, n')" and bs': "bs' = b1 # bs1"
    using 1(2) by (auto split: prod.splits sum.splits)
  obtain c cs where cols: "cols = c # cs" and c: "column_built rows b c"
    and cs: "list_all2 (column_built rows) bs cs"
    using 1(3) by (cases cols) auto
  have built: "builds b (fst c) (snd c)" and valid: "utf8_valid (value_data ?v)"
    using c 1(6) by (auto simp: column_built_def picked_def)
  note one = builder_push_Inr [OF push built]
  have "list_all2 (column_built (Suc rows)) bs1 (add_row cs (picked vs valids)) \<and>
    n' + columns_size cs = n1 + columns_size (add_row cs (picked vs valids)) \<and>
    (n1 \<le> max_bytes \<longrightarrow> n' \<le> max_bytes)"
    using 1(1) [OF push [symmetric] refl refl rest cs] 1(4-6) by (simp add: picked_def)
  moreover have "column_built (Suc rows) b1 (fst c, snd c @ [?v])"
    using one c valid by (auto simp: column_built_def present_valid_def)
  ultimately show ?case
    using one by (auto simp: bs' cols add_row_def picked_def columns_size_def)
qed (auto simp: add_row_def picked_def columns_size_def)

lemma map_fst_add_row [simp]: "length row = length cols \<Longrightarrow> map fst (add_row cols row) = map fst cols"
  by (induction cols row rule: list_induct2') (auto simp: add_row_def)

lemma length_add_row [simp]: "length row = length cols \<Longrightarrow> length (add_row cols row) = length cols"
  by (simp add: add_row_def)

lemma picked_valid:
  "row_selected width vs valids \<Longrightarrow> \<forall>v \<in> set (picked vs valids). utf8_valid (value_data v)"
  by (auto simp: picked_def row_selected_def set_zip value_data_def)

lemma row_selected_blank: "row_selected width vs valids \<Longrightarrow>
    row_selected width (map (\<lambda>_. []) vs) (map (\<lambda>_. False) valids)"
  by (simp add: row_selected_def)

lemma row_selected_update: "row_selected width vs valids \<Longrightarrow> utf8_valid v \<Longrightarrow>
    row_selected width (vs[i := v]) (valids[i := True])"
  unfolding row_selected_def by (metis length_list_update nth_list_update_eq nth_list_update_neq)

section \<open>Steps that keep the invariant\<close>

text \<open>\<open>decodes m\<close>: when \<open>m\<close> succeeds, it keeps the invariant and leaves the decoder open or done.\<close>

abbreviation live :: "delimited_options \<Rightarrow> range_plan \<Rightarrow> schema \<Rightarrow> 'r range_decoder \<Rightarrow> bool" where
  "live opts plan sch d \<equiv> decoding opts plan sch d \<and> \<not> rd_done d"

lemma decoder_diagnostic_keeps:
  assumes "live opts plan sch d"
  shows "wp (decoder_diagnostic c)
    (\<lambda>_ d'. live opts plan sch d' \<and> rd_field d' = rd_field d) (\<lambda>_ _. True) d"
  using assms by (simp add: decoder_diagnostic_def wps split: sum.split)

lemma decoder_append_field_keeps:
  "live opts plan sch d \<Longrightarrow> wp (decoder_append_field bytes) (\<lambda>_. live opts plan sch) (\<lambda>_ _. True) d"
  by (simp add: decoder_append_field_def wps split: sum.split)

lemma decoder_advance_keeps:
  "live opts plan sch d \<Longrightarrow> wp (decoder_advance n) (\<lambda>_. live opts plan sch) (\<lambda>_ _. True) d"
  by (simp add: decoder_advance_def wps split: sum.split)

lemma decoder_read_keeps:
  "live opts plan sch d \<Longrightarrow> wp (decoder_read E input) (\<lambda>_. live opts plan sch) (\<lambda>_ _. True) d"
  by (simp add: decoder_read_def wp_def split: prod.split)

lemma decoder_keep_field_keeps:
  assumes "live opts plan sch d"
  shows "wp (decoder_keep_field i) (\<lambda>_. live opts plan sch) (\<lambda>_ _. True) d"
proof -
  have put: "live opts plan sch (d'\<lparr>rd_selected_values := (rd_selected_values d')[i := v],
       rd_field := [], rd_selected_valid := (rd_selected_valid d')[i := True]\<rparr>)"
    if "live opts plan sch d'" "utf8_valid v" for d' :: "'a range_decoder" and v
  proof -
    have d': "decoding opts plan sch d'" and "\<not> rd_done d'" using that(1) by simp_all
    then show ?thesis
      using decoding_select [OF d' row_selected_update [OF decoding_selected [OF d'] that(2)]] by simp
  qed
  show ?thesis
  proof (cases "utf8_valid (rd_field d)")
    case True
    then show ?thesis using put [OF assms] by (simp add: decoder_keep_field_def wps)
  next
    case False
    show ?thesis
      unfolding decoder_keep_field_def wps
      by (simp add: False wps)
        (rule wp_mono [OF decoder_diagnostic_keeps [OF assms]]; simp add: wps put utf8_lossy_valid)
  qed
qed

lemma decoder_finish_field_keeps:
  assumes "live opts plan sch d"
  shows "wp decoder_finish_field (\<lambda>_. live opts plan sch) (\<lambda>_ _. True) d"
  unfolding decoder_finish_field_def wps Let_def
  using assms by (simp add: decoder_keep_field_keeps split: sum.split)

lemma decoder_push_row_ok:
  assumes "live opts plan sch d"
  shows "wp decoder_push_row
    (\<lambda>_ d'. decoding opts plan sch (d'\<lparr>rd_returned_rows := rd_returned_rows d + 1, rd_done := True\<rparr>) \<and>
       rd_returned_rows d' = rd_returned_rows d \<and> rd_done d' = rd_done d) (\<lambda>_ _. True) d"
proof -
  let ?row = "picked (rd_selected_values d) (rd_selected_valid d)"
  obtain cols where built: "list_all2 (column_built (rd_returned_rows d)) (rd_builders d) cols"
      and ids: "map fst cols = requested_ids plan sch"
      and len: "length cols = column_count (plan_request plan)"
      and size: "rd_batch_bytes d = 4 * column_count (plan_request plan) + columns_size cols"
    using assms by (auto simp: decoding_def)
  have sel: "row_selected (column_count (plan_request plan)) (rd_selected_values d) (rd_selected_valid d)"
    using assms by (simp add: decoding_def)
  have lens: "length (rd_selected_values d) = length (rd_builders d)"
      "length (rd_selected_valid d) = length (rd_builders d)" "length ?row = length cols"
    using sel len list_all2_lengthD [OF built] by (simp_all add: row_selected_def picked_def)
  show ?thesis
  proof (rule wpI)
    fix u d'
    assume "decoder_push_row d = (Inr u, d')"
    then obtain bs n where push: "push_row (max_batch_bytes (limits opts)) (rd_builders d)
          (rd_selected_values d) (rd_selected_valid d) (rd_batch_bytes d) = (Inr u, bs, n)"
        and d': "d' = d\<lparr>rd_builders := bs, rd_batch_bytes := n\<rparr>"
      using assms by (auto simp: decoder_push_row_def decoding_def split: prod.splits)
    note row = push_row_ok [OF push built lens(1,2) picked_valid [OF sel]]
    have "n \<le> max_batch_bytes (limits opts)" and "Suc (rd_returned_rows d) \<le> row_count (plan_request plan)"
      using row assms by (auto simp: decoding_def)
    moreover have "\<exists>cols. list_all2 (column_built (Suc (rd_returned_rows d))) bs cols \<and>
        map fst cols = requested_ids plan sch \<and> length cols = column_count (plan_request plan) \<and>
        n = 4 * column_count (plan_request plan) + columns_size cols"
      using row ids len size lens(3) by (intro exI [of _ "add_row cols ?row"]) simp
    ultimately show "decoding opts plan sch (d'\<lparr>rd_returned_rows := rd_returned_rows d + 1, rd_done := True\<rparr>) \<and>
       rd_returned_rows d' = rd_returned_rows d \<and> rd_done d' = rd_done d"
      using assms by (simp add: d' decoding_def)
  qed simp
qed

text \<open>A decoder between two records: it is done only with all its rows.\<close>

abbreviation settled :: "delimited_options \<Rightarrow> range_plan \<Rightarrow> schema \<Rightarrow> 'r range_decoder \<Rightarrow> bool" where
  "settled opts plan sch d \<equiv> decoding opts plan sch d \<and>
     (rd_done d \<longrightarrow> rd_returned_rows d = row_count (plan_request plan))"

lemma decoding_settle:
  assumes "decoding opts plan sch (d\<lparr>rd_returned_rows := n, rd_done := True\<rparr>)"
    and "\<not> rd_done d"
  shows "settled opts plan sch (d\<lparr>rd_returned_rows := n, rd_field_index := i,
    rd_selected_values := map (\<lambda>_. []) (rd_selected_values d),
    rd_selected_valid := map (\<lambda>_. False) (rd_selected_valid d), rd_current_row := row,
    rd_done := (n = row_count (plan_request plan))\<rparr>)"
  using assms by (auto simp: decoding_def row_selected_blank)

lemma decoder_next_record_settles:
  assumes "decoding opts plan sch (d\<lparr>rd_done := True\<rparr>)" and "\<not> rd_done d"
  shows "wp decoder_next_record (\<lambda>_. settled opts plan sch) (\<lambda>_ _. True) d"
  using assms decoding_settle [of opts plan sch "rd_returned_rows d" d]
  by (simp add: decoder_next_record_def wps split: sum.split) (simp add: decoding_def)

lemma decoder_count_row_keeps:
  assumes "live opts plan sch d"
  shows "wp decoder_count_row
    (\<lambda>_ d'. decoding opts plan sch (d'\<lparr>rd_done := True\<rparr>) \<and> \<not> rd_done d') (\<lambda>_ _. True) d"
  unfolding decoder_count_row_def wp_bind
  by (rule wp_mono [OF decoder_push_row_ok [OF assms]]) (use assms in \<open>simp_all add: wps\<close>)

lemma decoder_finish_record_keeps:
  assumes "live opts plan sch d"
  shows "wp decoder_finish_record (\<lambda>_. settled opts plan sch) (\<lambda>_ _. True) d"
proof -
  have row: "wp (pbind (if requested then decoder_count_row else preturn ()) (\<lambda>_. decoder_next_record))
      (\<lambda>_. settled opts plan sch) (\<lambda>_ _. True) d'" if "live opts plan sch d'"
    for d' :: "'a range_decoder" and requested
  proof (cases requested)
    case True
    have "wp decoder_count_row (\<lambda>_. wp decoder_next_record (\<lambda>_. settled opts plan sch) (\<lambda>_ _. True))
        (\<lambda>_ _. True) d'"
      by (rule wp_mono [OF decoder_count_row_keeps [OF that]]) (simp_all add: decoder_next_record_settles)
    then show ?thesis by (simp add: True wp_bind)
  next
    case False
    have "decoding opts plan sch (d'\<lparr>rd_done := True\<rparr>)" using that by (simp add: decoding_def)
    with that False show ?thesis by (simp add: wps decoder_next_record_settles)
  qed
  then have body: "wp (pbind (plift r) (\<lambda>requested.
      pbind (if requested then decoder_count_row else preturn ()) (\<lambda>_. decoder_next_record)))
      (\<lambda>_. settled opts plan sch) (\<lambda>_ _. True) d'" if "live opts plan sch d'"
    for d' :: "'a range_decoder" and r
  proof (cases r)
    case (Inr b)
    show ?thesis
      unfolding Inr wp_bind [of "plift (Inr b)"] wp_lift sum.case by (rule row [OF that])
  qed (simp add: wps)
  show ?thesis
    unfolding decoder_finish_record_def wp_bind [of pget] wp_get wp_bind [of "if _ then _ else _"]
    using assms
    by (auto simp: wp_return body intro!: wp_mono [OF decoder_diagnostic_keeps [OF assms]])
qed

section \<open>Batches\<close>

definition column_bytes :: "string_column_batch \<Rightarrow> nat" where
  "column_bytes c = length (scb_data c) + 4 * length (scb_offsets c) + length (scb_validity c)"

definition batch_answers :: "nat \<Rightarrow> range_plan \<Rightarrow> schema \<Rightarrow> table_batch \<Rightarrow> bool" where
  "batch_answers limit plan sch b \<longleftrightarrow>
     tb_table_id b = ''table-0'' \<and> tb_revision b = 0 \<and> tb_schema_version b = schema_version sch \<and>
     tb_range b = (plan_request plan)\<lparr>row_count := row_count (tb_range b)\<rparr> \<and>
     range_valid (tb_range b) \<and> row_count (tb_range b) \<le> row_count (plan_request plan) \<and>
     tb_complete b = (row_count (tb_range b) = row_count (plan_request plan)) \<and>
     map scb_column_id (tb_columns b) = requested_ids plan sch \<and>
     (\<forall>c \<in> set (tb_columns b). scb_wf c \<and> scb_len c = row_count (tb_range b)) \<and>
     sum_list (map column_bytes (tb_columns b)) \<le> limit"

lemma finish_columns:
  assumes "list_all2 (column_built rows) bs cols"
  shows "\<exists>cs. rcollect builder_finish bs = Inr cs \<and> map scb_column_id cs = map fst cols \<and>
    (\<forall>c \<in> set cs. scb_wf c \<and> scb_len c = rows) \<and>
    sum_list (map column_bytes cs) = 4 * length cols + columns_size cols"
  using assms
proof (induction bs cols rule: list_all2_induct)
  case Nil
  then show ?case by (simp add: columns_size_def)
next
  case (Cons b bs col cols)
  then obtain c where c: "builder_finish b = Inr c" "scb_wf c" "scb_column_id c = fst col" "scb_len c = rows"
      "length (scb_data c) + 4 * rows + length (scb_validity c) = encoded_size (snd col)"
    using builder_finish_ok [of b "fst col" "snd col"] by (auto simp: column_built_def)
  have "scb_offsets c \<noteq> []" using c(2) by (simp add: scb_wf_def)
  then have "column_bytes c = 4 + encoded_size (snd col)"
    using c by (cases "scb_offsets c") (auto simp: column_bytes_def scb_len_def saturating_sub_def)
  with Cons c show ?case by (auto simp: columns_size_def)
qed

lemma decoder_build_batch_answers:
  assumes "decoding opts plan sch d"
    and "complete = (rd_returned_rows d = row_count (plan_request plan))"
  shows "wp (decoder_build_batch complete)
    (\<lambda>b d'. batch_answers (max_batch_bytes (limits opts)) plan sch b \<and> rd_done d' = rd_done d)
    (\<lambda>_ _. True) d"
proof -
  obtain cols where built: "list_all2 (column_built (rd_returned_rows d)) (rd_builders d) cols"
      and ids: "map fst cols = requested_ids plan sch"
      and len: "length cols = column_count (plan_request plan)"
      and size: "rd_batch_bytes d = 4 * column_count (plan_request plan) + columns_size cols"
    using assms by (auto simp: decoding_def)
  obtain cs where cs: "rcollect builder_finish (rd_builders d) = Inr cs"
      "map scb_column_id cs = map fst cols" "\<forall>c \<in> set cs. scb_wf c \<and> scb_len c = rd_returned_rows d"
      "sum_list (map column_bytes cs) = 4 * length cols + columns_size cols"
    using finish_columns [OF built] by blast
  show ?thesis
    unfolding decoder_build_batch_def
    using assms cs ids len size
    by (auto simp: wps decoding_def batch_answers_def table_batch_new_def range_request_new_ok
        split: sum.split)
qed

section \<open>Chunks\<close>

lemma wp_then:
  assumes "wp m (\<lambda>_. P) (\<lambda>_ _. True) s" and "\<And>a s'. P s' \<Longrightarrow> wp (f a) Q (\<lambda>_ _. True) s'"
  shows "wp (pbind m f) Q (\<lambda>_ _. True) s"
  unfolding wp_bind using assms(1) by (rule wp_mono) (simp_all add: assms(2))

lemma wlp_then:
  assumes "wp m (\<lambda>_. P) (\<lambda>_ _. True) s" and "\<And>a s'. P s' \<Longrightarrow> wlp (f a) Q (\<lambda>_ _. True) s'"
  shows "wlp (lbind (lrun m) f) Q (\<lambda>_ _. True) s"
  unfolding wlp_bind wlp_run using assms(1) by (rule wp_mono) (simp_all add: assms(2))

lemma wlp_sliced:
  assumes "in_bounds \<Longrightarrow> wlp (f ()) Q E s"
  shows "wlp (lbind (lslice in_bounds) f) Q E s"
  using assms by (simp add: wlp_bind wlp_slice)

lemma decoder_field_end_keeps:
  assumes "live opts plan sch d"
  shows "wp (decoder_field_end record_end) (\<lambda>_. settled opts plan sch) (\<lambda>_ _. True) d"
  unfolding decoder_field_end_def
  by (rule wp_then [OF decoder_finish_field_keeps [OF assms]])
    (simp add: decoder_finish_record_keeps wp_return)

text \<open>Where a turn may leave the decoder: open when there is another turn.\<close>

abbreviation turned ::
    "delimited_options \<Rightarrow> range_plan \<Rightarrow> schema \<Rightarrow> byte list option \<Rightarrow> 'r range_decoder \<Rightarrow> bool" where
  "turned opts plan sch nxt d \<equiv> settled opts plan sch d \<and> (nxt \<noteq> None \<longrightarrow> \<not> rd_done d)"

lemma decoder_answer_keeps:
  assumes "live opts plan sch d"
  shows "wp (decoder_answer result stuck rest) (turned opts plan sch) (\<lambda>_ _. True) d"
proof -
  have cont: "wp (if stuck then pfail e
        else pbind pget (\<lambda>d. preturn (if stop \<or> rd_done d then None else Some rest)))
      (turned opts plan sch) (\<lambda>_ _. True) d'"
    if "settled opts plan sch d'" for d' :: "'a range_decoder" and stop e
    using that by (simp add: wps)
  show ?thesis
  proof (cases result)
    case (FieldEnd record_end)
    show ?thesis
      unfolding decoder_answer_def Let_def FieldEnd read_field_result.case
      by (rule wp_then [OF decoder_field_end_keeps [OF assms]]) (rule cont)
  qed (use assms in \<open>simp_all add: decoder_answer_def wps\<close>)
qed

lemma decoder_turn_keeps:
  assumes "live opts plan sch d"
  shows "wlp (decoder_turn E input) (turned opts plan sch) (\<lambda>_ _. True) d"
  unfolding decoder_turn_def
  by (rule wlp_then [OF decoder_read_keeps [OF assms]], unfold case_prod_beta, rule wlp_sliced)
    (rule wlp_then [OF decoder_append_field_keeps], assumption,
     rule wlp_then [OF decoder_advance_keeps], assumption, rule wlp_sliced, unfold wlp_run,
     rule decoder_answer_keeps)

text \<open>What a successful step answers, and how it leaves the decoder.\<close>

definition status_sound ::
    "delimited_options \<Rightarrow> range_plan \<Rightarrow> schema \<Rightarrow> range_decode_status \<Rightarrow> 'r range_decoder \<Rightarrow> bool" where
  "status_sound opts plan sch st d = (case st of
      NeedMore \<Rightarrow> live opts plan sch d
    | CompleteBatch b \<Rightarrow> batch_answers (max_batch_bytes (limits opts)) plan sch b \<and> rd_done d)"

lemma complete_sound:
  assumes "decoding opts plan sch d" and "rd_done d"
    and "complete = (rd_returned_rows d = row_count (plan_request plan))"
  shows "wp (complete_batch complete) (status_sound opts plan sch) (\<lambda>_ _. True) d"
  unfolding complete_batch_def wp_bind
  by (rule wp_mono [OF decoder_build_batch_answers [OF assms(1,3)]])
    (use assms(2) in \<open>simp_all add: wp_return status_sound_def\<close>)

lemma decoder_eof_loop_sound:
  "live opts plan sch d \<Longrightarrow> wlp (decoder_eof_loop E n) (status_sound opts plan sch) (\<lambda>_ _. True) d"
proof (induction n arbitrary: d)
  case 0
  then show ?case by (simp add: wlp_run wps)
next
  case (Suc n)
  have field_ended: "wlp (lbind (lrun pget) (\<lambda>d.
        if rd_done d then lrun (complete_batch True) else decoder_eof_loop E n))
      (status_sound opts plan sch) (\<lambda>_ _. True) d'"
    if "settled opts plan sch d'" for d' :: "'a range_decoder"
    using that unfolding wlp_bind wlp_run wp_get
    by (cases "rd_done d'") (simp_all only: if_True if_False wlp_run, auto intro!: complete_sound Suc.IH)
  have last: "wp (pbind (pmodify (\<lambda>d. d\<lparr>rd_done := True\<rparr>)) (\<lambda>_.
       pbind pget (\<lambda>d. complete_batch (rd_returned_rows d = row_count (rd_request d)))))
      (status_sound opts plan sch) (\<lambda>_ _. True) d'"
    if "live opts plan sch d'" for d' :: "'a range_decoder"
  proof -
    have "decoding opts plan sch (d'\<lparr>rd_done := True\<rparr>)" and "rd_plan d' = plan"
      using that by (simp_all add: decoding_def)
    then show ?thesis
      unfolding wp_bind [of "pmodify _"] wp_modify wp_bind [of pget] wp_get
      by (intro complete_sound) simp_all
  qed
  have step: "wlp (case result of
       FieldEnd record_end \<Rightarrow>
         lbind (lrun (decoder_field_end record_end)) (\<lambda>_.
         lbind (lrun pget) (\<lambda>d.
         if rd_done d then lrun (complete_batch True) else decoder_eof_loop E n))
     | EndOfInput \<Rightarrow>
         lrun (pbind (pmodify (\<lambda>d. d\<lparr>rd_done := True\<rparr>)) (\<lambda>_.
         pbind pget (\<lambda>d. complete_batch (rd_returned_rows d = row_count (rd_request d)))))
     | OutputFull \<Rightarrow> decoder_eof_loop E n
     | InputEmpty \<Rightarrow> decoder_eof_loop E n) (status_sound opts plan sch) (\<lambda>_ _. True) d'"
    if d': "live opts plan sch d'" for result and d' :: "'a range_decoder"
  proof (cases result)
    case (FieldEnd record_end)
    show ?thesis
      unfolding FieldEnd read_field_result.case
      by (rule wlp_then [OF decoder_field_end_keeps [OF d']]) (rule field_ended)
  next
    case EndOfInput
    show ?thesis unfolding EndOfInput read_field_result.case wlp_run by (rule last [OF d'])
  qed (use Suc.IH [OF d'] in simp_all)
  show ?case
    unfolding decoder_eof_loop.simps
    by (rule wlp_then [OF decoder_read_keeps [OF Suc.prems]], unfold case_prod_beta, rule wlp_sliced)
      (rule wlp_then [OF decoder_append_field_keeps], assumption, rule step)
qed

lemma decoder_finish_eof_sound:
  assumes "live opts plan sch d"
  shows "wlp (decoder_finish_eof E) (status_sound opts plan sch) (\<lambda>_ _. True) d"
proof -
  have "wp decoder_unclosed_quote (\<lambda>_. live opts plan sch) (\<lambda>_ _. True) d"
    using assms wp_mono [OF decoder_diagnostic_keeps [OF assms]]
    by (auto simp: decoder_unclosed_quote_def wps split: option.split)
  then show ?thesis
    unfolding decoder_finish_eof_def by (rule wlp_then) (rule decoder_eof_loop_sound)
qed

lemma decoder_accept_keeps:
  assumes "rd_done d \<or> live opts plan sch d"
  shows "wp (decoder_accept absolute_offset bytes) (\<lambda>_. live opts plan sch) (\<lambda>_ _. True) d"
proof -
  have issue: "wp (pbind pget (\<lambda>d. decoder_diagnostic (c d))) (\<lambda>_. live opts plan sch) (\<lambda>_ _. True) d'"
    if "live opts plan sch d'" for d' :: "'a range_decoder" and c
    unfolding wp_bind wp_get
    by (rule wp_mono [OF decoder_diagnostic_keeps [OF that]]) simp_all
  have "wp (pforeach (\<lambda>issue. pbind pget (\<lambda>d. decoder_diagnostic (c d issue))) issues)
      (\<lambda>_. live opts plan sch) (\<lambda>_ _. True) (d\<lparr>rd_lexical := t\<rparr>)"
    if "live opts plan sch d" for c t and issues :: "quote_issue list"
    using that by (intro wp_foreach_inv issue) simp_all
  then show ?thesis
    using assms by (auto simp: decoder_accept_def wps split: prod.split)
qed

lemma decoder_feed_chunk_sound:
  assumes "rd_done d \<or> live opts plan sch d"
  shows "wlp (decoder_feed_chunk E absolute_offset bytes eof) (status_sound opts plan sch) (\<lambda>_ _. True) d"
proof -
  have last: "wlp (if rd_done d' then lrun (complete_batch True)
       else if eof then decoder_finish_eof E else lrun (preturn NeedMore))
      (status_sound opts plan sch) (\<lambda>_ _. True) d'" if "settled opts plan sch d'"
    for d' :: "'a range_decoder"
    using that by (auto simp: complete_sound decoder_finish_eof_sound wlp_run wp_return status_sound_def)
  have loop: "wlp (if bytes = [] then lrun (preturn ()) else ploop (decoder_turn E) bytes)
      (\<lambda>_. settled opts plan sch) (\<lambda>_ _. True) d'" if "live opts plan sch d'" for d' :: "'a range_decoder"
  proof (cases "bytes = []")
    case True
    then show ?thesis using that by (simp add: wlp_run wp_return)
  next
    case False
    have "wlp (ploop (decoder_turn E) bytes) (\<lambda>_. settled opts plan sch) (\<lambda>_ _. True) d'"
      by (rule wlp_loop [where I = "\<lambda>_. live opts plan sch"], rule that,
          rule wlp_mono [OF decoder_turn_keeps], assumption) (auto split: option.split)
    with False show ?thesis by simp
  qed
  show ?thesis
    unfolding decoder_feed_chunk_def wlp_bind wlp_run [of "decoder_accept _ _"] wlp_run [of pget] wp_get_fun
    by (rule wp_mono [OF decoder_accept_keeps [OF assms]], rule wlp_mono [OF loop], assumption,
        rule last) simp_all
qed

section \<open>Termination\<close>

lemma decoder_reader_answer:
  assumes "reader_progress E" and "decoder_read E input d = (Inr (result, consumed, written), d')"
  shows "consumed \<le> length input" "length written \<le> field_scratch_bytes" "input \<noteq> [] \<Longrightarrow> 0 < consumed"
proof -
  obtain r where "env_read_field E (rd_reader d) input field_scratch_bytes = ((result, consumed, written), r)"
    using assms(2) by (auto simp: decoder_read_def split: prod.splits)
  then show "consumed \<le> length input" "length written \<le> field_scratch_bytes" "input \<noteq> [] \<Longrightarrow> 0 < consumed"
    using assms(1) unfolding reader_progress_def field_scratch_bytes_def by fastforce+
qed

lemma decoder_turn_returns:
  assumes "reader_progress E"
  shows "returns (decoder_turn E input) d"
  unfolding decoder_turn_def
  by (auto intro!: returns_bind dest: decoder_reader_answer [OF assms] split: prod.splits)

lemma decoder_answer_next:
  "decoder_answer result stuck rest d = (Inr (Some rest'), d') \<Longrightarrow> rest' = rest \<and> rest \<noteq> []"
  by (auto simp: decoder_answer_def prog_defs Let_def split: prod.splits sum.splits read_field_result.splits if_splits)

lemma decoder_turn_next:
  assumes "reader_progress E" and "input \<noteq> []" and "decoder_turn E input d = Some (Inr (Some rest), d')"
  shows "rest \<noteq> [] \<and> length rest < length input"
proof -
  obtain result consumed written u v where read: "decoder_read E input d = (Inr (result, consumed, written), u)"
    and answer: "decoder_answer result (consumed = 0 \<and> written = []) (drop consumed input) v
      = (Inr (Some rest), d')"
    using assms(3)
    by (auto simp: decoder_turn_def lbind_def lrun_def lslice_def split: prod.splits sum.splits if_splits)
  then show ?thesis
    using assms(2) decoder_reader_answer [OF assms(1) read] decoder_answer_next [OF answer] by (cases input) auto
qed

lemma decoder_eof_loop_returns:
  assumes "reader_progress E"
  shows "returns (decoder_eof_loop E n) d"
proof (induction n arbitrary: d)
  case 0
  show ?case by simp
next
  case (Suc n)
  then show ?case
    by (auto intro!: returns_bind dest: decoder_reader_answer [OF assms]
        split: prod.splits read_field_result.splits)
qed

lemma decoder_feed_chunk_returns:
  assumes "reader_progress E"
  shows "returns (decoder_feed_chunk E offset bytes eof) d"
proof -
  have "returns (ploop (decoder_turn E) bytes) d'" if "bytes \<noteq> []" for d'
    by (rule ploop_returns [where I = "\<lambda>x _. x \<noteq> []" and m = length])
      (use that decoder_turn_next [OF assms] decoder_turn_returns [OF assms] in auto)
  moreover have "returns (decoder_finish_eof E) d'" for d'
    unfolding decoder_finish_eof_def by (intro returns_bind decoder_eof_loop_returns [OF assms]) auto
  ultimately show ?thesis
    unfolding decoder_feed_chunk_def by (intro returns_bind) auto
qed

section \<open>Construction\<close>

text \<open>A plan for a request inside the schema builds a decoder, or is refused for its size.\<close>

lemma decoder_new_cases:
  assumes "range_valid (plan_request plan)"
    and "column_start (plan_request plan) + column_count (plan_request plan) \<le> length (schema_columns sch)"
  shows "(\<exists>e. decoder_new E opts plan sch = Returns (Inl e) \<and> err_code e = ResourceLimit) \<or>
    (\<exists>d. decoder_new E opts plan sch = Returns (Inr d) \<and>
       (if row_count (plan_request plan) = 0 then decoding opts plan sch d \<and> rd_done d
        else live opts plan sch d) \<and> rd_returned_rows d = 0 \<and>
       rd_expected_offset d = plan_source_offset plan)"
proof -
  let ?cc = "column_count (plan_request plan)" and ?cs = "column_start (plan_request plan)"
  let ?ids = "requested_ids plan sch"
  have fit: "?cc \<le> u64_max" "?cs \<le> u64_max"
    using assms(1) by (simp_all add: range_valid_def max_safe_integer_def u64_max_def)
  have len: "length ?ids = ?cc" using assms(2) by (simp add: requested_ids_def)
  have built: "list_all2 (column_built 0) (map builder_new ?ids) (map (\<lambda>cid. (cid, [])) ?ids)"
    by (simp add: list_all2_map1 list_all2_map2 list_all2_same column_built_def builds_new present_valid_def)
  have size: "columns_size (map (\<lambda>cid. (cid, [])) ids) = 0" for ids
    by (induction ids) (simp_all add: columns_size_def encoded_size_def column_data_def div_ceil_def)
  have start: "map builder_new ?ids =
      map (\<lambda>c. builder_new (col_id c)) (take ?cc (drop ?cs (schema_columns sch)))"
    by (simp add: requested_ids_def)
  have "\<exists>cols. list_all2 (column_built 0)
        (map (\<lambda>c. builder_new (col_id c)) (take ?cc (drop ?cs (schema_columns sch)))) cols \<and>
      map fst cols = ?ids \<and> length cols = ?cc \<and> ?cc * 4 = 4 * ?cc + columns_size cols"
    using built len size unfolding start
    by (intro exI [of _ "map (\<lambda>cid. (cid, [])) ?ids"]) (simp add: comp_def)
  then show ?thesis
    using assms fit
    by (cases "u64_max < ?cc * 4"; cases "max_batch_bytes (limits opts) < ?cc * 4")
      (simp_all add: decoder_new_def slice_get_def decoding_def row_selected_def)
qed

section \<open>Properties\<close>

text \<open>The decoders a caller can hold: a fresh one, fed while it asks for more.\<close>

inductive decoder_fed :: "'r csv_env \<Rightarrow> 'r range_decoder \<Rightarrow> 'r range_decoder \<Rightarrow> bool" for E d where
  fed_start: "decoder_fed E d d"
| fed_chunk: "decoder_fed E d d' \<Longrightarrow>
     decoder_feed_chunk E offset bytes eof d' = Some (Inr NeedMore, d'') \<Longrightarrow> decoder_fed E d d''"

lemma decoder_fed_live:
  assumes "decoder_fed E d d'" and "live opts plan sch d"
  shows "live opts plan sch d'"
  using assms
proof (induction rule: decoder_fed.induct)
  case (fed_chunk d' offset bytes eof d'')
  then have "rd_done d' \<or> live opts plan sch d'" by simp
  from wlp_ok [OF decoder_feed_chunk_sound [OF this] fed_chunk.hyps(2)]
  show ?case by (simp add: status_sound_def)
qed

text \<open>
  C2: A decoded range answers its request. Whatever bytes arrive, cut into whatever chunks,
  and whatever the external reader answers, a batch that a decoder returns covers rows from
  the first requested one, no more than were requested, and says it is complete exactly
  when it has them all; it holds the requested columns in schema order, each a well-formed
  column with one value per returned row, within the configured byte limit; and the decoder
  is then closed.
\<close>

theorem decoded_batch_answers_request:
  assumes "decoder_new E opts plan sch = Returns (Inr d)" and "0 < row_count (plan_request plan)"
    and "range_valid (plan_request plan)"
    and "column_start (plan_request plan) + column_count (plan_request plan) \<le> length (schema_columns sch)"
    and "decoder_fed E d d'"
    and "decoder_feed_chunk E offset bytes eof d' = Some (Inr (CompleteBatch b), d'')"
  shows "batch_answers (max_batch_bytes (limits opts)) plan sch b \<and> rd_done d''"
proof -
  have "live opts plan sch d" using decoder_new_cases [OF assms(3,4), where E = E and opts = opts] assms(1,2) by auto
  then have "rd_done d' \<or> live opts plan sch d'" using decoder_fed_live [OF assms(5)] by simp
  from wlp_ok [OF decoder_feed_chunk_sound [OF this] assms(6)] show ?thesis by (simp add: status_sound_def)
qed

text \<open>
  A decoder refuses what it cannot use: bytes after its batch was returned, and bytes
  that do not continue where the last ones ended; the refusal changes nothing.
\<close>

theorem decoder_refuses_out_of_order:
  assumes "rd_done d \<or> offset \<noteq> rd_expected_offset d"
  shows "\<exists>e. decoder_feed_chunk E offset bytes eof d = Some (Inl e, d) \<and>
    err_code e = (if rd_done d then HandleClosed else InvalidArgument)"
  using assms by (auto simp: decoder_feed_chunk_def decoder_accept_def lbind_def lrun_def prog_defs)

text \<open>A concrete decode of the second row of \<open>1\2\3\<close>, one value per line.\<close>

definition plain_schema :: schema where
  "plain_schema = \<lparr>schema_version = 1, schema_columns =
     [\<lparr>col_id = ''c0'', col_name = ''column_1'', col_index = 0, col_data_type = TUtf8,
       col_nullable = True, col_extensions = Map.empty\<rparr>]\<rparr>"

definition plain_plan :: range_plan where
  "plain_plan = \<lparr>plan_checkpoint = \<lparr>ck_row = 0, ck_byte_offset = 0\<rparr>, plan_request = second_row,
     plan_rows_to_skip = 1\<rparr>"

definition plain_decoder :: "unit range_decoder" where
  "plain_decoder = (case decoder_new plain_env plain_options plain_plan plain_schema of
     Returns (Inr d) \<Rightarrow> d | _ \<Rightarrow> undefined)"

lemmas decode_eval = scan_eval decoder_feed_chunk_def decoder_accept_def decoder_turn_def decoder_answer_def decoder_read_def
  decoder_append_field_def decoder_advance_def decoder_field_end_def decoder_finish_field_def
  decoder_keep_field_def decoder_finish_record_def decoder_count_row_def decoder_push_row_def
  decoder_next_record_def decoder_build_batch_def complete_batch_def decoder_finish_eof_def decoder_unclosed_quote_def row_requested_def
  builder_push_def builder_new_def builder_finish_def validity_mark_def value_data_def
  decoder_new_def slice_get_def plain_plan_def plain_schema_def second_row_def
  plan_source_offset_def schema_len_def row_end_def checked_end_def table_batch_new_def
  u32_max_def u32_try_from_def bit_mask_def range_request_new_def validate_public_def column_end_def
  string_column_batch_new_def div_ceil_def

lemma plain_decoder_new:
  "decoder_new plain_env plain_options plain_plan plain_schema = Returns (Inr plain_decoder)"
  unfolding plain_decoder_def by (simp add: decode_eval)

lemma plain_decode:
  "\<exists>b d. decoder_feed_chunk plain_env 0 [0x31, 0x0A, 0x32, 0x0A] False plain_decoder =
     Some (Inr (CompleteBatch b), d) \<and> rd_done d"
  unfolding plain_decoder_def by (simp add: decode_eval)

theorem decoded_batch_answers_request_witness:
  "\<exists>b d. decoder_feed_chunk plain_env 0 [0x31, 0x0A, 0x32, 0x0A] False plain_decoder =
     Some (Inr (CompleteBatch b), d) \<and> batch_answers (max_batch_bytes (limits plain_options)) plain_plan plain_schema b"
proof -
  obtain b d where run: "decoder_feed_chunk plain_env 0 [0x31, 0x0A, 0x32, 0x0A] False plain_decoder =
     Some (Inr (CompleteBatch b), d)"
    using plain_decode by blast
  from decoded_batch_answers_request [OF plain_decoder_new _ _ _ fed_start run] run
  show ?thesis by (auto simp: plain_plan_def plain_schema_def second_row_def range_valid_def max_safe_integer_def)
qed

theorem decoder_refuses_out_of_order_witness:
  "\<exists>e. decoder_feed_chunk plain_env 7 [0x31] False plain_decoder = Some (Inl e, plain_decoder) \<and>
     err_code e = InvalidArgument"
  using decoder_refuses_out_of_order [of plain_decoder 7 plain_env "[0x31]" False]
  by (simp add: plain_decoder_def decode_eval)

end
