(* ===== verification/Csv_Window.thy ===== *)
theory Csv_Window
  imports Csv_Decoding
begin

text \<open>
  What the decoder's batch contains. The specification is a table: the records that the
  external reader, started fresh at the checkpoint, finds in the source (\<open>parses\<close>). The
  batch is the requested window of that table, each field with its ill-formed bytes
  replaced and a missing field as null. \<open>tracks\<close> is the simulation between the decoder and
  the table read so far.
\<close>

section \<open>The table a reader finds\<close>

record parse =
  tr_records :: "byte list list list"
  tr_fields :: "byte list list"
  tr_field :: "byte list"

definition empty_parse :: parse where
  "empty_parse = \<lparr>tr_records = [], tr_fields = [], tr_field = []\<rparr>"

definition end_field :: "parse \<Rightarrow> parse" where
  "end_field t = t\<lparr>tr_fields := tr_fields t @ [tr_field t], tr_field := []\<rparr>"

definition end_record :: "parse \<Rightarrow> parse" where
  "end_record t = t\<lparr>tr_records := tr_records t @ [tr_fields t], tr_fields := []\<rparr>"

definition absorb :: "read_field_result \<Rightarrow> byte list \<Rightarrow> parse \<Rightarrow> parse" where
  "absorb result written t =
     (let t = t\<lparr>tr_field := tr_field t @ written\<rparr> in
      case result of
        FieldEnd record_end \<Rightarrow> if record_end then end_record (end_field t) else end_field t
      | _ \<Rightarrow> t)"

text \<open>
  \<open>parses E source r offset t r' offset' t'\<close>: reading on from \<open>offset\<close> with slices of the
  source of any length, the reader gets from \<open>r\<close> to \<open>r'\<close> and the table from \<open>t\<close> to \<open>t'\<close>.
\<close>

inductive parses :: "'r csv_env \<Rightarrow> byte list \<Rightarrow> 'r \<Rightarrow> nat \<Rightarrow> parse \<Rightarrow> 'r \<Rightarrow> nat \<Rightarrow> parse \<Rightarrow> bool"
  for E source r offset t where
  parse_start: "parses E source r offset t r offset t"
| parse_read: "parses E source r offset t r' offset' t' \<Longrightarrow>
     env_read_field E r' (take n (drop offset' source)) field_scratch_bytes =
       ((result, consumed, written), r'') \<Longrightarrow>
     parses E source r offset t r'' (offset' + consumed) (absorb result written t')"

section \<open>The window of a request\<close>

definition cell :: "byte list list \<Rightarrow> nat \<Rightarrow> byte list option" where
  "cell cells k = (if k < length cells then Some (utf8_lossy (cells ! k)) else None)"

definition window :: "range_plan \<Rightarrow> byte list list list \<Rightarrow> byte list list list" where
  "window plan records = take (row_count (plan_request plan))
     (drop (row_start (plan_request plan) - ck_row (plan_checkpoint plan)) records)"

definition window_column :: "range_plan \<Rightarrow> byte list list list \<Rightarrow> nat \<Rightarrow> byte list option list" where
  "window_column plan records j =
     map (\<lambda>cells. cell cells (column_start (plan_request plan) + j)) (window plan records)"

definition window_columns :: "range_plan \<Rightarrow> schema \<Rightarrow> byte list list list \<Rightarrow> columns" where
  "window_columns plan sch records =
     map (\<lambda>j. (requested_ids plan sch ! j, window_column plan records j))
       [0..<column_count (plan_request plan)]"

definition in_window :: "range_plan \<Rightarrow> nat \<Rightarrow> bool" where
  "in_window plan row \<longleftrightarrow> row_start (plan_request plan) \<le> row \<and>
     row < row_start (plan_request plan) + row_count (plan_request plan)"

definition row_cells :: "range_plan \<Rightarrow> nat \<Rightarrow> byte list list \<Rightarrow> byte list option list" where
  "row_cells plan row cells =
     map (\<lambda>j. if in_window plan row then cell cells (column_start (plan_request plan) + j) else None)
       [0..<column_count (plan_request plan)]"

definition plan_fits :: "range_plan \<Rightarrow> schema \<Rightarrow> bool" where
  "plan_fits plan sch \<longleftrightarrow> range_valid (plan_request plan) \<and>
     ck_row (plan_checkpoint plan) \<le> row_start (plan_request plan) \<and>
     column_start (plan_request plan) + column_count (plan_request plan) \<le> length (schema_columns sch)"

lemma window_snoc:
  assumes "ck_row (plan_checkpoint plan) \<le> row_start (plan_request plan)"
  shows "window plan (records @ [cells]) =
    (if in_window plan (ck_row (plan_checkpoint plan) + length records)
     then window plan records @ [cells] else window plan records)"
  using assms by (auto simp: window_def in_window_def)

lemma window_columns_snoc:
  assumes "ck_row (plan_checkpoint plan) \<le> row_start (plan_request plan)"
  shows "window_columns plan sch (records @ [cells]) =
    (if in_window plan (ck_row (plan_checkpoint plan) + length records)
     then add_row (window_columns plan sch records)
       (row_cells plan (ck_row (plan_checkpoint plan) + length records) cells)
     else window_columns plan sch records)"
  by (auto simp: window_columns_def window_column_def window_snoc [OF assms] add_row_def row_cells_def
      intro!: nth_equalityI)

lemma push_row_builds:
  assumes "push_row max_bytes bs vs valids n = (Inr u, bs', n')"
    and "list_all2 (\<lambda>b c. builds b (fst c) (snd c)) bs cols" and "length vs = length bs"
    and "length valids = length bs"
  shows "list_all2 (\<lambda>b c. builds b (fst c) (snd c)) bs' (add_row cols (picked vs valids))"
  using assms
proof (induction max_bytes bs vs valids n arbitrary: cols bs' n' rule: push_row.induct)
  case (1 max_bytes b bs v vs valid valids n)
  let ?v = "if valid then Some v else None"
  obtain b1 n1 bs1 where push: "builder_push ?v max_bytes (b, n) = (Inr (), b1, n1)"
    and rest: "push_row max_bytes bs vs valids n1 = (Inr u, bs1, n')" and bs': "bs' = b1 # bs1"
    using 1(2) by (auto split: prod.splits sum.splits)
  obtain c cs where cols: "cols = c # cs" and c: "builds b (fst c) (snd c)"
    and cs: "list_all2 (\<lambda>b c. builds b (fst c) (snd c)) bs cs"
    using 1(3) by (cases cols) auto
  from 1(1) [OF push [symmetric] refl refl rest cs] 1(4,5) builder_push_Inr [OF push c]
  show ?case by (simp add: bs' cols add_row_def picked_def)
qed (auto simp: add_row_def picked_def)

section \<open>The simulation\<close>

definition tracks :: "range_plan \<Rightarrow> schema \<Rightarrow> parse \<Rightarrow> 'r range_decoder \<Rightarrow> bool" where
  "tracks plan sch t d \<longleftrightarrow> rd_plan d = plan \<and> rd_schema d = sch \<and> rd_field d = tr_field t \<and>
     rd_field_index d = length (tr_fields t) \<and>
     rd_current_row d = ck_row (plan_checkpoint plan) + length (tr_records t) \<and>
     length (rd_selected_values d) = column_count (plan_request plan) \<and>
     length (rd_selected_valid d) = column_count (plan_request plan) \<and>
     picked (rd_selected_values d) (rd_selected_valid d) =
       row_cells plan (ck_row (plan_checkpoint plan) + length (tr_records t)) (tr_fields t) \<and>
     rd_returned_rows d = length (window plan (tr_records t)) \<and>
     list_all2 (\<lambda>b c. builds b (fst c) (snd c)) (rd_builders d) (window_columns plan sch (tr_records t))"

lemma tracks_frame [simp]:
  "tracks plan sch t (d\<lparr>rd_reader := r\<rparr>) = tracks plan sch t d"
  "tracks plan sch t (d\<lparr>rd_lexical := l\<rparr>) = tracks plan sch t d"
  "tracks plan sch t (d\<lparr>rd_expected_offset := n\<rparr>) = tracks plan sch t d"
  "tracks plan sch t (d\<lparr>rd_diagnostics := ds\<rparr>) = tracks plan sch t d"
  "tracks plan sch t (d\<lparr>rd_done := b\<rparr>) = tracks plan sch t d"
  by (simp_all add: tracks_def)

text \<open>The fields of a record being decoded do not move the reader.\<close>

definition same_reader :: "'r range_decoder \<Rightarrow> 'r range_decoder \<Rightarrow> bool" where
  "same_reader d d' \<longleftrightarrow> rd_reader d' = rd_reader d \<and> rd_expected_offset d' = rd_expected_offset d"

lemma row_requested_window:
  assumes "plan_fits plan sch" and "tracks plan sch t d"
  shows "row_requested d = Inr (in_window plan (ck_row (plan_checkpoint plan) + length (tr_records t)))"
  using assms by (auto simp: row_requested_def tracks_def plan_fits_def range_valid_ends in_window_def)

lemma decoder_diagnostic_tracks:
  "wp (decoder_diagnostic c) (\<lambda>_ d'. \<exists>ds. d' = d\<lparr>rd_diagnostics := ds\<rparr>) (\<lambda>_ _. True) d"
  by (simp add: decoder_diagnostic_def wps split: sum.split) blast

lemma picked_update:
  assumes "length vs = length valids"
  shows "picked (vs[i := v]) (valids[i := True]) = (picked vs valids)[i := Some v]"
proof (rule nth_equalityI)
  fix k assume "k < length (picked (vs[i := v]) (valids[i := True]))"
  then show "picked (vs[i := v]) (valids[i := True]) ! k = (picked vs valids)[i := Some v] ! k"
    using assms by (cases "k = i") (simp_all add: picked_def)
qed (simp add: picked_def)

lemma row_cells_snoc:
  assumes "\<not> (in_window plan row \<and> column_start (plan_request plan) \<le> length cells \<and>
    length cells < column_start (plan_request plan) + column_count (plan_request plan))"
  shows "row_cells plan row (cells @ [bytes]) = row_cells plan row cells"
  using assms by (auto simp: row_cells_def cell_def nth_append)

lemma row_cells_kept:
  assumes "in_window plan row" and "column_start (plan_request plan) \<le> length cells"
  shows "row_cells plan row (cells @ [bytes]) =
    (row_cells plan row cells)[length cells - column_start (plan_request plan) := Some (utf8_lossy bytes)]"
  using assms by (auto simp: row_cells_def cell_def nth_append nth_list_update intro!: nth_equalityI)

lemma decoder_keep_field_tracks:
  "wp (decoder_keep_field i)
    (\<lambda>_ d'. \<exists>ds. d' = d\<lparr>rd_diagnostics := ds,
       rd_selected_values := (rd_selected_values d)[i := utf8_lossy (rd_field d)], rd_field := [],
       rd_selected_valid := (rd_selected_valid d)[i := True]\<rparr>) (\<lambda>_ _. True) d"
proof (cases "utf8_valid (rd_field d)")
  case True
  have "wp (decoder_keep_field i) (\<lambda>_ d'. d' = d\<lparr>rd_selected_values := (rd_selected_values d)[i := rd_field d],
      rd_field := [], rd_selected_valid := (rd_selected_valid d)[i := True]\<rparr>) (\<lambda>_ _. True) d"
    using True by (simp add: decoder_keep_field_def wps)
  then show ?thesis
    by (rule wp_mono) (intro exI [of _ "rd_diagnostics d"], simp_all add: utf8_lossy_id True)
next
  case False
  let ?put = "\<lambda>d :: 'a range_decoder. d\<lparr>rd_selected_values := (rd_selected_values d)[i := rd_field d],
      rd_field := [], rd_selected_valid := (rd_selected_valid d)[i := True]\<rparr>"
  have "wp (decoder_keep_field i) (\<lambda>_ d'. \<exists>ds. d' = ?put (d\<lparr>rd_diagnostics := ds, rd_field := utf8_lossy (rd_field d)\<rparr>))
      (\<lambda>_ _. True) d"
    unfolding decoder_keep_field_def wps
    by (simp only: False not_False_eq_True if_True wps)
      (rule wp_mono [OF decoder_diagnostic_tracks]; auto simp: wps)
  then show ?thesis by (rule wp_mono) auto
qed

lemma decoder_finish_field_tracks:
  assumes "plan_fits plan sch" and "tracks plan sch t d"
  shows "wp decoder_finish_field
    (\<lambda>_ d'. tracks plan sch (end_field t) d' \<and> same_reader d d' \<and> rd_done d' = rd_done d) (\<lambda>_ _. True) d"
proof -
  let ?row = "ck_row (plan_checkpoint plan) + length (tr_records t)"
  let ?cs = "column_start (plan_request plan)"
  let ?n = "length (tr_fields t)"
  let ?d = "d\<lparr>rd_field_index := Suc ?n\<rparr>"
  let ?Q = "\<lambda>_ d'. tracks plan sch (end_field t) d' \<and> same_reader d d' \<and> rd_done d' = rd_done d"
  have d: "rd_field_index d = ?n" "rd_plan d = plan" "rd_field d = tr_field t"
      "length (rd_selected_values d) = column_count (plan_request plan)"
      "length (rd_selected_valid d) = length (rd_selected_values d)"
      "picked (rd_selected_values d) (rd_selected_valid d) = row_cells plan ?row (tr_fields t)"
    using assms(2) by (simp_all add: tracks_def)
  have requested: "row_requested d = Inr (in_window plan ?row)" by (rule row_requested_window [OF assms])
  have body: "wp (if in_window plan ?row \<and> ?cs \<le> ?n \<and> ?n < ?cs + column_count (plan_request plan)
      then decoder_keep_field (?n - ?cs) else pmodify (\<lambda>d. d\<lparr>rd_field := []\<rparr>)) ?Q (\<lambda>_ _. True) ?d"
  proof (cases "in_window plan ?row \<and> ?cs \<le> ?n \<and> ?n < ?cs + column_count (plan_request plan)")
    case True
    have "tracks plan sch (end_field t) (?d\<lparr>rd_diagnostics := ds,
        rd_selected_values := (rd_selected_values ?d)[?n - ?cs := utf8_lossy (rd_field ?d)], rd_field := [],
        rd_selected_valid := (rd_selected_valid ?d)[?n - ?cs := True]\<rparr>)" for ds
      using assms(2) True d row_cells_kept [of plan ?row "tr_fields t" "tr_field t"]
      by (simp add: tracks_def end_field_def picked_update)
    moreover have "wp (decoder_keep_field (?n - ?cs)) ?Q (\<lambda>_ _. True) ?d"
      by (rule wp_mono [OF decoder_keep_field_tracks])
        (use calculation in \<open>auto simp: same_reader_def\<close>)
    ultimately show ?thesis by (simp only: True if_True simp_thms)
  next
    case False
    have "row_cells plan ?row (tr_fields t @ [tr_field t]) = row_cells plan ?row (tr_fields t)"
      by (rule row_cells_snoc [OF False])
    then have "tracks plan sch (end_field t) (?d\<lparr>rd_field := []\<rparr>)"
      using assms(2) by (simp add: tracks_def end_field_def)
    then show ?thesis by (simp only: False if_False wp_modify) (simp add: same_reader_def)
  qed
  show ?thesis
    unfolding decoder_finish_field_def wps Let_def
    using body by (auto simp: d requested wps split: sum.split if_splits)
qed

text \<open>The end of a record: its row joins the builders when the request covers it.\<close>

lemma picked_blank: "picked (map (\<lambda>_. []) vs) (map (\<lambda>_. False) valids) = replicate (min (length vs) (length valids)) None"
  by (rule nth_equalityI) (simp_all add: picked_def)

lemma row_cells_blank: "row_cells plan row [] = replicate (column_count (plan_request plan)) None"
  by (rule nth_equalityI) (simp_all add: row_cells_def cell_def)

lemma decoder_next_record_tracks:
  assumes "rd_plan d = plan" and "rd_schema d = sch" and "rd_field d = tr_field t"
    and "rd_current_row d = ck_row (plan_checkpoint plan) + length (tr_records t)"
    and "length (rd_selected_values d) = column_count (plan_request plan)"
    and "length (rd_selected_valid d) = column_count (plan_request plan)"
    and "rd_returned_rows d = length (window plan (tr_records (end_record t)))"
    and "list_all2 (\<lambda>b c. builds b (fst c) (snd c)) (rd_builders d)
           (window_columns plan sch (tr_records (end_record t)))"
  shows "wp decoder_next_record
    (\<lambda>_ d'. tracks plan sch (end_record t) d' \<and> same_reader d d') (\<lambda>_ _. True) d"
  using assms
  by (simp add: decoder_next_record_def wps tracks_def end_record_def same_reader_def picked_blank
      row_cells_blank split: sum.split)

lemma decoder_finish_record_tracks:
  assumes "plan_fits plan sch" and "tracks plan sch t d"
  shows "wp decoder_finish_record
    (\<lambda>_ d'. tracks plan sch (end_record t) d' \<and> same_reader d d') (\<lambda>_ _. True) d"
proof -
  let ?row = "ck_row (plan_checkpoint plan) + length (tr_records t)"
  let ?Q = "\<lambda>_ d'. tracks plan sch (end_record t) d' \<and> same_reader d d'"
  have ck: "ck_row (plan_checkpoint plan) \<le> row_start (plan_request plan)"
    using assms(1) by (simp add: plan_fits_def)
  have requested: "row_requested d = Inr (in_window plan ?row)" by (rule row_requested_window [OF assms])
  have row: "wp (pbind (if in_window plan ?row then decoder_count_row else preturn ()) (\<lambda>_. decoder_next_record))
      ?Q (\<lambda>_ _. True) d'"
    if same: "d' = d\<lparr>rd_diagnostics := ds\<rparr>" for d' ds
  proof (cases "in_window plan ?row")
    case True
    have "wp decoder_count_row (\<lambda>_. wp decoder_next_record ?Q (\<lambda>_ _. True)) (\<lambda>_ _. True) d'"
    proof (rule wpI)
      fix u d2 assume "decoder_count_row d' = (Inr u, d2)"
      then obtain bs n where push: "push_row (max_batch_bytes (limits (rd_options d))) (rd_builders d)
            (rd_selected_values d) (rd_selected_valid d) (rd_batch_bytes d) = (Inr (), bs, n)"
          and d2: "d2 = d'\<lparr>rd_builders := bs, rd_batch_bytes := n,
            rd_returned_rows := rd_returned_rows d + 1\<rparr>"
        by (auto simp: decoder_count_row_def decoder_push_row_def prog_defs same
            split: prod.splits sum.splits)
      have built: "list_all2 (\<lambda>b c. builds b (fst c) (snd c)) (rd_builders d) (window_columns plan sch (tr_records t))"
        using assms(2) by (simp add: tracks_def)
      then have "length (rd_builders d) = column_count (plan_request plan)"
        by (auto dest: list_all2_lengthD simp: window_columns_def)
      then have "list_all2 (\<lambda>b c. builds b (fst c) (snd c)) bs
          (window_columns plan sch (tr_records (end_record t)))"
        using push_row_builds [OF push built] assms(2) True
        by (simp add: tracks_def end_record_def window_columns_snoc [OF ck])
      then have "wp decoder_next_record (\<lambda>_ d'. tracks plan sch (end_record t) d' \<and> same_reader d2 d')
          (\<lambda>_ _. True) d2"
        using assms(2) True
        by (intro decoder_next_record_tracks)
          (simp_all add: d2 same tracks_def end_record_def window_snoc [OF ck])
      then show "wp decoder_next_record ?Q (\<lambda>_ _. True) d2"
        by (rule wp_mono) (simp_all add: same_reader_def d2 same)
    qed simp
    then show ?thesis using True by (simp add: wp_bind)
  next
    case False
    have "wp decoder_next_record (\<lambda>_ d2. tracks plan sch (end_record t) d2 \<and> same_reader d' d2)
        (\<lambda>_ _. True) d'"
      using assms(2) False
      by (intro decoder_next_record_tracks)
        (simp_all add: same tracks_def end_record_def window_snoc [OF ck] window_columns_snoc [OF ck])
    then have "wp decoder_next_record ?Q (\<lambda>_ _. True) d'"
      by (rule wp_mono) (simp_all add: same_reader_def same)
    with False show ?thesis by (simp add: wps)
  qed
  have "wp (if b then decoder_diagnostic c else preturn ())
      (\<lambda>_. wp (pbind (if in_window plan ?row then decoder_count_row else preturn ()) (\<lambda>_. decoder_next_record))
        ?Q (\<lambda>_ _. True)) (\<lambda>_ _. True) d" for b c
  proof (cases b)
    case True
    have "wp (decoder_diagnostic c)
      (\<lambda>_. wp (pbind (if in_window plan ?row then decoder_count_row else preturn ()) (\<lambda>_. decoder_next_record))
        ?Q (\<lambda>_ _. True)) (\<lambda>_ _. True) d"
      by (rule wp_mono [OF decoder_diagnostic_tracks], elim exE, rule row, assumption, rule TrueI)
    with True show ?thesis by simp
  next
    case False
    then show ?thesis using row [of d "rd_diagnostics d"] by (simp add: wp_return)
  qed
  then show ?thesis
    unfolding decoder_finish_record_def wp_bind [of pget] wp_get requested pbind_lift_ok
    by (simp only: wp_bind [of "if _ then _ else _"] wp_bind [of "plift _"] wp_lift sum.case)
qed

section \<open>Reading\<close>

definition tracked :: "'r csv_env \<Rightarrow> byte list \<Rightarrow> range_plan \<Rightarrow> schema \<Rightarrow> 'r \<Rightarrow> 'r range_decoder \<Rightarrow> bool" where
  "tracked E source plan sch r d \<longleftrightarrow> (\<exists>t.
     parses E source r (plan_source_offset plan) empty_parse (rd_reader d) (rd_expected_offset d) t \<and>
     tracks plan sch t d)"

definition slice_of :: "byte list \<Rightarrow> nat \<Rightarrow> byte list \<Rightarrow> bool" where
  "slice_of source offset bytes \<longleftrightarrow> (\<exists>n. bytes = take n (drop offset source))"

lemma slice_of_Nil: "slice_of source offset []"
  unfolding slice_of_def by (rule exI [of _ 0]) simp

lemma slice_of_drop: "slice_of source offset bytes \<Longrightarrow> slice_of source (offset + n) (drop n bytes)"
  by (auto simp: slice_of_def drop_take add.commute)

lemma tracked_frame [simp]:
  "tracked E source plan sch r (d\<lparr>rd_lexical := l\<rparr>) = tracked E source plan sch r d"
  "tracked E source plan sch r (d\<lparr>rd_diagnostics := ds\<rparr>) = tracked E source plan sch r d"
  "tracked E source plan sch r (d\<lparr>rd_done := b\<rparr>) = tracked E source plan sch r d"
  by (simp_all add: tracked_def)

lemma decoder_field_end_tracks:
  assumes "plan_fits plan sch" and "tracks plan sch t d"
  shows "wp (decoder_field_end e)
    (\<lambda>_ d'. tracks plan sch (if e then end_record (end_field t) else end_field t) d' \<and> same_reader d d')
    (\<lambda>_ _. True) d"
  unfolding decoder_field_end_def wp_bind
proof (rule wp_mono [OF decoder_finish_field_tracks [OF assms]])
  fix u d1 assume d1: "tracks plan sch (end_field t) d1 \<and> same_reader d d1 \<and> rd_done d1 = rd_done d"
  show "wp (if e then decoder_finish_record else preturn ())
      (\<lambda>_ d'. tracks plan sch (if e then end_record (end_field t) else end_field t) d' \<and> same_reader d d')
      (\<lambda>_ _. True) d1"
  proof (cases e)
    case True
    have "wp decoder_finish_record (\<lambda>_ d'. tracks plan sch (end_record (end_field t)) d' \<and> same_reader d d')
        (\<lambda>_ _. True) d1"
      by (rule wp_mono [OF decoder_finish_record_tracks [OF assms(1)]])
        (use d1 in \<open>auto simp: same_reader_def\<close>)
    with True show ?thesis by simp
  qed (use d1 in \<open>simp add: wp_return\<close>)
qed simp

text \<open>One answer of the reader, with the offset still to be moved.\<close>

lemma wp_read:
  assumes "env_read_field E (rd_reader d) input field_scratch_bytes = (answer, r')"
  shows "wp (decoder_read E input) Q (\<lambda>_ _. True) d = Q answer (d\<lparr>rd_reader := r'\<rparr>)"
  by (simp add: wp_def decoder_read_def assms)

lemma wlp_append:
  assumes "d' = d\<lparr>rd_field := rd_field d @ written\<rparr>" and "wlp m Q (\<lambda>_ _. True) d'"
  shows "wlp (lbind (lrun (decoder_append_field written)) (\<lambda>_. m)) Q (\<lambda>_ _. True) d"
  using assms by (simp add: decoder_append_field_def wlp_bind wlp_run wps split: sum.split)

lemma wlp_advance:
  assumes "d' = d\<lparr>rd_expected_offset := rd_expected_offset d + consumed\<rparr>" and "wlp m Q (\<lambda>_ _. True) d'"
  shows "wlp (lbind (lrun (decoder_advance consumed)) (\<lambda>_. m)) Q (\<lambda>_ _. True) d"
  using assms by (simp add: decoder_advance_def wlp_bind wlp_run wps split: sum.split)

definition parsed_by :: "'r csv_env \<Rightarrow> byte list \<Rightarrow> range_plan \<Rightarrow> 'r \<Rightarrow> 'r \<Rightarrow> nat \<Rightarrow> parse \<Rightarrow> bool" where
  "parsed_by E source plan r = parses E source r (plan_source_offset plan) empty_parse"

lemma answer_tracks:
  assumes "plan_fits plan sch" and "parsed_by E source plan r (rd_reader d) offset t" and "tracks plan sch t d"
    and "slice_of source offset input"
    and "env_read_field E (rd_reader d) input field_scratch_bytes = ((result, consumed, written), r')"
    and "rd_field d' = rd_field d @ written" and "tracks plan sch (t\<lparr>tr_field := tr_field t @ written\<rparr>) d'"
    and "rd_reader d' = r'"
  shows "case result of
      FieldEnd e \<Rightarrow> wp (decoder_field_end e)
        (\<lambda>_ d''. (\<exists>t. parsed_by E source plan r (rd_reader d'') (offset + consumed) t \<and> tracks plan sch t d'') \<and>
           rd_expected_offset d'' = rd_expected_offset d') (\<lambda>_ _. True) d'
    | _ \<Rightarrow> \<exists>t. parsed_by E source plan r (rd_reader d') (offset + consumed) t \<and> tracks plan sch t d'"
proof -
  let ?t = "t\<lparr>tr_field := tr_field t @ written\<rparr>"
  obtain n where "input = take n (drop offset source)" using assms(4) by (auto simp: slice_of_def)
  with parse_read [OF assms(2) [unfolded parsed_by_def], of n result consumed written r'] assms(5)
  have parsed: "parsed_by E source plan r r' (offset + consumed) (absorb result written t)"
    by (simp add: parsed_by_def)
  show ?thesis
  proof (cases result)
    case (FieldEnd e)
    have "wp (decoder_field_end e)
        (\<lambda>_ d''. (\<exists>t. parsed_by E source plan r (rd_reader d'') (offset + consumed) t \<and> tracks plan sch t d'') \<and>
           rd_expected_offset d'' = rd_expected_offset d') (\<lambda>_ _. True) d'"
    proof (rule wp_mono [OF decoder_field_end_tracks [OF assms(1,7)]])
      fix u d'' assume d'': "tracks plan sch (if e then end_record (end_field ?t) else end_field ?t) d'' \<and> same_reader d' d''"
      have "absorb result written t = (if e then end_record (end_field ?t) else end_field ?t)"
        by (simp add: FieldEnd absorb_def)
      then show "(\<exists>t. parsed_by E source plan r (rd_reader d'') (offset + consumed) t \<and> tracks plan sch t d'') \<and>
           rd_expected_offset d'' = rd_expected_offset d'"
        using parsed d'' assms(8) unfolding same_reader_def by (intro conjI exI [of _ "absorb result written t"]) simp_all
    qed simp
    with FieldEnd show ?thesis by simp
  qed (use parsed assms(7,8) in \<open>auto simp: absorb_def\<close>)
qed

lemma tracks_append:
  "tracks plan sch t d \<Longrightarrow>
     tracks plan sch (t\<lparr>tr_field := tr_field t @ written\<rparr>) (d\<lparr>rd_reader := r, rd_field := rd_field d @ written\<rparr>)"
  by (simp add: tracks_def)

abbreviation turn_tracked ::
    "'r csv_env \<Rightarrow> byte list \<Rightarrow> range_plan \<Rightarrow> schema \<Rightarrow> 'r \<Rightarrow> byte list option \<Rightarrow> 'r range_decoder \<Rightarrow> bool" where
  "turn_tracked E source plan sch r nxt d \<equiv> tracked E source plan sch r d \<and>
     (\<forall>rest. nxt = Some rest \<longrightarrow> slice_of source (rd_expected_offset d) rest)"

lemma decoder_answer_tracked:
  assumes "case result of
      FieldEnd e \<Rightarrow> wp (decoder_field_end e)
        (\<lambda>_ d'. (\<exists>t. parsed_by E source plan r (rd_reader d') offset t \<and> tracks plan sch t d') \<and>
           rd_expected_offset d' = rd_expected_offset d) (\<lambda>_ _. True) d
    | _ \<Rightarrow> \<exists>t. parsed_by E source plan r (rd_reader d) offset t \<and> tracks plan sch t d"
    and "rd_expected_offset d = offset" and "slice_of source offset rest"
  shows "wp (decoder_answer result stuck rest) (turn_tracked E source plan sch r) (\<lambda>_ _. True) d"
proof -
  have on: "wp (if stuck then pfail e
        else pbind pget (\<lambda>d. preturn (if stop \<or> rd_done d then None else Some rest)))
      (turn_tracked E source plan sch r) (\<lambda>_ _. True) d'"
    if "\<exists>t. parsed_by E source plan r (rd_reader d') offset t \<and> tracks plan sch t d'"
      "rd_expected_offset d' = rd_expected_offset d" for d' stop e
    using that assms(2,3) by (simp add: wps tracked_def parsed_by_def)
  show ?thesis
  proof (cases result)
    case InputEmpty
    then show ?thesis
      using assms(1,2) by (simp add: decoder_answer_def wps tracked_def parsed_by_def)
  next
    case OutputFull
    show ?thesis
      unfolding decoder_answer_def Let_def OutputFull read_field_result.case
      by (rule on) (use assms(1) [unfolded OutputFull read_field_result.case] in simp_all)
  next
    case (FieldEnd e)
    show ?thesis
      unfolding decoder_answer_def Let_def FieldEnd read_field_result.case wp_bind [of "decoder_field_end e"]
      by (rule wp_mono [OF assms(1) [unfolded FieldEnd read_field_result.case]], rule on) simp_all
  next
    case EndOfInput
    then show ?thesis by (simp add: decoder_answer_def wps)
  qed
qed

lemma decoder_turn_tracked:
  assumes "plan_fits plan sch" and "tracked E source plan sch r d"
    and "slice_of source (rd_expected_offset d) input"
  shows "wlp (decoder_turn E input) (turn_tracked E source plan sch r) (\<lambda>_ _. True) d"
proof -
  obtain result consumed written r' where read:
    "env_read_field E (rd_reader d) input field_scratch_bytes = ((result, consumed, written), r')"
    by (cases "env_read_field E (rd_reader d) input field_scratch_bytes") auto
  obtain t where parsed: "parsed_by E source plan r (rd_reader d) (rd_expected_offset d) t"
      and tracks: "tracks plan sch t d"
    using assms(2) by (auto simp: tracked_def parsed_by_def)
  let ?d = "d\<lparr>rd_reader := r', rd_field := rd_field d @ written, rd_expected_offset := rd_expected_offset d + consumed\<rparr>"
  have field: "rd_field ?d = rd_field d @ written" and reader: "rd_reader ?d = r'" by simp_all
  have appended: "tracks plan sch (t\<lparr>tr_field := tr_field t @ written\<rparr>) ?d" using tracks_append [OF tracks] by simp
  note answer = answer_tracks [OF assms(1) parsed tracks assms(3) read field appended reader]
  have answered: "wp (decoder_answer result stuck (drop consumed input)) (turn_tracked E source plan sch r)
      (\<lambda>_ _. True) ?d" for stuck
    by (rule decoder_answer_tracked [OF answer _ slice_of_drop [OF assms(3)]]) simp
  show ?thesis
    unfolding decoder_turn_def wlp_bind [of "lrun (decoder_read E input)"] wlp_run wp_read [OF read] prod.case
    by (rule wlp_sliced, rule wlp_append [OF refl], rule wlp_advance, rule refl, rule wlp_sliced)
      (use answered in \<open>simp add: wlp_run\<close>)
qed

section \<open>Batches\<close>

definition shows_window :: "range_plan \<Rightarrow> parse \<Rightarrow> table_batch \<Rightarrow> bool" where
  "shows_window plan t b \<longleftrightarrow> row_count (tb_range b) = length (window plan (tr_records t)) \<and>
     length (tb_columns b) = column_count (plan_request plan) \<and>
     (\<forall>j < column_count (plan_request plan). \<forall>i < length (window plan (tr_records t)).
        scb_value (tb_columns b ! j) i =
          Returns (Some (cell (window plan (tr_records t) ! i) (column_start (plan_request plan) + j))))"

definition table_found :: "'r csv_env \<Rightarrow> byte list \<Rightarrow> range_plan \<Rightarrow> 'r \<Rightarrow> parse \<Rightarrow> bool" where
  "table_found E source plan r t \<longleftrightarrow> (\<exists>r' offset. parsed_by E source plan r r' offset t)"

lemma finish_window:
  assumes "list_all2 (\<lambda>b c. builds b (fst c) (snd c)) bs cols" and "\<forall>c \<in> set cols. present_valid (snd c)"
  shows "\<exists>cs. rcollect builder_finish bs = Inr cs \<and> list_all2 (\<lambda>c col.
    \<forall>i < length (snd col). scb_value c i = Returns (Some (snd col ! i))) cs cols"
  using assms
proof (induction bs cols rule: list_all2_induct)
  case (Cons b bs col cols)
  then obtain c where "builder_finish b = Inr c" "\<forall>i < length (snd col). scb_value c i = Returns (Some (snd col ! i))"
    using builder_finish_ok [of b "fst col" "snd col"] by auto
  with Cons show ?case by auto
qed simp

lemma window_columns_valid: "\<forall>c \<in> set (window_columns plan sch records). present_valid (snd c)"
  by (auto simp: window_columns_def window_column_def present_valid_def cell_def value_data_def utf8_lossy_valid
      split: option.splits if_splits)

lemma build_batch_window:
  assumes "tracks plan sch t d"
  shows "wp (decoder_build_batch complete) (\<lambda>b _. shows_window plan t b) (\<lambda>_ _. True) d"
proof -
  let ?cols = "window_columns plan sch (tr_records t)"
  obtain cs where cs: "rcollect builder_finish (rd_builders d) = Inr cs"
    and all: "list_all2 (\<lambda>c col. \<forall>i < length (snd col). scb_value c i = Returns (Some (snd col ! i))) cs ?cols"
    using finish_window [OF _ window_columns_valid, of "rd_builders d" plan sch "tr_records t"] assms
    by (auto simp: tracks_def)
  have len: "length cs = column_count (plan_request plan)"
    using list_all2_lengthD [OF all] by (simp add: window_columns_def)
  have "scb_value (cs ! j) i =
      Returns (Some (cell (window plan (tr_records t) ! i) (column_start (plan_request plan) + j)))"
    if "j < column_count (plan_request plan)" "i < length (window plan (tr_records t))" for i j
    using list_all2_nthD [OF all, of j] that len by (simp add: window_columns_def window_column_def)
  then show ?thesis
    using assms cs len
    by (auto simp: decoder_build_batch_def wps shows_window_def tracks_def table_batch_new_def
        range_request_new_ok split: sum.split)
qed

definition answers_found :: "'r csv_env \<Rightarrow> byte list \<Rightarrow> range_plan \<Rightarrow> 'r \<Rightarrow> table_batch \<Rightarrow> bool" where
  "answers_found E source plan r b \<longleftrightarrow> (\<exists>t. table_found E source plan r t \<and> shows_window plan t b)"

lemma complete_window:
  assumes "tracks plan sch t d" and "parsed_by E source plan r r' offset t"
  shows "wp (complete_batch complete)
    (\<lambda>st _. \<exists>b. st = CompleteBatch b \<and> answers_found E source plan r b) (\<lambda>_ _. True) d"
  unfolding complete_batch_def wp_bind
  by (rule wp_mono [OF build_batch_window [OF assms(1)]])
    (use assms(2) in \<open>auto simp: wp_return answers_found_def table_found_def\<close>)

lemma eof_loop_window:
  assumes "plan_fits plan sch"
  shows "parsed_by E source plan r (rd_reader d) offset t \<Longrightarrow> tracks plan sch t d \<Longrightarrow>
    wlp (decoder_eof_loop E n) (\<lambda>st _. \<exists>b. st = CompleteBatch b \<and> answers_found E source plan r b) (\<lambda>_ _. True) d"
proof (induction n arbitrary: d t offset)
  case 0
  then show ?case by (simp add: wlp_run wps)
next
  case (Suc n)
  let ?Q = "\<lambda>st _. \<exists>b. st = CompleteBatch b \<and> answers_found E source plan r b"
  obtain result consumed written r' where read:
    "env_read_field E (rd_reader d) [] field_scratch_bytes = ((result, consumed, written), r')"
    by (cases "env_read_field E (rd_reader d) [] field_scratch_bytes") auto
  let ?d = "d\<lparr>rd_reader := r', rd_field := rd_field d @ written\<rparr>"
  have field: "rd_field ?d = rd_field d @ written" and reader: "rd_reader ?d = r'" by simp_all
  note answer = answer_tracks [OF assms Suc.prems slice_of_Nil read field tracks_append [OF Suc.prems(2)] reader]
  have next_turn: "wlp (decoder_eof_loop E n) ?Q (\<lambda>_ _. True) d'"
    if "\<exists>t. parsed_by E source plan r (rd_reader d') (offset + consumed) t \<and> tracks plan sch t d'" for d'
    using that by (elim exE conjE) (rule Suc.IH)
  have answered: "wlp (case result of
       FieldEnd record_end \<Rightarrow>
         lbind (lrun (decoder_field_end record_end)) (\<lambda>_.
         lbind (lrun pget) (\<lambda>d.
         if rd_done d then lrun (complete_batch True) else decoder_eof_loop E n))
     | EndOfInput \<Rightarrow>
         lrun (pbind (pmodify (\<lambda>d. d\<lparr>rd_done := True\<rparr>)) (\<lambda>_.
         pbind pget (\<lambda>d. complete_batch (rd_returned_rows d = row_count (rd_request d)))))
     | OutputFull \<Rightarrow> decoder_eof_loop E n
     | InputEmpty \<Rightarrow> decoder_eof_loop E n) ?Q (\<lambda>_ _. True) ?d"
  proof (cases result)
    case (FieldEnd e)
    have "wlp (lbind (lrun pget) (\<lambda>d. if rd_done d then lrun (complete_batch True)
           else decoder_eof_loop E n)) ?Q (\<lambda>_ _. True) d'"
      if "\<exists>t. parsed_by E source plan r (rd_reader d') (offset + consumed) t \<and> tracks plan sch t d'" for d'
    proof (cases "rd_done d'")
      case True
      from that obtain t' where t': "parsed_by E source plan r (rd_reader d') (offset + consumed) t'" "tracks plan sch t' d'"
        by blast
      show ?thesis
        unfolding wlp_bind wlp_run wp_get using complete_window [OF t'(2,1)] True by (simp add: wlp_run)
    next
      case False
      then show ?thesis unfolding wlp_bind wlp_run wp_get using next_turn [OF that] by simp
    qed
    then show ?thesis
      unfolding FieldEnd read_field_result.case wlp_bind [of "lrun (decoder_field_end e)"] wlp_run
      by (rule_tac wp_mono [OF answer [unfolded FieldEnd read_field_result.case]]) blast+
  next
    case EndOfInput
    then obtain t' where t': "parsed_by E source plan r (rd_reader ?d) (offset + consumed) t'" "tracks plan sch t' ?d"
      using answer [unfolded EndOfInput read_field_result.case] by blast
    have "tracks plan sch t' (?d\<lparr>rd_done := True\<rparr>)" using t'(2) by (simp only: tracks_frame)
    then show ?thesis
      unfolding EndOfInput read_field_result.case wlp_run wp_bind [of "pmodify _"] wp_modify wp_bind [of pget] wp_get
      by (rule complete_window [OF _ t'(1)])
  next
    case InputEmpty
    show ?thesis
      unfolding InputEmpty read_field_result.case
      by (rule next_turn) (rule answer [unfolded InputEmpty read_field_result.case])
  next
    case OutputFull
    show ?thesis
      unfolding OutputFull read_field_result.case
      by (rule next_turn) (rule answer [unfolded OutputFull read_field_result.case])
  qed
  show ?case
    unfolding decoder_eof_loop.simps wlp_bind [of "lrun (decoder_read E [])"] wlp_run wp_read [OF read] prod.case
    by (rule wlp_sliced, rule wlp_append [OF _ answered [unfolded wlp_run]]) simp
qed

section \<open>Chunks\<close>

lemma decoder_accept_tracked:
  assumes "tracked E source plan sch r d"
  shows "wp (decoder_accept offset bytes)
    (\<lambda>_ d'. tracked E source plan sch r d' \<and> rd_expected_offset d' = offset) (\<lambda>_ _. True) d"
proof -
  let ?I = "\<lambda>d'. tracked E source plan sch r d' \<and> rd_expected_offset d' = rd_expected_offset d"
  have issue: "wp (pbind pget (\<lambda>d. decoder_diagnostic (c d))) (\<lambda>_. ?I) (\<lambda>_ _. True) d'"
    if "?I d'" for d' c
    unfolding wp_bind wp_get
    by (rule wp_mono [OF decoder_diagnostic_tracks]) (use that in auto)
  have "wp (pforeach (\<lambda>issue. pbind pget (\<lambda>d. decoder_diagnostic (c d issue))) issues)
      (\<lambda>_. ?I) (\<lambda>_ _. True) (d\<lparr>rd_lexical := t\<rparr>)" for c t and issues :: "quote_issue list"
    using assms by (intro wp_foreach_inv issue) simp_all
  then show ?thesis
    by (auto simp: decoder_accept_def wps split: prod.split)
qed

lemma decoder_feed_chunk_window:
  assumes "plan_fits plan sch" and "tracked E source plan sch r d" and "slice_of source offset bytes"
  shows "wlp (decoder_feed_chunk E offset bytes eof)
    (\<lambda>st d'. case st of NeedMore \<Rightarrow> tracked E source plan sch r d' | CompleteBatch b \<Rightarrow> answers_found E source plan r b)
    (\<lambda>_ _. True) d"
proof -
  let ?Q = "\<lambda>st d'. case st of NeedMore \<Rightarrow> tracked E source plan sch r d'
    | CompleteBatch b \<Rightarrow> answers_found E source plan r b"
  have last: "wlp (if rd_done d' then lrun (complete_batch True)
       else if eof then decoder_finish_eof E else lrun (preturn NeedMore)) ?Q (\<lambda>_ _. True) d'"
    if tracked: "tracked E source plan sch r d'" for d'
  proof -
    obtain t where t: "parsed_by E source plan r (rd_reader d') (rd_expected_offset d') t" "tracks plan sch t d'"
      using tracked by (auto simp: tracked_def parsed_by_def)
    have batch: "wp (complete_batch True) ?Q (\<lambda>_ _. True) d'"
      by (rule wp_mono [OF complete_window [OF t(2,1)]]) auto
    have loop: "wlp (decoder_eof_loop E 4) ?Q (\<lambda>_ _. True) (d'\<lparr>rd_diagnostics := ds\<rparr>)" for ds
      by (rule wlp_mono [OF eof_loop_window [OF assms(1), of E source r _ "rd_expected_offset d'" t]])
        (use t in auto)
    have "wp decoder_unclosed_quote (\<lambda>_ d2. \<exists>ds. d2 = d'\<lparr>rd_diagnostics := ds\<rparr>) (\<lambda>_ _. True) d'"
      using wp_mono [OF decoder_diagnostic_tracks]
      by (cases "unclosed_quote_offset (rd_lexical d')")
        (auto simp: decoder_unclosed_quote_def wps decoder_diagnostic_tracks intro: exI [of _ "rd_diagnostics d'"])
    then have "wlp (decoder_finish_eof E) ?Q (\<lambda>_ _. True) d'"
      unfolding decoder_finish_eof_def by (rule wlp_then) (elim exE, simp only: loop)
    with batch tracked show ?thesis by (simp add: wlp_run wps)
  qed
  have loop: "wlp (if bytes = [] then lrun (preturn ()) else ploop (decoder_turn E) bytes)
      (\<lambda>_. tracked E source plan sch r) (\<lambda>_ _. True) d'"
    if d': "tracked E source plan sch r d' \<and> rd_expected_offset d' = offset" for d'
  proof (cases "bytes = []")
    case True
    then show ?thesis using d' by (simp add: wlp_run wp_return)
  next
    case False
    let ?I = "\<lambda>input d'. tracked E source plan sch r d' \<and> slice_of source (rd_expected_offset d') input"
    have "wlp (ploop (decoder_turn E) bytes) (\<lambda>_. tracked E source plan sch r) (\<lambda>_ _. True) d'"
    proof (rule wlp_loop [where I = ?I])
      show "?I bytes d'" using d' assms(3) by simp
    next
      fix x s assume "?I x s"
      then show "wlp (decoder_turn E x)
          (\<lambda>next s'. case next of None \<Rightarrow> tracked E source plan sch r s' | Some x' \<Rightarrow> ?I x' s') (\<lambda>_ _. True) s"
        by (intro wlp_mono [OF decoder_turn_tracked [OF assms(1)]]) (auto split: option.split)
    qed
    with False show ?thesis by simp
  qed
  show ?thesis
    unfolding decoder_feed_chunk_def wlp_bind wlp_run [of "decoder_accept _ _"] wlp_run [of pget] wp_get_fun
    by (rule wp_mono [OF decoder_accept_tracked [OF assms(2)]], rule wlp_mono [OF loop], assumption,
        rule last) simp_all
qed

section \<open>The property\<close>

lemma decoder_new_tracked:
  assumes "plan_fits plan sch" and "decoder_new E opts plan sch = Returns (Inr d)"
  shows "tracked E source plan sch (env_build_reader E (delimiter opts)) d"
proof -
  let ?cc = "column_count (plan_request plan)" and ?cs = "column_start (plan_request plan)"
  have fit: "?cs + ?cc \<le> length (schema_columns sch)" "?cc \<le> u64_max" "?cs \<le> u64_max"
    using assms(1) by (auto simp: plan_fits_def range_valid_def max_safe_integer_def u64_max_def)
  have d: "d = \<lparr>rd_options = opts, rd_plan = plan, rd_schema = sch,
              rd_reader = env_build_reader E (delimiter opts),
              rd_lexical = quote_tracker_new (delimiter opts),
              rd_expected_offset = plan_source_offset plan, rd_field = [], rd_field_index = 0,
              rd_current_row = ck_row (plan_checkpoint plan),
              rd_selected_values = replicate ?cc [], rd_selected_valid = replicate ?cc False,
              rd_builders = map (\<lambda>c. builder_new (col_id c)) (take ?cc (drop ?cs (schema_columns sch))),
              rd_returned_rows = 0, rd_batch_bytes = ?cc * 4, rd_diagnostics = [],
              rd_done = (row_count (plan_request plan) = 0)\<rparr>"
    using assms(2) fit by (auto simp: decoder_new_def slice_get_def split: if_splits)
  have "list_all2 (\<lambda>b c. builds b (fst c) (snd c)) (rd_builders d) (window_columns plan sch [])"
    unfolding d using fit
    by (auto simp: list_all2_conv_all_nth window_columns_def window_column_def window_def requested_ids_def builds_new)
  moreover have "picked (rd_selected_values d) (rd_selected_valid d) =
      row_cells plan (ck_row (plan_checkpoint plan)) []"
    by (rule nth_equalityI) (simp_all add: d picked_def row_cells_def cell_def)
  ultimately have "tracks plan sch empty_parse d"
    by (simp add: tracks_def empty_parse_def d window_def)
  then show ?thesis unfolding tracked_def by (auto simp: d intro: parse_start)
qed

text \<open>A decoder fed with slices of one source.\<close>

inductive decoder_fed_from :: "'r csv_env \<Rightarrow> byte list \<Rightarrow> 'r range_decoder \<Rightarrow> 'r range_decoder \<Rightarrow> bool"
  for E source d where
  from_start: "decoder_fed_from E source d d"
| from_chunk: "decoder_fed_from E source d d' \<Longrightarrow> slice_of source offset bytes \<Longrightarrow>
     decoder_feed_chunk E offset bytes eof d' = Some (Inr NeedMore, d'') \<Longrightarrow> decoder_fed_from E source d d''"

lemma decoder_fed_tracked:
  assumes "decoder_fed_from E source d d'" and "plan_fits plan sch" and "tracked E source plan sch r d"
  shows "tracked E source plan sch r d'"
  using assms(1)
proof (induction rule: decoder_fed_from.induct)
  case from_start
  then show ?case by (rule assms(3))
next
  case (from_chunk d' offset bytes eof d'')
  from wlp_ok [OF decoder_feed_chunk_window [OF assms(2) from_chunk.IH from_chunk.hyps(2)] from_chunk.hyps(3)]
  show ?case by simp
qed

text \<open>
  C3: A decoded batch is the requested window of the table. Start the external reader fresh
  at the plan's checkpoint and let it read on through the source: the batch that a decoder
  fed with slices of that source returns holds exactly the records of that table from the
  first requested row on, as many as were requested and found, each with the requested
  fields, ill-formed text replaced and missing fields null.
\<close>

theorem decoded_batch_is_window:
  assumes "decoder_new E opts plan sch = Returns (Inr d)" and "plan_fits plan sch"
    and "decoder_fed_from E source d d'" and "slice_of source offset bytes"
    and "decoder_feed_chunk E offset bytes eof d' = Some (Inr (CompleteBatch b), d'')"
  shows "\<exists>t. table_found E source plan (env_build_reader E (delimiter opts)) t \<and> shows_window plan t b"
proof -
  have "tracked E source plan sch (env_build_reader E (delimiter opts)) d'"
    by (rule decoder_fed_tracked [OF assms(3,2) decoder_new_tracked [OF assms(2,1)]])
  from wlp_ok [OF decoder_feed_chunk_window [OF assms(2) this assms(4)] assms(5)]
  show ?thesis by (simp add: answers_found_def)
qed

theorem decoded_batch_is_window_witness:
  "\<exists>b d t. decoder_feed_chunk plain_env 0 [0x31, 0x0A, 0x32, 0x0A] False plain_decoder =
     Some (Inr (CompleteBatch b), d) \<and> shows_window plain_plan t b"
proof -
  obtain b d where run: "decoder_feed_chunk plain_env 0 [0x31, 0x0A, 0x32, 0x0A] False plain_decoder =
     Some (Inr (CompleteBatch b), d)"
    using plain_decode by blast
  have "plan_fits plain_plan plain_schema"
    by (simp add: plan_fits_def plain_plan_def plain_schema_def second_row_def range_valid_def max_safe_integer_def)
  moreover have "slice_of [0x31, 0x0A, 0x32, 0x0A] 0 [0x31, 0x0A, 0x32, 0x0A]"
    unfolding slice_of_def by (rule exI [of _ 4]) simp
  ultimately show ?thesis
    using decoded_batch_is_window [OF plain_decoder_new _ from_start _ run] run by blast
qed

end
