(* ===== verification/Memory_Source.thy ===== *)
theory Memory_Source
  imports Csv_Window
begin

text \<open>
  \<open>MemorySource\<close> of src/src/csv.rs: the native reference client. It drives the scanner over
  the whole source in chunks, then answers ranges by planning, building a decoder and
  feeding it from the planned offset: the scanner and the decoder composed.
\<close>

section \<open>The client\<close>

record 'r memory_source =
  ms_bytes :: "byte list"
  ms_scanner :: "'r csv_scanner"
  ms_chunk_size :: nat

text \<open>The bytes of the chunk at \<open>offset\<close> and where it stops.\<close>

definition chunk_stop :: "byte list \<Rightarrow> nat \<Rightarrow> nat \<Rightarrow> nat" where
  "chunk_stop bytes chunk_size offset = min (saturating_add offset chunk_size) (length bytes)"

definition chunk_at :: "byte list \<Rightarrow> nat \<Rightarrow> nat \<Rightarrow> byte list" where
  "chunk_at bytes chunk_size offset =
     take (chunk_stop bytes chunk_size offset - offset) (drop offset bytes)"

text \<open>
  The scanning loop. The source loops while \<open>offset < bytes.len()\<close>; every turn advances,
  because the chunk size is positive and the length fits a \<open>usize\<close>: both are guards here,
  so that the recursion is total, and the caller has checked the first.
\<close>

function memory_scan :: "'r csv_env \<Rightarrow> byte list \<Rightarrow> nat \<Rightarrow> nat \<Rightarrow> ('r, unit) scan_loop" where
  "memory_scan E bytes chunk_size offset =
     (if offset < length bytes \<and> 0 < chunk_size \<and> length bytes \<le> u64_max
      then let stop = chunk_stop bytes chunk_size offset in
           lbind (scanner_feed_chunk E offset (chunk_at bytes chunk_size offset) (stop = length bytes))
             (\<lambda>_. memory_scan E bytes chunk_size stop)
      else lrun (preturn ()))"
  by pat_completeness auto
termination
  by (relation "measure (\<lambda>(E, bytes, chunk_size, offset). length bytes - offset)")
    (auto simp: chunk_stop_def saturating_add_def)

declare memory_scan.simps [simp del]

definition memory_open_with_chunk_size ::
    "'r csv_env \<Rightarrow> byte list \<Rightarrow> delimited_options \<Rightarrow> nat \<Rightarrow> 'r memory_source result option" where
  "memory_open_with_chunk_size E bytes opts chunk_size =
     (if chunk_size = 0
      then Some (Inl (new_error InvalidArgument ''memory source chunk size must be greater than zero''))
      else case scanner_new E opts of
        Inl e \<Rightarrow> Some (Inl e)
      | Inr s \<Rightarrow>
          (case (if bytes = [] then lbind (scanner_feed_chunk E 0 [] True) (\<lambda>_. lrun (preturn ()))
                 else memory_scan E bytes chunk_size 0) s of
             None \<Rightarrow> None
           | Some (Inl e, _) \<Rightarrow> Some (Inl e)
           | Some (Inr _, s') \<Rightarrow>
               Some (Inr \<lparr>ms_bytes = bytes, ms_scanner = s', ms_chunk_size = chunk_size\<rparr>)))"

definition memory_metadata :: "'r memory_source \<Rightarrow> table_metadata result" where
  "memory_metadata m = scanner_metadata (ms_scanner m)"

text \<open>The reading loop: \<open>loop\<close> until the decoder completes or fails.\<close>

partial_function (option) memory_read ::
    "'r csv_env \<Rightarrow> byte list \<Rightarrow> nat \<Rightarrow> nat \<Rightarrow> 'r range_decoder \<Rightarrow> table_batch result option" where
  "memory_read E bytes chunk_size offset d =
     (case decoder_feed_chunk E offset (chunk_at bytes chunk_size offset)
             (chunk_stop bytes chunk_size offset = length bytes) d of
        None \<Rightarrow> None
      | Some outcome \<Rightarrow>
          (case outcome of
             (Inl e, _) \<Rightarrow> Some (Inl e)
           | (Inr st, d') \<Rightarrow>
               (case st of
                  CompleteBatch b \<Rightarrow> Some (Inr b)
                | NeedMore \<Rightarrow> memory_read E bytes chunk_size (chunk_stop bytes chunk_size offset) d')))"

definition memory_decode ::
    "'r csv_env \<Rightarrow> 'r memory_source \<Rightarrow> range_plan \<Rightarrow> 'r range_decoder \<Rightarrow> table_batch result option" where
  "memory_decode E m plan d =
     (case decoder_immediate_batch d of
        (Inl e, _) \<Rightarrow> Some (Inl e)
      | (Inr (Some b), _) \<Rightarrow> Some (Inr b)
      | (Inr None, d) \<Rightarrow>
     (case u64_try_from (plan_source_offset plan) of
        None \<Rightarrow> Some (Inl (new_error InvalidRange ''range source offset exceeds usize''))
      | Some offset \<Rightarrow>
          if offset \<ge> length (ms_bytes m)
          then (case decoder_feed_chunk E (plan_source_offset plan) [] True d of
                  None \<Rightarrow> None
                | Some (Inl e, _) \<Rightarrow> Some (Inl e)
                | Some (Inr (CompleteBatch b), _) \<Rightarrow> Some (Inr b)
                | Some (Inr NeedMore, _) \<Rightarrow> Some (Inl (new_error RuntimeFailure
                      ''range decoder requested bytes beyond end-of-file'')))
          else memory_read E (ms_bytes m) (ms_chunk_size m) offset d))"

definition memory_read_range ::
    "'r csv_env \<Rightarrow> 'r memory_source \<Rightarrow> range_request \<Rightarrow> table_batch result run option" where
  "memory_read_range E m request =
     (case scanner_plan_range (ms_scanner m) request of
        Inl e \<Rightarrow> Some (Returns (Inl e))
      | Inr plan \<Rightarrow>
          (case scanner_range_decoder E (ms_scanner m) plan of
             Panics \<Rightarrow> Some Panics
           | Returns (Inl e) \<Rightarrow> Some (Returns (Inl e))
           | Returns (Inr d) \<Rightarrow> map_option Returns (memory_decode E m plan d)))"

section \<open>Scanning\<close>

lemma memory_scan_step:
  assumes "offset < length bytes" "0 < chunk_size" "length bytes \<le> u64_max"
  shows "memory_scan E bytes chunk_size offset =
    lbind (scanner_feed_chunk E offset (chunk_at bytes chunk_size offset)
        (chunk_stop bytes chunk_size offset = length bytes))
      (\<lambda>_. memory_scan E bytes chunk_size (chunk_stop bytes chunk_size offset))"
  using assms by (subst memory_scan.simps) (simp add: Let_def)

lemma memory_scan_stop:
  assumes "\<not> (offset < length bytes \<and> 0 < chunk_size \<and> length bytes \<le> u64_max)"
  shows "memory_scan E bytes chunk_size offset = lrun (preturn ())"
  by (subst memory_scan.simps) (simp only: if_not_P [OF assms])

lemma memory_scan_inv:
  assumes "scan_inv s" and "memory_scan E bytes chunk_size offset s = Some (Inr u, t)"
  shows "scan_inv t \<and> sc_options t = sc_options s"
  using assms
proof (induction E bytes chunk_size offset arbitrary: s rule: memory_scan.induct)
  case (1 E bytes chunk_size offset)
  show ?case
  proof (cases "offset < length bytes \<and> 0 < chunk_size \<and> length bytes \<le> u64_max")
    case True
    with 1(3) obtain v s1 where feed: "scanner_feed_chunk E offset (chunk_at bytes chunk_size offset)
          (chunk_stop bytes chunk_size offset = length bytes) s = Some (Inr v, s1)"
        and rest: "memory_scan E bytes chunk_size (chunk_stop bytes chunk_size offset) s1 = Some (Inr u, t)"
      by (auto simp: memory_scan_step lbind_def split: option.splits prod.splits sum.splits)
    from feed_chunk_good [OF 1(2) feed] have "scan_inv s1 \<and> sc_options s1 = sc_options s"
      by (simp add: scan_good_def scan_grows_def)
    then show ?thesis using 1(1) [OF True refl _ rest] by simp
  next
    case False
    then show ?thesis using 1(2,3) by (simp add: memory_scan_stop lrun_def preturn_def)
  qed
qed

lemma memory_scan_returns:
  assumes "reader_progress E"
  shows "returns (memory_scan E bytes chunk_size offset) s"
  using assms
proof (induction E bytes chunk_size offset arbitrary: s rule: memory_scan.induct)
  case (1 E bytes chunk_size offset)
  show ?case
  proof (cases "offset < length bytes \<and> 0 < chunk_size \<and> length bytes \<le> u64_max")
    case True
    then show ?thesis
      using 1(1) [OF True refl] 1(2)
      by (simp add: memory_scan_step returns_bind feed_chunk_returns)
  next
    case False
    then show ?thesis by (simp add: memory_scan_stop)
  qed
qed

lemma memory_open_scanned:
  assumes "memory_open_with_chunk_size E bytes opts chunk_size = Some (Inr m)"
    and "max_columns (limits opts) \<le> max_safe_integer"
  shows "scan_inv (ms_scanner m) \<and> sc_options (ms_scanner m) = opts \<and> ms_bytes m = bytes \<and> ms_chunk_size m = chunk_size \<and> 0 < chunk_size"
proof -
  obtain s t u where new: "scanner_new E opts = Inr s" and chunk: "0 < chunk_size"
    and scan: "(if bytes = [] then lbind (scanner_feed_chunk E 0 [] True) (\<lambda>_. lrun (preturn ()))
       else memory_scan E bytes chunk_size 0) s = Some (Inr u, t)"
    and m: "m = \<lparr>ms_bytes = bytes, ms_scanner = t, ms_chunk_size = chunk_size\<rparr>"
    using assms(1) by (auto simp: memory_open_with_chunk_size_def
        split: if_splits sum.splits option.splits prod.splits)
  have s: "scan_inv s" by (rule scanner_new_inv [OF new assms(2)])
  have opts: "sc_options s = opts" using new by (auto simp: scanner_new_def)
  have "scan_inv t \<and> sc_options t = sc_options s"
  proof (cases "bytes = []")
    case True
    then obtain v where "scanner_feed_chunk E 0 [] True s = Some (Inr v, t)"
      using scan by (auto simp: lbind_def lrun_def preturn_def split: option.splits prod.splits sum.splits)
    from feed_chunk_good [OF s this] show ?thesis by (simp add: scan_good_def scan_grows_def)
  next
    case False
    then show ?thesis using memory_scan_inv [OF s] scan by simp
  qed
  with chunk opts show ?thesis by (simp add: m)
qed

section \<open>Reading\<close>

lemma complete_batch_completes: "complete_batch complete d \<noteq> (Inr NeedMore, d')"
  by (auto simp: complete_batch_def prog_defs split: prod.splits sum.splits)

lemma eof_loop_completes: "decoder_eof_loop E n d \<noteq> Some (Inr NeedMore, d')"
  by (induction n arbitrary: d)
    (auto simp: lbind_def lrun_def lslice_def prog_defs complete_batch_completes [unfolded prog_defs]
      split: prod.splits sum.splits option.splits read_field_result.splits if_splits)

lemma feed_eof_completes: "decoder_feed_chunk E offset bytes True d \<noteq> Some (Inr NeedMore, d')"
proof
  assume "decoder_feed_chunk E offset bytes True d = Some (Inr NeedMore, d')"
  then obtain d1 where "(if rd_done d1 then lrun (complete_batch True)
      else if True then decoder_finish_eof E else lrun (preturn NeedMore)) d1 = Some (Inr NeedMore, d')"
    by (auto simp: decoder_feed_chunk_def lbind_def lrun_def prog_defs
        split: option.splits prod.splits sum.splits)
  then show False
    by (auto simp: complete_batch_completes decoder_finish_eof_def lbind_def lrun_def eof_loop_completes
        split: if_splits prod.splits sum.splits)
qed

lemma memory_read_returns:
  assumes "reader_progress E" and "0 < chunk_size" and "length bytes \<le> u64_max" and "offset < length bytes"
  shows "memory_read E bytes chunk_size offset d \<noteq> None"
  using assms(4)
proof (induction "length bytes - offset" arbitrary: offset d rule: less_induct)
  case less
  let ?stop = "chunk_stop bytes chunk_size offset"
  obtain r d' where feed: "decoder_feed_chunk E offset (chunk_at bytes chunk_size offset)
      (?stop = length bytes) d = Some (r, d')"
    using decoder_feed_chunk_returns [OF assms(1)] unfolding returns_def by fastforce
  show ?case
  proof (cases "r = Inr NeedMore")
    case True
    then have "?stop \<noteq> length bytes" using feed feed_eof_completes by metis
    then have "offset < ?stop" "?stop < length bytes"
      using less.prems assms(2,3) by (auto simp: chunk_stop_def saturating_add_def)
    then have "memory_read E bytes chunk_size ?stop d' \<noteq> None" by (intro less.hyps) auto
    then show ?thesis by (subst memory_read.simps) (simp add: feed True)
  next
    case False
    then show ?thesis
      by (subst memory_read.simps) (auto simp: feed split: sum.split range_decode_status.split)
  qed
qed

lemma memory_read_range_returns:
  assumes "reader_progress E" and "0 < ms_chunk_size m" and "length (ms_bytes m) \<le> u64_max"
  shows "memory_read_range E m request \<noteq> None"
proof -
  have feed: "decoder_feed_chunk E offset chunk eof d \<noteq> None" for offset chunk eof d
    using decoder_feed_chunk_returns [OF assms(1)] by (simp add: returns_def)
  have "memory_read E (ms_bytes m) (ms_chunk_size m) offset d \<noteq> None" if "offset < length (ms_bytes m)" for offset d
    by (rule memory_read_returns [OF assms that])
  then have "memory_decode E m plan d \<noteq> None" for plan d
    using feed
    by (auto simp: memory_decode_def split: prod.split sum.split option.split range_decode_status.split)
      (metis option.distinct(1))
  then show ?thesis
    by (auto simp: memory_read_range_def split: sum.split run.split)
qed

text \<open>What every chunk keeps, the reading loop keeps, and what a completing chunk gives, it gives.\<close>

lemma memory_read_rule:
  assumes step: "\<And>d offset eof. I d \<Longrightarrow> wlp (decoder_feed_chunk E offset (chunk_at bytes chunk_size offset) eof)
      (\<lambda>st d'. case st of NeedMore \<Rightarrow> I d' | CompleteBatch b \<Rightarrow> Q b) (\<lambda>_ _. True) d"
    and "memory_read E bytes chunk_size offset d = Some (Inr b)" and "I d"
  shows "Q b"
proof -
  define good where "good E' bytes' chunk_size' d r \<longleftrightarrow>
      (E' = E \<and> bytes' = bytes \<and> chunk_size' = chunk_size \<and> I d \<longrightarrow> (\<forall>b. r = Inr b \<longrightarrow> Q b))"
    for E' :: "'a csv_env" and bytes' chunk_size' d and r :: "table_batch result"
  have "good E bytes chunk_size d (Inr b)"
    using assms(2)
  proof (rule memory_read.raw_induct [where P = "\<lambda>E' bytes' chunk_size' _ d r. good E' bytes' chunk_size' d r", rotated], goal_cases)
    case (1 loop E' bytes' chunk_size' offset d r)
    show ?case
      unfolding good_def
    proof (intro impI allI, elim conjE)
      fix b assume same: "E' = E" "bytes' = bytes" "chunk_size' = chunk_size" and I: "I d" and r: "r = Inr b"
      obtain o1 d1 where feed: "decoder_feed_chunk E offset (chunk_at bytes chunk_size offset)
          (chunk_stop bytes chunk_size offset = length bytes) d = Some (o1, d1)"
        using 1(2) unfolding same by (auto split: option.splits)
      note fed = step [OF I, of offset "chunk_stop bytes chunk_size offset = length bytes",
          unfolded wlp_def feed option.case prod.case]
      obtain st where st: "o1 = Inr st"
        using 1(2) feed r unfolding same by (cases o1) auto
      show "Q b"
      proof (cases st)
        case NeedMore
        then have "loop E bytes chunk_size (chunk_stop bytes chunk_size offset) d1 = Some r"
          using 1(2) feed st unfolding same by simp
        then have "good E bytes chunk_size d1 r" by (rule 1(1))
        moreover have "I d1" using fed st NeedMore by simp
        ultimately show ?thesis using r by (simp add: good_def)
      next
        case (CompleteBatch b')
        then have "r = Inr b'" using 1(2) feed st unfolding same by simp
        then show ?thesis using fed st CompleteBatch r by simp
      qed
    qed
  qed
  with assms(3) show ?thesis by (simp add: good_def)
qed

lemma chunk_slice: "slice_of bytes offset (chunk_at bytes chunk_size offset)"
  unfolding slice_of_def chunk_at_def by blast

section \<open>Scanner and decoder composed\<close>

lemma scanner_plan_range_ok:
  assumes "scanner_plan_range s request = Inr plan"
  shows "plan_request plan = request \<and> range_valid request \<and>
    column_start request + column_count request \<le> length (sc_columns s)"
  using assms
  by (auto simp: scanner_plan_range_def scanner_validate_range_def Let_def range_valid_ends
      split: if_splits)

lemma scanner_range_decoder_cases:
  assumes "scanner_plan_range s request = Inr plan"
  shows "(\<exists>e. scanner_range_decoder E s plan = Returns (Inl e)) \<or>
    (\<exists>sch d. sch = \<lparr>schema_version = sc_schema_version s, schema_columns = sc_columns s\<rparr> \<and>
       sc_schema_version s \<le> max_safe_integer \<and>
       scanner_range_decoder E s plan = Returns (Inr d) \<and>
       decoder_new E (sc_options s) plan sch = Returns (Inr d) \<and>
       (if row_count request = 0 then decoding (sc_options s) plan sch d \<and> rd_done d \<and> rd_returned_rows d = 0
        else live (sc_options s) plan sch d))"
proof (cases "schema_new (sc_schema_version s) (sc_columns s)")
  case (Inl e)
  then show ?thesis by (simp add: scanner_range_decoder_def)
next
  case (Inr sch)
  note plan = scanner_plan_range_ok [OF assms]
  have sch: "sch = \<lparr>schema_version = sc_schema_version s, schema_columns = sc_columns s\<rparr>"
    and version: "sc_schema_version s \<le> max_safe_integer"
    using Inr by (simp_all add: schema_new_ok)
  from decoder_new_cases [of plan sch E "sc_options s"] plan
  show ?thesis unfolding scanner_range_decoder_def Inr sum.case by (auto simp: sch version)
qed

text \<open>The three ways a range is decoded: at once, at the end of the source, in a loop.\<close>

lemma memory_decode_rule:
  assumes "\<And>d offset bytes eof. I d \<Longrightarrow> slice_of (ms_bytes m) offset bytes \<Longrightarrow>
      wlp (decoder_feed_chunk E offset bytes eof)
        (\<lambda>st d'. case st of NeedMore \<Rightarrow> I d' | CompleteBatch b \<Rightarrow> Q b) (\<lambda>_ _. True) d"
    and "I d" and "wp decoder_immediate_batch (\<lambda>r d'. \<forall>b. r = Some b \<longrightarrow> Q b) (\<lambda>_ _. True) d"
    and "memory_decode E m plan d = Some (Inr b)"
  shows "Q b"
proof (cases "\<exists>b d'. decoder_immediate_batch d = (Inr (Some b), d')")
  case True
  then show ?thesis using assms(3,4) by (auto simp: memory_decode_def wp_def)
next
  case False
  then have none: "decoder_immediate_batch d = (Inr None, d)"
    using assms(4)
    by (auto simp: memory_decode_def decoder_immediate_batch_def prog_defs
        split: if_splits prod.splits sum.splits option.splits)
  show ?thesis
  proof (cases "plan_source_offset plan \<ge> length (ms_bytes m)")
    case True
    then obtain d' where "decoder_feed_chunk E (plan_source_offset plan) [] True d = Some (Inr (CompleteBatch b), d')"
      using assms(4) none
      by (auto simp: memory_decode_def split: option.splits prod.splits sum.splits range_decode_status.splits)
    from wlp_ok [OF assms(1) [OF assms(2) slice_of_Nil] this] show ?thesis by simp
  next
    case False
    then have "memory_read E (ms_bytes m) (ms_chunk_size m) (plan_source_offset plan) d = Some (Inr b)"
      using assms(4) none by (auto simp: memory_decode_def split: option.splits)
    from memory_read_rule [where I = I and Q = Q, OF assms(1) [OF _ chunk_slice] this assms(2)]
    show ?thesis .
  qed
qed

definition ready :: "delimited_options \<Rightarrow> range_plan \<Rightarrow> schema \<Rightarrow> 'r range_decoder \<Rightarrow> bool" where
  "ready opts plan sch d \<longleftrightarrow> (if row_count (plan_request plan) = 0
     then decoding opts plan sch d \<and> rd_done d \<and> rd_returned_rows d = 0 else live opts plan sch d)"

lemma immediate_sound:
  assumes "ready opts plan sch d"
  shows "wp decoder_immediate_batch
    (\<lambda>r d'. \<forall>b. r = Some b \<longrightarrow> batch_answers (max_batch_bytes (limits opts)) plan sch b) (\<lambda>_ _. True) d"
proof (cases "row_count (plan_request plan) = 0")
  case True
  then have d: "decoding opts plan sch d" "rd_done d" "rd_returned_rows d = 0"
    using assms by (simp_all add: ready_def)
  then show ?thesis
    unfolding decoder_immediate_batch_def wp_bind wp_get
    by (auto simp: wps True intro!: wp_mono [OF decoder_build_batch_answers [OF d(1)]])
next
  case False
  then show ?thesis using assms by (auto simp: ready_def decoder_immediate_batch_def wps)
qed

lemma immediate_window:
  assumes "tracked E source plan sch r d"
  shows "wp decoder_immediate_batch (\<lambda>o1 d'. \<forall>b. o1 = Some b \<longrightarrow> answers_found E source plan r b) (\<lambda>_ _. True) d"
proof -
  obtain t where t: "parsed_by E source plan r (rd_reader d) (rd_expected_offset d) t" "tracks plan sch t d"
    using assms by (auto simp: tracked_def parsed_by_def)
  have "wp (decoder_build_batch True) (\<lambda>b _. answers_found E source plan r b) (\<lambda>_ _. True) d"
    by (rule wp_mono [OF build_batch_window [OF t(2)]]) (use t(1) in \<open>auto simp: answers_found_def table_found_def\<close>)
  then show ?thesis
    unfolding decoder_immediate_batch_def wp_bind wp_get
    by (auto simp: wps elim!: wp_mono)
qed

lemma memory_decode_sound:
  assumes "ready opts plan sch d" and "memory_decode E m plan d = Some (Inr b)"
  shows "batch_answers (max_batch_bytes (limits opts)) plan sch b"
proof (rule memory_decode_rule [where I = "\<lambda>d. rd_done d \<or> live opts plan sch d", OF _ _ immediate_sound [OF assms(1)] assms(2)])
  show "rd_done d \<or> live opts plan sch d" using assms(1) by (auto simp: ready_def split: if_splits)
next
  fix d :: "'a range_decoder" and offset bytes eof
  assume "rd_done d \<or> live opts plan sch d"
  from decoder_feed_chunk_sound [OF this, of E offset bytes eof]
  show "wlp (decoder_feed_chunk E offset bytes eof)
      (\<lambda>st d'. case st of NeedMore \<Rightarrow> rd_done d' \<or> live opts plan sch d'
        | CompleteBatch b \<Rightarrow> batch_answers (max_batch_bytes (limits opts)) plan sch b) (\<lambda>_ _. True) d"
    by (rule wlp_mono) (auto simp: status_sound_def split: range_decode_status.splits)
qed

lemma memory_decode_window:
  assumes "plan_fits plan sch" and "tracked E (ms_bytes m) plan sch r d"
    and "memory_decode E m plan d = Some (Inr b)"
  shows "answers_found E (ms_bytes m) plan r b"
  by (rule memory_decode_rule [where I = "tracked E (ms_bytes m) plan sch r",
        OF decoder_feed_chunk_window [OF assms(1)] assms(2) immediate_window [OF assms(2)] assms(3)])

text \<open>A plan of a scanned source begins at a checkpoint at or before the requested row.\<close>

lemma plan_fits_scanned:
  assumes "scan_inv s" and "scanner_plan_range s request = Inr plan" and "schema_columns sch = sc_columns s"
  shows "plan_fits plan sch"
proof -
  note plan = scanner_plan_range_ok [OF assms(2)]
  have "ck_row (plan_checkpoint plan) \<le> row_start request"
  proof (cases "row_start request < sc_rows s")
    case True
    from plan_checkpoint_row [OF assms(1,2) True] show ?thesis by simp
  next
    case False
    have "plan_checkpoint plan \<in> set (sc_checkpoints s) \<or> ck_row (plan_checkpoint plan) = sc_rows s"
      using assms(2) by (auto simp: scanner_plan_range_def Let_def split: if_splits option.splits)
    with False assms(1) show ?thesis by (auto simp: scan_inv_def index_inv_def)
  qed
  with plan show ?thesis by (simp add: plan_fits_def assms(3))
qed

text \<open>A batch within 32-bit limits from named columns converts to the typed layout.\<close>

lemma answered_batch_converts:
  assumes "batch_answers limit plan sch b" and "limit \<le> u32_max"
    and "schema_version sch \<le> max_safe_integer" and "\<forall>c \<in> set (schema_columns sch). col_id c \<noteq> []"
    and "column_start (plan_request plan) + column_count (plan_request plan) \<le> length (schema_columns sch)"
  shows "is_ok (to_typed b)"
proof -
  have bytes: "column_bytes c \<le> u32_max" if "c \<in> set (tb_columns b)" for c
    using member_le_sum_list [of "column_bytes c" "map column_bytes (tb_columns b)"] that assms(1,2)
    by (simp add: batch_answers_def)
  have ids: "map scb_column_id (tb_columns b) = requested_ids plan sch"
    using assms(1) by (simp add: batch_answers_def)
  have named: "scb_column_id c \<noteq> []" if "c \<in> set (tb_columns b)" for c
  proof -
    have "scb_column_id c \<in> set (requested_ids plan sch)" using that unfolding ids [symmetric] by simp
    then show ?thesis using assms(4) by (auto simp: requested_ids_def dest!: in_set_takeD in_set_dropD)
  qed
  have len: "length (tb_columns b) = column_count (tb_range b)"
  proof -
    have "length (tb_columns b) = length (requested_ids plan sch)" unfolding ids [symmetric] by simp
    moreover have "column_count (tb_range b) = column_count (plan_request plan)"
      using assms(1) by (metis batch_answers_def range_request.select_convs(4) range_request.surjective range_request.update_convs(2))
    ultimately show ?thesis using assms(5) by (simp add: requested_ids_def)
  qed
  have "4 * length cs \<le> sum_list (map column_bytes cs)" if "\<forall>c \<in> set cs. scb_wf c" for cs
    using that
  proof (induction cs)
    case (Cons c cs)
    then have "4 \<le> column_bytes c" by (cases "scb_offsets c") (auto simp: column_bytes_def scb_wf_def)
    with Cons show ?case by simp
  qed simp
  from this [of "tb_columns b"] have "4 * length (tb_columns b) \<le> u32_max"
    using assms(1,2) by (simp add: batch_answers_def)
  moreover have "u32_max \<le> max_safe_integer" by (simp add: u32_max_def max_safe_integer_def)
  ultimately have "batch_convertible b"
    using assms(1,3) bytes named len
    by (fastforce simp: batch_convertible_def column_convertible_def batch_answers_def column_bytes_def)
  from to_typed_succeeds [OF this] show ?thesis by (auto simp: is_ok_iff)
qed

section \<open>Properties\<close>

abbreviation "scanned_schema m \<equiv> \<lparr>schema_version = sc_schema_version (ms_scanner m), schema_columns = sc_columns (ms_scanner m)\<rparr>"

lemma memory_read_range_runs:
  assumes "scanner_plan_range (ms_scanner m) request = Inr plan" and "memory_read_range E m request = Some r"
  shows "(\<exists>e. r = Returns (Inl e)) \<or>
    (\<exists>d o1. r = Returns o1 \<and> memory_decode E m plan d = Some o1 \<and>
       sc_schema_version (ms_scanner m) \<le> max_safe_integer \<and>
       decoder_new E (sc_options (ms_scanner m)) plan (scanned_schema m) = Returns (Inr d) \<and>
       ready (sc_options (ms_scanner m)) plan (scanned_schema m) d)"
proof -
  have request: "plan_request plan = request" using scanner_plan_range_ok [OF assms(1)] by simp
  from scanner_range_decoder_cases [OF assms(1), of E] show ?thesis
  proof (elim disjE exE conjE)
    fix e assume "scanner_range_decoder E (ms_scanner m) plan = Returns (Inl e)"
    then have "r = Returns (Inl e)" using assms by (simp add: memory_read_range_def)
    then show ?thesis by blast
  next
    fix sch d
    assume sch: "sch = scanned_schema m" and decoder: "scanner_range_decoder E (ms_scanner m) plan = Returns (Inr d)"
      and new: "decoder_new E (sc_options (ms_scanner m)) plan sch = Returns (Inr d)"
      and version: "sc_schema_version (ms_scanner m) \<le> max_safe_integer"
      and cases: "if row_count request = 0 then decoding (sc_options (ms_scanner m)) plan sch d \<and> rd_done d \<and> rd_returned_rows d = 0
        else live (sc_options (ms_scanner m)) plan sch d"
    have "ready (sc_options (ms_scanner m)) plan sch d" unfolding ready_def request by (rule cases)
    moreover obtain o1 where "memory_decode E m plan d = Some o1" "r = Returns o1"
      using assms decoder by (auto simp: memory_read_range_def)
    ultimately show ?thesis using new version unfolding sch by blast
  qed
qed

lemma memory_read_range_sound:
  assumes "scanner_plan_range (ms_scanner m) request = Inr plan"
    and "memory_read_range E m request = Some r"
  shows "r \<noteq> Panics \<and> (\<forall>b. r = Returns (Inr b) \<longrightarrow>
    sc_schema_version (ms_scanner m) \<le> max_safe_integer \<and>
    batch_answers (max_batch_bytes (limits (sc_options (ms_scanner m)))) plan (scanned_schema m) b)"
  using memory_read_range_runs [OF assms]
proof (elim disjE exE conjE)
  fix d o1
  assume r: "r = Returns o1" and run: "memory_decode E m plan d = Some o1"
    and version: "sc_schema_version (ms_scanner m) \<le> max_safe_integer"
    and ready: "ready (sc_options (ms_scanner m)) plan (scanned_schema m) d"
  from memory_decode_sound [OF ready] run version show ?thesis by (auto simp: r)
qed simp

lemma memory_read_range_window:
  assumes "scan_inv (ms_scanner m)" and "scanner_plan_range (ms_scanner m) request = Inr plan"
    and "memory_read_range E m request = Some (Returns (Inr b))"
  shows "answers_found E (ms_bytes m) plan (env_build_reader E (delimiter (sc_options (ms_scanner m)))) b"
  using memory_read_range_runs [OF assms(2,3)]
proof (elim disjE exE conjE)
  fix d o1
  assume o1: "Returns (Inr b) = Returns o1" and run: "memory_decode E m plan d = Some o1"
    and new: "decoder_new E (sc_options (ms_scanner m)) plan (scanned_schema m) = Returns (Inr d)"
  have fits: "plan_fits plan (scanned_schema m)" by (rule plan_fits_scanned [OF assms(1,2)]) simp
  have "memory_decode E m plan d = Some (Inr b)" using run o1 by simp
  from memory_decode_window [OF fits decoder_new_tracked [OF fits new] this] show ?thesis .
qed simp

text \<open>
  C1: End to end, on any source that was opened. A batch that reading a range returns,
  whatever the external reader answers, starts at the requested row and has no more rows
  than requested, says it is complete exactly when it has them all, holds the requested
  columns under the identifiers of their positions, stays within the byte limit, converts
  to the typed layout without an error, and its cells are those of the records the external
  reader finds in the source from the plan's checkpoint on. With a reader that consumes
  something of a non-empty input and stays within its input and output buffers, reading any
  range returns a batch or an error: it neither panics, which \<open>&input[consumed..]\<close> and
  \<open>&scratch[..written]\<close> do for other readers, nor loops.
\<close>

theorem memory_range_answers_request:
  assumes "memory_open_with_chunk_size E bytes opts chunk_size = Some (Inr m)"
    and "max_columns (limits opts) \<le> max_safe_integer" and "max_batch_bytes (limits opts) \<le> u32_max"
  shows "(reader_progress E \<and> length bytes \<le> u64_max \<longrightarrow>
       (\<exists>outcome. memory_read_range E m request = Some (Returns outcome))) \<and>
    (\<forall>b. memory_read_range E m request = Some (Returns (Inr b)) \<longrightarrow>
       tb_range b = request\<lparr>row_count := row_count (tb_range b)\<rparr> \<and>
       row_count (tb_range b) \<le> row_count request \<and>
       tb_complete b = (row_count (tb_range b) = row_count request) \<and>
       map scb_column_id (tb_columns b) =
         map column_id [column_start request..<column_start request + column_count request] \<and>
       sum_list (map column_bytes (tb_columns b)) \<le> max_batch_bytes (limits opts) \<and>
       is_ok (to_typed b) \<and>
       (\<exists>plan t. scanner_plan_range (ms_scanner m) request = Inr plan \<and>
          table_found E bytes plan (env_build_reader E (delimiter opts)) t \<and> shows_window plan t b))"
proof (cases "scanner_plan_range (ms_scanner m) request")
  case (Inl e)
  then show ?thesis by (simp add: memory_read_range_def)
next
  case (Inr plan)
  note opened = memory_open_scanned [OF assms(1,2)]
  note plan = scanner_plan_range_ok [OF Inr]
  let ?s = "ms_scanner m"
  let ?sch = "\<lparr>schema_version = sc_schema_version ?s, schema_columns = sc_columns ?s\<rparr>"
  have ids: "\<forall>i < length (sc_columns ?s). col_id (sc_columns ?s ! i) = column_id i"
    using opened by (simp add: scan_inv_def columns_inv_def)
  have requested: "requested_ids plan ?sch =
      map column_id [column_start request..<column_start request + column_count request]"
    using plan ids by (auto simp: requested_ids_def intro!: nth_equalityI)
  have named: "\<forall>c \<in> set (schema_columns ?sch). col_id c \<noteq> []"
    using ids by (auto simp: in_set_conv_nth column_id_def)
  have answer: "sc_schema_version ?s \<le> max_safe_integer \<and>
      batch_answers (max_batch_bytes (limits opts)) plan ?sch b"
    if "memory_read_range E m request = Some (Returns (Inr b))" for b
    using memory_read_range_sound [OF Inr that] opened by simp
  have convert: "is_ok (to_typed b)" if "memory_read_range E m request = Some (Returns (Inr b))" for b
  proof -
    have "schema_version ?sch \<le> max_safe_integer"
      "column_start (plan_request plan) + column_count (plan_request plan) \<le> length (schema_columns ?sch)"
      using answer [OF that] plan by simp_all
    from answered_batch_converts [OF conjunct2 [OF answer [OF that]] assms(3) this(1) named this(2)]
    show ?thesis .
  qed
  have "\<exists>outcome. memory_read_range E m request = Some (Returns outcome)"
    if reader: "reader_progress E" and fits: "length bytes \<le> u64_max"
  proof -
    obtain r where r: "memory_read_range E m request = Some r"
      using memory_read_range_returns [OF reader, of m request] opened fits by auto
    then show ?thesis using memory_read_range_sound [OF Inr r] by (cases r) simp_all
  qed
  moreover have "\<exists>t. table_found E bytes plan (env_build_reader E (delimiter opts)) t \<and> shows_window plan t b"
    if "memory_read_range E m request = Some (Returns (Inr b))" for b
    using memory_read_range_window [OF _ Inr that] opened by (simp add: answers_found_def)
  ultimately show ?thesis
    using answer convert plan requested Inr by (simp add: batch_answers_def)
qed

text \<open>
  C5: Both operations of the client return. Opening a source and reading any range of it
  end with a result or an error, without looping and without slicing out of range, provided
  the external reader consumes something of a non-empty input and stays within its buffers
  as it documents: the last chunk makes the decoder complete or fail.
\<close>

theorem memory_operations_terminate:
  assumes "reader_progress E" and "length bytes \<le> u64_max"
  shows "memory_open_with_chunk_size E bytes opts chunk_size \<noteq> None \<and>
    (\<forall>m. memory_open_with_chunk_size E bytes opts chunk_size = Some (Inr m) \<longrightarrow>
       memory_read_range E m request \<noteq> None)"
proof (intro conjI allI impI)
  have scan: "memory_scan E bytes chunk_size 0 s \<noteq> None"
    and feed: "scanner_feed_chunk E 0 [] True s \<noteq> None" for s
    using memory_scan_returns [OF assms(1)] feed_chunk_returns [OF assms(1)] by (simp_all add: returns_def)
  then have empty: "lbind (scanner_feed_chunk E 0 [] True) (\<lambda>_. lrun (preturn ())) s \<noteq> None" for s
    by (auto simp: lbind_def lrun_def split: option.split sum.split prod.split)
  show "memory_open_with_chunk_size E bytes opts chunk_size \<noteq> None"
  proof (cases "scanner_new E opts")
    case (Inl e)
    then show ?thesis by (simp add: memory_open_with_chunk_size_def)
  next
    case (Inr s)
    then show ?thesis
      using empty [of s] scan [of s]
      by (cases "bytes = []") (auto simp: memory_open_with_chunk_size_def split: sum.split)
  qed
next
  fix m assume "memory_open_with_chunk_size E bytes opts chunk_size = Some (Inr m)"
  then have m: "ms_bytes m = bytes" "0 < ms_chunk_size m"
    by (auto simp: memory_open_with_chunk_size_def split: if_splits sum.splits option.splits prod.splits)
  show "memory_read_range E m request \<noteq> None"
    by (rule memory_read_range_returns [OF assms(1)]) (use m assms(2) in simp_all)
qed

text \<open>A source of two one-field rows, read in chunks of three bytes.\<close>

definition plain_source :: "unit memory_source" where
  "plain_source = (case memory_open_with_chunk_size plain_env [0x31, 0x0A, 0x32, 0x0A] plain_options 3 of
     Some (Inr m) \<Rightarrow> m | _ \<Rightarrow> undefined)"

lemma plain_source_open:
  "memory_open_with_chunk_size plain_env [0x31, 0x0A, 0x32, 0x0A] plain_options 3 = Some (Inr plain_source)"
  unfolding plain_source_def
  by (simp add: memory_open_with_chunk_size_def memory_scan_step memory_scan_stop chunk_at_def
      chunk_stop_def saturating_add_def scan_eval)

theorem memory_range_answers_request_witness:
  "\<exists>outcome. memory_read_range plain_env plain_source second_row = Some (Returns outcome)"
  using memory_range_answers_request [OF plain_source_open plain_options_fit, of second_row] plain_env_progress
  by (simp add: plain_options_def options_csv_def csv_limits_default_def u32_max_def u64_max_def)

theorem memory_operations_terminate_witness:
  "memory_read_range plain_env plain_source second_row \<noteq> None"
  using memory_operations_terminate [OF plain_env_progress, of "[0x31, 0x0A, 0x32, 0x0A]" plain_options 3 second_row]
    plain_source_open
  by (simp add: u64_max_def)

end
