(* ===== verification/Runtime.thy ===== *)
theory Runtime
  imports Memory_Source "HOL-Library.AList"
begin

text \<open>
  src/src/runtime.rs: the registry that owns the open sources and the active ranges of a
  worker, hands out opaque handles for them and enforces the worker's limits. A hash map is
  an association list with distinct keys: the code never depends on its order. The
  allocation estimate of a scanner reads vector capacities, which the language leaves
  open, so it is the parameter \<open>est\<close>.
\<close>

section \<open>Configuration\<close>

record runtime_config =
  memory_budget_bytes :: nat
  index_budget_bytes :: nat
  tile_cache_budget_bytes :: nat
  chunk_bytes :: nat
  checkpoint_rows :: nat
  rc_max_field_bytes :: nat
  rc_max_columns :: nat
  rc_max_range_cells :: nat
  rc_max_batch_bytes :: nat
  rc_max_sources :: nat
  rc_max_active_ranges :: nat

definition runtime_config_default :: runtime_config where
  "runtime_config_default =
     \<lparr>memory_budget_bytes = 256 * 1024 * 1024, index_budget_bytes = 64 * 1024 * 1024,
      tile_cache_budget_bytes = 96 * 1024 * 1024, chunk_bytes = 1024 * 1024,
      checkpoint_rows = 1024, rc_max_field_bytes = 16 * 1024 * 1024, rc_max_columns = 16384,
      rc_max_range_cells = 250000, rc_max_batch_bytes = 32 * 1024 * 1024, rc_max_sources = 8,
      rc_max_active_ranges = 2\<rparr>"

section \<open>State\<close>

type_synonym source_handle = nat
type_synonym range_handle = nat

record 'r active_range =
  ar_source :: source_handle
  ar_decoder :: "'r range_decoder"
  ar_diagnostic_count :: nat

record 'r runtime =
  rt_config :: runtime_config
  rt_next_handle :: nat
  rt_sources :: "(source_handle \<times> 'r csv_scanner) list"
  rt_ranges :: "(range_handle \<times> 'r active_range) list"

record begin_range_result =
  br_range_handle :: range_handle
  br_plan :: range_plan
  br_batch :: "table_batch option"

datatype feed_range_result =
    FeedNeedMore (feed_expected_offset: nat) (feed_warnings: "csv_diagnostic list")
  | FeedComplete (feed_batch: table_batch) (feed_warnings: "csv_diagnostic list")

type_synonym ('r, 'a) registry = "('r runtime, tabulark_error, 'a) prog"

definition runtime_new :: "runtime_config \<Rightarrow> 'r runtime result" where
  "runtime_new config =
     (if memory_budget_bytes config = 0 \<or> index_budget_bytes config = 0 \<or>
         tile_cache_budget_bytes config = 0 \<or> chunk_bytes config = 0 \<or> checkpoint_rows config = 0 \<or>
         rc_max_field_bytes config = 0 \<or> rc_max_columns config = 0 \<or> rc_max_range_cells config = 0 \<or>
         rc_max_batch_bytes config = 0 \<or> rc_max_sources config = 0 \<or> rc_max_active_ranges config = 0
      then Inl (new_error InvalidArgument ''runtime resource limits must be greater than zero'')
      else
        rbind (ok_or (checked_add (index_budget_bytes config) (tile_cache_budget_bytes config))
          (new_error InvalidArgument
             ''runtime sub-budget total exceeds the supported byte range'')) (\<lambda>sub_budget_bytes.
        if sub_budget_bytes > memory_budget_bytes config
        then Inl (with_detail (with_detail
               (new_error InvalidArgument
                  ''runtime sub-budget total must not exceed the total memory budget'')
               ''subBudgetBytes'' (DetailNumber sub_budget_bytes))
               ''memoryBudgetBytes'' (DetailNumber (memory_budget_bytes config)))
        else Inr \<lparr>rt_config = config, rt_next_handle = 1, rt_sources = [], rt_ranges = []\<rparr>))"

section \<open>Operations\<close>

definition allocate_handle :: "('r, nat) registry" where
  "allocate_handle =
     pbind pget (\<lambda>r.
     case checked_add_u32 (rt_next_handle r) 1 of
       None \<Rightarrow> pfail (new_error ResourceLimit ''runtime handle space exhausted'')
     | Some n \<Rightarrow> pbind (pmodify (\<lambda>r. r\<lparr>rt_next_handle := n\<rparr>)) (\<lambda>_. preturn (rt_next_handle r)))"

definition runtime_source :: "'r runtime \<Rightarrow> source_handle \<Rightarrow> 'r csv_scanner result" where
  "runtime_source r source =
     ok_or (map_of (rt_sources r) source) (new_error HandleClosed ''source handle is closed'')"

definition cap_options :: "runtime_config \<Rightarrow> delimited_options \<Rightarrow> delimited_options" where
  "cap_options config opts =
     opts\<lparr>checkpoint_interval := checkpoint_rows config,
       limits := (limits opts)
         \<lparr>max_field_bytes := min (max_field_bytes (limits opts)) (rc_max_field_bytes config),
          max_columns := min (max_columns (limits opts)) (rc_max_columns config),
          max_cells_per_range := min (max_cells_per_range (limits opts)) (rc_max_range_cells config),
          max_batch_bytes := min (max_batch_bytes (limits opts)) (rc_max_batch_bytes config)\<rparr>\<rparr>"

definition open_delimited :: "'r csv_env \<Rightarrow> delimited_options \<Rightarrow> ('r, source_handle) registry" where
  "open_delimited E opts =
     pbind pget (\<lambda>r.
     if length (rt_sources r) \<ge> rc_max_sources (rt_config r)
     then pfail (with_detail (new_error ResourceLimit ''runtime has reached its open-source limit'')
            ''maxSources'' (DetailNumber (rc_max_sources (rt_config r))))
     else
       pbind allocate_handle (\<lambda>handle.
       pbind (plift (scanner_new E (cap_options (rt_config r) opts))) (\<lambda>scanner.
       pbind (pmodify (\<lambda>r. r\<lparr>rt_sources := AList.update handle scanner (rt_sources r)\<rparr>)) (\<lambda>_.
       preturn handle))))"

definition retained_bytes :: "('r csv_scanner \<Rightarrow> nat) \<Rightarrow> 'r runtime \<Rightarrow> nat" where
  "retained_bytes est r = fold (\<lambda>s total. saturating_add total (est s)) (map snd (rt_sources r)) 0"

text \<open>
  A chunk for an open source runs its scanner, whose mutations stay when it fails; then
  the registry's index budget is checked, with the update already made.
\<close>

definition runtime_feed_source ::
    "'r csv_env \<Rightarrow> source_handle \<Rightarrow> nat \<Rightarrow> byte list \<Rightarrow> bool \<Rightarrow> ('r runtime, tabulark_error, scan_update) lprog" where
  "runtime_feed_source E source absolute_offset bytes eof r =
     (case runtime_source r source of
        Inl e \<Rightarrow> Some (Inl e, r)
      | Inr scanner \<Rightarrow>
          map_option (\<lambda>(result, scanner').
              (result, r\<lparr>rt_sources := AList.update source scanner' (rt_sources r)\<rparr>))
            (scanner_feed_chunk E absolute_offset bytes eof scanner))"

definition runtime_scan_chunk ::
    "('r csv_scanner \<Rightarrow> nat) \<Rightarrow> 'r csv_env \<Rightarrow> source_handle \<Rightarrow> nat \<Rightarrow> byte list \<Rightarrow> bool \<Rightarrow>
       ('r runtime, tabulark_error, scan_update) lprog" where
  "runtime_scan_chunk est E source absolute_offset bytes eof =
     lbind (runtime_feed_source E source absolute_offset bytes eof) (\<lambda>update.
     lrun (pbind pget (\<lambda>r.
       let estimated_bytes = retained_bytes est r in
       if estimated_bytes > index_budget_bytes (rt_config r)
       then pfail (with_detail (with_detail
              (new_error ResourceLimit
                 ''runtime sparse index and parser state exceed the configured byte budget'')
              ''estimatedBytes'' (DetailNumber estimated_bytes))
              ''indexBudgetBytes'' (DetailNumber (index_budget_bytes (rt_config r))))
       else preturn update)))"

definition runtime_metadata :: "'r runtime \<Rightarrow> source_handle \<Rightarrow> table_metadata result" where
  "runtime_metadata r source = rbind (runtime_source r source) scanner_metadata"

definition plan_decoder ::
    "'r csv_env \<Rightarrow> 'r runtime \<Rightarrow> source_handle \<Rightarrow> range_request \<Rightarrow> (range_plan \<times> 'r range_decoder) result run" where
  "plan_decoder E r source request =
     (case rbind (runtime_source r source) (\<lambda>scanner.
             rbind (scanner_plan_range scanner request) (\<lambda>plan. Inr (scanner, plan))) of
        Inl e \<Rightarrow> Returns (Inl e)
      | Inr (scanner, plan) \<Rightarrow>
          run_bind (scanner_range_decoder E scanner plan) (\<lambda>result.
            Returns (rbind result (\<lambda>decoder. Inr (plan, decoder)))))"

definition begin_range ::
    "'r csv_env \<Rightarrow> source_handle \<Rightarrow> range_request \<Rightarrow> 'r runtime \<Rightarrow> (begin_range_result result \<times> 'r runtime) run" where
  "begin_range E source request r =
     (if length (rt_ranges r) \<ge> rc_max_active_ranges (rt_config r)
      then Returns (Inl (with_detail
             (new_error ResourceLimit ''runtime has reached its active-range limit'')
             ''maxActiveRanges'' (DetailNumber (rc_max_active_ranges (rt_config r)))), r)
      else
        run_bind (plan_decoder E r source request) (\<lambda>planned.
        Returns (
          pbind (plift planned) (\<lambda>(plan, decoder).
          pbind allocate_handle (\<lambda>handle.
          case decoder_immediate_batch decoder of
            (Inl e, _) \<Rightarrow> pfail e
          | (Inr (Some batch), _) \<Rightarrow>
              preturn \<lparr>br_range_handle = handle, br_plan = plan, br_batch = Some batch\<rparr>
          | (Inr None, decoder) \<Rightarrow>
              pbind (pmodify (\<lambda>r. r\<lparr>rt_ranges := AList.update handle
                 \<lparr>ar_source = source, ar_decoder = decoder, ar_diagnostic_count = 0\<rparr> (rt_ranges r)\<rparr>)) (\<lambda>_.
              preturn \<lparr>br_range_handle = handle, br_plan = plan, br_batch = None\<rparr>))) r)))"

definition feed_range ::
    "'r csv_env \<Rightarrow> range_handle \<Rightarrow> nat \<Rightarrow> byte list \<Rightarrow> bool \<Rightarrow>
       ('r runtime, tabulark_error, feed_range_result) lprog" where
  "feed_range E handle absolute_offset bytes eof r =
     (case map_of (rt_ranges r) handle of
        None \<Rightarrow> Some (Inl (new_error HandleClosed ''range handle is closed''), r)
      | Some active \<Rightarrow>
          let removed = r\<lparr>rt_ranges := AList.delete handle (rt_ranges r)\<rparr> in
          if map_of (rt_sources r) (ar_source active) = None
          then Some (Inl (new_error HandleClosed ''source owning this range has been closed''), removed)
          else map_option (\<lambda>(result, decoder).
            case result of
              Inl e \<Rightarrow> (Inl e, removed)
            | Inr status \<Rightarrow>
                let warnings = drop (ar_diagnostic_count active) (rd_diagnostics decoder);
                    active = active\<lparr>ar_decoder := decoder,
                      ar_diagnostic_count := length (rd_diagnostics decoder)\<rparr>
                in case status of
                     NeedMore \<Rightarrow>
                       (Inr (FeedNeedMore (rd_expected_offset decoder) warnings),
                        removed\<lparr>rt_ranges := AList.update handle active (rt_ranges removed)\<rparr>)
                   | CompleteBatch batch \<Rightarrow> (Inr (FeedComplete batch warnings), removed))
            (decoder_feed_chunk E absolute_offset bytes eof (ar_decoder active)))"

definition cancel_range :: "range_handle \<Rightarrow> 'r runtime \<Rightarrow> bool \<times> 'r runtime" where
  "cancel_range handle r =
     (map_of (rt_ranges r) handle \<noteq> None, r\<lparr>rt_ranges := AList.delete handle (rt_ranges r)\<rparr>)"

definition close_range :: "range_handle \<Rightarrow> 'r runtime \<Rightarrow> bool \<times> 'r runtime" where
  "close_range handle r =
     (map_of (rt_ranges r) handle \<noteq> None, r\<lparr>rt_ranges := AList.delete handle (rt_ranges r)\<rparr>)"

definition close_source :: "source_handle \<Rightarrow> 'r runtime \<Rightarrow> bool \<times> 'r runtime" where
  "close_source source r =
     (map_of (rt_sources r) source \<noteq> None,
      r\<lparr>rt_sources := AList.delete source (rt_sources r),
        rt_ranges := filter (\<lambda>(_, a). ar_source a \<noteq> source) (rt_ranges r)\<rparr>)"

definition shutdown :: "'r runtime \<Rightarrow> 'r runtime" where
  "shutdown r = r\<lparr>rt_ranges := [], rt_sources := []\<rparr>"

definition source_count :: "'r runtime \<Rightarrow> nat" where
  "source_count r = length (rt_sources r)"

definition active_range_count :: "'r runtime \<Rightarrow> nat" where
  "active_range_count r = length (rt_ranges r)"

end
