(* ===== verification/Handle_Table.thy ===== *)
theory Handle_Table
  imports Main "HOL-Library.AList"
begin

text \<open>
  Registries as association lists with distinct keys: what inserting under a fresh key,
  replacing a present entry, removing and filtering do to the keys, the entries and the size.
\<close>

lemma update_fresh: "k \<notin> fst ` set al \<Longrightarrow> AList.update k v al = al @ [(k, v)]"
  by (induction al) auto

lemma update_present_keys: "k \<in> fst ` set al \<Longrightarrow> map fst (AList.update k v al) = map fst al"
  by (induction al) auto

lemma update_present_length: "k \<in> fst ` set al \<Longrightarrow> length (AList.update k v al) = length al"
  using update_present_keys [of k al v] by (metis length_map)

lemma update_entry: "(h, x) \<in> set (AList.update k v al) \<Longrightarrow> h = k \<and> x = v \<or> (h, x) \<in> set al"
  by (induction al) (auto split: if_splits)

lemma delete_entry: "(h, x) \<in> set (AList.delete k al) \<longleftrightarrow> (h, x) \<in> set al \<and> h \<noteq> k"
  by (induction al) auto

lemma delete_keys: "fst ` set (AList.delete k al) = fst ` set al - {k}"
  by (induction al) auto

lemma delete_length: "length (AList.delete k al) \<le> length al"
  by (induction al) auto

lemma delete_length_less: "k \<in> fst ` set al \<Longrightarrow> length (AList.delete k al) < length al"
  by (induction al) (auto simp: le_imp_less_Suc delete_length)

lemma lookup_key: "map_of al k = Some v \<Longrightarrow> (k, v) \<in> set al \<and> k \<in> fst ` set al"
  by (auto dest: map_of_SomeD intro: rev_image_eqI)

lemma lookup_none: "map_of al k = None \<longleftrightarrow> k \<notin> fst ` set al"
  by (rule map_of_eq_None_iff)

lemma filter_keys_distinct: "distinct (map fst al) \<Longrightarrow> distinct (map fst (filter P al))"
  by (induction al) auto

end
