(* ===== verification/Runtime_Safety.thy ===== *)
theory Runtime_Safety
  imports Runtime Handle_Table
begin

text \<open>
  What the registry keeps over any sequence of calls: counts within the limits, handles
  distinct and never handed out twice, every active range owned by an open source, every
  scanner and decoder capped by the worker's configuration.
\<close>

section \<open>The invariant\<close>

definition scanner_capped :: "runtime_config \<Rightarrow> 'r csv_scanner \<Rightarrow> bool" where
  "scanner_capped config s \<longleftrightarrow> scan_inv s \<and>
     checkpoint_interval (sc_options s) = checkpoint_rows config \<and>
     max_field_bytes (limits (sc_options s)) \<le> rc_max_field_bytes config \<and>
     max_columns (limits (sc_options s)) \<le> rc_max_columns config \<and>
     max_cells_per_range (limits (sc_options s)) \<le> rc_max_range_cells config \<and>
     max_batch_bytes (limits (sc_options s)) \<le> rc_max_batch_bytes config"

definition range_capped :: "runtime_config \<Rightarrow> 'r active_range \<Rightarrow> bool" where
  "range_capped config a \<longleftrightarrow> (\<exists>opts plan sch. live opts plan sch (ar_decoder a) \<and>
     max_batch_bytes (limits opts) \<le> rc_max_batch_bytes config \<and>
     row_count (plan_request plan) * column_count (plan_request plan) \<le> rc_max_range_cells config)"

definition source_keys :: "'r runtime \<Rightarrow> nat set" where
  "source_keys r = fst ` set (rt_sources r)"

definition range_keys :: "'r runtime \<Rightarrow> nat set" where
  "range_keys r = fst ` set (rt_ranges r)"

definition handles_ok :: "'r runtime \<Rightarrow> bool" where
  "handles_ok r \<longleftrightarrow> distinct (map fst (rt_sources r)) \<and> distinct (map fst (rt_ranges r)) \<and>
     source_keys r \<inter> range_keys r = {} \<and>
     (\<forall>h \<in> source_keys r \<union> range_keys r. h < rt_next_handle r) \<and> rt_next_handle r \<le> u32_max"

definition owned :: "'r runtime \<Rightarrow> bool" where
  "owned r \<longleftrightarrow> (\<forall>h a. (h, a) \<in> set (rt_ranges r) \<longrightarrow>
     ar_source a \<in> source_keys r \<and> range_capped (rt_config r) a)"

definition runtime_inv :: "'r runtime \<Rightarrow> bool" where
  "runtime_inv r \<longleftrightarrow> rc_max_columns (rt_config r) \<le> max_safe_integer \<and>
     length (rt_sources r) \<le> rc_max_sources (rt_config r) \<and>
     length (rt_ranges r) \<le> rc_max_active_ranges (rt_config r) \<and>
     handles_ok r \<and> (\<forall>h s. (h, s) \<in> set (rt_sources r) \<longrightarrow> scanner_capped (rt_config r) s) \<and> owned r"

lemma runtime_new_inv:
  "runtime_new config = Inr r \<Longrightarrow> rc_max_columns config \<le> max_safe_integer \<Longrightarrow> runtime_inv r"
  by (auto simp: runtime_new_def runtime_inv_def handles_ok_def owned_def source_keys_def range_keys_def
      u32_max_def split: if_splits)

text \<open>\<open>handle_spent h r\<close>: the handle was given out and names nothing any more.\<close>

definition handle_spent :: "nat \<Rightarrow> 'r runtime \<Rightarrow> bool" where
  "handle_spent h r \<longleftrightarrow> h < rt_next_handle r \<and> h \<notin> source_keys r \<and> h \<notin> range_keys r"

text \<open>
  One call from \<open>r\<close> to \<open>r'\<close> keeps the invariant and the configuration, and revives no
  handle.
\<close>

definition runtime_good :: "'r runtime \<Rightarrow> 'r runtime \<Rightarrow> bool" where
  "runtime_good r r' \<longleftrightarrow> runtime_inv r' \<and> rt_config r' = rt_config r \<and>
     rt_next_handle r \<le> rt_next_handle r' \<and> (\<forall>h. handle_spent h r \<longrightarrow> handle_spent h r')"

lemma runtime_good_refl: "runtime_inv r \<Longrightarrow> runtime_good r r"
  by (simp add: runtime_good_def)

section \<open>Every operation keeps it\<close>

lemma runtime_allocated:
  assumes "runtime_inv r" and "rt_next_handle r + 1 \<le> u32_max"
  shows "runtime_good r (r\<lparr>rt_next_handle := Suc (rt_next_handle r)\<rparr>)"
  using assms
  by (auto simp: runtime_good_def runtime_inv_def handles_ok_def owned_def source_keys_def range_keys_def
      handle_spent_def less_Suc_eq)

lemma runtime_source_added:
  assumes "runtime_inv r" and "rt_next_handle r + 1 \<le> u32_max"
    and "scanner_capped (rt_config r) s" and "length (rt_sources r) < rc_max_sources (rt_config r)"
  shows "runtime_good r (r\<lparr>rt_next_handle := Suc (rt_next_handle r),
    rt_sources := AList.update (rt_next_handle r) s (rt_sources r)\<rparr>)"
proof -
  have fresh: "rt_next_handle r \<notin> fst ` set (rt_sources r)" "rt_next_handle r \<notin> range_keys r"
    using assms(1) unfolding runtime_inv_def handles_ok_def source_keys_def by blast+
  show ?thesis
    using assms fresh
    by (auto simp: runtime_good_def runtime_inv_def handles_ok_def owned_def source_keys_def range_keys_def
        handle_spent_def less_Suc_eq update_fresh)
qed

lemma runtime_range_added:
  assumes "runtime_inv r" and "rt_next_handle r + 1 \<le> u32_max"
    and "ar_source a \<in> source_keys r" and "range_capped (rt_config r) a"
    and "length (rt_ranges r) < rc_max_active_ranges (rt_config r)"
  shows "runtime_good r (r\<lparr>rt_next_handle := Suc (rt_next_handle r),
    rt_ranges := AList.update (rt_next_handle r) a (rt_ranges r)\<rparr>)"
proof -
  have fresh: "rt_next_handle r \<notin> fst ` set (rt_ranges r)" "rt_next_handle r \<notin> source_keys r"
    using assms(1) unfolding runtime_inv_def handles_ok_def range_keys_def by blast+
  show ?thesis
    using assms fresh
    by (auto simp: runtime_good_def runtime_inv_def handles_ok_def owned_def source_keys_def range_keys_def
        handle_spent_def less_Suc_eq update_fresh)
qed

lemma runtime_source_replaced:
  assumes "runtime_inv r" and "h \<in> source_keys r" and "scanner_capped (rt_config r) s"
  shows "runtime_good r (r\<lparr>rt_sources := AList.update h s (rt_sources r)\<rparr>)"
proof -
  let ?r = "r\<lparr>rt_sources := AList.update h s (rt_sources r)\<rparr>"
  have keys: "map fst (rt_sources ?r) = map fst (rt_sources r)"
    and len: "length (rt_sources ?r) = length (rt_sources r)"
    using assms(2) by (simp_all add: source_keys_def update_present_keys update_present_length)
  have set: "source_keys ?r = source_keys r" "range_keys ?r = range_keys r"
    using arg_cong [OF keys, of set] by (simp_all add: source_keys_def range_keys_def)
  have "handles_ok ?r" using assms(1) keys set by (simp add: runtime_inv_def handles_ok_def)
  moreover have "owned ?r" using assms(1) set by (simp add: runtime_inv_def owned_def)
  moreover have "scanner_capped (rt_config r) s'" if "(h', s') \<in> set (rt_sources ?r)" for h' s'
    using that assms(1,3) update_entry [of h' s' h s "rt_sources r"] by (auto simp: runtime_inv_def)
  ultimately show ?thesis
    using assms(1) len set by (auto simp: runtime_good_def runtime_inv_def handle_spent_def)
qed

lemma runtime_ranges_dropped:
  assumes "runtime_inv r" and "set al \<subseteq> set (rt_ranges r)" and "distinct (map fst al)"
    and "length al \<le> length (rt_ranges r)"
  shows "runtime_good r (r\<lparr>rt_ranges := al\<rparr>)"
proof -
  let ?r = "r\<lparr>rt_ranges := al\<rparr>"
  have keys: "source_keys ?r = source_keys r" "range_keys ?r \<subseteq> range_keys r"
    using assms(2) by (auto simp: source_keys_def range_keys_def)
  have "handles_ok ?r"
    using assms(1,3) keys by (auto simp: runtime_inv_def handles_ok_def)
  moreover have "owned ?r" using assms(1,2) keys by (auto simp: runtime_inv_def owned_def)
  ultimately show ?thesis
    using assms(1,4) keys by (auto simp: runtime_good_def runtime_inv_def handle_spent_def)
qed

lemma runtime_range_removed:
  "runtime_inv r \<Longrightarrow> runtime_good r (r\<lparr>rt_ranges := AList.delete h (rt_ranges r)\<rparr>)"
  by (rule runtime_ranges_dropped)
    (auto simp: delete_entry delete_length distinct_delete runtime_inv_def handles_ok_def)

lemma runtime_range_returned:
  assumes "runtime_inv r" and "h \<in> range_keys r" and "ar_source a \<in> source_keys r"
    and "range_capped (rt_config r) a"
  shows "runtime_good r (r\<lparr>rt_ranges := AList.update h a (AList.delete h (rt_ranges r))\<rparr>)"
proof -
  let ?al = "AList.delete h (rt_ranges r)"
  let ?r = "r\<lparr>rt_ranges := AList.update h a ?al\<rparr>"
  have al: "AList.update h a ?al = ?al @ [(h, a)]" by (rule update_fresh) (simp add: delete_keys)
  have keys: "source_keys ?r = source_keys r" "range_keys ?r = range_keys r"
    using assms(2) by (auto simp: source_keys_def range_keys_def al delete_keys)
  have "distinct (map fst (rt_ranges ?r))"
    using assms(1) by (auto simp: al distinct_delete runtime_inv_def handles_ok_def delete_keys)
  then have "handles_ok ?r" using assms(1) keys by (simp add: runtime_inv_def handles_ok_def)
  moreover have "owned ?r"
    using assms(1,3,4) keys by (auto simp: runtime_inv_def owned_def al delete_entry)
  moreover have "length (rt_ranges ?r) \<le> length (rt_ranges r)"
    using delete_length_less [of h "rt_ranges r"] assms(2) by (simp add: al range_keys_def)
  ultimately show ?thesis
    using assms(1) keys by (auto simp: runtime_good_def runtime_inv_def handle_spent_def)
qed

lemma runtime_source_removed:
  assumes "runtime_inv r"
  shows "runtime_good r (snd (close_source h r))"
proof -
  let ?r = "snd (close_source h r)"
  have r: "rt_sources ?r = AList.delete h (rt_sources r)" "rt_config ?r = rt_config r"
      "rt_ranges ?r = filter (\<lambda>(_, a). ar_source a \<noteq> h) (rt_ranges r)" "rt_next_handle ?r = rt_next_handle r"
    by (simp_all add: close_source_def)
  have keys: "source_keys ?r = source_keys r - {h}" "range_keys ?r \<subseteq> range_keys r"
    by (auto simp: source_keys_def range_keys_def r delete_keys)
  have "handles_ok ?r"
    using assms keys by (auto simp: runtime_inv_def handles_ok_def r distinct_delete filter_keys_distinct)
  moreover have "owned ?r" using assms keys by (auto simp: runtime_inv_def owned_def r)
  moreover have "length (rt_sources ?r) \<le> length (rt_sources r)" "length (rt_ranges ?r) \<le> length (rt_ranges r)"
    by (simp_all add: r delete_length)
  moreover have "scanner_capped (rt_config r) s" if "(h', s) \<in> set (rt_sources ?r)" for h' s
    using that assms by (auto simp: r runtime_inv_def delete_entry)
  ultimately show ?thesis
    using assms keys
    by (auto simp: runtime_good_def runtime_inv_def handle_spent_def r intro: le_trans [OF length_filter_le])
qed

lemma runtime_shutdown: "runtime_inv r \<Longrightarrow> runtime_good r (shutdown r)"
  by (auto simp: shutdown_def runtime_good_def runtime_inv_def handles_ok_def owned_def source_keys_def
      range_keys_def handle_spent_def)

section \<open>Calls\<close>

lemma allocate_handle_cases:
  "allocate_handle r = (if rt_next_handle r + 1 \<le> u32_max
     then (Inr (rt_next_handle r), r\<lparr>rt_next_handle := Suc (rt_next_handle r)\<rparr>)
     else (Inl (new_error ResourceLimit ''runtime handle space exhausted''), r))"
  by (simp add: allocate_handle_def prog_defs checked_add_u32_def)

lemma scanner_new_capped:
  assumes "scanner_new E (cap_options config opts) = Inr s" and "rc_max_columns config \<le> max_safe_integer"
  shows "scanner_capped config s"
proof -
  have opts: "sc_options s = cap_options config opts" using assms(1) by (auto simp: scanner_new_def)
  have "scan_inv s" using scanner_new_inv [OF assms(1)] assms(2) by (simp add: cap_options_def)
  then show ?thesis by (simp add: scanner_capped_def opts cap_options_def)
qed

lemma open_delimited_good:
  assumes "runtime_inv r"
  shows "runtime_good r (snd (open_delimited E opts r))"
proof (cases "rc_max_sources (rt_config r) \<le> length (rt_sources r) \<or> \<not> rt_next_handle r + 1 \<le> u32_max")
  case True
  then show ?thesis
    using runtime_good_refl [OF assms] by (auto simp: open_delimited_def prog_defs allocate_handle_cases)
next
  case False
  then show ?thesis
    using runtime_allocated [OF assms] runtime_source_added [OF assms] scanner_new_capped [of E "rt_config r" opts] assms
    by (auto simp: open_delimited_def prog_defs allocate_handle_cases runtime_inv_def split: sum.split)
qed

lemma scanner_capped_fed:
  assumes "scanner_capped config s" and "scanner_feed_chunk E offset bytes eof s = Some (r, t)"
  shows "scanner_capped config t"
  using assms feed_chunk_good [OF _ assms(2)]
  by (auto simp: scanner_capped_def scan_good_def scan_grows_def)

lemma runtime_source_capped:
  "runtime_inv r \<Longrightarrow> runtime_source r h = Inr s \<Longrightarrow> h \<in> source_keys r \<and> scanner_capped (rt_config r) s"
  using lookup_key [of "rt_sources r" h s]
  by (auto simp: runtime_source_def runtime_inv_def source_keys_def)

lemma scan_chunk_good:
  assumes "runtime_inv r" and "runtime_scan_chunk est E source offset bytes eof r = Some (x, r')"
  shows "runtime_good r r'"
proof (cases "runtime_source r source")
  case (Inl e)
  then show ?thesis
    using assms runtime_good_refl by (auto simp: runtime_scan_chunk_def lbind_def runtime_feed_source_def)
next
  case (Inr s)
  note s = runtime_source_capped [OF assms(1) Inr]
  obtain y t where feed: "scanner_feed_chunk E offset bytes eof s = Some (y, t)"
      and r': "r' = r\<lparr>rt_sources := AList.update source t (rt_sources r)\<rparr>"
    using assms(2) Inr
    by (auto simp: runtime_scan_chunk_def lbind_def lrun_def runtime_feed_source_def prog_defs Let_def
        split: option.splits sum.splits prod.splits if_splits)
  show ?thesis
    unfolding r' using s scanner_capped_fed [OF _ feed] by (intro runtime_source_replaced [OF assms(1)]) auto
qed

text \<open>A planned decoder is within the caps, and planning never panics.\<close>

definition decoder_capped :: "runtime_config \<Rightarrow> range_plan \<Rightarrow> 'r range_decoder \<Rightarrow> bool" where
  "decoder_capped config plan d \<longleftrightarrow> (\<exists>opts sch.
     (if row_count (plan_request plan) = 0 then decoding opts plan sch d \<and> rd_done d \<and> rd_returned_rows d = 0
      else live opts plan sch d) \<and>
     max_batch_bytes (limits opts) \<le> rc_max_batch_bytes config \<and>
     row_count (plan_request plan) * column_count (plan_request plan) \<le> rc_max_range_cells config)"

lemma plan_decoder_capped:
  assumes "runtime_inv r"
  shows "\<exists>planned. plan_decoder E r source request = Returns planned \<and>
    (\<forall>plan d. planned = Inr (plan, d) \<longrightarrow>
       source \<in> source_keys r \<and> plan_request plan = request \<and> decoder_capped (rt_config r) plan d)"
proof (cases "rbind (runtime_source r source) (\<lambda>s. rbind (scanner_plan_range s request) (\<lambda>plan. Inr (s, plan)))")
  case (Inl e)
  then show ?thesis by (simp add: plan_decoder_def)
next
  case (Inr p)
  then obtain s plan where source: "runtime_source r source = Inr s"
      and plan: "scanner_plan_range s request = Inr plan" and p: "p = (s, plan)"
    by auto
  note s = runtime_source_capped [OF assms source]
  have cells: "row_count request * column_count request \<le> max_cells_per_range (limits (sc_options s))"
    using plan by (auto simp: scanner_plan_range_def scanner_validate_range_def cell_count_def split: if_splits)
  have request: "plan_request plan = request" using scanner_plan_range_ok [OF plan] by simp
  from scanner_range_decoder_cases [OF plan, of E]
  show ?thesis
  proof (elim disjE exE conjE)
    fix e assume "scanner_range_decoder E s plan = Returns (Inl e)"
    then show ?thesis using Inr p by (simp add: plan_decoder_def)
  next
    fix sch d
    assume d: "scanner_range_decoder E s plan = Returns (Inr d)"
      and ready: "if row_count request = 0
        then decoding (sc_options s) plan sch d \<and> rd_done d \<and> rd_returned_rows d = 0
        else live (sc_options s) plan sch d"
    have "decoder_capped (rt_config r) plan d"
      unfolding decoder_capped_def request
      by (intro exI [of _ "sc_options s"] exI [of _ sch] conjI ready)
        (use s cells in \<open>auto simp: scanner_capped_def intro: order_trans\<close>)
    then show ?thesis using Inr p d s request by (simp add: plan_decoder_def)
  qed
qed

lemma decoder_capped_waiting:
  assumes "decoder_capped config plan d" and "fst (decoder_immediate_batch d) = Inr None"
  shows "range_capped config \<lparr>ar_source = h, ar_decoder = d, ar_diagnostic_count = n\<rparr>"
proof -
  obtain opts sch where ready: "if row_count (plan_request plan) = 0
        then decoding opts plan sch d \<and> rd_done d \<and> rd_returned_rows d = 0 else live opts plan sch d"
      and caps: "max_batch_bytes (limits opts) \<le> rc_max_batch_bytes config"
        "row_count (plan_request plan) * column_count (plan_request plan) \<le> rc_max_range_cells config"
    using assms(1) unfolding decoder_capped_def by blast
  have "row_count (plan_request plan) \<noteq> 0"
  proof
    assume zero: "row_count (plan_request plan) = 0"
    then have d: "rd_done d" "rd_returned_rows d = 0" "decoding opts plan sch d" using ready by simp_all
    have "rd_plan d = plan" using d(3) by (simp only: decoding_def)
    with d zero assms(2) show False
      by (auto simp: decoder_immediate_batch_def prog_defs split: prod.splits sum.splits)
  qed
  with ready caps show ?thesis unfolding range_capped_def by (simp, blast)
qed

lemma begin_range_good:
  assumes "runtime_inv r"
  shows "\<exists>x r'. begin_range E source request r = Returns (x, r') \<and> runtime_good r r'"
proof (cases "rc_max_active_ranges (rt_config r) \<le> length (rt_ranges r)")
  case True
  then show ?thesis using runtime_good_refl [OF assms] by (simp add: begin_range_def)
next
  case False
  obtain planned where planned: "plan_decoder E r source request = Returns planned"
      and capped: "\<And>plan d. planned = Inr (plan, d) \<Longrightarrow>
        source \<in> source_keys r \<and> decoder_capped (rt_config r) plan d"
    using plan_decoder_capped [OF assms, of E source request] by blast
  show ?thesis
  proof (cases planned)
    case (Inl e)
    then show ?thesis
      using False planned runtime_good_refl [OF assms] by (simp add: begin_range_def prog_defs)
  next
    case (Inr q)
    obtain plan d where q: "q = (plan, d)" by (cases q)
    define m where "m = pbind allocate_handle (\<lambda>handle.
          case decoder_immediate_batch d of
            (Inl e, _) \<Rightarrow> pfail e
          | (Inr (Some batch), _) \<Rightarrow>
              preturn \<lparr>br_range_handle = handle, br_plan = plan, br_batch = Some batch\<rparr>
          | (Inr None, decoder) \<Rightarrow>
              pbind (pmodify (\<lambda>r. r\<lparr>rt_ranges := AList.update handle
                 \<lparr>ar_source = source, ar_decoder = decoder, ar_diagnostic_count = 0\<rparr> (rt_ranges r)\<rparr>)) (\<lambda>_.
              preturn \<lparr>br_range_handle = handle, br_plan = plan, br_batch = None\<rparr>))"
    have run: "begin_range E source request r = Returns (m r)"
      using False planned Inr q by (simp add: begin_range_def pbind_lift_ok m_def)
    have "runtime_good r (snd (m r))"
    proof (cases "rt_next_handle r + 1 \<le> u32_max")
      case True
      show ?thesis
      proof (cases "fst (decoder_immediate_batch d) = Inr None")
        case waiting: True
        then have none: "decoder_immediate_batch d = (Inr None, d)"
          by (auto simp: decoder_immediate_batch_def prog_defs split: if_splits prod.splits sum.splits)
        have src: "source \<in> source_keys r" and cap: "decoder_capped (rt_config r) plan d"
          using capped [of plan d] Inr q by simp_all
        from runtime_range_added [OF assms True _ decoder_capped_waiting [OF cap waiting], of source 0]
          src False none True
        show ?thesis by (simp add: m_def prog_defs allocate_handle_cases)
      next
        case False
        then show ?thesis
          using runtime_allocated [OF assms True] True
          by (auto simp: m_def prog_defs allocate_handle_cases split: prod.split sum.split option.split)
      qed
    next
      case False
      then show ?thesis using runtime_good_refl [OF assms] by (simp add: m_def pbind_def allocate_handle_cases)
    qed
    with run show ?thesis by (cases "m r") simp
  qed
qed

lemma range_capped_parts:
  assumes "range_capped config a"
  obtains opts plan sch where "live opts plan sch (ar_decoder a)"
    "max_batch_bytes (limits opts) \<le> rc_max_batch_bytes config"
    "row_count (plan_request plan) * column_count (plan_request plan) \<le> rc_max_range_cells config"
  using assms unfolding range_capped_def by blast

lemma runtime_range_owned:
  assumes "runtime_inv r" and "map_of (rt_ranges r) h = Some a"
  shows "h \<in> range_keys r \<and> ar_source a \<in> source_keys r \<and> range_capped (rt_config r) a"
  using assms lookup_key [of "rt_ranges r" h a] by (auto simp: runtime_inv_def owned_def range_keys_def)

lemma feed_range_good:
  assumes "runtime_inv r" and "feed_range E h offset bytes eof r = Some (x, r')"
  shows "runtime_good r r'"
proof (cases "map_of (rt_ranges r) h")
  case None
  then show ?thesis using assms runtime_good_refl by (auto simp: feed_range_def)
next
  case (Some a)
  note a = runtime_range_owned [OF assms(1) Some]
  note removed = runtime_range_removed [OF assms(1), of h]
  show ?thesis
  proof (cases "map_of (rt_sources r) (ar_source a) = None")
    case True
    then show ?thesis using assms(2) Some removed by (auto simp: feed_range_def Let_def)
  next
    case False
    then obtain y d where feed: "decoder_feed_chunk E offset bytes eof (ar_decoder a) = Some (y, d)"
      using assms(2) Some by (auto simp: feed_range_def Let_def split: option.splits)
    show ?thesis
    proof (cases "y = Inr NeedMore")
      case True
      let ?a = "a\<lparr>ar_decoder := d, ar_diagnostic_count := length (rd_diagnostics d)\<rparr>"
      have r': "r' = r\<lparr>rt_ranges := AList.update h ?a (AList.delete h (rt_ranges r))\<rparr>"
        using assms(2) Some False feed True by (auto simp: feed_range_def Let_def)
      obtain opts plan sch where live: "live opts plan sch (ar_decoder a)"
          and caps: "max_batch_bytes (limits opts) \<le> rc_max_batch_bytes (rt_config r)"
            "row_count (plan_request plan) * column_count (plan_request plan) \<le> rc_max_range_cells (rt_config r)"
        using a range_capped_parts by metis
      have "rd_done (ar_decoder a) \<or> live opts plan sch (ar_decoder a)" using live by simp
      from wlp_ok [OF decoder_feed_chunk_sound [OF this] feed [unfolded True]]
      have "range_capped (rt_config r) ?a"
        using caps unfolding range_capped_def status_sound_def by auto
      then show ?thesis
        unfolding r' using a by (intro runtime_range_returned [OF assms(1)]) simp_all
    next
      case ended: False
      then have "r' = r\<lparr>rt_ranges := AList.delete h (rt_ranges r)\<rparr>"
        using assms(2) Some False feed
        by (auto simp: feed_range_def Let_def split: sum.splits range_decode_status.splits)
      then show ?thesis using removed by simp
    qed
  qed
qed

section \<open>The registry as a machine\<close>

datatype runtime_call =
    CallOpen delimited_options
  | CallScan source_handle nat "byte list" bool
  | CallBegin source_handle range_request
  | CallFeed range_handle nat "byte list" bool
  | CallCancel range_handle
  | CallCloseRange range_handle
  | CallCloseSource source_handle
  | CallShutdown

fun runtime_step :: "('r csv_scanner \<Rightarrow> nat) \<Rightarrow> 'r csv_env \<Rightarrow> runtime_call \<Rightarrow> 'r runtime \<Rightarrow> 'r runtime" where
  "runtime_step est E (CallOpen opts) r = snd (open_delimited E opts r)"
| "runtime_step est E (CallScan h offset bytes eof) r =
     (case runtime_scan_chunk est E h offset bytes eof r of None \<Rightarrow> r | Some (_, r') \<Rightarrow> r')"
| "runtime_step est E (CallBegin h request) r =
     (case begin_range E h request r of Panics \<Rightarrow> r | Returns (_, r') \<Rightarrow> r')"
| "runtime_step est E (CallFeed h offset bytes eof) r =
     (case feed_range E h offset bytes eof r of None \<Rightarrow> r | Some (_, r') \<Rightarrow> r')"
| "runtime_step est E (CallCancel h) r = snd (cancel_range h r)"
| "runtime_step est E (CallCloseRange h) r = snd (close_range h r)"
| "runtime_step est E (CallCloseSource h) r = snd (close_source h r)"
| "runtime_step est E CallShutdown r = shutdown r"

lemma runtime_step_good:
  assumes "runtime_inv r"
  shows "runtime_good r (runtime_step est E call r)"
proof (cases call)
  case (CallBegin h request)
  obtain x r' where "begin_range E h request r = Returns (x, r')" "runtime_good r r'"
    using begin_range_good [OF assms] by blast
  then show ?thesis by (simp add: CallBegin)
next
  case (CallScan h offset bytes eof)
  then show ?thesis
    using scan_chunk_good [OF assms] runtime_good_refl [OF assms] by (auto split: option.split)
next
  case (CallFeed h offset bytes eof)
  then show ?thesis
    using feed_range_good [OF assms] runtime_good_refl [OF assms] by (auto split: option.split)
qed (simp_all add: assms open_delimited_good cancel_range_def close_range_def runtime_range_removed
    runtime_source_removed runtime_shutdown)

interpretation registry: step_machine "runtime_step est E" runtime_inv for est E
  by unfold_locales (use runtime_step_good in \<open>auto simp: runtime_good_def\<close>)

lemma runtime_run_good: "runtime_inv r \<Longrightarrow> runtime_good r (fold (runtime_step est E) calls r)"
proof (induction calls arbitrary: r)
  case Nil
  then show ?case by (simp add: runtime_good_refl)
next
  case (Cons c calls)
  have "runtime_good r (runtime_step est E c r)" by (rule runtime_step_good [OF Cons.prems])
  moreover from this have "runtime_good (runtime_step est E c r) (fold (runtime_step est E) (c # calls) r)"
    using Cons.IH by (simp add: runtime_good_def)
  ultimately show ?case by (simp add: runtime_good_def)
qed

section \<open>Properties\<close>

text \<open>
  C8: The registry stays within its limits. After any sequence of calls, whichever of them
  fail and whatever the sources contain, there are no more open sources and active ranges
  than configured, no handle names two things, and every active range belongs to a source
  that is still open; starting a range never panics.
\<close>

theorem registry_within_limits:
  assumes "runtime_new config = Inr r0" and "rc_max_columns config \<le> max_safe_integer"
    and "r = fold (runtime_step est E) calls r0"
  shows "source_count r \<le> rc_max_sources config \<and> active_range_count r \<le> rc_max_active_ranges config \<and>
    distinct (map fst (rt_sources r) @ map fst (rt_ranges r)) \<and>
    (\<forall>h a. map_of (rt_ranges r) h = Some a \<longrightarrow> map_of (rt_sources r) (ar_source a) \<noteq> None) \<and>
    begin_range E source request r \<noteq> Panics"
proof -
  have new: "runtime_inv r0" by (rule runtime_new_inv [OF assms(1,2)])
  have config: "rt_config r0 = config" using assms(1) by (auto simp: runtime_new_def split: if_splits)
  have inv: "runtime_inv r" unfolding assms(3) by (rule registry.run_inv [OF new])
  have same: "rt_config r = config"
    using runtime_run_good [OF new, of est E calls] config by (simp add: assms(3) runtime_good_def)
  obtain x r' where "begin_range E source request r = Returns (x, r')"
    using begin_range_good [OF inv] by blast
  moreover have "map_of (rt_sources r) (ar_source a) \<noteq> None" if "map_of (rt_ranges r) h = Some a" for h a
    using runtime_range_owned [OF inv that] by (simp add: lookup_none source_keys_def)
  ultimately show ?thesis
    using inv same
    by (auto simp: runtime_inv_def handles_ok_def source_keys_def range_keys_def source_count_def
        active_range_count_def)
qed

text \<open>
  C9: Handles are never reused. A handle that was given out and is closed, by whatever call,
  names nothing after any later calls: using it is refused as closed and changes nothing,
  and a newly opened source gets another one.
\<close>

theorem closed_handle_stays_closed:
  assumes "runtime_new config = Inr r0" and "rc_max_columns config \<le> max_safe_integer"
    and "r = fold (runtime_step est E) calls r0"
    and "h < rt_next_handle r" and "map_of (rt_sources r) h = None" and "map_of (rt_ranges r) h = None"
    and "t = fold (runtime_step est E) later r"
  shows "feed_range E h offset bytes eof t = Some (Inl (new_error HandleClosed ''range handle is closed''), t) \<and>
    runtime_scan_chunk est E h offset bytes eof t =
      Some (Inl (new_error HandleClosed ''source handle is closed''), t) \<and>
    runtime_metadata t h = Inl (new_error HandleClosed ''source handle is closed'') \<and>
    fst (open_delimited E opts t) \<noteq> Inr h"
proof -
  have "runtime_inv r" unfolding assms(3) by (rule registry.run_inv [OF runtime_new_inv [OF assms(1,2)]])
  from runtime_run_good [OF this, of est E later]
  have "handle_spent h t"
    using assms(4-6) unfolding assms(7)
    by (auto simp: runtime_good_def handle_spent_def lookup_none source_keys_def range_keys_def)
  then have gone: "map_of (rt_sources t) h = None" "map_of (rt_ranges t) h = None" "h < rt_next_handle t"
    by (simp_all add: handle_spent_def lookup_none source_keys_def range_keys_def)
  then show ?thesis
    by (auto simp: feed_range_def runtime_scan_chunk_def runtime_feed_source_def runtime_source_def
        runtime_metadata_def lbind_def open_delimited_def prog_defs allocate_handle_cases split: sum.split)
qed

text \<open>
  C10: A range answers within the worker's limits and its handle is good for one answer. In
  any registry a run can reach, feeding a range keeps its handle open exactly when more
  bytes are needed; a finished batch holds no more encoded bytes and no more cells than
  the worker allows.
\<close>

theorem fed_range_capped:
  assumes "runtime_new config = Inr r0" and "rc_max_columns config \<le> max_safe_integer"
    and "r = fold (runtime_step est E) calls r0" and "feed_range E h offset bytes eof r = Some (x, r')"
  shows "(map_of (rt_ranges r') h \<noteq> None \<longleftrightarrow> (\<exists>n ws. x = Inr (FeedNeedMore n ws))) \<and>
    (\<forall>b ws. x = Inr (FeedComplete b ws) \<longrightarrow>
       sum_list (map column_bytes (tb_columns b)) \<le> rc_max_batch_bytes config \<and>
       row_count (tb_range b) * column_count (tb_range b) \<le> rc_max_range_cells config)"
proof (cases "map_of (rt_ranges r) h")
  case None
  then show ?thesis using assms(4) by (auto simp: feed_range_def)
next
  case (Some a)
  have new: "runtime_inv r0" by (rule runtime_new_inv [OF assms(1,2)])
  have inv: "runtime_inv r" unfolding assms(3) by (rule registry.run_inv [OF new])
  have config: "rt_config r = config"
    using runtime_run_good [OF new, of est E calls] assms(1)
    by (auto simp: assms(3) runtime_good_def runtime_new_def split: if_splits)
  note a = runtime_range_owned [OF inv Some]
  then have owner: "map_of (rt_sources r) (ar_source a) \<noteq> None" by (simp add: lookup_none source_keys_def)
  obtain y d where feed: "decoder_feed_chunk E offset bytes eof (ar_decoder a) = Some (y, d)"
    using assms(4) Some owner by (auto simp: feed_range_def Let_def split: option.splits)
  obtain opts plan sch where live: "live opts plan sch (ar_decoder a)"
      and caps: "max_batch_bytes (limits opts) \<le> rc_max_batch_bytes config"
        "row_count (plan_request plan) * column_count (plan_request plan) \<le> rc_max_range_cells config"
    using a config range_capped_parts by metis
  have deleted: "map_of (AList.delete h al) h = None" for al :: "(nat \<times> 'a active_range) list"
    by (simp add: lookup_none delete_keys)
  show ?thesis
  proof (cases "\<exists>b. y = Inr (CompleteBatch b)")
    case True
    then obtain b where y: "y = Inr (CompleteBatch b)" by blast
    have "rd_done (ar_decoder a) \<or> live opts plan sch (ar_decoder a)" using live by simp
    from wlp_ok [OF decoder_feed_chunk_sound [OF this] feed [unfolded y]]
    have answers: "batch_answers (max_batch_bytes (limits opts)) plan sch b" by (simp add: status_sound_def)
    then have "tb_range b = (plan_request plan)\<lparr>row_count := row_count (tb_range b)\<rparr>"
        and rows: "row_count (tb_range b) \<le> row_count (plan_request plan)"
      by (simp_all add: batch_answers_def)
    then have "column_count (tb_range b) = column_count (plan_request plan)"
      by (metis range_request.select_convs(4) range_request.surjective range_request.update_convs(2))
    with rows caps have "row_count (tb_range b) * column_count (tb_range b) \<le> rc_max_range_cells config"
      by (metis le_trans mult_le_mono1)
    moreover have "x = Inr (FeedComplete b (drop (ar_diagnostic_count a) (rd_diagnostics d)))"
        and "r' = r\<lparr>rt_ranges := AList.delete h (rt_ranges r)\<rparr>"
      using assms(4) Some owner feed y by (auto simp: feed_range_def Let_def)
    ultimately show ?thesis using answers caps deleted by (auto simp: batch_answers_def)
  next
    case False
    then show ?thesis
      using assms(4) Some owner feed deleted
      by (auto simp: feed_range_def Let_def update_conv' split: sum.splits range_decode_status.splits)
  qed
qed

text \<open>
  A worker configuration is accepted exactly when every limit is positive and the index
  and tile budgets together fit the memory budget (as 64-bit sizes); the default one is.
\<close>

theorem runtime_config_accepted:
  "(is_ok (runtime_new config :: 'r runtime result) \<longleftrightarrow>
      0 < index_budget_bytes config \<and> 0 < tile_cache_budget_bytes config \<and> 0 < chunk_bytes config \<and>
      0 < checkpoint_rows config \<and> 0 < rc_max_field_bytes config \<and> 0 < rc_max_columns config \<and>
      0 < rc_max_range_cells config \<and> 0 < rc_max_batch_bytes config \<and> 0 < rc_max_sources config \<and>
      0 < rc_max_active_ranges config \<and>
      index_budget_bytes config + tile_cache_budget_bytes config \<le> min u64_max (memory_budget_bytes config)) \<and>
   is_ok (runtime_new runtime_config_default :: 'r runtime result)"
  by (auto simp: runtime_new_def is_ok_rbind runtime_config_default_def u64_max_def)

section \<open>A concrete run\<close>

definition empty_runtime :: "unit runtime" where
  "empty_runtime = \<lparr>rt_config = runtime_config_default, rt_next_handle = 1, rt_sources = [], rt_ranges = []\<rparr>"

lemma empty_runtime_new: "runtime_new runtime_config_default = Inr empty_runtime"
  by (simp add: runtime_new_def runtime_config_default_def empty_runtime_def u64_max_def)

lemma default_columns_fit: "rc_max_columns runtime_config_default \<le> max_safe_integer"
  by (simp add: runtime_config_default_def max_safe_integer_def)

text \<open>Open a source, scan two one-field rows, ask for the second.\<close>

definition ranged_runtime :: "unit runtime" where
  "ranged_runtime = fold (runtime_step (\<lambda>_. 0) plain_env)
     [CallOpen plain_options, CallScan 1 0 [0x31, 0x0A, 0x32, 0x0A] True, CallBegin 1 second_row]
     empty_runtime"

lemmas runtime_eval =
  decode_eval runtime_step.simps empty_runtime_def runtime_config_default_def open_delimited_def
  allocate_handle_cases cap_options_def runtime_scan_chunk_def runtime_feed_source_def
  runtime_source_def retained_bytes_def saturating_add_def begin_range_def plan_decoder_def scanner_plan_range_def
  scanner_validate_range_def cell_count_def partition_point_def saturating_sub_def
  scanner_range_decoder_def decoder_immediate_batch_def feed_range_def

lemma ranged_runtime_open:
  "map fst (rt_sources ranged_runtime) = [1] \<and> map fst (rt_ranges ranged_runtime) = [2] \<and>
   rt_next_handle ranged_runtime = 3"
  unfolding ranged_runtime_def by (simp add: runtime_eval)

lemma ranged_runtime_answer:
  "\<exists>b ws t. feed_range plain_env 2 0 [0x31, 0x0A, 0x32, 0x0A] True ranged_runtime =
     Some (Inr (FeedComplete b ws), t)"
  unfolding ranged_runtime_def by (simp add: runtime_eval)

theorem registry_within_limits_witness:
  "source_count ranged_runtime \<le> 8 \<and> begin_range plain_env 1 second_row ranged_runtime \<noteq> Panics"
  using registry_within_limits [OF empty_runtime_new default_columns_fit ranged_runtime_def]
  by (simp add: runtime_config_default_def)

theorem closed_handle_stays_closed_witness:
  "runtime_metadata (fold (runtime_step (\<lambda>_. 0) plain_env) [CallOpen plain_options]
     (fold (runtime_step (\<lambda>_. 0) plain_env) [CallOpen plain_options, CallCloseSource 1] empty_runtime)) 1 =
   Inl (new_error HandleClosed ''source handle is closed'')"
proof -
  let ?r = "fold (runtime_step (\<lambda>_. 0) plain_env) [CallOpen plain_options, CallCloseSource 1] empty_runtime"
  have "1 < rt_next_handle ?r" and "map_of (rt_sources ?r) 1 = None" and "map_of (rt_ranges ?r) 1 = None"
    by (simp_all add: runtime_eval close_source_def)
  from closed_handle_stays_closed [OF empty_runtime_new default_columns_fit refl this refl]
  show ?thesis by blast
qed

theorem fed_range_capped_witness:
  "\<exists>b ws t. feed_range plain_env 2 0 [0x31, 0x0A, 0x32, 0x0A] True ranged_runtime =
     Some (Inr (FeedComplete b ws), t) \<and> sum_list (map column_bytes (tb_columns b)) \<le> 32 * 1024 * 1024"
proof -
  obtain b ws t where run: "feed_range plain_env 2 0 [0x31, 0x0A, 0x32, 0x0A] True ranged_runtime =
     Some (Inr (FeedComplete b ws), t)"
    using ranged_runtime_answer by blast
  from fed_range_capped [OF empty_runtime_new default_columns_fit ranged_runtime_def run] run
  show ?thesis by (auto simp: runtime_config_default_def)
qed

end
