(* ===== verification/Arrow_Types.thy ===== *)
theory Arrow_Types
  imports Table_Model Byte_Order
begin

text \<open>
  src/arrow.rs: containers, limits and options of the Arrow IPC adapter, the byte ranges it
  asks its host for and the answers it accepts, and how the errors of the Arrow and
  FlatBuffers libraries become errors of the program.
\<close>

section \<open>Containers and limits\<close>

definition arrow_magic :: "byte list" where
  "arrow_magic = [0x41, 0x52, 0x52, 0x4F, 0x57, 0x31]"

datatype arrow_container = AutoContainer | FileContainer | StreamContainer

datatype resolved_container = ResolvedFile | ResolvedStream

record arrow_limits =
  al_max_source_bytes :: nat
  al_max_decoded_bytes :: nat
  al_max_output_bytes :: nat
  al_max_metadata_bytes :: nat
  al_max_block_bytes :: nat
  al_stream_chunk_bytes :: nat
  al_max_fields :: nat
  al_max_nesting_depth :: nat
  al_max_range_cells :: nat
  al_max_display_cell_bytes :: nat

definition arrow_sublimits :: "arrow_limits \<Rightarrow> (string \<times> nat) list" where
  "arrow_sublimits l =
     [(''maxOutputBytes'', al_max_output_bytes l), (''maxMetadataBytes'', al_max_metadata_bytes l),
      (''maxBlockBytes'', al_max_block_bytes l), (''streamChunkBytes'', al_stream_chunk_bytes l),
      (''maxDisplayCellBytes'', al_max_display_cell_bytes l)]"

definition arrow_limits_validate :: "arrow_limits \<Rightarrow> unit result" where
  "arrow_limits_validate l =
     (if al_max_source_bytes l = 0 \<or> al_max_decoded_bytes l = 0 \<or> al_max_output_bytes l = 0 \<or>
         al_max_metadata_bytes l = 0 \<or> al_max_block_bytes l = 0 \<or> al_stream_chunk_bytes l = 0 \<or>
         al_max_fields l = 0 \<or> al_max_nesting_depth l = 0 \<or> al_max_range_cells l = 0 \<or>
         al_max_display_cell_bytes l = 0
      then Inl (new_error InvalidArgument ''Arrow IPC resource limits must be greater than zero'')
      else
        rforeach (\<lambda>(name, v).
          if v > al_max_decoded_bytes l
          then Inl (with_detail (with_detail (with_detail
                 (new_error InvalidArgument
                   ''Arrow IPC operation sublimit exceeds its decoded-memory ceiling'')
                 ''limit'' (DetailString name)) ''limitBytes'' (DetailNumber v))
                 ''maxDecodedBytes'' (DetailNumber (al_max_decoded_bytes l)))
          else Inr ()) (arrow_sublimits l))"

definition bounded_fraction :: "nat \<Rightarrow> nat \<Rightarrow> nat \<Rightarrow> nat" where
  "bounded_fraction budget divisor hard_max =
     min (min (max (if divisor = 0 then 0 else budget div divisor) 1) hard_max) budget"

definition arrow_limits_from_memory_budget :: "nat \<Rightarrow> arrow_limits result" where
  "arrow_limits_from_memory_budget budget =
     (if budget = 0
      then Inl (new_error InvalidArgument ''Arrow IPC memory budget must be greater than zero'')
      else
        let l = \<lparr>
          al_max_source_bytes = budget,
          al_max_decoded_bytes = budget,
          al_max_output_bytes = bounded_fraction budget 2 (128 * 1024 * 1024),
          al_max_metadata_bytes = bounded_fraction budget 32 (8 * 1024 * 1024),
          al_max_block_bytes = bounded_fraction budget 4 (64 * 1024 * 1024),
          al_stream_chunk_bytes = bounded_fraction budget 256 (1024 * 1024),
          al_max_fields = 16384,
          al_max_nesting_depth = 64,
          al_max_range_cells = 250000,
          al_max_display_cell_bytes = bounded_fraction budget 256 (1024 * 1024)\<rparr>
        in rbind (arrow_limits_validate l) (\<lambda>_. Inr l))"

definition arrow_limits_validate_for_memory_budget :: "arrow_limits \<Rightarrow> nat \<Rightarrow> unit result" where
  "arrow_limits_validate_for_memory_budget l budget =
     rbind (arrow_limits_validate l) (\<lambda>_.
     if budget = 0 \<or> al_max_decoded_bytes l > budget
     then Inl (with_detail (with_detail
            (new_error InvalidArgument
              ''Arrow IPC decoded byte limit exceeds the runtime memory budget'')
            ''maxDecodedBytes'' (DetailNumber (al_max_decoded_bytes l)))
            ''memoryBudgetBytes'' (DetailNumber budget))
     else Inr ())"

text \<open>Every limit is a \<open>usize\<close> or a \<open>u64\<close>.\<close>

definition limits_fit :: "arrow_limits \<Rightarrow> bool" where
  "limits_fit l \<longleftrightarrow>
     al_max_source_bytes l \<le> u64_max \<and> al_max_decoded_bytes l \<le> u64_max \<and>
     al_max_output_bytes l \<le> u64_max \<and> al_max_metadata_bytes l \<le> u64_max \<and>
     al_max_block_bytes l \<le> u64_max \<and> al_stream_chunk_bytes l \<le> u64_max \<and>
     al_max_fields l \<le> u64_max \<and> al_max_nesting_depth l \<le> u64_max \<and>
     al_max_range_cells l \<le> u64_max \<and> al_max_display_cell_bytes l \<le> u64_max"

record arrow_options =
  ao_container :: arrow_container
  ao_table_name :: string
  ao_limits :: arrow_limits

definition is_file_container :: "byte list \<Rightarrow> bool" where
  "is_file_container bytes \<longleftrightarrow>
     length bytes \<ge> 12 \<and> take 6 bytes = arrow_magic \<and> drop (length bytes - 6) bytes = arrow_magic"

definition resolve_container :: "arrow_container \<Rightarrow> byte list \<Rightarrow> resolved_container" where
  "resolve_container container bytes =
     (case container of
        AutoContainer \<Rightarrow> if is_file_container bytes then ResolvedFile else ResolvedStream
      | FileContainer \<Rightarrow> ResolvedFile
      | StreamContainer \<Rightarrow> ResolvedStream)"

lemma arrow_limits_validate_ok [simp]:
  "arrow_limits_validate l = Inr u \<longleftrightarrow>
     0 < al_max_source_bytes l \<and> 0 < al_max_decoded_bytes l \<and> 0 < al_max_output_bytes l \<and>
     0 < al_max_metadata_bytes l \<and> 0 < al_max_block_bytes l \<and> 0 < al_stream_chunk_bytes l \<and>
     0 < al_max_fields l \<and> 0 < al_max_nesting_depth l \<and> 0 < al_max_range_cells l \<and>
     0 < al_max_display_cell_bytes l \<and>
     (\<forall>p \<in> set (arrow_sublimits l). snd p \<le> al_max_decoded_bytes l)"
  by (auto simp: arrow_limits_validate_def rforeach_ok case_prod_unfold not_less split: if_splits)

lemma bounded_fraction_bounds:
  "0 < budget \<Longrightarrow> 0 < hard_max \<Longrightarrow> 0 < bounded_fraction budget d hard_max"
  "bounded_fraction budget d hard_max \<le> budget"
  by (auto simp: bounded_fraction_def)

lemma budget_limits_valid:
  "arrow_limits_from_memory_budget budget = Inr l \<Longrightarrow>
     arrow_limits_validate_for_memory_budget l budget = Inr ()"
  by (auto simp: arrow_limits_from_memory_budget_def arrow_limits_validate_for_memory_budget_def
      Let_def split: if_splits)

lemma budget_limits_exist: "0 < budget \<Longrightarrow> is_ok (arrow_limits_from_memory_budget budget)"
  by (auto simp: arrow_limits_from_memory_budget_def is_ok_iff Let_def arrow_sublimits_def
      bounded_fraction_bounds)

section \<open>Errors\<close>

datatype invalid_flatbuffer =
  TooManyTables | ApparentSizeTooLarge | DepthLimitReached | OtherFlatbuffer string

text \<open>The text \<open>{error:?}\<close> of an error; of the variants with fields it is the library's.\<close>

fun flatbuffer_debug :: "invalid_flatbuffer \<Rightarrow> string" where
  "flatbuffer_debug TooManyTables = ''TooManyTables''"
| "flatbuffer_debug ApparentSizeTooLarge = ''ApparentSizeTooLarge''"
| "flatbuffer_debug DepthLimitReached = ''DepthLimitReached''"
| "flatbuffer_debug (OtherFlatbuffer shown) = shown"

definition flatbuffer_error :: "string \<Rightarrow> invalid_flatbuffer \<Rightarrow> tabulark_error" where
  "flatbuffer_error stage e =
     (let code = (if e \<in> {TooManyTables, ApparentSizeTooLarge, DepthLimitReached}
                  then ResourceLimit else ParseFailed)
      in with_detail (new_error code (''failed to '' @ stage)) ''reason'' (DetailString (flatbuffer_debug e)))"

definition text_contains :: "string \<Rightarrow> string \<Rightarrow> bool" where
  "text_contains haystack needle \<longleftrightarrow> split_once needle haystack \<noteq> None"

definition arrow_error :: "string \<Rightarrow> string \<Rightarrow> tabulark_error" where
  "arrow_error stage reason =
     (case zstd_decompression_limit_error reason of
        Some e \<Rightarrow> e
      | None \<Rightarrow>
          let lowercase = map ascii_lower reason;
              code = (if text_contains lowercase ''endianness'' \<or> text_contains lowercase ''tensor'' \<or>
                         text_contains lowercase ''sparse'' \<or>
                         text_contains lowercase ''unsupported message header'' \<or>
                         text_contains lowercase ''message type unsupported''
                      then UnsupportedFeature else ParseFailed)
          in with_detail (new_error code (''failed to '' @ stage)) ''reason'' (DetailString reason))"

definition ingress_range_too_large :: tabulark_error where
  "ingress_range_too_large =
     new_error ResourceLimit ''Arrow ingress range exceeds the supported integer range''"

definition arrow_invalid_range :: tabulark_error where
  "arrow_invalid_range = new_error InvalidRange ''Arrow IPC range starts outside the table extent''"

definition arrow_closed_handle :: "string \<Rightarrow> tabulark_error" where
  "arrow_closed_handle kind = new_error HandleClosed (''Arrow '' @ kind @ '' handle is closed'')"

section \<open>Byte ranges\<close>

record read_bytes_action =
  rb_offset :: nat
  rb_length :: nat

definition read_bytes_new :: "nat \<Rightarrow> nat \<Rightarrow> nat \<Rightarrow> read_bytes_action result" where
  "read_bytes_new offset len source_length =
     rbind (ok_or (checked_add offset len) (new_error ResourceLimit ''Arrow ingress range overflows'')) (\<lambda>range_end.
     if range_end > source_length
     then Inl (new_error ParseFailed ''Arrow IPC metadata references bytes outside the source'')
     else
       rbind (ok_or (u64_try_from offset) ingress_range_too_large) (\<lambda>offset.
       rbind (ok_or (u64_try_from len) ingress_range_too_large) (\<lambda>len.
       Inr \<lparr>rb_offset = offset, rb_length = len\<rparr>)))"

definition read_bytes_end :: "read_bytes_action \<Rightarrow> nat result" where
  "read_bytes_end action =
     ok_or (checked_add (rb_offset action) (rb_length action))
       (new_error ResourceLimit ''Arrow ingress range overflows'')"

definition validate_action_response ::
    "read_bytes_action \<Rightarrow> nat \<Rightarrow> byte list \<Rightarrow> bool \<Rightarrow> nat \<Rightarrow> unit result" where
  "validate_action_response action offset bytes eof source_length =
     rbind (ok_or (u64_try_from (length bytes)) ingress_range_too_large) (\<lambda>len.
     rbind (read_bytes_end action) (\<lambda>action_end.
     rbind (ok_or (u64_try_from source_length) ingress_range_too_large) (\<lambda>source_end.
     let expected_eof = (action_end = source_end) in
     if offset \<noteq> rb_offset action \<or> len \<noteq> rb_length action \<or> eof \<noteq> expected_eof
     then Inl (with_detail (with_detail (with_detail
            (new_error InvalidArgument ''Arrow ingress bytes do not match the requested read action'')
            ''expectedOffset'' (DetailNumber (rb_offset action)))
            ''expectedLength'' (DetailNumber (rb_length action)))
            ''expectedEof'' (DetailBool expected_eof))
     else Inr ())))"

lemma read_bytes_new_ok [simp]:
  "read_bytes_new offset len source_length = Inr action \<longleftrightarrow>
     offset + len \<le> u64_max \<and> offset + len \<le> source_length \<and> action = \<lparr>rb_offset = offset, rb_length = len\<rparr>"
  by (auto simp: read_bytes_new_def)

lemma action_response_ok:
  "validate_action_response action offset bytes eof source_length = Inr u \<longleftrightarrow>
     rb_offset action + rb_length action \<le> u64_max \<and> source_length \<le> u64_max \<and>
     offset = rb_offset action \<and> length bytes = rb_length action \<and>
     (eof \<longleftrightarrow> rb_offset action + rb_length action = source_length)"
  by (auto simp: validate_action_response_def read_bytes_end_def Let_def split: if_splits)

section \<open>Range plans\<close>

record arrow_range_plan =
  rp_row_start :: nat
  rp_returned_rows :: nat
  rp_column_start :: nat
  rp_returned_columns :: nat
  rp_returned_range :: range_request
  rp_complete :: bool

definition arrow_plan_range :: "range_request \<Rightarrow> nat \<Rightarrow> nat \<Rightarrow> arrow_limits \<Rightarrow> arrow_range_plan result" where
  "arrow_plan_range request total_rows total_columns l =
     rbind (validate_public request) (\<lambda>_.
     rbind (cell_count request) (\<lambda>cells.
     if cells > al_max_range_cells l
     then Inl (with_detail (with_detail
            (new_error ResourceLimit ''Arrow IPC range exceeds the configured cell limit'')
            ''rangeCells'' (DetailNumber cells)) ''maxRangeCells'' (DetailNumber (al_max_range_cells l)))
     else if row_start request > total_rows \<or> column_start request > total_columns
     then Inl arrow_invalid_range
     else
       let returned_rows = min (row_count request) (saturating_sub total_rows (row_start request));
           returned_columns = min (column_count request) (saturating_sub total_columns (column_start request))
       in
       rbind (ok_or (u64_try_from returned_rows) arrow_invalid_range) (\<lambda>rows.
       rbind (ok_or (u64_try_from returned_columns) arrow_invalid_range) (\<lambda>columns.
       rbind (range_request_new (row_start request) rows (column_start request) columns) (\<lambda>returned_range.
       Inr \<lparr>rp_row_start = row_start request, rp_returned_rows = returned_rows,
            rp_column_start = column_start request, rp_returned_columns = returned_columns,
            rp_returned_range = returned_range,
            rp_complete = (returned_rows = row_count request \<and> returned_columns = column_count request)\<rparr>)))))"

lemma safe_min: "a + n \<le> max_safe_integer \<Longrightarrow> min n x \<le> u64_max"
  using max_safe_integer_less by (simp add: min.coboundedI1)

text \<open>A request is answered with the part of it that the table has, and only within the limit.\<close>

lemma arrow_plan_range_ok:
  "arrow_plan_range request total_rows total_columns l = Inr plan \<longleftrightarrow>
     range_valid request \<and> row_count request * column_count request \<le> u64_max \<and>
     row_count request * column_count request \<le> al_max_range_cells l \<and>
     row_start request \<le> total_rows \<and> column_start request \<le> total_columns \<and>
     plan = (let rows = min (row_count request) (total_rows - row_start request);
                 columns = min (column_count request) (total_columns - column_start request)
             in \<lparr>rp_row_start = row_start request, rp_returned_rows = rows,
                 rp_column_start = column_start request, rp_returned_columns = columns,
                 rp_returned_range = \<lparr>row_start = row_start request, row_count = rows,
                   column_start = column_start request, column_count = columns\<rparr>,
                 rp_complete = (rows = row_count request \<and> columns = column_count request)\<rparr>)"
  by (auto simp: arrow_plan_range_def cell_count_def Let_def saturating_sub_def range_request_new_ok
      range_valid_def split: if_splits intro!: safe_min)

lemma arrow_plan_range_within:
  assumes "arrow_plan_range request total_rows total_columns l = Inr plan"
  shows "rp_row_start plan + rp_returned_rows plan \<le> total_rows"
    and "rp_column_start plan + rp_returned_columns plan \<le> total_columns"
    and "rp_returned_rows plan * rp_returned_columns plan \<le> al_max_range_cells l"
  using assms unfolding arrow_plan_range_ok Let_def
  by (auto intro: order_trans [OF mult_le_mono [OF min.cobounded1 min.cobounded1]])

end
