(* ===== verification/Arrow_Wire.thy ===== *)
theory Arrow_Wire
  imports Arrow_Types Looping
begin

text \<open>
  \<open>StreamWireValidator\<close> of src/arrow.rs: the framing of an Arrow IPC stream, checked byte by
  byte before the same bytes reach the third-party decoder. It reads message headers, holds
  the metadata of one message at a time within its limit, follows the bodies without keeping
  them, and adds up the sizes that compressed buffers declare.

  The FlatBuffers library is the parameter \<open>parse\<close>: what \<open>root_as_message_with_opts\<close> answers for
  a message's metadata, as the code reads it. No theorem relies on its answers.
\<close>

section \<open>Messages\<close>

datatype message_header =
    SchemaHeader | DictionaryBatchHeader | RecordBatchHeader | TensorHeader | SparseTensorHeader
  | OtherHeader nat

text \<open>Lengths and offsets are the \<open>i64\<close> of the format.\<close>

record ipc_batch =
  ib_compressed :: bool
  ib_buffers :: "(int \<times> int) list option"

record ipc_dictionary =
  id_id :: int
  id_is_delta :: bool
  id_data :: "ipc_batch option"

record ipc_message =
  im_header_type :: message_header
  im_schema_native_endian :: "bool option"
  im_record_batch :: "ipc_batch option"
  im_dictionary_batch :: "ipc_dictionary option"
  im_body_length :: int

record verifier_options =
  vo_max_depth :: nat
  vo_max_tables :: nat
  vo_max_apparent_size :: nat

type_synonym message_parser = "verifier_options \<Rightarrow> byte list \<Rightarrow> invalid_flatbuffer + ipc_message"

definition flatbuffer_verifier_options :: "arrow_limits \<Rightarrow> verifier_options" where
  "flatbuffer_verifier_options l =
     \<lparr>vo_max_depth = al_max_nesting_depth l,
      vo_max_tables = (case Option.bind (checked_mul (al_max_fields l) 4) (\<lambda>n. checked_add n 1024) of
        None \<Rightarrow> u64_max | Some n \<Rightarrow> n),
      vo_max_apparent_size = saturating_mul (al_max_metadata_bytes l) 16\<rparr>"

section \<open>Compressed buffers\<close>

record compressed_buffer_spec =
  cs_offset :: nat
  cs_encoded_length :: nat

record pending_buffer =
  pb_spec :: compressed_buffer_spec
  pb_prefix :: "byte list"
  pb_prefix_read :: nat
  pb_accounted :: bool

definition pending_buffer_from :: "compressed_buffer_spec \<Rightarrow> pending_buffer" where
  "pending_buffer_from spec =
     \<lparr>pb_spec = spec, pb_prefix = replicate 8 0, pb_prefix_read = 0, pb_accounted = False\<rparr>"

definition usize_from_i64 :: "int \<Rightarrow> nat option" where
  "usize_from_i64 n = (if n < 0 then None else u64_try_from (nat n))"

fun compressed_specs :: "nat \<Rightarrow> (int \<times> int) list \<Rightarrow> compressed_buffer_spec list result" where
  "compressed_specs body_length [] = Inr []"
| "compressed_specs body_length ((offset, len) # buffers) =
     rbind (ok_or (usize_from_i64 offset)
       (new_error ParseFailed ''Arrow IPC compressed buffer has a negative offset'')) (\<lambda>offset.
     rbind (ok_or (usize_from_i64 len)
       (new_error ParseFailed ''Arrow IPC compressed buffer has a negative length'')) (\<lambda>encoded_length.
     if encoded_length = 0 then compressed_specs body_length buffers
     else if encoded_length < 8
     then Inl (new_error ParseFailed
       ''Arrow IPC compressed buffer is shorter than its decoded-length prefix'')
     else
       rbind (ok_or (checked_add offset encoded_length)
         (new_error ResourceLimit ''Arrow IPC compressed buffer range overflows'')) (\<lambda>stop.
       if stop > body_length
       then Inl (new_error ParseFailed ''Arrow IPC compressed buffer points outside its message body'')
       else
         rbind (compressed_specs body_length buffers) (\<lambda>specs.
         Inr (\<lparr>cs_offset = offset, cs_encoded_length = encoded_length\<rparr> # specs)))))"

text \<open>The pairs of \<open>windows(2)\<close>.\<close>

fun refuse_overlaps :: "compressed_buffer_spec list \<Rightarrow> unit result" where
  "refuse_overlaps (a # b # specs) =
     rbind (ok_or (checked_add (cs_offset a) (cs_encoded_length a))
       (new_error ResourceLimit ''Arrow IPC compressed buffer range overflows'')) (\<lambda>previous_end.
     if previous_end > cs_offset b
     then Inl (new_error ParseFailed ''Arrow IPC compressed buffers overlap'')
     else refuse_overlaps (b # specs))"
| "refuse_overlaps specs = Inr ()"

text \<open>
  The source sorts with an unstable sort. Two buffers with the same offset overlap in any
  order, so the order of equal keys does not show.
\<close>

definition compressed_buffer_specs :: "ipc_message \<Rightarrow> nat \<Rightarrow> compressed_buffer_spec list result" where
  "compressed_buffer_specs message body_length =
     (case (case im_header_type message of
              RecordBatchHeader \<Rightarrow> im_record_batch message
            | DictionaryBatchHeader \<Rightarrow> Option.bind (im_dictionary_batch message) id_data
            | _ \<Rightarrow> None) of
        None \<Rightarrow> Inr []
      | Some batch \<Rightarrow>
          if \<not> ib_compressed batch then Inr []
          else
            rbind (ok_or (ib_buffers batch)
              (new_error ParseFailed ''Arrow IPC compressed record batch has no buffer index'')) (\<lambda>buffers.
            rbind (compressed_specs body_length buffers) (\<lambda>specs.
            let specs = sort_key cs_offset specs in
            rbind (refuse_overlaps specs) (\<lambda>_. Inr specs))))"

definition i64_from_le_bytes :: "byte list \<Rightarrow> int" where
  "i64_from_le_bytes bytes =
     (let n = int (le_value bytes) in if n < 2 ^ 63 then n else n - 2 ^ 64)"

definition declared_decompressed_buffer_bytes :: "byte list \<Rightarrow> nat \<Rightarrow> nat result" where
  "declared_decompressed_buffer_bytes prefix encoded_length =
     (let declared = i64_from_le_bytes prefix in
      if declared = -1 then Inr (encoded_length - 8)
      else if declared \<ge> 0
      then ok_or (usize_from_i64 declared) (new_error ResourceLimit
        ''Arrow IPC declared decompressed buffer size exceeds the supported range'')
      else Inl (new_error ParseFailed ''Arrow IPC compressed buffer has an invalid decoded-length prefix''))"

definition reserve_declared_decompression :: "nat \<Rightarrow> nat \<Rightarrow> arrow_limits \<Rightarrow> nat result" where
  "reserve_declared_decompression reserved bytes l =
     rbind (ok_or (checked_add reserved bytes)
       (new_error ResourceLimit ''Arrow IPC declared decompressed byte total overflows'')) (\<lambda>next_total.
     if next_total > al_max_decoded_bytes l
     then Inl (with_detail (with_detail
            (new_error ResourceLimit
              ''Arrow IPC declared decompressed buffers exceed the configured byte limit'')
            ''declaredDecompressedBytes'' (DetailNumber next_total))
            ''maxDecodedBytes'' (DetailNumber (al_max_decoded_bytes l)))
     else Inr next_total)"

section \<open>Message metadata\<close>

datatype message_memory = NoMemory | RecordMemory | DictionaryMemory int bool

record message_validation =
  mv_header_type :: message_header
  mv_body_length :: nat
  mv_compressed_buffers :: "compressed_buffer_spec list"
  mv_memory_kind :: message_memory
  mv_compressed :: bool

definition refuse_header :: "ipc_message \<Rightarrow> bool \<Rightarrow> unit result" where
  "refuse_header message schema_seen =
     (if im_header_type message = TensorHeader \<or> im_header_type message = SparseTensorHeader
      then Inl (new_error UnsupportedFeature
        ''Arrow tensor and sparse-tensor IPC messages are not supported'')
      else if \<not> schema_seen \<and> im_header_type message \<noteq> SchemaHeader
      then Inl (new_error ParseFailed ''Arrow IPC Stream does not begin with a schema message'')
      else if im_header_type message = SchemaHeader
      then
        if schema_seen
        then Inl (new_error ParseFailed ''Arrow IPC Stream contains more than one schema message'')
        else
          rbind (ok_or (im_schema_native_endian message)
            (new_error ParseFailed ''Arrow IPC Stream schema message has no schema header'')) (\<lambda>native.
          if \<not> native
          then Inl (new_error UnsupportedFeature ''Arrow IPC source uses non-native endianness'')
          else Inr ())
      else Inr ())"

definition message_memory_of :: "ipc_message \<Rightarrow> (message_memory \<times> bool) result" where
  "message_memory_of message =
     (case im_header_type message of
        RecordBatchHeader \<Rightarrow>
          rbind (ok_or (im_record_batch message)
            (new_error ParseFailed ''Arrow IPC record message has no RecordBatch header'')) (\<lambda>batch.
          Inr (RecordMemory, ib_compressed batch))
      | DictionaryBatchHeader \<Rightarrow>
          rbind (ok_or (im_dictionary_batch message)
            (new_error ParseFailed ''Arrow IPC dictionary message has no DictionaryBatch header'')) (\<lambda>dictionary.
          rbind (ok_or (id_data dictionary)
            (new_error ParseFailed ''Arrow IPC dictionary message has no RecordBatch body header'')) (\<lambda>batch.
          Inr (DictionaryMemory (id_id dictionary) (id_is_delta dictionary), ib_compressed batch)))
      | _ \<Rightarrow> Inr (NoMemory, False))"

definition validate_stream_message ::
    "message_parser \<Rightarrow> byte list \<Rightarrow> arrow_limits \<Rightarrow> bool \<Rightarrow> message_validation result" where
  "validate_stream_message parse metadata l schema_seen =
     rbind (map_sum (flatbuffer_error ''parse Arrow IPC Stream message metadata'') id
       (parse (flatbuffer_verifier_options l) metadata)) (\<lambda>message.
     rbind (refuse_header message schema_seen) (\<lambda>_.
     rbind (ok_or (usize_from_i64 (im_body_length message))
       (new_error ParseFailed ''Arrow IPC Stream message has a negative body length'')) (\<lambda>body_length.
     rbind (ok_or (checked_add (length metadata) body_length)
       (new_error ResourceLimit ''Arrow IPC Stream block length overflows'')) (\<lambda>block_length.
     if block_length > al_max_block_bytes l
     then Inl (with_detail (with_detail
            (new_error ResourceLimit ''Arrow IPC Stream block exceeds the configured encoded byte limit'')
            ''blockBytes'' (DetailNumber block_length))
            ''maxBlockBytes'' (DetailNumber (al_max_block_bytes l)))
     else
       rbind (message_memory_of message) (\<lambda>(memory_kind, compressed).
       rbind (compressed_buffer_specs message body_length) (\<lambda>specs.
       Inr \<lparr>mv_header_type = im_header_type message, mv_body_length = body_length,
            mv_compressed_buffers = specs, mv_memory_kind = memory_kind, mv_compressed = compressed\<rparr>))))))"

section \<open>The validator\<close>

record wire_body =
  wb_metadata_length :: nat
  wb_remaining :: nat
  wb_consumed :: nat
  wb_compressed_buffers :: "pending_buffer list"
  wb_memory_kind :: message_memory
  wb_decoded_body_bytes :: nat

text \<open>A header holds its eight bytes, how many are read, and how many there are to read.\<close>

datatype stream_wire_state =
    WireHeader "byte list" nat nat
  | WireMetadata "byte list" nat
  | WireBody wire_body
  | WireFinished

record stream_wire =
  sw_state :: stream_wire_state
  sw_schema_seen :: bool
  sw_declared_decompressed_bytes :: nat
  sw_retained_record_body_bytes :: nat
  sw_retained_dictionary_body_bytes :: nat
  sw_dictionary_bytes :: "int \<rightharpoonup> nat"
  sw_feed_peak_buffered_bytes :: nat
  sw_feed_transient_record_bytes :: nat
  sw_feed_delta_concat_bytes :: nat

type_synonym 'a wire = "(stream_wire, tabulark_error, 'a) prog"

definition wire_header_state :: stream_wire_state where
  "wire_header_state = WireHeader (replicate 8 0) 0 4"

definition stream_wire_new :: stream_wire where
  "stream_wire_new = \<lparr>sw_state = wire_header_state, sw_schema_seen = False,
     sw_declared_decompressed_bytes = 0, sw_retained_record_body_bytes = 0,
     sw_retained_dictionary_body_bytes = 0, sw_dictionary_bytes = Map.empty,
     sw_feed_peak_buffered_bytes = 0, sw_feed_transient_record_bytes = 0,
     sw_feed_delta_concat_bytes = 0\<rparr>"

definition buffered_overflow :: tabulark_error where
  "buffered_overflow = new_error ResourceLimit ''Arrow IPC Stream buffered ingress estimate overflows''"

definition decoder_buffered_bytes :: "stream_wire \<Rightarrow> nat result" where
  "decoder_buffered_bytes w =
     (case sw_state w of
        WireHeader _ n _ \<Rightarrow> Inr n
      | WireMetadata bytes _ \<Rightarrow> Inr (length bytes)
      | WireBody b \<Rightarrow> ok_or (checked_add (wb_metadata_length b) (wb_consumed b)) buffered_overflow
      | WireFinished \<Rightarrow> Inr 0)"

definition goto :: "stream_wire_state \<Rightarrow> unit wire" where
  "goto st = pmodify (\<lambda>w. w\<lparr>sw_state := st\<rparr>)"

definition raise_peak :: "nat \<Rightarrow> unit wire" where
  "raise_peak n = pmodify (\<lambda>w. w\<lparr>sw_feed_peak_buffered_bytes := max (sw_feed_peak_buffered_bytes w) n\<rparr>)"

definition record_completed_message :: "message_memory \<Rightarrow> nat \<Rightarrow> unit wire" where
  "record_completed_message kind decoded =
     (case kind of
        NoMemory \<Rightarrow> preturn ()
      | RecordMemory \<Rightarrow>
          pbind pget (\<lambda>w.
          pbind (plift (ok_or (checked_add (sw_retained_record_body_bytes w) decoded)
            (new_error ResourceLimit ''Arrow IPC Stream retained record-body estimate overflows''))) (\<lambda>retained.
          pmodify (\<lambda>w. w\<lparr>sw_retained_record_body_bytes := retained,
            sw_feed_transient_record_bytes := max (sw_feed_transient_record_bytes w) decoded\<rparr>)))
      | DictionaryMemory key is_delta \<Rightarrow>
          pbind pget (\<lambda>w.
          let previous = (case sw_dictionary_bytes w key of None \<Rightarrow> 0 | Some n \<Rightarrow> n) in
          pbind (plift (if is_delta
            then ok_or (checked_add previous decoded)
              (new_error ResourceLimit ''Arrow IPC Stream dictionary delta estimate overflows'')
            else Inr decoded)) (\<lambda>current.
          pbind (plift (ok_or (checked_add (sw_retained_dictionary_body_bytes w) decoded)
            (new_error ResourceLimit ''Arrow IPC Stream retained dictionary estimate overflows''))) (\<lambda>retained.
          pmodify (\<lambda>w. w\<lparr>sw_retained_dictionary_body_bytes := retained,
            sw_dictionary_bytes := (sw_dictionary_bytes w)(key \<mapsto> current),
            sw_feed_delta_concat_bytes := (if is_delta then max (sw_feed_delta_concat_bytes w) current
              else sw_feed_delta_concat_bytes w)\<rparr>)))))"

section \<open>Headers and metadata\<close>

text \<open>\<open>dst[a..a + n].copy_from_slice(src)\<close>.\<close>

definition overwrite :: "nat \<Rightarrow> 'a list \<Rightarrow> 'a list \<Rightarrow> 'a list" where
  "overwrite a src dst = take a dst @ src @ drop (a + length src) dst"

text \<open>Each turn of the loop answers the bytes it leaves.\<close>

definition wire_header_turn ::
    "arrow_limits \<Rightarrow> byte list \<Rightarrow> nat \<Rightarrow> nat \<Rightarrow> byte list \<Rightarrow> byte list wire" where
  "wire_header_turn l header already target input =
     (let taken = min (target - already) (length input);
          header = overwrite already (take taken input) header;
          already = already + taken;
          rest = drop taken input
      in
      pbind (goto (WireHeader header already target)) (\<lambda>_.
      pbind (raise_peak already) (\<lambda>_.
      if already < target then preturn rest
      else if target = 4 \<and> take 4 header = take 4 arrow_magic
      then pfail (new_error ParseFailed ''Arrow IPC File bytes were supplied to the Stream reader'')
      else if target = 4 \<and> take 4 header = replicate 4 0xFF
      then pbind (goto (WireHeader header already 8)) (\<lambda>_. preturn rest)
      else
        let length_offset = (if target = 8 then 4 else 0);
            metadata_length = le_value (take 4 (drop length_offset header))
        in
        if metadata_length = 0 then pbind (goto WireFinished) (\<lambda>_. preturn rest)
        else if metadata_length > al_max_metadata_bytes l
        then pfail (with_detail (with_detail
               (new_error ResourceLimit
                 ''Arrow IPC Stream message metadata exceeds the configured limit'')
               ''metadataBytes'' (DetailNumber metadata_length))
               ''maxMetadataBytes'' (DetailNumber (al_max_metadata_bytes l)))
        else pbind (goto (WireMetadata [] metadata_length)) (\<lambda>_. preturn rest))))"

definition wire_message :: "message_validation \<Rightarrow> byte list \<Rightarrow> unit wire" where
  "wire_message v metadata =
     pbind (pmodify (\<lambda>w. w\<lparr>sw_schema_seen := sw_schema_seen w \<or> mv_header_type v = SchemaHeader\<rparr>)) (\<lambda>_.
     if mv_body_length v = 0
     then pbind (goto wire_header_state) (\<lambda>_. record_completed_message (mv_memory_kind v) 0)
     else
       pbind (plift (ok_or (checked_add (mv_body_length v) (length metadata)) buffered_overflow)) (\<lambda>buffered.
       pbind (raise_peak buffered) (\<lambda>_.
       goto (WireBody \<lparr>wb_metadata_length = length metadata, wb_remaining = mv_body_length v,
         wb_consumed = 0, wb_compressed_buffers = map pending_buffer_from (mv_compressed_buffers v),
         wb_memory_kind = mv_memory_kind v,
         wb_decoded_body_bytes = (if mv_compressed v then 0 else mv_body_length v)\<rparr>))))"

definition wire_metadata_turn ::
    "message_parser \<Rightarrow> arrow_limits \<Rightarrow> byte list \<Rightarrow> nat \<Rightarrow> byte list \<Rightarrow> byte list wire" where
  "wire_metadata_turn parse l bytes target input =
     (let taken = min (target - length bytes) (length input);
          metadata = bytes @ take taken input;
          rest = drop taken input
      in
      pbind (goto (WireMetadata metadata target)) (\<lambda>_.
      pbind (raise_peak (length metadata)) (\<lambda>_.
      if length metadata < target then preturn rest
      else
        pbind (goto (WireMetadata [] target)) (\<lambda>_.
        pbind pget (\<lambda>w.
        pbind (plift (validate_stream_message parse metadata l (sw_schema_seen w))) (\<lambda>v.
        pbind (wire_message v metadata) (\<lambda>_. preturn rest)))))))"

section \<open>Bodies\<close>

text \<open>The part of a fragment of the body that belongs to the prefix of a buffer.\<close>

definition copy_prefix :: "nat \<Rightarrow> byte list \<Rightarrow> pending_buffer \<Rightarrow> pending_buffer" where
  "copy_prefix start fragment p =
     (let prefix_start = cs_offset (pb_spec p);
          overlap_start = max start prefix_start;
          overlap_end = min (start + length fragment) (prefix_start + 8)
      in
      if overlap_start < overlap_end
      then
        let source_start = overlap_start - start;
            destination_start = overlap_start - prefix_start;
            len = overlap_end - overlap_start
        in p\<lparr>pb_prefix := overwrite destination_start (take len (drop source_start fragment)) (pb_prefix p),
             pb_prefix_read := max (pb_prefix_read p) (destination_start + len)\<rparr>
      else p)"

text \<open>
  One buffer: the outcome, the buffer, the total of the stream and the bytes of the body
  once decoded, as a failure leaves them.
\<close>

definition account_prefix ::
    "arrow_limits \<Rightarrow> nat \<Rightarrow> byte list \<Rightarrow> pending_buffer \<Rightarrow> nat \<Rightarrow> nat \<Rightarrow> unit result \<times> pending_buffer \<times> nat \<times> nat" where
  "account_prefix l start fragment p declared_sum decoded =
     (if pb_accounted p then (Inr (), p, declared_sum, decoded)
      else case checked_add (cs_offset (pb_spec p)) 8 of
        None \<Rightarrow> (Inl (new_error ResourceLimit ''Arrow IPC compressed buffer prefix offset overflows''),
                 p, declared_sum, decoded)
      | Some _ \<Rightarrow>
          let p = copy_prefix start fragment p in
          if pb_prefix_read p \<noteq> 8 then (Inr (), p, declared_sum, decoded)
          else case declared_decompressed_buffer_bytes (pb_prefix p) (cs_encoded_length (pb_spec p)) of
            Inl e \<Rightarrow> (Inl e, p, declared_sum, decoded)
          | Inr declared \<Rightarrow>
              (case reserve_declared_decompression declared_sum declared l of
                 Inl e \<Rightarrow> (Inl e, p, declared_sum, decoded)
               | Inr reserved \<Rightarrow>
                   (case checked_add decoded declared of
                      None \<Rightarrow> (Inl (new_error ResourceLimit
                        ''Arrow IPC Stream decoded body estimate overflows''), p, reserved, decoded)
                    | Some decoded \<Rightarrow> (Inr (), p\<lparr>pb_accounted := True\<rparr>, reserved, decoded))))"

fun account_prefixes ::
    "arrow_limits \<Rightarrow> nat \<Rightarrow> byte list \<Rightarrow> pending_buffer list \<Rightarrow> nat \<Rightarrow> nat \<Rightarrow>
      unit result \<times> pending_buffer list \<times> nat \<times> nat" where
  "account_prefixes l start fragment [] declared_sum decoded = (Inr (), [], declared_sum, decoded)"
| "account_prefixes l start fragment (p # ps) declared_sum decoded =
     (case account_prefix l start fragment p declared_sum decoded of
        (Inl e, p, declared_sum, decoded) \<Rightarrow> (Inl e, p # ps, declared_sum, decoded)
      | (Inr _, p, declared_sum, decoded) \<Rightarrow>
          (case account_prefixes l start fragment ps declared_sum decoded of
             (r, ps, declared_sum, decoded) \<Rightarrow> (r, p # ps, declared_sum, decoded)))"

definition wire_account :: "arrow_limits \<Rightarrow> nat \<Rightarrow> byte list \<Rightarrow> wire_body \<Rightarrow> wire_body wire" where
  "wire_account l start fragment b = (\<lambda>w.
     case account_prefixes l start fragment (wb_compressed_buffers b)
            (sw_declared_decompressed_bytes w) (wb_decoded_body_bytes b) of
       (r, pendings, declared_sum, decoded) \<Rightarrow>
         let b = b\<lparr>wb_compressed_buffers := pendings, wb_decoded_body_bytes := decoded\<rparr>
         in (map_sum id (\<lambda>_. b) r, w\<lparr>sw_state := WireBody b, sw_declared_decompressed_bytes := declared_sum\<rparr>))"

text \<open>The turn of a body after its buffers: the counters, and the end of the message.\<close>

definition wire_body_after :: "wire_body \<Rightarrow> nat \<Rightarrow> nat \<Rightarrow> byte list \<Rightarrow> byte list wire" where
  "wire_body_after b taken fragment_end rest =
     (let b = b\<lparr>wb_remaining := wb_remaining b - taken, wb_consumed := fragment_end\<rparr> in
      pbind (goto (WireBody b)) (\<lambda>_.
      pbind (plift (ok_or (checked_add (wb_metadata_length b) (wb_consumed b)) buffered_overflow)) (\<lambda>buffered.
      pbind (raise_peak buffered) (\<lambda>_.
      if wb_remaining b \<noteq> 0 then preturn rest
      else if \<exists>p \<in> set (wb_compressed_buffers b). \<not> pb_accounted p
      then pfail (new_error ParseFailed ''Arrow IPC compressed body ended before a buffer prefix'')
      else
        pbind (goto wire_header_state) (\<lambda>_.
        pbind (record_completed_message (wb_memory_kind b) (wb_decoded_body_bytes b)) (\<lambda>_.
        preturn rest))))))"

definition wire_body_turn :: "arrow_limits \<Rightarrow> wire_body \<Rightarrow> byte list \<Rightarrow> byte list wire" where
  "wire_body_turn l b input =
     (let taken = min (wb_remaining b) (length input) in
      pbind (plift (ok_or (checked_add (wb_consumed b) taken)
        (new_error ResourceLimit ''Arrow IPC Stream body offset overflows''))) (\<lambda>fragment_end.
      pbind (wire_account l (wb_consumed b) (take taken input) b) (\<lambda>b.
      wire_body_after b taken fragment_end (drop taken input))))"

section \<open>Feeding\<close>

definition wire_turn :: "message_parser \<Rightarrow> arrow_limits \<Rightarrow> byte list \<Rightarrow> byte list option wire" where
  "wire_turn parse l input =
     pbind pget (\<lambda>w.
     pbind (case sw_state w of
          WireHeader header already target \<Rightarrow> wire_header_turn l header already target input
        | WireMetadata bytes target \<Rightarrow> wire_metadata_turn parse l bytes target input
        | WireBody b \<Rightarrow> wire_body_turn l b input
        | WireFinished \<Rightarrow> pfail (new_error ParseFailed
            ''Arrow IPC Stream contains bytes after its end marker'')) (\<lambda>rest.
     preturn (if rest = [] then None else Some rest)))"

definition wire_begin :: "unit wire" where
  "wire_begin =
     pbind pget (\<lambda>w.
     pbind (plift (decoder_buffered_bytes w)) (\<lambda>buffered.
     pmodify (\<lambda>w. w\<lparr>sw_feed_peak_buffered_bytes := buffered, sw_feed_transient_record_bytes := 0,
       sw_feed_delta_concat_bytes := 0\<rparr>)))"

definition wire_feed ::
    "message_parser \<Rightarrow> arrow_limits \<Rightarrow> byte list \<Rightarrow> (stream_wire, tabulark_error, unit) lprog" where
  "wire_feed parse l bytes =
     lbind (lrun wire_begin) (\<lambda>_.
     if bytes = [] then lrun (preturn ()) else ploop (\<lambda>rest. lrun (wire_turn parse l rest)) bytes)"

definition wire_finish :: "stream_wire \<Rightarrow> unit result" where
  "wire_finish w =
     (if \<not> sw_schema_seen w
      then Inl (new_error ParseFailed ''Arrow IPC Stream ended before its schema message was complete'')
      else case sw_state w of
        WireFinished \<Rightarrow> Inr ()
      | WireHeader _ n target \<Rightarrow>
          if n = 0 \<and> target = 4 then Inr ()
          else Inl (new_error ParseFailed ''Arrow IPC Stream ended in the middle of a message'')
      | _ \<Rightarrow> Inl (new_error ParseFailed ''Arrow IPC Stream ended in the middle of a message''))"

definition ensure_decode_memory_budget :: "stream_wire \<Rightarrow> nat \<Rightarrow> nat \<Rightarrow> arrow_limits \<Rightarrow> unit result" where
  "ensure_decode_memory_budget w decoded_bytes ingress_bytes l =
     (let retained_record = max decoded_bytes (sw_retained_record_body_bytes w) in
      rbind (ok_or (checked_add retained_record (sw_retained_dictionary_body_bytes w))
        (new_error ResourceLimit ''Arrow IPC Stream retained-memory estimate overflows'')) (\<lambda>retained.
      let buffered = sw_feed_peak_buffered_bytes w in
      rbind (ok_or (checked_add (sw_feed_transient_record_bytes w) (sw_feed_delta_concat_bytes w))
        (new_error ResourceLimit ''Arrow IPC Stream transient-memory estimate overflows'')) (\<lambda>transient.
      rbind (ok_or (Option.bind (checked_add retained ingress_bytes) (\<lambda>n.
          Option.bind (checked_add n buffered) (\<lambda>n. checked_add n transient)))
        (new_error ResourceLimit ''Arrow IPC Stream peak-memory estimate overflows'')) (\<lambda>peak.
      if peak > al_max_decoded_bytes l
      then Inl (with_detail (with_detail (with_detail (with_detail (with_detail (with_detail (with_detail
             (new_error ResourceLimit
               ''Arrow IPC Stream decode would exceed the configured peak-memory limit'')
             ''retainedRecordBytes'' (DetailNumber retained_record))
             ''retainedDictionaryBytes'' (DetailNumber (sw_retained_dictionary_body_bytes w)))
             ''ingressBytes'' (DetailNumber ingress_bytes))
             ''bufferedIngressBytes'' (DetailNumber buffered))
             ''transientBytes'' (DetailNumber transient))
             ''peakBytes'' (DetailNumber peak))
             ''maxDecodedBytes'' (DetailNumber (al_max_decoded_bytes l)))
      else Inr ()))))"

text \<open>A caller hands over one chunk after the other and stops at the first failure.\<close>

fun wire_feed_chunks ::
    "message_parser \<Rightarrow> arrow_limits \<Rightarrow> byte list list \<Rightarrow> (stream_wire, tabulark_error, unit) lprog" where
  "wire_feed_chunks parse l [] = lrun (preturn ())"
| "wire_feed_chunks parse l (chunk # chunks) =
     lbind (wire_feed parse l chunk) (\<lambda>_. wire_feed_chunks parse l chunks)"

end
