(* ===== verification/Arrow_Framing.thy ===== *)
theory Arrow_Framing
  imports Arrow_Wire
begin

text \<open>
  What the framing validator of src/arrow.rs guarantees: its limits hold after every chunk,
  every call returns, and the verdict on a stream does not depend on how it was cut into
  chunks. All three come from one fact, that a turn of the loop may give up its first byte
  to a turn of its own.
\<close>

section \<open>Invariant\<close>

abbreviation buffer_start :: "pending_buffer \<Rightarrow> nat" where
  "buffer_start p \<equiv> cs_offset (pb_spec p)"

definition pending_ok :: "nat \<Rightarrow> nat \<Rightarrow> pending_buffer \<Rightarrow> bool" where
  "pending_ok consumed stop p \<longleftrightarrow> buffer_start p + 8 \<le> stop \<and> length (pb_prefix p) = 8 \<and>
     pb_prefix_read p = min 8 (consumed - buffer_start p) \<and>
     (pb_accounted p \<longleftrightarrow> buffer_start p + 8 \<le> consumed)"

definition pendings_ok :: "nat \<Rightarrow> nat \<Rightarrow> pending_buffer list \<Rightarrow> bool" where
  "pendings_ok consumed stop ps \<longleftrightarrow>
     sorted_wrt (\<lambda>p q. buffer_start p + 8 \<le> buffer_start q) ps \<and> (\<forall>p \<in> set ps. pending_ok consumed stop p)"

definition body_ok :: "arrow_limits \<Rightarrow> wire_body \<Rightarrow> bool" where
  "body_ok l b \<longleftrightarrow> 0 < wb_remaining b \<and>
     wb_metadata_length b + wb_consumed b + wb_remaining b \<le> al_max_block_bytes l \<and>
     wb_metadata_length b + wb_consumed b + wb_remaining b \<le> u64_max \<and>
     pendings_ok (wb_consumed b) (wb_consumed b + wb_remaining b) (wb_compressed_buffers b)"

definition wire_ok :: "arrow_limits \<Rightarrow> stream_wire \<Rightarrow> bool" where
  "wire_ok l w \<longleftrightarrow> sw_declared_decompressed_bytes w \<le> al_max_decoded_bytes l \<and>
     (case sw_state w of
        WireHeader header already target \<Rightarrow> length header = 8 \<and> already < target \<and> target \<in> {4, 8}
      | WireMetadata bytes target \<Rightarrow> length bytes < target \<and> target \<le> al_max_metadata_bytes l
      | WireBody b \<Rightarrow> body_ok l b
      | WireFinished \<Rightarrow> True)"

section \<open>Prefixes of compressed buffers\<close>

lemma copy_prefix_spec [simp]:
  "pb_spec (copy_prefix c fragment p) = pb_spec p" "pb_accounted (copy_prefix c fragment p) = pb_accounted p"
  by (simp_all add: copy_prefix_def Let_def)

lemma copy_prefix_away: "c + length fragment \<le> buffer_start p \<or> buffer_start p + 8 \<le> c \<Longrightarrow> copy_prefix c fragment p = p"
  by (auto simp: copy_prefix_def Let_def)

lemma copy_prefix_length:
  "length (pb_prefix p) = 8 \<Longrightarrow> length (pb_prefix (copy_prefix c fragment p)) = 8"
  by (auto simp: copy_prefix_def Let_def overwrite_def)

lemma copy_prefix_byte:
  assumes "buffer_start p \<le> c" and "c < buffer_start p + 8"
  shows "copy_prefix c (b # r) p = p\<lparr>
     pb_prefix := overwrite (c - buffer_start p) (take (min (c + Suc (length r)) (buffer_start p + 8) - c) (b # r)) (pb_prefix p),
     pb_prefix_read := max (pb_prefix_read p) (c - buffer_start p + (min (c + Suc (length r)) (buffer_start p + 8) - c))\<rparr>"
  using assms by (simp add: copy_prefix_def Let_def max_absorb1)

lemma overwrite_twice:
  "a + Suc (length src) \<le> length dst \<Longrightarrow> overwrite (Suc a) src (overwrite a [b] dst) = overwrite a (b # src) dst"
  by (simp add: overwrite_def min_absorb2 add.commute)

text \<open>The first byte of a fragment may be copied on its own.\<close>

lemma copy_prefix_split:
  assumes "length (pb_prefix p) = 8"
  shows "copy_prefix (Suc c) r (copy_prefix c [b] p) = copy_prefix c (b # r) p"
proof -
  let ?s = "buffer_start p"
  consider "c < ?s" | "?s \<le> c" "Suc c < ?s + 8" | "Suc c = ?s + 8" | "?s + 8 \<le> c" by linarith
  then show ?thesis
  proof cases
    case 1
    then have "max c ?s = ?s" "max (Suc c) ?s = ?s" "?s - c = Suc (?s - Suc c)" by auto
    with 1 show ?thesis by (simp add: copy_prefix_away) (simp add: copy_prefix_def Let_def)
  next
    case 2
    let ?q = "p\<lparr>pb_prefix := overwrite (c - ?s) [b] (pb_prefix p),
        pb_prefix_read := max (pb_prefix_read p) (Suc (c - ?s))\<rparr>"
    have one: "copy_prefix c [b] p = ?q"
      using 2 by (subst copy_prefix_byte) (auto simp: min_absorb1)
    show ?thesis
    proof (cases r)
      case Nil
      then show ?thesis using one 2 by (simp add: copy_prefix_def Let_def max_absorb1)
    next
      case (Cons b' r')
      let ?n = "min (c + Suc (length r)) (?s + 8) - Suc c"
      have n: "min (c + Suc (length r)) (?s + 8) - c = Suc ?n" using 2 by (auto simp: Cons min_def)
      have two: "copy_prefix (Suc c) r ?q = ?q\<lparr>
          pb_prefix := overwrite (Suc (c - ?s)) (take ?n r) (pb_prefix ?q),
          pb_prefix_read := max (pb_prefix_read ?q) (Suc (c - ?s) + ?n)\<rparr>"
        using 2 unfolding Cons by (subst copy_prefix_byte) (auto simp: Suc_diff_le)
      have "overwrite (Suc (c - ?s)) (take ?n r) (overwrite (c - ?s) [b] (pb_prefix p)) =
          overwrite (c - ?s) (b # take ?n r) (pb_prefix p)"
        using 2 assms by (intro overwrite_twice) (simp add: min_def, arith)
      moreover have "copy_prefix c (b # r) p = p\<lparr>
          pb_prefix := overwrite (c - ?s) (take (Suc ?n) (b # r)) (pb_prefix p),
          pb_prefix_read := max (pb_prefix_read p) (c - ?s + Suc ?n)\<rparr>"
        using 2 copy_prefix_byte [of p c b r, unfolded n] by auto
      ultimately show ?thesis unfolding one two by (simp add: max.assoc max_absorb2)
    qed
  next
    case 3
    then have "copy_prefix (Suc c) r (copy_prefix c [b] p) = copy_prefix c [b] p"
      by (intro copy_prefix_away) simp
    also have "\<dots> = copy_prefix c (b # r) p"
    proof -
      have "min (c + Suc (length r)) (?s + 8) - c = 1" using 3 by simp
      then show ?thesis using 3 by (simp add: copy_prefix_byte)
    qed
    finally show ?thesis .
  next
    case 4
    then show ?thesis by (simp add: copy_prefix_away)
  qed
qed

lemma account_prefix_away:
  assumes "pending_ok c stop p" and "stop \<le> u64_max" and "c + length fragment \<le> buffer_start p"
  shows "account_prefix l c fragment p n d = (Inr (), p, n, d)"
  using assms by (simp add: account_prefix_def pending_ok_def copy_prefix_away)

lemma account_prefix_done: "pb_accounted p \<Longrightarrow> account_prefix l c fragment p n d = (Inr (), p, n, d)"
  by (simp add: account_prefix_def)

lemma account_prefixes_away:
  assumes "\<forall>p \<in> set ps. pending_ok c stop p \<and> c + length fragment \<le> buffer_start p" and "stop \<le> u64_max"
  shows "account_prefixes l c fragment ps n d = (Inr (), ps, n, d)"
  using assms by (induction ps) (auto simp: account_prefix_away)

lemma copy_prefix_read_byte:
  assumes "pending_ok c stop p"
  shows "pb_prefix_read (copy_prefix c [b] p) = min 8 (Suc c - buffer_start p)"
proof -
  consider "c < buffer_start p" | "buffer_start p \<le> c" "c < buffer_start p + 8" | "buffer_start p + 8 \<le> c"
    by linarith
  then show ?thesis
  proof cases
    case 2
    then show ?thesis using assms by (simp add: copy_prefix_byte pending_ok_def)
  qed (use assms in \<open>auto simp: copy_prefix_away pending_ok_def\<close>)
qed

text \<open>One byte: what becomes of a buffer, and how a longer fragment goes on.\<close>

lemma account_prefix_byte:
  assumes "pending_ok c stop p" and "c < stop" and "account_prefix l c [b] p n d = (Inr u, p', n', d')"
  shows "pending_ok (Suc c) stop p'" and "pb_spec p' = pb_spec p"
    and "n \<le> al_max_decoded_bytes l \<Longrightarrow> n' \<le> al_max_decoded_bytes l"
  using assms copy_prefix_read_byte [OF assms(1), of b]
  by (auto simp: account_prefix_def pending_ok_def Let_def copy_prefix_length reserve_declared_decompression_def
      split: if_splits option.splits sum.splits)

lemma account_prefix_split:
  assumes "pending_ok c stop p" and "\<not> pb_accounted p" and "stop \<le> u64_max"
  shows "account_prefix l c (b # r) p n d =
    (case account_prefix l c [b] p n d of
       (Inl e, p', n', d') \<Rightarrow> (Inl e, p', n', d')
     | (Inr _, p', n', d') \<Rightarrow> account_prefix l (Suc c) r p' n' d')"
proof -
  have p: "buffer_start p + 8 \<le> u64_max" "length (pb_prefix p) = 8" "c < buffer_start p + 8"
    using assms by (simp_all add: pending_ok_def)
  have fits: "checked_add (buffer_start p) 8 = Some (buffer_start p + 8)" using p(1) by simp
  note split = copy_prefix_split [OF p(2), of c r b]
  show ?thesis
  proof (cases "Suc c = buffer_start p + 8")
    case True
    have "copy_prefix (Suc c) r (copy_prefix c [b] p) = copy_prefix c [b] p"
      by (rule copy_prefix_away) (simp add: True)
    with split have copied: "copy_prefix c (b # r) p = copy_prefix c [b] p" by (rule trans [OF sym])
    have same: "account_prefix l c (b # r) p n d = account_prefix l c [b] p n d"
      unfolding account_prefix_def copied by (rule refl)
    have read: "pb_prefix_read (copy_prefix c [b] p) = 8"
      using copy_prefix_read_byte [OF assms(1), of b] True by simp
    obtain o1 p' n' d' where byte: "account_prefix l c [b] p n d = (o1, p', n', d')"
      by (cases "account_prefix l c [b] p n d")
    have "o1 = Inr u \<Longrightarrow> pb_accounted p'" for u
      using byte unfolding account_prefix_def fits option.case Let_def read
      by (auto simp: assms(2) split: option.splits sum.splits)
    then show ?thesis unfolding same byte by (auto simp: account_prefix_done split: sum.split)
  next
    case False
    then have "pb_prefix_read (copy_prefix c [b] p) \<noteq> 8"
      using copy_prefix_read_byte [OF assms(1), of b] p(3) by simp
    then have byte: "account_prefix l c [b] p n d = (Inr (), copy_prefix c [b] p, n, d)"
      using assms(2) p(1) by (simp add: account_prefix_def Let_def)
    have "account_prefix l (Suc c) r (copy_prefix c [b] p) n d = account_prefix l c (b # r) p n d"
      unfolding account_prefix_def copy_prefix_spec split fits option.case Let_def if_not_P [OF assms(2)]
      by (rule refl)
    with byte show ?thesis by simp
  qed
qed

lemma account_prefixes_split:
  assumes "pendings_ok c stop ps" and "stop \<le> u64_max"
  shows "account_prefixes l c (b # r) ps n d =
    (case account_prefixes l c [b] ps n d of
       (Inl e, ps', n', d') \<Rightarrow> (Inl e, ps', n', d')
     | (Inr _, ps', n', d') \<Rightarrow> account_prefixes l (Suc c) r ps' n' d')"
  using assms(1)
proof (induction ps arbitrary: n d)
  case Nil
  show ?case by simp
next
  case (Cons p ps)
  then have p: "pending_ok c stop p" and ps: "pendings_ok c stop ps"
    and later: "\<forall>q \<in> set ps. buffer_start p + 8 \<le> buffer_start q \<and> pending_ok c stop q"
    by (simp_all add: pendings_ok_def)
  show ?case
  proof (cases "pb_accounted p")
    case True
    obtain o1 ps1 n1 d1 where byte: "account_prefixes l c [b] ps n d = (o1, ps1, n1, d1)"
      by (cases "account_prefixes l c [b] ps n d")
    show ?thesis
      unfolding account_prefixes.simps account_prefix_done [OF True] prod.case sum.case Cons.IH [OF ps] byte
      by (cases o1) (simp_all add: account_prefix_done True)
  next
    case False
    then have "c < buffer_start p + 8" using p by (simp add: pending_ok_def)
    then have close: "\<forall>q \<in> set ps. pending_ok c stop q \<and> Suc c \<le> buffer_start q"
      using later by (meson Suc_leI less_le_trans)
    then have byte: "account_prefixes l c [b] ps n d = (Inr (), ps, n, d)" for n d
      by (intro account_prefixes_away [OF _ assms(2)]) simp
    have rest: "account_prefixes l c (b # r) ps n d = account_prefixes l (Suc c) r ps n d" for n d
      unfolding Cons.IH [OF ps] byte by simp
    obtain o1 p1 n1 d1 where one: "account_prefix l c [b] p n d = (o1, p1, n1, d1)"
      by (cases "account_prefix l c [b] p n d")
    show ?thesis
      unfolding account_prefixes.simps account_prefix_split [OF p False assms(2), where b = b and r = r] one prod.case rest
      by (cases o1) (simp_all add: byte)
  qed
qed

lemma account_prefixes_byte:
  assumes "pendings_ok c stop ps" and "c < stop" and "account_prefixes l c [b] ps n d = (Inr u, ps', n', d')"
  shows "pendings_ok (Suc c) stop ps' \<and> map pb_spec ps' = map pb_spec ps \<and>
    (n \<le> al_max_decoded_bytes l \<longrightarrow> n' \<le> al_max_decoded_bytes l)"
  using assms
proof (induction ps arbitrary: n d ps')
  case Nil
  then show ?case by (simp add: pendings_ok_def)
next
  case (Cons p ps)
  obtain p1 n1 d1 ps1 where p1: "account_prefix l c [b] p n d = (Inr (), p1, n1, d1)"
    and ps1: "account_prefixes l c [b] ps n1 d1 = (Inr u, ps1, n', d')" and ps': "ps' = p1 # ps1"
    using Cons.prems(3) by (auto split: prod.splits sum.splits)
  have p: "pending_ok c stop p" and ps: "pendings_ok c stop ps"
    and later: "\<forall>q \<in> set ps. buffer_start p + 8 \<le> buffer_start q"
    using Cons.prems(1) by (simp_all add: pendings_ok_def)
  note one = account_prefix_byte [OF p Cons.prems(2) p1]
  note more = Cons.IH [OF ps Cons.prems(2) ps1]
  have "\<forall>q \<in> set ps1. buffer_start p1 + 8 \<le> buffer_start q"
  proof
    fix q assume "q \<in> set ps1"
    then have "pb_spec q \<in> set (map pb_spec ps)" using more by (metis image_eqI set_map)
    then show "buffer_start p1 + 8 \<le> buffer_start q" using later one(2) by auto
  qed
  then show ?case using one more by (simp add: ps' pendings_ok_def)
qed

section \<open>One byte at a time\<close>

lemmas turn_defs = prog_defs goto_def raise_peak_def

lemma buffer_specs_ok:
  assumes "compressed_specs body_length buffers = Inr specs"
  shows "\<forall>x \<in> set specs. 8 \<le> cs_encoded_length x \<and> cs_offset x + cs_encoded_length x \<le> body_length"
  using assms
  by (induction body_length buffers arbitrary: specs rule: compressed_specs.induct)
    (auto split: if_splits)

lemma refuse_overlaps_ok:
  assumes "refuse_overlaps specs = Inr u" and "\<forall>x \<in> set specs. 8 \<le> cs_encoded_length x"
    and "sorted_wrt (\<lambda>x y. cs_offset x \<le> cs_offset y) specs"
  shows "sorted_wrt (\<lambda>x y. cs_offset x + 8 \<le> cs_offset y) specs"
  using assms
proof (induction specs rule: refuse_overlaps.induct)
  case (1 a b specs)
  then have "sorted_wrt (\<lambda>x y. cs_offset x + 8 \<le> cs_offset y) (b # specs)" and "cs_offset a + 8 \<le> cs_offset b"
    by (auto split: if_splits)
  with 1(4) show ?case by (auto intro: order_trans)
qed auto

lemma message_specs_ok:
  assumes "compressed_buffer_specs message body_length = Inr specs"
  shows "(\<forall>x \<in> set specs. cs_offset x + 8 \<le> body_length) \<and>
    sorted_wrt (\<lambda>x y. cs_offset x + 8 \<le> cs_offset y) specs"
proof (cases "specs = []")
  case False
  then obtain buffers found where found: "compressed_specs body_length buffers = Inr found"
    and specs: "specs = sort_key cs_offset found" "refuse_overlaps specs = Inr ()"
    using assms by (auto simp: compressed_buffer_specs_def Let_def split: option.splits if_splits)
  note long = buffer_specs_ok [OF found]
  have "sorted_wrt (\<lambda>x y. cs_offset x \<le> cs_offset y) specs"
    using sorted_sort_key [of cs_offset found] specs(1) by (simp add: sorted_map)
  from refuse_overlaps_ok [OF specs(2) _ this] long show ?thesis by (fastforce simp: specs(1))
qed simp

lemma stream_message_ok:
  assumes "validate_stream_message parse metadata l seen = Inr v"
  shows "length metadata + mv_body_length v \<le> al_max_block_bytes l" and "length metadata + mv_body_length v \<le> u64_max"
    and "\<forall>x \<in> set (mv_compressed_buffers v). cs_offset x + 8 \<le> mv_body_length v"
    and "sorted_wrt (\<lambda>x y. cs_offset x + 8 \<le> cs_offset y) (mv_compressed_buffers v)"
  using assms message_specs_ok
  by (auto simp: validate_stream_message_def split: if_splits prod.splits)

lemma pendings_from_ok:
  assumes "\<forall>x \<in> set specs. cs_offset x + 8 \<le> stop" and "sorted_wrt (\<lambda>x y. cs_offset x + 8 \<le> cs_offset y) specs"
  shows "pendings_ok 0 stop (map pending_buffer_from specs)"
  using assms by (auto simp: pendings_ok_def pending_ok_def pending_buffer_from_def sorted_wrt_map)

lemma record_completed_frame:
  "record_completed_message kind decoded w = (r, w') \<Longrightarrow> sw_state w' = sw_state w \<and>
     sw_declared_decompressed_bytes w' = sw_declared_decompressed_bytes w"
  by (auto simp: record_completed_message_def prog_defs Let_def split: message_memory.splits if_splits sum.splits)

lemma wire_ok_frame [simp]:
  "wire_ok l (w\<lparr>sw_schema_seen := b\<rparr>) = wire_ok l w"
  "wire_ok l (w\<lparr>sw_feed_peak_buffered_bytes := n\<rparr>) = wire_ok l w"
  by (simp_all add: wire_ok_def)

lemma wire_ok_header: "sw_declared_decompressed_bytes w \<le> al_max_decoded_bytes l \<Longrightarrow>
    sw_state w = wire_header_state \<Longrightarrow> wire_ok l w"
  by (simp add: wire_ok_def wire_header_state_def)

lemma header_byte_ok:
  assumes "length header = 8" and "already < target" and "target \<in> {4, 8}"
    and "sw_declared_decompressed_bytes w \<le> al_max_decoded_bytes l"
    and "wire_header_turn l header already target [b] w = (Inr rest, w')"
  shows "rest = [] \<and> wire_ok l w'"
proof -
  have n: "min (target - already) (length [b]) = 1" using assms(2) by simp
  have "length (overwrite already [b] header) = 8" using assms(1-3) by (auto simp: overwrite_def)
  then show ?thesis
    using assms(5) assms(2-4) unfolding wire_header_turn_def n Let_def
    by (auto simp: turn_defs wire_ok_def split: if_splits)
qed

lemma message_ok:
  assumes "validate_stream_message parse metadata l seen = Inr v" and "wire_message v metadata w = (Inr u, w')"
    and "sw_declared_decompressed_bytes w \<le> al_max_decoded_bytes l"
  shows "wire_ok l w'"
proof (cases "mv_body_length v = 0")
  case True
  then have "sw_state w' = wire_header_state \<and>
      sw_declared_decompressed_bytes w' = sw_declared_decompressed_bytes w"
    using assms(2) by (auto simp: wire_message_def turn_defs dest!: record_completed_frame)
  then show ?thesis using assms(3) by (simp add: wire_ok_header)
next
  case False
  note v = stream_message_ok [OF assms(1)]
  show ?thesis
    using assms(2,3) False v(1,2) pendings_from_ok [OF v(3,4)]
    by (auto simp: wire_message_def turn_defs wire_ok_def body_ok_def split: sum.splits if_splits)
qed

lemma metadata_byte_ok:
  assumes "length bytes < target" and "target \<le> al_max_metadata_bytes l"
    and "sw_declared_decompressed_bytes w \<le> al_max_decoded_bytes l"
    and "wire_metadata_turn parse l bytes target [b] w = (Inr rest, w')"
  shows "rest = [] \<and> wire_ok l w'"
proof -
  have n: "min (target - length bytes) (length [b]) = 1" using assms(1) by simp
  show ?thesis
  proof (cases "Suc (length bytes) < target")
    case True
    then show ?thesis
      using assms(4) assms(2,3) unfolding wire_metadata_turn_def n Let_def
      by (auto simp: turn_defs wire_ok_def)
  next
    case False
    then obtain v u where "validate_stream_message parse (bytes @ [b]) l (sw_schema_seen w) = Inr v" "rest = []"
      and "wire_message v (bytes @ [b]) (w\<lparr>sw_feed_peak_buffered_bytes :=
        max (sw_feed_peak_buffered_bytes w) (Suc (length bytes)), sw_state := WireMetadata [] target\<rparr>) = (Inr u, w')"
      using assms(4) unfolding wire_metadata_turn_def n Let_def
      by (auto simp: turn_defs split: sum.splits prod.splits)
    with message_ok assms(3) show ?thesis by fastforce
  qed
qed

lemma wire_account_byte:
  assumes "body_ok l b" and "wire_account l (wb_consumed b) [x] b w = (Inr b', w')"
    and "sw_declared_decompressed_bytes w \<le> al_max_decoded_bytes l"
  shows "pendings_ok (Suc (wb_consumed b)) (wb_consumed b + wb_remaining b) (wb_compressed_buffers b') \<and>
    b' = b\<lparr>wb_compressed_buffers := wb_compressed_buffers b', wb_decoded_body_bytes := wb_decoded_body_bytes b'\<rparr> \<and>
    sw_declared_decompressed_bytes w' \<le> al_max_decoded_bytes l"
proof -
  obtain ps n d where run: "account_prefixes l (wb_consumed b) [x] (wb_compressed_buffers b)
      (sw_declared_decompressed_bytes w) (wb_decoded_body_bytes b) = (Inr (), ps, n, d)"
    and b': "b' = b\<lparr>wb_compressed_buffers := ps, wb_decoded_body_bytes := d\<rparr>"
    and w': "w' = w\<lparr>sw_state := WireBody b', sw_declared_decompressed_bytes := n\<rparr>"
    using assms(2) by (auto simp: wire_account_def Let_def map_sum_Inr_iff split: prod.splits)
  show ?thesis
    using account_prefixes_byte [OF _ _ run, of "wb_consumed b + wb_remaining b"] assms(1,3) by (simp add: body_ok_def b' w')
qed

lemma body_byte_ok:
  assumes "body_ok l b" and "sw_declared_decompressed_bytes w \<le> al_max_decoded_bytes l"
    and "wire_body_turn l b [x] w = (Inr rest, w')"
  shows "rest = [] \<and> wire_ok l w'"
proof -
  have n: "min (wb_remaining b) (length [x]) = 1" using assms(1) by (simp add: body_ok_def)
  obtain b1 w1 where account: "wire_account l (wb_consumed b) [x] b w = (Inr b1, w1)"
    using assms(3) unfolding wire_body_turn_def wire_body_after_def n Let_def
    by (auto simp: turn_defs split: prod.splits sum.splits)
  note one = wire_account_byte [OF assms(1) account assms(2)]
  obtain ps d where b1: "b1 = b\<lparr>wb_compressed_buffers := ps, wb_decoded_body_bytes := d\<rparr>"
    and ps: "pendings_ok (Suc (wb_consumed b)) (wb_consumed b + wb_remaining b) ps"
    using one by auto
  show ?thesis
  proof (cases "wb_remaining b = 1")
    case True
    then show ?thesis
      using assms(3) one account unfolding wire_body_turn_def wire_body_after_def n Let_def
      by (auto simp: turn_defs b1 wire_header_state_def split: prod.splits sum.splits if_splits
          dest!: record_completed_frame intro!: wire_ok_header)
  next
    case False
    then show ?thesis
      using assms(1,3) one account ps unfolding wire_body_turn_def wire_body_after_def n Let_def
      by (auto simp: turn_defs b1 wire_ok_def body_ok_def split: prod.splits sum.splits if_splits)
  qed
qed

lemma turn_byte_ok:
  assumes "wire_ok l w" and "wire_turn parse l [b] w = (Inr x, w')"
  shows "x = None \<and> wire_ok l w'"
proof -
  have n: "sw_declared_decompressed_bytes w \<le> al_max_decoded_bytes l" using assms(1) by (simp add: wire_ok_def)
  show ?thesis
  proof (cases "sw_state w")
    case (WireHeader header already target)
    then show ?thesis
      using assms header_byte_ok [of header already target w l b] n
      by (auto simp: wire_turn_def pbind_def pget_def preturn_def wire_ok_def split: prod.splits sum.splits)
  next
    case (WireMetadata bytes target)
    then show ?thesis
      using assms metadata_byte_ok [of bytes target l w parse b] n
      by (auto simp: wire_turn_def pbind_def pget_def preturn_def wire_ok_def split: prod.splits sum.splits)
  next
    case (WireBody body)
    then show ?thesis
      using assms body_byte_ok [of l body w b] n
      by (auto simp: wire_turn_def pbind_def pget_def preturn_def wire_ok_def split: prod.splits sum.splits)
  next
    case WireFinished
    then show ?thesis using assms by (simp add: wire_turn_def turn_defs)
  qed
qed

section \<open>Splitting off a byte\<close>

definition same_run :: "('e + 'a) \<times> 's \<Rightarrow> ('e + 'a) \<times> 's \<Rightarrow> bool" where
  "same_run p q \<longleftrightarrow> p = q \<or> (\<exists>e s t. p = (Inl e, s) \<and> q = (Inl e, t))"

lemma same_run_refl [simp]: "same_run p p"
  by (simp add: same_run_def)

lemma same_run_fail [simp]: "same_run (Inl e, s) (Inl e, t)"
  by (simp add: same_run_def)

lemma same_run_trans: "same_run p q \<Longrightarrow> same_run q r \<Longrightarrow> same_run p r"
  by (auto simp: same_run_def)

lemma goto_raise:
  "pbind (goto st) (\<lambda>_. pbind (raise_peak n) f) w =
     f () (w\<lparr>sw_state := st, sw_feed_peak_buffered_bytes := max (sw_feed_peak_buffered_bytes w) n\<rparr>)"
  by (simp add: turn_defs)

text \<open>When the first byte is all a turn needs, the rest is left.\<close>

definition leaving :: "byte list \<Rightarrow> tabulark_error + byte list \<Rightarrow> tabulark_error + byte list" where
  "leaving r = map_sum id (\<lambda>_. r)"

lemma header_turn_one:
  assumes "target - already = 1"
  shows "wire_header_turn l header already target (b # r) w =
    map_prod (leaving r) id (wire_header_turn l header already target [b] w)"
proof -
  have n: "min (target - already) (length (b # r)) = 1" "min (target - already) (length [b]) = 1"
    using assms by simp_all
  show ?thesis unfolding wire_header_turn_def n Let_def by (simp add: turn_defs leaving_def)
qed

lemma metadata_turn_one:
  assumes "target - length bytes = 1"
  shows "wire_metadata_turn parse l bytes target (b # r) w =
    map_prod (leaving r) id (wire_metadata_turn parse l bytes target [b] w)"
proof -
  have n: "min (target - length bytes) (length (b # r)) = 1" "min (target - length bytes) (length [b]) = 1"
    using assms by simp_all
  show ?thesis
    unfolding wire_metadata_turn_def n Let_def
    by (auto simp: turn_defs leaving_def split: sum.split prod.split)
qed

lemma body_turn_one:
  assumes "wb_remaining b = 1"
  shows "wire_body_turn l b (x # r) w = map_prod (leaving r) id (wire_body_turn l b [x] w)"
proof -
  have n: "min (wb_remaining b) (length (x # r)) = 1" "min (wb_remaining b) (length [x]) = 1"
    using assms by simp_all
  show ?thesis
    unfolding wire_body_turn_def wire_body_after_def n Let_def
    by (auto simp: turn_defs leaving_def split: sum.split prod.split)
qed

text \<open>When a turn needs more, the first byte can be a turn of its own.\<close>

lemma header_turn_more:
  assumes "Suc already < target" and "length header = 8" and "target \<le> 8"
    and w1_def: "w1 = w\<lparr>sw_state := WireHeader (overwrite already [b] header) (Suc already) target,
      sw_feed_peak_buffered_bytes := max (sw_feed_peak_buffered_bytes w) (Suc already)\<rparr>"
  shows "wire_header_turn l header already target (b # r) w =
      wire_header_turn l (overwrite already [b] header) (Suc already) target r w1"
    and "wire_header_turn l header already target [b] w = (Inr [], w1)"
proof -
  define k where "k = min (target - Suc already) (length r)"
  have n: "min (target - already) (length (b # r)) = Suc k" "min (target - already) (length [b]) = 1"
      "min (target - Suc already) (length r) = k"
    using assms(1) by (simp_all add: k_def min_def, arith+)
  have "length (take k r) \<le> target - Suc already" by (simp add: k_def)
  then have "already + Suc (length (take k r)) \<le> length header" using assms(1-3) by linarith
  note twice = overwrite_twice [OF this, of b]
  have parts: "take (Suc k) (b # r) = b # take k r" "drop (Suc k) (b # r) = drop k r" by simp_all
  have peak: "max (max p (Suc already)) (Suc already + k) = max p (already + Suc k)" for p by auto
  have state: "w1\<lparr>sw_state := st, sw_feed_peak_buffered_bytes := max (sw_feed_peak_buffered_bytes w1) (Suc already + k)\<rparr> =
      w\<lparr>sw_state := st, sw_feed_peak_buffered_bytes := max (sw_feed_peak_buffered_bytes w) (already + Suc k)\<rparr>" for st
    by (simp add: w1_def peak)
  have sum: "already + Suc k = Suc already + k" by simp
  show "wire_header_turn l header already target [b] w = (Inr [], w1)"
    unfolding wire_header_turn_def n Let_def goto_raise w1_def using assms(1) by (simp add: preturn_def)
  show "wire_header_turn l header already target (b # r) w =
      wire_header_turn l (overwrite already [b] header) (Suc already) target r w1"
    unfolding wire_header_turn_def n Let_def goto_raise parts twice state sum by (rule refl)
qed

lemma metadata_turn_more:
  assumes "Suc (length bytes) < target"
  shows "wire_metadata_turn parse l bytes target (b # r) w =
    wire_metadata_turn parse l (bytes @ [b]) target r
      (w\<lparr>sw_state := WireMetadata (bytes @ [b]) target,
         sw_feed_peak_buffered_bytes := max (sw_feed_peak_buffered_bytes w) (Suc (length bytes))\<rparr>)"
    and "wire_metadata_turn parse l bytes target [b] w = (Inr [],
      w\<lparr>sw_state := WireMetadata (bytes @ [b]) target,
         sw_feed_peak_buffered_bytes := max (sw_feed_peak_buffered_bytes w) (Suc (length bytes))\<rparr>)"
proof -
  let ?k = "min (target - Suc (length bytes)) (length r)"
  have n: "min (target - length bytes) (length (b # r)) = Suc ?k" "min (target - length bytes) (length [b]) = 1"
      "target - length (bytes @ [b]) = target - Suc (length bytes)"
    using assms by (simp_all add: min_def, arith+)
  show "wire_metadata_turn parse l bytes target [b] w = (Inr [],
      w\<lparr>sw_state := WireMetadata (bytes @ [b]) target,
         sw_feed_peak_buffered_bytes := max (sw_feed_peak_buffered_bytes w) (Suc (length bytes))\<rparr>)"
    unfolding wire_metadata_turn_def n Let_def goto_raise using assms by (simp add: preturn_def)
  show "wire_metadata_turn parse l bytes target (b # r) w =
    wire_metadata_turn parse l (bytes @ [b]) target r
      (w\<lparr>sw_state := WireMetadata (bytes @ [b]) target,
         sw_feed_peak_buffered_bytes := max (sw_feed_peak_buffered_bytes w) (Suc (length bytes))\<rparr>)"
  proof -
    define m where "m = (bytes @ [b]) @ take ?k r"
    have m: "bytes @ take (Suc ?k) (b # r) = m" and rest: "drop (Suc ?k) (b # r) = drop ?k r"
      by (simp_all add: m_def)
    have peak: "max (max p (Suc (length bytes))) (length m) = max p (length m)" for p
      unfolding m_def by (simp add: max.assoc max_absorb2)
    show ?thesis
      unfolding wire_metadata_turn_def n Let_def goto_raise m rest m_def [symmetric] by (simp add: peak)
  qed
qed

text \<open>A body: the prefixes of the fragment, then the counters.\<close>

lemma body_turn_eq:
  assumes "wb_consumed b + wb_remaining b \<le> u64_max"
    and "account_prefixes l (wb_consumed b) (take (wb_remaining b) input) (wb_compressed_buffers b)
      (sw_declared_decompressed_bytes w) (wb_decoded_body_bytes b) = (o1, ps, n, d)"
  shows "wire_body_turn l b input w =
    (let b' = b\<lparr>wb_compressed_buffers := ps, wb_decoded_body_bytes := d\<rparr>;
         w' = w\<lparr>sw_state := WireBody b', sw_declared_decompressed_bytes := n\<rparr>;
         taken = min (wb_remaining b) (length input)
     in case o1 of Inl e \<Rightarrow> (Inl e, w')
       | Inr _ \<Rightarrow> wire_body_after b' taken (wb_consumed b + taken) (drop (wb_remaining b) input) w')"
proof -
  let ?k = "min (wb_remaining b) (length input)"
  have taken: "take ?k input = take (wb_remaining b) input" "drop ?k input = drop (wb_remaining b) input"
    by (simp_all add: min_def)
  have fits: "checked_add (wb_consumed b) ?k = Some (wb_consumed b + ?k)" using assms(1) by simp
  show ?thesis
    unfolding wire_body_turn_def Let_def taken fits
    using assms(2) by (cases o1) (simp_all add: pbind_def plift_def wire_account_def Let_def)
qed

lemma body_after_state:
  "wire_body_after b taken stop rest (w\<lparr>sw_state := st\<rparr>) = wire_body_after b taken stop rest w"
  by (simp add: wire_body_after_def Let_def goto_def pbind_def pmodify_def)

lemma body_after_twice:
  assumes "wb_metadata_length b + stop + k \<le> u64_max"
  shows "wire_body_after (b\<lparr>wb_remaining := wb_remaining b - Suc 0, wb_consumed := stop\<rparr>) k (stop + k) rest
      (w\<lparr>sw_feed_peak_buffered_bytes := max (sw_feed_peak_buffered_bytes w) (wb_metadata_length b + stop)\<rparr>) =
    wire_body_after b (Suc k) (stop + k) rest w"
proof -
  have "max (max p (wb_metadata_length b + stop)) (wb_metadata_length b + (stop + k)) =
      max p (wb_metadata_length b + (stop + k))" for p
    by (simp add: max.assoc max_absorb2)
  moreover have "checked_add (wb_metadata_length b) (stop + k) = Some (wb_metadata_length b + (stop + k))"
    using assms by simp
  ultimately show ?thesis
    by (simp add: wire_body_after_def Let_def goto_def raise_peak_def pbind_def pmodify_def plift_def)
qed

lemma body_turn_more:
  assumes "body_ok l b" and "1 < wb_remaining b"
  shows "case wire_body_turn l b [x] w of
      (Inl e, _) \<Rightarrow> \<exists>v. wire_body_turn l b (x # r) w = (Inl e, v)
    | (Inr rest, w') \<Rightarrow> rest = [] \<and> (\<exists>b'. sw_state w' = WireBody b' \<and>
        same_run (wire_body_turn l b (x # r) w) (wire_body_turn l b' r w'))"
proof -
  let ?c = "wb_consumed b" and ?k = "wb_remaining b - 1"
  let ?n = "min ?k (length r)"
  have fits: "?c + wb_remaining b \<le> u64_max" "wb_metadata_length b + ?c + wb_remaining b \<le> u64_max"
    and ps: "pendings_ok ?c (?c + wb_remaining b) (wb_compressed_buffers b)"
    using assms(1) by (simp_all add: body_ok_def)
  have one: "take (wb_remaining b) [x] = [x]" "take (wb_remaining b) (x # r) = x # take ?k r"
      "drop (wb_remaining b) [x] = []" "drop (wb_remaining b) (x # r) = drop ?k r"
      "min (wb_remaining b) (length [x]) = 1" "min (wb_remaining b) (length (x # r)) = Suc ?n"
    using assms(2) by (auto simp: take_Cons' drop_Cons')
  obtain o1 ps1 n1 d1 where byte: "account_prefixes l ?c [x] (wb_compressed_buffers b)
      (sw_declared_decompressed_bytes w) (wb_decoded_body_bytes b) = (o1, ps1, n1, d1)"
    by (cases "account_prefixes l ?c [x] (wb_compressed_buffers b) (sw_declared_decompressed_bytes w)
        (wb_decoded_body_bytes b)")
  note whole = account_prefixes_split [OF ps fits(1), of l x "take ?k r" "sw_declared_decompressed_bytes w"
      "wb_decoded_body_bytes b", unfolded byte prod.case]
  note turn1 = body_turn_eq [OF fits(1), of l "[x]", unfolded one, OF byte, unfolded Let_def]
  show ?thesis
  proof (cases o1)
    case (Inl e)
    have "fst (wire_body_turn l b (x # r) w) = Inl e"
      using body_turn_eq [OF fits(1), of l "x # r", unfolded one, OF whole [unfolded Inl sum.case]] by (simp add: Let_def)
    then show ?thesis using turn1 by (cases "wire_body_turn l b (x # r) w") (simp add: Inl)
  next
    case (Inr u)
    let ?b1 = "b\<lparr>wb_compressed_buffers := ps1, wb_decoded_body_bytes := d1\<rparr>"
    define b2 where "b2 = ?b1\<lparr>wb_remaining := ?k, wb_consumed := Suc ?c\<rparr>"
    define w2 where "w2 = w\<lparr>sw_declared_decompressed_bytes := n1,
        sw_feed_peak_buffered_bytes := max (sw_feed_peak_buffered_bytes w) (wb_metadata_length b + Suc ?c),
        sw_state := WireBody b2\<rparr>"
    have b2: "wb_remaining b2 = ?k" "wb_consumed b2 = Suc ?c" "wb_compressed_buffers b2 = ps1"
        "wb_decoded_body_bytes b2 = d1" "sw_declared_decompressed_bytes w2 = n1" "sw_state w2 = WireBody b2"
      by (simp_all add: b2_def w2_def)
    have first: "wire_body_turn l b [x] w = (Inr [], w2)"
      using turn1 assms(2) fits(2) by (simp add: Inr wire_body_after_def Let_def turn_defs b2_def w2_def)
    obtain o2 ps2 n2 d2 where rest: "account_prefixes l (Suc ?c) (take ?k r) ps1 n1 d1 = (o2, ps2, n2, d2)"
      by (cases "account_prefixes l (Suc ?c) (take ?k r) ps1 n1 d1")
    let ?b3 = "b\<lparr>wb_compressed_buffers := ps2, wb_decoded_body_bytes := d2\<rparr>"
    note turn = body_turn_eq [OF fits(1), of l "x # r", unfolded one, OF whole [unfolded Inr sum.case rest], unfolded Let_def]
    have "wb_consumed b2 + wb_remaining b2 \<le> u64_max" using fits(1) assms(2) by (simp add: b2)
    note turn2 = body_turn_eq [OF this, of l r w2, unfolded b2, OF rest, unfolded Let_def]
    have "same_run (wire_body_turn l b (x # r) w) (wire_body_turn l b2 r w2)"
    proof (cases o2)
      case (Inl e)
      then show ?thesis unfolding turn turn2 by simp
    next
      case (Inr u2)
      have b3: "b2\<lparr>wb_compressed_buffers := ps2, wb_decoded_body_bytes := d2\<rparr> =
          ?b3\<lparr>wb_remaining := wb_remaining ?b3 - Suc 0, wb_consumed := Suc ?c\<rparr>"
        by (simp add: b2_def)
      have w3: "w2\<lparr>sw_state := st, sw_declared_decompressed_bytes := n2\<rparr> =
          (w\<lparr>sw_declared_decompressed_bytes := n2\<rparr>)\<lparr>sw_feed_peak_buffered_bytes :=
            max (sw_feed_peak_buffered_bytes (w\<lparr>sw_declared_decompressed_bytes := n2\<rparr>)) (wb_metadata_length ?b3 + Suc ?c),
            sw_state := st\<rparr>" for st
        by (simp add: w2_def)
      have w4: "w\<lparr>sw_state := st, sw_declared_decompressed_bytes := n2\<rparr> =
          (w\<lparr>sw_declared_decompressed_bytes := n2\<rparr>)\<lparr>sw_state := st\<rparr>" for st by simp
      have "wb_metadata_length ?b3 + Suc ?c + ?n \<le> u64_max" using fits(2) assms(2) by simp
      note twice = body_after_twice [OF this, of "drop ?k r" "w\<lparr>sw_declared_decompressed_bytes := n2\<rparr>"]
      have sum: "?c + Suc ?n = Suc ?c + ?n" by simp
      show ?thesis
        unfolding turn turn2 Inr sum.case w3 w4 body_after_state b3 twice sum by simp
    qed
    then show ?thesis by (simp add: first b2)
  qed
qed

definition wire_dispatch :: "message_parser \<Rightarrow> arrow_limits \<Rightarrow> byte list \<Rightarrow> byte list wire" where
  "wire_dispatch parse l input = (\<lambda>w. case sw_state w of
          WireHeader header already target \<Rightarrow> wire_header_turn l header already target input w
        | WireMetadata bytes target \<Rightarrow> wire_metadata_turn parse l bytes target input w
        | WireBody b \<Rightarrow> wire_body_turn l b input w
        | WireFinished \<Rightarrow> (Inl (new_error ParseFailed ''Arrow IPC Stream contains bytes after its end marker''), w))"

lemma wire_turn_eq:
  "wire_turn parse l input w =
     map_prod (map_sum id (\<lambda>rest. if rest = [] then None else Some rest)) id (wire_dispatch parse l input w)"
  by (auto simp: wire_turn_def wire_dispatch_def pbind_def pget_def pfail_def preturn_def
      split: stream_wire_state.split prod.split sum.split)

lemma same_run_map: "same_run p q \<Longrightarrow> same_run (map_prod (map_sum id f) id p) (map_prod (map_sum id f) id q)"
  by (auto simp: same_run_def)

lemma dispatch_split:
  assumes "wire_ok l w"
  shows "wire_dispatch parse l (b # r) w = map_prod (leaving r) id (wire_dispatch parse l [b] w) \<or>
    (case wire_dispatch parse l [b] w of
       (Inl e, _) \<Rightarrow> \<exists>v. wire_dispatch parse l (b # r) w = (Inl e, v)
     | (Inr rest, w') \<Rightarrow> rest = [] \<and> same_run (wire_dispatch parse l (b # r) w) (wire_dispatch parse l r w'))"
proof (cases "sw_state w")
  case (WireHeader header already target)
  then have ok: "length header = 8" "already < target" "target \<le> 8" using assms by (auto simp: wire_ok_def)
  show ?thesis
  proof (cases "Suc already < target")
    case True
    note more = header_turn_more(1) [OF True ok(1,3) refl, where r = r] header_turn_more(2) [OF True ok(1,3) refl]
    show ?thesis by (simp add: wire_dispatch_def WireHeader more)
  next
    case False
    then have "target - already = 1" using ok(2) by simp
    from header_turn_one [OF this, where r = r] show ?thesis by (intro disjI1) (simp only: wire_dispatch_def WireHeader stream_wire_state.case)
  qed
next
  case (WireMetadata bytes target)
  then have ok: "length bytes < target" using assms by (simp add: wire_ok_def)
  show ?thesis
  proof (cases "Suc (length bytes) < target")
    case True
    note more = metadata_turn_more(1) [OF True, where r = r] metadata_turn_more(2) [OF True]
    show ?thesis by (simp add: wire_dispatch_def WireMetadata more)
  next
    case False
    then have "target - length bytes = 1" using ok by simp
    from metadata_turn_one [OF this, where r = r] show ?thesis by (intro disjI1) (simp only: wire_dispatch_def WireMetadata stream_wire_state.case)
  qed
next
  case (WireBody body)
  then have ok: "body_ok l body" using assms by (simp add: wire_ok_def)
  show ?thesis
  proof (cases "1 < wb_remaining body")
    case True
    obtain o1 w1 where byte: "wire_body_turn l body [b] w = (o1, w1)" by (cases "wire_body_turn l body [b] w")
    show ?thesis
      using body_turn_more [OF ok True, where x = b and w = w and r = r] unfolding byte
      by (cases o1) (auto simp: wire_dispatch_def WireBody byte)
  next
    case False
    then have "wb_remaining body = 1" using ok by (simp add: body_ok_def)
    from body_turn_one [OF this, where r = r] show ?thesis by (intro disjI1) (simp only: wire_dispatch_def WireBody stream_wire_state.case)
  qed
next
  case WireFinished
  then show ?thesis by (simp add: wire_dispatch_def)
qed

lemma turn_split:
  assumes "wire_ok l w" and "r \<noteq> []"
  shows "case wire_turn parse l [b] w of
      (Inl e, _) \<Rightarrow> \<exists>v. wire_turn parse l (b # r) w = (Inl e, v)
    | (Inr _, w') \<Rightarrow> wire_turn parse l (b # r) w = (Inr (Some r), w') \<or>
        same_run (wire_turn parse l (b # r) w) (wire_turn parse l r w')"
proof -
  obtain o1 w1 where byte: "wire_dispatch parse l [b] w = (o1, w1)" by (cases "wire_dispatch parse l [b] w")
  show ?thesis
    using dispatch_split [OF assms(1), of parse b r] assms(2)
    unfolding wire_turn_eq byte
    by (cases o1) (auto simp: leaving_def
      dest!: same_run_map [where f = "\<lambda>rest. if rest = [] then None else Some rest"])
qed

section \<open>Calls\<close>

fun wire_bytes :: "message_parser \<Rightarrow> arrow_limits \<Rightarrow> byte list \<Rightarrow> unit wire" where
  "wire_bytes parse l [] w = (Inr (), w)"
| "wire_bytes parse l (b # bytes) w =
     (case wire_turn parse l [b] w of (Inl e, w') \<Rightarrow> (Inl e, w') | (Inr _, w') \<Rightarrow> wire_bytes parse l bytes w')"

abbreviation wire_loop :: "message_parser \<Rightarrow> arrow_limits \<Rightarrow> byte list \<Rightarrow> (stream_wire, tabulark_error, unit) lprog" where
  "wire_loop parse l \<equiv> ploop (\<lambda>rest. lrun (wire_turn parse l rest))"

lemma wire_loop_next:
  "wire_loop parse l bytes w = (case wire_turn parse l bytes w of
      (Inl e, w') \<Rightarrow> Some (Inl e, w') | (Inr None, w') \<Rightarrow> Some (Inr (), w')
    | (Inr (Some rest), w') \<Rightarrow> wire_loop parse l rest w')"
  by (subst ploop.simps) (simp add: lrun_def split: prod.split sum.split option.split)

text \<open>The loop returns, and answers like a loop that takes one byte a turn.\<close>

lemma loop_bytes:
  "bytes \<noteq> [] \<Longrightarrow> wire_ok l w \<Longrightarrow>
     \<exists>p. wire_loop parse l bytes w = Some p \<and> same_run p (wire_bytes parse l bytes w)"
proof (induction bytes arbitrary: w)
  case (Cons b r)
  obtain o1 w1 where byte: "wire_turn parse l [b] w = (o1, w1)" by (cases "wire_turn parse l [b] w")
  show ?case
  proof (cases o1)
    case (Inl e)
    then have "\<exists>v. wire_turn parse l (b # r) w = (Inl e, v)"
      using turn_split [OF Cons.prems(2), of r parse b] byte by (cases "r = []") auto
    then show ?thesis using byte by (subst wire_loop_next) (auto simp: Inl)
  next
    case (Inr x)
    note ok = turn_byte_ok [OF Cons.prems(2) byte [unfolded Inr]]
    show ?thesis
    proof (cases "r = []")
      case True
      then show ?thesis using byte ok by (subst wire_loop_next) (simp add: Inr)
    next
      case False
      then obtain p where p: "wire_loop parse l r w1 = Some p" "same_run p (wire_bytes parse l r w1)"
        using Cons.IH ok by blast
      have "wire_turn parse l (b # r) w = (Inr (Some r), w1) \<or>
          same_run (wire_turn parse l (b # r) w) (wire_turn parse l r w1)"
        using turn_split [OF Cons.prems(2) False, of parse b] byte by (simp add: Inr)
      then have "\<exists>q. wire_loop parse l (b # r) w = Some q \<and> same_run q p"
        unfolding same_run_def
      proof (elim disjE exE conjE)
        assume "wire_turn parse l (b # r) w = (Inr (Some r), w1)"
        then show "\<exists>q. wire_loop parse l (b # r) w = Some q \<and> (q = p \<or> (\<exists>e s t. q = (Inl e, s) \<and> p = (Inl e, t)))"
          using p by (subst wire_loop_next) simp
      next
        assume "wire_turn parse l (b # r) w = wire_turn parse l r w1"
        then have "wire_loop parse l (b # r) w = wire_loop parse l r w1"
          using wire_loop_next [of parse l "b # r" w] wire_loop_next [of parse l r w1] by simp
        then show "\<exists>q. wire_loop parse l (b # r) w = Some q \<and> (q = p \<or> (\<exists>e s t. q = (Inl e, s) \<and> p = (Inl e, t)))"
          using p by simp
      next
        fix e s t assume fails: "wire_turn parse l (b # r) w = (Inl e, s)" "wire_turn parse l r w1 = (Inl e, t)"
        then have "p = (Inl e, t)" using p(1) wire_loop_next [of parse l r w1] by simp
        then show "\<exists>q. wire_loop parse l (b # r) w = Some q \<and> (q = p \<or> (\<exists>e s t. q = (Inl e, s) \<and> p = (Inl e, t)))"
          using fails wire_loop_next [of parse l "b # r" w] by simp
      qed
      then obtain q where q: "wire_loop parse l (b # r) w = Some q" "same_run q p" by blast
      have "wire_bytes parse l (b # r) w = wire_bytes parse l r w1" by (simp add: byte Inr)
      with q(1) same_run_trans [OF q(2) p(2)] show ?thesis by simp
    qed
  qed
qed simp

lemma wire_bytes_ok: "wire_ok l w \<Longrightarrow> wire_bytes parse l bytes w = (Inr u, w') \<Longrightarrow> wire_ok l w'"
  by (induction bytes arbitrary: w) (auto split: prod.splits sum.splits dest: turn_byte_ok)

lemma wire_bytes_append:
  "wire_bytes parse l (a @ b) w =
     (case wire_bytes parse l a w of (Inl e, w') \<Rightarrow> (Inl e, w') | (Inr _, w') \<Rightarrow> wire_bytes parse l b w')"
  by (induction a arbitrary: w) (auto split: prod.split sum.split)

section \<open>The counters of a call\<close>

text \<open>What a call measures for itself and resets when it begins does not steer it.\<close>

definition forget_call :: "stream_wire \<Rightarrow> stream_wire" where
  "forget_call w = w\<lparr>sw_feed_peak_buffered_bytes := 0, sw_feed_transient_record_bytes := 0,
     sw_feed_delta_concat_bytes := 0\<rparr>"

lemma forget_call_eq:
  "forget_call v = forget_call w \<longleftrightarrow> sw_state v = sw_state w \<and> sw_schema_seen v = sw_schema_seen w \<and>
     sw_declared_decompressed_bytes v = sw_declared_decompressed_bytes w \<and>
     sw_retained_record_body_bytes v = sw_retained_record_body_bytes w \<and>
     sw_retained_dictionary_body_bytes v = sw_retained_dictionary_body_bytes w \<and>
     sw_dictionary_bytes v = sw_dictionary_bytes w"
  by (cases v; cases w) (simp add: forget_call_def)

definition blind :: "'a wire \<Rightarrow> bool" where
  "blind m \<longleftrightarrow> (\<forall>v w. forget_call v = forget_call w \<longrightarrow>
     fst (m v) = fst (m w) \<and> forget_call (snd (m v)) = forget_call (snd (m w)))"

named_theorems blinds \<open>programs that the counters of a call do not steer\<close>

lemma blind_return [blinds]: "blind (preturn a)"
  by (simp add: blind_def preturn_def)

lemma blind_fail [blinds]: "blind (pfail e)"
  by (simp add: blind_def pfail_def)

lemma blind_lift [blinds]: "blind (plift r)"
  by (simp add: blind_def plift_def)

lemma blind_goto [blinds]: "blind (goto st)"
  by (simp add: blind_def goto_def pmodify_def forget_call_eq)

lemma blind_raise [blinds]: "blind (raise_peak n)"
  by (simp add: blind_def raise_peak_def pmodify_def forget_call_eq)

lemma blind_if [blinds]: "blind m \<Longrightarrow> blind n \<Longrightarrow> blind (if c then m else n)"
  by simp

lemma blind_bind [blinds]:
  assumes "blind m" and "\<And>a. blind (f a)"
  shows "blind (pbind m f)"
  unfolding blind_def
proof (intro allI impI)
  fix v w assume same: "forget_call v = forget_call w"
  obtain r v' where v: "m v = (r, v')" by (cases "m v")
  obtain q w' where w: "m w = (q, w')" by (cases "m w")
  have "fst (m v) = fst (m w) \<and> forget_call (snd (m v)) = forget_call (snd (m w))"
    using assms(1) same unfolding blind_def by blast
  then have "q = r" and same': "forget_call v' = forget_call w'" by (simp_all add: v w)
  show "fst (pbind m f v) = fst (pbind m f w) \<and> forget_call (snd (pbind m f v)) = forget_call (snd (pbind m f w))"
  proof (cases r)
    case (Inl e)
    then show ?thesis using same' by (simp add: pbind_def v w \<open>q = r\<close>)
  next
    case (Inr a)
    have "fst (f a v') = fst (f a w') \<and> forget_call (snd (f a v')) = forget_call (snd (f a w'))"
      using assms(2) [of a] same' unfolding blind_def by blast
    then show ?thesis by (simp add: pbind_def v w \<open>q = r\<close> Inr)
  qed
qed

lemma blind_get:
  assumes "\<And>w. blind (f w)" and "\<And>v w. forget_call v = forget_call w \<Longrightarrow> f v = f w"
  shows "blind (pbind pget f)"
  unfolding blind_def
proof (intro allI impI)
  fix v w assume same: "forget_call v = forget_call w"
  have f: "f v = f w" by (rule assms(2) [OF same])
  have "fst (f w v) = fst (f w w) \<and> forget_call (snd (f w v)) = forget_call (snd (f w w))"
    using assms(1) [of w] same unfolding blind_def by blast
  then show "fst (pbind pget f v) = fst (pbind pget f w) \<and>
      forget_call (snd (pbind pget f v)) = forget_call (snd (pbind pget f w))"
    by (simp add: pbind_def pget_def f)
qed

lemma blind_record_completed [blinds]: "blind (record_completed_message kind decoded)"
proof (cases kind)
  case RecordMemory
  show ?thesis
    unfolding record_completed_message_def RecordMemory message_memory.case
    by (intro blind_get blind_bind blinds)
      (simp_all add: forget_call_eq, simp add: blind_def pmodify_def forget_call_eq)
next
  case (DictionaryMemory key is_delta)
  show ?thesis
    unfolding record_completed_message_def DictionaryMemory message_memory.case Let_def
    by (intro blind_get blind_bind blinds)
      (simp_all add: forget_call_eq, simp add: blind_def pmodify_def forget_call_eq)
qed (simp add: record_completed_message_def blinds)

lemma blind_account [blinds]: "blind (wire_account l start fragment b)"
  unfolding blind_def
proof (intro allI impI)
  fix v w assume same: "forget_call v = forget_call w"
  obtain r ps n d where run: "account_prefixes l start fragment (wb_compressed_buffers b)
      (sw_declared_decompressed_bytes w) (wb_decoded_body_bytes b) = (r, ps, n, d)"
    by (cases "account_prefixes l start fragment (wb_compressed_buffers b)
      (sw_declared_decompressed_bytes w) (wb_decoded_body_bytes b)")
  moreover have "sw_declared_decompressed_bytes v = sw_declared_decompressed_bytes w"
    using same by (simp add: forget_call_eq)
  ultimately show "fst (wire_account l start fragment b v) = fst (wire_account l start fragment b w) \<and>
      forget_call (snd (wire_account l start fragment b v)) = forget_call (snd (wire_account l start fragment b w))"
    using same by (simp add: wire_account_def Let_def forget_call_eq)
qed

lemma blind_message [blinds]: "blind (wire_message v metadata)"
proof -
  have "blind (pmodify (\<lambda>w. w\<lparr>sw_schema_seen := sw_schema_seen w \<or> mv_header_type v = SchemaHeader\<rparr>))"
    by (simp add: blind_def pmodify_def forget_call_eq)
  note blinds = blinds this
  show ?thesis unfolding wire_message_def by (intro blinds)
qed

lemma blind_turn: "blind (wire_turn parse l input)"
proof -
  have header: "blind (wire_header_turn l header already target input)" for header already target
    unfolding wire_header_turn_def Let_def by (intro blinds)
  have metadata: "blind (wire_metadata_turn parse l bytes target input)" for bytes target
    unfolding wire_metadata_turn_def Let_def by (intro blinds blind_get) (simp_all add: forget_call_eq)
  have body: "blind (wire_body_turn l b input)" for b
    unfolding wire_body_turn_def wire_body_after_def Let_def by (intro blinds)
  show ?thesis
    unfolding wire_turn_def
    by (intro blind_get) (auto simp: forget_call_eq header metadata body blinds
        intro!: blinds split: stream_wire_state.split)
qed

lemma blind_bytes: "blind (wire_bytes parse l bytes)"
proof (induction bytes)
  case Nil
  then show ?case by (simp add: blind_def)
next
  case (Cons b bytes)
  have "wire_bytes parse l (b # bytes) = pbind (wire_turn parse l [b]) (\<lambda>_. wire_bytes parse l bytes)"
    by (simp add: fun_eq_iff pbind_def)
  then show ?case by (simp add: blind_bind blind_turn Cons.IH)
qed

lemma wire_begin_ok:
  assumes "wire_ok l w"
  shows "\<exists>v. wire_begin w = (Inr (), v) \<and> wire_ok l v \<and> forget_call v = forget_call w"
proof -
  obtain n where n: "decoder_buffered_bytes w = Inr n"
    using assms by (auto simp: decoder_buffered_bytes_def wire_ok_def body_ok_def split: stream_wire_state.splits)
  show ?thesis
    using assms
    by (intro exI [of _ "w\<lparr>sw_feed_peak_buffered_bytes := n, sw_feed_transient_record_bytes := 0,
        sw_feed_delta_concat_bytes := 0\<rparr>"])
      (simp add: wire_begin_def turn_defs n forget_call_eq wire_ok_def)
qed

definition same_verdict :: "(tabulark_error + unit) \<times> stream_wire \<Rightarrow> (tabulark_error + unit) \<times> stream_wire \<Rightarrow> bool" where
  "same_verdict p q \<longleftrightarrow> fst p = fst q \<and> (fst p = Inr () \<longrightarrow> forget_call (snd p) = forget_call (snd q))"

lemma feed_bytes:
  assumes "wire_ok l w" and "forget_call w = forget_call v"
  shows "\<exists>p. wire_feed parse l bytes w = Some p \<and> same_verdict p (wire_bytes parse l bytes v) \<and>
    (fst p = Inr () \<longrightarrow> wire_ok l (snd p))"
proof -
  obtain u where u: "wire_begin w = (Inr (), u)" "wire_ok l u" "forget_call u = forget_call v"
    using wire_begin_ok [OF assms(1)] assms(2) by auto
  obtain p where p: "(if bytes = [] then lrun (preturn ()) else wire_loop parse l bytes) u = Some p"
      "same_run p (wire_bytes parse l bytes u)"
    using loop_bytes [OF _ u(2), of bytes parse] by (cases "bytes = []") (auto simp: lrun_def preturn_def)
  have "same_verdict (wire_bytes parse l bytes u) (wire_bytes parse l bytes v)"
    using blind_bytes [of parse l bytes] u(3) unfolding blind_def same_verdict_def by blast
  with p(2) have "same_verdict p (wire_bytes parse l bytes v)" by (auto simp: same_run_def same_verdict_def)
  moreover have "wire_ok l (snd p)" if "fst p = Inr ()"
  proof -
    have "p = wire_bytes parse l bytes u" using p(2) that by (auto simp: same_run_def)
    then have "wire_bytes parse l bytes u = (Inr (), snd p)" using that by (metis prod.collapse)
    then show ?thesis by (rule wire_bytes_ok [OF u(2)])
  qed
  moreover have "wire_feed parse l bytes w = Some p"
    using p(1) by (simp add: wire_feed_def lbind_def lrun_def u(1))
  ultimately show ?thesis by blast
qed

lemma feed_chunks_bytes:
  assumes "wire_ok l w" and "forget_call w = forget_call v"
  shows "\<exists>p. wire_feed_chunks parse l chunks w = Some p \<and> same_verdict p (wire_bytes parse l (concat chunks) v) \<and>
    (fst p = Inr () \<longrightarrow> wire_ok l (snd p))"
  using assms
proof (induction chunks arbitrary: w v)
  case Nil
  then show ?case by (simp add: lrun_def preturn_def same_verdict_def)
next
  case (Cons chunk chunks)
  obtain o1 w1 where w1: "wire_feed parse l chunk w = Some (o1, w1)"
      "same_verdict (o1, w1) (wire_bytes parse l chunk v)" "o1 = Inr () \<longrightarrow> wire_ok l w1"
    using feed_bytes [OF Cons.prems, of parse chunk] by auto
  obtain v1 where v1: "wire_bytes parse l chunk v = (o1, v1)" "o1 = Inr () \<longrightarrow> forget_call w1 = forget_call v1"
    using w1(2) by (cases "wire_bytes parse l chunk v") (auto simp: same_verdict_def)
  show ?case
  proof (cases o1)
    case (Inl e)
    then show ?thesis using w1(1) v1(1) by (simp add: lbind_def wire_bytes_append same_verdict_def)
  next
    case (Inr u)
    then show ?thesis
      using Cons.IH [of w1 v1] w1(1,3) v1 by (simp add: lbind_def wire_bytes_append)
  qed
qed

section \<open>Properties\<close>

lemma stream_wire_new_ok: "wire_ok l stream_wire_new"
  by (simp add: wire_ok_def stream_wire_new_def wire_header_state_def)

text \<open>The limits that an accepted prefix of a stream has kept.\<close>

definition framing_within :: "arrow_limits \<Rightarrow> stream_wire \<Rightarrow> bool" where
  "framing_within l w \<longleftrightarrow> sw_declared_decompressed_bytes w \<le> al_max_decoded_bytes l \<and>
     (case sw_state w of
        WireMetadata bytes target \<Rightarrow> length bytes < target \<and> target \<le> al_max_metadata_bytes l
      | WireBody b \<Rightarrow> wb_metadata_length b + wb_consumed b + wb_remaining b \<le> al_max_block_bytes l
      | _ \<Rightarrow> True)"

text \<open>
  C40: The framing of an Arrow stream is judged the same however it is cut. For any chunks and
  any FlatBuffers library, feeding the chunks one after the other returns, and gives the
  same outcome, with the same error, as feeding the whole stream at once; when it is accepted, both
  leave the same message, dictionary sizes, declared and retained totals, and the same
  verdict at the end of the stream; only what a call measures for itself may differ. What is accepted is
  within the limits: the metadata of the current message, the encoded bytes of its block,
  and the sizes that all compressed buffers have declared.
\<close>

theorem stream_framing_chunk_independent:
  "\<exists>outcome w v. wire_feed_chunks parse l chunks stream_wire_new = Some (outcome, w) \<and>
     wire_feed parse l (concat chunks) stream_wire_new = Some (outcome, v) \<and>
     (outcome = Inr () \<longrightarrow> forget_call w = forget_call v \<and> wire_finish w = wire_finish v \<and>
        framing_within l w)"
proof -
  obtain o1 w where w: "wire_feed_chunks parse l chunks stream_wire_new = Some (o1, w)"
      "same_verdict (o1, w) (wire_bytes parse l (concat chunks) stream_wire_new)" "o1 = Inr () \<longrightarrow> wire_ok l w"
    using feed_chunks_bytes [OF stream_wire_new_ok refl, where parse = parse and l = l and chunks = chunks] by auto
  obtain o2 v where v: "wire_feed parse l (concat chunks) stream_wire_new = Some (o2, v)"
      "same_verdict (o2, v) (wire_bytes parse l (concat chunks) stream_wire_new)"
    using feed_bytes [OF stream_wire_new_ok refl, where parse = parse and l = l and bytes = "concat chunks"] by auto
  have same: "o1 = o2" "o1 = Inr () \<longrightarrow> forget_call w = forget_call v" using w(2) v(2) by (simp_all add: same_verdict_def)
  have "wire_finish w = wire_finish v" if "forget_call w = forget_call v"
    using that by (simp add: forget_call_eq wire_finish_def)
  moreover have "framing_within l w" if "wire_ok l w"
    using that by (auto simp: wire_ok_def framing_within_def body_ok_def split: stream_wire_state.splits)
  ultimately show ?thesis using w(1,3) v(1) same by auto
qed

text \<open>A stream of one schema message, four bytes of metadata, in three chunks.\<close>

definition plain_message_parser :: message_parser where
  "plain_message_parser options metadata = Inr \<lparr>im_header_type = SchemaHeader,
     im_schema_native_endian = Some True, im_record_batch = None, im_dictionary_batch = None, im_body_length = 0\<rparr>"

definition plain_limits :: arrow_limits where
  "plain_limits = \<lparr>al_max_source_bytes = 100, al_max_decoded_bytes = 100, al_max_output_bytes = 100,
     al_max_metadata_bytes = 100, al_max_block_bytes = 100, al_stream_chunk_bytes = 10, al_max_fields = 10,
     al_max_nesting_depth = 10, al_max_range_cells = 10, al_max_display_cell_bytes = 10\<rparr>"

definition plain_chunks :: "byte list list" where
  "plain_chunks = [[4, 0], [0, 0, 7, 7, 7], [7]]"

lemma four_copies: "replicate 4 x = [x, x, x, x]"
  by (simp add: numeral_eq_Suc)

lemma plain_framing:
  "\<exists>v. wire_feed plain_message_parser plain_limits (concat plain_chunks) stream_wire_new = Some (Inr (), v)"
  by (simp add: plain_chunks_def wire_feed_def wire_begin_def decoder_buffered_bytes_def stream_wire_new_def
      wire_header_state_def lbind_def lrun_def turn_defs ploop.simps wire_turn_def wire_header_turn_def
      wire_metadata_turn_def wire_message_def overwrite_def arrow_magic_def four_copies plain_limits_def
      plain_message_parser_def validate_stream_message_def refuse_header_def message_memory_of_def
      compressed_buffer_specs_def usize_from_i64_def record_completed_message_def u64_max_def Let_def)

theorem stream_framing_chunk_independent_witness:
  "\<exists>w. wire_feed_chunks plain_message_parser plain_limits plain_chunks stream_wire_new = Some (Inr (), w) \<and>
     framing_within plain_limits w"
  using stream_framing_chunk_independent [of plain_message_parser plain_limits plain_chunks] plain_framing by auto

end
