(* ===== verification/Ordered_Map.thy ===== *)
theory Ordered_Map
  imports Prelude
begin

text \<open>
  \<open>BTreeMap<u64, V>\<close> of Rust's standard library, as the list of its entries in the order of
  their keys: the range queries, insertion and removal the program uses.
\<close>

type_synonym 'v ordered_map = "(nat \<times> 'v) list"

definition ordered :: "'v ordered_map \<Rightarrow> bool" where
  "ordered m \<longleftrightarrow> sorted_wrt (<) (map fst m)"

definition last_entry :: "'v ordered_map \<Rightarrow> (nat \<times> 'v) option" where
  "last_entry m = (if m = [] then None else Some (last m))"

text \<open>\<open>range(..=k).next_back()\<close>, \<open>range(..k).next_back()\<close> and \<open>range(k..).next()\<close>.\<close>

definition last_at_most :: "nat \<Rightarrow> 'v ordered_map \<Rightarrow> (nat \<times> 'v) option" where
  "last_at_most k m = last_entry (filter (\<lambda>p. fst p \<le> k) m)"

definition last_below :: "nat \<Rightarrow> 'v ordered_map \<Rightarrow> (nat \<times> 'v) option" where
  "last_below k m = last_entry (filter (\<lambda>p. fst p < k) m)"

definition first_from :: "nat \<Rightarrow> 'v ordered_map \<Rightarrow> (nat \<times> 'v) option" where
  "first_from k m = List.find (\<lambda>p. k \<le> fst p) m"

definition ordered_insert :: "nat \<Rightarrow> 'v \<Rightarrow> 'v ordered_map \<Rightarrow> 'v ordered_map" where
  "ordered_insert k v m = filter (\<lambda>p. fst p < k) m @ (k, v) # filter (\<lambda>p. k < fst p) m"

definition ordered_remove :: "nat \<Rightarrow> 'v ordered_map \<Rightarrow> 'v ordered_map" where
  "ordered_remove k m = filter (\<lambda>p. fst p \<noteq> k) m"

lemma ordered_Nil [simp]: "ordered []"
  by (simp add: ordered_def)

lemma ordered_filter [simp]: "ordered m \<Longrightarrow> ordered (filter P m)"
  unfolding ordered_def by (induction m) auto

lemma ordered_distinct: "ordered m \<Longrightarrow> distinct (map fst m)"
  unfolding ordered_def by (metis distinct_map strict_sorted_iff)

lemma ordered_unique: "ordered m \<Longrightarrow> (k, v) \<in> set m \<Longrightarrow> (k, w) \<in> set m \<Longrightarrow> v = w"
  using ordered_distinct eq_key_imp_eq_value by fastforce

lemma ordered_lookup: "ordered m \<Longrightarrow> map_of m k = Some v \<longleftrightarrow> (k, v) \<in> set m"
  by (rule map_of_eq_Some_iff [OF ordered_distinct])

lemma ordered_insert_ordered [simp]:
  assumes "ordered m" shows "ordered (ordered_insert k v m)"
  using assms unfolding ordered_insert_def ordered_def
  by (auto simp: sorted_wrt_append sorted_wrt_map intro: sorted_wrt_filter)

lemma ordered_remove_ordered [simp]: "ordered m \<Longrightarrow> ordered (ordered_remove k m)"
  by (simp add: ordered_remove_def)

lemma set_ordered_insert: "set (ordered_insert k v m) = insert (k, v) {p \<in> set m. fst p \<noteq> k}"
  by (auto simp: ordered_insert_def)

lemma set_ordered_remove: "set (ordered_remove k m) = {p \<in> set m. fst p \<noteq> k}"
  by (auto simp: ordered_remove_def)

lemma last_entry_ordered:
  assumes "ordered m"
  shows "last_entry m = Some p \<longleftrightarrow> p \<in> set m \<and> (\<forall>q \<in> set m. fst q \<le> fst p)"
proof (cases m rule: rev_cases)
  case Nil
  then show ?thesis by (simp add: last_entry_def)
next
  case (snoc ys y)
  have less: "fst q < fst y" if "q \<in> set ys" for q
    using assms that by (auto simp: ordered_def snoc sorted_wrt_append)
  then show ?thesis by (auto simp: last_entry_def snoc dest!: less_imp_le)
    (metis leD less)
qed

lemma last_entry_None: "last_entry m = None \<longleftrightarrow> m = []"
  by (simp add: last_entry_def)

lemma last_at_most_Some:
  assumes "ordered m"
  shows "last_at_most k m = Some p \<longleftrightarrow>
    p \<in> set m \<and> fst p \<le> k \<and> (\<forall>q \<in> set m. fst q \<le> k \<longrightarrow> fst q \<le> fst p)"
  using assms by (auto simp: last_at_most_def last_entry_ordered)

lemma last_at_most_None: "last_at_most k m = None \<longleftrightarrow> (\<forall>q \<in> set m. k < fst q)"
  by (auto simp: last_at_most_def last_entry_None filter_empty_conv not_le)

lemma last_below_Some:
  assumes "ordered m"
  shows "last_below k m = Some p \<longleftrightarrow>
    p \<in> set m \<and> fst p < k \<and> (\<forall>q \<in> set m. fst q < k \<longrightarrow> fst q \<le> fst p)"
  using assms by (auto simp: last_below_def last_entry_ordered)

lemma last_below_None: "last_below k m = None \<longleftrightarrow> (\<forall>q \<in> set m. k \<le> fst q)"
  by (auto simp: last_below_def last_entry_None filter_empty_conv not_less)

lemma first_from_Some:
  assumes "ordered m" and "first_from k m = Some p"
  shows "p \<in> set m \<and> k \<le> fst p \<and> (\<forall>q \<in> set m. k \<le> fst q \<longrightarrow> fst p \<le> fst q)"
  using assms
proof (induction m)
  case Nil
  then show ?case by (simp add: first_from_def)
next
  case (Cons q m)
  then show ?case
    by (fastforce simp: first_from_def ordered_def split: if_splits)
qed

lemma first_from_None: "first_from k m = None \<longleftrightarrow> (\<forall>q \<in> set m. fst q < k)"
  by (auto simp: first_from_def find_None_iff not_le)

end
