(* ===== verification/Indexed_Ranges.thy ===== *)
theory Indexed_Ranges
  imports Errors Ordered_Map
begin

text \<open>
  crates/tabulark-excel-wasm/src/range.rs: the store of the source ranges the host has
  delivered. Segments are disjoint and never adjacent, so that any indexed range lies in
  one of them. The abstract view is a partial function from offsets to bytes: the lemmas
  show what every operation does to it.
\<close>

section \<open>Ranges of a source\<close>

record host_range =
  hr_offset :: nat
  hr_length :: nat

definition host_range_new :: "nat \<Rightarrow> nat \<Rightarrow> nat \<Rightarrow> host_range result" where
  "host_range_new offset len source_length =
     (if len = 0
      then Inl (new_error InvalidArgument ''Excel source range length must be positive'')
      else
        rbind (ok_or (checked_add offset len)
          (new_error InvalidArgument ''Excel source range end overflows u64'')) (\<lambda>stop.
        if stop > source_length
        then Inl (with_detail (with_detail (with_detail
               (new_error InvalidArgument ''Excel source range lies outside the source'')
               ''offset'' (DetailNumber offset))
               ''length'' (DetailNumber len))
               ''sourceLength'' (DetailNumber source_length))
        else Inr \<lparr>hr_offset = offset, hr_length = len\<rparr>))"

text \<open>The sum cannot overflow: the constructor is the only way to create a range.\<close>

definition hr_end :: "host_range \<Rightarrow> nat" where
  "hr_end r = hr_offset r + hr_length r"

section \<open>The indexed ranges\<close>

record indexed_ranges =
  ix_source_length :: nat
  ix_ranges :: "byte list ordered_map"
  ix_retained :: nat

definition indexed_new :: "nat \<Rightarrow> indexed_ranges" where
  "indexed_new source_length =
     \<lparr>ix_source_length = source_length, ix_ranges = [], ix_retained = 0\<rparr>"

type_synonym 'a indexing = "(indexed_ranges, tabulark_error, 'a) prog"

definition overlap_error :: tabulark_error where
  "overlap_error = new_error InvalidArgument ''Excel range result overlaps an indexed range''"

definition segment_length :: "byte list \<Rightarrow> nat result" where
  "segment_length bytes =
     ok_or (u64_try_from (length bytes)) (new_error ResourceLimit ''indexed range exceeds u64'')"

definition segment_end :: "nat \<Rightarrow> byte list \<Rightarrow> nat result" where
  "segment_end start bytes =
     rbind (segment_length bytes) (\<lambda>n.
     ok_or (checked_add start n) (new_error ResourceLimit ''indexed range end overflows''))"

text \<open>
  Is the range already indexed (\<open>True\<close>), free on its left (\<open>False\<close>), or does it overlap the
  segment that starts at or before it?
\<close>

definition already_indexed :: "host_range \<Rightarrow> byte list \<Rightarrow> indexed_ranges \<Rightarrow> bool result" where
  "already_indexed requested bytes x =
     (case last_at_most (hr_offset requested) (ix_ranges x) of
        None \<Rightarrow> Inr False
      | Some (start, existing) \<Rightarrow>
          rbind (segment_end start existing) (\<lambda>existing_end.
          if existing_end > hr_offset requested
          then (if start = hr_offset requested \<and> existing = bytes then Inr True else Inl overlap_error)
          else Inr False))"

definition check_following :: "host_range \<Rightarrow> indexed_ranges \<Rightarrow> unit result" where
  "check_following requested x =
     (case first_from (hr_offset requested) (ix_ranges x) of
        None \<Rightarrow> Inr ()
      | Some (following, _) \<Rightarrow> if following < hr_end requested then Inl overlap_error else Inr ())"

text \<open>A segment that ends where the new one starts is taken out and put in front of it.\<close>

definition merge_previous :: "nat \<Rightarrow> byte list \<Rightarrow> (nat \<times> byte list) indexing" where
  "merge_previous start bytes =
     pbind pget (\<lambda>x.
     case last_below start (ix_ranges x) of
       None \<Rightarrow> preturn (start, bytes)
     | Some (previous_start, previous) \<Rightarrow>
         pbind (plift (segment_length previous)) (\<lambda>previous_length.
         if checked_add previous_start previous_length = Some start
         then pbind (pmodify (\<lambda>x. x\<lparr>ix_ranges := ordered_remove previous_start (ix_ranges x)\<rparr>)) (\<lambda>_.
              preturn (previous_start, previous @ bytes))
         else preturn (start, bytes)))"

definition merge_following :: "nat \<Rightarrow> nat \<Rightarrow> byte list \<Rightarrow> unit indexing" where
  "merge_following start merged_end merged =
     pmodify (\<lambda>x. x\<lparr>ix_ranges :=
       ordered_insert start
         (case map_of (ix_ranges x) merged_end of None \<Rightarrow> merged | Some following \<Rightarrow> merged @ following)
         (ordered_remove merged_end (ix_ranges x))\<rparr>)"

definition indexed_insert :: "host_range \<Rightarrow> byte list \<Rightarrow> unit indexing" where
  "indexed_insert requested bytes =
     pbind pget (\<lambda>x.
     if hr_end requested > ix_source_length x
     then pfail (new_error InvalidArgument ''Excel range result lies outside the source'')
     else
       pbind (plift (ok_or (u64_try_from (length bytes))
         (new_error ResourceLimit ''Excel range result length exceeds u64''))) (\<lambda>actual.
       if actual \<noteq> hr_length requested
       then pfail (with_detail (with_detail
              (new_error InvalidArgument ''Excel range result length does not match its action'')
              ''expectedLength'' (DetailNumber (hr_length requested)))
              ''actualLength'' (DetailNumber actual))
       else
         pbind (plift (already_indexed requested bytes x)) (\<lambda>known.
         if known then preturn ()
         else
           pbind (plift (check_following requested x)) (\<lambda>_.
           pbind (plift (ok_or (checked_add (ix_retained x) actual)
             (new_error ResourceLimit ''Excel indexed range accounting overflows''))) (\<lambda>retained.
           pbind (pmodify (\<lambda>x. x\<lparr>ix_retained := retained\<rparr>)) (\<lambda>_.
           pbind (merge_previous (hr_offset requested) bytes) (\<lambda>(start, merged).
           pbind (plift (segment_end start merged)) (\<lambda>merged_end.
           merge_following start merged_end merged))))))))"

definition indexed_bytes :: "indexed_ranges \<Rightarrow> host_range \<Rightarrow> byte list option" where
  "indexed_bytes x r =
     (case last_at_most (hr_offset r) (ix_ranges x) of
        None \<Rightarrow> None
      | Some (start, bytes) \<Rightarrow>
          Option.bind (checked_sub (hr_offset r) start) (\<lambda>relative.
          Option.bind (checked_add relative (hr_length r)) (\<lambda>stop.
          if relative \<le> stop \<and> stop \<le> length bytes
          then Some (take (stop - relative) (drop relative bytes)) else None)))"

text \<open>A gap starts at \<open>position\<close> and goes to the next segment or the end of the query.\<close>

definition gap_at :: "indexed_ranges \<Rightarrow> host_range \<Rightarrow> nat \<Rightarrow> host_range option result" where
  "gap_at x r position =
     (let missing_end = (case first_from position (ix_ranges x) of
            None \<Rightarrow> hr_end r
          | Some (following, _) \<Rightarrow> min following (hr_end r))
      in if missing_end > position
         then rbind (host_range_new position (missing_end - position) (ix_source_length x))
                (\<lambda>gap. Inr (Some gap))
         else Inl (new_error RuntimeFailure ''Excel indexed range map contains an unreachable gap''))"

text \<open>
  The search for the first gap. Every turn that goes on moves the position forward, so the
  loop is a total function.
\<close>

function first_gap :: "indexed_ranges \<Rightarrow> host_range \<Rightarrow> nat \<Rightarrow> host_range option result" where
  "first_gap x r position =
     (if position < hr_end r
      then
        (case last_at_most position (ix_ranges x) of
           None \<Rightarrow> gap_at x r position
         | Some (start, bytes) \<Rightarrow>
             (case segment_end start bytes of
                Inl e \<Rightarrow> Inl e
              | Inr stop \<Rightarrow>
                  if stop > position then first_gap x r (min stop (hr_end r))
                  else gap_at x r position))
      else Inr None)"
  by pat_completeness auto
termination
  by (relation "measure (\<lambda>(x, r, position). hr_end r - position)") auto

declare first_gap.simps [simp del]

definition first_missing :: "indexed_ranges \<Rightarrow> host_range \<Rightarrow> host_range option result" where
  "first_missing x r =
     (if hr_end r > ix_source_length x
      then Inl (new_error InvalidArgument ''Excel missing-range query lies outside the source'')
      else first_gap x r (hr_offset r))"

text \<open>\<open>output[offset..end].copy_from_slice(bytes)\<close>.\<close>

definition copy_into :: "nat \<Rightarrow> byte list \<Rightarrow> byte list \<Rightarrow> byte list run" where
  "copy_into offset bytes target =
     (if offset + length bytes \<le> length target
      then Returns (take offset target @ bytes @ drop (offset + length bytes) target) else Panics)"

fun copy_segments :: "byte list ordered_map \<Rightarrow> byte list \<Rightarrow> byte list result run" where
  "copy_segments [] target = Returns (Inr target)"
| "copy_segments ((offset, bytes) # rest) target =
     (case rbind (ok_or (u64_try_from offset)
              (new_error ResourceLimit ''indexed XLS offset exceeds usize'')) (\<lambda>offset.
            ok_or (checked_add offset (length bytes))
              (new_error ResourceLimit ''indexed XLS copy end overflows'')) of
        Inl e \<Rightarrow> Returns (Inl e)
      | Inr _ \<Rightarrow> run_bind (copy_into offset bytes target) (copy_segments rest))"

definition furthest :: "nat \<Rightarrow> nat \<times> byte list \<Rightarrow> nat result" where
  "furthest reach seg =
     rbind (ok_or (u64_try_from (length (snd seg)))
       (new_error ResourceLimit ''Excel indexed range length exceeds u64'')) (\<lambda>n.
     rbind (ok_or (checked_add (fst seg) n)
       (new_error ResourceLimit ''Excel indexed range end overflows'')) (\<lambda>candidate.
     Inr (max reach candidate)))"

definition indexed_end :: "indexed_ranges \<Rightarrow> nat result" where
  "indexed_end x = rfold furthest 0 (ix_ranges x)"

definition materialize_indexed_prefix :: "indexed_ranges \<Rightarrow> nat \<Rightarrow> byte list result run" where
  "materialize_indexed_prefix x max_bytes =
     (case indexed_end x of
        Inl e \<Rightarrow> Returns (Inl e)
      | Inr reach \<Rightarrow>
          if reach > max_bytes
          then Returns (Inl (with_detail (with_detail
                 (new_error ResourceLimit
                    ''indexed XLS working set exceeds the configured compact-source limit'')
                 ''requiredBytes'' (DetailNumber reach))
                 ''availableBytes'' (DetailNumber max_bytes)))
          else (case u64_try_from reach of
                  None \<Rightarrow> Returns (Inl (new_error ResourceLimit ''indexed XLS prefix exceeds usize''))
                | Some n \<Rightarrow> copy_segments (ix_ranges x) (replicate n 0)))"

end
