(* ===== verification/Zip_Index.thy ===== *)
theory Zip_Index
  imports Indexed_Ranges Byte_Order Utf8
begin

text \<open>
  crates/tabulark-excel-wasm/src/range.rs: the index of a ZIP or ZIP64 package, read from
  its tail and its central directory, the raw entries and where their data lie, and the
  paths of entries. Sizes and offsets are naturals, each read from a field of its width;
  flags and checksums are words.
\<close>

unbundle bit_operations_syntax

section \<open>Reading fields\<close>

definition zip_truncated :: tabulark_error where
  "zip_truncated = new_error ParseFailed ''XLSX ZIP structure is truncated''"

definition zip_overflow :: tabulark_error where
  "zip_overflow = new_error ResourceLimit ''XLSX ZIP offset arithmetic overflows''"

definition read_u16 :: "byte list \<Rightarrow> nat \<Rightarrow> nat result" where
  "read_u16 bytes offset = map_sum id le_value (ok_or (bytes_at bytes offset 2) zip_truncated)"

definition read_u32 :: "byte list \<Rightarrow> nat \<Rightarrow> nat result" where
  "read_u32 bytes offset = map_sum id le_value (ok_or (bytes_at bytes offset 4) zip_truncated)"

definition read_u64 :: "byte list \<Rightarrow> nat \<Rightarrow> nat result" where
  "read_u64 bytes offset = map_sum id le_value (ok_or (bytes_at bytes offset 8) zip_truncated)"

definition u16_max :: nat where
  "u16_max = 65535"

section \<open>Limits and index\<close>

definition range_tail_bytes :: nat where
  "range_tail_bytes = 128 * 1024"

definition max_central_directory_bytes :: nat where
  "max_central_directory_bytes = 32 * 1024 * 1024"

definition max_zip_entries :: nat where
  "max_zip_entries = 16384"

definition max_compressed_entry_bytes :: nat where
  "max_compressed_entry_bytes = 64 * 1024 * 1024"

definition max_expanded_entry_bytes :: nat where
  "max_expanded_entry_bytes = 128 * 1024 * 1024"

record zip_entry_index =
  ze_name :: string
  ze_flags :: "16 word"
  ze_method :: nat
  ze_crc32 :: "32 word"
  ze_compressed_size :: nat
  ze_uncompressed_size :: nat
  ze_local_header_offset :: nat

text \<open>A hash map: only its lookups and, for the workbook, the order of its keys matter.\<close>

type_synonym zip_directory_index = "(string \<times> zip_entry_index) list"

definition directory_entry :: "zip_directory_index \<Rightarrow> string \<Rightarrow> zip_entry_index option" where
  "directory_entry index name = map_of index name"

text \<open>The order in which a hash map lists its keys is open: it is the parameter \<open>order\<close>.\<close>

definition workbook_path :: "(string list \<Rightarrow> string list) \<Rightarrow> zip_directory_index \<Rightarrow> string option" where
  "workbook_path order index =
     (if directory_entry index ''xl/workbook.xml'' \<noteq> None then Some ''xl/workbook.xml''
      else List.find (\<lambda>name. eq_ignore_ascii_case name ''xl/workbook.xml'') (order (map fst index)))"

record central_directory_location =
  cl_range :: host_range
  cl_entries :: nat

section \<open>The end of the package\<close>

definition tail_range :: "nat \<Rightarrow> host_range result" where
  "tail_range source_length =
     (let len = min source_length range_tail_bytes
      in if len < 22
         then Inl (new_error ParseFailed
                ''XLSX source is too short to contain an end-of-central-directory record'')
         else host_range_new (source_length - len) len source_length)"

definition central_location :: "nat \<Rightarrow> nat \<Rightarrow> nat \<Rightarrow> nat \<Rightarrow> central_directory_location result" where
  "central_location offset size_of entries source_length =
     (if entries = 0 \<or> entries > max_zip_entries
      then Inl (with_detail (with_detail
             (new_error ResourceLimit ''XLSX ZIP entry count exceeds the configured limit'')
             ''required'' (DetailNumber entries))
             ''available'' (DetailNumber max_zip_entries))
      else if size_of = 0 \<or> size_of > max_central_directory_bytes
      then Inl (with_detail (with_detail
             (new_error ResourceLimit ''XLSX central directory exceeds the configured limit'')
             ''requiredBytes'' (DetailNumber size_of))
             ''availableBytes'' (DetailNumber max_central_directory_bytes))
      else rbind (host_range_new offset size_of source_length) (\<lambda>r.
           Inr \<lparr>cl_range = r, cl_entries = entries\<rparr>))"

definition parse_zip64_end :: "byte list \<Rightarrow> nat \<Rightarrow> nat \<Rightarrow> nat \<Rightarrow> central_directory_location result" where
  "parse_zip64_end tail_bytes tail_offset eocd_index source_length =
     rbind (ok_or (checked_sub eocd_index 20) (new_error ParseFailed ''XLSX ZIP64 locator is missing''))
       (\<lambda>locator.
     rbind (read_u32 tail_bytes locator) (\<lambda>signature.
     if signature \<noteq> 0x07064b50 then Inl (new_error ParseFailed ''XLSX ZIP64 locator is missing'')
     else
     rbind (read_u32 tail_bytes (locator + 4)) (\<lambda>disk.
     rbind (if disk \<noteq> 0 then Inr True else map_sum id (\<lambda>disks. disks \<noteq> 1) (read_u32 tail_bytes (locator + 16)))
       (\<lambda>multi_disk.
     if multi_disk
     then Inl (new_error UnsupportedFeature ''multi-disk XLSX ZIP64 archives are unsupported'')
     else
     rbind (read_u64 tail_bytes (locator + 8)) (\<lambda>record_offset.
     rbind (ok_or (checked_sub record_offset tail_offset)
       (new_error ParseFailed ''XLSX ZIP64 record is outside the indexed tail'')) (\<lambda>relative.
     rbind (ok_or (u64_try_from relative)
       (new_error ResourceLimit ''XLSX ZIP64 record offset exceeds usize'')) (\<lambda>relative.
     rbind (case checked_add relative 56 of
              None \<Rightarrow> Inr True
            | Some stop \<Rightarrow>
                if stop > length tail_bytes then Inr True
                else map_sum id (\<lambda>signature. signature \<noteq> 0x06064b50) (read_u32 tail_bytes relative))
       (\<lambda>invalid.
     if invalid then Inl (new_error ParseFailed ''XLSX ZIP64 record is invalid or truncated'')
     else
     rbind (read_u64 tail_bytes (relative + 4)) (\<lambda>record_size.
     if record_size < 44 then Inl (new_error ParseFailed ''XLSX ZIP64 record is truncated'')
     else
     (let record_end = Option.bind (checked_add relative 12) (\<lambda>v. checked_add v record_size) in
     if record_end = None \<or> the record_end > length tail_bytes
     then Inl (new_error ParseFailed ''XLSX ZIP64 record extends outside the indexed tail'')
     else
     rbind (read_u32 tail_bytes (relative + 16)) (\<lambda>disk.
     rbind (if disk \<noteq> 0 then Inr True else map_sum id (\<lambda>disk. disk \<noteq> 0) (read_u32 tail_bytes (relative + 20)))
       (\<lambda>multi_disk.
     if multi_disk
     then Inl (new_error UnsupportedFeature ''multi-disk XLSX ZIP64 archives are unsupported'')
     else
     rbind (read_u64 tail_bytes (relative + 24)) (\<lambda>entries_on_disk.
     rbind (read_u64 tail_bytes (relative + 32)) (\<lambda>entries.
     if entries \<noteq> entries_on_disk
     then Inl (new_error UnsupportedFeature ''split XLSX ZIP64 central directories are unsupported'')
     else
     rbind (ok_or (u64_try_from entries)
       (new_error ResourceLimit ''XLSX ZIP entry count exceeds usize'')) (\<lambda>entries.
     rbind (read_u64 tail_bytes (relative + 48)) (\<lambda>offset.
     rbind (read_u64 tail_bytes (relative + 40)) (\<lambda>size_of.
     central_location offset size_of entries source_length)))))))))))))))))"

text \<open>
  One candidate for the end record: \<open>None\<close> when it is not one and the search goes on.
\<close>

definition eocd_at :: "byte list \<Rightarrow> nat \<Rightarrow> nat \<Rightarrow> nat \<Rightarrow> central_directory_location option result" where
  "eocd_at tail_bytes tail_offset source_length index =
     rbind (read_u32 tail_bytes index) (\<lambda>signature.
     if signature \<noteq> 0x06054b50 then Inr None
     else
     rbind (read_u16 tail_bytes (index + 20)) (\<lambda>comment_length.
     if Option.bind (checked_add index 22) (\<lambda>v. checked_add v comment_length) \<noteq> Some (length tail_bytes)
     then Inr None
     else
     rbind (read_u16 tail_bytes (index + 4)) (\<lambda>disk.
     rbind (if disk \<noteq> 0 then Inr True else map_sum id (\<lambda>disk. disk \<noteq> 0) (read_u16 tail_bytes (index + 6)))
       (\<lambda>multi_disk.
     if multi_disk
     then Inl (new_error UnsupportedFeature ''multi-disk XLSX ZIP archives are unsupported'')
     else
     rbind (read_u16 tail_bytes (index + 10)) (\<lambda>entries.
     rbind (read_u32 tail_bytes (index + 12)) (\<lambda>size_of.
     rbind (read_u32 tail_bytes (index + 16)) (\<lambda>offset.
     map_sum id Some
       (if entries = u16_max \<or> size_of = u32_max \<or> offset = u32_max
        then parse_zip64_end tail_bytes tail_offset index source_length
        else central_location offset size_of entries source_length))))))))"

fun find_eocd :: "byte list \<Rightarrow> nat \<Rightarrow> nat \<Rightarrow> nat list \<Rightarrow> central_directory_location result" where
  "find_eocd tail_bytes tail_offset source_length [] =
     Inl (new_error ParseFailed ''XLSX end-of-central-directory record was not found'')"
| "find_eocd tail_bytes tail_offset source_length (index # indices) =
     rbind (eocd_at tail_bytes tail_offset source_length index) (\<lambda>found.
     case found of
       Some location \<Rightarrow> Inr location
     | None \<Rightarrow> find_eocd tail_bytes tail_offset source_length indices)"

definition parse_end_of_central_directory ::
    "byte list \<Rightarrow> nat \<Rightarrow> nat \<Rightarrow> central_directory_location result" where
  "parse_end_of_central_directory tail_bytes tail_offset source_length =
     (if length tail_bytes < 22 then Inl (new_error ParseFailed ''XLSX tail is truncated'')
      else find_eocd tail_bytes tail_offset source_length (rev [0..<length tail_bytes - 22 + 1]))"

section \<open>Paths\<close>

definition validate_zip_path :: "string \<Rightarrow> unit result" where
  "validate_zip_path name =
     (if name = [] \<or> take 1 name = ''/'' \<or> CHR 0x5C \<in> set name \<or> ''..'' \<in> set (split_char CHR ''/'' name)
      then Inl (with_detail (new_error ParseFailed ''XLSX ZIP entry has an unsafe path'')
             ''entry'' (DetailString name))
      else Inr ())"

fun resolve_parts :: "string list \<Rightarrow> string list \<Rightarrow> string list result" where
  "resolve_parts parts [] = Inr parts"
| "resolve_parts parts (part # rest) =
     (if part = [] \<or> part = ''.'' then resolve_parts parts rest
      else if part = ''..''
      then (if parts = [] then Inl (new_error ParseFailed ''XLSX relationship escapes the package root'')
            else resolve_parts (butlast parts) rest)
      else resolve_parts (parts @ [part]) rest)"

definition resolve_zip_target :: "string \<Rightarrow> string \<Rightarrow> string result" where
  "resolve_zip_target base target =
     (if take 1 target = ''/'' \<or> CHR '':'' \<in> set target \<or> CHR 0x5C \<in> set target
      then Inl (new_error UnsupportedFeature
             ''external or absolute XLSX relationships are unsupported'')
      else
        rbind (resolve_parts [] (split_char CHR ''/'' (if base = [] then target else base @ ''/'' @ target)))
          (\<lambda>parts.
        let path = join_char CHR ''/'' parts
        in rbind (validate_zip_path path) (\<lambda>_. Inr path)))"

definition workbook_relationships_path :: "string \<Rightarrow> string" where
  "workbook_relationships_path path =
     (case rsplit_once_char CHR ''/'' path of
        Some (directory, file) \<Rightarrow> directory @ ''/_rels/'' @ file @ ''.rels''
      | None \<Rightarrow> ''_rels/'' @ path @ ''.rels'')"

section \<open>The central directory\<close>

text \<open>The next 64-bit value of a ZIP64 field, when it is needed.\<close>

definition zip64_value :: "bool \<Rightarrow> byte list \<Rightarrow> nat \<Rightarrow> nat \<Rightarrow> (nat \<times> nat) result" where
  "zip64_value needed bytes stop cursor =
     (if \<not> needed then Inr (0, cursor)
      else
        rbind (read_u64 bytes cursor) (\<lambda>v.
        rbind (ok_or (checked_add cursor 8) zip_overflow) (\<lambda>cursor.
        if cursor > stop then Inl (new_error ParseFailed ''XLSX ZIP64 extra field is truncated'')
        else Inr (v, cursor))))"

definition zip64_field_end :: "byte list \<Rightarrow> nat \<Rightarrow> (nat \<times> nat) result" where
  "zip64_field_end bytes offset =
     rbind (read_u16 bytes offset) (\<lambda>ident.
     rbind (read_u16 bytes (offset + 2)) (\<lambda>n.
     rbind (ok_or (checked_add (offset + 4) n) zip_overflow) (\<lambda>stop. Inr (ident, stop))))"

definition zip64_missing :: tabulark_error where
  "zip64_missing = new_error ParseFailed ''XLSX ZIP64 entry metadata is missing''"

lemma zip64_field_end_advances: "zip64_field_end bytes offset = Inr (ident, stop) \<Longrightarrow> offset < stop"
  by (auto simp: zip64_field_end_def)

function parse_zip64_extra :: "byte list \<Rightarrow> bool \<Rightarrow> bool \<Rightarrow> bool \<Rightarrow> nat \<Rightarrow> (nat \<times> nat \<times> nat) result" where
  "parse_zip64_extra bytes need_compressed need_uncompressed need_offset offset =
     (if checked_add offset 4 = None \<or> the (checked_add offset 4) > length bytes then Inl zip64_missing
      else
        case zip64_field_end bytes offset of
          Inl e \<Rightarrow> Inl e
        | Inr (ident, stop) \<Rightarrow>
            if stop > length bytes then Inl zip64_missing
            else if ident \<noteq> 1
            then parse_zip64_extra bytes need_compressed need_uncompressed need_offset stop
            else
              rbind (zip64_value need_uncompressed bytes stop (offset + 4)) (\<lambda>(uncompressed, cursor).
              rbind (zip64_value need_compressed bytes stop cursor) (\<lambda>(compressed, cursor).
              rbind (zip64_value need_offset bytes stop cursor) (\<lambda>(local_offset, cursor).
              Inr (uncompressed, compressed, local_offset)))))"
  by pat_completeness auto
termination
  by (relation "measure (\<lambda>(bytes, nc, nu, no, offset). length bytes - offset)")
    (auto dest!: zip64_field_end_advances)

declare parse_zip64_extra.simps [simp del]

text \<open>One entry of the central directory at \<open>offset\<close>, and where it ends.\<close>

definition central_sizes ::
    "byte list \<Rightarrow> nat \<times> nat \<times> nat \<Rightarrow> (nat \<times> nat \<times> nat) result" where
  "central_sizes extra sizes =
     (case sizes of (compressed_size, uncompressed_size, local_header_offset) \<Rightarrow>
     let need_compressed = compressed_size = u32_max;
         need_uncompressed = uncompressed_size = u32_max;
         need_offset = local_header_offset = u32_max
     in if need_compressed \<or> need_uncompressed \<or> need_offset
        then rbind (parse_zip64_extra extra need_compressed need_uncompressed need_offset 0)
               (\<lambda>(uncompressed, compressed, offset).
             Inr (if need_compressed then compressed else compressed_size,
                  if need_uncompressed then uncompressed else uncompressed_size,
                  if need_offset then offset else local_header_offset))
        else Inr sizes)"

definition central_entry :: "byte list \<Rightarrow> nat \<Rightarrow> nat \<Rightarrow> (zip_entry_index \<times> nat) result" where
  "central_entry bytes source_length offset =
     rbind (if length bytes - offset < 46 then Inr False
            else map_sum id (\<lambda>signature. signature = 0x02014b50) (read_u32 bytes offset)) (\<lambda>header.
     if \<not> header
     then Inl (new_error ParseFailed ''XLSX central directory contains an invalid entry'')
     else
     rbind (read_u16 bytes (offset + 8)) (\<lambda>flags.
     rbind (read_u16 bytes (offset + 10)) (\<lambda>method.
     rbind (read_u32 bytes (offset + 16)) (\<lambda>crc.
     rbind (read_u32 bytes (offset + 20)) (\<lambda>compressed_size.
     rbind (read_u32 bytes (offset + 24)) (\<lambda>uncompressed_size.
     rbind (read_u16 bytes (offset + 28)) (\<lambda>name_length.
     rbind (read_u16 bytes (offset + 30)) (\<lambda>extra_length.
     rbind (read_u16 bytes (offset + 32)) (\<lambda>comment_length.
     rbind (read_u32 bytes (offset + 42)) (\<lambda>local_header_offset.
     rbind (ok_or (checked_add offset 46) zip_overflow) (\<lambda>name_start.
     rbind (ok_or (checked_add name_start name_length) zip_overflow) (\<lambda>name_end.
     rbind (ok_or (checked_add name_end extra_length) zip_overflow) (\<lambda>extra_end.
     rbind (ok_or (checked_add extra_end comment_length) zip_overflow) (\<lambda>stop.
     if stop > length bytes
     then Inl (new_error ParseFailed ''XLSX central directory entry is truncated'')
     else
     (let raw_name = take name_length (drop name_start bytes);
          name = string_of_bytes raw_name
      in
     if \<not> utf8_valid raw_name
     then Inl (new_error UnsupportedFeature ''XLSX ZIP entry names must be UTF-8'')
     else
     rbind (validate_zip_path name) (\<lambda>_.
     if (word_of_nat flags :: 16 word) AND 0x0001 \<noteq> 0
     then Inl (with_detail (new_error UnsupportedFeature ''encrypted XLSX ZIP entries are unsupported'')
            ''entry'' (DetailString name))
     else if method \<noteq> 0 \<and> method \<noteq> 8
     then Inl (with_detail (with_detail
            (new_error UnsupportedFeature ''XLSX ZIP compression method is unsupported'')
            ''entry'' (DetailString name))
            ''method'' (DetailNumber method))
     else
     rbind (central_sizes (take extra_length (drop name_end bytes))
              (compressed_size, uncompressed_size, local_header_offset))
       (\<lambda>(compressed_size, uncompressed_size, local_header_offset).
     if compressed_size > max_compressed_entry_bytes \<or> uncompressed_size > max_expanded_entry_bytes
     then Inl (with_detail (with_detail (with_detail
            (new_error ResourceLimit ''XLSX ZIP entry exceeds the configured bound'')
            ''entry'' (DetailString name))
            ''compressedBytes'' (DetailNumber compressed_size))
            ''expandedBytes'' (DetailNumber uncompressed_size))
     else
     rbind (host_range_new local_header_offset 30 source_length) (\<lambda>_.
     Inr (\<lparr>ze_name = name, ze_flags = word_of_nat flags, ze_method = method, ze_crc32 = word_of_nat crc,
           ze_compressed_size = compressed_size, ze_uncompressed_size = uncompressed_size,
           ze_local_header_offset = local_header_offset\<rparr>, stop)))))))))))))))))))"

lemma central_entry_advances: "central_entry bytes source_length offset = Inr (entry, stop) \<Longrightarrow> offset < stop"
  by (auto simp: central_entry_def Let_def split: if_splits prod.splits)

function central_entries ::
    "byte list \<Rightarrow> nat \<Rightarrow> nat \<Rightarrow> zip_directory_index \<Rightarrow> zip_directory_index result" where
  "central_entries bytes source_length offset entries =
     (if offset < length bytes
      then
        case central_entry bytes source_length offset of
          Inl e \<Rightarrow> Inl e
        | Inr (entry, stop) \<Rightarrow>
            if map_of entries (ze_name entry) \<noteq> None
            then Inl (with_detail (new_error ParseFailed ''XLSX ZIP contains a duplicate entry'')
                   ''entry'' (DetailString (ze_name entry)))
            else central_entries bytes source_length stop (entries @ [(ze_name entry, entry)])
      else Inr entries)"
  by pat_completeness auto
termination
  by (relation "measure (\<lambda>(bytes, n, offset, entries). length bytes - offset)")
    (auto dest!: central_entry_advances)

declare central_entries.simps [simp del]

definition parse_central_directory :: "byte list \<Rightarrow> nat \<Rightarrow> nat \<Rightarrow> zip_directory_index result" where
  "parse_central_directory bytes expected_entries source_length =
     rbind (central_entries bytes source_length 0 []) (\<lambda>entries.
     if length entries \<noteq> expected_entries
     then Inl (with_detail (with_detail
            (new_error ParseFailed ''XLSX central directory count does not match its end record'')
            ''expectedEntries'' (DetailNumber expected_entries))
            ''actualEntries'' (DetailNumber (length entries)))
     else Inr entries)"

end
