(* ===== verification/Zip_Package.thy ===== *)
theory Zip_Package
  imports Zip_Index
begin

text \<open>
  crates/tabulark-excel-wasm/src/range.rs: raw entries of a package, where their data lie in
  the source, and the compact package that is built from them for the selected worksheet.
\<close>

section \<open>Raw entries\<close>

record raw_zip_entry =
  rz_index :: zip_entry_index
  rz_compressed :: "byte list"

definition raw_entry_name :: "raw_zip_entry \<Rightarrow> string" where
  "raw_entry_name e = ze_name (rz_index e)"

definition entry_header_range :: "zip_entry_index \<Rightarrow> nat \<Rightarrow> host_range result" where
  "entry_header_range index source_length = host_range_new (ze_local_header_offset index) 30 source_length"

definition entry_data_range :: "zip_entry_index \<Rightarrow> byte list \<Rightarrow> nat \<Rightarrow> host_range result" where
  "entry_data_range index local_header source_length =
     rbind (if length local_header \<noteq> 30 then Inr False
            else map_sum id (\<lambda>signature. signature = 0x04034b50) (read_u32 local_header 0)) (\<lambda>header.
     if \<not> header
     then Inl (with_detail (new_error ParseFailed ''XLSX local file header is invalid'')
            ''entry'' (DetailString (ze_name index)))
     else
     rbind (read_u16 local_header 6) (\<lambda>flags.
     rbind (read_u16 local_header 8) (\<lambda>method.
     if (word_of_nat flags :: 16 word) AND 1 \<noteq> 0 \<or> method \<noteq> ze_method index
     then Inl (with_detail (new_error ParseFailed ''XLSX local header does not match its central entry'')
            ''entry'' (DetailString (ze_name index)))
     else
     rbind (read_u16 local_header 26) (\<lambda>name_length.
     rbind (read_u16 local_header 28) (\<lambda>extra_length.
     rbind (ok_or (Option.bind (checked_add (ze_local_header_offset index) 30) (\<lambda>v.
              Option.bind (checked_add v name_length) (\<lambda>v. checked_add v extra_length))) zip_overflow)
       (\<lambda>data_offset.
     host_range_new data_offset (ze_compressed_size index) source_length))))))"

definition raw_entry_new :: "zip_entry_index \<Rightarrow> byte list \<Rightarrow> raw_zip_entry result" where
  "raw_entry_new index compressed =
     rbind (ok_or (u64_try_from (length compressed))
       (new_error ResourceLimit ''XLSX entry length exceeds u64'')) (\<lambda>actual.
     if actual \<noteq> ze_compressed_size index
     then Inl (new_error ParseFailed
            ''XLSX compressed entry length does not match its directory entry'')
     else Inr \<lparr>rz_index = index, rz_compressed = compressed\<rparr>)"

section \<open>Writing a package\<close>

definition u16_try_from :: "nat \<Rightarrow> nat option" where
  "u16_try_from n = (if n \<le> u16_max then Some n else None)"

definition crc32_bit :: "32 word \<Rightarrow> 32 word" where
  "crc32_bit value = (if value AND 1 = 0 then drop_bit 1 value else drop_bit 1 value XOR 0xedb88320)"

definition crc32 :: "byte list \<Rightarrow> 32 word" where
  "crc32 bytes = NOT (fold (\<lambda>b value. (crc32_bit ^^ 8) (value XOR ucast b)) bytes (- 1))"

record zip_central =
  zc_name :: "byte list"
  zc_flags :: "16 word"
  zc_method :: nat
  zc_crc32 :: "32 word"
  zc_compressed_size :: nat
  zc_uncompressed_size :: nat
  zc_local_offset :: nat

definition local_header_bytes :: "zip_central \<Rightarrow> byte list" where
  "local_header_bytes c =
     le_bytes 4 0x04034b50 @ le_bytes 2 20 @ le_bytes 2 (unat (zc_flags c)) @ le_bytes 2 (zc_method c) @
     le_bytes 2 0 @ le_bytes 2 0 @ le_bytes 4 (unat (zc_crc32 c)) @ le_bytes 4 (zc_compressed_size c) @
     le_bytes 4 (zc_uncompressed_size c) @ le_bytes 2 (length (zc_name c)) @ le_bytes 2 0"

type_synonym zip_output = "byte list \<times> zip_central list"

definition append_zip_entry ::
    "zip_output \<Rightarrow> string \<Rightarrow> 16 word \<Rightarrow> nat \<Rightarrow> 32 word \<Rightarrow> byte list \<Rightarrow> nat \<Rightarrow> zip_output result" where
  "append_zip_entry out name flags method crc compressed uncompressed_size =
     (case out of (written, central) \<Rightarrow>
     let name = bytes_of_string name in
     rbind (ok_or (u16_try_from (length name))
       (new_error ResourceLimit ''XLSX ZIP entry name is too long'')) (\<lambda>name_length.
     rbind (ok_or (u32_try_from (length compressed))
       (new_error ResourceLimit ''compact XLSX entry exceeds ZIP32'')) (\<lambda>compressed_size.
     rbind (ok_or (u32_try_from uncompressed_size)
       (new_error ResourceLimit ''compact XLSX entry exceeds ZIP32'')) (\<lambda>uncompressed_size.
     rbind (ok_or (u32_try_from (length written))
       (new_error ResourceLimit ''compact XLSX exceeds ZIP32'')) (\<lambda>local_offset.
     let c = \<lparr>zc_name = name, zc_flags = flags AND NOT 0x0008, zc_method = method, zc_crc32 = crc,
              zc_compressed_size = compressed_size, zc_uncompressed_size = uncompressed_size,
              zc_local_offset = local_offset\<rparr>
     in Inr (written @ local_header_bytes c @ name @ compressed, central @ [c]))))))"

definition append_raw_entry :: "zip_output \<Rightarrow> raw_zip_entry \<Rightarrow> zip_output result" where
  "append_raw_entry out e =
     append_zip_entry out (ze_name (rz_index e)) (ze_flags (rz_index e)) (ze_method (rz_index e))
       (ze_crc32 (rz_index e)) (rz_compressed e) (ze_uncompressed_size (rz_index e))"

definition append_placeholder :: "zip_output \<Rightarrow> string \<times> byte list \<Rightarrow> zip_output result" where
  "append_placeholder out placeholder =
     (case placeholder of (name, bytes) \<Rightarrow>
       append_zip_entry out name 0x0800 0 (crc32 bytes) bytes (length bytes))"

definition central_record :: "zip_central \<Rightarrow> byte list result" where
  "central_record c =
     rbind (ok_or (u16_try_from (length (zc_name c))) zip_overflow) (\<lambda>name_length.
     Inr (le_bytes 4 0x02014b50 @ le_bytes 2 20 @ le_bytes 2 20 @ le_bytes 2 (unat (zc_flags c)) @
       le_bytes 2 (zc_method c) @ le_bytes 2 0 @ le_bytes 2 0 @ le_bytes 4 (unat (zc_crc32 c)) @
       le_bytes 4 (zc_compressed_size c) @ le_bytes 4 (zc_uncompressed_size c) @ le_bytes 2 name_length @
       le_bytes 2 0 @ le_bytes 2 0 @ le_bytes 2 0 @ le_bytes 2 0 @ le_bytes 4 0 @
       le_bytes 4 (zc_local_offset c) @ zc_name c))"

definition end_record :: "nat \<Rightarrow> nat \<Rightarrow> nat \<Rightarrow> byte list" where
  "end_record count central_size central_offset =
     le_bytes 4 0x06054b50 @ le_bytes 2 0 @ le_bytes 2 0 @ le_bytes 2 count @ le_bytes 2 count @
     le_bytes 4 central_size @ le_bytes 4 central_offset @ le_bytes 2 0"

definition build_raw_zip :: "raw_zip_entry list \<Rightarrow> (string \<times> byte list) list \<Rightarrow> byte list result" where
  "build_raw_zip entries placeholders =
     rbind (rfold append_raw_entry ([], []) entries) (\<lambda>out.
     rbind (rfold append_placeholder out placeholders) (\<lambda>(written, central).
     rbind (ok_or (u32_try_from (length written))
       (new_error ResourceLimit ''compact XLSX exceeds ZIP32'')) (\<lambda>central_offset.
     rbind (rfold (\<lambda>written c. map_sum id (\<lambda>r. written @ r) (central_record c)) written central) (\<lambda>written.
     rbind (ok_or (Option.bind (u32_try_from (length written)) (\<lambda>stop. checked_sub stop central_offset))
       zip_overflow) (\<lambda>central_size.
     rbind (ok_or (u16_try_from (length central))
       (new_error ResourceLimit ''compact XLSX has too many entries'')) (\<lambda>count.
     Inr (written @ end_record count central_size central_offset)))))))"

section \<open>Worksheets\<close>

datatype sheet_visibility = SheetVisible | SheetHidden | SheetVeryHidden

record range_sheet_descriptor =
  rs_id :: string
  rs_name :: string
  rs_visibility :: sheet_visibility
  rs_path :: string

definition empty_worksheet :: string where
  \<open>empty_worksheet =
     ''<?xml version="1.0" encoding="UTF-8" standalone="yes"?>'' @
     ''<worksheet xmlns="http://schemas.openxmlformats.org/spreadsheetml/2006/main">'' @
     ''<sheetData/></worksheet>''\<close>

definition build_compact_xlsx ::
    "raw_zip_entry list \<Rightarrow> range_sheet_descriptor list \<Rightarrow> string \<Rightarrow> byte list result" where
  "build_compact_xlsx entries sheets selected_path =
     build_raw_zip entries
       (map (\<lambda>sheet. (rs_path sheet, bytes_of_string empty_worksheet))
         (filter (\<lambda>sheet. rs_path sheet \<noteq> selected_path) sheets))"

text \<open>
  The \<open>zip\<close> crate opens the package of one entry and inflates it: the parameter \<open>unzip\<close>
  answers the bytes, or whether opening or inflating failed, with the text of the error.
\<close>

datatype unzip_error = OpenFailed string | InflateFailed string

definition raw_entry_decode ::
    "(byte list \<Rightarrow> unzip_error + byte list) \<Rightarrow> raw_zip_entry \<Rightarrow> byte list result" where
  "raw_entry_decode unzip e =
     rbind (build_raw_zip [e] []) (\<lambda>archive.
     case unzip archive of
       Inl (OpenFailed reason) \<Rightarrow>
         Inl (with_detail (new_error ParseFailed ''failed to read compact XLSX ZIP entry'')
           ''reason'' (DetailString reason))
     | Inl (InflateFailed reason) \<Rightarrow>
         Inl (with_detail (with_detail (new_error ParseFailed ''failed to inflate XLSX ZIP entry'')
           ''entry'' (DetailString (ze_name (rz_index e))))
           ''reason'' (DetailString reason))
     | Inr bytes \<Rightarrow>
         rbind (ok_or (u64_try_from (length bytes))
           (new_error ResourceLimit ''expanded XLSX entry exceeds u64'')) (\<lambda>actual.
         if actual \<noteq> ze_uncompressed_size (rz_index e)
         then Inl (with_detail (new_error ParseFailed ''expanded XLSX entry length is invalid'')
                ''entry'' (DetailString (ze_name (rz_index e))))
         else Inr bytes))"

end
