(* ===== verification/Range_Store.thy ===== *)
theory Range_Store
  imports Indexed_Ranges
begin

text \<open>
  What the indexed ranges promise, as a locale over an abstract store of bytes, and the
  proof that the segments of \<open>Indexed_Ranges\<close> keep the promise. The client lemmas of the
  locale carry the fetching loops: delivering the first gap of a query is always accepted
  and always makes progress.
\<close>

section \<open>The interface\<close>

text \<open>
  Ranges and gaps of a partial content \<open>f\<close>: \<open>g\<close> is the first maximal gap of \<open>r\<close> from
  \<open>position\<close> on.
\<close>

definition range_in :: "nat \<Rightarrow> host_range \<Rightarrow> bool" where
  "range_in source_length r \<longleftrightarrow> 0 < hr_length r \<and> hr_end r \<le> source_length"

definition in_range :: "host_range \<Rightarrow> nat \<Rightarrow> bool" where
  "in_range r p \<longleftrightarrow> hr_offset r \<le> p \<and> p < hr_end r"

definition free_for :: "host_range \<Rightarrow> (nat \<Rightarrow> byte option) \<Rightarrow> bool" where
  "free_for r f \<longleftrightarrow> (\<forall>p. in_range r p \<longrightarrow> f p = None)"

definition gap_from :: "(nat \<Rightarrow> byte option) \<Rightarrow> host_range \<Rightarrow> nat \<Rightarrow> host_range \<Rightarrow> bool" where
  "gap_from f r position g \<longleftrightarrow>
     range_in (hr_end r) g \<and> position \<le> hr_offset g \<and> free_for g f \<and>
     (\<forall>p. position \<le> p \<and> p < hr_offset g \<longrightarrow> f p \<noteq> None) \<and>
     (hr_end g = hr_end r \<or> f (hr_end g) \<noteq> None)"

definition with_slice :: "nat \<Rightarrow> byte list \<Rightarrow> (nat \<Rightarrow> byte option) \<Rightarrow> nat \<Rightarrow> byte option" where
  "with_slice offset bytes f p =
     (if offset \<le> p \<and> p < offset + length bytes then Some (bytes ! (p - offset)) else f p)"

text \<open>The content agrees with a source, and how much of the source it lacks.\<close>

definition slice_at :: "byte list \<Rightarrow> host_range \<Rightarrow> byte list" where
  "slice_at source r = take (hr_length r) (drop (hr_offset r) source)"

definition agrees :: "byte list \<Rightarrow> (nat \<Rightarrow> byte option) \<Rightarrow> bool" where
  "agrees source f \<longleftrightarrow> (\<forall>p v. f p = Some v \<longrightarrow> p < length source \<and> v = source ! p)"

definition unread :: "nat \<Rightarrow> (nat \<Rightarrow> byte option) \<Rightarrow> nat" where
  "unread n f = card {p. p < n \<and> f p = None}"

lemma length_slice_at [simp]: "range_in (length source) r \<Longrightarrow> length (slice_at source r) = hr_length r"
  by (auto simp: slice_at_def range_in_def hr_end_def)

lemma nth_slice_at: "range_in (length source) r \<Longrightarrow> i < hr_length r \<Longrightarrow> slice_at source r ! i = source ! (hr_offset r + i)"
  by (simp add: slice_at_def range_in_def hr_end_def)

lemma agrees_with_slice:
  assumes "agrees source f" and "range_in (length source) r"
  shows "agrees source (with_slice (hr_offset r) (slice_at source r) f)"
  unfolding agrees_def
proof (intro allI impI)
  fix p v assume at: "with_slice (hr_offset r) (slice_at source r) f p = Some v"
  show "p < length source \<and> v = source ! p"
  proof (cases "hr_offset r \<le> p \<and> p < hr_end r")
    case True
    then have "v = slice_at source r ! (p - hr_offset r)" "p - hr_offset r < hr_length r"
      using at assms(2) by (auto simp: with_slice_def hr_end_def)
    then show ?thesis using True assms(2) nth_slice_at [OF assms(2)] by (simp add: range_in_def)
  next
    case False
    then have "f p = Some v" using at assms(2) by (simp add: with_slice_def hr_end_def split: if_splits)
    then show ?thesis using assms(1) by (simp add: agrees_def)
  qed
qed

lemma unread_with_slice:
  assumes "range_in n r" and "free_for r f" and "length bytes = hr_length r"
  shows "unread n (with_slice (hr_offset r) bytes f) < unread n f"
proof -
  have "{p. p < n \<and> with_slice (hr_offset r) bytes f p = None} \<subset> {p. p < n \<and> f p = None}"
  proof (rule psubsetI)
    show "{p. p < n \<and> with_slice (hr_offset r) bytes f p = None} \<subseteq> {p. p < n \<and> f p = None}"
      by (rule Collect_mono) (simp add: with_slice_def split: if_splits)
    have "hr_offset r < n" "f (hr_offset r) = None"
      using assms(1,2) by (auto simp: range_in_def free_for_def in_range_def hr_end_def)
    moreover have "with_slice (hr_offset r) bytes f (hr_offset r) \<noteq> None"
      using assms(1,3) by (simp add: with_slice_def range_in_def)
    ultimately show "{p. p < n \<and> with_slice (hr_offset r) bytes f p = None} \<noteq> {p. p < n \<and> f p = None}"
      by (metis (mono_tags, lifting) mem_Collect_eq)
  qed
  then show ?thesis unfolding unread_def by (rule psubset_card_mono [rotated]) simp
qed

text \<open>
  What a reader relies on: a query is answered when all its bytes are there, its first gap
  is found otherwise, and a gap can be filled.
\<close>

locale byte_store =
  fixes valid :: "'s \<Rightarrow> bool" and extent :: "'s \<Rightarrow> nat" and content :: "'s \<Rightarrow> nat \<Rightarrow> byte option"
    and lookup :: "'s \<Rightarrow> host_range \<Rightarrow> byte list option"
    and missing :: "'s \<Rightarrow> host_range \<Rightarrow> host_range option result"
    and store :: "host_range \<Rightarrow> byte list \<Rightarrow> ('s, tabulark_error, unit) prog"
  assumes lookup_iff: "valid s \<Longrightarrow> range_in (extent s) r \<Longrightarrow> lookup s r = Some bytes \<longleftrightarrow>
      length bytes = hr_length r \<and> (\<forall>i < hr_length r. content s (hr_offset r + i) = Some (bytes ! i))"
    and missing_gap: "valid s \<Longrightarrow> range_in (extent s) r \<Longrightarrow>
      missing s r = Inr None \<and> (\<forall>p. in_range r p \<longrightarrow> content s p \<noteq> None) \<or>
      (\<exists>g. missing s r = Inr (Some g) \<and> gap_from (content s) r (hr_offset r) g)"
    and store_free: "valid s \<Longrightarrow> range_in (extent s) r \<Longrightarrow> length bytes = hr_length r \<Longrightarrow>
      free_for r (content s) \<Longrightarrow> \<exists>t. store r bytes s = (Inr (), t) \<and> valid t \<and> extent t = extent s \<and>
        content t = with_slice (hr_offset r) bytes (content s)"
begin

definition holds :: "byte list \<Rightarrow> 's \<Rightarrow> bool" where
  "holds source s \<longleftrightarrow> valid s \<and> extent s = length source \<and> agrees source (content s)"

lemma lookup_slice:
  assumes "holds source s" and "range_in (length source) r" and "lookup s r = Some bytes"
  shows "bytes = slice_at source r"
proof (rule nth_equalityI)
  have at: "length bytes = hr_length r" "\<forall>i < hr_length r. content s (hr_offset r + i) = Some (bytes ! i)"
    using assms lookup_iff by (auto simp: holds_def)
  then show "length bytes = length (slice_at source r)" using assms(2) by simp
  fix i assume "i < length bytes"
  then show "bytes ! i = slice_at source r ! i"
    using at assms(1,2) by (auto simp: holds_def agrees_def nth_slice_at)
qed

lemma missing_None_iff:
  assumes "valid s" and "range_in (extent s) r"
  shows "missing s r = Inr None \<longleftrightarrow> lookup s r \<noteq> None"
proof -
  have pos: "0 < hr_length r" using assms(2) by (simp add: range_in_def)
  have all: "lookup s r \<noteq> None \<longleftrightarrow> (\<forall>p. in_range r p \<longrightarrow> content s p \<noteq> None)"
  proof
    assume "lookup s r \<noteq> None"
    then obtain bytes where at: "\<forall>i < hr_length r. content s (hr_offset r + i) = Some (bytes ! i)"
      using lookup_iff [OF assms] by blast
    show "\<forall>p. in_range r p \<longrightarrow> content s p \<noteq> None"
    proof (intro allI impI)
      fix p assume "in_range r p"
      then have "p - hr_offset r < hr_length r" "hr_offset r + (p - hr_offset r) = p"
        by (auto simp: in_range_def hr_end_def)
      then show "content s p \<noteq> None" using at by fastforce
    qed
  next
    assume at: "\<forall>p. in_range r p \<longrightarrow> content s p \<noteq> None"
    let ?bytes = "map (\<lambda>i. the (content s (hr_offset r + i))) [0..<hr_length r]"
    have "lookup s r = Some ?bytes"
      unfolding lookup_iff [OF assms] using at by (auto simp: in_range_def hr_end_def)
    then show "lookup s r \<noteq> None" by simp
  qed
  have "\<not> free_for g (content s)" if "\<forall>p. in_range r p \<longrightarrow> content s p \<noteq> None" "gap_from (content s) r (hr_offset r) g" for g
    using that by (auto simp: gap_from_def range_in_def free_for_def in_range_def hr_end_def
        dest!: spec [of _ "hr_offset g"])
  then show ?thesis unfolding all using missing_gap [OF assms] by (auto simp: gap_from_def)
qed

text \<open>Delivering a free range of the source is accepted and makes progress.\<close>

lemma deliver_free:
  assumes "holds source s" and "range_in (length source) g" and "free_for g (content s)"
  shows "\<exists>t. store g (slice_at source g) s = (Inr (), t) \<and> holds source t \<and>
    unread (length source) (content t) < unread (length source) (content s)"
proof -
  obtain t where "store g (slice_at source g) s = (Inr (), t)" "valid t" "extent t = extent s"
      "content t = with_slice (hr_offset g) (slice_at source g) (content s)"
    using store_free [of s g "slice_at source g"] assms by (auto simp: holds_def)
  then show ?thesis
    using assms agrees_with_slice unread_with_slice [of "length source" g] by (auto simp: holds_def)
qed

lemma deliver_missing:
  assumes "holds source s" and "range_in (length source) r" and "missing s r = Inr (Some g)"
  shows "range_in (length source) g \<and> (\<exists>t. store g (slice_at source g) s = (Inr (), t) \<and> holds source t \<and>
    unread (length source) (content t) < unread (length source) (content s))"
proof -
  have "gap_from (content s) r (hr_offset r) g"
    using missing_gap [of s r] assms by (auto simp: holds_def)
  then have "range_in (length source) g" "free_for g (content s)"
    using assms(2) by (auto simp: gap_from_def range_in_def)
  then show ?thesis using deliver_free [OF assms(1)] by blast
qed

lemma missing_cases:
  assumes "holds source s" and "range_in (length source) r"
  obtains (there) "lookup s r = Some (slice_at source r)"
    | (gap) g where "lookup s r = None" and "missing s r = Inr (Some g)"
proof (cases "lookup s r")
  case None
  then have "missing s r \<noteq> Inr None" using missing_None_iff [of s r] assms by (simp add: holds_def)
  then obtain g where "missing s r = Inr (Some g)"
    using missing_gap [of s r] assms by (auto simp: holds_def)
  with None show thesis by (rule gap)
next
  case (Some bytes)
  then show thesis using there lookup_slice [OF assms] by simp
qed

end

section \<open>Segments\<close>

definition segments_ok :: "nat \<Rightarrow> byte list ordered_map \<Rightarrow> bool" where
  "segments_ok limit m \<longleftrightarrow> ordered m \<and>
     (\<forall>(s, b) \<in> set m. b \<noteq> [] \<and> s + length b \<le> limit) \<and>
     (\<forall>(s, b) \<in> set m. \<forall>(t, c) \<in> set m. s < t \<longrightarrow> s + length b < t)"

definition stored :: "byte list ordered_map \<Rightarrow> nat \<Rightarrow> byte option" where
  "stored m p =
     (case last_at_most p m of
        None \<Rightarrow> None
      | Some (s, b) \<Rightarrow> if p < s + length b then Some (b ! (p - s)) else None)"

definition covers :: "nat \<times> byte list \<Rightarrow> nat \<Rightarrow> bool" where
  "covers seg p \<longleftrightarrow> fst seg \<le> p \<and> p < fst seg + length (snd seg)"

lemma segments_okD:
  assumes "segments_ok limit m" and "(s, b) \<in> set m"
  shows "b \<noteq> []" and "s + length b \<le> limit"
    and "(t, c) \<in> set m \<Longrightarrow> s < t \<Longrightarrow> s + length b < t"
    and "(s, c) \<in> set m \<Longrightarrow> c = b"
proof -
  show "b \<noteq> []" "s + length b \<le> limit" using assms unfolding segments_ok_def by auto
  show "s + length b < t" if "(t, c) \<in> set m" "s < t"
    using assms that unfolding segments_ok_def by blast
  show "c = b" if "(s, c) \<in> set m"
    using assms that ordered_unique unfolding segments_ok_def by metis
qed

lemma segments_ordered [simp]: "segments_ok limit m \<Longrightarrow> ordered m"
  by (simp add: segments_ok_def)

lemma covering_unique:
  assumes "segments_ok limit m" and "(s, b) \<in> set m" "covers (s, b) p" and "(t, c) \<in> set m" "covers (t, c) p"
  shows "t = s \<and> c = b"
proof -
  have "t = s"
    using segments_okD(3) [OF assms(1,2,4)] segments_okD(3) [OF assms(1,4,2)] assms(3,5)
    by (force simp: covers_def)
  with segments_okD(4) [OF assms(1,2)] assms(4) show ?thesis by blast
qed

lemma last_at_most_covering:
  assumes "segments_ok limit m" and "(s, b) \<in> set m" and "covers (s, b) p"
  shows "last_at_most p m = Some (s, b)"
proof -
  have "t \<le> s" if "(t, c) \<in> set m" "t \<le> p" for t c
    using segments_okD(3) [OF assms(1,2) that(1)] assms(3) that(2) by (force simp: covers_def)
  with assms show ?thesis by (auto simp: last_at_most_Some covers_def)
qed

lemma stored_iff:
  assumes "segments_ok limit m"
  shows "stored m p = Some v \<longleftrightarrow> (\<exists>s b. (s, b) \<in> set m \<and> covers (s, b) p \<and> v = b ! (p - s))"
proof
  assume "stored m p = Some v"
  then show "\<exists>s b. (s, b) \<in> set m \<and> covers (s, b) p \<and> v = b ! (p - s)"
    using assms
    by (auto simp: stored_def covers_def last_at_most_Some split: option.splits prod.splits if_splits)
next
  assume "\<exists>s b. (s, b) \<in> set m \<and> covers (s, b) p \<and> v = b ! (p - s)"
  then show "stored m p = Some v"
    using last_at_most_covering [OF assms] by (auto simp: stored_def covers_def)
qed

lemma stored_None_iff:
  assumes "segments_ok limit m"
  shows "stored m p = None \<longleftrightarrow> (\<forall>seg \<in> set m. \<not> covers seg p)"
  using stored_iff [OF assms, of p] by (auto simp: not_Some_eq [symmetric] simp del: not_Some_eq)

lemma stored_below: "segments_ok limit m \<Longrightarrow> stored m p = Some v \<Longrightarrow> p < limit"
  by (auto simp: stored_iff covers_def dest: segments_okD(2))

definition total_length :: "byte list ordered_map \<Rightarrow> nat" where
  "total_length m = sum_list (map (\<lambda>p. length (snd p)) m)"

lemma total_length_set:
  assumes "ordered m"
  shows "total_length m = (\<Sum>p \<in> set m. length (snd p))"
  using ordered_distinct [OF assms] unfolding total_length_def
  by (simp add: sum_list_distinct_conv_sum_set distinct_map)

lemma total_length_card:
  assumes "segments_ok limit m"
  shows "total_length m = card {p. stored m p \<noteq> None}"
proof -
  have "{p. stored m p \<noteq> None} = (\<Union>seg \<in> set m. {fst seg..<fst seg + length (snd seg)})"
    by (simp add: set_eq_iff stored_None_iff [OF assms] covers_def)
  also have "card \<dots> = (\<Sum>seg \<in> set m. card {fst seg..<fst seg + length (snd seg)})"
  proof (rule card_UN_disjoint)
    show "\<forall>i \<in> set m. \<forall>j \<in> set m. i \<noteq> j \<longrightarrow>
        {fst i..<fst i + length (snd i)} \<inter> {fst j..<fst j + length (snd j)} = {}"
      using covering_unique [OF assms] by (fastforce simp: covers_def)
  qed auto
  finally show ?thesis using total_length_set assms by simp
qed

lemma total_length_bound: "segments_ok limit m \<Longrightarrow> total_length m \<le> limit"
  using stored_below card_mono [of "{..<limit}" "{p. stored m p \<noteq> None}"]
  by (fastforce simp: total_length_card)

section \<open>Merging\<close>

text \<open>
  A new segment takes the place of the one that ends where it starts and of the one that
  starts where it ends; either may be missing, which an empty \<open>front\<close> or \<open>rear\<close> stands for.
\<close>

definition merges :: "nat \<Rightarrow> byte list ordered_map \<Rightarrow> byte list ordered_map \<Rightarrow>
    nat \<Rightarrow> nat \<Rightarrow> byte list \<Rightarrow> byte list \<Rightarrow> byte list \<Rightarrow> bool" where
  "merges limit m m' start offset front bytes rear \<longleftrightarrow>
     segments_ok limit m \<and> ordered m' \<and> bytes \<noteq> [] \<and> offset + length bytes \<le> limit \<and>
     (\<forall>(s, b) \<in> set m. s + length b \<le> offset \<or> offset + length bytes \<le> s) \<and>
     start + length front = offset \<and>
     (front \<noteq> [] \<longrightarrow> (start, front) \<in> set m) \<and>
     (\<forall>(s, b) \<in> set m. s + length b = offset \<longrightarrow> s = start \<and> b = front) \<and>
     (rear \<noteq> [] \<longrightarrow> (offset + length bytes, rear) \<in> set m) \<and>
     (\<forall>b. (offset + length bytes, b) \<in> set m \<longrightarrow> b = rear) \<and>
     set m' = insert (start, front @ bytes @ rear)
       (set m - {(start, front)} - {(offset + length bytes, rear)})"

lemma mergesD:
  assumes "merges limit m m' start offset front bytes rear"
  shows "segments_ok limit m" and "ordered m'" and "bytes \<noteq> []" and "offset + length bytes \<le> limit"
    and "\<And>s b. (s, b) \<in> set m \<Longrightarrow> s + length b \<le> offset \<or> offset + length bytes \<le> s"
    and "start + length front = offset"
    and "front \<noteq> [] \<Longrightarrow> (start, front) \<in> set m"
    and "\<And>s b. (s, b) \<in> set m \<Longrightarrow> s + length b = offset \<Longrightarrow> s = start \<and> b = front"
    and "rear \<noteq> [] \<Longrightarrow> (offset + length bytes, rear) \<in> set m"
    and "\<And>b. (offset + length bytes, b) \<in> set m \<Longrightarrow> b = rear"
    and "set m' = insert (start, front @ bytes @ rear)
      (set m - {(start, front)} - {(offset + length bytes, rear)})"
  by (use assms in \<open>unfold merges_def, elim conjE\<close>; (assumption | blast))+

lemma other_segment:
  assumes M: "merges limit m m' start offset front bytes rear"
    and other: "(s, b) \<in> set m - {(start, front)} - {(offset + length bytes, rear)}"
  shows "s + length b < start \<or> offset + length bytes + length rear < s"
proof -
  let ?stop = "offset + length bytes"
  note before = mergesD(1) [OF M] and starts = mergesD(6) [OF M]
    and front = mergesD(7) [OF M] and front_all = mergesD(8) [OF M] and rear = mergesD(9) [OF M]
    and rear_all = mergesD(10) [OF M]
  have seg: "(s, b) \<in> set m" using other by simp
  have b: "b \<noteq> []" by (rule segments_okD(1) [OF before seg])
  from mergesD(5) [OF M seg] show ?thesis
  proof
    assume "s + length b \<le> offset"
    then have less: "s + length b < offset" using front_all [OF seg] other by fastforce
    show ?thesis
    proof (cases "front = []")
      case True
      then show ?thesis using less starts by simp
    next
      case False
      have "\<not> start < s" using segments_okD(3) [OF before front [OF False] seg] starts less by auto
      moreover have "s \<noteq> start" using segments_okD(4) [OF before front [OF False], of b] seg other by auto
      ultimately have "s < start" by simp
      then show ?thesis using segments_okD(3) [OF before seg front [OF False]] by simp
    qed
  next
    assume "?stop \<le> s"
    then have less: "?stop < s" using rear_all [of b] seg other by (cases "s = ?stop") auto
    then show ?thesis
      using segments_okD(3) [OF before rear seg] by (cases "rear = []") auto
  qed
qed

lemma merged_limit:
  assumes M: "merges limit m m' start offset front bytes rear"
  shows "offset + length bytes + length rear \<le> limit"
  using segments_okD(2) [OF mergesD(1) [OF M] mergesD(9) [OF M]] mergesD(4) [OF M]
  by (cases "rear = []") auto

lemma segments_merged:
  assumes M: "merges limit m m' start offset front bytes rear"
  shows "segments_ok limit m'"
proof -
  let ?stop = "offset + length bytes"
  note before = mergesD(1) [OF M] and starts = mergesD(6) [OF M] and merged = mergesD(11) [OF M]
  have "b \<noteq> [] \<and> s + length b \<le> limit" if "(s, b) \<in> set m'" for s b
    using that mergesD(3) [OF M] starts merged_limit [OF M] segments_okD(1,2) [OF before, of s b] by (auto simp: merged)
  moreover have "s + length b < t" if "(s, b) \<in> set m'" "(t, c) \<in> set m'" "s < t" for s b t c
  proof -
    have new: "start + length (front @ bytes @ rear) = ?stop + length rear" using starts by simp
    let ?N = "(start, front @ bytes @ rear)" and ?O = "set m - {(start, front)} - {(?stop, rear)}"
    have "(s, b) = ?N \<or> (s, b) \<in> ?O" "(t, c) = ?N \<or> (t, c) \<in> ?O" "\<not> ((s, b) = ?N \<and> (t, c) = ?N)"
      using that(1,2) unfolding merged by blast+ (use that(3) in simp)
    then consider "(s, b) = ?N" "(t, c) \<in> ?O" | "(t, c) = ?N" "(s, b) \<in> ?O" | "(s, b) \<in> set m" "(t, c) \<in> set m"
      by blast
    then show ?thesis
    proof cases
      case 1
      with other_segment [OF M 1(2)] that(3) new show ?thesis by auto
    next
      case 2
      with other_segment [OF M 2(2)] that(3) starts show ?thesis by auto
    next
      case 3
      with segments_okD(3) [OF before] that(3) show ?thesis by blast
    qed
  qed
  ultimately show ?thesis using mergesD(2) [OF M] by (auto simp: segments_ok_def)
qed

lemma covers_merged:
  assumes "start + length front = offset"
  shows "covers (start, front @ bytes @ rear) p \<longleftrightarrow>
    covers (start, front) p \<or> covers (offset, bytes) p \<or> covers (offset + length bytes, rear) p"
  using assms by (auto simp: covers_def)

lemma stored_merged:
  assumes M: "merges limit m m' start offset front bytes rear"
  shows "stored m' p =
    (if offset \<le> p \<and> p < offset + length bytes then Some (bytes ! (p - offset)) else stored m p)"
proof -
  let ?stop = "offset + length bytes"
  note before = mergesD(1) [OF M] and starts = mergesD(6) [OF M] and merged = mergesD(11) [OF M]
  note segments_merged = segments_merged [OF M] and covers_merged = covers_merged [OF starts]
  let ?new = "(start, front @ bytes @ rear)"
  have new: "?new \<in> set m'" by (simp add: merged)
  consider (bytes) "covers (offset, bytes) p" | (in_front) "covers (start, front) p" | (in_rear) "covers (?stop, rear) p"
    | (other) "\<not> covers ?new p" using covers_merged by blast
  then show ?thesis
  proof cases
    case bytes
    then have "stored m' p = Some ((front @ bytes @ rear) ! (p - start))"
      using stored_iff [OF segments_merged] new covers_merged by blast
    then show ?thesis using bytes starts by (auto simp: covers_def nth_append)
  next
    case in_front
    then have "front \<noteq> []" by (auto simp: covers_def)
    then have "stored m p = Some (front ! (p - start))"
      using stored_iff [OF before] in_front mergesD(7) [OF M] by blast
    moreover have "stored m' p = Some ((front @ bytes @ rear) ! (p - start))"
      using stored_iff [OF segments_merged] new in_front covers_merged by blast
    ultimately show ?thesis using in_front starts by (auto simp: covers_def nth_append)
  next
    case in_rear
    then have "rear \<noteq> []" by (auto simp: covers_def)
    then have "stored m p = Some (rear ! (p - ?stop))"
      using stored_iff [OF before] in_rear mergesD(9) [OF M] by blast
    moreover have "stored m' p = Some ((front @ bytes @ rear) ! (p - start))"
      using stored_iff [OF segments_merged] new in_rear covers_merged by blast
    ultimately show ?thesis using in_rear starts by (auto simp: covers_def nth_append)
  next
    case other
    then have "stored m' p = Some v \<longleftrightarrow> stored m p = Some v" for v
      using covers_merged by (auto simp: stored_iff [OF segments_merged] stored_iff [OF before] merged)
    then have "stored m' p = stored m p" by (metis option.exhaust)
    then show ?thesis using other covers_merged by (auto simp: covers_def)
  qed
qed

lemma total_merged:
  assumes M: "merges limit m m' start offset front bytes rear"
  shows "total_length m' = total_length m + length bytes"
proof -
  let ?stop = "offset + length bytes"
  note before = mergesD(1) [OF M]
  note segments_merged = segments_merged [OF M] and stored_merged = stored_merged [OF M]
  have "{p. stored m' p \<noteq> None} = {p. stored m p \<noteq> None} \<union> {offset..<?stop}"
    by (auto simp: stored_merged)
  moreover have "{p. stored m p \<noteq> None} \<inter> {offset..<?stop} = {}"
    using mergesD(5) [OF M] by (fastforce simp: stored_iff [OF before] covers_def)
  moreover have "finite {p. stored m p \<noteq> None}"
    by (rule finite_subset [of _ "{..<limit}"]) (use stored_below [OF before] in auto)
  ultimately show ?thesis
    by (simp add: total_length_card [OF before] total_length_card [OF segments_merged] card_Un_disjoint)
qed

section \<open>Inserting\<close>

definition index_inv :: "indexed_ranges \<Rightarrow> bool" where
  "index_inv x \<longleftrightarrow> ix_source_length x \<le> u64_max \<and>
     segments_ok (ix_source_length x) (ix_ranges x) \<and> ix_retained x = total_length (ix_ranges x)"

definition contents :: "indexed_ranges \<Rightarrow> nat \<Rightarrow> byte option" where
  "contents x = stored (ix_ranges x)"

lemma index_invD:
  assumes "index_inv x"
  shows "ix_source_length x \<le> u64_max" and "segments_ok (ix_source_length x) (ix_ranges x)"
    and "ix_retained x = total_length (ix_ranges x)" and "ordered (ix_ranges x)"
  using assms by (auto simp: index_inv_def)

lemma indexed_new_inv: "source_length \<le> u64_max \<Longrightarrow> index_inv (indexed_new source_length)"
  by (simp add: index_inv_def indexed_new_def segments_ok_def total_length_def)

lemma segment_end_fits [simp]:
  assumes "start + length b \<le> u64_max" shows "segment_end start b = Inr (start + length b)"
  using assms by (simp add: segment_end_def segment_length_def)

lemma indexed_segment_end:
  "index_inv x \<Longrightarrow> (s, b) \<in> set (ix_ranges x) \<Longrightarrow> segment_end s b = Inr (s + length b)"
  using index_invD(1) segments_okD(2) [OF index_invD(2)] by (metis le_trans segment_end_fits)

text \<open>The two neighbours the code looks at decide about all segments.\<close>

lemma free_segments:
  assumes "index_inv x" and "0 < hr_length r"
  shows "free_for r (contents x) \<longleftrightarrow>
    (\<forall>(s, b) \<in> set (ix_ranges x). s + length b \<le> hr_offset r \<or> hr_end r \<le> s)"
proof
  assume free: "free_for r (contents x)"
  have "s + length b \<le> hr_offset r \<or> hr_end r \<le> s" if seg: "(s, b) \<in> set (ix_ranges x)" for s b
  proof (rule ccontr)
    assume "\<not> (s + length b \<le> hr_offset r \<or> hr_end r \<le> s)"
    then have "covers (s, b) (max s (hr_offset r))" "in_range r (max s (hr_offset r))"
      using assms(2) segments_okD(1) [OF index_invD(2) [OF assms(1)] seg]
      by (auto simp: covers_def in_range_def hr_end_def)
    then show False
      using free seg stored_None_iff [OF index_invD(2) [OF assms(1)]] by (auto simp: free_for_def contents_def)
  qed
  then show "\<forall>(s, b) \<in> set (ix_ranges x). s + length b \<le> hr_offset r \<or> hr_end r \<le> s" by blast
next
  assume "\<forall>(s, b) \<in> set (ix_ranges x). s + length b \<le> hr_offset r \<or> hr_end r \<le> s"
  then show "free_for r (contents x)"
    by (fastforce simp: free_for_def contents_def stored_None_iff [OF index_invD(2) [OF assms(1)]]
        covers_def in_range_def)
qed

lemma already_indexed_free:
  assumes "index_inv x" and "0 < hr_length r" and "free_for r (contents x)"
  shows "already_indexed r bytes x = Inr False" and "check_following r x = Inr ()"
proof -
  note free = assms(3) [unfolded free_segments [OF assms(1,2)]]
  show "already_indexed r bytes x = Inr False"
  proof (cases "last_at_most (hr_offset r) (ix_ranges x)")
    case None
    then show ?thesis by (simp add: already_indexed_def)
  next
    case (Some p)
    obtain s b where p: "p = (s, b)" by force
    then have seg: "(s, b) \<in> set (ix_ranges x)" "s \<le> hr_offset r"
      using Some last_at_most_Some [OF index_invD(4) [OF assms(1)]] by fastforce+
    have "s + length b \<le> hr_offset r" using free seg assms(2) by (fastforce simp: hr_end_def)
    then show ?thesis
      by (simp add: already_indexed_def Some p indexed_segment_end [OF assms(1) seg(1)])
  qed
  show "check_following r x = Inr ()"
  proof (cases "first_from (hr_offset r) (ix_ranges x)")
    case None
    then show ?thesis by (simp add: check_following_def)
  next
    case (Some p)
    obtain s b where p: "p = (s, b)" by force
    then have seg: "(s, b) \<in> set (ix_ranges x)" "hr_offset r \<le> s"
      using first_from_Some [OF index_invD(4) [OF assms(1)] Some] by auto
    have "s + length b \<le> hr_offset r \<or> hr_end r \<le> s" using free seg(1) by fastforce
    then have "hr_end r \<le> s"
      using seg(2) segments_okD(1) [OF index_invD(2) [OF assms(1)] seg(1)] by (cases b) auto
    then show ?thesis by (simp add: check_following_def Some p)
  qed
qed

lemma not_free_refused:
  assumes "index_inv x" and "0 < hr_length r" and "\<not> free_for r (contents x)"
  shows "already_indexed r bytes x = Inl overlap_error \<or>
    already_indexed r bytes x = Inr True \<and> (hr_offset r, bytes) \<in> set (ix_ranges x) \<or>
    already_indexed r bytes x = Inr False \<and> check_following r x = Inl overlap_error"
proof -
  obtain s b where seg: "(s, b) \<in> set (ix_ranges x)" "hr_offset r < s + length b" "s < hr_end r"
    using assms(3) unfolding free_segments [OF assms(1,2)] by (force simp: not_le)
  note ok = index_invD(2) [OF assms(1)] and ord = index_invD(4) [OF assms(1)]
  show ?thesis
  proof (cases "s \<le> hr_offset r")
    case True
    then have "last_at_most (hr_offset r) (ix_ranges x) = Some (s, b)"
      using last_at_most_covering [OF ok seg(1)] seg(2) by (simp add: covers_def)
    then show ?thesis
      using seg by (auto simp: already_indexed_def indexed_segment_end [OF assms(1) seg(1)])
  next
    case False
    then have "check_following r x = Inl overlap_error"
      using first_from_Some [OF ord, of "hr_offset r"] first_from_None [of "hr_offset r" "ix_ranges x"] seg
      by (fastforce simp: check_following_def split: option.split)
    moreover have "already_indexed r bytes x = Inr False \<or> already_indexed r bytes x = Inl overlap_error \<or>
        already_indexed r bytes x = Inr True \<and> (hr_offset r, bytes) \<in> set (ix_ranges x)"
      using last_at_most_Some [OF ord] indexed_segment_end [OF assms(1)]
      by (auto simp: already_indexed_def split: option.split)
    ultimately show ?thesis by blast
  qed
qed

text \<open>The two merging steps, seen on the segments.\<close>

lemma merge_previous_run:
  assumes "index_inv x" and "hr_offset r \<le> ix_source_length x"
  shows "\<exists>start front. merge_previous (hr_offset r) bytes (x\<lparr>ix_retained := n\<rparr>) =
      (Inr (start, front @ bytes), x\<lparr>ix_retained := n,
        ix_ranges := (if front = [] then ix_ranges x else ordered_remove start (ix_ranges x))\<rparr>) \<and>
    start + length front = hr_offset r \<and> (front \<noteq> [] \<longrightarrow> (start, front) \<in> set (ix_ranges x)) \<and>
    (\<forall>s b. (s, b) \<in> set (ix_ranges x) \<longrightarrow> s + length b = hr_offset r \<longrightarrow> s = start \<and> b = front)"
proof -
  note ok = index_invD(2) [OF assms(1)] and ord = index_invD(4) [OF assms(1)]
  have front_key: "last_below (hr_offset r) (ix_ranges x) = Some (s, b)"
    if seg: "(s, b) \<in> set (ix_ranges x)" and ends: "s + length b = hr_offset r" for s b
  proof -
    have "b \<noteq> []" by (rule segments_okD(1) [OF ok seg])
    then have "s < hr_offset r" using ends by (cases b) auto
    moreover have "t \<le> s" if "(t, c) \<in> set (ix_ranges x)" "t < hr_offset r" for t c
      using segments_okD(3) [OF ok seg that(1)] ends that(2) by (cases "s < t") auto
    ultimately show ?thesis using seg by (auto simp: last_below_Some [OF ord])
  qed
  show ?thesis
  proof (cases "\<exists>s b. (s, b) \<in> set (ix_ranges x) \<and> s + length b = hr_offset r")
    case True
    then obtain s b where seg: "(s, b) \<in> set (ix_ranges x)" "s + length b = hr_offset r" by blast
    have b: "b \<noteq> []" "length b \<le> u64_max" "s + length b \<le> u64_max"
      using segments_okD(1,2) [OF ok seg(1)] index_invD(1) [OF assms(1)] by auto
    have "merge_previous (hr_offset r) bytes (x\<lparr>ix_retained := n\<rparr>) =
        (Inr (s, b @ bytes), x\<lparr>ix_retained := n,
          ix_ranges := (if b = [] then ix_ranges x else ordered_remove s (ix_ranges x))\<rparr>)"
      using b seg(2) front_key [OF seg] by (simp add: merge_previous_def prog_defs segment_length_def)
    moreover have "t = s \<and> c = b" if "(t, c) \<in> set (ix_ranges x)" "t + length c = hr_offset r" for t c
      using front_key [OF that] front_key [OF seg] by simp
    ultimately show ?thesis using seg by blast
  next
    case False
    have "merge_previous (hr_offset r) bytes (x\<lparr>ix_retained := n\<rparr>) = (Inr (hr_offset r, [] @ bytes), x\<lparr>ix_retained := n\<rparr>)"
    proof (cases "last_below (hr_offset r) (ix_ranges x)")
      case None
      then show ?thesis by (simp add: merge_previous_def prog_defs)
    next
      case (Some p)
      obtain s b where p: "p = (s, b)" by force
      then have seg: "(s, b) \<in> set (ix_ranges x)" using Some last_below_Some [OF ord] by blast
      then have "s + length b \<noteq> hr_offset r" "length b \<le> u64_max"
        using False segments_okD(2) [OF ok seg] index_invD(1) [OF assms(1)] by auto
      then show ?thesis by (simp add: merge_previous_def prog_defs Some p segment_length_def)
    qed
    with False show ?thesis by (intro exI [of _ "hr_offset r"] exI [of _ "[]"]) auto
  qed
qed

lemma insert_merges:
  assumes inv: "index_inv x" and inside: "range_in (ix_source_length x) r"
    and len: "length bytes = hr_length r" and free: "free_for r (contents x)"
    and starts: "start + length front = hr_offset r"
    and front: "front \<noteq> [] \<longrightarrow> (start, front) \<in> set (ix_ranges x)"
    and all: "\<forall>s b. (s, b) \<in> set (ix_ranges x) \<longrightarrow> s + length b = hr_offset r \<longrightarrow> s = start \<and> b = front"
  defines "m \<equiv> (if front = [] then ix_ranges x else ordered_remove start (ix_ranges x))"
  defines "rear \<equiv> (case map_of m (hr_end r) of None \<Rightarrow> [] | Some following \<Rightarrow> following)"
  shows "merges (ix_source_length x) (ix_ranges x)
    (ordered_insert start (front @ bytes @ rear) (ordered_remove (hr_end r) m)) start (hr_offset r) front bytes rear"
proof -
  note ok = index_invD(2) [OF inv]
  have pos: "0 < hr_length r" and stop: "hr_end r \<le> ix_source_length x" using inside by (auto simp: range_in_def)
  have stop_eq: "hr_offset r + length bytes = hr_end r" by (simp add: hr_end_def len)
  have m: "ordered m" "set m = set (ix_ranges x) - {(start, front)}"
    using index_invD(4) [OF inv] front segments_okD(1,4) [OF ok] by (auto simp: m_def set_ordered_remove)
  have rear: "(hr_end r, rear) \<in> set (ix_ranges x)" if "rear \<noteq> []"
  proof (cases "map_of m (hr_end r)")
    case None
    with that show ?thesis by (simp add: rear_def)
  next
    case (Some b)
    then have "(hr_end r, b) \<in> set m" by (simp only: ordered_lookup [OF m(1)])
    then show ?thesis using Some m(2) by (simp add: rear_def)
  qed
  have rear_all: "b = rear" if "(hr_end r, b) \<in> set (ix_ranges x)" for b
  proof -
    have "start < hr_end r" using starts pos by (simp add: hr_end_def)
    then show ?thesis using that ordered_lookup [OF m(1), of "hr_end r" b] by (simp add: rear_def m(2))
  qed
  have free_set: "\<forall>(s, b) \<in> set (ix_ranges x). s + length b \<le> hr_offset r \<or> hr_end r \<le> s"
    using free unfolding free_segments [OF inv pos] .
  have only_start: "b = front" if at: "(start, b) \<in> set (ix_ranges x)" for b
  proof (cases "front = []")
    case True
    have "b \<noteq> []" by (rule segments_okD(1) [OF ok at])
    then have "length b > 0" by simp
    moreover have "start + length b \<le> hr_offset r \<or> hr_end r \<le> start" using free_set at by fastforce
    ultimately show ?thesis using starts True pos by (simp add: hr_end_def)
  next
    case False
    then show ?thesis using segments_okD(4) [OF ok front [rule_format, OF False] at] by simp
  qed
  have others: "{p \<in> set m. fst p \<noteq> hr_end r \<and> fst p \<noteq> start} =
      set (ix_ranges x) - {(start, front)} - {(hr_end r, rear)}"
  proof (rule set_eqI)
    fix p :: "nat \<times> byte list"
    obtain s b where p: "p = (s, b)" by force
    show "p \<in> {p \<in> set m. fst p \<noteq> hr_end r \<and> fst p \<noteq> start} \<longleftrightarrow>
        p \<in> set (ix_ranges x) - {(start, front)} - {(hr_end r, rear)}"
      unfolding m(2) p using only_start [of b] rear_all [of b]
      by (cases "s = start"; cases "s = hr_end r") auto
  qed
  have set_new: "set (ordered_insert start (front @ bytes @ rear) (ordered_remove (hr_end r) m)) =
      insert (start, front @ bytes @ rear) (set (ix_ranges x) - {(start, front)} - {(hr_end r, rear)})"
    unfolding others [symmetric] by (simp only: set_ordered_insert set_ordered_remove mem_Collect_eq conj_assoc)
  show ?thesis
    unfolding merges_def stop_eq set_new
  proof (intro conjI)
    show "bytes \<noteq> []" using len pos by auto
    show "\<forall>(s, b) \<in> set (ix_ranges x). s + length b = hr_offset r \<longrightarrow> s = start \<and> b = front"
      using all by blast
    show "rear \<noteq> [] \<longrightarrow> (hr_end r, rear) \<in> set (ix_ranges x)" using rear by blast
    show "\<forall>b. (hr_end r, b) \<in> set (ix_ranges x) \<longrightarrow> b = rear" using rear_all by blast
  qed (use m(1) in \<open>simp_all add: ok stop starts front free_set\<close>)
qed

lemma indexed_insert_free:
  assumes inv: "index_inv x" and inside: "range_in (ix_source_length x) r"
    and len: "length bytes = hr_length r" and free: "free_for r (contents x)"
  shows "\<exists>y. indexed_insert r bytes x = (Inr (), y) \<and> index_inv y \<and>
    ix_source_length y = ix_source_length x \<and> contents y = with_slice (hr_offset r) bytes (contents x)"
proof -
  have pos: "0 < hr_length r" and stop: "hr_end r \<le> ix_source_length x" using inside by (auto simp: range_in_def)
  then have low: "hr_offset r \<le> ix_source_length x" and fits: "hr_end r \<le> u64_max"
    using index_invD(1) [OF inv] by (auto simp: hr_end_def)
  let ?charged = "ix_retained x + length bytes"
  obtain start front where previous: "merge_previous (hr_offset r) bytes (x\<lparr>ix_retained := ?charged\<rparr>) =
      (Inr (start, front @ bytes), x\<lparr>ix_retained := ?charged,
        ix_ranges := (if front = [] then ix_ranges x else ordered_remove start (ix_ranges x))\<rparr>)"
    and starts: "start + length front = hr_offset r"
    and front: "front \<noteq> [] \<longrightarrow> (start, front) \<in> set (ix_ranges x)"
    and all: "\<forall>s b. (s, b) \<in> set (ix_ranges x) \<longrightarrow> s + length b = hr_offset r \<longrightarrow> s = start \<and> b = front"
    using merge_previous_run [OF inv low, of bytes ?charged] by (elim exE conjE) (rule that)
  let ?m = "if front = [] then ix_ranges x else ordered_remove start (ix_ranges x)"
  let ?rear = "case map_of ?m (hr_end r) of None \<Rightarrow> [] | Some following \<Rightarrow> following"
  note merges = insert_merges [OF inv inside len free starts front all]
  let ?new = "ordered_insert start (front @ bytes @ ?rear) (ordered_remove (hr_end r) ?m)"
  have retained: "?charged \<le> u64_max"
    using total_length_bound [OF segments_merged [OF merges]] total_merged [OF merges]
      index_invD(1,3) [OF inv] by simp
  have merged_stop: "segment_end start (front @ bytes) = Inr (hr_end r)"
    using starts len fits by (simp add: hr_end_def segment_end_fits)
  have following: "(case map_of ?m (hr_end r) of None \<Rightarrow> front @ bytes | Some following \<Rightarrow> (front @ bytes) @ following) =
      front @ bytes @ ?rear"
    by (simp split: option.split)
  let ?y = "x\<lparr>ix_retained := ?charged, ix_ranges := ?new\<rparr>"
  have "indexed_insert r bytes x = (Inr (), ?y)"
    using retained fits stop len pos already_indexed_free [OF inv pos free] previous merged_stop following
    by (simp add: indexed_insert_def merge_following_def prog_defs hr_end_def not_less)
  moreover have "index_inv ?y"
    using segments_merged [OF merges] total_merged [OF merges] index_invD(1,3) [OF inv]
    by (simp add: index_inv_def)
  moreover have "contents ?y = with_slice (hr_offset r) bytes (contents x)"
    by (simp add: fun_eq_iff contents_def stored_merged [OF merges] with_slice_def)
  ultimately show ?thesis by (intro exI [of _ ?y]) simp
qed

text \<open>The four answers of an insertion.\<close>

definition store_refused :: "indexed_ranges \<Rightarrow> host_range \<Rightarrow> byte list \<Rightarrow> bool" where
  "store_refused x r bytes \<longleftrightarrow> hr_end r > ix_source_length x \<or> length bytes \<noteq> hr_length r"

lemma indexed_insert_refused:
  assumes "store_refused x r bytes" and "length bytes \<le> u64_max"
  shows "\<exists>e. indexed_insert r bytes x = (Inl e, x) \<and> err_code e = InvalidArgument"
  using assms by (auto simp: store_refused_def indexed_insert_def prog_defs)

lemma indexed_insert_taken:
  assumes inv: "index_inv x" and r: "0 < hr_length r" and fits: "\<not> store_refused x r bytes"
    and taken: "\<not> free_for r (contents x)"
  shows "indexed_insert r bytes x = (Inl overlap_error, x) \<or>
    indexed_insert r bytes x = (Inr (), x) \<and> (hr_offset r, bytes) \<in> set (ix_ranges x)"
proof -
  have "length bytes \<le> u64_max" using fits index_invD(1) [OF inv] by (simp add: store_refused_def hr_end_def)
  then show ?thesis
    using not_free_refused [OF inv r taken, of bytes] fits
    by (auto simp: store_refused_def indexed_insert_def prog_defs)
qed

lemma with_slice_known:
  assumes "index_inv x" and "(offset, bytes) \<in> set (ix_ranges x)"
  shows "with_slice offset bytes (contents x) = contents x"
proof
  fix p
  show "with_slice offset bytes (contents x) p = contents x p"
    using stored_iff [OF index_invD(2) [OF assms(1)], of p "bytes ! (p - offset)"] assms(2)
    by (auto simp: with_slice_def contents_def covers_def)
qed

section \<open>Looking up\<close>

lemma indexed_bytes_iff:
  assumes inv: "index_inv x" and r: "range_in (ix_source_length x) r"
  shows "indexed_bytes x r = Some bytes \<longleftrightarrow>
    length bytes = hr_length r \<and> (\<forall>i < hr_length r. contents x (hr_offset r + i) = Some (bytes ! i))"
    (is "_ \<longleftrightarrow> ?agrees")
proof -
  note ok = index_invD(2) [OF inv] and ord = index_invD(4) [OF inv]
  have pos: "0 < hr_length r" and fits: "hr_end r \<le> u64_max"
    using r index_invD(1) [OF inv] by (auto simp: range_in_def)
  show ?thesis
  proof
    assume "indexed_bytes x r = Some bytes"
    then obtain s b where last: "last_at_most (hr_offset r) (ix_ranges x) = Some (s, b)"
      and low: "s \<le> hr_offset r" and high: "hr_end r \<le> s + length b"
      and bytes: "bytes = take (hr_length r) (drop (hr_offset r - s) b)"
      by (auto simp: indexed_bytes_def hr_end_def bind_eq_Some_conv split: option.splits if_splits)
    have seg: "(s, b) \<in> set (ix_ranges x)" using last last_at_most_Some [OF ord] by blast
    have "contents x (hr_offset r + i) = Some (bytes ! i)" if "i < hr_length r" for i
    proof -
      have "covers (s, b) (hr_offset r + i)" using that low high by (simp add: covers_def hr_end_def)
      then have "contents x (hr_offset r + i) = Some (b ! (hr_offset r + i - s))"
        using stored_iff [OF ok] seg unfolding contents_def by blast
      then show ?thesis using that low high by (simp add: bytes hr_end_def)
    qed
    moreover have "length bytes = hr_length r" using low high by (simp add: bytes hr_end_def)
    ultimately show ?agrees by blast
  next
    assume agrees: ?agrees
    then have "contents x (hr_offset r) = Some (bytes ! 0)" using pos by force
    then obtain s b where seg: "(s, b) \<in> set (ix_ranges x)" and cover: "covers (s, b) (hr_offset r)"
      using stored_iff [OF ok] by (auto simp: contents_def)
    have last: "last_at_most (hr_offset r) (ix_ranges x) = Some (s, b)"
      by (rule last_at_most_covering [OF ok seg cover])
    have high: "hr_end r \<le> s + length b"
    proof (rule ccontr)
      assume "\<not> hr_end r \<le> s + length b"
      then have "contents x (s + length b) \<noteq> None"
        using agrees cover by (auto simp: covers_def hr_end_def dest!: spec [of _ "s + length b - hr_offset r"])
      then obtain t c where next_seg: "(t, c) \<in> set (ix_ranges x)" "covers (t, c) (s + length b)"
        using stored_iff [OF ok] by (auto simp: contents_def)
      show False
        using segments_okD(3) [OF ok seg next_seg(1)] segments_okD(3) [OF ok next_seg(1) seg]
          segments_okD(4) [OF ok seg, of c] next_seg cover
        by (cases t s rule: linorder_cases) (auto simp: covers_def)
    qed
    have "bytes = take (hr_length r) (drop (hr_offset r - s) b)"
    proof (rule nth_equalityI)
      show "length bytes = length (take (hr_length r) (drop (hr_offset r - s) b))"
        using agrees high cover by (auto simp: hr_end_def covers_def)
      fix i assume i: "i < length bytes"
      then have "covers (s, b) (hr_offset r + i)" using agrees high cover by (auto simp: hr_end_def covers_def)
      then have "contents x (hr_offset r + i) = Some (b ! (hr_offset r + i - s))"
        using stored_iff [OF ok] seg unfolding contents_def by blast
      then show "bytes ! i = take (hr_length r) (drop (hr_offset r - s) b) ! i"
        using i agrees high cover by (simp add: hr_end_def covers_def)
    qed
    then show "indexed_bytes x r = Some bytes"
      using last cover high fits by (auto simp: indexed_bytes_def covers_def hr_end_def)
  qed
qed

section \<open>The first gap\<close>

lemma gap_from_earlier:
  assumes "gap_from (contents x) r q g" and "position \<le> q"
    and "\<And>p. position \<le> p \<Longrightarrow> p < q \<Longrightarrow> contents x p \<noteq> None"
  shows "gap_from (contents x) r position g"
proof -
  have "contents x p \<noteq> None" if "position \<le> p" "p < hr_offset g" for p
    using that assms unfolding gap_from_def by (cases "p < q") auto
  with assms(1,2) show ?thesis by (simp add: gap_from_def)
qed

lemma gap_at_gap:
  assumes inv: "index_inv x" and r: "hr_end r \<le> ix_source_length x" "position < hr_end r"
    and open_at: "contents x position = None"
  shows "\<exists>g. gap_at x r position = Inr (Some g) \<and> gap_from (contents x) r position g"
proof -
  note ok = index_invD(2) [OF inv] and ord = index_invD(4) [OF inv]
  define stop where "stop = (case first_from position (ix_ranges x) of
    None \<Rightarrow> hr_end r | Some (following, _) \<Rightarrow> min following (hr_end r))"
  have not_here: "t \<noteq> position" if "(t, c) \<in> set (ix_ranges x)" for t c
  proof
    assume "t = position"
    then have "covers (t, c) position" using segments_okD(1) [OF ok that] by (auto simp: covers_def)
    then show False using open_at that stored_None_iff [OF ok] by (auto simp: contents_def)
  qed
  have after: "position < stop" "stop \<le> hr_end r"
    using first_from_Some [OF ord] r(2) not_here
    by (auto simp: stop_def less_le split: option.splits) blast+
  have free: "contents x p = None" if "position \<le> p" "p < stop" for p
  proof -
    have "\<not> covers (t, c) p" if seg: "(t, c) \<in> set (ix_ranges x)" for t c
    proof
      assume cover: "covers (t, c) p"
      have "position < t"
      proof (rule ccontr)
        assume "\<not> position < t"
        then have "covers (t, c) position" using cover \<open>position \<le> p\<close> by (simp add: covers_def)
        then show False using open_at seg stored_None_iff [OF ok] by (auto simp: contents_def)
      qed
      moreover have "stop \<le> t"
        using first_from_Some [OF ord] first_from_None [of position "ix_ranges x"] seg calculation
        by (fastforce simp: stop_def min_le_iff_disj split: option.split)
      ultimately show False using cover \<open>p < stop\<close> by (simp add: covers_def)
    qed
    then show ?thesis using stored_None_iff [OF ok] by (auto simp: contents_def)
  qed
  have edge: "stop = hr_end r \<or> contents x stop \<noteq> None"
  proof (cases "first_from position (ix_ranges x)")
    case None
    then show ?thesis by (simp add: stop_def)
  next
    case (Some p)
    obtain t c where p: "p = (t, c)" by force
    have seg: "(t, c) \<in> set (ix_ranges x)" using first_from_Some [OF ord Some] p by simp
    then have "contents x t \<noteq> None"
      using segments_okD(1) [OF ok seg] stored_None_iff [OF ok] by (force simp: contents_def covers_def)
    then show ?thesis by (auto simp: stop_def Some p min_def)
  qed
  let ?g = "\<lparr>hr_offset = position, hr_length = stop - position\<rparr>"
  have new: "host_range_new position (stop - position) (ix_source_length x) = Inr ?g"
    using after r index_invD(1) [OF inv] by (simp add: host_range_new_def)
  have "gap_at x r position = Inr (Some ?g)"
    using after(1) new unfolding gap_at_def stop_def [symmetric] Let_def by simp
  moreover have "gap_from (contents x) r position ?g"
    using after free edge by (auto simp: gap_from_def range_in_def free_for_def in_range_def hr_end_def)
  ultimately show ?thesis by blast
qed

lemma first_gap_cases:
  assumes "index_inv x" and "hr_end r \<le> ix_source_length x"
  shows "first_gap x r position = Inr None \<and> (\<forall>p. position \<le> p \<and> p < hr_end r \<longrightarrow> contents x p \<noteq> None) \<or>
    (\<exists>g. first_gap x r position = Inr (Some g) \<and> gap_from (contents x) r position g)"
  using assms
proof (induction x r position rule: first_gap.induct)
  case (1 x r position)
  note inv = 1(2) and ok = index_invD(2) [OF 1(2)] and ord = index_invD(4) [OF 1(2)]
  show ?case
  proof (cases "position < hr_end r")
    case False
    then show ?thesis by (subst (1 2) first_gap.simps) auto
  next
    case inside: True
    show ?thesis
    proof (cases "contents x position")
      case None
      then have "first_gap x r position = gap_at x r position"
      proof (cases "last_at_most position (ix_ranges x)")
        case None
        then show ?thesis using inside by (subst first_gap.simps) simp
      next
        case (Some seg)
        obtain s b where seg: "seg = (s, b)" by force
        then have "segment_end s b = Inr (s + length b)"
          using Some last_at_most_Some [OF ord] indexed_segment_end [OF inv] by blast
        moreover have "\<not> position < s + length b"
          using \<open>contents x position = None\<close> by (simp add: contents_def stored_def Some seg split: if_splits)
        ultimately show ?thesis using inside Some seg by (subst first_gap.simps) simp
      qed
      then show ?thesis using gap_at_gap [OF inv 1(3) inside None] by auto
    next
      case (Some v)
      then obtain s b where seg: "(s, b) \<in> set (ix_ranges x)" "covers (s, b) position"
        using stored_iff [OF ok] by (auto simp: contents_def)
      note last = last_at_most_covering [OF ok seg]
      let ?next = "min (s + length b) (hr_end r)"
      have turn: "first_gap x r position = first_gap x r ?next"
        using inside seg(2) last indexed_segment_end [OF inv seg(1)]
        by (subst first_gap.simps) (simp add: covers_def)
      have covered: "contents x p \<noteq> None" if "position \<le> p" "p < ?next" for p
      proof -
        have "covers (s, b) p" using that seg(2) by (simp add: covers_def)
        then show ?thesis unfolding contents_def stored_None_iff [OF ok] using seg(1) by blast
      qed
      have "first_gap x r ?next = Inr None \<and> (\<forall>p. ?next \<le> p \<and> p < hr_end r \<longrightarrow> contents x p \<noteq> None) \<or>
          (\<exists>g. first_gap x r ?next = Inr (Some g) \<and> gap_from (contents x) r ?next g)"
        using 1(1) [OF inside last refl indexed_segment_end [OF inv seg(1)]] seg(2) 1(2,3)
        by (simp add: covers_def)
      moreover have "gap_from (contents x) r position g" if "gap_from (contents x) r ?next g" for g
        by (rule gap_from_earlier [OF that _ covered]) (use seg(2) inside in \<open>simp add: covers_def\<close>)
      ultimately show ?thesis unfolding turn using covered by (metis leI)
    qed
  qed
qed

lemma first_missing_cases:
  assumes "index_inv x" and "range_in (ix_source_length x) r"
  shows "first_missing x r = Inr None \<and> (\<forall>p. in_range r p \<longrightarrow> contents x p \<noteq> None) \<or>
    (\<exists>g. first_missing x r = Inr (Some g) \<and> gap_from (contents x) r (hr_offset r) g)"
  using first_gap_cases [OF assms(1), of r "hr_offset r"] assms(2)
  by (auto simp: first_missing_def range_in_def in_range_def)

section \<open>The indexed ranges are such a store\<close>

interpretation ranges: byte_store index_inv ix_source_length contents indexed_bytes first_missing indexed_insert
proof unfold_locales
  fix s r and bytes :: "byte list"
  assume "index_inv s" "range_in (ix_source_length s) r" "length bytes = hr_length r"
    "free_for r (contents s)"
  from indexed_insert_free [OF this]
  show "\<exists>t. indexed_insert r bytes s = (Inr (), t) \<and> index_inv t \<and>
      ix_source_length t = ix_source_length s \<and> contents t = with_slice (hr_offset r) bytes (contents s)" .
qed (fact indexed_bytes_iff first_missing_cases)+

section \<open>Properties\<close>

text \<open>
  C39: An insertion does to the partial content of the source what it says, and nothing
  else. When it succeeds, the content has the delivered bytes at the range and is otherwise
  the same, and the segments are well formed again; when it fails, nothing changed, and the
  range was outside the source, of another length, or touched a byte that was indexed
  already.
\<close>

theorem indexed_insert_refines:
  assumes "index_inv x" and "0 < hr_length r" and "length bytes \<le> u64_max"
  shows "case indexed_insert r bytes x of
      (Inr _, y) \<Rightarrow> index_inv y \<and> ix_source_length y = ix_source_length x \<and> \<not> store_refused x r bytes \<and>
        contents y = with_slice (hr_offset r) bytes (contents x) \<and> (free_for r (contents x) \<or> y = x)
    | (Inl e, y) \<Rightarrow> y = x \<and> err_code e = InvalidArgument \<and> (store_refused x r bytes \<or> \<not> free_for r (contents x))"
proof (cases "store_refused x r bytes")
  case True
  then show ?thesis using indexed_insert_refused [OF True assms(3)] by auto
next
  case fits: False
  then have inside: "range_in (ix_source_length x) r" "length bytes = hr_length r"
    using assms(2) by (auto simp: store_refused_def range_in_def)
  show ?thesis
  proof (cases "free_for r (contents x)")
    case True
    from indexed_insert_free [OF assms(1) inside True] fits True show ?thesis by auto
  next
    case False
    from indexed_insert_taken [OF assms(1,2) fits False] show ?thesis
      using assms(1) fits False with_slice_known [OF assms(1)] by (auto simp: overlap_error_def)
  qed
qed

definition two_bytes :: indexed_ranges where
  "two_bytes = \<lparr>ix_source_length = 8, ix_ranges = [(2, [7, 8])], ix_retained = 2\<rparr>"

lemma two_bytes_inv: "index_inv two_bytes"
  by (simp add: two_bytes_def index_inv_def segments_ok_def ordered_def total_length_def u64_max_def)

theorem indexed_insert_refines_witness:
  "snd (indexed_insert \<lparr>hr_offset = 4, hr_length = 2\<rparr> [9, 6] two_bytes) =
     \<lparr>ix_source_length = 8, ix_ranges = [(2, [7, 8, 9, 6])], ix_retained = 4\<rparr> \<and>
   contents \<lparr>ix_source_length = 8, ix_ranges = [(2, [7, 8, 9, 6])], ix_retained = 4\<rparr> =
     with_slice 4 [9, 6] (contents two_bytes)"
proof -
  have run: "indexed_insert \<lparr>hr_offset = 4, hr_length = 2\<rparr> [9, 6] two_bytes =
      (Inr (), \<lparr>ix_source_length = 8, ix_ranges = [(2, [7, 8, 9, 6])], ix_retained = 4\<rparr>)"
    by (simp add: two_bytes_def indexed_insert_def prog_defs hr_end_def already_indexed_def
        check_following_def first_from_def last_at_most_def last_entry_def last_below_def merge_previous_def
        merge_following_def segment_end_def segment_length_def ordered_insert_def ordered_remove_def
        u64_max_def)
  show ?thesis
    using indexed_insert_refines [OF two_bytes_inv, of "\<lparr>hr_offset = 4, hr_length = 2\<rparr>" "[9, 6]"]
    by (simp add: run u64_max_def)
qed

text \<open>
  A query finds exactly the first gap. For every range inside the source, the search
  for a missing part never fails; it answers that nothing is missing exactly when the bytes
  can be looked up; and the gap it answers starts at the first byte of the query that is
  not indexed, contains no indexed byte and ends at the end of the query or at one.
\<close>

theorem first_missing_exact:
  assumes "index_inv x" and "range_in (ix_source_length x) r"
  shows "(first_missing x r = Inr None) = (indexed_bytes x r \<noteq> None) \<and>
    (\<exists>m. first_missing x r = Inr m \<and> (\<forall>g. m = Some g \<longrightarrow> gap_from (contents x) r (hr_offset r) g))"
  using ranges.missing_None_iff [OF assms] first_missing_cases [OF assms] by auto

theorem first_missing_exact_witness:
  "(first_missing two_bytes \<lparr>hr_offset = 2, hr_length = 2\<rparr> = Inr None) =
     (indexed_bytes two_bytes \<lparr>hr_offset = 2, hr_length = 2\<rparr> \<noteq> None)"
proof -
  have "range_in (ix_source_length two_bytes) \<lparr>hr_offset = 2, hr_length = 2\<rparr>"
    by (simp add: range_in_def hr_end_def two_bytes_def)
  from first_missing_exact [OF two_bytes_inv this] show ?thesis by blast
qed

text \<open>The calls of a host: a range of a source, delivered when it is one.\<close>

definition deliver :: "byte list \<Rightarrow> nat \<times> nat \<Rightarrow> indexed_ranges \<Rightarrow> indexed_ranges" where
  "deliver source call x =
     (case host_range_new (fst call) (snd call) (ix_source_length x) of
        Inl e \<Rightarrow> x
      | Inr r \<Rightarrow> snd (indexed_insert r (slice_at source r) x))"

lemma host_range_new_ok:
  "host_range_new offset n limit = Inr r \<longleftrightarrow>
     r = \<lparr>hr_offset = offset, hr_length = n\<rparr> \<and> 0 < n \<and> offset + n \<le> limit \<and> offset + n \<le> u64_max"
  by (auto simp: host_range_new_def)

lemma host_range_new_in: "host_range_new offset n limit = Inr r \<Longrightarrow> range_in limit r"
  by (auto simp: host_range_new_ok range_in_def hr_end_def)

lemma deliver_holds:
  assumes "ranges.holds source x"
  shows "ranges.holds source (deliver source call x)"
proof (cases "host_range_new (fst call) (snd call) (ix_source_length x)")
  case (Inl e)
  then show ?thesis using assms by (simp add: deliver_def)
next
  case (Inr r)
  have inv: "index_inv x" and size: "ix_source_length x = length source" and agree: "agrees source (contents x)"
    using assms by (simp_all add: ranges.holds_def)
  have r: "range_in (length source) r" using host_range_new_in [OF Inr] by (simp add: size)
  then have pos: "0 < hr_length r" and fits: "\<not> store_refused x r (slice_at source r)"
    by (auto simp: range_in_def store_refused_def size)
  show ?thesis
  proof (cases "free_for r (contents x)")
    case True
    from ranges.deliver_free [OF assms r True] show ?thesis by (auto simp: deliver_def Inr)
  next
    case False
    from indexed_insert_taken [OF inv pos fits False] assms show ?thesis by (auto simp: deliver_def Inr)
  qed
qed

interpretation delivery: metered_machine "deliver source" "ranges.holds source" ix_retained ix_source_length
  for source
proof unfold_locales
  fix s call assume holds: "ranges.holds source s"
  then show "ranges.holds source (deliver source call s)" by (rule deliver_holds)
  have inv: "index_inv s" using holds by (simp add: ranges.holds_def)
  show "ix_retained s \<le> ix_source_length s"
    using total_length_bound [OF index_invD(2) [OF inv]] index_invD(3) [OF inv] by simp
  show "ix_source_length (deliver source call s) = ix_source_length s"
    using holds deliver_holds [OF holds, of call] by (simp add: ranges.holds_def)
qed

text \<open>
  The index never invents or mixes up bytes. After any sequence of deliveries from one
  source, overlapping and repeated ones included, a range that can be looked up has exactly
  the source's bytes, and the retained-byte account is the number of indexed bytes, which
  stays within the source's length.
\<close>

theorem indexed_bytes_are_source:
  assumes "length source \<le> u64_max" and "x = fold (deliver source) calls (indexed_new (length source))"
  shows "ix_retained x = card {p. contents x p \<noteq> None} \<and> ix_retained x \<le> length source \<and>
    (\<forall>r bytes. range_in (length source) r \<longrightarrow> indexed_bytes x r = Some bytes \<longrightarrow> bytes = slice_at source r)"
proof -
  let ?x = "indexed_new (length source)"
  have start: "ranges.holds source ?x"
    using indexed_new_inv [OF assms(1)]
    by (simp add: ranges.holds_def indexed_new_def agrees_def contents_def stored_def last_at_most_def last_entry_def)
  have holds: "ranges.holds source x" unfolding assms(2) by (rule delivery.run_inv [OF start])
  have "ix_retained x \<le> length source"
    using delivery.run_within [OF start] by (simp add: assms(2) indexed_new_def)
  moreover have "ix_retained x = card {p. contents x p \<noteq> None}"
  proof -
    have inv: "index_inv x" using holds by (simp add: ranges.holds_def)
    show ?thesis using total_length_card [OF index_invD(2) [OF inv]] index_invD(3) [OF inv] by (simp add: contents_def)
  qed
  ultimately show ?thesis using ranges.lookup_slice [OF holds] by blast
qed

theorem indexed_bytes_are_source_witness:
  "ix_retained (fold (deliver [1, 2, 3]) [(0, 2), (1, 2), (2, 1)] (indexed_new (length [1, 2, 3 :: byte])))
     \<le> length [1, 2, 3 :: byte]"
proof -
  have "length [1, 2, 3 :: byte] \<le> u64_max" by (simp add: u64_max_def)
  from indexed_bytes_are_source [OF this refl, of "[(0, 2), (1, 2), (2, 1)]"] show ?thesis by (elim conjE)
qed

end
