(* ===== verification/Zip_Roundtrip.thy ===== *)
theory Zip_Roundtrip
  imports Zip_Package Range_Store
begin

text \<open>
  What is written by \<open>build_raw_zip\<close> is read back by the parser of the same file: the end
  record is found, the central directory lists the entries, and each entry's data lie where
  its local header says. The lemmas walk over the written fields one by one.
\<close>

section \<open>Fields in a concatenation\<close>

named_theorems fields \<open>rules that find a field in a written record\<close>

lemma bytes_at_skip [fields]:
  assumes "length xs \<le> k"
  shows "bytes_at (xs @ ys) k n = bytes_at ys (k - length xs) n"
  using assms by (auto simp: bytes_at_def)

lemma bytes_at_here: "length xs = n \<Longrightarrow> bytes_at (xs @ ys) 0 n = Some xs"
  by (simp add: bytes_at_def)

lemma read_skip [fields]:
  assumes "length xs \<le> k"
  shows "read_u16 (xs @ ys) k = read_u16 ys (k - length xs)"
    and "read_u32 (xs @ ys) k = read_u32 ys (k - length xs)"
  using assms by (simp_all add: read_u16_def read_u32_def bytes_at_skip)

lemma read_here [fields]:
  "read_u16 (le_bytes 2 v @ ys) 0 = Inr (v mod 65536)"
  "read_u32 (le_bytes 4 v @ ys) 0 = Inr (v mod 4294967296)"
  by (simp_all add: read_u16_def read_u32_def bytes_at_here le_value_le_bytes)

lemma read_here_last [fields]:
  "read_u16 (le_bytes 2 v) 0 = Inr (v mod 65536)"
  using read_here(1) [of v "[]"] by simp

lemma word_fields [fields]:
  "unat (w :: 16 word) mod 65536 = unat w" "unat (v :: 32 word) mod 4294967296 = unat v"
  using unsigned_less [of w, where ?'a = nat] unsigned_less [of v, where ?'a = nat] by simp_all

section \<open>Members\<close>

text \<open>An entry or a placeholder, as it is written.\<close>

record zip_member =
  zm_name :: string
  zm_flags :: "16 word"
  zm_method :: nat
  zm_crc32 :: "32 word"
  zm_data :: "byte list"
  zm_size :: nat

definition member_of_entry :: "raw_zip_entry \<Rightarrow> zip_member" where
  "member_of_entry e =
     \<lparr>zm_name = ze_name (rz_index e), zm_flags = ze_flags (rz_index e), zm_method = ze_method (rz_index e),
      zm_crc32 = ze_crc32 (rz_index e), zm_data = rz_compressed e, zm_size = ze_uncompressed_size (rz_index e)\<rparr>"

definition member_of_placeholder :: "string \<times> byte list \<Rightarrow> zip_member" where
  "member_of_placeholder p =
     \<lparr>zm_name = fst p, zm_flags = 0x0800, zm_method = 0, zm_crc32 = crc32 (snd p), zm_data = snd p,
      zm_size = length (snd p)\<rparr>"

definition append_member :: "zip_output \<Rightarrow> zip_member \<Rightarrow> zip_output result" where
  "append_member out m =
     append_zip_entry out (zm_name m) (zm_flags m) (zm_method m) (zm_crc32 m) (zm_data m) (zm_size m)"

definition central_of :: "nat \<Rightarrow> zip_member \<Rightarrow> zip_central" where
  "central_of offset m =
     \<lparr>zc_name = bytes_of_string (zm_name m), zc_flags = zm_flags m AND NOT 0x0008, zc_method = zm_method m,
      zc_crc32 = zm_crc32 m, zc_compressed_size = length (zm_data m), zc_uncompressed_size = zm_size m,
      zc_local_offset = offset\<rparr>"

definition member_bytes :: "zip_member \<Rightarrow> byte list" where
  "member_bytes m = local_header_bytes (central_of 0 m) @ bytes_of_string (zm_name m) @ zm_data m"

fun layout :: "nat \<Rightarrow> zip_member list \<Rightarrow> zip_central list" where
  "layout offset [] = []"
| "layout offset (m # ms) = central_of offset m # layout (offset + length (member_bytes m)) ms"

definition bodies :: "zip_member list \<Rightarrow> byte list" where
  "bodies ms = concat (map member_bytes ms)"

definition member_fits :: "zip_member \<Rightarrow> bool" where
  "member_fits m \<longleftrightarrow> length (zm_name m) \<le> u16_max \<and> length (zm_data m) \<le> u32_max \<and> zm_size m \<le> u32_max"

lemma bodies_simps [simp]: "bodies [] = []" "bodies (m # ms) = member_bytes m @ bodies ms"
  by (simp_all add: bodies_def)

lemma rfold_map: "rfold f acc (map g xs) = rfold (\<lambda>acc x. f acc (g x)) acc xs"
  by (induction xs arbitrary: acc) (auto intro: arg_cong2 [where f = rbind])

lemma append_raw_entry_member: "append_raw_entry = (\<lambda>out e. append_member out (member_of_entry e))"
  by (simp add: fun_eq_iff append_raw_entry_def append_member_def member_of_entry_def)

lemma append_placeholder_member: "append_placeholder = (\<lambda>out p. append_member out (member_of_placeholder p))"
  by (simp add: fun_eq_iff append_placeholder_def append_member_def member_of_placeholder_def)

lemma append_member_ok:
  "append_member (written, central) m = Inr out \<longleftrightarrow>
     member_fits m \<and> length written \<le> u32_max \<and>
     out = (written @ member_bytes m, central @ [central_of (length written) m])"
  by (auto simp: append_member_def append_zip_entry_def member_fits_def member_bytes_def central_of_def
      local_header_bytes_def Let_def u16_try_from_def split: if_splits)

lemma append_members_ok:
  assumes "rfold append_member (written, central) ms = Inr out"
  shows "out = (written @ bodies ms, central @ layout (length written) ms) \<and> (\<forall>m \<in> set ms. member_fits m)"
  using assms
proof (induction ms arbitrary: written central)
  case Nil
  then show ?case by simp
next
  case (Cons m ms)
  then have "member_fits m" and rest: "rfold append_member (written @ member_bytes m, central @ [central_of (length written) m]) ms = Inr out"
    by (auto simp: append_member_ok)
  from Cons.IH [OF rest] this(1) show ?case by simp
qed

definition central_bytes :: "zip_central \<Rightarrow> byte list" where
  "central_bytes c =
     le_bytes 4 0x02014b50 @ le_bytes 2 20 @ le_bytes 2 20 @ le_bytes 2 (unat (zc_flags c)) @
     le_bytes 2 (zc_method c) @ le_bytes 2 0 @ le_bytes 2 0 @ le_bytes 4 (unat (zc_crc32 c)) @
     le_bytes 4 (zc_compressed_size c) @ le_bytes 4 (zc_uncompressed_size c) @
     le_bytes 2 (length (zc_name c)) @ le_bytes 2 0 @ le_bytes 2 0 @ le_bytes 2 0 @ le_bytes 2 0 @
     le_bytes 4 0 @ le_bytes 4 (zc_local_offset c) @ zc_name c"

lemma length_central_bytes [simp]: "length (central_bytes c) = 46 + length (zc_name c)"
  by (simp add: central_bytes_def)

lemma drop_central_bytes [simp]: "drop 46 (central_bytes c) = zc_name c"
  by (simp add: central_bytes_def)

lemma central_record_ok: "central_record c = Inr r \<longleftrightarrow> length (zc_name c) \<le> u16_max \<and> r = central_bytes c"
  by (auto simp: central_record_def central_bytes_def u16_try_from_def split: if_splits)

lemma write_centrals_ok:
  "rfold (\<lambda>written c. map_sum id (\<lambda>r. written @ r) (central_record c)) written cs = Inr out \<Longrightarrow>
    out = written @ concat (map central_bytes cs)"
proof (induction cs arbitrary: written)
  case Nil
  then show ?case by simp
next
  case (Cons c cs)
  then obtain r where r: "central_record c = Inr r"
    by (cases "central_record c") auto
  then have "r = central_bytes c" by (simp add: central_record_ok)
  with Cons.IH [of "written @ r"] Cons.prems r show ?case by simp
qed

definition package_members :: "raw_zip_entry list \<Rightarrow> (string \<times> byte list) list \<Rightarrow> zip_member list" where
  "package_members entries placeholders =
     map member_of_entry entries @ map member_of_placeholder placeholders"

text \<open>A package that was written, in three parts.\<close>

lemma build_raw_zip_parts:
  assumes "build_raw_zip entries placeholders = Inr out"
  defines "ms \<equiv> package_members entries placeholders"
  defines "central \<equiv> concat (map central_bytes (layout 0 ms))"
  shows "out = bodies ms @ central @ end_record (length ms) (length central) (length (bodies ms)) \<and>
    (\<forall>m \<in> set ms. member_fits m) \<and> length (bodies ms) + length central \<le> u32_max \<and> length ms \<le> u16_max"
proof -
  have length_layout: "length (layout off ms') = length ms'" for off ms' by (induction off ms' rule: layout.induct) auto
  have fold: "rfold append_raw_entry ([], []) entries = rfold append_member ([], []) (map member_of_entry entries)"
    "rfold append_placeholder acc placeholders = rfold append_member acc (map member_of_placeholder placeholders)" for acc
    by (simp_all add: rfold_map append_raw_entry_member append_placeholder_member)
  obtain o1 where o1: "rfold append_member ([], []) (map member_of_entry entries) = Inr o1"
    using assms(1) unfolding build_raw_zip_def fold by auto
  obtain written cs where o2: "rfold append_member o1 (map member_of_placeholder placeholders) = Inr (written, cs)"
    using assms(1) unfolding build_raw_zip_def fold o1 by auto
  have "rfold append_member ([], []) ms = Inr (written, cs)"
    using o1 o2 by (simp add: ms_def package_members_def rfold_append)
  from append_members_ok [OF this] have parts: "written = bodies ms" "cs = layout 0 ms" "\<forall>m \<in> set ms. member_fits m"
    by auto
  obtain w where w: "rfold (\<lambda>written c. map_sum id (\<lambda>r. written @ r) (central_record c)) written cs = Inr w"
    using assms(1) unfolding build_raw_zip_def fold o1 o2 rbind.simps by auto
  have "w = bodies ms @ central" using write_centrals_ok [OF w] by (simp add: parts central_def)
  then show ?thesis
    using assms(1) w parts unfolding build_raw_zip_def fold o1 o2 rbind.simps
    by (auto simp: u16_try_from_def bind_eq_Some_conv length_layout split: if_splits)
qed

section \<open>Reading the central directory back\<close>

definition member_ok :: "zip_member \<Rightarrow> bool" where
  "member_ok m \<longleftrightarrow> validate_zip_path (zm_name m) = Inr () \<and> utf8_valid (bytes_of_string (zm_name m)) \<and>
     zm_flags m AND 1 = 0 \<and> (zm_method m = 0 \<or> zm_method m = 8) \<and>
     length (zm_data m) \<le> max_compressed_entry_bytes \<and> zm_size m \<le> max_expanded_entry_bytes"

definition entry_of :: "nat \<Rightarrow> zip_member \<Rightarrow> zip_entry_index" where
  "entry_of offset m =
     \<lparr>ze_name = zm_name m, ze_flags = zm_flags m AND NOT 0x0008, ze_method = zm_method m,
      ze_crc32 = zm_crc32 m, ze_compressed_size = length (zm_data m), ze_uncompressed_size = zm_size m,
      ze_local_header_offset = offset\<rparr>"

lemma central_fields:
  fixes pre post :: "byte list" and c :: zip_central
  defines "b \<equiv> pre @ central_bytes c @ post"
  shows "read_u32 b (length pre) = Inr 0x02014b50"
    and "read_u16 b (length pre + 8) = Inr (unat (zc_flags c))"
    and "read_u16 b (length pre + 10) = Inr (zc_method c mod 65536)"
    and "read_u32 b (length pre + 16) = Inr (unat (zc_crc32 c))"
    and "read_u32 b (length pre + 20) = Inr (zc_compressed_size c mod 4294967296)"
    and "read_u32 b (length pre + 24) = Inr (zc_uncompressed_size c mod 4294967296)"
    and "read_u16 b (length pre + 28) = Inr (length (zc_name c) mod 65536)"
    and "read_u16 b (length pre + 30) = Inr 0"
    and "read_u16 b (length pre + 32) = Inr 0"
    and "read_u32 b (length pre + 42) = Inr (zc_local_offset c mod 4294967296)"
  unfolding b_def central_bytes_def append_assoc by (simp_all add: fields)

lemma flags_plain: "(w AND NOT 8) AND 1 = (0 :: 16 word) \<longleftrightarrow> w AND 1 = 0"
proof -
  have "(w AND NOT 8) AND 1 = w AND (NOT 8 AND 1)" by (simp add: and.assoc)
  also have "(NOT 8 AND 1 :: 16 word) = 1" by simp
  finally show ?thesis by simp
qed

lemma central_entry_written:
  assumes ok: "member_ok m" and fits: "member_fits m" and offset: "offset + 30 \<le> source_length" "offset < u32_max"
    and small: "source_length \<le> u64_max" "length pre + length (central_bytes (central_of offset m)) \<le> u64_max"
  shows "central_entry (pre @ central_bytes (central_of offset m) @ post) source_length (length pre) =
    Inr (entry_of offset m, length pre + length (central_bytes (central_of offset m)))"
proof -
  let ?c = "central_of offset m"
  let ?b = "pre @ central_bytes ?c @ post"
  have limits: "length (zm_name m) mod 65536 = length (zm_name m)"
    "length (zm_data m) mod 4294967296 = length (zm_data m)" "zm_size m mod 4294967296 = zm_size m"
    "offset mod 4294967296 = offset" "zm_method m mod 65536 = zm_method m"
    using ok fits offset(2) by (auto simp: member_ok_def member_fits_def u16_max_def u32_max_def)
  have reads: "read_u32 ?b (length pre) = Inr 0x02014b50"
    "read_u16 ?b (length pre + 8) = Inr (unat (zm_flags m AND NOT 8))"
    "read_u16 ?b (length pre + 10) = Inr (zm_method m)"
    "read_u32 ?b (length pre + 16) = Inr (unat (zm_crc32 m))"
    "read_u32 ?b (length pre + 20) = Inr (length (zm_data m))"
    "read_u32 ?b (length pre + 24) = Inr (zm_size m)"
    "read_u16 ?b (length pre + 28) = Inr (length (zm_name m))"
    "read_u16 ?b (length pre + 30) = Inr 0"
    "read_u16 ?b (length pre + 32) = Inr 0"
    "read_u32 ?b (length pre + 42) = Inr offset"
    unfolding central_fields by (simp_all add: central_of_def limits)
  have long: "\<not> length ?b - length pre < 46" "length pre + (46 + length (zm_name m)) \<le> length ?b"
    by (simp_all add: central_of_def)
  have sizes: "central_sizes extra (length (zm_data m), zm_size m, offset) = Inr (length (zm_data m), zm_size m, offset)" for extra
    using ok offset(2)
    by (simp add: central_sizes_def member_ok_def max_compressed_entry_bytes_def max_expanded_entry_bytes_def u32_max_def)
  have flags: "(word_of_nat (unat (zm_flags m AND NOT 8)) :: 16 word) AND 1 = 0"
  proof -
    have "(word_of_nat (unat (zm_flags m AND NOT 8)) :: 16 word) = zm_flags m AND NOT 8" by simp
    then show ?thesis using ok by (simp only: flags_plain member_ok_def)
  qed
  have new: "host_range_new offset 30 source_length = Inr \<lparr>hr_offset = offset, hr_length = 30\<rparr>"
    using offset small by (simp add: host_range_new_ok)
  show ?thesis
    unfolding central_entry_def reads rbind.simps
    using long flags ok small new sizes
    by (simp add: Let_def member_ok_def entry_of_def central_of_def)
qed

fun indexed :: "nat \<Rightarrow> zip_member list \<Rightarrow> zip_directory_index" where
  "indexed offset [] = []"
| "indexed offset (m # ms) = (zm_name m, entry_of offset m) # indexed (offset + length (member_bytes m)) ms"

lemma fst_indexed [simp]: "map fst (indexed offset ms) = map zm_name ms"
  by (induction offset ms rule: indexed.induct) auto

lemma length_indexed [simp]: "length (indexed offset ms) = length ms"
  by (induction offset ms rule: indexed.induct) auto

lemma length_layout [simp]: "length (layout offset ms) = length ms"
  by (induction offset ms rule: layout.induct) auto

lemma length_local_header [simp]: "length (local_header_bytes c) = 30"
  by (simp add: local_header_bytes_def)

lemma length_member_bytes [simp]: "length (member_bytes m) = 30 + length (zm_name m) + length (zm_data m)"
  by (simp add: member_bytes_def)

lemma central_entries_written:
  assumes "\<forall>m \<in> set ms. member_ok m \<and> member_fits m" and "distinct (map zm_name ms)"
    and "set (map fst acc) \<inter> set (map zm_name ms) = {}"
    and "offset + length (bodies ms) \<le> source_length" "offset + length (bodies ms) < u32_max"
    and "source_length \<le> u64_max"
    and "length pre + length (concat (map central_bytes (layout offset ms))) \<le> u64_max"
  shows "central_entries (pre @ concat (map central_bytes (layout offset ms))) source_length (length pre) acc =
    Inr (acc @ indexed offset ms)"
  using assms
proof (induction ms arbitrary: offset acc pre)
  case Nil
  then show ?case by (subst central_entries.simps) simp
next
  case (Cons m ms)
  let ?c = "central_of offset m"
  let ?next = "offset + length (member_bytes m)"
  let ?rest = "concat (map central_bytes (layout ?next ms))"
  have entry: "central_entry (pre @ central_bytes ?c @ ?rest) source_length (length pre) =
      Inr (entry_of offset m, length pre + length (central_bytes ?c))"
    by (rule central_entry_written) (use Cons.prems in auto)
  have new: "map_of acc (zm_name m) = None" using Cons.prems(3) by (auto simp: map_of_eq_None_iff)
  have name: "ze_name (entry_of offset m) = zm_name m" by (simp add: entry_of_def)
  have "central_entries ((pre @ central_bytes ?c) @ ?rest) source_length (length (pre @ central_bytes ?c))
      (acc @ [(zm_name m, entry_of offset m)]) = Inr ((acc @ [(zm_name m, entry_of offset m)]) @ indexed ?next ms)"
    by (rule Cons.IH) (use Cons.prems in auto)
  then show ?case
    by (subst central_entries.simps) (simp add: entry new name del: length_member_bytes)
qed

lemma parse_central_written:
  assumes "\<forall>m \<in> set ms. member_ok m \<and> member_fits m" and "distinct (map zm_name ms)"
    and "length (bodies ms) \<le> source_length" "length (bodies ms) < u32_max" and "source_length \<le> u64_max"
    and "length (concat (map central_bytes (layout 0 ms))) \<le> u64_max"
  shows "parse_central_directory (concat (map central_bytes (layout 0 ms))) (length ms) source_length =
    Inr (indexed 0 ms)"
  using central_entries_written [of ms "[]" 0 source_length "[]"] assms
  by (simp add: parse_central_directory_def)

section \<open>Finding the end record\<close>

lemma length_end_record [simp]: "length (end_record count size_of offset) = 22"
  by (simp add: end_record_def)

lemma end_fields:
  fixes pre :: "byte list" and count size_of offset :: nat
  defines "b \<equiv> pre @ end_record count size_of offset"
  shows "read_u32 b (length pre) = Inr 0x06054b50" and "read_u16 b (length pre + 20) = Inr 0"
    and "read_u16 b (length pre + 4) = Inr 0" and "read_u16 b (length pre + 6) = Inr 0"
    and "read_u16 b (length pre + 10) = Inr (count mod 65536)"
    and "read_u32 b (length pre + 12) = Inr (size_of mod 4294967296)"
    and "read_u32 b (length pre + 16) = Inr (offset mod 4294967296)"
  unfolding b_def end_record_def append_assoc by (simp_all add: fields)

lemma find_end_written:
  assumes "0 < count" "count \<le> max_zip_entries" and "0 < size_of" "size_of \<le> max_central_directory_bytes"
    and "offset < u32_max" "offset + size_of \<le> source_length" "source_length \<le> u64_max"
    and "length pre + 22 \<le> u64_max"
  shows "parse_end_of_central_directory (pre @ end_record count size_of offset) tail_offset source_length =
    Inr \<lparr>cl_range = \<lparr>hr_offset = offset, hr_length = size_of\<rparr>, cl_entries = count\<rparr>"
proof -
  let ?b = "pre @ end_record count size_of offset"
  have small: "count mod 65536 = count" "size_of mod 4294967296 = size_of" "offset mod 4294967296 = offset"
    using assms(2,4,5) by (simp_all add: max_zip_entries_def max_central_directory_bytes_def u32_max_def)
  have plain: "count \<noteq> u16_max" "size_of \<noteq> u32_max" "offset \<noteq> u32_max"
    using assms(2,4,5)
    by (auto simp: max_zip_entries_def max_central_directory_bytes_def u32_max_def u16_max_def)
  have location: "central_location offset size_of count source_length =
      Inr \<lparr>cl_range = \<lparr>hr_offset = offset, hr_length = size_of\<rparr>, cl_entries = count\<rparr>"
    using assms by (simp add: central_location_def host_range_new_def)
  have "eocd_at ?b tail_offset source_length (length pre) =
      Inr (Some \<lparr>cl_range = \<lparr>hr_offset = offset, hr_length = size_of\<rparr>, cl_entries = count\<rparr>)"
    unfolding eocd_at_def end_fields rbind.simps small
    using assms(8) plain location by simp
  moreover have "rev [0..<length ?b - 22 + 1] = length pre # rev [0..<length pre]" by simp
  ultimately show ?thesis by (simp add: parse_end_of_central_directory_def)
qed

section \<open>Finding the data\<close>

lemma local_fields:
  "read_u32 (local_header_bytes c) 0 = Inr 0x04034b50"
  "read_u16 (local_header_bytes c) 6 = Inr (unat (zc_flags c))"
  "read_u16 (local_header_bytes c) 8 = Inr (zc_method c mod 65536)"
  "read_u16 (local_header_bytes c) 26 = Inr (length (zc_name c) mod 65536)"
  "read_u16 (local_header_bytes c) 28 = Inr 0"
  unfolding local_header_bytes_def by (simp_all add: fields)

lemma data_range_written:
  assumes "member_ok m" and "member_fits m"
    and "offset + length (member_bytes m) \<le> source_length" "source_length \<le> u64_max"
  shows "entry_data_range (entry_of offset m) (local_header_bytes (central_of 0 m)) source_length =
    (if zm_data m = [] then Inl (new_error InvalidArgument ''Excel source range length must be positive'')
     else Inr \<lparr>hr_offset = offset + 30 + length (zm_name m), hr_length = length (zm_data m)\<rparr>)"
proof -
  have limits: "length (zm_name m) mod 65536 = length (zm_name m)" "zm_method m mod 65536 = zm_method m"
    using assms(1,2) by (auto simp: member_ok_def member_fits_def u16_max_def)
  have flags: "(word_of_nat (unat (zm_flags m AND NOT 8)) :: 16 word) AND 1 = 0"
  proof -
    have "(word_of_nat (unat (zm_flags m AND NOT 8)) :: 16 word) = zm_flags m AND NOT 8" by simp
    then show ?thesis using assms(1) by (simp only: flags_plain member_ok_def)
  qed
  have "entry_data_range (entry_of offset m) (local_header_bytes (central_of 0 m)) source_length =
      host_range_new (offset + 30 + length (zm_name m)) (length (zm_data m)) source_length"
    using assms(3,4) flags
    by (simp add: entry_data_range_def local_fields central_of_def limits entry_of_def)
  also have "\<dots> = (if zm_data m = [] then Inl (new_error InvalidArgument ''Excel source range length must be positive'')
      else Inr \<lparr>hr_offset = offset + 30 + length (zm_name m), hr_length = length (zm_data m)\<rparr>)"
  proof (cases "zm_data m = []")
    case True
    then show ?thesis by (simp add: host_range_new_def)
  next
    case False
    then show ?thesis using assms(3,4) by (simp add: host_range_new_ok)
  qed
  finally show ?thesis .
qed

lemma slice_at_here:
  "length pre = hr_offset r \<Longrightarrow> length mid = hr_length r \<Longrightarrow> slice_at (pre @ mid @ post) r = mid"
  by (simp add: slice_at_def)

lemma member_read:
  assumes "m \<in> set ms" and "\<forall>m \<in> set ms. member_ok m \<and> member_fits m" and "distinct (map zm_name ms)"
    and "length out \<le> u64_max" "out = pre @ bodies ms @ post" "length pre = offset"
  shows "\<exists>entry h. map_of (indexed offset ms) (zm_name m) = Some entry \<and>
    entry_header_range entry (length out) = Inr h \<and>
    ze_method entry = zm_method m \<and> ze_crc32 entry = zm_crc32 m \<and>
    ze_compressed_size entry = length (zm_data m) \<and> ze_uncompressed_size entry = zm_size m \<and>
    (if zm_data m = [] then entry_data_range entry (slice_at out h) (length out) =
         Inl (new_error InvalidArgument ''Excel source range length must be positive'')
     else \<exists>r. entry_data_range entry (slice_at out h) (length out) = Inr r \<and> slice_at out r = zm_data m)"
  using assms
proof (induction ms arbitrary: offset pre)
  case Nil
  then show ?case by simp
next
  case (Cons m' ms)
  show ?case
  proof (cases "m = m'")
    case True
    have out: "out = pre @ local_header_bytes (central_of 0 m) @ bytes_of_string (zm_name m) @ zm_data m @ bodies ms @ post"
      using Cons.prems(5) by (simp add: True member_bytes_def)
    let ?h = "\<lparr>hr_offset = offset, hr_length = 30\<rparr>"
    let ?r = "\<lparr>hr_offset = offset + 30 + length (zm_name m), hr_length = length (zm_data m)\<rparr>"
    have header: "entry_header_range (entry_of offset m) (length out) = Inr ?h" "slice_at out ?h = local_header_bytes (central_of 0 m)"
      using Cons.prems(4,6)
      by (simp_all add: entry_header_range_def entry_of_def host_range_new_ok out slice_at_def)
    have "slice_at ((pre @ local_header_bytes (central_of 0 m) @ bytes_of_string (zm_name m)) @ zm_data m @ bodies ms @ post) ?r = zm_data m"
      by (rule slice_at_here) (simp_all add: Cons.prems(6))
    then have data: "slice_at out ?r = zm_data m" by (simp add: out)
    have range: "entry_data_range (entry_of offset m) (slice_at out ?h) (length out) =
        (if zm_data m = [] then Inl (new_error InvalidArgument ''Excel source range length must be positive'') else Inr ?r)"
      unfolding header(2)
      by (rule data_range_written) (use Cons.prems True out in auto)
    have entry: "ze_method (entry_of offset m) = zm_method m" "ze_crc32 (entry_of offset m) = zm_crc32 m"
      "ze_compressed_size (entry_of offset m) = length (zm_data m)" "ze_uncompressed_size (entry_of offset m) = zm_size m"
      by (simp_all add: entry_of_def)
    have "map_of (indexed offset (m' # ms)) (zm_name m) = Some (entry_of offset m)" by (simp add: True)
    with header data range entry show ?thesis
      by (intro exI [of _ "entry_of offset m"] exI [of _ ?h]) (auto split: if_splits)
  next
    case False
    then have rest: "m \<in> set ms" using Cons.prems(1) by simp
    then have "zm_name m \<noteq> zm_name m'" using Cons.prems(3) by (metis distinct.simps(2) image_eqI list.set_map list.simps(9))
    moreover note rest
    moreover have "out = (pre @ member_bytes m') @ bodies ms @ post" using Cons.prems(5) by simp
    ultimately show ?thesis
      using Cons.IH [of "pre @ member_bytes m'" "offset + length (member_bytes m')"] Cons.prems by simp
  qed
qed

lemma member_found:
  assumes "m \<in> set ms" and "\<forall>m \<in> set ms. member_ok m \<and> member_fits m" and "distinct (map zm_name ms)"
    and "length out \<le> u64_max" "out = pre @ bodies ms @ post" "length pre = offset"
  shows "\<exists>entry h. map_of (indexed offset ms) (zm_name m) = Some entry \<and>
    entry_header_range entry (length out) = Inr h \<and>
    ze_method entry = zm_method m \<and> ze_crc32 entry = zm_crc32 m \<and>
    ze_compressed_size entry = length (zm_data m) \<and> ze_uncompressed_size entry = zm_size m \<and>
    (zm_data m \<noteq> [] \<longrightarrow> (\<exists>r. entry_data_range entry (slice_at out h) (length out) = Inr r \<and>
       slice_at out r = zm_data m))"
  using member_read [OF assms] by (metis (no_types, lifting))

section \<open>What the parser accepts\<close>

definition entry_safe :: "nat \<Rightarrow> zip_entry_index \<Rightarrow> bool" where
  "entry_safe source_length entry \<longleftrightarrow> validate_zip_path (ze_name entry) = Inr () \<and>
     utf8_valid (bytes_of_string (ze_name entry)) \<and> ze_flags entry AND 1 = 0 \<and>
     (ze_method entry = 0 \<or> ze_method entry = 8) \<and>
     ze_compressed_size entry \<le> max_compressed_entry_bytes \<and>
     ze_uncompressed_size entry \<le> max_expanded_entry_bytes \<and>
     ze_local_header_offset entry + 30 \<le> source_length"

lemma central_entry_safe:
  assumes "central_entry bytes source_length offset = Inr (entry, stop)"
  shows "entry_safe source_length entry"
  using assms
  by (auto simp: central_entry_def entry_safe_def Let_def host_range_new_ok split: if_splits prod.splits)

lemma central_entries_safe:
  assumes "central_entries bytes source_length offset acc = Inr index"
    and "distinct (map fst acc)" and "\<forall>(name, entry) \<in> set acc. name = ze_name entry \<and> entry_safe source_length entry"
  shows "distinct (map fst index) \<and>
    (\<forall>(name, entry) \<in> set index. name = ze_name entry \<and> entry_safe source_length entry)"
  using assms
proof (induction bytes source_length offset acc rule: central_entries.induct)
  case (1 bytes source_length offset acc)
  show ?case
  proof (cases "offset < length bytes")
    case False
    then show ?thesis using 1(2-4) by (simp add: central_entries.simps [of _ _ offset])
  next
    case True
    then obtain entry stop where entry: "central_entry bytes source_length offset = Inr (entry, stop)"
        and new: "map_of acc (ze_name entry) = None"
        and rest: "central_entries bytes source_length stop (acc @ [(ze_name entry, entry)]) = Inr index"
      using 1(2) by (subst (asm) central_entries.simps) (auto split: sum.splits prod.splits if_splits)
    show ?thesis
      by (rule 1(1) [OF True entry refl _ rest])
        (use new 1(3,4) central_entry_safe [OF entry] in \<open>auto simp: map_of_eq_None_iff\<close>)
  qed
qed

lemma parsed_directory_safe:
  assumes "parse_central_directory bytes expected source_length = Inr index"
  shows "length index = expected \<and> distinct (map fst index) \<and>
    (\<forall>name entry. directory_entry index name = Some entry \<longrightarrow>
      ze_name entry = name \<and> entry_safe source_length entry)"
proof -
  have "central_entries bytes source_length 0 [] = Inr index" "length index = expected"
    using assms by (auto simp: parse_central_directory_def split: if_splits)
  with central_entries_safe [of bytes source_length 0 "[]" index] show ?thesis
    by (fastforce simp: directory_entry_def dest: map_of_SomeD)
qed

text \<open>An entry that was indexed by the parser and filled with its data can be written again.\<close>

lemma indexed_entry_member_ok:
  assumes "parse_central_directory bytes expected source_length = Inr index"
    and "directory_entry index name = Some entry" and "raw_entry_new entry data = Inr e"
  shows "member_ok (member_of_entry e)"
proof -
  have "rz_index e = entry" "rz_compressed e = data" "length data = ze_compressed_size entry"
    using assms(3) by (auto simp: raw_entry_new_def split: if_splits)
  moreover have "entry_safe source_length entry"
    using parsed_directory_safe [OF assms(1)] assms(2) by blast
  ultimately show ?thesis
    by (auto simp: member_ok_def member_of_entry_def entry_safe_def)
qed

section \<open>Properties\<close>

text \<open>A package that was written is located and listed by the parser.\<close>

lemma written_package_parses:
  assumes "build_raw_zip entries placeholders = Inr out"
    and "ms = package_members entries placeholders" and "ms \<noteq> []" and "length ms \<le> max_zip_entries"
    and "\<forall>m \<in> set ms. member_ok m" and "distinct (map zm_name ms)"
    and "(\<Sum>m \<leftarrow> ms. 46 + length (zm_name m)) \<le> max_central_directory_bytes"
    and "k + 22 \<le> length out"
  shows "\<exists>location. parse_end_of_central_directory (drop k out) k (length out) = Inr location \<and>
    parse_central_directory (slice_at out (cl_range location)) (cl_entries location) (length out) = Inr (indexed 0 ms)"
proof -
  let ?central = "concat (map central_bytes (layout 0 ms))"
  let ?eocd = "end_record (length ms) (length ?central) (length (bodies ms))"
  note parts = build_raw_zip_parts [OF assms(1), folded assms(2)]
  have out: "out = bodies ms @ ?central @ ?eocd" and fits: "\<forall>m \<in> set ms. member_ok m \<and> member_fits m"
    and small: "length (bodies ms) + length ?central \<le> u32_max" using parts assms(5) by auto
  have central: "length (concat (map central_bytes (layout off ms'))) = (\<Sum>m \<leftarrow> ms'. 46 + length (zm_name m))" for off ms'
    by (induction off ms' rule: layout.induct) (auto simp: central_of_def)
  have pos: "0 < length ?central" using assms(3) unfolding central by (cases ms) auto
  have len: "length out = length (bodies ms) + length ?central + 22" by (simp add: out)
  then have u64: "length out \<le> u64_max" using small by (simp add: u32_max_def u64_max_def)
  have tail_bytes: "drop k out = drop k (bodies ms @ ?central) @ ?eocd"
    using assms(8) len by (simp add: out)
  let ?location = "\<lparr>cl_range = \<lparr>hr_offset = length (bodies ms), hr_length = length ?central\<rparr>, cl_entries = length ms\<rparr>"
  have found: "parse_end_of_central_directory (drop k out) k (length out) = Inr ?location"
    unfolding tail_bytes
    by (rule find_end_written) (use assms(3,4,7) pos small len u64 in \<open>auto simp: central\<close>)
  have slice: "slice_at out (cl_range ?location) = ?central"
    unfolding out by (rule slice_at_here) simp_all
  have below: "length (bodies ms) < u32_max" using small pos by linarith
  have parsed: "parse_central_directory ?central (length ms) (length out) = Inr (indexed 0 ms)"
    by (rule parse_central_written [OF fits assms(6) _ below]) (use len u64 in linarith)+
  show ?thesis using found slice parsed by (intro exI [of _ ?location]) simp
qed

text \<open>
  C37: The compact package is a package of the same entries. Whatever is written by
  \<open>build_raw_zip\<close> from entries and placeholders the parser would accept, with distinct
  names and within the parser's limits, is read back by the parser: the end record is found
  in any tail that contains it, the central directory lists exactly the written names, and
  each entry keeps its method, checksum and sizes, with its local header and its data lying
  where the header says.
\<close>

theorem compact_package_roundtrip:
  assumes "build_raw_zip entries placeholders = Inr out"
    and "ms = package_members entries placeholders" and "ms \<noteq> []" and "length ms \<le> max_zip_entries"
    and "\<forall>m \<in> set ms. member_ok m" and "distinct (map zm_name ms)"
    and "(\<Sum>m \<leftarrow> ms. 46 + length (zm_name m)) \<le> max_central_directory_bytes"
    and "k + 22 \<le> length out"
  shows "\<exists>location index.
    parse_end_of_central_directory (drop k out) k (length out) = Inr location \<and>
    parse_central_directory (slice_at out (cl_range location)) (cl_entries location) (length out) = Inr index \<and>
    map fst index = map zm_name ms \<and>
    (\<forall>m \<in> set ms. \<exists>entry h. directory_entry index (zm_name m) = Some entry \<and>
      entry_header_range entry (length out) = Inr h \<and>
      ze_method entry = zm_method m \<and> ze_crc32 entry = zm_crc32 m \<and>
      ze_compressed_size entry = length (zm_data m) \<and> ze_uncompressed_size entry = zm_size m \<and>
      (zm_data m \<noteq> [] \<longrightarrow> (\<exists>r. entry_data_range entry (slice_at out h) (length out) = Inr r \<and>
         slice_at out r = zm_data m)))"
proof -
  note parts = build_raw_zip_parts [OF assms(1), folded assms(2)]
  let ?post = "concat (map central_bytes (layout 0 ms)) @
    end_record (length ms) (length (concat (map central_bytes (layout 0 ms)))) (length (bodies ms))"
  have out: "out = bodies ms @ ?post" and fits: "\<forall>m \<in> set ms. member_ok m \<and> member_fits m"
    using parts assms(5) by auto
  have u64: "length out \<le> u64_max" using parts by (simp add: u32_max_def u64_max_def)
  obtain location where location: "parse_end_of_central_directory (drop k out) k (length out) = Inr location"
      "parse_central_directory (slice_at out (cl_range location)) (cl_entries location) (length out) = Inr (indexed 0 ms)"
    using written_package_parses [OF assms] by blast
  have "\<forall>m \<in> set ms. \<exists>entry h. directory_entry (indexed 0 ms) (zm_name m) = Some entry \<and>
      entry_header_range entry (length out) = Inr h \<and>
      ze_method entry = zm_method m \<and> ze_crc32 entry = zm_crc32 m \<and>
      ze_compressed_size entry = length (zm_data m) \<and> ze_uncompressed_size entry = zm_size m \<and>
      (zm_data m \<noteq> [] \<longrightarrow> (\<exists>r. entry_data_range entry (slice_at out h) (length out) = Inr r \<and>
         slice_at out r = zm_data m))"
    unfolding directory_entry_def
    by (intro ballI, rule member_found [OF _ fits assms(6) u64, where pre = "[]" and post = ?post])
      (simp_all add: out)
  with location show ?thesis by (intro exI [of _ location] exI [of _ "indexed 0 ms"]) simp
qed

definition plain_entry :: raw_zip_entry where
  "plain_entry = \<lparr>rz_index = \<lparr>ze_name = ''a.xml'', ze_flags = 0, ze_method = 0, ze_crc32 = 0,
     ze_compressed_size = 3, ze_uncompressed_size = 3, ze_local_header_offset = 7\<rparr>, rz_compressed = [1, 2, 3]\<rparr>"

lemma plain_entry_ok: "member_ok (member_of_entry plain_entry)"
  by (simp add: member_ok_def member_of_entry_def plain_entry_def validate_zip_path_def bytes_of_string_def
      utf8_step_def max_compressed_entry_bytes_def max_expanded_entry_bytes_def)

theorem compact_package_roundtrip_witness:
  "\<exists>out location index. build_raw_zip [plain_entry] [] = Inr out \<and>
     parse_end_of_central_directory out 0 (length out) = Inr location \<and>
     parse_central_directory (slice_at out (cl_range location)) (cl_entries location) (length out) = Inr index \<and>
     map fst index = [''a.xml'']"
proof -
  have "is_ok (build_raw_zip [plain_entry] [])"
    by (simp add: build_raw_zip_def append_raw_entry_def append_zip_entry_def plain_entry_def Let_def
        central_record_def u16_try_from_def u16_max_def u32_max_def is_ok_def)
  then obtain out where out: "build_raw_zip [plain_entry] [] = Inr out" by (auto simp: is_ok_iff)
  have len: "22 \<le> length out" using build_raw_zip_parts [OF out] by simp
  have "0 + 22 \<le> length out" using len by simp
  from compact_package_roundtrip [OF out refl _ _ _ _ _ this] out plain_entry_ok show ?thesis
    by (fastforce simp: package_members_def max_zip_entries_def max_central_directory_bytes_def
        member_of_entry_def plain_entry_def)
qed

text \<open>
  A parsed central directory is safe to use. Every entry that is found under a name has
  that name, a relative path without parent components, no encryption, a supported method,
  sizes within the limits and a local header inside the source; the names are distinct and
  as many as the end record says.
\<close>

theorem central_directory_safe:
  assumes "parse_central_directory bytes expected source_length = Inr index"
    and "directory_entry index name = Some entry"
  shows "length index = expected \<and> distinct (map fst index) \<and>
    ze_name entry = name \<and> entry_safe source_length entry \<and>
    take 1 name \<noteq> ''/'' \<and> ''..'' \<notin> set (split_char CHR ''/'' name)"
proof -
  have safe: "ze_name entry = name" "entry_safe source_length entry"
    using parsed_directory_safe [OF assms(1)] assms(2) by auto
  then have "validate_zip_path name = Inr ()" by (auto simp: entry_safe_def)
  with safe parsed_directory_safe [OF assms(1)] show ?thesis
    by (auto simp: validate_zip_path_def split: if_splits)
qed

theorem central_directory_safe_witness:
  "length (indexed 0 [member_of_entry plain_entry]) = 1 \<and>
   entry_safe 100 (entry_of 0 (member_of_entry plain_entry))"
proof -
  let ?ms = "[member_of_entry plain_entry]"
  have "member_fits (member_of_entry plain_entry)"
    by (simp add: member_fits_def member_of_entry_def plain_entry_def u16_max_def u32_max_def)
  then have parsed: "parse_central_directory (concat (map central_bytes (layout 0 ?ms))) (length ?ms) 100 = Inr (indexed 0 ?ms)"
    using plain_entry_ok
    by (intro parse_central_written) (simp_all add: u32_max_def u64_max_def member_of_entry_def plain_entry_def central_of_def)
  have "directory_entry (indexed 0 ?ms) ''a.xml'' = Some (entry_of 0 (member_of_entry plain_entry))"
    by (simp add: directory_entry_def member_of_entry_def plain_entry_def)
  from central_directory_safe [OF parsed this] show ?thesis by simp
qed

section \<open>Relationship targets\<close>

definition normal_part :: "string \<Rightarrow> bool" where
  "normal_part part \<longleftrightarrow> part \<noteq> [] \<and> part \<noteq> ''.'' \<and> part \<noteq> ''..'' \<and> CHR ''/'' \<notin> set part"

lemma resolve_parts_normal:
  assumes "resolve_parts parts rest = Inr out" and "\<forall>part \<in> set parts. normal_part part"
    and "\<forall>part \<in> set rest. CHR ''/'' \<notin> set part"
  shows "(\<forall>part \<in> set out. normal_part part) \<and> set out \<subseteq> set parts \<union> set rest"
  using assms
proof (induction parts rest rule: resolve_parts.induct)
  case (1 parts)
  then show ?case by simp
next
  case (2 parts part rest)
  consider "part = [] \<or> part = ''.''" | "part = ''..''" "parts \<noteq> []" | "normal_part part"
    using 2(4,6) by (auto simp: normal_part_def split: if_splits)
  then show ?case
  proof cases
    case 1
    then show ?thesis using 2 by auto
  next
    case 2
    then show ?thesis using "2.IH"(2) "2.prems" by (fastforce dest: in_set_butlastD)
  next
    case 3
    then show ?thesis using "2.IH"(3) "2.prems" by (fastforce simp: normal_part_def)
  qed
qed

lemma resolve_parts_id: "\<forall>part \<in> set rest. normal_part part \<Longrightarrow> resolve_parts parts rest = Inr (parts @ rest)"
  by (induction parts rest rule: resolve_parts.induct) (auto simp: normal_part_def)

lemma set_join_char: "set (join_char c parts) \<subseteq> insert c (\<Union>part \<in> set parts. set part)"
  by (induction c parts rule: join_char.induct) auto

lemma set_split_char: "part \<in> set (split_char c s) \<Longrightarrow> set part \<subseteq> set s"
proof (induction s arbitrary: part)
  case Nil
  then show ?case by simp
next
  case (Cons x s)
  then show ?case by (cases "split_char c s") (fastforce split: if_splits)+
qed

text \<open>
  A relationship cannot leave the package. When a target resolves against the folder of
  the workbook, the result is a non-empty path whose components are all proper names (no
  empty, current-folder or parent component), it passes the check of entry paths, and it
  is normal: resolved again from the package root it is itself.
\<close>

theorem resolved_target_normal:
  assumes "resolve_zip_target base target = Inr path"
  shows "path \<noteq> [] \<and> (\<forall>part \<in> set (split_char CHR ''/'' path). normal_part part) \<and>
    validate_zip_path path = Inr () \<and>
    (CHR '':'' \<in> set base \<or> resolve_zip_target [] path = Inr path)"
proof -
  let ?joined = "if base = [] then target else base @ ''/'' @ target"
  obtain parts where parts: "resolve_parts [] (split_char CHR ''/'' ?joined) = Inr parts"
    and path: "path = join_char CHR ''/'' parts" and valid: "validate_zip_path path = Inr ()"
    and target: "CHR '':'' \<notin> set target" "CHR 0x5C \<notin> set target"
    using assms by (auto simp: resolve_zip_target_def Let_def split: if_splits)
  have normal: "\<forall>part \<in> set parts. normal_part part" and
      from_joined: "set parts \<subseteq> set (split_char CHR ''/'' ?joined)"
    using resolve_parts_normal [OF parts] split_char_parts by auto
  have plain: "path \<noteq> []" "take 1 path \<noteq> ''/''" "CHR 0x5C \<notin> set path"
    using valid by (auto simp: validate_zip_path_def split: if_splits)
  then have "parts \<noteq> []" by (auto simp: path)
  then have split: "split_char CHR ''/'' path = parts"
    unfolding path by (rule split_char_join) (use normal in \<open>auto simp: normal_part_def\<close>)
  have "CHR '':'' \<in> set base \<or> CHR '':'' \<notin> set path"
  proof -
    have "set path \<subseteq> insert CHR ''/'' (set ?joined)"
      using set_join_char [of "CHR ''/''" parts] from_joined set_split_char unfolding path by fastforce
    then show ?thesis using target(1) by (auto split: if_splits)
  qed
  then have "CHR '':'' \<in> set base \<or> resolve_zip_target [] path = Inr path"
    using plain valid resolve_parts_id [OF normal, of "[]"] split
    by (auto simp: resolve_zip_target_def path [symmetric])
  then show ?thesis using plain(1) normal valid split by simp
qed

theorem resolved_target_normal_witness:
  "resolve_zip_target ''xl'' ''worksheets/../a.xml'' = Inr ''xl/a.xml'' \<and> validate_zip_path ''xl/a.xml'' = Inr ()"
proof -
  have run: "resolve_zip_target ''xl'' ''worksheets/../a.xml'' = Inr ''xl/a.xml''"
    by (simp add: resolve_zip_target_def validate_zip_path_def)
  with resolved_target_normal [OF run] show ?thesis by simp
qed

end
