(* ===== verification/Sparse_Reader.thy ===== *)
theory Sparse_Reader
  imports Range_Store
begin

text \<open>
  crates/tabulark-excel-wasm/src/range.rs: \<open>SparseReader\<close>, the \<open>Read + Seek\<close> view of the
  indexed ranges that a third-party compound-file parser reads through, and the compact
  prefix that is handed on when the parser is satisfied. A read that meets bytes that are
  not there fails with the window of the source to fetch.
\<close>

section \<open>Reading and seeking\<close>

definition range_chunk_bytes :: nat where
  "range_chunk_bytes = 1024 * 1024"

record sparse_reader =
  sp_indexed :: indexed_ranges
  sp_position :: nat
  sp_chunk_bytes :: nat

definition indexed_reader :: "indexed_ranges \<Rightarrow> sparse_reader" where
  "indexed_reader x = \<lparr>sp_indexed = x, sp_position = 0, sp_chunk_bytes = range_chunk_bytes\<rparr>"

text \<open>The errors of the two operations, by \<open>io::ErrorKind\<close>; \<open>WouldBlock\<close> carries the window.\<close>

datatype sparse_error =
    SparseInvalidInput string
  | SparseWouldBlock host_range
  | SparseOther string

type_synonym 'a sparse = "(sparse_reader, sparse_error, 'a) prog"

text \<open>
  \<open>Read::read\<close> with a buffer of \<open>capacity\<close> bytes: the result is what was copied to the front
  of the buffer.
\<close>

definition missing_window :: "sparse_reader \<Rightarrow> sparse_error + host_range" where
  "missing_window sp =
     (case host_range_new (sp_position sp)
             (min (sp_chunk_bytes sp) (ix_source_length (sp_indexed sp) - sp_position sp))
             (ix_source_length (sp_indexed sp)) of
        Inl e \<Rightarrow> Inl (SparseInvalidInput (error_display e))
      | Inr r \<Rightarrow> Inr r)"

definition sparse_read :: "nat \<Rightarrow> byte list sparse" where
  "sparse_read capacity =
     pbind pget (\<lambda>sp.
     let x = sp_indexed sp; position = sp_position sp;
         block = pbind (plift (missing_window sp)) (\<lambda>r. pfail (SparseWouldBlock r))
     in
     if capacity = 0 \<or> position = ix_source_length x then preturn []
     else if position > ix_source_length x
     then pfail (SparseInvalidInput ''sparse Excel reader is past EOF'')
     else
       case last_at_most position (ix_ranges x) of
         None \<Rightarrow> block
       | Some (start, bytes) \<Rightarrow>
           (case u64_try_from (position - start) of
              None \<Rightarrow> pfail (SparseInvalidInput ''range index exceeds usize'')
            | Some relative \<Rightarrow>
                if relative < length bytes
                then
                  let count = min (min capacity (length bytes - relative)) (ix_source_length x - position)
                  in pbind (plift (ok_or (checked_add position count)
                         (SparseOther ''sparse reader position overflows''))) (\<lambda>p.
                     pbind (pmodify (\<lambda>sp. sp\<lparr>sp_position := p\<rparr>)) (\<lambda>_.
                     preturn (take count (drop relative bytes))))
                else block))"

datatype seek_from = SeekStart nat | SeekEnd int | SeekCurrent int

definition checked_signed_offset :: "nat \<Rightarrow> int \<Rightarrow> sparse_error + nat" where
  "checked_signed_offset base delta =
     ok_or (if 0 \<le> delta then checked_add base (nat delta) else checked_sub base (nat (- delta)))
       (SparseInvalidInput ''Excel seek offset overflows'')"

definition sparse_seek :: "seek_from \<Rightarrow> nat sparse" where
  "sparse_seek position =
     pbind pget (\<lambda>sp.
     pbind (plift (case position of
         SeekStart value \<Rightarrow> Inr value
       | SeekEnd delta \<Rightarrow> checked_signed_offset (ix_source_length (sp_indexed sp)) delta
       | SeekCurrent delta \<Rightarrow> checked_signed_offset (sp_position sp) delta)) (\<lambda>target.
     if target > ix_source_length (sp_indexed sp)
     then pfail (SparseInvalidInput ''sparse Excel seek lies outside the source'')
     else pbind (pmodify (\<lambda>sp. sp\<lparr>sp_position := target\<rparr>)) (\<lambda>_. preturn target)))"

section \<open>What a reader sees\<close>

definition sparse_inv :: "sparse_reader \<Rightarrow> bool" where
  "sparse_inv sp \<longleftrightarrow> index_inv (sp_indexed sp) \<and> sp_position sp \<le> ix_source_length (sp_indexed sp) \<and>
     0 < sp_chunk_bytes sp"

lemma missing_window_ok:
  assumes "sparse_inv sp" and "sp_position sp < ix_source_length (sp_indexed sp)"
  shows "missing_window sp = Inr \<lparr>hr_offset = sp_position sp,
    hr_length = min (sp_chunk_bytes sp) (ix_source_length (sp_indexed sp) - sp_position sp)\<rparr>"
  using assms index_invD(1) by (fastforce simp: missing_window_def host_range_new_def sparse_inv_def)

lemma read_outside:
  "capacity = 0 \<or> sp_position sp = ix_source_length (sp_indexed sp) \<Longrightarrow> sparse_read capacity sp = (Inr [], sp)"
  by (auto simp: sparse_read_def prog_defs Let_def)

lemma read_missing:
  assumes "sparse_inv sp" and "0 < capacity" and "sp_position sp < ix_source_length (sp_indexed sp)"
    and "contents (sp_indexed sp) (sp_position sp) = None"
  shows "sparse_read capacity sp = (Inl (SparseWouldBlock \<lparr>hr_offset = sp_position sp,
    hr_length = min (sp_chunk_bytes sp) (ix_source_length (sp_indexed sp) - sp_position sp)\<rparr>), sp)"
proof -
  let ?x = "sp_indexed sp"
  have "ix_source_length ?x \<le> u64_max" using assms(1) index_invD(1) by (auto simp: sparse_inv_def)
  then have near: "sp_position sp - start \<le> u64_max" for start using assms(3) by simp
  show ?thesis
  proof (cases "last_at_most (sp_position sp) (ix_ranges ?x)")
    case None
    then show ?thesis using assms missing_window_ok [OF assms(1,3)]
      by (simp add: sparse_read_def prog_defs Let_def)
  next
    case (Some seg)
    obtain s b where seg: "seg = (s, b)" by force
    have "\<not> sp_position sp < s + length b" using assms(4) Some by (auto simp: contents_def stored_def seg)
    moreover have "s \<le> sp_position sp"
      using Some last_at_most_Some index_invD(4) assms(1) by (fastforce simp: sparse_inv_def seg)
    ultimately have "\<not> sp_position sp - s < length b" by simp
    then show ?thesis using assms near missing_window_ok [OF assms(1,3)]
      by (simp add: sparse_read_def prog_defs Let_def Some seg)
  qed
qed

lemma read_there:
  assumes "sparse_inv sp" and "0 < capacity" and "sp_position sp < ix_source_length (sp_indexed sp)"
    and "contents (sp_indexed sp) (sp_position sp) \<noteq> None"
  obtains bytes where "sparse_read capacity sp = (Inr bytes, sp\<lparr>sp_position := sp_position sp + length bytes\<rparr>)"
    and "bytes \<noteq> []" and "length bytes \<le> capacity"
    and "sp_position sp + length bytes \<le> ix_source_length (sp_indexed sp)"
    and "\<And>i. i < length bytes \<Longrightarrow> contents (sp_indexed sp) (sp_position sp + i) = Some (bytes ! i)"
proof -
  let ?x = "sp_indexed sp" and ?p = "sp_position sp"
  have inv: "index_inv ?x" using assms(1) by (simp add: sparse_inv_def)
  note ok = index_invD(2) [OF inv]
  obtain s b where seg: "(s, b) \<in> set (ix_ranges ?x)" and cover: "covers (s, b) ?p"
    using assms(4) stored_iff [OF ok] by (auto simp: contents_def)
  have last: "last_at_most ?p (ix_ranges ?x) = Some (s, b)" by (rule last_at_most_covering [OF ok seg cover])
  have fits: "ix_source_length ?x \<le> u64_max" "s + length b \<le> ix_source_length ?x"
    using index_invD(1) [OF inv] segments_okD(2) [OF ok seg] by auto
  let ?count = "min (min capacity (length b - (?p - s))) (ix_source_length ?x - ?p)"
  let ?bytes = "take ?count (drop (?p - s) b)"
  have count: "length ?bytes = ?count" "0 < ?count" using cover assms(2,3) by (auto simp: covers_def)
  have run: "sparse_read capacity sp = (Inr ?bytes, sp\<lparr>sp_position := ?p + ?count\<rparr>)"
  proof -
    have "?p - s < length b" "?p - s \<le> u64_max" "?p + ?count \<le> u64_max"
      using cover fits assms(3) by (auto simp: covers_def)
    then show ?thesis using assms(2,3) last by (simp add: sparse_read_def prog_defs Let_def)
  qed
  have at: "contents ?x (?p + i) = Some (?bytes ! i)" if "i < ?count" for i
  proof -
    have "covers (s, b) (?p + i)" using that cover by (auto simp: covers_def)
    then have "contents ?x (?p + i) = Some (b ! (?p + i - s))"
      using stored_iff [OF ok] seg unfolding contents_def by blast
    moreover have "?p - s \<le> length b" "?p - s + i = ?p + i - s" using cover by (auto simp: covers_def)
    ultimately show ?thesis using that by simp
  qed
  show thesis
  proof (rule that [of ?bytes])
    show "sparse_read capacity sp = (Inr ?bytes, sp\<lparr>sp_position := ?p + length ?bytes\<rparr>)"
      using run by (simp only: count(1))
    show "?bytes \<noteq> []" using count by (metis length_greater_0_conv)
    show "length ?bytes \<le> capacity" "?p + length ?bytes \<le> ix_source_length ?x"
      unfolding count(1) using assms(3) by auto
    show "contents ?x (?p + i) = Some (?bytes ! i)" if "i < length ?bytes" for i
      using at that unfolding count(1) .
  qed
qed

text \<open>Both operations keep the reader valid and leave the index alone.\<close>

datatype sparse_call = ReadCall nat | SeekCall seek_from

fun sparse_step :: "sparse_call \<Rightarrow> sparse_reader \<Rightarrow> sparse_reader" where
  "sparse_step (ReadCall capacity) sp = snd (sparse_read capacity sp)"
| "sparse_step (SeekCall position) sp = snd (sparse_seek position sp)"

lemma sparse_read_cases:
  assumes "sparse_inv sp"
  shows "sparse_read capacity sp = (Inr [], sp) \<and>
      (capacity = 0 \<or> sp_position sp = ix_source_length (sp_indexed sp)) \<or>
    (\<exists>r. sparse_read capacity sp = (Inl (SparseWouldBlock r), sp) \<and>
      hr_offset r = sp_position sp \<and> range_in (ix_source_length (sp_indexed sp)) r \<and>
      contents (sp_indexed sp) (sp_position sp) = None) \<or>
    (\<exists>bytes. sparse_read capacity sp = (Inr bytes, sp\<lparr>sp_position := sp_position sp + length bytes\<rparr>) \<and>
      bytes \<noteq> [] \<and> length bytes \<le> capacity \<and>
      sp_position sp + length bytes \<le> ix_source_length (sp_indexed sp) \<and>
      (\<forall>i < length bytes. contents (sp_indexed sp) (sp_position sp + i) = Some (bytes ! i)))"
    (is "?nothing \<or> ?blocked \<or> ?copied")
proof (cases "capacity = 0 \<or> sp_position sp = ix_source_length (sp_indexed sp)")
  case True
  then show ?thesis using read_outside [OF True] by blast
next
  case False
  then have inside: "0 < capacity" "sp_position sp < ix_source_length (sp_indexed sp)"
    using assms by (auto simp: sparse_inv_def)
  show ?thesis
  proof (cases "contents (sp_indexed sp) (sp_position sp)")
    case None
    have ?blocked
      using read_missing [OF assms inside None] assms inside(2)
      by (auto simp: range_in_def hr_end_def sparse_inv_def None)
    then show ?thesis by blast
  next
    case (Some v)
    then have "contents (sp_indexed sp) (sp_position sp) \<noteq> None" by simp
    from read_there [OF assms inside this] have ?copied by blast
    then show ?thesis by blast
  qed
qed

lemma sparse_step_keeps:
  assumes "sparse_inv sp"
  shows "sparse_inv (sparse_step call sp) \<and> sp_indexed (sparse_step call sp) = sp_indexed sp"
proof (cases call)
  case (ReadCall capacity)
  from sparse_read_cases [OF assms, of capacity] show ?thesis
    by (elim disjE exE conjE) (use assms in \<open>auto simp: ReadCall sparse_inv_def\<close>)
next
  case (SeekCall position)
  then show ?thesis using assms
    by (auto simp: sparse_seek_def prog_defs sparse_inv_def split: sum.split if_splits)
qed

interpretation reading: step_machine sparse_step "\<lambda>sp. sparse_inv sp \<and> sp_indexed sp = x" for x
  by unfold_locales (use sparse_step_keeps in auto)

text \<open>
  C38: A parser that reads through the sparse view reads the source. After any sequence of
  reads and seeks, a read on indexed ranges that agree with a source either copies the
  source's bytes at the position and moves on by as many, at least one unless the buffer
  is empty or the source has ended; or it fails, in the same place, with a window inside
  the source whose first byte is not indexed. No other error comes out.
\<close>

theorem sparse_read_is_source_read:
  assumes "ranges.holds source x" and "sp = fold sparse_step calls (indexed_reader x)"
  shows "case sparse_read capacity sp of
      (Inr bytes, sp') \<Rightarrow> bytes = take (length bytes) (drop (sp_position sp) source) \<and>
        sp_position sp' = sp_position sp + length bytes \<and> length bytes \<le> capacity \<and>
        (bytes = [] \<longrightarrow> capacity = 0 \<or> sp_position sp = length source)
    | (Inl e, sp') \<Rightarrow> sp' = sp \<and> (\<exists>r. e = SparseWouldBlock r \<and> range_in (length source) r \<and>
        hr_offset r = sp_position sp \<and> contents x (hr_offset r) = None)"
proof -
  have start: "sparse_inv (indexed_reader x) \<and> sp_indexed (indexed_reader x) = x"
    using assms(1) by (simp add: sparse_inv_def indexed_reader_def range_chunk_bytes_def ranges.holds_def)
  from reading.run_inv [OF this, of calls] have sp: "sparse_inv sp" "sp_indexed sp = x"
    unfolding assms(2) by simp_all
  have x: "ix_source_length x = length source" "agrees source (contents x)"
    using assms(1) by (simp_all add: ranges.holds_def)
  show ?thesis
    using sparse_read_cases [OF sp(1), of capacity]
  proof (elim disjE exE conjE)
    fix bytes
    assume copied: "sparse_read capacity sp = (Inr bytes, sp\<lparr>sp_position := sp_position sp + length bytes\<rparr>)"
      "bytes \<noteq> []" "length bytes \<le> capacity"
      "sp_position sp + length bytes \<le> ix_source_length (sp_indexed sp)"
      "\<forall>i < length bytes. contents (sp_indexed sp) (sp_position sp + i) = Some (bytes ! i)"
    have "bytes = take (length bytes) (drop (sp_position sp) source)"
    proof (rule nth_equalityI)
      show "length bytes = length (take (length bytes) (drop (sp_position sp) source))"
        using copied(4) sp x by simp
      fix i assume i: "i < length bytes"
      from copied(5) [rule_format, OF this] have "bytes ! i = source ! (sp_position sp + i)"
        using x(2) by (auto simp: sp agrees_def)
      then show "bytes ! i = take (length bytes) (drop (sp_position sp) source) ! i"
        using i copied(4) sp x by simp
    qed
    then show ?thesis using copied by simp
  qed (use sp x in simp_all)
qed

definition gap_reader :: sparse_reader where
  "gap_reader = indexed_reader \<lparr>ix_source_length = 8, ix_ranges = [(4, [7, 8])], ix_retained = 2\<rparr>"

lemma gap_reader_inv: "sparse_inv gap_reader"
  by (simp add: gap_reader_def indexed_reader_def sparse_inv_def range_chunk_bytes_def index_inv_def
      segments_ok_def ordered_def total_length_def u64_max_def)

lemma gap_reader_blocks:
  "sparse_read 2 gap_reader = (Inl (SparseWouldBlock \<lparr>hr_offset = 0, hr_length = 8\<rparr>), gap_reader)"
  by (simp add: gap_reader_def indexed_reader_def sparse_read_def prog_defs Let_def last_at_most_def
      last_entry_def missing_window_def host_range_new_def range_chunk_bytes_def u64_max_def)

theorem sparse_read_is_source_read_witness:
  "case sparse_read 2 (indexed_reader (sp_indexed gap_reader)) of
      (Inr bytes, sp') \<Rightarrow> bytes = take (length bytes) [1, 2, 3, 4, 7, 8, 5, 6]
    | (Inl e, sp') \<Rightarrow> \<exists>r. e = SparseWouldBlock r \<and> hr_offset r = 0"
proof -
  have "ranges.holds [1, 2, 3, 4, 7, 8, 5, 6] (sp_indexed gap_reader)"
    using gap_reader_inv
    by (auto simp: ranges.holds_def sparse_inv_def agrees_def gap_reader_def indexed_reader_def contents_def
        stored_def last_at_most_def last_entry_def nth_Cons' split: if_splits)
  from sparse_read_is_source_read [OF this, of _ "[]" 2] show ?thesis
    by (auto simp: indexed_reader_def split: prod.splits sum.splits)
qed

text \<open>
  The window a blocked reader asks for is not always one the index accepts. The window
  is cut at the chunk size and at the end of the source, not at the next segment; whenever
  a later byte in it is indexed already, delivering it is refused as an overlap, and the
  operation that waits for it fails.
\<close>

theorem blocked_window_refused:
  assumes "sparse_inv sp" and "sparse_read capacity sp = (Inl (SparseWouldBlock r), sp')"
    and "in_range r p" and "contents (sp_indexed sp) p \<noteq> None" and "length bytes = hr_length r"
  shows "indexed_insert r bytes (sp_indexed sp) = (Inl overlap_error, sp_indexed sp)"
proof -
  let ?x = "sp_indexed sp"
  have inv: "index_inv ?x" using assms(1) by (simp add: sparse_inv_def)
  have r: "hr_offset r = sp_position sp" "range_in (ix_source_length ?x) r" "contents ?x (hr_offset r) = None"
    using sparse_read_cases [OF assms(1), of capacity] assms(2) by auto
  have taken: "\<not> free_for r (contents ?x)" using assms(3,4) by (auto simp: free_for_def)
  have fits: "\<not> store_refused ?x r bytes" using r(2) assms(5) by (auto simp: store_refused_def range_in_def)
  have pos: "0 < hr_length r" using r(2) by (simp add: range_in_def)
  have "(hr_offset r, bytes) \<notin> set (ix_ranges ?x)"
    using r(3) pos assms(5) stored_None_iff [OF index_invD(2) [OF inv]] by (fastforce simp: contents_def covers_def)
  then show ?thesis using indexed_insert_taken [OF inv pos fits taken] by blast
qed

theorem blocked_window_refused_witness:
  "indexed_insert \<lparr>hr_offset = 0, hr_length = 8\<rparr> (replicate 8 0) (sp_indexed gap_reader) =
     (Inl overlap_error, sp_indexed gap_reader)"
  by (rule blocked_window_refused [OF gap_reader_inv gap_reader_blocks, of 4])
    (simp_all add: in_range_def hr_end_def gap_reader_def indexed_reader_def contents_def stored_def
      last_at_most_def last_entry_def)

section \<open>The compact prefix\<close>

lemma segments_ok_tail: "segments_ok limit (seg # m) \<Longrightarrow> segments_ok limit m"
  unfolding segments_ok_def ordered_def by auto

lemma stored_Cons:
  assumes "segments_ok limit ((s, b) # m)"
  shows "stored ((s, b) # m) p = (if covers (s, b) p then Some (b ! (p - s)) else stored m p)"
proof (cases "covers (s, b) p")
  case True
  then show ?thesis using stored_iff [OF assms] by auto
next
  case False
  have "stored ((s, b) # m) p = Some v \<longleftrightarrow> stored m p = Some v" for v
    using False by (auto simp: stored_iff [OF assms] stored_iff [OF segments_ok_tail [OF assms]])
  with False show ?thesis by (metis not_Some_eq)
qed

lemma copy_segments_run:
  assumes "segments_ok limit m" and "limit \<le> u64_max"
    and "\<forall>(s, b) \<in> set m. s + length b \<le> length target"
  shows "\<exists>t. copy_segments m target = Returns (Inr t) \<and> length t = length target \<and>
    (\<forall>p < length target. t ! p = (case stored m p of None \<Rightarrow> target ! p | Some v \<Rightarrow> v))"
  using assms(1,3)
proof (induction m arbitrary: target)
  case Nil
  then show ?case by (simp add: stored_def last_at_most_def last_entry_def)
next
  case (Cons seg m)
  obtain s b where seg: "seg = (s, b)" by force
  have fits: "s + length b \<le> length target" "s + length b \<le> u64_max"
    using Cons.prems segments_okD(2) [OF Cons.prems(1), of s b] assms(2) by (auto simp: seg)
  let ?t = "take s target @ b @ drop (s + length b) target"
  have len: "length ?t = length target" using fits by simp
  have copied: "?t ! p = (if covers (s, b) p then b ! (p - s) else target ! p)" if "p < length target" for p
    using that fits by (auto simp: nth_append covers_def)
  have rest: "copy_segments (seg # m) target = copy_segments m ?t"
    using fits by (simp add: seg copy_into_def)
  obtain t where "copy_segments m ?t = Returns (Inr t)" "length t = length ?t"
      "\<forall>p < length ?t. t ! p = (case stored m p of None \<Rightarrow> ?t ! p | Some v \<Rightarrow> v)"
    using Cons.IH [OF segments_ok_tail [OF Cons.prems(1)], of ?t] Cons.prems(2) len by auto
  moreover have "stored m p = None" if "covers (s, b) p" for p
    using covering_unique [OF Cons.prems(1), of s b p] that Cons.prems(1)
    by (fastforce simp: stored_None_iff [OF segments_ok_tail [OF Cons.prems(1)]] seg segments_ok_def ordered_def)
  ultimately show ?case
    unfolding rest using len copied stored_Cons [OF Cons.prems(1) [unfolded seg]]
    by (auto simp: seg split: option.split)
qed

lemma indexed_end_bound:
  assumes "\<forall>(s, b) \<in> set m. s + length b \<le> u64_max"
  shows "\<exists>n. rfold furthest acc m = Inr n \<and>
    acc \<le> n \<and> (\<forall>(s, b) \<in> set m. s + length b \<le> n) \<and> (n = acc \<or> (\<exists>(s, b) \<in> set m. n = s + length b))"
  using assms
proof (induction m arbitrary: acc)
  case Nil
  then show ?case by simp
next
  case (Cons seg m)
  obtain s b where seg: "seg = (s, b)" by force
  let ?acc = "max acc (s + length b)"
  have turn: "furthest acc seg = Inr ?acc" using Cons.prems by (simp add: seg furthest_def)
  obtain n where n: "rfold furthest ?acc m = Inr n" "?acc \<le> n" "\<forall>(s, b) \<in> set m. s + length b \<le> n"
      "n = ?acc \<or> (\<exists>(s, b) \<in> set m. n = s + length b)"
    using Cons.IH [of ?acc] Cons.prems by auto
  have "n = acc \<or> (\<exists>(s, b) \<in> set (seg # m). n = s + length b)"
    using n(4) by (auto simp: seg max_def split: if_splits)
  then show ?case using turn n by (intro exI [of _ n]) (simp add: seg)
qed

text \<open>
  The compact prefix is the indexed part of the source, without a panic. It is as long
  as the end of the last segment, or refused when that exceeds the limit; every indexed
  byte stands at its offset, every other byte is zero, and nothing is indexed beyond it.
\<close>

theorem compact_prefix_faithful:
  assumes "index_inv x"
  shows "\<exists>n. (\<forall>p. contents x p \<noteq> None \<longrightarrow> p < n) \<and> (n = 0 \<or> contents x (n - 1) \<noteq> None) \<and>
    (if n \<le> max_bytes
     then materialize_indexed_prefix x max_bytes =
       Returns (Inr (map (\<lambda>p. case contents x p of None \<Rightarrow> 0 | Some v \<Rightarrow> v) [0..<n]))
     else \<exists>e. materialize_indexed_prefix x max_bytes = Returns (Inl e) \<and> err_code e = ResourceLimit)"
proof -
  note ok = index_invD(2) [OF assms]
  have fits: "\<forall>(s, b) \<in> set (ix_ranges x). s + length b \<le> u64_max"
  proof clarify
    fix s b assume "(s, b) \<in> set (ix_ranges x)"
    from segments_okD(2) [OF ok this] index_invD(1) [OF assms] show "s + length b \<le> u64_max" by simp
  qed
  obtain n where n: "indexed_end x = Inr n" "\<forall>(s, b) \<in> set (ix_ranges x). s + length b \<le> n"
      "n = 0 \<or> (\<exists>(s, b) \<in> set (ix_ranges x). n = s + length b)"
    using indexed_end_bound [OF fits, of 0] unfolding indexed_end_def by blast
  have below: "p < n" if there: "contents x p \<noteq> None" for p
  proof -
    obtain s b where "(s, b) \<in> set (ix_ranges x)" "covers (s, b) p"
      using there unfolding contents_def stored_None_iff [OF ok] by auto
    then show ?thesis using n(2) by (auto simp: covers_def)
  qed
  have last: "n = 0 \<or> contents x (n - 1) \<noteq> None"
    using n(3)
  proof
    assume "\<exists>(s, b) \<in> set (ix_ranges x). n = s + length b"
    then obtain s b where seg: "(s, b) \<in> set (ix_ranges x)" "n = s + length b" by blast
    then have "covers (s, b) (n - 1)" using segments_okD(1) [OF ok seg(1)] by (cases b) (auto simp: covers_def)
    then show ?thesis using seg(1) stored_None_iff [OF ok] by (auto simp: contents_def)
  qed simp
  have small: "n \<le> u64_max" using n(3) fits by auto
  obtain t where t: "copy_segments (ix_ranges x) (replicate n 0) = Returns (Inr t)" "length t = n"
      "\<forall>p < n. t ! p = (case stored (ix_ranges x) p of None \<Rightarrow> replicate n 0 ! p | Some v \<Rightarrow> v)"
    using copy_segments_run [OF ok index_invD(1) [OF assms], of "replicate n 0", unfolded length_replicate, OF n(2)]
    by blast
  then have "t = map (\<lambda>p. case contents x p of None \<Rightarrow> 0 | Some v \<Rightarrow> v) [0..<n]"
    by (intro nth_equalityI) (auto simp: contents_def split: option.split)
  then have "if n \<le> max_bytes
     then materialize_indexed_prefix x max_bytes =
       Returns (Inr (map (\<lambda>p. case contents x p of None \<Rightarrow> 0 | Some v \<Rightarrow> v) [0..<n]))
     else \<exists>e. materialize_indexed_prefix x max_bytes = Returns (Inl e) \<and> err_code e = ResourceLimit"
    using n(1) small t(1) by (simp add: materialize_indexed_prefix_def)
  with below last show ?thesis by (intro exI [of _ n]) simp
qed

theorem compact_prefix_faithful_witness:
  "\<exists>n. if n \<le> 8 then materialize_indexed_prefix two_bytes 8 =
      Returns (Inr (map (\<lambda>p. case contents two_bytes p of None \<Rightarrow> 0 | Some v \<Rightarrow> v) [0..<n]))
    else \<exists>e. materialize_indexed_prefix two_bytes 8 = Returns (Inl e)"
  using compact_prefix_faithful [OF two_bytes_inv, of 8] by (auto split: if_splits)

end
