(* ===== verification/Entry_Fetch.thy ===== *)
theory Entry_Fetch
  imports Zip_Roundtrip Sparse_Reader Protocol
begin

text \<open>
  crates/tabulark-excel-wasm/src/wasm.rs: the part of an open operation that fetches the ZIP
  entries it needs. Each round either loads entries from the indexed ranges, asks the host
  for one missing range, or is complete; the host's results are stored by their action
  index. The reference is a reader that has the whole source at hand.
\<close>

section \<open>Storing results\<close>

definition max_range_source_bytes :: nat where
  "max_range_source_bytes = u32_max"

definition validate_range_source_length :: "nat \<Rightarrow> unit result" where
  "validate_range_source_length source_length =
     (if source_length > max_range_source_bytes
      then Inl (with_detail (with_detail (with_detail
             (new_error ResourceLimit ''Excel range source exceeds the exact 4 GiB-1 address limit'')
             ''resource'' (DetailString ''source-bytes''))
             ''requiredBytes'' (DetailNumber source_length))
             ''availableBytes'' (DetailNumber max_range_source_bytes))
      else Inr ())"

record owned_action_result =
  oar_descriptor :: adapter_action_result
  oar_bytes :: "byte list"

definition apply_indexed_result :: "host_range list \<Rightarrow> owned_action_result \<Rightarrow> unit indexing" where
  "apply_indexed_result expected outcome =
     pbind (plift (ok_or (u64_try_from (res_action_index (oar_descriptor outcome)))
       (new_error InvalidArgument ''Excel action result index exceeds usize''))) (\<lambda>index.
     if index \<ge> length expected
     then pfail (new_error InvalidArgument ''Excel action result index is outside the issued step'')
     else
       pbind pget (\<lambda>x.
       let eof_expected = hr_end (expected ! index) = ix_source_length x in
       if res_eof (oar_descriptor outcome) \<noteq> eof_expected
       then pfail (with_detail (with_detail
              (new_error InvalidArgument ''Excel action result EOF flag does not match its range'')
              ''actionIndex'' (DetailNumber index))
              ''expectedEof'' (DetailBool eof_expected))
       else indexed_insert (expected ! index) (oar_bytes outcome)))"

definition apply_indexed_results :: "host_range list \<Rightarrow> owned_action_result list \<Rightarrow> unit indexing" where
  "apply_indexed_results expected results = pforeach (apply_indexed_result expected) results"

section \<open>Fetching entries\<close>

record entry_fetch =
  ef_paths :: "string list"
  ef_next :: nat
  ef_entries :: "raw_zip_entry list"
  ef_index :: zip_directory_index

definition entry_loaded :: "raw_zip_entry list \<Rightarrow> string \<Rightarrow> bool" where
  "entry_loaded entries path \<longleftrightarrow> (\<exists>e \<in> set entries. raw_entry_name e = path)"

function skip_loaded :: "entry_fetch \<Rightarrow> entry_fetch" where
  "skip_loaded fetch =
     (if ef_next fetch < length (ef_paths fetch) \<and> entry_loaded (ef_entries fetch) (ef_paths fetch ! ef_next fetch)
      then skip_loaded (fetch\<lparr>ef_next := ef_next fetch + 1\<rparr>) else fetch)"
  by pat_completeness auto
termination
  by (relation "measure (\<lambda>fetch. length (ef_paths fetch) - ef_next fetch)") auto

declare skip_loaded.simps [simp del]

datatype fetch_advance = FetchNeed host_range | FetchComplete

text \<open>The bytes of a range, or the part of it to ask for.\<close>

definition bytes_or_missing :: "indexed_ranges \<Rightarrow> host_range \<Rightarrow> string \<Rightarrow> (host_range + byte list) result" where
  "bytes_or_missing x r message =
     (case indexed_bytes x r of
        Some bytes \<Rightarrow> Inr (Inr bytes)
      | None \<Rightarrow>
          rbind (first_missing x r) (\<lambda>m.
          map_sum id Inl (ok_or m (new_error RuntimeFailure message))))"

definition load_entry :: "indexed_ranges \<Rightarrow> zip_directory_index \<Rightarrow> string \<Rightarrow> (host_range + raw_zip_entry) result" where
  "load_entry x index path =
     rbind (ok_or (directory_entry index path)
       (with_detail (new_error ParseFailed ''XLSX required ZIP entry is missing'')
          ''entry'' (DetailString path))) (\<lambda>entry.
     rbind (entry_header_range entry (ix_source_length x)) (\<lambda>header_range.
     rbind (bytes_or_missing x header_range ''XLSX local header is indexed but unavailable'') (\<lambda>header.
     case header of
       Inl missing \<Rightarrow> Inr (Inl missing)
     | Inr header \<Rightarrow>
         rbind (entry_data_range entry header (ix_source_length x)) (\<lambda>data_range.
         rbind (bytes_or_missing x data_range ''XLSX entry data is indexed but unavailable'') (\<lambda>data.
         case data of
           Inl missing \<Rightarrow> Inr (Inl missing)
         | Inr data \<Rightarrow> map_sum id Inr (raw_entry_new entry data))))))"

lemma skip_loaded_fields:
  "ef_paths (skip_loaded f) = ef_paths f \<and> ef_entries (skip_loaded f) = ef_entries f \<and>
    ef_index (skip_loaded f) = ef_index f \<and> ef_next f \<le> ef_next (skip_loaded f)"
proof (induction f rule: skip_loaded.induct)
  case (1 f)
  then show ?case by (subst (1 2 3 4) skip_loaded.simps) auto
qed

function advance_entry_fetch :: "indexed_ranges \<Rightarrow> (entry_fetch, tabulark_error, fetch_advance) prog" where
  "advance_entry_fetch x fetch =
     (let fetch = skip_loaded fetch in
      if ef_next fetch < length (ef_paths fetch)
      then
        case load_entry x (ef_index fetch) (ef_paths fetch ! ef_next fetch) of
          Inl e \<Rightarrow> (Inl e, fetch)
        | Inr (Inl missing) \<Rightarrow> (Inr (FetchNeed missing), fetch)
        | Inr (Inr e) \<Rightarrow>
            advance_entry_fetch x (fetch\<lparr>ef_entries := ef_entries fetch @ [e], ef_next := ef_next fetch + 1\<rparr>)
      else (Inr FetchComplete, fetch))"
  by pat_completeness auto
termination
proof (relation "measure (\<lambda>(x, fetch). length (ef_paths fetch) - ef_next fetch)", goal_cases)
  case (2 x fetch f)
  then show ?case using skip_loaded_fields [of fetch] by auto
qed simp

declare advance_entry_fetch.simps [simp del]

section \<open>A reader with the whole source\<close>

definition read_entry :: "byte list \<Rightarrow> zip_directory_index \<Rightarrow> string \<Rightarrow> raw_zip_entry result" where
  "read_entry source index path =
     rbind (ok_or (directory_entry index path)
       (with_detail (new_error ParseFailed ''XLSX required ZIP entry is missing'')
          ''entry'' (DetailString path))) (\<lambda>entry.
     rbind (entry_header_range entry (length source)) (\<lambda>header_range.
     rbind (entry_data_range entry (slice_at source header_range) (length source)) (\<lambda>data_range.
     raw_entry_new entry (slice_at source data_range))))"

fun read_entries ::
    "byte list \<Rightarrow> zip_directory_index \<Rightarrow> raw_zip_entry list \<Rightarrow> string list \<Rightarrow> raw_zip_entry list result" where
  "read_entries source index entries [] = Inr entries"
| "read_entries source index entries (path # paths) =
     (if entry_loaded entries path then read_entries source index entries paths
      else rbind (read_entry source index path) (\<lambda>e. read_entries source index (entries @ [e]) paths))"

definition fetch_goal :: "byte list \<Rightarrow> entry_fetch \<Rightarrow> raw_zip_entry list result" where
  "fetch_goal source fetch =
     read_entries source (ef_index fetch) (ef_entries fetch) (drop (ef_next fetch) (ef_paths fetch))"

lemma drop_at: "i < length xs \<Longrightarrow> drop i xs = xs ! i # drop (i + 1) xs"
  by (simp add: Cons_nth_drop_Suc)

lemma skip_loaded_goal: "fetch_goal source (skip_loaded fetch) = fetch_goal source fetch"
proof (induction fetch rule: skip_loaded.induct)
  case (1 fetch)
  show ?case
  proof (cases "ef_next fetch < length (ef_paths fetch) \<and> entry_loaded (ef_entries fetch) (ef_paths fetch ! ef_next fetch)")
    case True
    have "fetch_goal source (fetch\<lparr>ef_next := ef_next fetch + 1\<rparr>) = fetch_goal source fetch"
      using True by (simp add: fetch_goal_def drop_at [of "ef_next fetch"])
    then show ?thesis using 1 True by (subst skip_loaded.simps) simp
  next
    case False
    then show ?thesis by (subst skip_loaded.simps) (simp only: if_False)
  qed
qed

lemma skip_loaded_stops:
  assumes "ef_next (skip_loaded f) < length (ef_paths (skip_loaded f))"
  shows "\<not> entry_loaded (ef_entries (skip_loaded f)) (ef_paths (skip_loaded f) ! ef_next (skip_loaded f))"
  using assms
proof (induction f rule: skip_loaded.induct)
  case (1 f)
  show ?case
  proof (cases "ef_next f < length (ef_paths f) \<and> entry_loaded (ef_entries f) (ef_paths f ! ef_next f)")
    case True
    then have "skip_loaded f = skip_loaded (f\<lparr>ef_next := ef_next f + 1\<rparr>)" by (subst skip_loaded.simps) simp
    then show ?thesis using 1 True by simp
  next
    case False
    then have "skip_loaded f = f" by (subst skip_loaded.simps) (simp only: if_False)
    then show ?thesis using False 1(2) by simp
  qed
qed

text \<open>The index serves the source's bytes or the first gap of the query.\<close>

lemma bytes_or_missing_cases:
  assumes "ranges.holds source x" and "range_in (length source) r"
  shows "bytes_or_missing x r message = Inr (Inr (slice_at source r)) \<or>
    (\<exists>g. bytes_or_missing x r message = Inr (Inl g) \<and> first_missing x r = Inr (Some g))"
proof (rule ranges.missing_cases [OF assms])
  assume "indexed_bytes x r = Some (slice_at source r)"
  then show ?thesis by (simp add: bytes_or_missing_def)
next
  fix g assume "indexed_bytes x r = None" "first_missing x r = Inr (Some g)"
  then show ?thesis by (simp add: bytes_or_missing_def)
qed

lemma entry_header_range_in: "entry_header_range entry n = Inr r \<Longrightarrow> range_in n r"
  by (simp add: entry_header_range_def host_range_new_in)

lemma entry_data_range_in: "entry_data_range entry header n = Inr r \<Longrightarrow> range_in n r"
  by (auto simp: entry_data_range_def host_range_new_in split: if_splits)

definition asks_missing :: "byte list \<Rightarrow> indexed_ranges \<Rightarrow> host_range \<Rightarrow> bool" where
  "asks_missing source x g \<longleftrightarrow> (\<exists>r. range_in (length source) r \<and> first_missing x r = Inr (Some g))"

lemma load_entry_cases:
  assumes holds: "ranges.holds source x"
  shows "load_entry x index path = map_sum id Inr (read_entry source index path) \<or>
    (\<exists>g. load_entry x index path = Inr (Inl g) \<and> asks_missing source x g)"
proof (cases "directory_entry index path")
  case None
  then show ?thesis by (simp add: load_entry_def read_entry_def)
next
  case (Some entry)
  have size: "ix_source_length x = length source" using holds by (simp add: ranges.holds_def)
  show ?thesis
  proof (cases "entry_header_range entry (length source)")
    case (Inl e)
    then show ?thesis by (simp add: load_entry_def read_entry_def Some size)
  next
    case (Inr h)
    from bytes_or_missing_cases [OF holds entry_header_range_in [OF Inr], of "''XLSX local header is indexed but unavailable''"]
    show ?thesis
    proof (elim disjE exE conjE)
      fix g assume "bytes_or_missing x h ''XLSX local header is indexed but unavailable'' = Inr (Inl g)"
        "first_missing x h = Inr (Some g)"
      then show ?thesis using entry_header_range_in [OF Inr]
        by (auto simp: load_entry_def Some size Inr asks_missing_def)
    next
      assume header: "bytes_or_missing x h ''XLSX local header is indexed but unavailable'' = Inr (Inr (slice_at source h))"
      show ?thesis
      proof (cases "entry_data_range entry (slice_at source h) (length source)")
        case (Inl e)
        then show ?thesis by (simp add: load_entry_def read_entry_def Some size Inr header)
      next
        case data: (Inr r)
        from bytes_or_missing_cases [OF holds entry_data_range_in [OF data], of "''XLSX entry data is indexed but unavailable''"]
        show ?thesis using entry_data_range_in [OF data]
          by (auto simp: load_entry_def read_entry_def Some size Inr header data asks_missing_def)
      qed
    qed
  qed
qed

lemma advance_entry_fetch_cases:
  assumes holds: "ranges.holds source x"
  shows "case advance_entry_fetch x fetch of
      (Inl e, f) \<Rightarrow> fetch_goal source fetch = Inl e
    | (Inr FetchComplete, f) \<Rightarrow> fetch_goal source fetch = Inr (ef_entries f)
    | (Inr (FetchNeed g), f) \<Rightarrow> asks_missing source x g \<and> fetch_goal source f = fetch_goal source fetch"
  using assms
proof (induction x fetch rule: advance_entry_fetch.induct)
  case (1 x fetch)
  let ?f = "skip_loaded fetch"
  let ?path = "ef_paths ?f ! ef_next ?f"
  show ?case
  proof (cases "ef_next ?f < length (ef_paths ?f)")
    case False
    then have "advance_entry_fetch x fetch = (Inr FetchComplete, ?f)"
      by (subst advance_entry_fetch.simps) (simp add: Let_def)
    moreover have "fetch_goal source ?f = Inr (ef_entries ?f)" using False by (simp add: fetch_goal_def)
    ultimately show ?thesis by (simp add: skip_loaded_goal)
  next
    case True
    have goal: "fetch_goal source fetch = rbind (read_entry source (ef_index ?f) ?path)
        (\<lambda>e. fetch_goal source (?f\<lparr>ef_entries := ef_entries ?f @ [e], ef_next := ef_next ?f + 1\<rparr>))"
      unfolding skip_loaded_goal [of source fetch, symmetric]
      using skip_loaded_stops [OF True] by (simp add: fetch_goal_def drop_at [OF True])
    from load_entry_cases [OF 1(2), of "ef_index ?f" ?path] show ?thesis
    proof (elim disjE exE conjE)
      fix g assume "load_entry x (ef_index ?f) ?path = Inr (Inl g)" and asks: "asks_missing source x g"
      then have "advance_entry_fetch x fetch = (Inr (FetchNeed g), ?f)"
        using True by (subst advance_entry_fetch.simps) (simp add: Let_def)
      then show ?thesis using asks by (simp add: skip_loaded_goal)
    next
      assume load: "load_entry x (ef_index ?f) ?path = map_sum id Inr (read_entry source (ef_index ?f) ?path)"
      show ?thesis
      proof (cases "read_entry source (ef_index ?f) ?path")
        case (Inl e)
        then have "advance_entry_fetch x fetch = (Inl e, ?f)"
          using True load by (subst advance_entry_fetch.simps) (simp add: Let_def)
        then show ?thesis by (simp add: goal Inl)
      next
        case (Inr e)
        let ?f' = "?f\<lparr>ef_entries := ef_entries ?f @ [e], ef_next := ef_next ?f + 1\<rparr>"
        have run: "advance_entry_fetch x fetch = advance_entry_fetch x ?f'"
          using True load Inr by (subst advance_entry_fetch.simps) (simp add: Let_def)
        have same: "fetch_goal source fetch = fetch_goal source ?f'" by (simp add: goal Inr)
        have loaded: "load_entry x (ef_index ?f) ?path = Inr (Inr e)" using load Inr by simp
        show ?thesis unfolding run same by (rule 1(1) [OF refl True loaded refl 1(2)])
      qed
    qed
  qed
qed

section \<open>Host and fetch together\<close>

text \<open>
  The host answers the one range a step issues with the source's bytes, as the result of
  action 0, which the operation stores: at most \<open>n\<close> rounds, and \<open>None\<close> when they were not enough.
\<close>

definition host_answer :: "byte list \<Rightarrow> host_range \<Rightarrow> owned_action_result" where
  "host_answer source g =
     \<lparr>oar_descriptor = \<lparr>res_action_index = 0, res_offset = hr_offset g, res_length = hr_length g,
        res_eof = (hr_end g = length source)\<rparr>, oar_bytes = slice_at source g\<rparr>"

lemma apply_host_answer:
  assumes "ix_source_length x = length source"
  shows "apply_indexed_results [g] [host_answer source g] x = indexed_insert g (slice_at source g) x"
  using assms
  by (auto simp: apply_indexed_results_def apply_indexed_result_def host_answer_def prog_defs
      split: prod.split sum.split)

fun fetch_rounds ::
    "nat \<Rightarrow> byte list \<Rightarrow> indexed_ranges \<Rightarrow> entry_fetch \<Rightarrow> raw_zip_entry list result option" where
  "fetch_rounds 0 source x fetch = None"
| "fetch_rounds (Suc n) source x fetch =
     (case advance_entry_fetch x fetch of
        (Inl e, f) \<Rightarrow> Some (Inl e)
      | (Inr FetchComplete, f) \<Rightarrow> Some (Inr (ef_entries f))
      | (Inr (FetchNeed g), f) \<Rightarrow>
          (case apply_indexed_results [g] [host_answer source g] x of
             (Inl e, y) \<Rightarrow> Some (Inl e)
           | (Inr _, y) \<Rightarrow> fetch_rounds n source y f))"

lemma fetch_rounds_goal:
  assumes "ranges.holds source x" and "unread (length source) (contents x) < n"
  shows "fetch_rounds n source x fetch = Some (fetch_goal source fetch)"
  using assms
proof (induction n arbitrary: x fetch)
  case 0
  then show ?case by simp
next
  case (Suc n)
  note cases = advance_entry_fetch_cases [OF Suc.prems(1), of fetch]
  obtain o1 f where run: "advance_entry_fetch x fetch = (o1, f)" by force
  show ?case
  proof (cases o1)
    case (Inl e)
    then show ?thesis using cases run by simp
  next
    case (Inr a)
    show ?thesis
    proof (cases a)
      case FetchComplete
      then show ?thesis using cases run Inr by simp
    next
      case (FetchNeed g)
      then have asks: "asks_missing source x g" and goal: "fetch_goal source f = fetch_goal source fetch"
        using cases run Inr by auto
      then obtain r where r: "range_in (length source) r" "first_missing x r = Inr (Some g)"
        by (auto simp: asks_missing_def)
      from ranges.deliver_missing [OF Suc.prems(1) this] obtain y where
        y: "indexed_insert g (slice_at source g) x = (Inr (), y)" "ranges.holds source y"
        "unread (length source) (contents y) < unread (length source) (contents x)" by blast
      moreover have "apply_indexed_results [g] [host_answer source g] x = (Inr (), y)"
        using apply_host_answer Suc.prems(1) y(1) by (simp add: ranges.holds_def)
      ultimately show ?thesis using Suc.IH [of y f] Suc.prems(2) goal run Inr FetchNeed by simp
    qed
  qed
qed

text \<open>
  C35: Fetching entries makes progress until it has read the source. When the host answers
  every request with the bytes of the source, no request is refused and each one brings
  bytes that were missing, so that after fewer rounds than bytes were missing, plus one,
  the fetch ends; and it ends with the entries, or the error, of a reader that has the
  whole source at hand.
\<close>

theorem entry_fetch_completes:
  assumes "ranges.holds source x" and "unread (length source) (contents x) < n"
  shows "fetch_rounds n source x fetch = Some (fetch_goal source fetch)"
  by (rule fetch_rounds_goal [OF assms])

text \<open>The entry of a package that was written, read with the whole package at hand.\<close>

lemma read_written_entry:
  assumes "build_raw_zip entries placeholders = Inr out" and "ms = package_members entries placeholders"
    and "\<forall>m \<in> set ms. member_ok m" and "distinct (map zm_name ms)" and "m \<in> set ms"
  shows "if zm_data m = [] then read_entry out (indexed 0 ms) (zm_name m) =
      Inl (new_error InvalidArgument ''Excel source range length must be positive'')
    else \<exists>e. read_entry out (indexed 0 ms) (zm_name m) = Inr e \<and> rz_compressed e = zm_data m \<and>
      ze_method (rz_index e) = zm_method m \<and> ze_crc32 (rz_index e) = zm_crc32 m \<and>
      ze_uncompressed_size (rz_index e) = zm_size m"
proof -
  note parts = build_raw_zip_parts [OF assms(1), folded assms(2)]
  let ?post = "concat (map central_bytes (layout 0 ms)) @
    end_record (length ms) (length (concat (map central_bytes (layout 0 ms)))) (length (bodies ms))"
  have fits: "\<forall>m \<in> set ms. member_ok m \<and> member_fits m" using parts assms(3) by blast
  have out: "out = [] @ bodies ms @ ?post" using parts by simp
  have u64: "length out \<le> u64_max" using parts by (simp add: u32_max_def u64_max_def)
  obtain entry h where entry: "map_of (indexed 0 ms) (zm_name m) = Some entry"
      and h: "entry_header_range entry (length out) = Inr h"
      and fields: "ze_method entry = zm_method m" "ze_crc32 entry = zm_crc32 m"
        "ze_compressed_size entry = length (zm_data m)" "ze_uncompressed_size entry = zm_size m"
      and data: "if zm_data m = [] then entry_data_range entry (slice_at out h) (length out) =
          Inl (new_error InvalidArgument ''Excel source range length must be positive'')
        else \<exists>r. entry_data_range entry (slice_at out h) (length out) = Inr r \<and> slice_at out r = zm_data m"
    using member_read [OF assms(5) fits assms(4) u64 out, of 0] by auto
  have small: "length (zm_data m) \<le> u64_max" using fits assms(5) by (auto simp: member_fits_def u32_max_def u64_max_def)
  show ?thesis
  proof (cases "zm_data m = []")
    case True
    then show ?thesis using entry h data by (simp add: read_entry_def directory_entry_def)
  next
    case False
    then obtain r where "entry_data_range entry (slice_at out h) (length out) = Inr r" "slice_at out r = zm_data m"
      using data by auto
    with False show ?thesis using entry h fields small
      by (simp add: read_entry_def directory_entry_def raw_entry_new_def)
  qed
qed

text \<open>
  C36: A written package is fetched back through what is written in it. For a compact package
  whose members the parser accepts, the parser finds the end record in any tail that contains
  it and lists the central directory; and with the directory it lists, an index that holds any
  part of the package, and a host that answers from it, fetching a member by its name ends
  with exactly its data, method, checksum and size. An empty member is listed but cannot be
  fetched: the fetch ends with the error of a range of length zero.
\<close>

theorem package_fetch_roundtrip:
  assumes "build_raw_zip entries placeholders = Inr out"
    and "ms = package_members entries placeholders" and "ms \<noteq> []" and "length ms \<le> max_zip_entries"
    and "\<forall>m \<in> set ms. member_ok m" and "distinct (map zm_name ms)"
    and "(\<Sum>m \<leftarrow> ms. 46 + length (zm_name m)) \<le> max_central_directory_bytes"
    and "k + 22 \<le> length out" and "ranges.holds out x" and "unread (length out) (contents x) < n"
  shows "\<exists>location index.
    parse_end_of_central_directory (drop k out) k (length out) = Inr location \<and>
    parse_central_directory (slice_at out (cl_range location)) (cl_entries location) (length out) = Inr index \<and>
    (\<forall>m \<in> set ms.
       let fetched = fetch_rounds n out x \<lparr>ef_paths = [zm_name m], ef_next = 0, ef_entries = [], ef_index = index\<rparr> in
       if zm_data m = [] then \<exists>e. fetched = Some (Inl e) \<and> err_code e = InvalidArgument
       else \<exists>e. fetched = Some (Inr [e]) \<and> rz_compressed e = zm_data m \<and> ze_method (rz_index e) = zm_method m \<and>
         ze_crc32 (rz_index e) = zm_crc32 m \<and> ze_uncompressed_size (rz_index e) = zm_size m)"
proof -
  obtain location where location: "parse_end_of_central_directory (drop k out) k (length out) = Inr location"
      "parse_central_directory (slice_at out (cl_range location)) (cl_entries location) (length out) = Inr (indexed 0 ms)"
    using written_package_parses [OF assms(1-8)] by blast
  have fetched: "fetch_rounds n out x \<lparr>ef_paths = [zm_name m], ef_next = 0, ef_entries = [], ef_index = indexed 0 ms\<rparr> =
      Some (map_sum id (\<lambda>e. [e]) (read_entry out (indexed 0 ms) (zm_name m)))" for m
    unfolding fetch_rounds_goal [OF assms(9,10)]
    by (cases "read_entry out (indexed 0 ms) (zm_name m)") (simp_all add: fetch_goal_def entry_loaded_def)
  have "\<forall>m \<in> set ms.
       let fetched = fetch_rounds n out x \<lparr>ef_paths = [zm_name m], ef_next = 0, ef_entries = [], ef_index = indexed 0 ms\<rparr> in
       if zm_data m = [] then \<exists>e. fetched = Some (Inl e) \<and> err_code e = InvalidArgument
       else \<exists>e. fetched = Some (Inr [e]) \<and> rz_compressed e = zm_data m \<and> ze_method (rz_index e) = zm_method m \<and>
         ze_crc32 (rz_index e) = zm_crc32 m \<and> ze_uncompressed_size (rz_index e) = zm_size m"
    unfolding fetched Let_def
    using read_written_entry [OF assms(1,2,5,6)] by (fastforce split: if_splits)
  with location show ?thesis by blast
qed

lemma unread_all [simp]: "unread n (contents (indexed_new m)) \<le> n"
  unfolding unread_def by (rule order_trans [OF card_mono [of "{..<n}"]]) auto

lemma indexed_new_holds: "length source \<le> u64_max \<Longrightarrow> ranges.holds source (indexed_new (length source))"
  by (simp add: ranges.holds_def indexed_new_inv)
    (simp add: indexed_new_def agrees_def contents_def stored_def last_at_most_def last_entry_def)

definition plain_package :: "byte list" where
  "plain_package = (case build_raw_zip [plain_entry] [] of Inr out \<Rightarrow> out | Inl e \<Rightarrow> [])"

lemma plain_package: "build_raw_zip [plain_entry] [] = Inr plain_package"
proof -
  have "is_ok (build_raw_zip [plain_entry] [])"
    by (simp add: build_raw_zip_def append_raw_entry_def append_zip_entry_def plain_entry_def Let_def
        central_record_def u16_try_from_def u16_max_def u32_max_def is_ok_def)
  then show ?thesis by (auto simp: is_ok_iff plain_package_def)
qed

lemma built_package_fits: "build_raw_zip entries placeholders = Inr out \<Longrightarrow> length out \<le> u64_max"
proof -
  assume "build_raw_zip entries placeholders = Inr out"
  note parts = build_raw_zip_parts [OF this]
  from arg_cong [where f = length, OF conjunct1 [OF parts]] conjunct1 [OF conjunct2 [OF conjunct2 [OF parts]]]
  show ?thesis unfolding length_append length_end_record by (simp only: u32_max_def u64_max_def)
qed

lemma built_package_ends: "build_raw_zip entries placeholders = Inr out \<Longrightarrow> 22 \<le> length out"
  using build_raw_zip_parts [of entries placeholders out] by simp

lemmas plain_package_fits = built_package_fits [OF plain_package]

lemma unread_new: "unread (length source) (contents (indexed_new m)) < Suc (length source)"
  using unread_all [of "length source" m] by (simp del: unread_all)

theorem entry_fetch_completes_witness:
  "fetch_rounds (Suc (length plain_package)) plain_package (indexed_new (length plain_package))
     \<lparr>ef_paths = [''a.xml'', ''b.xml''], ef_next = 0, ef_entries = [], ef_index = []\<rparr> \<noteq> None"
  using entry_fetch_completes [OF indexed_new_holds [OF plain_package_fits] unread_new] by simp

theorem package_fetch_roundtrip_witness:
  "\<exists>location index e. parse_end_of_central_directory plain_package 0 (length plain_package) = Inr location \<and>
    parse_central_directory (slice_at plain_package (cl_range location)) (cl_entries location) (length plain_package) = Inr index \<and>
    fetch_rounds (Suc (length plain_package)) plain_package (indexed_new (length plain_package))
      \<lparr>ef_paths = [''a.xml''], ef_next = 0, ef_entries = [], ef_index = index\<rparr> = Some (Inr [e]) \<and>
    rz_compressed e = [1, 2, 3]"
proof -
  let ?m = "member_of_entry plain_entry"
  have ms: "package_members [plain_entry] [] = [?m]" by (simp add: package_members_def)
  have m: "zm_data ?m = [1, 2, 3]" "zm_name ?m = ''a.xml''"
    by (simp_all add: member_of_entry_def plain_entry_def)
  have len: "0 + 22 \<le> length plain_package" using built_package_ends [OF plain_package] by simp
  from package_fetch_roundtrip [OF plain_package refl _ _ _ _ _ len indexed_new_holds [OF plain_package_fits] unread_new]
  show ?thesis
    using plain_entry_ok
    by (fastforce simp: ms m max_zip_entries_def max_central_directory_bytes_def Let_def)
qed

section \<open>Storing the results of a step\<close>

lemma indexed_insert_ok:
  assumes inv: "index_inv x" and "0 < hr_length r" and run: "indexed_insert r bytes x = (Inr (), y)"
    and "length bytes \<le> u64_max"
  shows "index_inv y \<and> ix_source_length y = ix_source_length x \<and> range_in (ix_source_length x) r \<and>
    length bytes = hr_length r \<and> contents y = with_slice (hr_offset r) bytes (contents x) \<and>
    (\<forall>p v. contents x p = Some v \<longrightarrow> contents y p = Some v)"
proof -
  have fits: "\<not> store_refused x r bytes"
  proof
    assume "store_refused x r bytes"
    from indexed_insert_refused [OF this assms(4)] run show False by auto
  qed
  then have inside: "range_in (ix_source_length x) r" "length bytes = hr_length r"
    using assms(2) by (auto simp: store_refused_def range_in_def)
  show ?thesis
  proof (cases "free_for r (contents x)")
    case True
    obtain z where z: "indexed_insert r bytes x = (Inr (), z)" "index_inv z"
        "ix_source_length z = ix_source_length x" "contents z = with_slice (hr_offset r) bytes (contents x)"
      using indexed_insert_free [OF inv inside True] by blast
    have "contents z p = Some v" if "contents x p = Some v" for p v
      using that True inside(2) unfolding z(4) by (auto simp: with_slice_def free_for_def in_range_def hr_end_def)
    then show ?thesis using z run inside by simp
  next
    case False
    from indexed_insert_taken [OF inv assms(2) fits False] run
    have "y = x" "(hr_offset r, bytes) \<in> set (ix_ranges x)" by auto
    then show ?thesis using inv inside with_slice_known [OF inv] by simp
  qed
qed

definition stored_result :: "host_range list \<Rightarrow> indexed_ranges \<Rightarrow> owned_action_result \<Rightarrow> bool" where
  "stored_result expected x outcome \<longleftrightarrow>
     res_action_index (oar_descriptor outcome) < length expected \<and>
     res_eof (oar_descriptor outcome) =
       (hr_end (expected ! res_action_index (oar_descriptor outcome)) = ix_source_length x) \<and>
     indexed_bytes x (expected ! res_action_index (oar_descriptor outcome)) = Some (oar_bytes outcome)"

lemma apply_indexed_result_ok:
  assumes inv: "index_inv x" and pos: "\<forall>r \<in> set expected. 0 < hr_length r"
    and run: "apply_indexed_result expected outcome x = (Inr (), y)" and "length (oar_bytes outcome) \<le> u64_max"
  shows "index_inv y \<and> ix_source_length y = ix_source_length x \<and> stored_result expected y outcome \<and>
    (\<forall>p v. contents x p = Some v \<longrightarrow> contents y p = Some v)"
proof -
  let ?i = "res_action_index (oar_descriptor outcome)"
  have i: "?i < length expected" and eof: "res_eof (oar_descriptor outcome) = (hr_end (expected ! ?i) = ix_source_length x)"
    and insert: "indexed_insert (expected ! ?i) (oar_bytes outcome) x = (Inr (), y)"
    using run by (auto simp: apply_indexed_result_def prog_defs Let_def split: if_splits sum.splits)
  have r: "0 < hr_length (expected ! ?i)" using pos i by simp
  note y = indexed_insert_ok [OF inv r insert assms(4)]
  have "contents y (hr_offset (expected ! ?i) + j) = Some (oar_bytes outcome ! j)" if "j < hr_length (expected ! ?i)" for j
    using y that by (simp add: with_slice_def)
  then have "indexed_bytes y (expected ! ?i) = Some (oar_bytes outcome)"
    using y by (subst indexed_bytes_iff) auto
  then have "stored_result expected y outcome" using y i eof by (auto simp: stored_result_def)
  with y show ?thesis by blast
qed

lemma stored_result_grows:
  assumes "stored_result expected x outcome" and "index_inv x" "index_inv y" and "ix_source_length y = ix_source_length x"
    and "\<And>p v. contents x p = Some v \<Longrightarrow> contents y p = Some v"
    and "\<forall>r \<in> set expected. range_in (ix_source_length x) r"
  shows "stored_result expected y outcome"
  using assms by (auto simp: stored_result_def indexed_bytes_iff)

lemma apply_indexed_results_ok:
  assumes "apply_indexed_results expected results x = (Inr (), y)" and "index_inv x"
    and "\<forall>r \<in> set expected. range_in (ix_source_length x) r"
    and "\<forall>outcome \<in> set results. length (oar_bytes outcome) \<le> u64_max"
  shows "index_inv y \<and> ix_source_length y = ix_source_length x \<and>
    (\<forall>outcome \<in> set results. stored_result expected y outcome) \<and>
    (\<forall>p v. contents x p = Some v \<longrightarrow> contents y p = Some v)"
  using assms unfolding apply_indexed_results_def
proof (induction results arbitrary: x)
  case Nil
  then show ?case by (simp add: prog_defs)
next
  case (Cons outcome results)
  obtain z where z: "apply_indexed_result expected outcome x = (Inr (), z)"
      and rest: "pforeach (apply_indexed_result expected) results z = (Inr (), y)"
    using Cons.prems(1) by (auto simp: prog_defs split: prod.splits sum.splits)
  have pos: "\<forall>r \<in> set expected. 0 < hr_length r" using Cons.prems(3) by (simp add: range_in_def)
  have one: "index_inv z \<and> ix_source_length z = ix_source_length x \<and> stored_result expected z outcome \<and>
      (\<forall>p v. contents x p = Some v \<longrightarrow> contents z p = Some v)"
    using apply_indexed_result_ok [OF Cons.prems(2) pos z] Cons.prems(4) by simp
  then have all: "index_inv y \<and> ix_source_length y = ix_source_length z \<and>
      (\<forall>outcome \<in> set results. stored_result expected y outcome) \<and>
      (\<forall>p v. contents z p = Some v \<longrightarrow> contents y p = Some v)"
    using Cons.IH [OF rest] Cons.prems(3,4) by simp
  have "stored_result expected y outcome"
    using stored_result_grows [of expected z outcome y] one all Cons.prems(3) by simp
  then show ?case using one all by simp
qed

text \<open>
  Storing the results of a step keeps every one of them. Results that are accepted name
  an issued range, carry the end-of-source flag of that range, and afterwards the index
  serves each issued range with exactly the bytes of its result, also when later results of
  the same step merged segments.
\<close>

theorem applied_results_readable:
  assumes "apply_indexed_results expected results x = (Inr (), y)" and "index_inv x"
    and "\<forall>r \<in> set expected. range_in (ix_source_length x) r"
    and "\<forall>outcome \<in> set results. length (oar_bytes outcome) \<le> u64_max"
  shows "index_inv y \<and> ix_source_length y = ix_source_length x \<and>
    (\<forall>outcome \<in> set results. stored_result expected y outcome) \<and>
    (\<forall>p v. contents x p = Some v \<longrightarrow> contents y p = Some v)"
  by (rule apply_indexed_results_ok [OF assms])

definition one_result :: owned_action_result where
  "one_result = \<lparr>oar_descriptor = \<lparr>res_action_index = 0, res_offset = 4, res_length = 2, res_eof = False\<rparr>,
     oar_bytes = [9, 6]\<rparr>"

theorem applied_results_readable_witness:
  "\<exists>y. apply_indexed_results [\<lparr>hr_offset = 4, hr_length = 2\<rparr>] [one_result] two_bytes = (Inr (), y) \<and>
     stored_result [\<lparr>hr_offset = 4, hr_length = 2\<rparr>] y one_result"
proof -
  let ?y = "\<lparr>ix_source_length = 8, ix_ranges = [(2, [7, 8, 9, 6])], ix_retained = 4\<rparr>"
  have run: "apply_indexed_results [\<lparr>hr_offset = 4, hr_length = 2\<rparr>] [one_result] two_bytes = (Inr (), ?y)"
    by (simp add: apply_indexed_results_def apply_indexed_result_def one_result_def two_bytes_def
        indexed_insert_def prog_defs hr_end_def already_indexed_def u64_try_from_def
        check_following_def first_from_def last_at_most_def last_entry_def last_below_def merge_previous_def
        merge_following_def segment_end_def segment_length_def ordered_insert_def ordered_remove_def
        u64_max_def)
  have "\<forall>r \<in> set [\<lparr>hr_offset = 4, hr_length = 2\<rparr>]. range_in (ix_source_length two_bytes) r"
    by (simp add: range_in_def hr_end_def two_bytes_def)
  moreover have "\<forall>outcome \<in> set [one_result]. length (oar_bytes outcome) \<le> u64_max"
    by (simp add: one_result_def u64_max_def)
  ultimately show ?thesis using applied_results_readable [OF run two_bytes_inv] run by simp
qed

end
