(* ===== verification/Excel_Types.thy ===== *)
theory Excel_Types
  imports Zip_Package
begin

text \<open>
  crates/tabulark-excel-wasm/src/lib.rs: formats, options, limits and the errors the
  workbook code shares.
\<close>

section \<open>Formats and containers\<close>

definition excel_adapter_id :: string where
  "excel_adapter_id = ''tabulark:excel''"

definition cfb_signature :: "byte list" where
  "cfb_signature = [0xD0, 0xCF, 0x11, 0xE0, 0xA1, 0xB1, 0x1A, 0xE1]"

definition zip_local_file_signature :: "byte list" where
  "zip_local_file_signature = [0x50, 0x4B, 3, 4]"

definition zip_empty_signature :: "byte list" where
  "zip_empty_signature = [0x50, 0x4B, 5, 6]"

definition zip_spanned_signature :: "byte list" where
  "zip_spanned_signature = [0x50, 0x4B, 7, 8]"

definition xlsx_workbook_content_type :: string where
  "xlsx_workbook_content_type =
     ''application/vnd.openxmlformats-officedocument.spreadsheetml.sheet.main+xml''"

datatype excel_format = Xls | Xlsx

datatype excel_format_hint = HintAuto | HintXls | HintXlsx

datatype excel_container = CompoundFile | ZipContainer

definition starts_with :: "'a list \<Rightarrow> 'a list \<Rightarrow> bool" where
  "starts_with s p \<longleftrightarrow> take (length p) s = p"

definition recognize_excel_container :: "byte list \<Rightarrow> excel_container result" where
  "recognize_excel_container bytes =
     (if starts_with bytes cfb_signature then Inr CompoundFile
      else if starts_with bytes zip_local_file_signature \<or> starts_with bytes zip_empty_signature \<or>
              starts_with bytes zip_spanned_signature
      then Inr ZipContainer
      else Inl (new_error ParseFailed ''source does not have a supported Excel container signature''))"

definition format_hint_name :: "excel_format_hint \<Rightarrow> string" where
  "format_hint_name hint =
     (case hint of HintAuto \<Rightarrow> ''auto'' | HintXls \<Rightarrow> ''xls'' | HintXlsx \<Rightarrow> ''xlsx'')"

definition format_name :: "excel_format \<Rightarrow> string" where
  "format_name format = (case format of Xls \<Rightarrow> ''xls'' | Xlsx \<Rightarrow> ''xlsx'')"

definition hint_accepts :: "excel_format_hint \<Rightarrow> excel_format \<Rightarrow> bool" where
  "hint_accepts hint actual =
     (case hint of HintAuto \<Rightarrow> True | HintXls \<Rightarrow> actual = Xls | HintXlsx \<Rightarrow> actual = Xlsx)"

definition ensure_format_hint :: "excel_format_hint \<Rightarrow> excel_format \<Rightarrow> unit result" where
  "ensure_format_hint hint actual =
     (if hint_accepts hint actual then Inr ()
      else Inl (with_detail (with_detail
             (new_error InvalidArgument ''Excel format option does not match the detected source signature'')
             ''requestedFormat'' (DetailString (format_hint_name hint)))
             ''detectedFormat'' (DetailString (format_name actual))))"

section \<open>Descriptors and warnings\<close>

record excel_table_descriptor =
  xd_id :: string
  xd_name :: string
  xd_workbook_ordinal :: nat
  xd_visibility :: sheet_visibility

datatype excel_warning_kind = SkippedSheet | MissingFormulaCache

record excel_warning =
  xw_kind :: excel_warning_kind
  xw_message :: string
  xw_table_id :: "string option"
  xw_row :: "nat option"
  xw_column :: "nat option"

section \<open>Options and limits\<close>

record excel_options =
  xo_format :: excel_format_hint
  xo_source_name :: "string option"

record excel_limits =
  max_source_bytes :: nat
  max_archive_entries :: nat
  max_zip_entry_bytes :: nat
  max_zip_uncompressed_bytes :: nat
  max_cfb_entries :: nat
  max_cfb_stream_bytes :: nat
  max_worksheets :: nat
  max_worksheet_rows :: nat
  max_worksheet_columns :: nat
  max_worksheet_cells :: nat
  max_excel_range_cells :: nat
  max_excel_batch_bytes :: nat
  max_warnings :: nat
  max_styles :: nat
  max_merged_cells :: nat
  max_layout_entries :: nat
  max_styled_cells :: nat

definition excel_limits_default :: excel_limits where
  "excel_limits_default = \<lparr>
     max_source_bytes = 128 * 1024 * 1024, max_archive_entries = 10000,
     max_zip_entry_bytes = 64 * 1024 * 1024, max_zip_uncompressed_bytes = 512 * 1024 * 1024,
     max_cfb_entries = 10000, max_cfb_stream_bytes = 512 * 1024 * 1024, max_worksheets = 1024,
     max_worksheet_rows = 1048576, max_worksheet_columns = 16384, max_worksheet_cells = 16000000,
     max_excel_range_cells = 250000, max_excel_batch_bytes = 32 * 1024 * 1024, max_warnings = 1024,
     max_styles = 65536, max_merged_cells = 100000, max_layout_entries = 100000,
     max_styled_cells = 1000000\<rparr>"

definition excel_limits_validate :: "excel_limits \<Rightarrow> unit result" where
  "excel_limits_validate l =
     (if max_source_bytes l = 0 \<or> max_archive_entries l = 0 \<or> max_zip_entry_bytes l = 0 \<or>
         max_zip_uncompressed_bytes l = 0 \<or> max_cfb_entries l = 0 \<or> max_cfb_stream_bytes l = 0 \<or>
         max_worksheets l = 0 \<or> max_worksheet_rows l = 0 \<or> max_worksheet_columns l = 0 \<or>
         max_worksheet_cells l = 0 \<or> max_excel_range_cells l = 0 \<or> max_excel_batch_bytes l = 0 \<or>
         max_warnings l = 0 \<or> max_styles l = 0 \<or> max_merged_cells l = 0 \<or>
         max_layout_entries l = 0 \<or> max_styled_cells l = 0
      then Inl (new_error InvalidArgument ''Excel resource limits must be greater than zero'')
      else if max_worksheet_rows l > 1048576 \<or> max_worksheet_columns l > 16384
      then Inl (with_detail (with_detail
             (new_error InvalidArgument ''Excel worksheet limits exceed the supported XLSX grid'')
             ''maxWorksheetRows'' (DetailNumber (max_worksheet_rows l)))
             ''maxWorksheetColumns'' (DetailNumber (max_worksheet_columns l)))
      else Inr ())"

record excel_runtime_config =
  xc_memory_budget_bytes :: nat
  xc_max_sources :: nat
  xc_limits :: excel_limits

definition excel_runtime_config_default :: excel_runtime_config where
  "excel_runtime_config_default =
     \<lparr>xc_memory_budget_bytes = 256 * 1024 * 1024, xc_max_sources = 8, xc_limits = excel_limits_default\<rparr>"

section \<open>Errors\<close>

definition excel_resource_limit :: "string \<Rightarrow> nat \<Rightarrow> nat \<Rightarrow> string \<Rightarrow> tabulark_error" where
  "excel_resource_limit resource required available message =
     with_detail (with_detail (with_detail (new_error ResourceLimit message)
       ''resource'' (DetailString resource)) ''requiredBytes'' (DetailNumber required))
       ''availableBytes'' (DetailNumber available)"

definition batch_limit_error :: "nat \<Rightarrow> tabulark_error" where
  "batch_limit_error available =
     with_detail (with_detail (with_detail
       (new_error ResourceLimit ''Excel range response exceeds the configured byte limit'')
       ''resource'' (DetailString ''batch''))
       ''requiredBytes'' (DetailNumber (saturating_add available 1)))
       ''availableBytes'' (DetailNumber available)"

definition closed_handle :: "string \<Rightarrow> tabulark_error" where
  "closed_handle kind = new_error HandleClosed (''Excel '' @ kind @ '' handle is closed'')"

fun contains_ascii_case_insensitive :: "string \<Rightarrow> string \<Rightarrow> bool" where
  "contains_ascii_case_insensitive [] needle \<longleftrightarrow> needle = []"
| "contains_ascii_case_insensitive (c # cs) needle \<longleftrightarrow>
     needle = [] \<or>
     length needle \<le> length (c # cs) \<and> eq_ignore_ascii_case (take (length needle) (c # cs)) needle \<or>
     contains_ascii_case_insensitive cs needle"

definition workbook_open_error :: "excel_format \<Rightarrow> string \<Rightarrow> tabulark_error" where
  "workbook_open_error format reason =
     (if contains_ascii_case_insensitive reason ''password'' \<or>
         contains_ascii_case_insensitive reason ''encrypt''
      then new_error UnsupportedFeature ''encrypted Excel workbooks are not supported''
      else with_detail (new_error ParseFailed (''failed to parse '' @ format_name format @ '' workbook''))
             ''reason'' (DetailString reason))"

definition worksheet_error :: "excel_format \<Rightarrow> string \<Rightarrow> string \<Rightarrow> tabulark_error" where
  "worksheet_error format name reason =
     with_detail (with_detail
       (new_error ParseFailed (''failed to read '' @ format_name format @ '' worksheet''))
       ''worksheet'' (DetailString name)) ''reason'' (DetailString reason)"

section \<open>Reservations\<close>

definition checked_reservation_bytes :: "nat \<Rightarrow> nat \<Rightarrow> nat \<Rightarrow> nat result" where
  "checked_reservation_bytes source_bytes parse_bytes additional_bytes =
     ok_or (Option.bind (checked_add source_bytes parse_bytes) (\<lambda>bytes. checked_add bytes additional_bytes))
       (new_error ResourceLimit ''Excel memory reservation estimate overflows'')"

definition ensure_reservation_budget :: "string \<Rightarrow> nat \<Rightarrow> nat \<Rightarrow> string \<Rightarrow> unit result" where
  "ensure_reservation_budget resource required_bytes available_bytes message =
     (if required_bytes > available_bytes
      then Inl (excel_resource_limit resource required_bytes available_bytes message) else Inr ())"

lemma checked_reservation_ok [simp]:
  "checked_reservation_bytes a b c = Inr n \<longleftrightarrow> a + b + c \<le> u64_max \<and> n = a + b + c"
  by (auto simp: checked_reservation_bytes_def bind_eq_Some_conv)

lemma ensure_reservation_ok [simp]:
  "ensure_reservation_budget resource required available message = Inr u \<longleftrightarrow> required \<le> available"
  by (auto simp: ensure_reservation_budget_def)

lemma excel_limits_validated:
  "excel_limits_validate l = Inr u \<Longrightarrow>
     0 < max_worksheet_rows l \<and> max_worksheet_rows l \<le> 1048576 \<and>
     0 < max_worksheet_columns l \<and> max_worksheet_columns l \<le> 16384 \<and>
     0 < max_source_bytes l \<and> 0 < max_excel_batch_bytes l \<and> 0 < max_warnings l"
  by (auto simp: excel_limits_validate_def split: if_splits)

end
