(* ===== verification/Xml_Events.thy ===== *)
theory Xml_Events
  imports Utf8 Errors
begin

text \<open>
  What the workbook code sees of the third-party XML reader: the events of a document in
  order, up to its end or the first error, each element with the attributes the reader finds
  in it. A reader is the parameter \<open>xml_env\<close>; no theorem relies on its answers.
\<close>

text \<open>One attribute, its value decoded and unescaped, or the text of an error.\<close>

datatype xml_attribute = XmlAttribute string "string + string" | XmlBadAttribute string

datatype xml_event =
    XmlStart string "xml_attribute list"
  | XmlEmpty string "xml_attribute list"
  | XmlEnd string
  | XmlEof
  | XmlDocType
  | XmlOther
  | XmlFailed string

record xml_env =
  xml_events :: "byte list \<Rightarrow> xml_event list"
  xml_local_name :: "string \<Rightarrow> string"

text \<open>The element an event opens, whether or not it is empty.\<close>

fun element_of :: "xml_event \<Rightarrow> (string \<times> xml_attribute list) option" where
  "element_of (XmlStart name attributes) = Some (name, attributes)"
| "element_of (XmlEmpty name attributes) = Some (name, attributes)"
| "element_of _ = None"

text \<open>
  \<open>local_name\<close> of src/presentation.rs and \<open>xml_local_name\<close> of src/lib.rs: what follows the
  last colon.
\<close>

definition after_last_colon :: "string \<Rightarrow> string" where
  "after_last_colon name = rev (takeWhile (\<lambda>c. c \<noteq> CHR '':'') (rev name))"

lemma after_last_colon_plain: "CHR '':'' \<notin> set name \<Longrightarrow> after_last_colon name = name"
  unfolding after_last_colon_def by (subst takeWhile_eq_all_conv [THEN iffD2]) auto

definition xml_error :: "string \<Rightarrow> string \<Rightarrow> tabulark_error" where
  "xml_error message reason = with_detail (new_error ParseFailed message) ''reason'' (DetailString reason)"

text \<open>\<open>String::from_utf8_lossy\<close>.\<close>

definition lossy_string :: "string \<Rightarrow> string" where
  "lossy_string s = string_of_bytes (utf8_lossy (bytes_of_string s))"

text \<open>\<open>xml_attributes\<close>: the attributes of an element by local name, the last one of a name.\<close>

type_synonym attribute_map = "string \<rightharpoonup> string"

fun collect_attribute :: "attribute_map \<Rightarrow> xml_attribute \<Rightarrow> attribute_map result" where
  "collect_attribute result (XmlBadAttribute reason) = Inl (xml_error ''invalid XLSX XML attribute'' reason)"
| "collect_attribute result (XmlAttribute key (Inl reason)) =
     Inl (xml_error ''invalid XLSX XML attribute value'' reason)"
| "collect_attribute result (XmlAttribute key (Inr v)) = Inr (result(lossy_string (after_last_colon key) \<mapsto> v))"

definition xml_attributes :: "xml_attribute list \<Rightarrow> attribute_map result" where
  "xml_attributes attributes = rfold collect_attribute Map.empty attributes"

end
