(* ===== verification/Excel_Layout.thy ===== *)
theory Excel_Layout
  imports Excel_Types Xml_Events Ordered_Map "HOL-Library.AList"
begin

text \<open>
  crates/tabulark-excel-wasm/src/presentation.rs: the static layout of a worksheet (extent,
  frozen panes, sized or hidden rows and columns, styled cells, merged regions), how parsing
  a worksheet builds it, and the queries the runtime answers from it. Sizes are the
  language's 64-bit floats, whose operations are a parameter (\<open>float_ops\<close>).
\<close>

section \<open>Data\<close>

record 'f float_ops =
  parse_f64 :: "string \<Rightarrow> 'f option"
  f64_size_ok :: "'f \<Rightarrow> bool"
  points_to_pixels :: "'f \<Rightarrow> 'f"
  column_width_to_pixels :: "'f \<Rightarrow> 'f"
  f64_floor :: "'f \<Rightarrow> nat"
  f64_positive :: "'f \<Rightarrow> bool"
  f64_ratio :: "nat \<Rightarrow> nat \<Rightarrow> 'f"

record 'f axis_entry =
  ax_index :: nat
  ax_size :: "'f option"
  ax_hidden :: "bool option"

record merged_cell =
  mc_row_start :: nat
  mc_row_end :: nat
  mc_column_start :: nat
  mc_column_end :: nat

type_synonym cell_coordinate = "nat \<times> nat"

record 'f worksheet_presentation =
  wp_extent_rows :: nat
  wp_extent_columns :: nat
  wp_frozen_rows :: nat
  wp_frozen_columns :: nat
  wp_rows :: "'f axis_entry ordered_map"
  wp_columns :: "'f axis_entry ordered_map"
  wp_styles :: "(cell_coordinate \<times> nat) list"
  wp_merged_cells :: "merged_cell list"

definition empty_layout :: "'f worksheet_presentation" where
  "empty_layout = \<lparr>wp_extent_rows = 0, wp_extent_columns = 0, wp_frozen_rows = 0, wp_frozen_columns = 0,
     wp_rows = [], wp_columns = [], wp_styles = [], wp_merged_cells = []\<rparr>"

definition layout_limit_error :: "string \<Rightarrow> nat \<Rightarrow> nat \<Rightarrow> string \<Rightarrow> tabulark_error" where
  "layout_limit_error resource required available message =
     with_detail (with_detail (with_detail (new_error ResourceLimit message)
       ''resource'' (DetailString resource)) ''required'' (DetailNumber required))
       ''available'' (DetailNumber available)"

section \<open>A1 references\<close>

text \<open>\<open>str::trim\<close>: the encodings of the characters with the White_Space property.\<close>

definition white_space :: "string list" where
  "white_space = map (map char_of)
     ([[9], [10], [11], [12], [13], [32], [0xC2, 0x85], [0xC2, 0xA0], [0xE1, 0x9A, 0x80]] @
      map (\<lambda>n. [0xE2, 0x80, n]) [0x80 ..< 0x8B] @
      [[0xE2, 0x80, 0xA8], [0xE2, 0x80, 0xA9], [0xE2, 0x80, 0xAF], [0xE2, 0x81, 0x9F], [0xE3, 0x80, 0x80 :: nat]])"

lemma white_space_not_empty: "[] \<notin> set white_space"
  by (auto simp: white_space_def)

definition strip_one :: "string list \<Rightarrow> string \<Rightarrow> string option" where
  "strip_one prefixes s =
     map_option (\<lambda>p. drop (length p) s) (List.find (\<lambda>p. p \<noteq> [] \<and> starts_with s p) prefixes)"

lemma strip_one_shorter:
  assumes "strip_one prefixes s = Some rest"
  shows "length rest < length s"
proof -
  obtain p where p: "p \<noteq> []" "take (length p) s = p" and rest: "rest = drop (length p) s"
    using assms by (auto simp: strip_one_def find_Some_iff starts_with_def)
  from arg_cong [OF p(2), of length] have "length p \<le> length s" by simp
  moreover have "0 < length p" using p(1) by simp
  ultimately show ?thesis unfolding rest length_drop by linarith
qed

function strip_all :: "string list \<Rightarrow> string \<Rightarrow> string" where
  "strip_all prefixes s =
     (case strip_one prefixes s of None \<Rightarrow> s | Some rest \<Rightarrow> strip_all prefixes rest)"
  by pat_completeness auto
termination
  by (relation "measure (length \<circ> snd)") (auto dest: strip_one_shorter)

declare strip_all.simps [simp del]

definition trim :: "string \<Rightarrow> string" where
  "trim s = rev (strip_all (map rev white_space) (rev (strip_all white_space s)))"

definition trim_start_char :: "char \<Rightarrow> string \<Rightarrow> string" where
  "trim_start_char c s = dropWhile (\<lambda>x. x = c) s"

definition is_ascii_letter :: "char \<Rightarrow> bool" where
  "is_ascii_letter c \<longleftrightarrow> (let k = of_char (ascii_lower c) :: nat in 97 \<le> k \<and> k \<le> 122)"

definition letter_value :: "char \<Rightarrow> nat" where
  "letter_value c = of_char (ascii_lower c) - 96"

text \<open>The leading letters of a reference as a number, and how many there are.\<close>

fun a1_letters :: "nat \<Rightarrow> nat \<Rightarrow> string \<Rightarrow> (nat \<times> nat) option" where
  "a1_letters letters n [] = Some (letters, n)"
| "a1_letters letters n (c # cs) =
     (if is_ascii_letter c
      then Option.bind (Option.bind (checked_mul letters 26) (\<lambda>l. checked_add l (letter_value c)))
             (\<lambda>l. a1_letters l (n + 1) cs)
      else Some (letters, n))"

definition parse_a1_cell :: "string \<Rightarrow> cell_coordinate option" where
  "parse_a1_cell value =
     (let value = trim_start_char (CHR ''$'') (trim value) in
      Option.bind (a1_letters 0 0 value) (\<lambda>(letters, n).
      if n = 0 then None
      else
        Option.bind (parse_u64 (trim_start_char (CHR ''$'') (drop n value))) (\<lambda>row.
        Option.bind (checked_sub row 1) (\<lambda>row.
        Option.bind (checked_sub letters 1) (\<lambda>column. Some (row, column))))))"

definition parse_a1_region :: "string \<Rightarrow> merged_cell option" where
  "parse_a1_region value =
     (let (start, last) = (case split_once '':'' value of Some p \<Rightarrow> p | None \<Rightarrow> (value, value)) in
      Option.bind (parse_a1_cell start) (\<lambda>start.
      Option.bind (parse_a1_cell last) (\<lambda>last.
      Option.bind (checked_add (max (fst start) (fst last)) 1) (\<lambda>row_end.
      Option.bind (checked_add (max (snd start) (snd last)) 1) (\<lambda>column_end.
      Some \<lparr>mc_row_start = min (fst start) (fst last), mc_row_end = row_end,
            mc_column_start = min (snd start) (snd last), mc_column_end = column_end\<rparr>)))))"

section \<open>Building a layout\<close>

definition update_layout_extent ::
    "nat \<Rightarrow> nat \<Rightarrow> excel_limits \<Rightarrow> string \<Rightarrow> string \<Rightarrow>
      'f worksheet_presentation \<Rightarrow> 'f worksheet_presentation result" where
  "update_layout_extent row_limit column_limit limits resource message layout =
     (if row_limit > max_worksheet_rows limits \<or> column_limit > max_worksheet_columns limits
      then Inl (with_detail (with_detail (with_detail (with_detail (with_detail
             (new_error ResourceLimit message)
             ''resource'' (DetailString resource))
             ''requiredRows'' (DetailNumber row_limit))
             ''availableRows'' (DetailNumber (max_worksheet_rows limits)))
             ''requiredColumns'' (DetailNumber column_limit))
             ''availableColumns'' (DetailNumber (max_worksheet_columns limits)))
      else
        let next_rows = max (wp_extent_rows layout) row_limit;
            next_columns = max (wp_extent_columns layout) column_limit
        in
        rbind (ok_or (checked_mul next_rows next_columns)
          (with_detail (new_error ResourceLimit ''Excel worksheet cell extent overflows'')
             ''resource'' (DetailString resource))) (\<lambda>cells.
        if cells > max_worksheet_cells limits
        then Inl (layout_limit_error resource cells (max_worksheet_cells limits) message)
        else Inr (layout\<lparr>wp_extent_rows := next_rows, wp_extent_columns := next_columns\<rparr>)))"

definition insert_axis_entry ::
    "nat \<Rightarrow> 'f option \<Rightarrow> bool option \<Rightarrow> excel_limits \<Rightarrow>
      'f axis_entry ordered_map \<Rightarrow> 'f axis_entry ordered_map result" where
  "insert_axis_entry index pixels hidden limits entries =
     (if map_of entries index = None \<and> length entries \<ge> max_layout_entries limits
      then Inl (layout_limit_error ''layout-entries'' (saturating_add (length entries) 1)
             (max_layout_entries limits)
             ''Excel worksheet exceeds the configured sparse layout entry limit'')
      else
        let entry = (case map_of entries index of
                       Some entry \<Rightarrow> entry
                     | None \<Rightarrow> \<lparr>ax_index = index, ax_size = None, ax_hidden = None\<rparr>);
            entry = (if pixels \<noteq> None then entry\<lparr>ax_size := pixels\<rparr> else entry);
            entry = (if hidden \<noteq> None then entry\<lparr>ax_hidden := hidden\<rparr> else entry)
        in Inr (ordered_insert index entry entries))"

text \<open>\<open>first..=last\<close>, each column with the same entry.\<close>

definition insert_axis_entries ::
    "nat \<Rightarrow> nat \<Rightarrow> 'f option \<Rightarrow> bool option \<Rightarrow> excel_limits \<Rightarrow>
      'f axis_entry ordered_map \<Rightarrow> 'f axis_entry ordered_map result" where
  "insert_axis_entries first final pixels hidden limits entries =
     rfold (\<lambda>entries index. insert_axis_entry index pixels hidden limits entries) entries [first..<Suc final]"

text \<open>A styled cell; \<open>what\<close> names the format in the message.\<close>

definition insert_cell_style ::
    "cell_coordinate \<Rightarrow> nat \<Rightarrow> excel_limits \<Rightarrow> string \<Rightarrow>
      'f worksheet_presentation \<Rightarrow> 'f worksheet_presentation result" where
  "insert_cell_style coordinate style limits message layout =
     (if map_of (wp_styles layout) coordinate = None \<and> length (wp_styles layout) \<ge> max_styled_cells limits
      then Inl (layout_limit_error ''styled-cells'' (saturating_add (length (wp_styles layout)) 1)
             (max_styled_cells limits) message)
      else Inr (layout\<lparr>wp_styles := AList.update coordinate style (wp_styles layout)\<rparr>))"

section \<open>SpreadsheetML worksheets\<close>

definition parse_xml_bool :: "string \<Rightarrow> bool option" where
  "parse_xml_bool value =
     (if value \<in> {''1'', ''true'', ''TRUE''} then Some True
      else if value \<in> {''0'', ''false'', ''FALSE''} then Some False else None)"

definition parse_axis_split :: "'f float_ops \<Rightarrow> string \<Rightarrow> nat option" where
  "parse_axis_split F value =
     Option.bind (parse_f64 F value) (\<lambda>v. if f64_size_ok F v then Some (f64_floor F v) else None)"

definition invalid_reference :: "string \<Rightarrow> string \<Rightarrow> tabulark_error" where
  "invalid_reference message reference =
     with_detail (new_error ParseFailed message) ''reference'' (DetailString reference)"

definition apply_xlsx_dimension ::
    "attribute_map \<Rightarrow> excel_limits \<Rightarrow> 'f worksheet_presentation \<Rightarrow> 'f worksheet_presentation result" where
  "apply_xlsx_dimension attributes limits layout =
     (case attributes ''ref'' of
        None \<Rightarrow> Inr layout
      | Some reference \<Rightarrow>
          rbind (ok_or (parse_a1_region reference)
            (invalid_reference ''XLSX worksheet dimension has an invalid A1 reference'' reference)) (\<lambda>region.
          update_layout_extent (mc_row_end region) (mc_column_end region) limits ''worksheet-dimensions''
            ''XLSX worksheet dimension exceeds the configured cell limit'' layout))"

definition apply_xlsx_pane ::
    "'f float_ops \<Rightarrow> attribute_map \<Rightarrow> 'f worksheet_presentation \<Rightarrow> 'f worksheet_presentation" where
  "apply_xlsx_pane F attributes layout =
     (let frozen = (case attributes ''state'' of
                      None \<Rightarrow> True
                    | Some state \<Rightarrow> eq_ignore_ascii_case state ''frozen'' \<or>
                                    eq_ignore_ascii_case state ''frozenSplit'') in
      if \<not> frozen then layout
      else
        let layout = (case Option.bind (attributes ''ySplit'') (parse_axis_split F) of
                        Some rows \<Rightarrow> layout\<lparr>wp_frozen_rows := rows\<rparr> | None \<Rightarrow> layout)
        in (case Option.bind (attributes ''xSplit'') (parse_axis_split F) of
              Some columns \<Rightarrow> layout\<lparr>wp_frozen_columns := columns\<rparr> | None \<Rightarrow> layout))"

definition one_based :: "attribute_map \<Rightarrow> string \<Rightarrow> nat option" where
  "one_based attributes key =
     Option.bind (Option.bind (attributes key) parse_u64) (\<lambda>v. checked_sub v 1)"

definition size_attribute ::
    "'f float_ops \<Rightarrow> ('f \<Rightarrow> 'f) \<Rightarrow> attribute_map \<Rightarrow> string \<Rightarrow> 'f option" where
  "size_attribute F pixels attributes key =
     (case Option.bind (attributes key) (parse_f64 F) of
        Some v \<Rightarrow> if f64_size_ok F v then Some (pixels v) else None
      | None \<Rightarrow> None)"

definition apply_xlsx_row ::
    "'f float_ops \<Rightarrow> attribute_map \<Rightarrow> excel_limits \<Rightarrow>
      'f worksheet_presentation \<Rightarrow> 'f worksheet_presentation result" where
  "apply_xlsx_row F attributes limits layout =
     (case one_based attributes ''r'' of
        None \<Rightarrow> Inr layout
      | Some row \<Rightarrow>
          if row \<ge> max_worksheet_rows limits
          then Inl (layout_limit_error ''worksheet-rows'' (saturating_add row 1) (max_worksheet_rows limits)
                 ''XLSX row layout exceeds the configured worksheet row limit'')
          else
            let size = size_attribute F (points_to_pixels F) attributes ''ht'';
                hidden = Option.bind (attributes ''hidden'') parse_xml_bool
            in if size \<noteq> None \<or> hidden \<noteq> None
               then map_sum id (\<lambda>rows. layout\<lparr>wp_rows := rows\<rparr>)
                      (insert_axis_entry row size hidden limits (wp_rows layout))
               else Inr layout)"

definition apply_xlsx_column ::
    "'f float_ops \<Rightarrow> attribute_map \<Rightarrow> excel_limits \<Rightarrow>
      'f worksheet_presentation \<Rightarrow> 'f worksheet_presentation result" where
  "apply_xlsx_column F attributes limits layout =
     (case (one_based attributes ''min'', one_based attributes ''max'') of
        (Some first, Some final) \<Rightarrow>
          if final < first
          then Inl (new_error ParseFailed ''XLSX column layout has an inverted min/max range'')
          else if final \<ge> max_worksheet_columns limits
          then Inl (layout_limit_error ''worksheet-columns'' (saturating_add final 1)
                 (max_worksheet_columns limits)
                 ''XLSX column layout exceeds the configured worksheet column limit'')
          else
            let size = size_attribute F (column_width_to_pixels F) attributes ''width'';
                hidden = Option.bind (attributes ''hidden'') parse_xml_bool
            in if size = None \<and> hidden = None then Inr layout
               else map_sum id (\<lambda>columns. layout\<lparr>wp_columns := columns\<rparr>)
                      (insert_axis_entries first final size hidden limits (wp_columns layout))
      | _ \<Rightarrow> Inr layout)"

definition apply_xlsx_merge ::
    "attribute_map \<Rightarrow> excel_limits \<Rightarrow> 'f worksheet_presentation \<Rightarrow> 'f worksheet_presentation result" where
  "apply_xlsx_merge attributes limits layout =
     (case attributes ''ref'' of
        None \<Rightarrow> Inr layout
      | Some reference \<Rightarrow>
          rbind (ok_or (parse_a1_region reference)
            (invalid_reference ''XLSX mergeCell has an invalid A1 reference'' reference)) (\<lambda>region.
          if mc_row_end region > max_worksheet_rows limits \<or>
             mc_column_end region > max_worksheet_columns limits
          then Inl (with_detail (with_detail (with_detail
                 (new_error ResourceLimit ''XLSX merged cell exceeds the configured worksheet dimensions'')
                 ''resource'' (DetailString ''merged-cells''))
                 ''availableRows'' (DetailNumber (max_worksheet_rows limits)))
                 ''availableColumns'' (DetailNumber (max_worksheet_columns limits)))
          else if length (wp_merged_cells layout) \<ge> max_merged_cells limits
          then Inl (layout_limit_error ''merged-cells''
                 (saturating_add (length (wp_merged_cells layout)) 1) (max_merged_cells limits)
                 ''XLSX workbook exceeds the configured merged-cell limit'')
          else
            rbind (update_layout_extent (mc_row_end region) (mc_column_end region) limits ''merged-cells''
              ''XLSX merged cell expands the worksheet beyond the configured cell limit'' layout) (\<lambda>layout.
            Inr (layout\<lparr>wp_merged_cells := wp_merged_cells layout @ [region]\<rparr>))))"

definition style_at :: "nat option list \<Rightarrow> nat \<Rightarrow> nat option" where
  "style_at styles raw = (if raw < length styles then styles ! raw else None)"

definition apply_xlsx_cell_style ::
    "attribute_map \<Rightarrow> nat option list \<Rightarrow> excel_limits \<Rightarrow>
      'f worksheet_presentation \<Rightarrow> 'f worksheet_presentation result" where
  "apply_xlsx_cell_style attributes styles limits layout =
     (case Option.bind (attributes ''r'') parse_a1_cell of
        None \<Rightarrow> Inr layout
      | Some (row, column) \<Rightarrow>
          if row \<ge> max_worksheet_rows limits \<or> column \<ge> max_worksheet_columns limits
          then Inl (with_detail
                 (new_error ResourceLimit ''XLSX styled cell exceeds the configured worksheet dimensions'')
                 ''resource'' (DetailString ''styled-cells''))
          else
            rbind (update_layout_extent (saturating_add row 1) (saturating_add column 1) limits
              ''worksheet-cells'' ''XLSX cell expands the worksheet beyond the configured cell limit''
              layout) (\<lambda>layout.
            let raw_style = (case Option.bind (attributes ''s'') parse_u64 of Some n \<Rightarrow> n | None \<Rightarrow> 0)
            in (case style_at styles raw_style of
                  None \<Rightarrow> Inr layout
                | Some style \<Rightarrow>
                    insert_cell_style (row, column) style limits
                      ''XLSX worksheet exceeds the configured styled-cell limit'' layout)))"

definition apply_xlsx_element ::
    "'f float_ops \<Rightarrow> nat option list \<Rightarrow> excel_limits \<Rightarrow> string \<Rightarrow> attribute_map \<Rightarrow>
      'f worksheet_presentation \<Rightarrow> 'f worksheet_presentation result" where
  "apply_xlsx_element F styles limits name attributes layout =
     (let name = after_last_colon name in
      if name = ''dimension'' then apply_xlsx_dimension attributes limits layout
      else if name = ''pane'' then Inr (apply_xlsx_pane F attributes layout)
      else if name = ''row'' then apply_xlsx_row F attributes limits layout
      else if name = ''col'' then apply_xlsx_column F attributes limits layout
      else if name = ''mergeCell'' then apply_xlsx_merge attributes limits layout
      else if name = ''c'' then apply_xlsx_cell_style attributes styles limits layout
      else Inr layout)"

definition doctype_error :: tabulark_error where
  "doctype_error = new_error UnsupportedFeature ''XLSX XML document type declarations are not supported''"

fun xlsx_worksheet_events ::
    "'f float_ops \<Rightarrow> nat option list \<Rightarrow> excel_limits \<Rightarrow> xml_event list \<Rightarrow>
      'f worksheet_presentation \<Rightarrow> 'f worksheet_presentation result" where
  "xlsx_worksheet_events F styles limits [] layout = Inr layout"
| "xlsx_worksheet_events F styles limits (event # events) layout =
     (case element_of event of
        Some (name, attributes) \<Rightarrow>
          rbind (xml_attributes attributes) (\<lambda>attributes.
          rbind (apply_xlsx_element F styles limits name attributes layout) (\<lambda>layout.
          xlsx_worksheet_events F styles limits events layout))
      | None \<Rightarrow>
          (case event of
             XmlEof \<Rightarrow> Inr layout
           | XmlDocType \<Rightarrow> Inl doctype_error
           | XmlFailed reason \<Rightarrow> Inl (xml_error ''failed to parse XLSX worksheet XML'' reason)
           | _ \<Rightarrow> xlsx_worksheet_events F styles limits events layout))"

definition parse_xlsx_worksheet ::
    "xml_env \<Rightarrow> 'f float_ops \<Rightarrow> byte list \<Rightarrow> nat option list \<Rightarrow> excel_limits \<Rightarrow>
      'f worksheet_presentation result" where
  "parse_xlsx_worksheet X F xml styles limits =
     xlsx_worksheet_events F styles limits (xml_events X xml) empty_layout"

end
