(* ===== verification/Biff8_Records.thy ===== *)
theory Biff8_Records
  imports Excel_Layout Byte_Order
begin

unbundle bit_operations_syntax

text \<open>
  crates/tabulark-excel-wasm/src/presentation.rs: the record stream of a BIFF8 workbook, the
  sheets it declares and the layout of one of them.
\<close>

section \<open>Records\<close>

definition u16_at :: "byte list \<Rightarrow> nat \<Rightarrow> nat option" where
  "u16_at data offset = map_option le_value (bytes_at data offset 2)"

definition u32_at :: "byte list \<Rightarrow> nat \<Rightarrow> nat option" where
  "u32_at data offset = map_option le_value (bytes_at data offset 4)"

definition or_zero :: "nat option \<Rightarrow> nat" where
  "or_zero v = (case v of Some n \<Rightarrow> n | None \<Rightarrow> 0)"

definition next_biff_record :: "byte list \<Rightarrow> nat \<Rightarrow> (nat \<times> byte list \<times> nat) option result" where
  "next_biff_record data position =
     (if position = length data then Inr None
      else
        rbind (ok_or (checked_add position 4)
          (new_error ParseFailed ''BIFF8 record header offset overflows'')) (\<lambda>header_end.
        if header_end > length data
        then Inl (new_error ParseFailed ''BIFF8 Workbook stream ends in a truncated record header'')
        else
          let header = take 4 (drop position data);
              record_type = or_zero (u16_at header 0);
              size = or_zero (u16_at header 2)
          in
          rbind (ok_or (checked_add header_end size)
            (new_error ParseFailed ''BIFF8 record length overflows'')) (\<lambda>record_end.
          if record_end > length data
          then Inl (new_error ParseFailed ''BIFF8 Workbook stream ends in a truncated record'')
          else Inr (Some (record_type, take size (drop header_end data), record_end)))))"

lemma next_biff_record_Some:
  "next_biff_record data position = Inr (Some (record_type, payload, after)) \<Longrightarrow>
     position < after \<and> after \<le> length data \<and> after = position + 4 + length payload \<and>
     payload = take (length payload) (drop (position + 4) data)"
  by (auto simp: next_biff_record_def Let_def split: if_splits)

lemma next_biff_record_None: "next_biff_record data position = Inr None \<Longrightarrow> position = length data"
  by (auto simp: next_biff_record_def Let_def split: if_splits)

section \<open>Strings\<close>

text \<open>\<open>char\<close> as the bytes of its UTF-8 encoding.\<close>

definition encode_utf8 :: "nat \<Rightarrow> string" where
  "encode_utf8 c = map char_of
     (if c < 0x80 then [c]
      else if c < 0x800 then [0xC0 + c div 64, 0x80 + c mod 64]
      else if c < 0x10000 then [0xE0 + c div 4096, 0x80 + c div 64 mod 64, 0x80 + c mod 64]
      else [0xF0 + c div 262144, 0x80 + c div 4096 mod 64, 0x80 + c div 64 mod 64, 0x80 + c mod 64])"

text \<open>\<open>String::from_utf16\<close>: a lone surrogate is an error.\<close>

fun decode_utf16 :: "nat list \<Rightarrow> string option" where
  "decode_utf16 [] = Some []"
| "decode_utf16 (u # us) =
     (if u < 0xD800 \<or> 0xE000 \<le> u then map_option (\<lambda>s. encode_utf8 u @ s) (decode_utf16 us)
      else if u < 0xDC00
      then (case us of
              v # vs \<Rightarrow>
                if 0xDC00 \<le> v \<and> v < 0xE000
                then map_option (\<lambda>s. encode_utf8 (0x10000 + (u - 0xD800) * 1024 + (v - 0xDC00)) @ s)
                       (decode_utf16 vs)
                else None
            | [] \<Rightarrow> None)
      else None)"

fun utf16_units :: "byte list \<Rightarrow> nat list" where
  "utf16_units (a # b # bs) = le_value [a, b] # utf16_units bs"
| "utf16_units _ = []"

text \<open>The characters of a string record after its count and its flags.\<close>

definition decode_biff8_chars :: "nat \<Rightarrow> bool \<Rightarrow> byte list \<Rightarrow> string option" where
  "decode_biff8_chars count wide bytes =
     (if wide
      then Option.bind (checked_mul count 2) (\<lambda>size.
             if length bytes < size then None else decode_utf16 (utf16_units (take size bytes)))
      else if length bytes < count then None
      else Some (concat (map (\<lambda>b. encode_utf8 (unat b)) (take count bytes))))"

definition decode_biff8_short_string :: "byte list \<Rightarrow> string option" where
  "decode_biff8_short_string data =
     (if length data < 2 then None
      else decode_biff8_chars (unat (data ! 0)) (data ! 1 AND 1 \<noteq> 0) (drop 2 data))"

definition decode_biff8_unicode_string :: "byte list \<Rightarrow> string option" where
  "decode_biff8_unicode_string data =
     (if length data < 3 then None
      else Option.bind (u16_at data 0) (\<lambda>count.
             decode_biff8_chars count (data ! 2 AND 1 \<noteq> 0) (drop 3 data)))"

section \<open>Bound sheets\<close>

record biff8_bound_sheet =
  bs_name :: string
  bs_offset :: nat

definition bound_sheet_of :: "nat \<Rightarrow> byte list \<Rightarrow> biff8_bound_sheet option" where
  "bound_sheet_of record_type data =
     (if record_type \<noteq> 0x85 \<or> length data < 8 then None
      else if data ! 5 \<noteq> 0 then None
      else map_option (\<lambda>name. \<lparr>bs_name = name, bs_offset = or_zero (u32_at data 0)\<rparr>)
             (decode_biff8_short_string (drop 6 data)))"

function biff8_bound_sheets_from ::
    "byte list \<Rightarrow> nat \<Rightarrow> biff8_bound_sheet list \<Rightarrow> biff8_bound_sheet list result" where
  "biff8_bound_sheets_from workbook position sheets =
     (case next_biff_record workbook position of
        Inl e \<Rightarrow> Inl e
      | Inr None \<Rightarrow> Inr sheets
      | Inr (Some (record_type, data, after)) \<Rightarrow>
          if record_type = 0xA then Inr sheets
          else biff8_bound_sheets_from workbook after
                 (case bound_sheet_of record_type data of
                    Some sheet \<Rightarrow> sheets @ [sheet] | None \<Rightarrow> sheets))"
  by pat_completeness auto
termination
  by (relation "measure (\<lambda>(workbook, position, sheets). length workbook - position)")
    (auto dest!: next_biff_record_Some)

declare biff8_bound_sheets_from.simps [simp del]

definition parse_biff8_bound_sheets :: "byte list \<Rightarrow> biff8_bound_sheet list result" where
  "parse_biff8_bound_sheets workbook = biff8_bound_sheets_from workbook 0 []"

section \<open>Worksheets\<close>

definition biff8_max_rows :: nat where
  "biff8_max_rows = 65536"

definition biff8_max_columns :: nat where
  "biff8_max_columns = 256"

definition update_biff8_extent ::
    "nat \<Rightarrow> nat \<Rightarrow> excel_limits \<Rightarrow> string \<Rightarrow>
      'f worksheet_presentation \<Rightarrow> 'f worksheet_presentation result" where
  "update_biff8_extent row_limit column_limit limits message layout =
     (if row_limit > biff8_max_rows \<or> column_limit > biff8_max_columns
      then Inl (with_detail (with_detail (with_detail (with_detail (with_detail
             (new_error ResourceLimit message)
             ''resource'' (DetailString ''worksheet-dimensions''))
             ''requiredRows'' (DetailNumber row_limit))
             ''availableRows'' (DetailNumber biff8_max_rows))
             ''requiredColumns'' (DetailNumber column_limit))
             ''availableColumns'' (DetailNumber biff8_max_columns))
      else update_layout_extent row_limit column_limit limits ''worksheet-dimensions'' message layout)"

definition apply_biff8_cell_style ::
    "nat \<Rightarrow> nat \<Rightarrow> nat \<Rightarrow> nat option list \<Rightarrow> excel_limits \<Rightarrow>
      'f worksheet_presentation \<Rightarrow> 'f worksheet_presentation result" where
  "apply_biff8_cell_style row column raw_style styles limits layout =
     (case style_at styles raw_style of
        None \<Rightarrow> Inr layout
      | Some style \<Rightarrow>
          insert_cell_style (row, column) style limits
            ''BIFF8 worksheet exceeds the configured styled-cell limit'' layout)"

definition biff8_cell_record :: "nat \<Rightarrow> bool" where
  "biff8_cell_record record_type \<longleftrightarrow>
     record_type \<in> {0x0006, 0x0201, 0x0203, 0x0204, 0x0205, 0x027E, 0x00D6, 0x00FD}"

definition biff8_multi_cell_record :: "nat \<Rightarrow> bool" where
  "biff8_multi_cell_record record_type \<longleftrightarrow> record_type \<in> {0x00BD, 0x00BE}"

definition biff8_cell ::
    "byte list \<Rightarrow> nat option list \<Rightarrow> excel_limits \<Rightarrow>
      'f worksheet_presentation \<Rightarrow> 'f worksheet_presentation result" where
  "biff8_cell data styles limits layout =
     (let row = or_zero (u16_at data 0); column = or_zero (u16_at data 2) in
      rbind (update_biff8_extent (saturating_add row 1) (saturating_add column 1) limits
        ''BIFF8 cell expands the worksheet beyond the configured cell limit'' layout) (\<lambda>layout.
      apply_biff8_cell_style row column (or_zero (u16_at data 4)) styles limits layout))"

definition multi_cell_width :: "nat \<Rightarrow> nat" where
  "multi_cell_width record_type = (if record_type = 0x00BD then 6 else 2)"

definition inverted_columns :: tabulark_error where
  "inverted_columns = new_error ParseFailed ''BIFF8 multi-cell record has an inverted column range''"

definition fewer_styles :: tabulark_error where
  "fewer_styles = new_error ParseFailed ''BIFF8 multi-cell record contains fewer styles than declared''"

definition biff8_multi_cell ::
    "nat \<Rightarrow> byte list \<Rightarrow> nat option list \<Rightarrow> excel_limits \<Rightarrow>
      'f worksheet_presentation \<Rightarrow> 'f worksheet_presentation result" where
  "biff8_multi_cell record_type data styles limits layout =
     (let row = or_zero (u16_at data 0);
          first_column = or_zero (u16_at data 2);
          last_column = or_zero (u16_at data (saturating_sub (length data) 2))
      in
      if last_column < first_column then Inl inverted_columns
      else
        rbind (update_biff8_extent (saturating_add row 1) (saturating_add last_column 1) limits
          ''BIFF8 multi-cell record expands the worksheet beyond the configured cell limit'' layout) (\<lambda>layout.
        let declared = last_column - first_column + 1;
            available = (length data - 6) div multi_cell_width record_type
        in
        if declared > available then Inl fewer_styles
        else
          rfold (\<lambda>layout index.
            rbind (ok_or (checked_add first_column index)
              (new_error ResourceLimit ''BIFF8 multi-cell column coordinate overflows'')) (\<lambda>column.
            apply_biff8_cell_style row column
              (or_zero (u16_at data (4 + index * multi_cell_width record_type))) styles limits layout))
            layout [0..<declared]))"

definition biff8_row ::
    "'f float_ops \<Rightarrow> byte list \<Rightarrow> excel_limits \<Rightarrow>
      'f worksheet_presentation \<Rightarrow> 'f worksheet_presentation result" where
  "biff8_row F data limits layout =
     (let row = or_zero (u16_at data 0);
          height = or_zero (u16_at data 6);
          flags = or_zero (u32_at data 12);
          max_rows = min (max_worksheet_rows limits) biff8_max_rows
      in
      if row \<ge> max_rows
      then Inl (layout_limit_error ''worksheet-rows'' (saturating_add row 1) max_rows
             ''BIFF8 row layout exceeds the configured worksheet row limit'')
      else
        map_sum id (\<lambda>rows. layout\<lparr>wp_rows := rows\<rparr>)
          (insert_axis_entry row
            (if height > 0 then Some (points_to_pixels F (f64_ratio F height 20)) else None)
            (if flags AND 0x20 \<noteq> 0 then Some True else None) limits (wp_rows layout)))"

definition biff8_columns ::
    "'f float_ops \<Rightarrow> byte list \<Rightarrow> excel_limits \<Rightarrow>
      'f worksheet_presentation \<Rightarrow> 'f worksheet_presentation result" where
  "biff8_columns F data limits layout =
     (let first = or_zero (u16_at data 0);
          final = or_zero (u16_at data 2);
          width = or_zero (u16_at data 4);
          flags = or_zero (u16_at data 8);
          max_columns = min (max_worksheet_columns limits) biff8_max_columns
      in
      if final < first \<or> final \<ge> max_columns
      then Inl (layout_limit_error ''worksheet-columns'' (saturating_add final 1) max_columns
             ''BIFF8 column layout exceeds the configured worksheet column limit'')
      else
        map_sum id (\<lambda>columns. layout\<lparr>wp_columns := columns\<rparr>)
          (insert_axis_entries first final
            (if width > 0 then Some (column_width_to_pixels F (f64_ratio F width 256)) else None)
            (if flags AND 1 \<noteq> 0 then Some True else None) limits (wp_columns layout)))"

definition biff8_merge_at ::
    "byte list \<Rightarrow> excel_limits \<Rightarrow>
      'f worksheet_presentation \<Rightarrow> nat \<Rightarrow> 'f worksheet_presentation result" where
  "biff8_merge_at data limits layout index =
     (if length (wp_merged_cells layout) \<ge> max_merged_cells limits
      then Inl (layout_limit_error ''merged-cells''
             (saturating_add (length (wp_merged_cells layout)) 1) (max_merged_cells limits)
             ''BIFF8 workbook exceeds the configured merged-cell limit'')
      else
        let start = 2 + index * 8;
            region = \<lparr>mc_row_start = or_zero (u16_at data start),
                      mc_row_end = saturating_add (or_zero (u16_at data (start + 2))) 1,
                      mc_column_start = or_zero (u16_at data (start + 4)),
                      mc_column_end = saturating_add (or_zero (u16_at data (start + 6))) 1\<rparr>
        in
        if mc_row_end region > mc_row_start region \<and> mc_column_end region > mc_column_start region
        then
          rbind (update_biff8_extent (mc_row_end region) (mc_column_end region) limits
            ''BIFF8 merged cell expands the worksheet beyond the configured cell limit'' layout) (\<lambda>layout.
          Inr (layout\<lparr>wp_merged_cells := wp_merged_cells layout @ [region]\<rparr>))
        else Inr layout)"

definition biff8_merges ::
    "byte list \<Rightarrow> excel_limits \<Rightarrow> 'f worksheet_presentation \<Rightarrow> 'f worksheet_presentation result" where
  "biff8_merges data limits layout =
     (let count = or_zero (u16_at data 0); available = (length data - 2) div 8 in
      rfold (biff8_merge_at data limits) layout [0..<min count available])"

text \<open>The local variables of the loop beside the layout: the pane and whether it is frozen.\<close>

record 'f biff8_sheet =
  b8_layout :: "'f worksheet_presentation"
  b8_pane :: "(nat \<times> nat) option"
  b8_frozen :: bool

definition biff8_sheet_record ::
    "'f float_ops \<Rightarrow> nat option list \<Rightarrow> excel_limits \<Rightarrow> nat \<Rightarrow> byte list \<Rightarrow>
      'f biff8_sheet \<Rightarrow> 'f biff8_sheet result" where
  "biff8_sheet_record F styles limits record_type data sheet =
     (let with_layout = map_sum id (\<lambda>layout. sheet\<lparr>b8_layout := layout\<rparr>);
          layout = b8_layout sheet
      in
      if record_type = 0x0200 \<and> length data \<ge> 12
      then with_layout (update_biff8_extent (or_zero (u32_at data 4)) (or_zero (u16_at data 10)) limits
             ''BIFF8 worksheet dimension exceeds the configured cell limit'' layout)
      else if biff8_cell_record record_type \<and> length data \<ge> 6
      then with_layout (biff8_cell data styles limits layout)
      else if biff8_multi_cell_record record_type \<and> length data \<ge> 6
      then with_layout (biff8_multi_cell record_type data styles limits layout)
      else if record_type = 0x023E \<and> length data \<ge> 2
      then Inr (sheet\<lparr>b8_frozen := (or_zero (u16_at data 0) AND 8 \<noteq> 0)\<rparr>)
      else if record_type = 0x0041 \<and> length data \<ge> 4
      then Inr (sheet\<lparr>b8_pane := Some (or_zero (u16_at data 0), or_zero (u16_at data 2))\<rparr>)
      else if record_type = 0x0208 \<and> length data \<ge> 16
      then with_layout (biff8_row F data limits layout)
      else if record_type = 0x007D \<and> length data \<ge> 10
      then with_layout (biff8_columns F data limits layout)
      else if record_type = 0x00E5 \<and> length data \<ge> 2
      then with_layout (biff8_merges data limits layout)
      else Inr sheet)"

function biff8_sheet_records ::
    "'f float_ops \<Rightarrow> nat option list \<Rightarrow> excel_limits \<Rightarrow> byte list \<Rightarrow> nat \<Rightarrow>
      'f biff8_sheet \<Rightarrow> 'f biff8_sheet result" where
  "biff8_sheet_records F styles limits workbook position sheet =
     (case next_biff_record workbook position of
        Inl e \<Rightarrow> Inl e
      | Inr None \<Rightarrow> Inr sheet
      | Inr (Some (record_type, data, after)) \<Rightarrow>
          if record_type = 0xA then Inr sheet
          else
            (case biff8_sheet_record F styles limits record_type data sheet of
               Inl e \<Rightarrow> Inl e
             | Inr sheet \<Rightarrow> biff8_sheet_records F styles limits workbook after sheet))"
  by pat_completeness auto
termination
  by (relation "measure (\<lambda>(F, styles, limits, workbook, position, sheet). length workbook - position)")
    (auto dest!: next_biff_record_Some)

declare biff8_sheet_records.simps [simp del]

definition finish_biff8_sheet :: "'f biff8_sheet \<Rightarrow> 'f worksheet_presentation" where
  "finish_biff8_sheet sheet =
     (case b8_pane sheet of
        Some (columns, rows) \<Rightarrow>
          if b8_frozen sheet \<or> columns > 0 \<or> rows > 0
          then (b8_layout sheet)\<lparr>wp_frozen_columns := columns, wp_frozen_rows := rows\<rparr>
          else b8_layout sheet
      | None \<Rightarrow> b8_layout sheet)"

definition parse_biff8_worksheet ::
    "'f float_ops \<Rightarrow> byte list \<Rightarrow> nat \<Rightarrow> nat option list \<Rightarrow> excel_limits \<Rightarrow>
      'f worksheet_presentation result" where
  "parse_biff8_worksheet F workbook offset styles limits =
     (if offset \<ge> length workbook
      then Inl (new_error ParseFailed ''BIFF8 worksheet offset is outside the Workbook stream'')
      else map_sum id finish_biff8_sheet
             (biff8_sheet_records F styles limits workbook offset
               \<lparr>b8_layout = empty_layout, b8_pane = None, b8_frozen = False\<rparr>))"

end
