(* ===== verification/A1_References.thy ===== *)
theory A1_References
  imports Excel_Layout
begin

text \<open>
  The names of columns (\<open>excel_column_name\<close> of crates/tabulark-excel-wasm/src/lib.rs) and the
  references that parsing accepts (\<open>parse_a1_cell\<close> of src/presentation.rs): bijective
  numeration in base 26, and that each reads what the other writes.
\<close>

section \<open>Column names\<close>

function column_letters :: "nat \<Rightarrow> string \<Rightarrow> string" where
  "column_letters v reverse =
     (if v > 0 then column_letters ((v - 1) div 26) (reverse @ [char_of (65 + (v - 1) mod 26)])
      else reverse)"
  by pat_completeness auto
termination
  by (relation "measure fst") (auto simp: div_le_dividend le_less_trans)

declare column_letters.simps [simp del]

definition excel_column_name :: "nat \<Rightarrow> string result" where
  "excel_column_name index =
     rbind (ok_or (checked_add index 1) (new_error ResourceLimit ''Excel column name index overflows'')) (\<lambda>v.
     let reverse = column_letters v [] in
     if utf8_valid (bytes_of_string (rev reverse)) then Inr (rev reverse)
     else Inl (new_error RuntimeFailure ''failed to construct an Excel column name''))"

text \<open>The letters of a number, most significant first.\<close>

function letters_of :: "nat \<Rightarrow> string" where
  "letters_of v = (if v > 0 then letters_of ((v - 1) div 26) @ [char_of (65 + (v - 1) mod 26)] else [])"
  by pat_completeness auto
termination
  by (relation "measure id") (auto simp: div_le_dividend le_less_trans)

declare letters_of.simps [simp del]

lemma column_letters_rev: "column_letters v reverse = reverse @ rev (letters_of v)"
proof (induction v reverse rule: column_letters.induct)
  case (1 v reverse)
  then show ?case by (subst column_letters.simps, subst letters_of.simps) simp
qed

lemma letters_of_Nil [simp]: "letters_of v = [] \<longleftrightarrow> v = 0"
  by (subst letters_of.simps) simp

definition upper_letter :: "char \<Rightarrow> bool" where
  "upper_letter c \<longleftrightarrow> (65 :: nat) \<le> of_char c \<and> of_char c \<le> (90 :: nat)"

lemma upper_letter_char_of: "d < 26 \<Longrightarrow> upper_letter (char_of (65 + d :: nat))"
  by (simp add: upper_letter_def)

lemma letters_of_upper: "c \<in> set (letters_of v) \<Longrightarrow> upper_letter c"
proof (induction v rule: letters_of.induct)
  case (1 v)
  then show ?case by (subst (asm) letters_of.simps) (auto simp: upper_letter_char_of split: if_splits)
qed

lemma utf8_ascii: "\<forall>b \<in> set bs. b < 0x80 \<Longrightarrow> utf8_valid bs"
  by (induction bs) (simp_all add: utf8_step_def)

lemma excel_column_name_ok:
  "excel_column_name index = (if index < u64_max then Inr (letters_of (index + 1))
     else Inl (new_error ResourceLimit ''Excel column name index overflows''))"
proof -
  have "b < 0x80" if mem: "b \<in> set (bytes_of_string (letters_of (index + 1)))" for b
  proof -
    obtain c where "c \<in> set (letters_of (index + 1))" and b: "b = word_of_nat (of_char c)"
      using mem unfolding bytes_of_string_def set_map by blast
    then have "of_char c \<le> (90 :: nat)" using letters_of_upper by (simp add: upper_letter_def)
    then show ?thesis unfolding b by (simp add: word_less_nat_alt unat_of_nat del: of_nat_of_char)
  qed
  then have "utf8_valid (bytes_of_string (letters_of (index + 1)))" by (intro utf8_ascii) blast
  then show ?thesis by (simp add: excel_column_name_def Let_def column_letters_rev not_less)
qed

section \<open>Trimming\<close>

lemma white_space_codes: "p \<in> set white_space \<Longrightarrow> c \<in> set p \<Longrightarrow> of_char c \<le> (32 :: nat) \<or> (127 :: nat) < of_char c"
  by (auto simp: white_space_def)

definition printable :: "string \<Rightarrow> bool" where
  "printable s \<longleftrightarrow> (\<forall>c \<in> set s. (32 :: nat) < of_char c \<and> of_char c \<le> (127 :: nat))"

lemma strip_all_printable:
  assumes "printable s" and "\<And>p c. p \<in> set prefixes \<Longrightarrow> c \<in> set p \<Longrightarrow> of_char c \<le> (32 :: nat) \<or> (127 :: nat) < of_char c"
  shows "strip_all prefixes s = s"
proof -
  have "\<not> (p \<noteq> [] \<and> starts_with s p)" if "p \<in> set prefixes" for p
  proof
    assume p: "p \<noteq> [] \<and> starts_with s p"
    then have "hd p \<in> set s" by (metis starts_with_def hd_in_set in_set_takeD)
    moreover have "hd p \<in> set p" using p by simp
    ultimately show False using assms(1) assms(2) [OF that, of "hd p"] by (auto simp: printable_def)
  qed
  then have "List.find (\<lambda>p. p \<noteq> [] \<and> starts_with s p) prefixes = None" by (simp add: find_None_iff)
  then show ?thesis by (subst strip_all.simps) (simp add: strip_one_def)
qed

lemma trim_printable: "printable s \<Longrightarrow> trim s = s"
proof -
  assume s: "printable s"
  then have "printable (rev s)" by (simp add: printable_def)
  moreover have "of_char c \<le> (32 :: nat) \<or> (127 :: nat) < of_char c" if "p \<in> set (map rev white_space)" "c \<in> set p" for p c
    using that white_space_codes [of "rev p" c] by auto
  ultimately have "strip_all (map rev white_space) (rev s) = rev s" by (rule strip_all_printable)
  then show ?thesis using strip_all_printable [OF s white_space_codes] by (simp add: trim_def)
qed

section \<open>Reading a reference\<close>

lemma upper_letter_read:
  assumes "upper_letter c"
  shows "is_ascii_letter c" and "letter_value c = of_char c - 64"
  using assms by (auto simp: upper_letter_def is_ascii_letter_def letter_value_def ascii_lower_def Let_def)

lemma a1_letters_snoc:
  assumes "\<forall>c \<in> set w. is_ascii_letter c"
  shows "a1_letters a n (w @ s) = Option.bind (a1_letters a n w) (\<lambda>(l, k). a1_letters l k s)"
  using assms
proof (induction a n w rule: a1_letters.induct)
  case (2 a n c cs)
  then show ?case by (cases "Option.bind (checked_mul a 26) (\<lambda>l. checked_add l (letter_value c))") simp_all
qed simp

lemma a1_letters_of:
  "v \<le> u64_max \<Longrightarrow> a1_letters 0 0 (letters_of v) = Some (v, length (letters_of v))"
proof (induction v rule: letters_of.induct)
  case (1 v)
  show ?case
  proof (cases "v = 0")
    case True
    then show ?thesis by (subst (1 2) letters_of.simps) simp
  next
    case False
    let ?q = "(v - 1) div 26" and ?c = "char_of (65 + (v - 1) mod 26 :: nat) :: char"
    have split: "letters_of v = letters_of ?q @ [?c]" using False by (subst letters_of.simps) simp
    have letters: "\<forall>c \<in> set (letters_of ?q). is_ascii_letter c" using letters_of_upper upper_letter_read by blast
    have c: "upper_letter ?c" by (rule upper_letter_char_of) simp
    have v: "v = ?q * 26 + ((v - 1) mod 26 + 1)" using False by presburger
    have bound: "?q * 26 \<le> v" by simp
    have ih: "a1_letters 0 0 (letters_of ?q) = Some (?q, length (letters_of ?q))"
      using 1 False by simp
    show ?thesis
      unfolding split a1_letters_snoc [OF letters] ih
      using upper_letter_read [OF c] v bound 1(2) by simp
  qed
qed

lemma printable_append [simp]: "printable (s @ t) \<longleftrightarrow> printable s \<and> printable t"
  by (auto simp: printable_def)

lemma printable_letters: "printable (letters_of v)"
  using letters_of_upper by (fastforce simp: printable_def upper_letter_def)

lemma digit_char_code: "d < 10 \<Longrightarrow> of_char (digit_char d) = 48 + d"
  by (simp add: digit_char_def)

lemma printable_dec: "printable (nat_to_dec n)"
  using nat_to_dec_digits by (fastforce simp: printable_def digit_char_code)

lemma column_letters_read: "column < u64_max \<Longrightarrow> a1_letters 0 0 (letters_of (column + 1)) = Some (column + 1, length (letters_of (column + 1)))"
  by (rule a1_letters_of) simp

lemma written_cell_read:
  assumes column: "column < u64_max" and "row < u64_max"
  shows "parse_a1_cell (letters_of (column + 1) @ nat_to_dec (row + 1)) = Some (row, column)"
proof -
  let ?name = "letters_of (column + 1)"
  let ?s = "?name @ nat_to_dec (row + 1)"
  have letters: "\<forall>c \<in> set ?name. is_ascii_letter c" using letters_of_upper upper_letter_read by blast
  obtain c cs where c: "?name = c # cs" "upper_letter c"
    using letters_of_upper [of _ "column + 1"] by (cases "letters_of (column + 1)") auto
  obtain d ds where d: "nat_to_dec (row + 1) = digit_char d # ds" "d < 10"
    using nat_to_dec_digits [of _ "row + 1"] by (cases "nat_to_dec (row + 1)") auto
  have "trim ?s = ?s" by (intro trim_printable) (simp add: printable_letters printable_dec)
  moreover have "trim_start_char (CHR ''$'') ?s = ?s"
    using c by (auto simp: trim_start_char_def upper_letter_def)
  moreover have "a1_letters l k (nat_to_dec (row + 1)) = Some (l, k)" for l k
    using d by (auto simp: is_ascii_letter_def ascii_lower_def digit_char_code Let_def)
  then have "a1_letters 0 0 ?s = Some (column + 1, length ?name)"
    unfolding a1_letters_snoc [OF letters] column_letters_read [OF column] by simp
  moreover have "trim_start_char (CHR ''$'') (nat_to_dec (row + 1)) = nat_to_dec (row + 1)"
    using d digit_char_code [of d] by (auto simp: trim_start_char_def)
  moreover have "parse_u64 (nat_to_dec (row + 1)) = Some (row + 1)"
    using assms(2) by (intro parse_u64_nat_to_dec) simp
  ultimately show ?thesis using c(1) by (simp add: parse_a1_cell_def Let_def)
qed

text \<open>
  C34: The program reads the references it writes. For every row and column within 64 bits, the
  column's name followed by the row counted from one, in upper case, is read back as exactly
  that cell; and different columns have different names.
\<close>

theorem column_name_roundtrip:
  assumes "excel_column_name column = Inr name" and "row < u64_max"
  shows "parse_a1_cell (name @ nat_to_dec (row + 1)) = Some (row, column) \<and>
    (\<forall>other. excel_column_name other = Inr name \<longrightarrow> other = column)"
proof -
  have name: "c < u64_max \<and> name = letters_of (c + 1)" if "excel_column_name c = Inr name" for c
    using that by (auto simp: excel_column_name_ok split: if_splits)
  have "other = column" if "excel_column_name other = Inr name" for other
    using name [OF that] name [OF assms(1)] column_letters_read [of other] column_letters_read [of column] by simp
  then show ?thesis using written_cell_read [of column row] name [OF assms(1)] assms(2) by blast
qed

lemma column_AA: "excel_column_name 26 = Inr ''AA''"
  by (simp add: excel_column_name_ok u64_max_def letters_of.simps [of 27] letters_of.simps [of "Suc 0"] char_of_def bit_0)

theorem column_name_roundtrip_witness: "parse_a1_cell (''AA'' @ nat_to_dec (4 + 1)) = Some (4, 26)"
  using column_name_roundtrip [OF column_AA, of 4] by (simp add: u64_max_def)

end
