(* ===== verification/Layout_Limits.thy ===== *)
theory Layout_Limits
  imports Biff8_Records Handle_Table A1_References
begin

text \<open>
  Every layout that parsing builds stays within the limits, from SpreadsheetML and from
  BIFF8: its extent, the cells the extent spans, its styled cells and merged regions (which
  lie inside the extent) and its sized rows and columns.
\<close>

section \<open>The invariant\<close>

definition axis_ok :: "excel_limits \<Rightarrow> nat \<Rightarrow> 'f axis_entry ordered_map \<Rightarrow> bool" where
  "axis_ok limits bound entries \<longleftrightarrow> ordered entries \<and> length entries \<le> max_layout_entries limits \<and>
     (\<forall>(index, entry) \<in> set entries. index < bound \<and> ax_index entry = index)"

definition styles_ok :: "excel_limits \<Rightarrow> 'f worksheet_presentation \<Rightarrow> bool" where
  "styles_ok limits layout \<longleftrightarrow> distinct (map fst (wp_styles layout)) \<and>
     length (wp_styles layout) \<le> max_styled_cells limits \<and>
     (\<forall>((row, column), style) \<in> set (wp_styles layout).
        row < wp_extent_rows layout \<and> column < wp_extent_columns layout)"

definition merges_ok :: "excel_limits \<Rightarrow> 'f worksheet_presentation \<Rightarrow> bool" where
  "merges_ok limits layout \<longleftrightarrow> length (wp_merged_cells layout) \<le> max_merged_cells limits \<and>
     (\<forall>region \<in> set (wp_merged_cells layout).
        mc_row_start region < mc_row_end region \<and> mc_row_end region \<le> wp_extent_rows layout \<and>
        mc_column_start region < mc_column_end region \<and> mc_column_end region \<le> wp_extent_columns layout)"

definition extent_ok :: "excel_limits \<Rightarrow> 'f worksheet_presentation \<Rightarrow> bool" where
  "extent_ok limits layout \<longleftrightarrow> wp_extent_rows layout \<le> max_worksheet_rows limits \<and>
     wp_extent_columns layout \<le> max_worksheet_columns limits \<and>
     wp_extent_rows layout * wp_extent_columns layout \<le> max_worksheet_cells limits"

definition layout_ok :: "excel_limits \<Rightarrow> 'f worksheet_presentation \<Rightarrow> bool" where
  "layout_ok limits layout \<longleftrightarrow> extent_ok limits layout \<and> styles_ok limits layout \<and> merges_ok limits layout \<and>
     axis_ok limits (max_worksheet_rows limits) (wp_rows layout) \<and>
     axis_ok limits (max_worksheet_columns limits) (wp_columns layout)"

definition keeps_layout :: "excel_limits \<Rightarrow> ('f worksheet_presentation \<Rightarrow> 'f worksheet_presentation result) \<Rightarrow> bool" where
  "keeps_layout limits f \<longleftrightarrow> (\<forall>layout layout'. layout_ok limits layout \<longrightarrow> f layout = Inr layout' \<longrightarrow> layout_ok limits layout')"

lemma keeps_layoutI:
  "(\<And>layout layout'. layout_ok limits layout \<Longrightarrow> f layout = Inr layout' \<Longrightarrow> layout_ok limits layout') \<Longrightarrow>
     keeps_layout limits f"
  by (simp add: keeps_layout_def)

lemma keeps_layoutD:
  "keeps_layout limits f \<Longrightarrow> f layout = Inr layout' \<Longrightarrow> layout_ok limits layout \<Longrightarrow> layout_ok limits layout'"
  by (simp add: keeps_layout_def)

lemma empty_layout_ok: "layout_ok limits empty_layout"
  by (simp add: layout_ok_def extent_ok_def styles_ok_def merges_ok_def axis_ok_def empty_layout_def)

section \<open>Operations\<close>

lemma length_ordered: "ordered m \<Longrightarrow> length m = card (fst ` set m)"
  using distinct_card [OF ordered_distinct] by (metis length_map list.set_map)

lemma length_ordered_insert:
  assumes "ordered m"
  shows "length (ordered_insert k v m) = (if map_of m k = None then Suc (length m) else length m)"
proof -
  have "fst ` set (ordered_insert k v m) = insert k (fst ` set m)" by (force simp: set_ordered_insert)
  then show ?thesis
    using length_ordered [OF assms] length_ordered [OF ordered_insert_ordered [OF assms], of k v]
    by (auto simp: map_of_eq_None_iff insert_absorb)
qed

lemma insert_axis_entry_ok:
  assumes "insert_axis_entry index pixels hidden limits entries = Inr entries'"
    and "axis_ok limits bound entries" and "index < bound"
  shows "axis_ok limits bound entries'"
proof -
  obtain entry where entries': "entries' = ordered_insert index entry entries"
      and room: "\<not> (map_of entries index = None \<and> length entries \<ge> max_layout_entries limits)"
      and known: "ax_index entry = index \<or> (\<exists>e. map_of entries index = Some e \<and> ax_index entry = ax_index e)"
    using assms(1) by (auto simp: insert_axis_entry_def Let_def split: if_splits option.splits)
  have ord: "ordered entries" using assms(2) by (simp add: axis_ok_def)
  have "ax_index entry = index"
    using known assms(2) map_of_SomeD by (fastforce simp: axis_ok_def)
  then show ?thesis
    using assms(2,3) room length_ordered_insert [OF ord, of index entry]
    by (auto simp: axis_ok_def entries' set_ordered_insert not_le split: if_splits)
qed

lemma insert_axis_entries_ok:
  assumes "insert_axis_entries first final pixels hidden limits entries = Inr entries'"
    and "axis_ok limits bound entries" and "final < bound"
  shows "axis_ok limits bound entries'"
proof -
  have "rfold (\<lambda>entries index. insert_axis_entry index pixels hidden limits entries) entries is = Inr entries' \<Longrightarrow>
      axis_ok limits bound entries \<Longrightarrow> \<forall>i \<in> set is. i < bound \<Longrightarrow> axis_ok limits bound entries'" for "is" entries
    by (induction "is" arbitrary: entries) (auto intro: insert_axis_entry_ok)
  from this [of entries "[first..<Suc final]"] show ?thesis
    using assms unfolding insert_axis_entries_def by (simp add: atLeastLessThanSuc_atLeastAtMost del: upt_Suc)
qed

lemma update_layout_extent_ok:
  assumes "update_layout_extent r c limits resource message layout = Inr layout'" and "layout_ok limits layout"
  shows "layout_ok limits layout' \<and> r \<le> wp_extent_rows layout' \<and> c \<le> wp_extent_columns layout' \<and>
    wp_merged_cells layout' = wp_merged_cells layout \<and> wp_styles layout' = wp_styles layout"
proof -
  have l: "layout' = layout\<lparr>wp_extent_rows := max (wp_extent_rows layout) r,
        wp_extent_columns := max (wp_extent_columns layout) c\<rparr>"
      and "r \<le> max_worksheet_rows limits" "c \<le> max_worksheet_columns limits"
      and "max (wp_extent_rows layout) r * max (wp_extent_columns layout) c \<le> max_worksheet_cells limits"
    using assms(1) by (auto simp: update_layout_extent_def Let_def split: if_splits)
  then show ?thesis using assms(2)
    by (fastforce simp: layout_ok_def extent_ok_def styles_ok_def merges_ok_def)
qed

lemma keeps_extent: "keeps_layout limits (update_layout_extent r c limits resource message)"
  by (rule keeps_layoutI) (simp add: update_layout_extent_ok)

lemma insert_cell_style_ok:
  assumes "insert_cell_style (row, column) style limits message layout = Inr layout'" and "layout_ok limits layout"
    and "row < wp_extent_rows layout" and "column < wp_extent_columns layout"
  shows "layout_ok limits layout' \<and> wp_extent_rows layout' = wp_extent_rows layout \<and>
    wp_extent_columns layout' = wp_extent_columns layout"
proof -
  let ?s = "AList.update (row, column) style (wp_styles layout)"
  have l: "layout' = layout\<lparr>wp_styles := ?s\<rparr>"
      and room: "\<not> (map_of (wp_styles layout) (row, column) = None \<and> length (wp_styles layout) \<ge> max_styled_cells limits)"
    using assms(1) by (auto simp: insert_cell_style_def split: if_splits)
  have "length ?s = (if map_of (wp_styles layout) (row, column) = None then Suc (length (wp_styles layout))
      else length (wp_styles layout))"
    by (simp add: map_of_eq_None_iff update_fresh update_present_length)
  moreover have "set ?s \<subseteq> insert ((row, column), style) (set (wp_styles layout))"
    using update_entry by fast
  ultimately show ?thesis using assms(2-4) room
    by (auto simp: layout_ok_def extent_ok_def styles_ok_def merges_ok_def l distinct_update not_le split: if_splits)
qed

text \<open>A cell whose coordinates the extent has just been grown to.\<close>

lemma styled_cell_ok:
  assumes "update_layout_extent (row + 1) (column + 1) limits resource message layout = Inr grown"
    and "layout_ok limits layout" and "insert_cell_style (row, column) style limits what grown = Inr layout'"
  shows "layout_ok limits layout'"
  using update_layout_extent_ok [OF assms(1,2)] insert_cell_style_ok [OF assms(3)] by simp

lemma rows_ok:
  "layout_ok limits layout \<Longrightarrow> axis_ok limits (max_worksheet_rows limits) rows \<Longrightarrow>
     layout_ok limits (layout\<lparr>wp_rows := rows\<rparr>)"
  by (simp add: layout_ok_def extent_ok_def styles_ok_def merges_ok_def)

lemma columns_ok:
  "layout_ok limits layout \<Longrightarrow> axis_ok limits (max_worksheet_columns limits) columns \<Longrightarrow>
     layout_ok limits (layout\<lparr>wp_columns := columns\<rparr>)"
  by (simp add: layout_ok_def extent_ok_def styles_ok_def merges_ok_def)

lemma panes_ok:
  "layout_ok limits layout \<Longrightarrow> layout_ok limits (layout\<lparr>wp_frozen_rows := r\<rparr>)"
  "layout_ok limits layout \<Longrightarrow> layout_ok limits (layout\<lparr>wp_frozen_columns := c\<rparr>)"
  by (simp_all add: layout_ok_def extent_ok_def styles_ok_def merges_ok_def)

lemma merge_ok:
  assumes "update_layout_extent (mc_row_end region) (mc_column_end region) limits resource message layout = Inr grown"
    and "layout_ok limits layout" and "length (wp_merged_cells layout) < max_merged_cells limits"
    and "mc_row_start region < mc_row_end region" and "mc_column_start region < mc_column_end region"
  shows "layout_ok limits (grown\<lparr>wp_merged_cells := wp_merged_cells grown @ [region]\<rparr>)"
proof -
  note grown = update_layout_extent_ok [OF assms(1,2)]
  then have "layout_ok limits grown" by simp
  then show ?thesis using grown assms(3-5)
    by (auto simp: layout_ok_def extent_ok_def styles_ok_def merges_ok_def)
qed

section \<open>SpreadsheetML\<close>

lemma parse_a1_region_spans:
  "parse_a1_region s = Some region \<Longrightarrow>
     mc_row_start region < mc_row_end region \<and> mc_column_start region < mc_column_end region"
  by (auto simp: parse_a1_region_def bind_eq_Some_conv split: prod.splits)

lemma one_based_bound: "one_based attributes key = Some n \<Longrightarrow> n < u64_max"
  by (auto simp: one_based_def bind_eq_Some_conv dest: parse_u64_bound)

lemma a1_letters_bound:
  "a1_letters letters n s = Some (l, k) \<Longrightarrow> letters \<le> u64_max \<Longrightarrow> l \<le> u64_max"
  by (induction letters n s rule: a1_letters.induct) (auto simp: bind_eq_Some_conv split: if_splits)

lemma a1_cell_bound:
  assumes "parse_a1_cell s = Some (row, column)"
  shows "row < u64_max \<and> column < u64_max"
proof -
  obtain letters n m where "a1_letters 0 0 (trim_start_char (CHR ''$'') (trim s)) = Some (letters, n)"
      and "parse_u64 (trim_start_char (CHR ''$'') (drop n (trim_start_char (CHR ''$'') (trim s)))) = Some m"
      and "1 \<le> m" "row = m - 1" "1 \<le> letters" "column = letters - 1"
    using assms by (auto simp: parse_a1_cell_def Let_def bind_eq_Some_conv split: prod.splits if_splits)
  then show ?thesis using a1_letters_bound [of 0 0 _ letters n] parse_u64_bound [of _ m] by fastforce
qed

lemma keeps_dimension: "keeps_layout limits (apply_xlsx_dimension attributes limits)"
  by (rule keeps_layoutI)
    (auto simp: apply_xlsx_dimension_def split: option.splits dest!: update_layout_extent_ok)

lemma keeps_pane: "layout_ok limits layout \<Longrightarrow> layout_ok limits (apply_xlsx_pane F attributes layout)"
  by (auto simp: apply_xlsx_pane_def Let_def panes_ok split: option.splits)

lemma layout_axes:
  "layout_ok limits layout \<Longrightarrow> axis_ok limits (max_worksheet_rows limits) (wp_rows layout)"
  "layout_ok limits layout \<Longrightarrow> axis_ok limits (max_worksheet_columns limits) (wp_columns layout)"
  by (simp_all add: layout_ok_def)

lemma row_entry_ok:
  assumes "layout_ok limits layout" and "index < max_worksheet_rows limits"
    and "map_sum id (\<lambda>rows. layout\<lparr>wp_rows := rows\<rparr>) (insert_axis_entry index pixels hidden limits (wp_rows layout)) = Inr layout'"
  shows "layout_ok limits layout'"
  using assms insert_axis_entry_ok [OF _ layout_axes(1) [OF assms(1)] assms(2)] rows_ok [OF assms(1)]
  by (auto simp: map_sum_Inr_iff)

lemma column_entries_ok:
  assumes "layout_ok limits layout" and "final < max_worksheet_columns limits"
    and "map_sum id (\<lambda>columns. layout\<lparr>wp_columns := columns\<rparr>)
      (insert_axis_entries first final pixels hidden limits (wp_columns layout)) = Inr layout'"
  shows "layout_ok limits layout'"
  using assms insert_axis_entries_ok [OF _ layout_axes(2) [OF assms(1)] assms(2)] columns_ok [OF assms(1)]
  by (auto simp: map_sum_Inr_iff)

lemma keeps_row: "keeps_layout limits (apply_xlsx_row F attributes limits)"
  unfolding apply_xlsx_row_def Let_def
  by (rule keeps_layoutI) (auto simp: not_le elim: row_entry_ok split: option.splits if_splits)

lemma keeps_column: "keeps_layout limits (apply_xlsx_column F attributes limits)"
  unfolding apply_xlsx_column_def Let_def
  by (rule keeps_layoutI) (auto simp: not_le elim: column_entries_ok split: option.splits if_splits)

lemma keeps_merge: "keeps_layout limits (apply_xlsx_merge attributes limits)"
  by (rule keeps_layoutI)
    (auto simp: apply_xlsx_merge_def not_le split: option.splits if_splits dest!: parse_a1_region_spans intro: merge_ok)

lemma keeps_cell: "keeps_layout limits (apply_xlsx_cell_style attributes styles limits)"
proof (rule keeps_layoutI)
  fix layout layout' :: "'a worksheet_presentation"
  assume ok: "layout_ok limits layout" and run: "apply_xlsx_cell_style attributes styles limits layout = Inr layout'"
  show "layout_ok limits layout'"
  proof (cases "Option.bind (attributes ''r'') parse_a1_cell")
    case None
    then show ?thesis using run ok by (simp add: apply_xlsx_cell_style_def)
  next
    case (Some cell)
    obtain row column where cell: "cell = (row, column)" by force
    have "row < u64_max" "column < u64_max"
      using Some by (auto simp: cell bind_eq_Some_conv dest: a1_cell_bound)
    then have sat: "saturating_add row 1 = row + 1" "saturating_add column 1 = column + 1"
      by (simp_all add: saturating_add_def)
    obtain grown where grown: "update_layout_extent (row + 1) (column + 1) limits ''worksheet-cells''
          ''XLSX cell expands the worksheet beyond the configured cell limit'' layout = Inr grown"
        and styled: "layout' = grown \<or> (\<exists>style. insert_cell_style (row, column) style limits
          ''XLSX worksheet exceeds the configured styled-cell limit'' grown = Inr layout')"
      using run unfolding apply_xlsx_cell_style_def Some cell option.case prod.case sat
      by (auto simp: Let_def split: if_splits option.splits)
    from styled show ?thesis using update_layout_extent_ok [OF grown ok] styled_cell_ok [OF grown ok] by blast
  qed
qed

lemma keeps_element: "keeps_layout limits (apply_xlsx_element F styles limits name attributes)"
proof (rule keeps_layoutI)
  fix layout layout' :: "'a worksheet_presentation"
  assume ok: "layout_ok limits layout"
  assume "apply_xlsx_element F styles limits name attributes layout = Inr layout'"
  then show "layout_ok limits layout'"
    unfolding apply_xlsx_element_def Let_def
    by (simp split: if_splits)
      ((rule keeps_layoutD [OF keeps_dimension _ ok] keeps_layoutD [OF keeps_row _ ok]
          keeps_layoutD [OF keeps_column _ ok] keeps_layoutD [OF keeps_merge _ ok]
          keeps_layoutD [OF keeps_cell _ ok], assumption) | (use keeps_pane [OF ok] ok in force))+
qed

lemma xlsx_events_ok:
  "xlsx_worksheet_events F styles limits events layout = Inr layout' \<Longrightarrow> layout_ok limits layout \<Longrightarrow>
     layout_ok limits layout'"
proof (induction events arbitrary: layout)
  case (Cons event events)
  note run = Cons.prems(1)
  show ?case
  proof (cases "element_of event")
    case None
    then have "layout' = layout \<or> xlsx_worksheet_events F styles limits events layout = Inr layout'"
      using run by (cases event) simp_all
    then show ?thesis using Cons.IH Cons.prems(2) by blast
  next
    case (Some element)
    obtain name attributes where "element = (name, attributes)" by force
    then have "rbind (xml_attributes attributes) (\<lambda>a. rbind (apply_xlsx_element F styles limits name a layout)
        (xlsx_worksheet_events F styles limits events)) = Inr layout'"
      using run Some by simp
    then obtain a grown where grown: "apply_xlsx_element F styles limits name a layout = Inr grown"
        and rest: "xlsx_worksheet_events F styles limits events grown = Inr layout'"
      unfolding rbind_Inr_iff by blast
    show ?thesis by (rule Cons.IH [OF rest keeps_layoutD [OF keeps_element grown Cons.prems(2)]])
  qed
qed simp

section \<open>BIFF8\<close>

text \<open>The grid of BIFF8 as limits.\<close>

definition biff8_limits :: "excel_limits \<Rightarrow> excel_limits" where
  "biff8_limits limits = limits\<lparr>max_worksheet_rows := min (max_worksheet_rows limits) biff8_max_rows,
     max_worksheet_columns := min (max_worksheet_columns limits) biff8_max_columns\<rparr>"

lemma biff8_extent_grid:
  assumes "update_biff8_extent r c limits message layout = Inr grown"
  shows "update_layout_extent r c (biff8_limits limits) ''worksheet-dimensions'' message layout = Inr grown"
proof -
  have "r \<le> biff8_max_rows" "c \<le> biff8_max_columns"
      and "update_layout_extent r c limits ''worksheet-dimensions'' message layout = Inr grown"
    using assms by (auto simp: update_biff8_extent_def split: if_splits)
  then show ?thesis by (auto simp: update_layout_extent_def biff8_limits_def Let_def split: if_splits)
qed

lemma insert_axis_entry_grid [simp]:
  "insert_axis_entry index pixels hidden (biff8_limits limits) = insert_axis_entry index pixels hidden limits"
  by (simp add: fun_eq_iff insert_axis_entry_def biff8_limits_def)

lemma biff8_limits_sel [simp]:
  "insert_cell_style coordinate style (biff8_limits limits) message = insert_cell_style coordinate style limits message"
  "insert_axis_entries first final pixels hidden (biff8_limits limits) = insert_axis_entries first final pixels hidden limits"
  "max_merged_cells (biff8_limits limits) = max_merged_cells limits"
  "max_worksheet_rows (biff8_limits limits) = min (max_worksheet_rows limits) biff8_max_rows"
  "max_worksheet_columns (biff8_limits limits) = min (max_worksheet_columns limits) biff8_max_columns"
  by (simp_all add: fun_eq_iff insert_cell_style_def insert_axis_entries_def del: upt_Suc)
    (simp_all add: biff8_limits_def)

abbreviation keeps_biff8 where "keeps_biff8 limits f \<equiv> keeps_layout (biff8_limits limits) f"

lemma u16_at_bound: "or_zero (u16_at data i) < 65536"
  using le_value_bound [of "take 2 (drop i data)"]
  by (auto simp: or_zero_def u16_at_def bytes_at_def split: option.splits if_splits)

lemma u16_at_saturating: "saturating_add (or_zero (u16_at data i)) 1 = or_zero (u16_at data i) + 1"
  using u16_at_bound [of data i] by (simp add: saturating_add_def u64_max_def)

lemma keeps_biff8_extent: "keeps_biff8 limits (update_biff8_extent r c limits message)"
  by (rule keeps_layoutI) (auto dest!: biff8_extent_grid update_layout_extent_ok)

lemma biff8_style_ok:
  assumes "apply_biff8_cell_style row column raw styles limits layout = Inr layout'"
    and "layout_ok (biff8_limits limits) layout" and "row < wp_extent_rows layout" "column < wp_extent_columns layout"
  shows "layout_ok (biff8_limits limits) layout' \<and> wp_extent_rows layout' = wp_extent_rows layout \<and>
    wp_extent_columns layout' = wp_extent_columns layout"
proof (cases "style_at styles raw")
  case None
  then show ?thesis using assms by (simp add: apply_biff8_cell_style_def)
next
  case (Some style)
  then have "insert_cell_style (row, column) style (biff8_limits limits)
      ''BIFF8 worksheet exceeds the configured styled-cell limit'' layout = Inr layout'"
    using assms(1) by (simp add: apply_biff8_cell_style_def)
  from insert_cell_style_ok [OF this assms(2-4)] show ?thesis .
qed

lemma keeps_biff8_cell: "keeps_biff8 limits (biff8_cell data styles limits)"
proof (rule keeps_layoutI)
  fix layout layout' :: "'a worksheet_presentation"
  assume ok: "layout_ok (biff8_limits limits) layout" and run: "biff8_cell data styles limits layout = Inr layout'"
  let ?row = "or_zero (u16_at data 0)" and ?column = "or_zero (u16_at data 2)"
  obtain grown where grown: "update_biff8_extent (?row + 1) (?column + 1) limits
        ''BIFF8 cell expands the worksheet beyond the configured cell limit'' layout = Inr grown"
      and style: "apply_biff8_cell_style ?row ?column (or_zero (u16_at data 4)) styles limits grown = Inr layout'"
    using run unfolding biff8_cell_def Let_def u16_at_saturating by auto
  note g = update_layout_extent_ok [OF biff8_extent_grid [OF grown] ok]
  then show "layout_ok (biff8_limits limits) layout'" using biff8_style_ok [OF style] by simp
qed

lemma biff8_styles_ok:
  assumes "rfold (\<lambda>layout index. rbind (ok_or (checked_add first index) message) (\<lambda>column.
        apply_biff8_cell_style row column (raw index) styles limits layout)) layout is = Inr layout'"
    and "layout_ok (biff8_limits limits) layout" and "row < wp_extent_rows layout"
    and "\<forall>i \<in> set is. first + i < wp_extent_columns layout"
  shows "layout_ok (biff8_limits limits) layout'"
  using assms
proof (induction "is" arbitrary: layout)
  case (Cons i "is")
  then obtain mid where mid: "apply_biff8_cell_style row (first + i) (raw i) styles limits layout = Inr mid"
      and rest: "rfold (\<lambda>layout index. rbind (ok_or (checked_add first index) message) (\<lambda>column.
        apply_biff8_cell_style row column (raw index) styles limits layout)) mid is = Inr layout'"
    by auto
  have "layout_ok (biff8_limits limits) mid \<and> wp_extent_rows mid = wp_extent_rows layout \<and>
      wp_extent_columns mid = wp_extent_columns layout"
    using biff8_style_ok [OF mid] Cons.prems(2-4) by simp
  then show ?case using Cons.IH [OF rest] Cons.prems(3,4) by simp
qed simp

lemma keeps_biff8_multi_cell: "keeps_biff8 limits (biff8_multi_cell record_type data styles limits)"
proof (rule keeps_layoutI)
  fix layout layout' :: "'a worksheet_presentation"
  assume ok: "layout_ok (biff8_limits limits) layout"
    and run: "biff8_multi_cell record_type data styles limits layout = Inr layout'"
  let ?row = "or_zero (u16_at data 0)" and ?first = "or_zero (u16_at data 2)"
    and ?last = "or_zero (u16_at data (saturating_sub (length data) 2))"
  obtain grown where order: "?first \<le> ?last"
      and grown: "update_biff8_extent (?row + 1) (?last + 1) limits
        ''BIFF8 multi-cell record expands the worksheet beyond the configured cell limit'' layout = Inr grown"
      and rest: "rfold (\<lambda>layout index. rbind (ok_or (checked_add ?first index)
        (new_error ResourceLimit ''BIFF8 multi-cell column coordinate overflows'')) (\<lambda>column.
        apply_biff8_cell_style ?row column (or_zero (u16_at data (4 + index * multi_cell_width record_type)))
          styles limits layout)) grown [0..<?last - ?first + 1] = Inr layout'"
    using run unfolding biff8_multi_cell_def Let_def u16_at_saturating
    by (auto simp: not_less simp del: upt_Suc split: if_splits)
  note g = update_layout_extent_ok [OF biff8_extent_grid [OF grown] ok]
  show "layout_ok (biff8_limits limits) layout'"
    by (rule biff8_styles_ok [OF rest]) (use g order in auto)
qed

lemma keeps_biff8_row: "keeps_biff8 limits (biff8_row F data limits)"
  unfolding biff8_row_def Let_def
  by (rule keeps_layoutI) (auto simp: not_le elim: row_entry_ok [of "biff8_limits limits", simplified] split: if_splits)

lemma keeps_biff8_columns: "keeps_biff8 limits (biff8_columns F data limits)"
  unfolding biff8_columns_def Let_def
  by (rule keeps_layoutI) (auto simp: not_le elim: column_entries_ok [of "biff8_limits limits", simplified] split: if_splits)

lemma keeps_biff8_merge: "keeps_biff8 limits (\<lambda>layout. biff8_merge_at data limits layout index)"
proof (rule keeps_layoutI)
  fix layout layout' :: "'a worksheet_presentation"
  assume ok: "layout_ok (biff8_limits limits) layout" and run: "biff8_merge_at data limits layout index = Inr layout'"
  show "layout_ok (biff8_limits limits) layout'"
    using run ok unfolding biff8_merge_at_def Let_def
    by (auto simp: not_le split: if_splits dest!: biff8_extent_grid intro: merge_ok)
qed

lemma keeps_biff8_merges: "keeps_biff8 limits (biff8_merges data limits)"
proof (rule keeps_layoutI)
  fix layout layout' :: "'a worksheet_presentation"
  assume ok: "layout_ok (biff8_limits limits) layout" and run: "biff8_merges data limits layout = Inr layout'"
  have "rfold (biff8_merge_at data limits) layout is = Inr layout' \<Longrightarrow> layout_ok (biff8_limits limits) layout \<Longrightarrow>
      layout_ok (biff8_limits limits) layout'" for "is" and layout :: "'a worksheet_presentation"
    by (induction "is" arbitrary: layout) (auto dest: keeps_layoutD [OF keeps_biff8_merge])
  then show "layout_ok (biff8_limits limits) layout'" using run ok by (simp add: biff8_merges_def Let_def)
qed

lemma biff8_sheet_record_ok:
  assumes "biff8_sheet_record F styles limits record_type data sheet = Inr sheet'"
    and "layout_ok (biff8_limits limits) (b8_layout sheet)"
  shows "layout_ok (biff8_limits limits) (b8_layout sheet')"
  using assms(1) unfolding biff8_sheet_record_def Let_def
  by (simp add: map_sum_Inr_iff split: if_splits)
    ((elim exE conjE, simp, rule keeps_layoutD [OF keeps_biff8_extent _ assms(2)]
        keeps_layoutD [OF keeps_biff8_cell _ assms(2)] keeps_layoutD [OF keeps_biff8_multi_cell _ assms(2)]
        keeps_layoutD [OF keeps_biff8_row _ assms(2)] keeps_layoutD [OF keeps_biff8_columns _ assms(2)]
        keeps_layoutD [OF keeps_biff8_merges _ assms(2)], assumption) | (use assms(2) in force))+

lemma biff8_sheet_records_ok:
  "biff8_sheet_records F styles limits workbook position sheet = Inr sheet' \<Longrightarrow>
     layout_ok (biff8_limits limits) (b8_layout sheet) \<Longrightarrow> layout_ok (biff8_limits limits) (b8_layout sheet')"
proof (induction F styles limits workbook position sheet rule: biff8_sheet_records.induct)
  case (1 F styles limits workbook position sheet)
  note run = 1(2) [unfolded biff8_sheet_records.simps [of F styles limits workbook position sheet]]
  show ?case
  proof (cases "next_biff_record workbook position")
    case (Inl e)
    then show ?thesis using run by simp
  next
    case (Inr r)
    show ?thesis
    proof (cases r)
      case None
      then show ?thesis using run Inr 1(3) by simp
    next
      case (Some item)
      obtain record_type data after where item: "item = (record_type, data, after)" by (cases item)
      show ?thesis
      proof (cases "record_type = 0xA")
        case True
        then show ?thesis using run Inr Some item 1(3) by simp
      next
        case False
        obtain mid where mid: "biff8_sheet_record F styles limits record_type data sheet = Inr mid"
            and rest: "biff8_sheet_records F styles limits workbook after mid = Inr sheet'"
          using run Inr Some item False by (auto split: sum.splits)
        show ?thesis
          by (rule 1(1) [OF Inr Some item [symmetric] refl False mid rest biff8_sheet_record_ok [OF mid 1(3)]])
      qed
    qed
  qed
qed

lemma parse_biff8_worksheet_ok:
  assumes "parse_biff8_worksheet F workbook offset styles limits = Inr layout"
  shows "layout_ok (biff8_limits limits) layout"
proof -
  obtain sheet where "biff8_sheet_records F styles limits workbook offset
      \<lparr>b8_layout = empty_layout, b8_pane = None, b8_frozen = False\<rparr> = Inr sheet" "layout = finish_biff8_sheet sheet"
    using assms by (auto simp: parse_biff8_worksheet_def map_sum_Inr_iff split: if_splits)
  then have "layout_ok (biff8_limits limits) (b8_layout sheet)"
    using biff8_sheet_records_ok empty_layout_ok by fastforce
  then show ?thesis
    by (auto simp: \<open>layout = finish_biff8_sheet sheet\<close> finish_biff8_sheet_def panes_ok split: option.splits)
qed

section \<open>Properties\<close>

text \<open>
  C22: A parsed worksheet layout stays within the configured limits. Whatever the document,
  the layout read from SpreadsheetML has an extent within the limits on rows, columns and
  cells, no more styled cells, merged regions and sized rows or columns than allowed, each
  merged region a non-empty rectangle inside the extent and each styled cell inside it; the
  layout read from BIFF8 has the same bounds and in addition fits the 65,536 by 256 grid.
\<close>

theorem parsed_layout_within_limits:
  "(\<forall>layout. parse_xlsx_worksheet X F xml styles limits = Inr layout \<longrightarrow> layout_ok limits layout) \<and>
   (\<forall>layout. parse_biff8_worksheet F workbook offset styles limits = Inr layout \<longrightarrow>
      layout_ok (biff8_limits limits) layout)"
  unfolding parse_xlsx_worksheet_def
  by (intro conjI allI impI, rule xlsx_events_ok [OF _ empty_layout_ok], assumption, rule parse_biff8_worksheet_ok)

definition merged_sheet :: "xml_event list" where
  "merged_sheet = [XmlStart ''worksheet'' [], XmlEmpty ''x:mergeCell'' [XmlAttribute ''ref'' (Inr ''B2:C4'')], XmlEof]"

definition unit_floats :: "unit float_ops" where
  "unit_floats = \<lparr>parse_f64 = (\<lambda>_. None), f64_size_ok = (\<lambda>_. True), points_to_pixels = id,
     column_width_to_pixels = id, f64_floor = (\<lambda>_. 0), f64_positive = (\<lambda>_. False), f64_ratio = (\<lambda>_ _. ())\<rparr>"

definition merged_xml :: xml_env where
  "merged_xml = \<lparr>xml_events = (\<lambda>_. merged_sheet), xml_local_name = after_last_colon\<rparr>"

lemma lossy_printable:
  assumes "printable s"
  shows "lossy_string s = s"
proof -
  have "b < 0x80" if mem: "b \<in> set (bytes_of_string s)" for b
  proof -
    obtain c where "c \<in> set s" and b: "b = word_of_nat (of_char c)"
      using mem unfolding bytes_of_string_def set_map by blast
    then have "of_char c \<le> (127 :: nat)" using assms by (simp add: printable_def)
    then show ?thesis unfolding b by (simp add: word_less_nat_alt unat_of_nat del: of_nat_of_char)
  qed
  then have "utf8_valid (bytes_of_string s)" by (intro utf8_ascii) blast
  then show ?thesis by (simp add: lossy_string_def utf8_lossy_id)
qed

definition merged_layout :: "unit worksheet_presentation" where
  "merged_layout = empty_layout\<lparr>wp_extent_rows := 4, wp_extent_columns := 3,
     wp_merged_cells := [\<lparr>mc_row_start = 1, mc_row_end = 4, mc_column_start = 1, mc_column_end = 3\<rparr>]\<rparr>"

lemma merged_sheet_parsed: "parse_xlsx_worksheet merged_xml unit_floats [] [] excel_limits_default = Inr merged_layout"
proof -
  have "parse_a1_cell ''B2'' = Some (1, 1)" "parse_a1_cell ''C4'' = Some (3, 2)"
    using written_cell_read [of 1 1] written_cell_read [of 2 3]
    by (simp_all add: u64_max_def letters_of.simps [of "Suc (Suc 0)"] letters_of.simps [of 3] letters_of.simps [of 0] nat_to_dec.simps char_of_def bit_0 digit_char_def)
  then have region: "parse_a1_region ''B2:C4'' =
      Some \<lparr>mc_row_start = 1, mc_row_end = 4, mc_column_start = 1, mc_column_end = 3\<rparr>"
    by (simp add: parse_a1_region_def u64_max_def)
  show ?thesis
    using region by (simp add: parse_xlsx_worksheet_def merged_xml_def merged_sheet_def xml_attributes_def
        after_last_colon_def lossy_printable printable_def
        apply_xlsx_element_def apply_xlsx_merge_def update_layout_extent_def merged_layout_def empty_layout_def
        excel_limits_default_def u64_max_def Let_def)
qed

theorem parsed_layout_within_limits_witness: "layout_ok excel_limits_default merged_layout"
  using parsed_layout_within_limits [of merged_xml unit_floats "[]" "[]" excel_limits_default] merged_sheet_parsed
  by blast

end
