(* ===== verification/Excel_Presentation.thy ===== *)
theory Excel_Presentation
  imports Layout_Limits Table_Model
begin

text \<open>
  crates/tabulark-excel-wasm/src/presentation.rs: the presentation of a workbook and what the
  runtime asks of it: a worksheet's dimensions, the styles and sizes of a range, and which
  cells of a range a merged region hides.
\<close>

section \<open>Data\<close>

record presentation_color =
  pc_css :: "string option"

record 'f presentation_font =
  pf_family :: "string option"
  pf_size :: "'f option"
  pf_bold :: "bool option"
  pf_italic :: "bool option"
  pf_underline :: "bool option"
  pf_color :: "presentation_color option"

record border_side_style =
  bss_style :: "string option"
  bss_color :: "presentation_color option"

record presentation_borders =
  pb_top :: "border_side_style option"
  pb_right :: "border_side_style option"
  pb_bottom :: "border_side_style option"
  pb_left :: "border_side_style option"

record 'f presentation_style =
  ps_number_format :: "string option"
  ps_font :: "'f presentation_font option"
  ps_foreground_color :: "presentation_color option"
  ps_background_color :: "presentation_color option"
  ps_fill_color :: "presentation_color option"
  ps_borders :: "presentation_borders option"
  ps_horizontal_alignment :: "string option"
  ps_vertical_alignment :: "string option"
  ps_wrap_text :: "bool option"

definition style_is_empty :: "'f presentation_style \<Rightarrow> bool" where
  "style_is_empty s \<longleftrightarrow> ps_number_format s = None \<and> ps_font s = None \<and> ps_foreground_color s = None \<and>
     ps_background_color s = None \<and> ps_fill_color s = None \<and> ps_borders s = None \<and>
     ps_horizontal_alignment s = None \<and> ps_vertical_alignment s = None \<and> ps_wrap_text s = None"

record 'f workbook_presentation =
  wbp_styles :: "'f presentation_style list"
  wbp_sheets :: "(string \<times> 'f worksheet_presentation) list"

record 'f table_presentation =
  tp_visibility :: sheet_visibility
  tp_frozen_rows :: nat
  tp_frozen_columns :: nat
  tp_rows :: "'f axis_entry list"
  tp_columns :: "'f axis_entry list"
  tp_styles :: "'f presentation_style list"

record 'f table_presentation_range =
  tr_style_ids :: "nat option list list"
  tr_merged_cells :: "merged_cell list"
  tr_rows :: "'f axis_entry list"
  tr_columns :: "'f axis_entry list"

definition sheet_layout ::
    "'f workbook_presentation \<Rightarrow> excel_table_descriptor \<Rightarrow> 'f worksheet_presentation option" where
  "sheet_layout p descriptor = map_of (wbp_sheets p) (xd_name descriptor)"

definition presentation_table ::
    "'f workbook_presentation \<Rightarrow> excel_table_descriptor \<Rightarrow> 'f table_presentation" where
  "presentation_table p descriptor =
     (let layout = sheet_layout p descriptor in
      \<lparr>tp_visibility = xd_visibility descriptor,
       tp_frozen_rows = (case layout of None \<Rightarrow> 0 | Some l \<Rightarrow> wp_frozen_rows l),
       tp_frozen_columns = (case layout of None \<Rightarrow> 0 | Some l \<Rightarrow> wp_frozen_columns l),
       tp_rows = (case layout of None \<Rightarrow> [] | Some l \<Rightarrow> map snd (wp_rows l)),
       tp_columns = (case layout of None \<Rightarrow> [] | Some l \<Rightarrow> map snd (wp_columns l)),
       tp_styles = wbp_styles p\<rparr>)"

definition presentation_dimensions ::
    "'f workbook_presentation \<Rightarrow> excel_table_descriptor \<Rightarrow> (nat \<times> nat) option" where
  "presentation_dimensions p descriptor =
     map_option (\<lambda>l. (wp_extent_rows l, wp_extent_columns l)) (sheet_layout p descriptor)"

section \<open>A range's styles and sizes\<close>

definition in_request :: "range_request \<Rightarrow> nat \<Rightarrow> nat \<Rightarrow> bool" where
  "in_request q row column \<longleftrightarrow> row_start q \<le> row \<and> row < row_start q + row_count q \<and>
     column_start q \<le> column \<and> column < column_start q + column_count q"

text \<open>One entry of the style map written into the grid; \<open>ends\<close> are the request's exclusive ends.\<close>

definition place_style ::
    "range_request \<Rightarrow> nat \<times> nat \<Rightarrow> nat option list list \<Rightarrow> cell_coordinate \<times> nat \<Rightarrow> nat option list list" where
  "place_style q ends grid entry =
     (let ((row, column), style) = entry in
      if row < row_start q \<or> row \<ge> fst ends \<or> column < column_start q \<or> column \<ge> snd ends then grid
      else grid[row - row_start q := (grid ! (row - row_start q))[column - column_start q := Some style]])"

definition region_meets :: "range_request \<Rightarrow> nat \<times> nat \<Rightarrow> merged_cell \<Rightarrow> bool" where
  "region_meets q ends region \<longleftrightarrow> mc_row_start region < fst ends \<and> mc_row_end region > row_start q \<and>
     mc_column_start region < snd ends \<and> mc_column_end region > column_start q"

definition entries_between :: "nat \<Rightarrow> nat \<Rightarrow> 'v ordered_map \<Rightarrow> 'v list" where
  "entries_between first limit m = map snd (filter (\<lambda>p. first \<le> fst p \<and> fst p < limit) m)"

definition presentation_range ::
    "'f workbook_presentation \<Rightarrow> excel_table_descriptor \<Rightarrow> range_request \<Rightarrow>
      'f table_presentation_range result" where
  "presentation_range p descriptor q =
     rbind (validate_public q) (\<lambda>_.
     rbind (row_end q) (\<lambda>row_limit.
     rbind (column_end q) (\<lambda>column_limit.
     let blank = replicate (row_count q) (replicate (column_count q) None) in
     case sheet_layout p descriptor of
       None \<Rightarrow> Inr \<lparr>tr_style_ids = blank, tr_merged_cells = [], tr_rows = [], tr_columns = []\<rparr>
     | Some layout \<Rightarrow>
         Inr \<lparr>tr_style_ids = fold (\<lambda>e grid. place_style q (row_limit, column_limit) grid e) (wp_styles layout) blank,
              tr_merged_cells = filter (region_meets q (row_limit, column_limit)) (wp_merged_cells layout),
              tr_rows = entries_between (row_start q) row_limit (wp_rows layout),
              tr_columns = entries_between (column_start q) column_limit (wp_columns layout)\<rparr>)))"

section \<open>Hidden cells\<close>

text \<open>The state of the loop: the mask and the region that owns each cell.\<close>

type_synonym mask_state = "bool list \<times> nat option list"

definition mark_cell ::
    "string \<Rightarrow> range_request \<Rightarrow> mask_state \<Rightarrow> (nat \<times> merged_cell) \<times> nat \<times> nat \<Rightarrow> mask_state result" where
  "mark_cell name q st mark =
     (let ((region_index, region), row, column) = mark; (mask, owners) = st in
      rbind (ok_or (Option.bind (checked_mul (row - row_start q) (column_count q))
               (\<lambda>v. checked_add v (column - column_start q)))
        (new_error ResourceLimit ''Excel merged-cell mask index overflows'')) (\<lambda>index.
      if owners ! index \<noteq> None
      then Inl (with_detail (with_detail (with_detail
             (new_error ParseFailed ''Excel worksheet contains overlapping merged regions'')
             ''sheet'' (DetailString name)) ''row'' (DetailNumber row)) ''column'' (DetailNumber column))
      else Inr (mask[index := (row \<noteq> mc_row_start region \<or> column \<noteq> mc_column_start region)],
                owners[index := Some region_index])))"

text \<open>The part of a region inside the request, row by row; nothing when they do not meet.\<close>

definition mark_region ::
    "string \<Rightarrow> range_request \<Rightarrow> nat \<times> nat \<Rightarrow> mask_state \<Rightarrow> nat \<times> merged_cell \<Rightarrow> mask_state result" where
  "mark_region name q ends st region =
     (let first_row = max (mc_row_start (snd region)) (row_start q);
          row_limit = min (mc_row_end (snd region)) (fst ends);
          first_column = max (mc_column_start (snd region)) (column_start q);
          column_limit = min (mc_column_end (snd region)) (snd ends)
      in
      if first_row \<ge> row_limit \<or> first_column \<ge> column_limit then Inr st
      else
        rfold (\<lambda>st row.
          rfold (\<lambda>st column. mark_cell name q st (region, row, column)) st [first_column..<column_limit])
          st [first_row..<row_limit])"

definition merged_non_anchor_mask ::
    "'f workbook_presentation \<Rightarrow> excel_table_descriptor \<Rightarrow> range_request \<Rightarrow> bool list result" where
  "merged_non_anchor_mask p descriptor q =
     rbind (validate_public q) (\<lambda>_.
     rbind (cell_count q) (\<lambda>cells.
     case sheet_layout p descriptor of
       None \<Rightarrow> Inr (replicate cells False)
     | Some layout \<Rightarrow>
         rbind (row_end q) (\<lambda>row_limit.
         rbind (column_end q) (\<lambda>column_limit.
         map_sum id fst
           (rfold (mark_region (xd_name descriptor) q (row_limit, column_limit))
             (replicate cells False, replicate cells None) (enumerate 0 (wp_merged_cells layout)))))))"

section \<open>What the mask says\<close>

definition region_covers :: "merged_cell \<Rightarrow> nat \<Rightarrow> nat \<Rightarrow> bool" where
  "region_covers region row column \<longleftrightarrow> mc_row_start region \<le> row \<and> row < mc_row_end region \<and>
     mc_column_start region \<le> column \<and> column < mc_column_end region"

definition is_anchor :: "merged_cell \<Rightarrow> nat \<Rightarrow> nat \<Rightarrow> bool" where
  "is_anchor region row column \<longleftrightarrow> row = mc_row_start region \<and> column = mc_column_start region"

lemma rfold_concat: "rfold f s (concat (map g xs)) = rfold (\<lambda>s x. rfold f s (g x)) s xs"
proof (induction xs arbitrary: s)
  case (Cons x xs)
  then show ?case by (simp add: rfold_append)
qed simp

lemma rfold_mapped: "rfold f s (map g xs) = rfold (\<lambda>s x. f s (g x)) s xs"
  by (induction xs arbitrary: s) auto

text \<open>All marks of a region, in the order of the loops.\<close>

definition region_marks :: "range_request \<Rightarrow> nat \<times> merged_cell \<Rightarrow> ((nat \<times> merged_cell) \<times> nat \<times> nat) list" where
  "region_marks q region =
     concat (map (\<lambda>row. map (\<lambda>column. (region, row, column))
       [max (mc_column_start (snd region)) (column_start q) ..<
        min (mc_column_end (snd region)) (column_start q + column_count q)])
       [max (mc_row_start (snd region)) (row_start q) ..< min (mc_row_end (snd region)) (row_start q + row_count q)])"

lemma mark_region_marks:
  "mark_region name q (row_start q + row_count q, column_start q + column_count q) st region =
     rfold (mark_cell name q) st (region_marks q region)"
proof -
  let ?rows = "[max (mc_row_start (snd region)) (row_start q) ..< min (mc_row_end (snd region)) (row_start q + row_count q)]"
  let ?columns = "[max (mc_column_start (snd region)) (column_start q) ..<
        min (mc_column_end (snd region)) (column_start q + column_count q)]"
  have "rfold (mark_cell name q) st (region_marks q region) =
      rfold (\<lambda>st row. rfold (\<lambda>st column. mark_cell name q st (region, row, column)) st ?columns) st ?rows"
    by (simp add: region_marks_def rfold_concat rfold_mapped)
  moreover have "rfold (\<lambda>st row. Inr st) st rows = (Inr st :: mask_state result)" for rows :: "nat list"
    by (induction rows) auto
  ultimately show ?thesis by (auto simp: mark_region_def Let_def)
qed

lemma set_region_marks:
  "set (region_marks q region) =
     {(region, row, column) | row column. in_request q row column \<and> region_covers (snd region) row column}"
  by (auto simp: region_marks_def in_request_def region_covers_def)

text \<open>The state after some marks: which cells they own and which of them they hide.\<close>

definition tracks_marks ::
    "range_request \<Rightarrow> ((nat \<times> merged_cell) \<times> nat \<times> nat) list \<Rightarrow> mask_state \<Rightarrow> bool" where
  "tracks_marks q ms st \<longleftrightarrow>
     length (fst st) = row_count q * column_count q \<and> length (snd st) = row_count q * column_count q \<and>
     (\<forall>i < row_count q. \<forall>j < column_count q.
        (snd st ! (i * column_count q + j) \<noteq> None \<longleftrightarrow> (row_start q + i, column_start q + j) \<in> snd ` set ms) \<and>
        (fst st ! (i * column_count q + j) \<longleftrightarrow> (\<exists>k region. ((k, region), row_start q + i, column_start q + j) \<in> set ms \<and>
           \<not> is_anchor region (row_start q + i) (column_start q + j))))"

lemma grid_index_less:
  assumes "i < R" and "j < C"
  shows "i * C + j < R * (C :: nat)"
proof -
  have "Suc i * C \<le> R * C" using assms(1) by (intro mult_le_mono1) simp
  then show ?thesis using assms(2) by simp
qed

lemma grid_index_eq: "j < C \<Longrightarrow> j' < C \<Longrightarrow> i * C + j = i' * C + j' \<longleftrightarrow> i = i' \<and> j = (j' :: nat)"
proof -
  assume j: "j < C" "j' < C"
  have "(i * C + j) div C = i" "(i * C + j) mod C = j" "(i' * C + j') div C = i'" "(i' * C + j') mod C = j'"
    using j by simp_all
  then show ?thesis by metis
qed

lemma mark_cell_tracks:
  assumes tracks: "tracks_marks q ms st" and inside: "in_request q row column"
    and small: "row_count q * column_count q \<le> u64_max"
  shows "if (row, column) \<in> snd ` set ms
    then \<exists>e. mark_cell name q st (region, row, column) = Inl e \<and> err_code e = ParseFailed
    else \<exists>st'. mark_cell name q st (region, row, column) = Inr st' \<and>
      tracks_marks q (ms @ [(region, row, column)]) st'"
proof -
  obtain i j where at: "row = row_start q + i" "column = column_start q + j"
      and i: "i < row_count q" and j: "j < column_count q"
    using inside unfolding in_request_def by (metis le_iff_add nat_add_left_cancel_less)
  let ?index = "i * column_count q + j"
  have less: "?index < row_count q * column_count q" by (rule grid_index_less [OF i j])
  then have fits: "Option.bind (checked_mul i (column_count q)) (\<lambda>v. checked_add v j) = Some ?index"
    using small by (simp add: bind_eq_Some_conv)
  obtain mask owners where st: "st = (mask, owners)" by force
  have lens: "length mask = row_count q * column_count q" "length owners = row_count q * column_count q"
    and owners: "\<And>i j. i < row_count q \<Longrightarrow> j < column_count q \<Longrightarrow>
      owners ! (i * column_count q + j) \<noteq> None \<longleftrightarrow> (row_start q + i, column_start q + j) \<in> snd ` set ms"
    and hidden: "\<And>i j. i < row_count q \<Longrightarrow> j < column_count q \<Longrightarrow>
      mask ! (i * column_count q + j) \<longleftrightarrow> (\<exists>k region. ((k, region), row_start q + i, column_start q + j) \<in> set ms \<and>
        \<not> is_anchor region (row_start q + i) (column_start q + j))"
    using tracks unfolding tracks_marks_def st fst_conv snd_conv by blast+
  show ?thesis
  proof (cases "(row, column) \<in> snd ` set ms")
    case True
    then have "owners ! ?index \<noteq> None" using owners [OF i j] at by simp
    then show ?thesis using True fits by (simp add: mark_cell_def st case_prod_unfold Let_def at)
  next
    case False
    let ?st = "(mask[?index := (row \<noteq> mc_row_start (snd region) \<or> column \<noteq> mc_column_start (snd region))],
        owners[?index := Some (fst region)])"
    have "owners ! ?index = None" using False owners [OF i j] at by simp
    then have "mark_cell name q st (region, row, column) = Inr ?st"
      using fits by (simp add: mark_cell_def st case_prod_unfold Let_def at)
    moreover have "tracks_marks q (ms @ [(region, row, column)]) ?st"
      unfolding tracks_marks_def fst_conv snd_conv
    proof (intro conjI allI impI)
      fix i' j' assume i': "i' < row_count q" and j': "j' < column_count q"
      have here: "i' * column_count q + j' = ?index \<longleftrightarrow> row_start q + i' = row \<and> column_start q + j' = column"
        using grid_index_eq [OF j' j, of i' i] at by auto
      have there: "i' * column_count q + j' < row_count q * column_count q" by (rule grid_index_less [OF i' j'])
      show "owners[?index := Some (fst region)] ! (i' * column_count q + j') \<noteq> None \<longleftrightarrow>
          (row_start q + i', column_start q + j') \<in> snd ` set (ms @ [(region, row, column)])"
        using owners [OF i' j'] there lens here by (auto simp: nth_list_update)
      show "mask[?index := (row \<noteq> mc_row_start (snd region) \<or> column \<noteq> mc_column_start (snd region))] !
          (i' * column_count q + j') \<longleftrightarrow>
          (\<exists>k region'. ((k, region'), row_start q + i', column_start q + j') \<in> set (ms @ [(region, row, column)]) \<and>
            \<not> is_anchor region' (row_start q + i') (column_start q + j'))"
      proof (cases "i' * column_count q + j' = ?index")
        case same: True
        then have cell: "row_start q + i' = row" "column_start q + j' = column" using here by auto
        have none: "((k, region'), row, column) \<notin> set ms" for k region'
          using False by force
        show ?thesis unfolding cell same using none less lens(1)
          by (cases region) (auto simp: is_anchor_def)
      next
        case other: False
        then have "(row_start q + i', column_start q + j') \<noteq> (row, column)" using here by auto
        then show ?thesis using other hidden [OF i' j'] by auto
      qed
    qed (use lens in simp_all)
    ultimately show ?thesis using False by auto
  qed
qed

lemma marks_track:
  assumes "tracks_marks q ms st" and "\<forall>(region, row, column) \<in> set new. in_request q row column"
    and "row_count q * column_count q \<le> u64_max" and "distinct (map snd ms)"
  shows "if distinct (map snd (ms @ new))
    then \<exists>st'. rfold (mark_cell name q) st new = Inr st' \<and> tracks_marks q (ms @ new) st'
    else \<exists>e. rfold (mark_cell name q) st new = Inl e \<and> err_code e = ParseFailed"
  using assms
proof (induction new arbitrary: ms st)
  case Nil
  then show ?case by simp
next
  case (Cons mark new)
  obtain region row column where mark: "mark = (region, row, column)" by (cases mark)
  have "in_request q row column" using Cons.prems(2) by (simp add: mark)
  note one = mark_cell_tracks [OF Cons.prems(1) this Cons.prems(3), of name region]
  show ?case
  proof (cases "(row, column) \<in> snd ` set ms")
    case True
    then have "\<not> distinct (map snd (ms @ mark # new))" by (auto simp: mark)
    with one True show ?thesis by (auto simp: mark)
  next
    case False
    then obtain st' where st': "mark_cell name q st mark = Inr st'" "tracks_marks q (ms @ [mark]) st'"
      using one by (auto simp: mark)
    have run: "rfold (mark_cell name q) st (mark # new) = rfold (mark_cell name q) st' new" using st'(1) by simp
    have same: "ms @ mark # new = (ms @ [mark]) @ new" by simp
    have "distinct (map snd (ms @ [mark]))" using False Cons.prems(4) by (auto simp: mark)
    with Cons.prems(2) show ?thesis unfolding run same by (intro Cons.IH [OF st'(2) _ Cons.prems(3)]) simp_all
  qed
qed

text \<open>No requested cell lies in two regions.\<close>

definition disjoint_regions :: "range_request \<Rightarrow> merged_cell list \<Rightarrow> bool" where
  "disjoint_regions q regions \<longleftrightarrow> sorted_wrt (\<lambda>a b. \<forall>row column. in_request q row column \<longrightarrow>
     \<not> (region_covers a row column \<and> region_covers b row column)) regions"

definition all_marks :: "range_request \<Rightarrow> nat \<Rightarrow> merged_cell list \<Rightarrow> ((nat \<times> merged_cell) \<times> nat \<times> nat) list" where
  "all_marks q n regions = concat (map (region_marks q) (enumerate n regions))"

lemma distinct_region_marks: "distinct (map snd (region_marks q region))"
proof -
  have "distinct (List.product rows columns)" if "distinct rows" "distinct columns" for rows columns :: "nat list"
    using that by (rule distinct_product)
  moreover have "map snd (concat (map (\<lambda>row. map (\<lambda>column. (region, row, column)) columns) rows)) = List.product rows columns"
    for rows columns :: "nat list" by (induction rows) auto
  ultimately show ?thesis by (simp add: region_marks_def)
qed

lemma set_all_marks:
  "(region, row, column) \<in> set (all_marks q n regions) \<longleftrightarrow>
     region \<in> set (enumerate n regions) \<and> in_request q row column \<and> region_covers (snd region) row column"
  by (auto simp: all_marks_def set_region_marks)

lemma region_of_marks:
  "(\<exists>k. ((k, region), row, column) \<in> set (all_marks q n regions)) \<longleftrightarrow>
     region \<in> set regions \<and> in_request q row column \<and> region_covers region row column"
proof -
  have "snd ` set (enumerate n regions) = set regions"
    unfolding set_map [symmetric] map_snd_enumerate by (rule refl)
  then have "region \<in> set regions \<longleftrightarrow> (\<exists>k. (k, region) \<in> set (enumerate n regions))"
    by force
  then show ?thesis by (auto simp: set_all_marks)
qed

lemma distinct_all_marks: "distinct (map snd (all_marks q n regions)) \<longleftrightarrow> disjoint_regions q regions"
proof (induction regions arbitrary: n)
  case Nil
  then show ?case by (simp add: all_marks_def disjoint_regions_def)
next
  case (Cons region regions)
  have split: "all_marks q n (region # regions) = region_marks q (n, region) @ all_marks q (Suc n) regions"
    by (simp add: all_marks_def)
  have "snd ` set (region_marks q (n, region)) \<inter> snd ` set (all_marks q (Suc n) regions) = {} \<longleftrightarrow>
      (\<forall>other \<in> set regions. \<forall>row column. in_request q row column \<longrightarrow>
        \<not> (region_covers region row column \<and> region_covers other row column))" (is "?apart \<longleftrightarrow> ?free")
  proof
    assume ?apart
    show ?free
    proof (intro ballI allI impI)
      fix other row column assume other: "other \<in> set regions" and "in_request q row column"
      then show "\<not> (region_covers region row column \<and> region_covers other row column)"
        using \<open>?apart\<close> region_of_marks [of other row column q "Suc n" regions]
        by (force simp: set_region_marks)
    qed
  next
    assume ?free
    then show ?apart using region_of_marks [of _ _ _ q "Suc n" regions] by (fastforce simp: set_region_marks)
  qed
  then show ?case
    unfolding split by (auto simp: distinct_region_marks Cons.IH disjoint_regions_def)
qed

lemma merged_mask_run:
  assumes "sheet_layout p descriptor = Some layout" and "range_valid q"
    and "row_count q * column_count q \<le> u64_max"
  shows "(\<exists>mask. merged_non_anchor_mask p descriptor q = Inr mask) = disjoint_regions q (wp_merged_cells layout) \<and>
    (\<forall>e. merged_non_anchor_mask p descriptor q = Inl e \<longrightarrow> err_code e = ParseFailed) \<and>
    (\<forall>mask. merged_non_anchor_mask p descriptor q = Inr mask \<longrightarrow>
       length mask = row_count q * column_count q \<and>
       (\<forall>i < row_count q. \<forall>j < column_count q. mask ! (i * column_count q + j) =
          (\<exists>region \<in> set (wp_merged_cells layout). region_covers region (row_start q + i) (column_start q + j) \<and>
             \<not> is_anchor region (row_start q + i) (column_start q + j))))"
proof -
  let ?regions = "wp_merged_cells layout" and ?cells = "row_count q * column_count q"
  let ?init = "(replicate ?cells False, replicate ?cells None) :: mask_state"
  let ?ends = "(row_start q + row_count q, column_start q + column_count q)"
  let ?run = "rfold (mark_cell (xd_name descriptor) q) ?init (all_marks q 0 ?regions)"
  have valid: "validate_public q = Inr ()" using assms(2) validate_public_ok [of q "()"] by (rule iffD2 [rotated])
  have count: "cell_count q = Inr ?cells" using assms(3) by (simp add: cell_count_def)
  have "rfold (mark_region (xd_name descriptor) q ?ends) ?init (enumerate 0 ?regions) = ?run"
    unfolding all_marks_def rfold_concat mark_region_marks by (rule refl)
  then have mask: "merged_non_anchor_mask p descriptor q = map_sum id fst ?run"
    using assms(1,2) valid
    by (simp add: merged_non_anchor_mask_def count range_valid_ends del: validate_public_ok)
  have "tracks_marks q [] ?init" using grid_index_less by (simp add: tracks_marks_def)
  moreover have "\<forall>(region, row, column) \<in> set (all_marks q 0 ?regions). in_request q row column"
    by (auto simp: set_all_marks)
  ultimately
  have run: "if disjoint_regions q ?regions
      then \<exists>st. ?run = Inr st \<and> tracks_marks q (all_marks q 0 ?regions) st
      else \<exists>e. ?run = Inl e \<and> err_code e = ParseFailed"
    using marks_track [of q "[]" ?init "all_marks q 0 ?regions" "xd_name descriptor"] assms(3)
    by (simp add: distinct_all_marks del: split_paired_Ex split: if_splits)
  have hidden: "fst st ! (i * column_count q + j) =
      (\<exists>region \<in> set ?regions. region_covers region (row_start q + i) (column_start q + j) \<and>
         \<not> is_anchor region (row_start q + i) (column_start q + j))"
    if st: "tracks_marks q (all_marks q 0 ?regions) st" and i: "i < row_count q" and j: "j < column_count q" for st i j
  proof -
    have "in_request q (row_start q + i) (column_start q + j)" using i j by (simp add: in_request_def)
    then show ?thesis
      using st i j region_of_marks [of _ "row_start q + i" "column_start q + j" q 0 ?regions]
      unfolding tracks_marks_def by metis
  qed
  show ?thesis
  proof (cases "disjoint_regions q ?regions")
    case True
    then obtain st where st: "?run = Inr st" "tracks_marks q (all_marks q 0 ?regions) st" using run by auto
    then show ?thesis using True hidden [OF st(2)] unfolding mask st(1) by (simp add: tracks_marks_def)
  next
    case False
    then show ?thesis using run unfolding mask by auto
  qed
qed

text \<open>
  C32: A range hides exactly the cells a merged region covers beside its top-left one. Asked for
  the mask of a valid range, the presentation answers one flag per cell in row order; a cell
  is hidden if and only if some merged region of the sheet contains it and it is not that
  region's anchor, also when the anchor lies outside the range. The range is refused as
  malformed if and only if two regions share one of its cells.
\<close>

theorem merged_mask_exact:
  assumes "sheet_layout p descriptor = Some layout" and "range_valid q"
    and "row_count q * column_count q \<le> u64_max"
  shows "(\<exists>mask. merged_non_anchor_mask p descriptor q = Inr mask) = disjoint_regions q (wp_merged_cells layout) \<and>
    (\<forall>e. merged_non_anchor_mask p descriptor q = Inl e \<longrightarrow> err_code e = ParseFailed) \<and>
    (\<forall>mask. merged_non_anchor_mask p descriptor q = Inr mask \<longrightarrow>
       length mask = row_count q * column_count q \<and>
       (\<forall>i < row_count q. \<forall>j < column_count q. mask ! (i * column_count q + j) =
          (\<exists>region \<in> set (wp_merged_cells layout). region_covers region (row_start q + i) (column_start q + j) \<and>
             \<not> is_anchor region (row_start q + i) (column_start q + j))))"
  by (rule merged_mask_run [OF assms])

definition merged_book :: "unit workbook_presentation" where
  "merged_book = \<lparr>wbp_styles = [], wbp_sheets = [(''Data'', merged_layout)]\<rparr>"

definition data_sheet :: excel_table_descriptor where
  "data_sheet = \<lparr>xd_id = ''sheet-0'', xd_name = ''Data'', xd_workbook_ordinal = 0, xd_visibility = SheetVisible\<rparr>"

theorem merged_mask_exact_witness:
  "\<exists>mask. merged_non_anchor_mask merged_book data_sheet
      \<lparr>row_start = 1, row_count = 2, column_start = 1, column_count = 2\<rparr> = Inr mask \<and>
    \<not> mask ! (0 * 2 + 0) \<and> mask ! (0 * 2 + 1) \<and> mask ! (1 * 2 + 0)"
proof -
  let ?q = "\<lparr>row_start = 1, row_count = 2, column_start = 1, column_count = 2\<rparr>"
  have layout: "sheet_layout merged_book data_sheet = Some merged_layout"
    by (simp add: sheet_layout_def merged_book_def data_sheet_def)
  have "disjoint_regions ?q (wp_merged_cells merged_layout)" by (simp add: disjoint_regions_def merged_layout_def)
  moreover have "range_valid ?q" by (simp add: range_valid_def max_safe_integer_def)
  moreover have "row_count ?q * column_count ?q \<le> u64_max" by (simp add: u64_max_def)
  ultimately obtain mask where "merged_non_anchor_mask merged_book data_sheet ?q = Inr mask"
      and "\<forall>i < 2. \<forall>j < 2. mask ! (i * 2 + j) = (\<exists>region \<in> set (wp_merged_cells merged_layout).
        region_covers region (1 + i) (1 + j) \<and> \<not> is_anchor region (1 + i) (1 + j))"
    using merged_mask_exact [OF layout, of ?q] by auto
  moreover from this(2) [rule_format, of 0 0] this(2) [rule_format, of 0 1] this(2) [rule_format, of 1 0]
  have "\<not> mask ! (0 * 2 + 0)" "mask ! (0 * 2 + 1)" "mask ! (1 * 2 + 0)"
    by (simp_all add: merged_layout_def region_covers_def is_anchor_def)
  ultimately show ?thesis by blast
qed

section \<open>A range's presentation\<close>

lemma place_style_at:
  fixes cell :: cell_coordinate and style :: nat
  assumes "length grid = row_count q" and "\<forall>line \<in> set grid. length line = column_count q"
    and i: "i < row_count q" and j: "j < column_count q"
  defines "grid' \<equiv> place_style q (row_start q + row_count q, column_start q + column_count q) grid (cell, style)"
  shows "length grid' = row_count q \<and> (\<forall>line \<in> set grid'. length line = column_count q) \<and>
    grid' ! i ! j = (if cell = (row_start q + i, column_start q + j) then Some style else grid ! i ! j)"
proof -
  obtain row column where cell: "cell = (row, column)" by force
  show ?thesis
  proof (cases "in_request q row column")
    case True
    then obtain a b where at: "row = row_start q + a" "column = column_start q + b"
        and a: "a < row_count q" and b: "b < column_count q"
      unfolding in_request_def by (metis le_iff_add nat_add_left_cancel_less)
    have "grid' = grid[a := (grid ! a)[b := Some style]]"
      using a b by (simp add: grid'_def place_style_def cell at)
    moreover have "length (grid ! a) = column_count q" using assms(1,2) a by simp
    ultimately show ?thesis using assms(1-2) i j a b
      by (cases "a = i"; cases "b = j") (auto simp: cell at dest: set_update_subset_insert [THEN subsetD])
  next
    case False
    then have "grid' = grid" by (auto simp: grid'_def place_style_def cell in_request_def)
    then show ?thesis using False assms(1-2) i j by (auto simp: cell in_request_def)
  qed
qed

lemma place_style_shape:
  assumes "length grid = row_count q" and "\<forall>line \<in> set grid. length line = column_count q"
  shows "length (place_style q (row_start q + row_count q, column_start q + column_count q) grid entry) = row_count q \<and>
    (\<forall>line \<in> set (place_style q (row_start q + row_count q, column_start q + column_count q) grid entry).
       length line = column_count q)"
proof -
  obtain row column style where entry: "entry = ((row, column), style)" by (metis surj_pair)
  show ?thesis
  proof (cases "in_request q row column")
    case True
    then have "length (grid ! (row - row_start q)) = column_count q"
      using assms by (auto simp: in_request_def)
    then show ?thesis using assms
      by (auto simp: place_style_def entry dest!: set_update_subset_insert [THEN subsetD])
  next
    case False
    then show ?thesis using assms by (auto simp: place_style_def entry in_request_def)
  qed
qed

lemma place_styles_shape:
  assumes "length grid = row_count q" and "\<forall>line \<in> set grid. length line = column_count q"
  defines "ends \<equiv> (row_start q + row_count q, column_start q + column_count q)"
  shows "length (fold (\<lambda>e grid. place_style q ends grid e) styles grid) = row_count q \<and>
    (\<forall>line \<in> set (fold (\<lambda>e grid. place_style q ends grid e) styles grid). length line = column_count q)"
  using assms(1,2)
proof (induction styles arbitrary: grid)
  case (Cons entry styles)
  show ?case
    unfolding fold.simps comp_apply
    by (rule Cons.IH) (use place_style_shape [OF Cons.prems, of entry] in \<open>simp_all add: ends_def\<close>)
qed simp

lemma entries_between_iff:
  assumes "axis_ok limits bound m"
  shows "entry \<in> set (entries_between first limit m) \<longleftrightarrow>
    first \<le> ax_index entry \<and> ax_index entry < limit \<and> map_of m (ax_index entry) = Some entry"
proof -
  have lookup: "map_of m (ax_index entry) = Some entry \<longleftrightarrow> (ax_index entry, entry) \<in> set m"
    using assms by (intro ordered_lookup) (simp add: axis_ok_def)
  have "entry \<in> set (entries_between first limit m) \<longleftrightarrow> (\<exists>k. (k, entry) \<in> set m \<and> first \<le> k \<and> k < limit)"
    by (force simp: entries_between_def)
  moreover have "ax_index entry = k" if "(k, entry) \<in> set m" for k
    using that assms by (auto simp: axis_ok_def)
  ultimately show ?thesis unfolding lookup by metis
qed

text \<open>Two intervals meet if and only if they share a point.\<close>

lemma intervals_meet:
  assumes "(a :: nat) < b" and "c < d"
  shows "a < d \<and> b > c \<longleftrightarrow> (\<exists>x. a \<le> x \<and> x < b \<and> c \<le> x \<and> x < d)"
proof
  assume "a < d \<and> b > c"
  then show "\<exists>x. a \<le> x \<and> x < b \<and> c \<le> x \<and> x < d" using assms by (intro exI [of _ "max a c"]) auto
qed auto

lemma region_meets_shared:
  assumes "mc_row_start region < mc_row_end region" and "mc_column_start region < mc_column_end region"
    and "row_count q > 0" and "column_count q > 0"
  shows "region_meets q (row_start q + row_count q, column_start q + column_count q) region \<longleftrightarrow>
    (\<exists>row column. in_request q row column \<and> region_covers region row column)"
  using intervals_meet [OF assms(1), of "row_start q" "row_start q + row_count q"]
    intervals_meet [OF assms(2), of "column_start q" "column_start q + column_count q"] assms(3,4)
  unfolding region_meets_def in_request_def region_covers_def fst_conv snd_conv by auto

lemma region_meets_axes:
  assumes "mc_row_start region < mc_row_end region" and "mc_column_start region < mc_column_end region"
  shows "region_meets q (row_start q + row_count q, column_start q + column_count q) region \<longleftrightarrow>
    (if row_count q = 0 then mc_row_start region < row_start q \<and> row_start q < mc_row_end region
     else \<exists>row. row_start q \<le> row \<and> row < row_start q + row_count q \<and>
       mc_row_start region \<le> row \<and> row < mc_row_end region) \<and>
    (if column_count q = 0 then mc_column_start region < column_start q \<and> column_start q < mc_column_end region
     else \<exists>column. column_start q \<le> column \<and> column < column_start q + column_count q \<and>
       mc_column_start region \<le> column \<and> column < mc_column_end region)"
  using intervals_meet [OF assms(1), of "row_start q" "row_start q + row_count q"]
    intervals_meet [OF assms(2), of "column_start q" "column_start q + column_count q"]
  unfolding region_meets_def fst_conv snd_conv by auto

lemma place_styles_at:
  assumes "length grid = row_count q" and "\<forall>line \<in> set grid. length line = column_count q"
    and "i < row_count q" and "j < column_count q" and "distinct (map fst styles)"
  shows "fold (\<lambda>e grid. place_style q (row_start q + row_count q, column_start q + column_count q) grid e) styles grid ! i ! j =
    (case map_of styles (row_start q + i, column_start q + j) of Some style \<Rightarrow> Some style | None \<Rightarrow> grid ! i ! j)"
  using assms(1,2,5)
proof (induction styles arbitrary: grid)
  case Nil
  then show ?case by simp
next
  case (Cons entry styles)
  obtain cell style where entry: "entry = (cell, style)" by (cases entry)
  let ?ends = "(row_start q + row_count q, column_start q + column_count q)"
  let ?grid = "place_style q ?ends grid (cell, style)"
  note one = place_style_at [OF Cons.prems(1,2) assms(3,4), of cell style]
  have absent: "map_of styles cell = None" and distinct: "distinct (map fst styles)"
    using Cons.prems(3) by (auto simp: entry map_of_eq_None_iff)
  have "fold (\<lambda>e grid. place_style q ?ends grid e) styles ?grid ! i ! j =
      (case map_of styles (row_start q + i, column_start q + j) of Some style \<Rightarrow> Some style | None \<Rightarrow> ?grid ! i ! j)"
    using one by (intro Cons.IH distinct) simp_all
  also have "\<dots> = (case map_of (entry # styles) (row_start q + i, column_start q + j) of
      Some style \<Rightarrow> Some style | None \<Rightarrow> grid ! i ! j)"
    using one absent by (cases "cell = (row_start q + i, column_start q + j)") (simp_all add: entry cong: option.case_cong)
  finally show ?case by (simp add: entry)
qed

text \<open>
  C33: A presentation range answers the layout inside the request. Every requested cell gets its
  own style identifier, or none; the sized rows and columns are exactly those whose index lies
  in the request; and the regions are, for a request that has a cell, exactly those that
  share a cell with it. A request without a cell is answered by the same comparison of
  bounds: along the axis on which it is empty it meets the regions that begin before its
  start and end after it, so a region around an empty request is reported.
\<close>

theorem presentation_range_exact:
  assumes "sheet_layout p descriptor = Some layout" and "layout_ok limits layout" and "range_valid q"
  shows "\<exists>r. presentation_range p descriptor q = Inr r \<and> length (tr_style_ids r) = row_count q \<and>
    (\<forall>i < row_count q. length (tr_style_ids r ! i) = column_count q) \<and>
    (\<forall>i < row_count q. \<forall>j < column_count q.
       tr_style_ids r ! i ! j = map_of (wp_styles layout) (row_start q + i, column_start q + j)) \<and>
    (row_count q > 0 \<and> column_count q > 0 \<longrightarrow> set (tr_merged_cells r) =
       {region \<in> set (wp_merged_cells layout). \<exists>row column. in_request q row column \<and> region_covers region row column}) \<and>
    (\<forall>region. region \<in> set (tr_merged_cells r) \<longleftrightarrow> region \<in> set (wp_merged_cells layout) \<and>
       (if row_count q = 0 then mc_row_start region < row_start q \<and> row_start q < mc_row_end region
        else \<exists>row. row_start q \<le> row \<and> row < row_start q + row_count q \<and>
          mc_row_start region \<le> row \<and> row < mc_row_end region) \<and>
       (if column_count q = 0 then mc_column_start region < column_start q \<and> column_start q < mc_column_end region
        else \<exists>column. column_start q \<le> column \<and> column < column_start q + column_count q \<and>
          mc_column_start region \<le> column \<and> column < mc_column_end region)) \<and>
    (\<forall>entry. entry \<in> set (tr_rows r) \<longleftrightarrow> row_start q \<le> ax_index entry \<and>
       ax_index entry < row_start q + row_count q \<and> map_of (wp_rows layout) (ax_index entry) = Some entry) \<and>
    (\<forall>entry. entry \<in> set (tr_columns r) \<longleftrightarrow> column_start q \<le> ax_index entry \<and>
       ax_index entry < column_start q + column_count q \<and> map_of (wp_columns layout) (ax_index entry) = Some entry)"
proof -
  let ?ends = "(row_start q + row_count q, column_start q + column_count q)"
  let ?blank = "replicate (row_count q) (replicate (column_count q) None) :: nat option list list"
  let ?grid = "fold (\<lambda>e grid. place_style q ?ends grid e) (wp_styles layout) ?blank"
  have run: "presentation_range p descriptor q = Inr \<lparr>tr_style_ids = ?grid,
      tr_merged_cells = filter (region_meets q ?ends) (wp_merged_cells layout),
      tr_rows = entries_between (row_start q) (row_start q + row_count q) (wp_rows layout),
      tr_columns = entries_between (column_start q) (column_start q + column_count q) (wp_columns layout)\<rparr>"
    using assms(1,3) validate_public_ok [of q "()"]
    by (simp add: presentation_range_def range_valid_ends Let_def del: validate_public_ok)
  have keys: "distinct (map fst (wp_styles layout))" using assms(2) by (simp add: layout_ok_def styles_ok_def)
  have blank: "length ?blank = row_count q" "\<forall>line \<in> set ?blank. length line = column_count q" by simp_all
  have grid: "?grid ! i ! j = map_of (wp_styles layout) (row_start q + i, column_start q + j)"
    if "i < row_count q" "j < column_count q" for i j
    using place_styles_at [OF blank that keys] that
    by (cases "map_of (wp_styles layout) (row_start q + i, column_start q + j)") simp_all
  have shape: "length ?grid = row_count q" "\<And>i. i < row_count q \<Longrightarrow> length (?grid ! i) = column_count q"
    using place_styles_shape [OF blank, of "wp_styles layout"] by simp_all
  have regions: "set (filter (region_meets q ?ends) (wp_merged_cells layout)) =
       {region \<in> set (wp_merged_cells layout). \<exists>row column. in_request q row column \<and> region_covers region row column}"
    if "row_count q > 0 \<and> column_count q > 0"
  proof -
    have "region_meets q ?ends region \<longleftrightarrow> (\<exists>row column. in_request q row column \<and> region_covers region row column)"
      if "region \<in> set (wp_merged_cells layout)" for region
      by (rule region_meets_shared)
        (use that assms(2) \<open>row_count q > 0 \<and> column_count q > 0\<close> in \<open>auto simp: layout_ok_def merges_ok_def\<close>)
    then show ?thesis by (simp only: set_filter cong: conj_cong)
  qed
  have axes: "region \<in> set (filter (region_meets q ?ends) (wp_merged_cells layout)) \<longleftrightarrow> region \<in> set (wp_merged_cells layout) \<and>
       (if row_count q = 0 then mc_row_start region < row_start q \<and> row_start q < mc_row_end region
        else \<exists>row. row_start q \<le> row \<and> row < row_start q + row_count q \<and>
          mc_row_start region \<le> row \<and> row < mc_row_end region) \<and>
       (if column_count q = 0 then mc_column_start region < column_start q \<and> column_start q < mc_column_end region
        else \<exists>column. column_start q \<le> column \<and> column < column_start q + column_count q \<and>
          mc_column_start region \<le> column \<and> column < mc_column_end region)" for region
    using region_meets_axes [of region q] assms(2) by (auto simp: layout_ok_def merges_ok_def)
  show ?thesis
    unfolding run
    using grid shape regions axes entries_between_iff [OF layout_axes(1) [OF assms(2)]]
      entries_between_iff [OF layout_axes(2) [OF assms(2)]]
    by (intro exI conjI) (rule refl, simp_all)
qed

theorem presentation_range_exact_witness:
  "\<exists>r. presentation_range merged_book data_sheet \<lparr>row_start = 1, row_count = 2, column_start = 1, column_count = 2\<rparr> = Inr r \<and>
    tr_style_ids r ! 0 ! 1 = None \<and> tr_rows r = []"
proof -
  let ?q = "\<lparr>row_start = 1, row_count = 2, column_start = 1, column_count = 2\<rparr>"
  have layout: "sheet_layout merged_book data_sheet = Some merged_layout"
    by (simp add: sheet_layout_def merged_book_def data_sheet_def)
  have ok: "layout_ok excel_limits_default merged_layout"
    by (simp add: layout_ok_def extent_ok_def styles_ok_def merges_ok_def axis_ok_def merged_layout_def empty_layout_def
      excel_limits_default_def ordered_def)
  have valid: "range_valid ?q" by (simp add: range_valid_def max_safe_integer_def)
  from presentation_range_exact [OF layout ok valid] obtain r where r: "presentation_range merged_book data_sheet ?q = Inr r"
    and styles: "\<forall>i < 2. \<forall>j < 2. tr_style_ids r ! i ! j = map_of (wp_styles merged_layout) (1 + i, 1 + j)"
    and rows: "\<forall>entry. entry \<in> set (tr_rows r) \<longleftrightarrow> 1 \<le> ax_index entry \<and> ax_index entry < 1 + 2 \<and>
       map_of (wp_rows merged_layout) (ax_index entry) = Some entry" by auto
  have "tr_style_ids r ! 0 ! 1 = None" using styles [rule_format, of 0 1] by (simp add: merged_layout_def empty_layout_def)
  moreover have "set (tr_rows r) = {}" using rows by (simp add: merged_layout_def empty_layout_def)
  ultimately show ?thesis using r by simp
qed

end
