(* ===== verification/Excel_Styles.thy ===== *)
theory Excel_Styles
  imports Excel_Presentation
begin

text \<open>
  crates/tabulark-excel-wasm/src/presentation.rs: what both style parsers share. Colors,
  built-in number formats, emptiness of a style's parts, and the table of distinct styles with
  the identifier of each style record. A panic of the code is the value \<open>Panicked\<close>.
\<close>

section \<open>Failures\<close>

datatype failure = Failed tabulark_error | Panicked

definition fallible :: "'a result \<Rightarrow> failure + 'a" where
  "fallible r = map_sum Failed id r"

lemma fallible_simps [simp]: "fallible (Inr a) = Inr a" "fallible (Inl e) = Inl (Failed e)"
  by (simp_all add: fallible_def)

lemma fallible_Inr_iff [simp]: "fallible r = Inr a \<longleftrightarrow> r = Inr a"
  by (cases r) simp_all

lemma fallible_not_panicked [simp]: "fallible r \<noteq> Inl Panicked"
  by (cases r) simp_all

section \<open>Colors\<close>

definition hex_digit :: "nat \<Rightarrow> char" where
  "hex_digit d = (if d < 10 then char_of (48 + d) else char_of (55 + d))"

text \<open>\<open>{:02X}\<close>.\<close>

definition hex_byte :: "byte \<Rightarrow> string" where
  "hex_byte b = [hex_digit (unat b div 16), hex_digit (unat b mod 16)]"

definition rgb_color :: "byte \<Rightarrow> byte \<Rightarrow> byte \<Rightarrow> presentation_color" where
  "rgb_color red green blue = \<lparr>pc_css = Some (CHR ''#'' # hex_byte red @ hex_byte green @ hex_byte blue)\<rparr>"

definition is_hex_digit :: "char \<Rightarrow> bool" where
  "is_hex_digit c \<longleftrightarrow> (let k = of_char c :: nat in
     (48 \<le> k \<and> k \<le> 57) \<or> (65 \<le> k \<and> k \<le> 70) \<or> (97 \<le> k \<and> k \<le> 102))"

definition ascii_upper :: "char \<Rightarrow> char" where
  "ascii_upper c = (let k = of_char c :: nat in if 97 \<le> k \<and> k \<le> 122 then char_of (k - 32) else c)"

text \<open>\<open>str::is_char_boundary\<close>, for an index inside the string.\<close>

definition char_boundary :: "string \<Rightarrow> nat \<Rightarrow> bool" where
  "char_boundary s i \<longleftrightarrow> i = length s \<or> (i < length s \<and> (let k = of_char (s ! i) :: nat in k < 128 \<or> 192 \<le> k))"

text \<open>\<open>&s[i..]\<close>: slicing off a character boundary panics.\<close>

definition slice_from :: "string \<Rightarrow> nat \<Rightarrow> failure + string" where
  "slice_from s i = (if char_boundary s i then Inr (drop i s) else Inl Panicked)"

definition color_from_attributes :: "attribute_map \<Rightarrow> failure + presentation_color option" where
  "color_from_attributes attributes =
     (case attributes ''rgb'' of
        None \<Rightarrow> Inr None
      | Some attribute \<Rightarrow>
          let rgb = dropWhile (\<lambda>c. c = CHR ''#'') attribute in
          rbind (if length rgb = 8 then map_sum id Some (slice_from rgb 2)
                 else if length rgb = 6 then Inr (Some rgb) else Inr None) (\<lambda>digits.
          case digits of
            None \<Rightarrow> Inr None
          | Some digits \<Rightarrow>
              if \<not> list_all is_hex_digit digits then Inr None
              else Inr (Some \<lparr>pc_css = Some (CHR ''#'' # map ascii_upper digits)\<rparr>)))"

text \<open>
  C31: A color attribute is read exactly. Without leading number signs, a value of six or eight
  bytes whose last six are hexadecimal digits is the color of those digits in upper case;
  any other value is no color, except that eight bytes whose third is inside a character
  stop the program.
\<close>

theorem color_attribute_exact:
  assumes "attributes ''rgb'' = Some v" and "rgb = dropWhile (\<lambda>c. c = CHR ''#'') v"
  shows "(color_from_attributes attributes = Inl Panicked) =
      (length rgb = 8 \<and> 128 \<le> (of_char (rgb ! 2) :: nat) \<and> (of_char (rgb ! 2) :: nat) < 192) \<and>
    (\<forall>color. (color_from_attributes attributes = Inr (Some color)) =
      ((length rgb = 6 \<or> length rgb = 8) \<and> (\<forall>i < 6. is_hex_digit (rgb ! (length rgb - 6 + i))) \<and>
       pc_css color = Some (CHR ''#'' # map ascii_upper (drop (length rgb - 6) rgb)))) \<and>
    (\<forall>e. color_from_attributes attributes \<noteq> Inl (Failed e))"
proof -
  have boundary: "char_boundary rgb 2 \<longleftrightarrow> \<not> (128 \<le> (of_char (rgb ! 2) :: nat) \<and> (of_char (rgb ! 2) :: nat) < 192)"
    if "length rgb = 8"
    using that by (auto simp: char_boundary_def Let_def)
  have hex: "is_hex_digit c \<Longrightarrow> \<not> (128 \<le> (of_char c :: nat))" for c
    by (auto simp: is_hex_digit_def Let_def)
  have digits: "list_all is_hex_digit (drop (length rgb - 6) rgb) \<longleftrightarrow> (\<forall>i < 6. is_hex_digit (rgb ! (length rgb - 6 + i)))"
    if "length rgb = 6 \<or> length rgb = 8"
    using that by (auto simp: list_all_length)
  consider (eight) "length rgb = 8" | (six) "length rgb = 6" | (other) "length rgb \<noteq> 8" "length rgb \<noteq> 6" by blast
  then show ?thesis
  proof cases
    case eight
    have third: "(\<forall>i < 6. is_hex_digit (rgb ! (2 + i))) \<Longrightarrow> \<not> (128 \<le> (of_char (rgb ! 2) :: nat))"
      using hex by (metis add.right_neutral zero_less_numeral)
    show ?thesis
      using eight boundary digits third
      by (auto simp: color_from_attributes_def assms(1) assms(2) [symmetric] slice_from_def Let_def)
  next
    case six
    then show ?thesis using digits
      by (auto simp: color_from_attributes_def assms(1) assms(2) [symmetric] Let_def)
  next
    case other
    then show ?thesis by (simp add: color_from_attributes_def assms(1) assms(2) [symmetric] Let_def)
  qed
qed

definition split_color :: string where
  "split_color = ''a'' @ map char_of [195, 169 :: nat] @ ''12345''"

theorem color_attribute_exact_witness:
  "color_from_attributes [''rgb'' \<mapsto> split_color] = Inl Panicked"
  using color_attribute_exact [of "[''rgb'' \<mapsto> split_color]" split_color split_color]
  by (simp add: split_color_def)

section \<open>Parts of a style\<close>

definition empty_font :: "'f presentation_font" where
  "empty_font = \<lparr>pf_family = None, pf_size = None, pf_bold = None, pf_italic = None, pf_underline = None,
     pf_color = None\<rparr>"

definition empty_borders :: presentation_borders where
  "empty_borders = \<lparr>pb_top = None, pb_right = None, pb_bottom = None, pb_left = None\<rparr>"

definition font_is_empty :: "'f presentation_font \<Rightarrow> bool" where
  "font_is_empty font \<longleftrightarrow> pf_family font = None \<and> pf_size font = None \<and> pf_bold font = None \<and>
     pf_italic font = None \<and> pf_underline font = None \<and> pf_color font = None"

definition border_side_is_empty :: "border_side_style \<Rightarrow> bool" where
  "border_side_is_empty side \<longleftrightarrow> bss_style side = None \<and> bss_color side = None"

definition borders_is_empty :: "presentation_borders \<Rightarrow> bool" where
  "borders_is_empty border \<longleftrightarrow> list_all border_side_is_empty
     (List.map_filter id [pb_top border, pb_right border, pb_bottom border, pb_left border])"

definition filter_option :: "('a \<Rightarrow> bool) \<Rightarrow> 'a option \<Rightarrow> 'a option" where
  "filter_option P v = (case v of Some a \<Rightarrow> if P a then Some a else None | None \<Rightarrow> None)"

definition get_at :: "'a list \<Rightarrow> nat \<Rightarrow> 'a option" where
  "get_at xs i = (if i < length xs then Some (xs ! i) else None)"

definition builtin_number_formats :: "(nat \<times> string) list" where
  "builtin_number_formats =
     [(1, ''0''), (2, ''0.00''), (3, ''#,##0''),
      (4, ''#,##0.00''), (9, ''0%''), (10, ''0.00%''), (11, ''0.00E+00''),
      (12, ''# ?/?''), (13, ''# ??/??''), (14, ''m/d/yy''), (15, ''d-mmm-yy''),
      (16, ''d-mmm''), (17, ''mmm-yy''), (18, ''h:mm AM/PM''), (19, ''h:mm:ss AM/PM''), (20, ''h:mm''),
      (21, ''h:mm:ss''), (22, ''m/d/yy h:mm''), (37, ''#,##0 ;(#,##0)''), (38, ''#,##0 ;[Red](#,##0)''),
      (39, ''#,##0.00;(#,##0.00)''), (40, ''#,##0.00;[Red](#,##0.00)''), (45, ''mm:ss''), (46, ''[h]:mm:ss''),
      (47, ''mmss.0''), (48, ''##0.0E+0''), (49, ''@'')]"

definition builtin_number_format :: "nat \<Rightarrow> string option" where
  "builtin_number_format n = map_of builtin_number_formats n"

definition or_else :: "'a option \<Rightarrow> 'a option \<Rightarrow> 'a option" where
  "or_else a b = (case a of Some v \<Rightarrow> Some v | None \<Rightarrow> b)"

section \<open>Distinct styles\<close>

record 'f style_table =
  st_styles :: "'f presentation_style list"
  st_raw_to_deduplicated :: "nat option list"

definition empty_style_table :: "'f style_table" where
  "empty_style_table = \<lparr>st_styles = [], st_raw_to_deduplicated = []\<rparr>"

text \<open>
  One rendered style into the table. \<open>key\<close> is its \<open>{:?}\<close> text, the key of the hash map from
  style to identifier; the type of keys is left open.
\<close>

definition deduplicate_style ::
    "('f presentation_style \<Rightarrow> 'k) \<Rightarrow> excel_limits \<Rightarrow> string \<Rightarrow> string \<Rightarrow>
      'f style_table \<times> ('k \<times> nat) list \<Rightarrow> 'f presentation_style \<Rightarrow> ('f style_table \<times> ('k \<times> nat) list) result" where
  "deduplicate_style key limits limit_message index_message state style =
     (let (table, deduplicated) = state;
          push = (\<lambda>raw table. table\<lparr>st_raw_to_deduplicated := st_raw_to_deduplicated table @ [raw]\<rparr>)
      in
      if style_is_empty style then Inr (push None table, deduplicated)
      else
        (case map_of deduplicated (key style) of
           Some existing \<Rightarrow> Inr (push (Some existing) table, deduplicated)
         | None \<Rightarrow>
             let index = length (st_styles table) in
             if index \<ge> max_styles limits
             then Inl (layout_limit_error ''styles'' (saturating_add index 1) (max_styles limits) limit_message)
             else if index > u32_max then Inl (new_error ResourceLimit index_message)
             else Inr (push (Some index) (table\<lparr>st_styles := st_styles table @ [style]\<rparr>),
                       AList.update (key style) index deduplicated)))"

definition deduplicate_styles ::
    "('f presentation_style \<Rightarrow> 'k) \<Rightarrow> excel_limits \<Rightarrow> string \<Rightarrow> string \<Rightarrow>
      'f presentation_style list \<Rightarrow> 'f style_table result" where
  "deduplicate_styles key limits limit_message index_message rendered =
     map_sum id fst (rfold (deduplicate_style key limits limit_message index_message) (empty_style_table, []) rendered)"

text \<open>What the table says of the styles rendered so far.\<close>

definition resolves :: "'f presentation_style list \<Rightarrow> 'f presentation_style \<Rightarrow> nat option \<Rightarrow> bool" where
  "resolves styles style raw \<longleftrightarrow>
     (case raw of None \<Rightarrow> style_is_empty style
      | Some k \<Rightarrow> \<not> style_is_empty style \<and> k < length styles \<and> styles ! k = style)"

definition table_of :: "'f presentation_style list \<Rightarrow> 'f style_table \<Rightarrow> bool" where
  "table_of rendered table \<longleftrightarrow>
     list_all2 (resolves (st_styles table)) rendered (st_raw_to_deduplicated table) \<and>
     distinct (st_styles table) \<and>
     set (st_styles table) = {style \<in> set rendered. \<not> style_is_empty style}"

definition tracks_styles ::
    "('f presentation_style \<Rightarrow> 'k) \<Rightarrow> 'f presentation_style list \<Rightarrow> 'f style_table \<times> ('k \<times> nat) list \<Rightarrow> bool" where
  "tracks_styles key rendered state \<longleftrightarrow> table_of rendered (fst state) \<and>
     (\<forall>style k. map_of (snd state) (key style) = Some k \<longleftrightarrow>
        k < length (st_styles (fst state)) \<and> st_styles (fst state) ! k = style)"

lemma resolves_append: "resolves styles style raw \<Longrightarrow> resolves (styles @ extra) style raw"
  by (auto simp: resolves_def nth_append split: option.splits)

lemma table_of_push_known:
  assumes "table_of rendered table" and "resolves (st_styles table) style raw"
  shows "table_of (rendered @ [style]) (table\<lparr>st_raw_to_deduplicated := st_raw_to_deduplicated table @ [raw]\<rparr>)"
proof -
  have "style_is_empty style \<or> style \<in> set (st_styles table)"
    using assms(2) by (auto simp: resolves_def split: option.splits)
  then show ?thesis using assms by (auto simp: table_of_def list_all2_appendI)
qed

lemma table_of_push_new:
  assumes "table_of rendered table" and "\<not> style_is_empty style" and "style \<notin> set (st_styles table)"
  shows "table_of (rendered @ [style])
    \<lparr>st_styles = st_styles table @ [style],
     st_raw_to_deduplicated = st_raw_to_deduplicated table @ [Some (length (st_styles table))]\<rparr>"
proof -
  have "list_all2 (resolves (st_styles table @ [style])) rendered (st_raw_to_deduplicated table)"
    using assms(1) unfolding table_of_def by (auto elim: list_all2_mono intro: resolves_append)
  moreover have "resolves (st_styles table @ [style]) style (Some (length (st_styles table)))"
    using assms(2) by (simp add: resolves_def)
  ultimately show ?thesis using assms by (auto simp: table_of_def list_all2_appendI)
qed

lemma deduplicate_style_tracks:
  assumes "inj key" and tracks: "tracks_styles key rendered state" and "length (st_styles (fst state)) \<le> max_styles limits"
  shows "case deduplicate_style key limits m1 m2 state style of
      Inr state' \<Rightarrow> tracks_styles key (rendered @ [style]) state' \<and> length (st_styles (fst state')) \<le> max_styles limits
    | Inl e \<Rightarrow> err_code e = ResourceLimit \<and>
        card {style' \<in> set (rendered @ [style]). \<not> style_is_empty style'} > min (max_styles limits) (Suc u32_max)"
proof -
  obtain table seen where state: "state = (table, seen)" by force
  have table: "table_of rendered table"
    and seen: "\<And>style k. map_of seen (key style) = Some k \<longleftrightarrow> k < length (st_styles table) \<and> st_styles table ! k = style"
    using tracks by (simp_all add: tracks_styles_def state)
  consider (empty) "style_is_empty style"
    | (known) k where "\<not> style_is_empty style" "map_of seen (key style) = Some k"
    | (new) "\<not> style_is_empty style" "map_of seen (key style) = None" by fastforce
  then show ?thesis
  proof cases
    case empty
    then show ?thesis
      using assms(3) table_of_push_known [OF table, of style None] seen
      by (simp add: deduplicate_style_def state tracks_styles_def resolves_def)
  next
    case known
    then have "resolves (st_styles table) style (Some k)" by (simp add: resolves_def seen)
    note pushed = table_of_push_known [OF table this]
    have "deduplicate_style key limits m1 m2 state style =
        Inr (table\<lparr>st_raw_to_deduplicated := st_raw_to_deduplicated table @ [Some k]\<rparr>, seen)"
      using known by (simp add: deduplicate_style_def state)
    then show ?thesis using assms(3) pushed seen by (simp add: tracks_styles_def state)
  next
    case new
    let ?n = "length (st_styles table)"
    have absent: "style \<notin> set (st_styles table)" using seen new(2) by (metis in_set_conv_nth option.distinct(1))
    note pushed = table_of_push_new [OF table new(1) absent]
    have count: "card {style' \<in> set (rendered @ [style]). \<not> style_is_empty style'} = Suc ?n"
      using pushed unfolding table_of_def by (metis (mono_tags) distinct_card length_append_singleton select_convs(1))
    show ?thesis
    proof (cases "?n \<ge> max_styles limits \<or> ?n > u32_max")
      case True
      then show ?thesis using new count
        by (auto simp: deduplicate_style_def state Let_def layout_limit_error_def)
    next
      case False
      have keys: "map_of (AList.update (key style) ?n seen) (key other) = Some k \<longleftrightarrow>
          k < Suc ?n \<and> (st_styles table @ [style]) ! k = other" for other k
      proof (cases "other = style")
        case True
        then show ?thesis using absent by (auto simp: update_conv' nth_append less_Suc_eq)
      next
        case False
        then have "key other \<noteq> key style" using \<open>inj key\<close> by (simp add: inj_eq)
        then show ?thesis using False seen [of other k] by (auto simp: update_conv' nth_append less_Suc_eq)
      qed
      have "deduplicate_style key limits m1 m2 state style =
          Inr (\<lparr>st_styles = st_styles table @ [style], st_raw_to_deduplicated = st_raw_to_deduplicated table @ [Some ?n]\<rparr>,
            AList.update (key style) ?n seen)"
        using False new by (cases table) (simp add: deduplicate_style_def state Let_def)
      then show ?thesis using False pushed keys by (simp add: tracks_styles_def)
    qed
  qed
qed

lemma deduplicate_run_tracks:
  assumes "inj key"
  shows "case rfold (deduplicate_style key limits m1 m2) (empty_style_table, []) rendered of
      Inr state \<Rightarrow> tracks_styles key rendered state \<and> length (st_styles (fst state)) \<le> max_styles limits
    | Inl e \<Rightarrow> err_code e = ResourceLimit \<and>
        card {style \<in> set rendered. \<not> style_is_empty style} > min (max_styles limits) (Suc u32_max)"
proof (induction rendered rule: rev_induct)
  case Nil
  then show ?case by (simp add: tracks_styles_def table_of_def empty_style_table_def)
next
  case (snoc style rendered)
  show ?case
  proof (cases "rfold (deduplicate_style key limits m1 m2) (empty_style_table, []) rendered")
    case (Inl e)
    have "card {style' \<in> set rendered. \<not> style_is_empty style'} \<le>
        card {style' \<in> set (rendered @ [style]). \<not> style_is_empty style'}"
      by (rule card_mono) auto
    then show ?thesis using snoc Inl by (simp add: rfold_append)
  next
    case (Inr state)
    then show ?thesis
      using snoc deduplicate_style_tracks [OF assms, where rendered = rendered and state = state and limits = limits
        and style = style and ?m1.0 = m1 and ?m2.0 = m2]
      by (cases "deduplicate_style key limits m1 m2 state style") (simp_all add: rfold_append)
  qed
qed

lemma deduplicate_styles_exact:
  assumes "inj key" and "deduplicate_styles key limits m1 m2 rendered = Inr table"
  shows "table_of rendered table" and "length (st_styles table) \<le> max_styles limits"
  using deduplicate_run_tracks [OF assms(1), where limits = limits and rendered = rendered and ?m1.0 = m1 and ?m2.0 = m2] assms(2)
  by (auto simp: deduplicate_styles_def map_sum_Inr_iff tracks_styles_def)

lemma table_of_nth:
  assumes "table_of rendered table" and "i < length rendered"
  shows "resolves (st_styles table) (rendered ! i) (st_raw_to_deduplicated table ! i)"
  using assms list_all2_nthD unfolding table_of_def by blast

lemma table_of_length: "table_of rendered table \<Longrightarrow> length (st_raw_to_deduplicated table) = length rendered"
  unfolding table_of_def using list_all2_lengthD by metis

end
