(* ===== verification/Biff8_Styles.thy ===== *)
theory Biff8_Styles
  imports Excel_Styles
begin

unbundle bit_operations_syntax

text \<open>
  crates/tabulark-excel-wasm/src/presentation.rs: the style collections of a BIFF8 workbook
  (fonts, number formats, extended formats, palette), how one extended format is resolved
  against its parent and rendered, and the table of distinct styles.
\<close>

section \<open>Records\<close>

record 'f raw_biff8_font =
  bf_family :: "string option"
  bf_size :: "'f option"
  bf_bold :: "bool option"
  bf_italic :: "bool option"
  bf_underline :: "bool option"
  bf_color_index :: "nat option"

record raw_biff8_border_side =
  bb_style :: nat
  bb_color_index :: nat

record raw_biff8_borders =
  bb_top :: raw_biff8_border_side
  bb_right :: raw_biff8_border_side
  bb_bottom :: raw_biff8_border_side
  bb_left :: raw_biff8_border_side

record raw_biff8_fill =
  bl_pattern :: nat
  bl_foreground_index :: nat
  bl_background_index :: nat

record raw_biff8_xf =
  bx_is_style :: bool
  bx_parent :: nat
  bx_font_index :: nat
  bx_number_format_id :: nat
  bx_horizontal_alignment :: "string option"
  bx_vertical_alignment :: "string option"
  bx_wrap_text :: "bool option"
  bx_borders :: raw_biff8_borders
  bx_fill :: raw_biff8_fill
  bx_uses_number_format :: bool
  bx_uses_font :: bool
  bx_uses_alignment :: bool
  bx_uses_borders :: bool
  bx_uses_fill :: bool

definition default_biff8_xf :: raw_biff8_xf where
  "default_biff8_xf =
     (let side = \<lparr>bb_style = 0, bb_color_index = 0\<rparr> in
      \<lparr>bx_is_style = False, bx_parent = 0, bx_font_index = 0, bx_number_format_id = 0,
       bx_horizontal_alignment = None, bx_vertical_alignment = None, bx_wrap_text = None,
       bx_borders = \<lparr>bb_top = side, bb_right = side, bb_bottom = side, bb_left = side\<rparr>,
       bx_fill = \<lparr>bl_pattern = 0, bl_foreground_index = 0, bl_background_index = 0\<rparr>,
       bx_uses_number_format = False, bx_uses_font = False, bx_uses_alignment = False,
       bx_uses_borders = False, bx_uses_fill = False\<rparr>)"

text \<open>A palette is the colors of a PALETTE record, if there was one.\<close>

type_synonym biff8_palette = "presentation_color list option"

definition parse_biff8_font :: "'f float_ops \<Rightarrow> byte list \<Rightarrow> 'f raw_biff8_font result" where
  "parse_biff8_font F data =
     (if length data < 16 then Inl (new_error ParseFailed ''BIFF8 FONT record is truncated'')
      else
        let height_twips = or_zero (u16_at data 0);
            flags = or_zero (u16_at data 2);
            weight = or_zero (u16_at data 6);
            underline = data ! 10
        in
        rbind (ok_or (decode_biff8_short_string (drop 14 data))
          (new_error ParseFailed ''BIFF8 FONT record has an invalid font name'')) (\<lambda>name.
        Inr \<lparr>bf_family = (if name \<noteq> [] then Some name else None),
             bf_size = (if height_twips > 0 then Some (f64_ratio F height_twips 20) else None),
             bf_bold = (if weight \<ge> 700 then Some True else None),
             bf_italic = (if flags AND 0x0002 \<noteq> 0 then Some True else None),
             bf_underline = (if underline \<noteq> 0 then Some True else None),
             bf_color_index = Some (or_zero (u16_at data 4))\<rparr>))"

definition biff8_horizontal_alignment :: "nat \<Rightarrow> string option" where
  "biff8_horizontal_alignment v =
     (if v = 0 then Some ''general'' else if v = 1 then Some ''left'' else if v = 2 then Some ''center''
      else if v = 3 then Some ''right'' else if v = 5 \<or> v = 7 then Some ''justify'' else None)"

definition biff8_vertical_alignment :: "nat \<Rightarrow> string option" where
  "biff8_vertical_alignment v =
     (if v = 0 then Some ''top'' else if v = 1 then Some ''center'' else if v = 2 then Some ''bottom''
      else if v = 3 \<or> v = 4 then Some ''justify'' else None)"

definition biff8_border_style :: "nat \<Rightarrow> string option" where
  "biff8_border_style v =
     (if v = 0 then None else if v = 1 then Some ''thin'' else if v = 2 then Some ''medium''
      else if v \<in> {3, 8, 9, 10, 11, 12, 13} then Some ''dashed''
      else if v = 4 \<or> v = 7 then Some ''dotted''
      else if v = 5 then Some ''thick'' else if v = 6 then Some ''double'' else None)"

definition parse_biff8_xf :: "byte list \<Rightarrow> raw_biff8_xf result" where
  "parse_biff8_xf data =
     (if length data < 20 then Inl (new_error ParseFailed ''BIFF8 XF record is truncated'')
      else
        let protection = or_zero (u16_at data 4);
            alignment = unat (data ! 6);
            used_attributes = unat (data ! 9);
            border_styles = or_zero (u16_at data 10);
            border_colors = or_zero (u16_at data 12);
            border_and_fill = or_zero (u32_at data 14);
            fill_colors = or_zero (u16_at data 18);
            is_style = (protection AND 0x0004 \<noteq> 0)
        in Inr
          \<lparr>bx_is_style = is_style,
           bx_parent = drop_bit 4 protection AND 0x0FFF,
           bx_font_index = or_zero (u16_at data 0),
           bx_number_format_id = or_zero (u16_at data 2),
           bx_horizontal_alignment = biff8_horizontal_alignment (alignment AND 0x07),
           bx_vertical_alignment = biff8_vertical_alignment (drop_bit 4 alignment AND 0x07),
           bx_wrap_text = (if alignment AND 0x08 \<noteq> 0 then Some True else None),
           bx_borders = \<lparr>
             bb_top = \<lparr>bb_style = drop_bit 8 border_styles AND 0x000F,
                       bb_color_index = border_and_fill AND 0x007F\<rparr>,
             bb_right = \<lparr>bb_style = drop_bit 4 border_styles AND 0x000F,
                         bb_color_index = drop_bit 7 border_colors AND 0x007F\<rparr>,
             bb_bottom = \<lparr>bb_style = drop_bit 12 border_styles AND 0x000F,
                          bb_color_index = drop_bit 7 border_and_fill AND 0x007F\<rparr>,
             bb_left = \<lparr>bb_style = border_styles AND 0x000F,
                        bb_color_index = border_colors AND 0x007F\<rparr>\<rparr>,
           bx_fill = \<lparr>bl_pattern = drop_bit 26 border_and_fill AND 0x003F,
                      bl_foreground_index = fill_colors AND 0x007F,
                      bl_background_index = drop_bit 7 fill_colors AND 0x007F\<rparr>,
           bx_uses_number_format = (is_style \<or> used_attributes AND 0x04 \<noteq> 0),
           bx_uses_font = (is_style \<or> used_attributes AND 0x08 \<noteq> 0),
           bx_uses_alignment = (is_style \<or> used_attributes AND 0x10 \<noteq> 0),
           bx_uses_borders = (is_style \<or> used_attributes AND 0x20 \<noteq> 0),
           bx_uses_fill = (is_style \<or> used_attributes AND 0x40 \<noteq> 0)\<rparr>)"

definition parse_biff8_palette :: "byte list \<Rightarrow> biff8_palette result" where
  "parse_biff8_palette data =
     (case u16_at data 0 of
        None \<Rightarrow> Inl (new_error ParseFailed ''BIFF8 PALETTE record is truncated'')
      | Some count \<Rightarrow>
          if count \<noteq> 56 \<or> length data < 2 + count * 4
          then Inl (new_error ParseFailed ''BIFF8 PALETTE record does not contain 56 RGB entries'')
          else Inr (Some (map (\<lambda>index. let offset = 2 + index * 4 in
                 rgb_color (data ! offset) (data ! (offset + 1)) (data ! (offset + 2))) [0..<count])))"

section \<open>Rendering\<close>

definition default_palette :: "(byte \<times> byte \<times> byte) list" where
  "default_palette =
     [(0, 0, 0), (255, 255, 255), (255, 0, 0), (0, 255, 0), (0, 0, 255), (255, 255, 0), (255, 0, 255),
      (0, 255, 255), (128, 0, 0), (0, 128, 0), (0, 0, 128), (128, 128, 0), (128, 0, 128), (0, 128, 128),
      (192, 192, 192), (128, 128, 128), (153, 153, 255), (153, 51, 102), (255, 255, 204), (204, 255, 255),
      (102, 0, 102), (255, 128, 128), (0, 102, 204), (204, 204, 255), (0, 0, 128), (255, 0, 255),
      (255, 255, 0), (0, 255, 255), (128, 0, 128), (128, 0, 0), (0, 128, 128), (0, 0, 255), (0, 204, 255),
      (204, 255, 255), (204, 255, 204), (255, 255, 153), (153, 204, 255), (255, 153, 204), (204, 153, 255),
      (255, 204, 153), (51, 102, 255), (51, 204, 204), (153, 204, 0), (255, 204, 0), (255, 153, 0),
      (255, 102, 0), (102, 102, 153), (150, 150, 150), (0, 51, 102), (51, 153, 102), (0, 51, 0), (51, 51, 0),
      (153, 51, 0), (153, 51, 102), (51, 51, 153), (51, 51, 51)]"

definition default_biff8_palette_color :: "nat \<Rightarrow> presentation_color option" where
  "default_biff8_palette_color index =
     map_option (\<lambda>(red, green, blue). rgb_color red green blue) (get_at default_palette index)"

definition biff8_color :: "nat \<Rightarrow> biff8_palette \<Rightarrow> presentation_color option" where
  "biff8_color index palette =
     (if index = 0 then Some (rgb_color 0 0 0)
      else if index = 1 then Some (rgb_color 255 255 255)
      else if index = 2 then Some (rgb_color 255 0 0)
      else if index = 3 then Some (rgb_color 0 255 0)
      else if index = 4 then Some (rgb_color 0 0 255)
      else if index = 5 then Some (rgb_color 255 255 0)
      else if index = 6 then Some (rgb_color 255 0 255)
      else if index = 7 then Some (rgb_color 0 255 255)
      else if index \<le> 0x3F
      then or_else (Option.bind palette (\<lambda>colors. get_at colors (index - 8)))
             (default_biff8_palette_color (index - 8))
      else None)"

definition effective_biff8_xf :: "nat \<Rightarrow> raw_biff8_xf list \<Rightarrow> raw_biff8_xf" where
  "effective_biff8_xf index xfs =
     (case get_at xfs index of
        None \<Rightarrow> default_biff8_xf
      | Some raw \<Rightarrow>
          if bx_is_style raw \<or> bx_parent raw = index then raw
          else
            (case filter_option bx_is_style (get_at xfs (bx_parent raw)) of
               None \<Rightarrow> raw
             | Some parent \<Rightarrow>
                 raw\<lparr>bx_number_format_id :=
                       (if bx_uses_number_format raw then bx_number_format_id raw else bx_number_format_id parent),
                     bx_font_index := (if bx_uses_font raw then bx_font_index raw else bx_font_index parent),
                     bx_horizontal_alignment := (if bx_uses_alignment raw then bx_horizontal_alignment raw
                                                 else bx_horizontal_alignment parent),
                     bx_vertical_alignment := (if bx_uses_alignment raw then bx_vertical_alignment raw
                                               else bx_vertical_alignment parent),
                     bx_wrap_text := (if bx_uses_alignment raw then bx_wrap_text raw else bx_wrap_text parent),
                     bx_borders := (if bx_uses_borders raw then bx_borders raw else bx_borders parent),
                     bx_fill := (if bx_uses_fill raw then bx_fill raw else bx_fill parent)\<rparr>))"

definition render_biff8_font :: "'f raw_biff8_font \<Rightarrow> biff8_palette \<Rightarrow> 'f presentation_font" where
  "render_biff8_font font palette =
     \<lparr>pf_family = bf_family font, pf_size = bf_size font, pf_bold = bf_bold font, pf_italic = bf_italic font,
      pf_underline = bf_underline font,
      pf_color = Option.bind (bf_color_index font)
        (\<lambda>index. if index \<noteq> 0 then biff8_color index palette else None)\<rparr>"

definition biff8_font_position :: "nat \<Rightarrow> nat option" where
  "biff8_font_position index = (if index = 4 then None else if index \<le> 3 then Some index else Some (index - 1))"

definition render_biff8_border_side :: "raw_biff8_border_side \<Rightarrow> biff8_palette \<Rightarrow> border_side_style option" where
  "render_biff8_border_side side palette =
     (let style = biff8_border_style (bb_style side);
          color = (if bb_color_index side \<noteq> 0 then biff8_color (bb_color_index side) palette else None)
      in if style \<noteq> None \<or> color \<noteq> None then Some \<lparr>bss_style = style, bss_color = color\<rparr> else None)"

definition render_biff8_borders :: "raw_biff8_borders \<Rightarrow> biff8_palette \<Rightarrow> presentation_borders option" where
  "render_biff8_borders borders palette =
     (let result = \<lparr>pb_top = render_biff8_border_side (bb_top borders) palette,
                    pb_right = render_biff8_border_side (bb_right borders) palette,
                    pb_bottom = render_biff8_border_side (bb_bottom borders) palette,
                    pb_left = render_biff8_border_side (bb_left borders) palette\<rparr>
      in if \<not> borders_is_empty result then Some result else None)"

definition render_biff8_xf ::
    "raw_biff8_xf \<Rightarrow> 'f presentation_font list \<Rightarrow> (nat \<times> string) list \<Rightarrow> biff8_palette \<Rightarrow>
      'f presentation_style" where
  "render_biff8_xf raw fonts number_formats palette =
     (let font = filter_option (\<lambda>font. \<not> font_is_empty font)
            (Option.bind (biff8_font_position (bx_font_index raw)) (get_at fonts));
          (foreground_color, background_color, fill_color) =
            (if bl_pattern (bx_fill raw) = 0 then (None, None, None)
             else
               let foreground = biff8_color (bl_foreground_index (bx_fill raw)) palette;
                   background = biff8_color (bl_background_index (bx_fill raw)) palette
               in (foreground, background, foreground));
          borders = render_biff8_borders (bx_borders raw) palette
      in \<lparr>ps_number_format = or_else (map_of number_formats (bx_number_format_id raw))
            (builtin_number_format (bx_number_format_id raw)),
          ps_font = font, ps_foreground_color = foreground_color, ps_background_color = background_color,
          ps_fill_color = fill_color, ps_borders = borders,
          ps_horizontal_alignment = bx_horizontal_alignment raw,
          ps_vertical_alignment = bx_vertical_alignment raw,
          ps_wrap_text = bx_wrap_text raw\<rparr>)"

section \<open>The globals\<close>

record 'f biff8_globals =
  bg_fonts :: "'f raw_biff8_font list"
  bg_number_formats :: "(nat \<times> string) list"
  bg_xfs :: "raw_biff8_xf list"
  bg_palette :: biff8_palette

definition empty_globals :: "'f biff8_globals" where
  "empty_globals = \<lparr>bg_fonts = [], bg_number_formats = [], bg_xfs = [], bg_palette = None\<rparr>"

definition too_many_styles :: "nat \<Rightarrow> excel_limits \<Rightarrow> string \<Rightarrow> tabulark_error" where
  "too_many_styles count limits message =
     layout_limit_error ''styles'' (saturating_add count 1) (max_styles limits) message"

definition biff8_format_record ::
    "byte list \<Rightarrow> excel_limits \<Rightarrow> (nat \<times> string) list \<Rightarrow> (nat \<times> string) list result" where
  "biff8_format_record data limits formats =
     (case u16_at data 0 of
        None \<Rightarrow> Inl (new_error ParseFailed ''BIFF8 FORMAT record is truncated'')
      | Some format_id \<Rightarrow>
          if map_of formats format_id = None \<and> length formats \<ge> max_styles limits
          then Inl (too_many_styles (length formats) limits
                 ''BIFF8 workbook exceeds the configured number-format limit'')
          else
            rbind (ok_or (decode_biff8_unicode_string (drop 2 data))
              (new_error ParseFailed ''BIFF8 FORMAT record has an invalid Unicode format string'')) (\<lambda>v.
            Inr (AList.update format_id v formats)))"

definition biff8_global_record ::
    "'f float_ops \<Rightarrow> excel_limits \<Rightarrow> nat \<Rightarrow> byte list \<Rightarrow> 'f biff8_globals \<Rightarrow> 'f biff8_globals result" where
  "biff8_global_record F limits record_type data g =
     (if record_type = 0x0031
      then if length (bg_fonts g) \<ge> max_styles limits
           then Inl (too_many_styles (length (bg_fonts g)) limits
                  ''BIFF8 workbook exceeds the configured font limit'')
           else map_sum id (\<lambda>font. g\<lparr>bg_fonts := bg_fonts g @ [font]\<rparr>) (parse_biff8_font F data)
      else if record_type = 0x041E
      then map_sum id (\<lambda>formats. g\<lparr>bg_number_formats := formats\<rparr>)
             (biff8_format_record data limits (bg_number_formats g))
      else if record_type = 0x00E0
      then if length (bg_xfs g) \<ge> max_styles limits
           then Inl (too_many_styles (length (bg_xfs g)) limits
                  ''BIFF8 workbook exceeds the configured cell-style limit'')
           else map_sum id (\<lambda>xf. g\<lparr>bg_xfs := bg_xfs g @ [xf]\<rparr>) (parse_biff8_xf data)
      else if record_type = 0x0092
      then map_sum id (\<lambda>palette. g\<lparr>bg_palette := palette\<rparr>) (parse_biff8_palette data)
      else Inr g)"

function biff8_globals_from ::
    "'f float_ops \<Rightarrow> excel_limits \<Rightarrow> byte list \<Rightarrow> nat \<Rightarrow> 'f biff8_globals \<Rightarrow> 'f biff8_globals result" where
  "biff8_globals_from F limits workbook position g =
     (case next_biff_record workbook position of
        Inl e \<Rightarrow> Inl e
      | Inr None \<Rightarrow> Inr g
      | Inr (Some (record_type, data, after)) \<Rightarrow>
          if record_type = 0xA then Inr g
          else
            (case biff8_global_record F limits record_type data g of
               Inl e \<Rightarrow> Inl e
             | Inr g \<Rightarrow> biff8_globals_from F limits workbook after g))"
  by pat_completeness auto
termination
  by (relation "measure (\<lambda>(F, limits, workbook, position, g). length workbook - position)")
    (auto dest!: next_biff_record_Some)

declare biff8_globals_from.simps [simp del]

definition rendered_biff8_style :: "'f biff8_globals \<Rightarrow> nat \<Rightarrow> 'f presentation_style" where
  "rendered_biff8_style g index =
     render_biff8_xf (effective_biff8_xf index (bg_xfs g))
       (map (\<lambda>font. render_biff8_font font (bg_palette g)) (bg_fonts g)) (bg_number_formats g) (bg_palette g)"

definition parse_biff8_styles ::
    "('f presentation_style \<Rightarrow> 'k) \<Rightarrow> 'f float_ops \<Rightarrow> byte list \<Rightarrow> excel_limits \<Rightarrow> 'f style_table result" where
  "parse_biff8_styles key F workbook limits =
     rbind (biff8_globals_from F limits workbook 0 empty_globals) (\<lambda>g.
     deduplicate_styles key limits
       ''BIFF8 workbook exceeds the configured deduplicated style limit''
       ''BIFF8 style index exceeds the supported integer range''
       (map (rendered_biff8_style g) [0..<length (bg_xfs g)]))"

section \<open>Correctness\<close>

lemma get_at_iff: "get_at xs i = Some x \<longleftrightarrow> i < length xs \<and> xs ! i = x"
  by (simp add: get_at_def)

lemma length_update_bound:
  "\<not> (map_of m k = None \<and> length m \<ge> n) \<Longrightarrow> length m \<le> n \<Longrightarrow> length (AList.update k v m) \<le> n"
  by (cases "k \<in> fst ` set m") (auto simp: map_of_eq_None_iff update_fresh update_present_length)

lemma globals_within_limits:
  "biff8_globals_from F limits workbook position g = Inr g' \<Longrightarrow>
    length (bg_fonts g) \<le> max_styles limits \<Longrightarrow> length (bg_number_formats g) \<le> max_styles limits \<Longrightarrow>
    length (bg_xfs g) \<le> max_styles limits \<Longrightarrow>
    length (bg_fonts g') \<le> max_styles limits \<and> length (bg_number_formats g') \<le> max_styles limits \<and>
    length (bg_xfs g') \<le> max_styles limits"
proof (induction F limits workbook position g rule: biff8_globals_from.induct)
  case (1 F limits workbook position g)
  have step: "length (bg_fonts h) \<le> max_styles limits \<and> length (bg_number_formats h) \<le> max_styles limits \<and>
      length (bg_xfs h) \<le> max_styles limits"
    if "biff8_global_record F limits record_type data g = Inr h" for record_type data h
    using that "1.prems"(2-4)
    by (auto simp: biff8_global_record_def biff8_format_record_def map_sum_Inr_iff length_update_bound
      split: if_splits option.splits)
  show ?case
    using "1.prems" "1.IH" step
    by (subst (asm) biff8_globals_from.simps) (auto split: sum.splits option.splits if_splits)
qed

text \<open>
  C30: The style table of a BIFF8 workbook is exact. Each extended format has one identifier;
  it is absent exactly when the format, completed from its parent style and rendered with the
  fonts, number formats and palette of the globals, says nothing, and otherwise leads to
  exactly that style. No style is empty, unused or listed twice, and neither the table nor
  any of the collections behind it exceeds the configured style limit.
\<close>

theorem biff8_style_table_exact:
  assumes "inj key" and "parse_biff8_styles key F workbook limits = Inr table"
  shows "\<exists>g. biff8_globals_from F limits workbook 0 empty_globals = Inr g \<and>
    length (st_raw_to_deduplicated table) = length (bg_xfs g) \<and> length (bg_xfs g) \<le> max_styles limits \<and>
    length (bg_fonts g) \<le> max_styles limits \<and> length (bg_number_formats g) \<le> max_styles limits \<and>
    (\<forall>i < length (bg_xfs g). case st_raw_to_deduplicated table ! i of
       None \<Rightarrow> style_is_empty (rendered_biff8_style g i)
     | Some k \<Rightarrow> \<not> style_is_empty (rendered_biff8_style g i) \<and> k < length (st_styles table) \<and>
         st_styles table ! k = rendered_biff8_style g i) \<and>
    distinct (st_styles table) \<and> length (st_styles table) \<le> max_styles limits \<and>
    set (st_styles table) = {style \<in> rendered_biff8_style g ` {..<length (bg_xfs g)}. \<not> style_is_empty style}"
proof -
  obtain g where g: "biff8_globals_from F limits workbook 0 empty_globals = Inr g"
    and table: "deduplicate_styles key limits
       ''BIFF8 workbook exceeds the configured deduplicated style limit''
       ''BIFF8 style index exceeds the supported integer range''
       (map (rendered_biff8_style g) [0..<length (bg_xfs g)]) = Inr table"
    using assms(2) by (auto simp: parse_biff8_styles_def)
  note exact = deduplicate_styles_exact [OF assms(1) table]
  have "case st_raw_to_deduplicated table ! i of
       None \<Rightarrow> style_is_empty (rendered_biff8_style g i)
     | Some k \<Rightarrow> \<not> style_is_empty (rendered_biff8_style g i) \<and> k < length (st_styles table) \<and>
         st_styles table ! k = rendered_biff8_style g i" if "i < length (bg_xfs g)" for i
    using table_of_nth [OF exact(1), of i] that by (simp add: resolves_def)
  moreover have "set (st_styles table) = {style \<in> rendered_biff8_style g ` {..<length (bg_xfs g)}. \<not> style_is_empty style}"
    using exact(1) by (simp add: table_of_def lessThan_atLeast0)
  moreover have "distinct (st_styles table)" using exact(1) by (simp add: table_of_def)
  moreover have "length (bg_fonts g) \<le> max_styles limits \<and> length (bg_number_formats g) \<le> max_styles limits \<and>
      length (bg_xfs g) \<le> max_styles limits"
    using globals_within_limits [OF g] by (simp add: empty_globals_def)
  ultimately show ?thesis
    using g exact(2) table_of_length [OF exact(1)] by (intro exI [of _ g]) simp
qed

text \<open>A workbook with one extended format, centered, and the end of its globals.\<close>

definition centered_xf :: "byte list" where
  "centered_xf = [0, 0, 0, 0, 0, 0, 2, 0, 0, 0, 0, 0, 0, 0, 0, 0, 0, 0, 0, 0]"

definition centered_workbook :: "byte list" where
  "centered_workbook = [0xE0, 0, 20, 0] @ centered_xf @ [0x0A, 0, 0, 0]"

lemma centered_records:
  "next_biff_record centered_workbook 0 = Inr (Some (0xE0, centered_xf, 24))"
  "next_biff_record centered_workbook 24 = Inr (Some (0x0A, [], 28))"
  by (simp_all add: next_biff_record_def centered_workbook_def centered_xf_def u16_at_def bytes_at_def or_zero_def Let_def
    u64_max_def)

lemma centered_parsed:
  "parse_biff8_xf centered_xf = Inr (default_biff8_xf\<lparr>bx_horizontal_alignment := Some ''center'',
     bx_vertical_alignment := Some ''top''\<rparr>)"
  by (simp add: parse_biff8_xf_def centered_xf_def u16_at_def u32_at_def bytes_at_def or_zero_def Let_def
    biff8_horizontal_alignment_def biff8_vertical_alignment_def default_biff8_xf_def)

definition centered_globals :: "unit biff8_globals" where
  "centered_globals = empty_globals\<lparr>bg_xfs := [default_biff8_xf\<lparr>bx_horizontal_alignment := Some ''center'',
     bx_vertical_alignment := Some ''top''\<rparr>]\<rparr>"

lemma centered_collected:
  "biff8_globals_from unit_floats excel_limits_default centered_workbook 0 empty_globals = Inr centered_globals"
  by (simp add: biff8_globals_from.simps [of _ _ _ 0] biff8_globals_from.simps [of _ _ _ 24] centered_records
    biff8_global_record_def centered_parsed centered_globals_def) (simp add: empty_globals_def excel_limits_default_def)

lemma centered_style:
  "\<not> style_is_empty (rendered_biff8_style centered_globals 0)"
  "ps_horizontal_alignment (rendered_biff8_style centered_globals 0) = Some ''center''"
  by (simp_all add: rendered_biff8_style_def centered_globals_def empty_globals_def effective_biff8_xf_def get_at_def
    filter_option_def render_biff8_xf_def default_biff8_xf_def Let_def style_is_empty_def)

theorem biff8_style_table_exact_witness:
  "\<exists>table k. parse_biff8_styles id unit_floats centered_workbook excel_limits_default = Inr table \<and>
    st_raw_to_deduplicated table = [Some k] \<and> ps_horizontal_alignment (st_styles table ! k) = Some ''center''"
proof -
  have room: "0 < max_styles excel_limits_default" by (simp add: excel_limits_default_def)
  have count: "length (bg_xfs centered_globals) = 1" by (simp add: centered_globals_def)
  obtain table where table: "parse_biff8_styles id unit_floats centered_workbook excel_limits_default = Inr table"
    using centered_style(1) room
    by (simp add: parse_biff8_styles_def centered_collected count deduplicate_styles_def deduplicate_style_def
      empty_style_table_def Let_def not_le)
  from biff8_style_table_exact [OF inj_on_id table] centered_collected count
  have raw: "length (st_raw_to_deduplicated table) = 1"
    and "case st_raw_to_deduplicated table ! 0 of None \<Rightarrow> style_is_empty (rendered_biff8_style centered_globals 0)
      | Some k \<Rightarrow> st_styles table ! k = rendered_biff8_style centered_globals 0"
    by (auto split: option.splits)
  then obtain k where "st_raw_to_deduplicated table ! 0 = Some k" "st_styles table ! k = rendered_biff8_style centered_globals 0"
    using centered_style(1) by (auto split: option.splits)
  then show ?thesis using table raw centered_style(2) by (auto simp: length_Suc_conv)
qed

end
