(* ===== verification/Xlsx_Styles.thy ===== *)
theory Xlsx_Styles
  imports Excel_Styles Biff8_Styles
begin

text \<open>
  crates/tabulark-excel-wasm/src/presentation.rs: the style sheet of a SpreadsheetML workbook.
  \<open>XlsxStyleParser\<close> is a state machine over the events of the document; its end renders every
  cell format and collects the distinct styles.
\<close>

section \<open>The parser\<close>

datatype border_side = SideTop | SideRight | SideBottom | SideLeft

record raw_fill =
  rf_foreground :: "presentation_color option"
  rf_background :: "presentation_color option"

record raw_xf =
  rx_number_format_id :: nat
  rx_font_id :: nat
  rx_fill_id :: nat
  rx_border_id :: nat
  rx_horizontal_alignment :: "string option"
  rx_vertical_alignment :: "string option"
  rx_wrap_text :: "bool option"

record 'f xlsx_style_parser =
  xp_in_num_formats :: bool
  xp_in_fonts :: bool
  xp_in_fills :: bool
  xp_in_borders :: bool
  xp_in_cell_xfs :: bool
  xp_number_formats :: "(nat \<times> string) list"
  xp_fonts :: "'f presentation_font list"
  xp_fills :: "raw_fill list"
  xp_borders :: "presentation_borders list"
  xp_raw_xfs :: "raw_xf list"
  xp_current_font :: "'f presentation_font option"
  xp_current_fill :: "raw_fill option"
  xp_current_border :: "presentation_borders option"
  xp_current_border_side :: "border_side option"
  xp_current_xf :: "raw_xf option"

definition empty_fill :: raw_fill where
  "empty_fill = \<lparr>rf_foreground = None, rf_background = None\<rparr>"

definition empty_xf :: raw_xf where
  "empty_xf = \<lparr>rx_number_format_id = 0, rx_font_id = 0, rx_fill_id = 0, rx_border_id = 0,
     rx_horizontal_alignment = None, rx_vertical_alignment = None, rx_wrap_text = None\<rparr>"

definition xlsx_style_parser_default :: "'f xlsx_style_parser" where
  "xlsx_style_parser_default =
     \<lparr>xp_in_num_formats = False, xp_in_fonts = False, xp_in_fills = False, xp_in_borders = False,
      xp_in_cell_xfs = False, xp_number_formats = [], xp_fonts = [], xp_fills = [], xp_borders = [],
      xp_raw_xfs = [], xp_current_font = None, xp_current_fill = None, xp_current_border = None,
      xp_current_border_side = None, xp_current_xf = None\<rparr>"

definition take_or :: "'a option \<Rightarrow> 'a \<Rightarrow> 'a" where
  "take_or current fallback = (case current of Some a \<Rightarrow> a | None \<Rightarrow> fallback)"

definition finish_font :: "excel_limits \<Rightarrow> 'f xlsx_style_parser \<Rightarrow> 'f xlsx_style_parser result" where
  "finish_font limits p =
     (if length (xp_fonts p) \<ge> max_styles limits
      then Inl (too_many_styles (length (xp_fonts p)) limits ''XLSX workbook exceeds the configured font limit'')
      else Inr (p\<lparr>xp_fonts := xp_fonts p @ [take_or (xp_current_font p) empty_font], xp_current_font := None\<rparr>))"

definition finish_fill :: "excel_limits \<Rightarrow> 'f xlsx_style_parser \<Rightarrow> 'f xlsx_style_parser result" where
  "finish_fill limits p =
     (if length (xp_fills p) \<ge> max_styles limits
      then Inl (too_many_styles (length (xp_fills p)) limits ''XLSX workbook exceeds the configured fill limit'')
      else Inr (p\<lparr>xp_fills := xp_fills p @ [take_or (xp_current_fill p) empty_fill], xp_current_fill := None\<rparr>))"

definition finish_border :: "excel_limits \<Rightarrow> 'f xlsx_style_parser \<Rightarrow> 'f xlsx_style_parser result" where
  "finish_border limits p =
     (if length (xp_borders p) \<ge> max_styles limits
      then Inl (too_many_styles (length (xp_borders p)) limits ''XLSX workbook exceeds the configured border limit'')
      else Inr (p\<lparr>xp_borders := xp_borders p @ [take_or (xp_current_border p) empty_borders],
                  xp_current_border := None, xp_current_border_side := None\<rparr>))"

definition finish_xf :: "excel_limits \<Rightarrow> 'f xlsx_style_parser \<Rightarrow> 'f xlsx_style_parser result" where
  "finish_xf limits p =
     (if length (xp_raw_xfs p) \<ge> max_styles limits
      then Inl (too_many_styles (length (xp_raw_xfs p)) limits ''XLSX workbook exceeds the configured cell-style limit'')
      else Inr (p\<lparr>xp_raw_xfs := xp_raw_xfs p @ [take_or (xp_current_xf p) empty_xf], xp_current_xf := None\<rparr>))"

definition parse_u32 :: "string \<Rightarrow> nat option" where
  "parse_u32 s = Option.bind (parse_u64 s) (\<lambda>n. if n \<le> u32_max then Some n else None)"

definition parse_u32_attribute :: "attribute_map \<Rightarrow> string \<Rightarrow> nat option" where
  "parse_u32_attribute attributes key = Option.bind (attributes key) parse_u32"

definition parse_usize_attribute :: "attribute_map \<Rightarrow> string \<Rightarrow> nat option" where
  "parse_usize_attribute attributes key = Option.bind (attributes key) parse_u64"

definition normalize_border_style :: "string \<Rightarrow> string option" where
  "normalize_border_style v =
     (if v \<in> {''none'', ''thin'', ''medium'', ''thick'', ''double''} then Some v
      else if v \<in> {''dashed'', ''mediumDashed'', ''dashDot'', ''mediumDashDot'', ''slantDashDot''} then Some ''dashed''
      else if v \<in> {''dotted'', ''hair''} then Some ''dotted''
      else None)"

definition normalize_horizontal_alignment :: "string \<Rightarrow> string option" where
  "normalize_horizontal_alignment v =
     (if v \<in> {''general'', ''left'', ''center'', ''right'', ''justify''} then Some v else None)"

definition normalize_vertical_alignment :: "string \<Rightarrow> string option" where
  "normalize_vertical_alignment v =
     (if v \<in> {''top'', ''center'', ''bottom'', ''justify''} then Some v else None)"

fun set_border_side :: "presentation_borders \<Rightarrow> border_side \<Rightarrow> border_side_style \<Rightarrow> presentation_borders" where
  "set_border_side border SideTop v = border\<lparr>pb_top := Some v\<rparr>"
| "set_border_side border SideRight v = border\<lparr>pb_right := Some v\<rparr>"
| "set_border_side border SideBottom v = border\<lparr>pb_bottom := Some v\<rparr>"
| "set_border_side border SideLeft v = border\<lparr>pb_left := Some v\<rparr>"

text \<open>\<open>border_side_mut\<close>: the side that an assignment through the reference changes.\<close>

fun border_side_of :: "presentation_borders \<Rightarrow> border_side \<Rightarrow> border_side_style option" where
  "border_side_of border SideTop = pb_top border"
| "border_side_of border SideRight = pb_right border"
| "border_side_of border SideBottom = pb_bottom border"
| "border_side_of border SideLeft = pb_left border"

definition side_named :: "string \<Rightarrow> border_side" where
  "side_named name =
     (if name = ''top'' then SideTop else if name = ''right'' then SideRight
      else if name = ''bottom'' then SideBottom else SideLeft)"

definition is_side_name :: "string \<Rightarrow> bool" where
  "is_side_name name \<longleftrightarrow> name \<in> {''top'', ''right'', ''bottom'', ''left''}"

definition start_number_format ::
    "attribute_map \<Rightarrow> excel_limits \<Rightarrow> 'f xlsx_style_parser \<Rightarrow> 'f xlsx_style_parser result" where
  "start_number_format attributes limits p =
     (if length (xp_number_formats p) \<ge> max_styles limits
      then Inl (too_many_styles (length (xp_number_formats p)) limits
             ''XLSX workbook exceeds the configured number-format limit'')
      else
        (case (Option.bind (attributes ''numFmtId'') parse_u32, attributes ''formatCode'') of
           (Some format_id, Some format) \<Rightarrow>
             Inr (p\<lparr>xp_number_formats := AList.update format_id format (xp_number_formats p)\<rparr>)
         | _ \<Rightarrow> Inr p))"

text \<open>The elements of a font, once one is being read.\<close>

definition start_font_part ::
    "'f float_ops \<Rightarrow> string \<Rightarrow> attribute_map \<Rightarrow> 'f presentation_font \<Rightarrow> failure + 'f presentation_font" where
  "start_font_part F name attributes font =
     (if name = ''name''
      then Inr (case attributes ''val'' of Some v \<Rightarrow> font\<lparr>pf_family := Some v\<rparr> | None \<Rightarrow> font)
      else if name = ''sz''
      then Inr (case filter_option (f64_positive F) (Option.bind (attributes ''val'') (parse_f64 F)) of
                  Some v \<Rightarrow> font\<lparr>pf_size := Some v\<rparr> | None \<Rightarrow> font)
      else if name = ''b'' then Inr (font\<lparr>pf_bold := Some True\<rparr>)
      else if name = ''i'' then Inr (font\<lparr>pf_italic := Some True\<rparr>)
      else if name = ''u'' then Inr (font\<lparr>pf_underline := Some True\<rparr>)
      else map_sum id (\<lambda>color. font\<lparr>pf_color := color\<rparr>) (color_from_attributes attributes))"

definition is_font_part :: "string \<Rightarrow> bool" where
  "is_font_part name \<longleftrightarrow> name \<in> {''name'', ''sz'', ''b'', ''i'', ''u'', ''color''}"

definition start_border_side ::
    "string \<Rightarrow> attribute_map \<Rightarrow> bool \<Rightarrow> presentation_borders \<Rightarrow> 'f xlsx_style_parser \<Rightarrow> 'f xlsx_style_parser" where
  "start_border_side name attributes is_empty border p =
     (let side = side_named name;
          v = \<lparr>bss_style = Option.bind (attributes ''style'') normalize_border_style, bss_color = None\<rparr>
      in p\<lparr>xp_current_border := Some (set_border_side border side v),
           xp_current_border_side := (if is_empty then None else Some side)\<rparr>)"

definition start_border_color ::
    "attribute_map \<Rightarrow> presentation_borders \<Rightarrow> border_side \<Rightarrow> 'f xlsx_style_parser \<Rightarrow> failure + 'f xlsx_style_parser" where
  "start_border_color attributes border side p =
     (case border_side_of border side of
        None \<Rightarrow> Inr p
      | Some current \<Rightarrow>
          map_sum id (\<lambda>color. p\<lparr>xp_current_border := Some (set_border_side border side (current\<lparr>bss_color := color\<rparr>))\<rparr>)
            (color_from_attributes attributes))"

definition start_xf :: "attribute_map \<Rightarrow> raw_xf" where
  "start_xf attributes =
     empty_xf\<lparr>rx_number_format_id := or_zero (parse_u32_attribute attributes ''numFmtId''),
             rx_font_id := or_zero (parse_usize_attribute attributes ''fontId''),
             rx_fill_id := or_zero (parse_usize_attribute attributes ''fillId''),
             rx_border_id := or_zero (parse_usize_attribute attributes ''borderId'')\<rparr>"

definition start_alignment :: "attribute_map \<Rightarrow> raw_xf \<Rightarrow> raw_xf" where
  "start_alignment attributes xf =
     xf\<lparr>rx_horizontal_alignment := Option.bind (attributes ''horizontal'') normalize_horizontal_alignment,
        rx_vertical_alignment := Option.bind (attributes ''vertical'') normalize_vertical_alignment,
        rx_wrap_text := Option.bind (attributes ''wrapText'') parse_xml_bool\<rparr>"

text \<open>The last arms of the match: cell formats.\<close>

definition style_start_xf ::
    "string \<Rightarrow> attribute_map \<Rightarrow> bool \<Rightarrow> excel_limits \<Rightarrow>
      'f xlsx_style_parser \<Rightarrow> failure + 'f xlsx_style_parser" where
  "style_start_xf name attributes is_empty limits p =
     (if name = ''xf'' \<and> xp_in_cell_xfs p
      then let p = p\<lparr>xp_current_xf := Some (start_xf attributes)\<rparr> in
           if is_empty then fallible (finish_xf limits p) else Inr p
      else if name = ''alignment'' \<and> xp_current_xf p \<noteq> None
      then Inr (p\<lparr>xp_current_xf := map_option (start_alignment attributes) (xp_current_xf p)\<rparr>)
      else Inr p)"

definition style_start ::
    "'f float_ops \<Rightarrow> string \<Rightarrow> attribute_map \<Rightarrow> bool \<Rightarrow> excel_limits \<Rightarrow>
      'f xlsx_style_parser \<Rightarrow> failure + 'f xlsx_style_parser" where
  "style_start F name attributes is_empty limits p =
     (if name = ''numFmts'' then Inr (p\<lparr>xp_in_num_formats := True\<rparr>)
      else if name = ''fonts'' then Inr (p\<lparr>xp_in_fonts := True\<rparr>)
      else if name = ''fills'' then Inr (p\<lparr>xp_in_fills := True\<rparr>)
      else if name = ''borders'' then Inr (p\<lparr>xp_in_borders := True\<rparr>)
      else if name = ''cellXfs'' then Inr (p\<lparr>xp_in_cell_xfs := True\<rparr>)
      else if name = ''numFmt'' \<and> xp_in_num_formats p then fallible (start_number_format attributes limits p)
      else if name = ''font'' \<and> xp_in_fonts p
      then let p = p\<lparr>xp_current_font := Some empty_font\<rparr> in
           if is_empty then fallible (finish_font limits p) else Inr p
      else if is_font_part name \<and> xp_current_font p \<noteq> None
      then map_sum id (\<lambda>font. p\<lparr>xp_current_font := Some font\<rparr>)
             (start_font_part F name attributes (take_or (xp_current_font p) empty_font))
      else if name = ''fill'' \<and> xp_in_fills p
      then let p = p\<lparr>xp_current_fill := Some empty_fill\<rparr> in
           if is_empty then fallible (finish_fill limits p) else Inr p
      else if name = ''fgColor'' \<and> xp_current_fill p \<noteq> None
      then map_sum id (\<lambda>color. p\<lparr>xp_current_fill := map_option (\<lambda>fill. fill\<lparr>rf_foreground := color\<rparr>) (xp_current_fill p)\<rparr>)
             (color_from_attributes attributes)
      else if name = ''bgColor'' \<and> xp_current_fill p \<noteq> None
      then map_sum id (\<lambda>color. p\<lparr>xp_current_fill := map_option (\<lambda>fill. fill\<lparr>rf_background := color\<rparr>) (xp_current_fill p)\<rparr>)
             (color_from_attributes attributes)
      else if name = ''border'' \<and> xp_in_borders p
      then let p = p\<lparr>xp_current_border := Some empty_borders\<rparr> in
           if is_empty then fallible (finish_border limits p) else Inr p
      else
        (case xp_current_border p of
           Some border \<Rightarrow>
             if is_side_name name then Inr (start_border_side name attributes is_empty border p)
             else
               (case xp_current_border_side p of
                  Some side \<Rightarrow>
                    if name = ''color'' then start_border_color attributes border side p
                    else style_start_xf name attributes is_empty limits p
                | None \<Rightarrow> style_start_xf name attributes is_empty limits p)
         | None \<Rightarrow> style_start_xf name attributes is_empty limits p))"

definition style_end ::
    "string \<Rightarrow> excel_limits \<Rightarrow> 'f xlsx_style_parser \<Rightarrow> 'f xlsx_style_parser result" where
  "style_end name limits p =
     (if name = ''numFmts'' then Inr (p\<lparr>xp_in_num_formats := False\<rparr>)
      else if name = ''fonts'' then Inr (p\<lparr>xp_in_fonts := False\<rparr>)
      else if name = ''fills'' then Inr (p\<lparr>xp_in_fills := False\<rparr>)
      else if name = ''borders'' then Inr (p\<lparr>xp_in_borders := False\<rparr>)
      else if name = ''cellXfs'' then Inr (p\<lparr>xp_in_cell_xfs := False\<rparr>)
      else if name = ''font'' \<and> xp_current_font p \<noteq> None then finish_font limits p
      else if name = ''fill'' \<and> xp_current_fill p \<noteq> None then finish_fill limits p
      else if name = ''border'' \<and> xp_current_border p \<noteq> None then finish_border limits p
      else if is_side_name name then Inr (p\<lparr>xp_current_border_side := None\<rparr>)
      else if name = ''xf'' \<and> xp_current_xf p \<noteq> None then finish_xf limits p
      else Inr p)"

fun xlsx_style_events ::
    "'f float_ops \<Rightarrow> excel_limits \<Rightarrow> xml_event list \<Rightarrow> 'f xlsx_style_parser \<Rightarrow> failure + 'f xlsx_style_parser" where
  "xlsx_style_events F limits [] p = Inr p"
| "xlsx_style_events F limits (event # events) p =
     (case event of
        XmlStart name attributes \<Rightarrow>
          rbind (fallible (xml_attributes attributes)) (\<lambda>attributes.
          rbind (style_start F (after_last_colon name) attributes False limits p) (\<lambda>p.
          xlsx_style_events F limits events p))
      | XmlEmpty name attributes \<Rightarrow>
          rbind (fallible (xml_attributes attributes)) (\<lambda>attributes.
          rbind (style_start F (after_last_colon name) attributes True limits p) (\<lambda>p.
          xlsx_style_events F limits events p))
      | XmlEnd name \<Rightarrow>
          rbind (fallible (style_end (after_last_colon name) limits p)) (\<lambda>p.
          xlsx_style_events F limits events p)
      | XmlEof \<Rightarrow> Inr p
      | XmlDocType \<Rightarrow> Inl (Failed doctype_error)
      | XmlOther \<Rightarrow> xlsx_style_events F limits events p
      | XmlFailed reason \<Rightarrow> Inl (Failed (xml_error ''failed to parse xl/styles.xml'' reason)))"

definition render_xf :: "'f xlsx_style_parser \<Rightarrow> raw_xf \<Rightarrow> 'f presentation_style" where
  "render_xf p raw =
     (let fill = take_or (get_at (xp_fills p) (rx_fill_id raw)) empty_fill;
          font = filter_option (\<lambda>font. \<not> font_is_empty font) (get_at (xp_fonts p) (rx_font_id raw));
          borders = filter_option (\<lambda>border. \<not> borders_is_empty border) (get_at (xp_borders p) (rx_border_id raw))
      in \<lparr>ps_number_format = or_else (map_of (xp_number_formats p) (rx_number_format_id raw))
            (builtin_number_format (rx_number_format_id raw)),
          ps_font = font, ps_foreground_color = rf_foreground fill, ps_background_color = rf_background fill,
          ps_fill_color = rf_foreground fill, ps_borders = borders,
          ps_horizontal_alignment = rx_horizontal_alignment raw,
          ps_vertical_alignment = rx_vertical_alignment raw,
          ps_wrap_text = rx_wrap_text raw\<rparr>)"

definition xlsx_styles_finish ::
    "('f presentation_style \<Rightarrow> 'k) \<Rightarrow> excel_limits \<Rightarrow> 'f xlsx_style_parser \<Rightarrow> 'f style_table result" where
  "xlsx_styles_finish key limits p =
     deduplicate_styles key limits
       ''XLSX workbook exceeds the configured deduplicated style limit''
       ''XLSX style index exceeds the supported integer range''
       (map (render_xf p) (xp_raw_xfs p))"

definition parse_xlsx_styles ::
    "('f presentation_style \<Rightarrow> 'k) \<Rightarrow> xml_env \<Rightarrow> 'f float_ops \<Rightarrow> byte list \<Rightarrow> excel_limits \<Rightarrow>
      failure + 'f style_table" where
  "parse_xlsx_styles key X F xml limits =
     rbind (xlsx_style_events F limits (xml_events X xml) xlsx_style_parser_default) (\<lambda>p.
     fallible (xlsx_styles_finish key limits p))"

section \<open>Correctness\<close>

text \<open>The collections of the parser never pass the style limit.\<close>

definition parser_ok :: "excel_limits \<Rightarrow> 'f xlsx_style_parser \<Rightarrow> bool" where
  "parser_ok limits p \<longleftrightarrow> length (xp_number_formats p) \<le> max_styles limits \<and> length (xp_fonts p) \<le> max_styles limits \<and>
     length (xp_fills p) \<le> max_styles limits \<and> length (xp_borders p) \<le> max_styles limits \<and>
     length (xp_raw_xfs p) \<le> max_styles limits"

lemma parser_ok_default: "parser_ok limits xlsx_style_parser_default"
  by (simp add: parser_ok_def xlsx_style_parser_default_def)

lemma finishes_ok:
  "finish_font limits p = Inr p' \<Longrightarrow> parser_ok limits p \<Longrightarrow> parser_ok limits p'"
  "finish_fill limits p = Inr p' \<Longrightarrow> parser_ok limits p \<Longrightarrow> parser_ok limits p'"
  "finish_border limits p = Inr p' \<Longrightarrow> parser_ok limits p \<Longrightarrow> parser_ok limits p'"
  "finish_xf limits p = Inr p' \<Longrightarrow> parser_ok limits p \<Longrightarrow> parser_ok limits p'"
  by (auto simp: finish_font_def finish_fill_def finish_border_def finish_xf_def parser_ok_def split: if_splits)

lemma parser_ok_fields [simp]:
  "parser_ok limits (p\<lparr>xp_in_num_formats := a\<rparr>) = parser_ok limits p"
  "parser_ok limits (p\<lparr>xp_in_fonts := a\<rparr>) = parser_ok limits p"
  "parser_ok limits (p\<lparr>xp_in_fills := a\<rparr>) = parser_ok limits p"
  "parser_ok limits (p\<lparr>xp_in_borders := a\<rparr>) = parser_ok limits p"
  "parser_ok limits (p\<lparr>xp_in_cell_xfs := a\<rparr>) = parser_ok limits p"
  "parser_ok limits (p\<lparr>xp_current_font := font\<rparr>) = parser_ok limits p"
  "parser_ok limits (p\<lparr>xp_current_fill := fill\<rparr>) = parser_ok limits p"
  "parser_ok limits (p\<lparr>xp_current_border := border\<rparr>) = parser_ok limits p"
  "parser_ok limits (p\<lparr>xp_current_border_side := side\<rparr>) = parser_ok limits p"
  "parser_ok limits (p\<lparr>xp_current_xf := xf\<rparr>) = parser_ok limits p"
  by (simp_all add: parser_ok_def)

lemma start_number_format_ok:
  "start_number_format attributes limits p = Inr p' \<Longrightarrow> parser_ok limits p \<Longrightarrow> parser_ok limits p'"
  by (auto simp: start_number_format_def parser_ok_def length_update_bound split: if_splits option.splits)

definition yields_ok :: "excel_limits \<Rightarrow> 'e + 'f xlsx_style_parser \<Rightarrow> bool" where
  "yields_ok limits r \<longleftrightarrow> (\<forall>p. r = Inr p \<longrightarrow> parser_ok limits p)"

lemma yields_ok_intros:
  "yields_ok limits r \<Longrightarrow> yields_ok limits r' \<Longrightarrow> yields_ok limits (if b then r else r')"
  "parser_ok limits p \<Longrightarrow> yields_ok limits (Inr p)"
  "(\<And>v. parser_ok limits (f v)) \<Longrightarrow> yields_ok limits (map_sum id f m)"
  "yields_ok limits r'' \<Longrightarrow> (\<And>v. yields_ok limits (g v)) \<Longrightarrow> yields_ok limits (case opt of None \<Rightarrow> r'' | Some v \<Rightarrow> g v)"
  "parser_ok limits p \<Longrightarrow> yields_ok limits (fallible (finish_font limits p))"
  "parser_ok limits p \<Longrightarrow> yields_ok limits (fallible (finish_fill limits p))"
  "parser_ok limits p \<Longrightarrow> yields_ok limits (fallible (finish_border limits p))"
  "parser_ok limits p \<Longrightarrow> yields_ok limits (fallible (finish_xf limits p))"
  "parser_ok limits p \<Longrightarrow> yields_ok limits (fallible (start_number_format attributes limits p))"
  by (auto simp: yields_ok_def map_sum_Inr_iff dest: finishes_ok start_number_format_ok split: option.splits)

lemma style_start_ok:
  assumes "parser_ok limits p"
  shows "yields_ok limits (style_start F name attributes is_empty limits p)"
  unfolding style_start_def style_start_xf_def start_border_color_def start_border_side_def Let_def
  by (intro yields_ok_intros) (use assms in simp_all)

lemma style_end_ok:
  "style_end name limits p = Inr p' \<Longrightarrow> parser_ok limits p \<Longrightarrow> parser_ok limits p'"
  by (auto simp: style_end_def dest: finishes_ok split: if_splits)

lemma xlsx_style_events_ok:
  "xlsx_style_events F limits events p = Inr p' \<Longrightarrow> parser_ok limits p \<Longrightarrow> parser_ok limits p'"
proof (induction F limits events p rule: xlsx_style_events.induct)
  case (2 F limits event events p)
  then show ?case by (cases event) (auto dest: style_start_ok [unfolded yields_ok_def, rule_format] style_end_ok)
qed simp

text \<open>
  C29: The style table of a SpreadsheetML style sheet is exact. Each cell format has one
  identifier; it is absent exactly when the format, rendered with the fonts, fills, borders
  and number formats the document lists, says nothing, and otherwise leads to exactly that
  style. No style is empty, unused or listed twice, and neither the table nor any of the
  collections exceeds the configured style limit.
\<close>

theorem xlsx_style_table_exact:
  assumes "inj key" and "parse_xlsx_styles key X F xml limits = Inr table"
  shows "\<exists>p. xlsx_style_events F limits (xml_events X xml) xlsx_style_parser_default = Inr p \<and> parser_ok limits p \<and>
    length (st_raw_to_deduplicated table) = length (xp_raw_xfs p) \<and>
    (\<forall>i < length (xp_raw_xfs p). case st_raw_to_deduplicated table ! i of
       None \<Rightarrow> style_is_empty (render_xf p (xp_raw_xfs p ! i))
     | Some k \<Rightarrow> \<not> style_is_empty (render_xf p (xp_raw_xfs p ! i)) \<and> k < length (st_styles table) \<and>
         st_styles table ! k = render_xf p (xp_raw_xfs p ! i)) \<and>
    distinct (st_styles table) \<and> length (st_styles table) \<le> max_styles limits \<and>
    set (st_styles table) = {style \<in> render_xf p ` set (xp_raw_xfs p). \<not> style_is_empty style}"
proof -
  obtain p where p: "xlsx_style_events F limits (xml_events X xml) xlsx_style_parser_default = Inr p"
    and table: "xlsx_styles_finish key limits p = Inr table"
    using assms(2) by (auto simp: parse_xlsx_styles_def)
  note exact = deduplicate_styles_exact [OF assms(1) table [unfolded xlsx_styles_finish_def]]
  have "case st_raw_to_deduplicated table ! i of
       None \<Rightarrow> style_is_empty (render_xf p (xp_raw_xfs p ! i))
     | Some k \<Rightarrow> \<not> style_is_empty (render_xf p (xp_raw_xfs p ! i)) \<and> k < length (st_styles table) \<and>
         st_styles table ! k = render_xf p (xp_raw_xfs p ! i)" if "i < length (xp_raw_xfs p)" for i
    using table_of_nth [OF exact(1), of i] that by (simp add: resolves_def)
  moreover have "set (st_styles table) = {style \<in> render_xf p ` set (xp_raw_xfs p). \<not> style_is_empty style}"
    "distinct (st_styles table)"
    using exact(1) by (simp_all add: table_of_def)
  ultimately show ?thesis
    using p exact(2) table_of_length [OF exact(1)] xlsx_style_events_ok [OF p parser_ok_default]
    by (intro exI [of _ p]) simp
qed

text \<open>A style sheet with one cell format, which only asks for wrapped text.\<close>

definition wrapping_sheet :: "xml_event list" where
  "wrapping_sheet = [XmlStart ''cellXfs'' [], XmlStart ''xf'' [],
     XmlEmpty ''alignment'' [XmlAttribute ''wrapText'' (Inr ''1'')], XmlEnd ''xf'', XmlEnd ''cellXfs'', XmlEof]"

definition wrapping_parser :: "unit xlsx_style_parser" where
  "wrapping_parser = xlsx_style_parser_default\<lparr>xp_raw_xfs := [empty_xf\<lparr>rx_wrap_text := Some True\<rparr>]\<rparr>"

theorem xlsx_style_table_exact_witness:
  "\<exists>table k. parse_xlsx_styles id \<lparr>xml_events = (\<lambda>_. wrapping_sheet), xml_local_name = after_last_colon\<rparr>
      unit_floats [] excel_limits_default = Inr table \<and>
    st_raw_to_deduplicated table = [Some k] \<and> ps_wrap_text (st_styles table ! k) = Some True"
proof -
  let ?X = "\<lparr>xml_events = (\<lambda>_. wrapping_sheet), xml_local_name = after_last_colon\<rparr>"
  have room: "0 < max_styles excel_limits_default" by (simp add: excel_limits_default_def)
  have plain: "after_last_colon ''cellXfs'' = ''cellXfs''" "after_last_colon ''xf'' = ''xf''"
      "after_last_colon ''alignment'' = ''alignment''" "after_last_colon ''wrapText'' = ''wrapText''"
    by (simp_all add: after_last_colon_plain)
  have "lossy_string ''wrapText'' = ''wrapText''" by (rule lossy_printable) (simp add: printable_def)
  then have "xml_attributes [XmlAttribute ''wrapText'' (Inr ''1'')] = Inr [''wrapText'' \<mapsto> ''1'']"
    by (simp add: xml_attributes_def plain)
  then have events: "xlsx_style_events unit_floats excel_limits_default wrapping_sheet xlsx_style_parser_default = Inr wrapping_parser"
    using room
    by (simp add: wrapping_sheet_def plain style_start_def style_start_xf_def style_end_def xml_attributes_def
      xlsx_style_parser_default_def wrapping_parser_def finish_xf_def start_xf_def start_alignment_def empty_xf_def
      parse_u32_attribute_def parse_usize_attribute_def or_zero_def parse_xml_bool_def take_or_def is_side_name_def
      is_font_part_def Let_def not_le)
  have style: "\<not> style_is_empty (render_xf wrapping_parser (xp_raw_xfs wrapping_parser ! 0))"
      "ps_wrap_text (render_xf wrapping_parser (xp_raw_xfs wrapping_parser ! 0)) = Some True"
    by (simp_all add: wrapping_parser_def render_xf_def style_is_empty_def Let_def)
  have count: "length (xp_raw_xfs wrapping_parser) = 1" by (simp add: wrapping_parser_def)
  obtain table where table: "parse_xlsx_styles id ?X unit_floats [] excel_limits_default = Inr table"
    using style room events
    by (simp add: parse_xlsx_styles_def xlsx_styles_finish_def wrapping_parser_def deduplicate_styles_def
      deduplicate_style_def empty_style_table_def Let_def not_le)
  from xlsx_style_table_exact [OF inj_on_id table] events count
  have raw: "length (st_raw_to_deduplicated table) = 1"
    and "case st_raw_to_deduplicated table ! 0 of
      None \<Rightarrow> style_is_empty (render_xf wrapping_parser (xp_raw_xfs wrapping_parser ! 0))
      | Some k \<Rightarrow> st_styles table ! k = render_xf wrapping_parser (xp_raw_xfs wrapping_parser ! 0)"
    by (auto split: option.splits)
  then obtain k where "st_raw_to_deduplicated table ! 0 = Some k"
      "st_styles table ! k = render_xf wrapping_parser (xp_raw_xfs wrapping_parser ! 0)"
    using style(1) by (auto split: option.splits)
  then show ?thesis using table raw style(2) by (auto simp: length_Suc_conv)
qed

end
