(* ===== verification/Workbook_Layout.thy ===== *)
theory Workbook_Layout
  imports Xlsx_Styles
begin

text \<open>
  crates/tabulark-excel-wasm/src/presentation.rs: the presentation of a whole workbook. The
  archive and compound-file readers are parameters: what they find under a name or a path and
  what reading it gives. The parsed styles and layouts fit together: every identifier a cell
  carries leads to a style of the table.
\<close>

section \<open>Parts of a package\<close>

record zip_file =
  zf_name :: string
  zf_size :: nat
  zf_enclosed :: bool
  zf_encrypted :: bool
  zf_take :: "nat \<Rightarrow> string + byte list"
  zf_read_to_end :: "string + byte list"

record zip_archive =
  za_len :: nat
  za_index_for_name :: "string \<Rightarrow> nat option"
  za_by_index :: "nat \<Rightarrow> string + zip_file"

record compound_entry =
  ce_is_stream :: bool
  ce_name :: string
  ce_path :: string
  ce_len :: nat

text \<open>
  An open stream: its first bytes if there are that many, and what reading it to its end gives
  once a number of bytes has been read.
\<close>

record byte_stream =
  stream_exact :: "nat \<Rightarrow> string + byte list"
  stream_rest :: "nat \<Rightarrow> string + byte list"

record compound_file =
  cf_walk :: "compound_entry list"
  cf_open_stream :: "string \<Rightarrow> string + byte_stream"

record container_env =
  zip_archive_new :: "byte list \<Rightarrow> string + zip_archive"
  compound_file_open :: "byte list \<Rightarrow> string + compound_file"

definition with_reason :: "error_code \<Rightarrow> string \<Rightarrow> string + 'a \<Rightarrow> 'a result" where
  "with_reason code message r =
     map_sum (\<lambda>reason. with_detail (new_error code message) ''reason'' (DetailString reason)) id r"

definition read_zip_entry :: "zip_archive \<Rightarrow> string \<Rightarrow> excel_limits \<Rightarrow> byte list option result" where
  "read_zip_entry archive name limits =
     (case za_index_for_name archive name of
        None \<Rightarrow> Inr None
      | Some index \<Rightarrow>
          rbind (map_sum (\<lambda>reason. with_detail (with_detail
              (new_error ParseFailed ''failed to read XLSX ZIP entry'')
              ''entry'' (DetailString name)) ''reason'' (DetailString reason)) id
            (za_by_index archive index)) (\<lambda>file.
          if zf_size file > max_zip_entry_bytes limits
          then Inl (layout_limit_error ''zip-entry-bytes'' (zf_size file) (max_zip_entry_bytes limits)
                 ''XLSX entry exceeds the configured uncompressed-byte limit'')
          else
            rbind (map_sum (\<lambda>reason. with_detail (with_detail
                (new_error ParseFailed ''failed to decompress XLSX ZIP entry'')
                ''entry'' (DetailString name)) ''reason'' (DetailString reason)) id
              (zf_take file (saturating_add (zf_size file) 1))) (\<lambda>contents.
            if length contents > zf_size file
            then Inl (layout_limit_error ''zip-entry-bytes'' (length contents) (zf_size file)
                   ''XLSX entry produced more bytes than its declared uncompressed size'')
            else Inr (Some contents))))"

record workbook_sheet_reference =
  wsr_name :: string
  wsr_relationship_id :: string

record workbook_relationship =
  wr_target :: string
  wr_external :: bool

fun xlsx_workbook_sheet_events ::
    "xml_event list \<Rightarrow> workbook_sheet_reference list \<Rightarrow> workbook_sheet_reference list result" where
  "xlsx_workbook_sheet_events [] sheets = Inr sheets"
| "xlsx_workbook_sheet_events (event # events) sheets =
     (case filter_option (\<lambda>element. after_last_colon (fst element) = ''sheet'') (element_of event) of
        Some (name, attributes) \<Rightarrow>
          rbind (xml_attributes attributes) (\<lambda>attributes.
          xlsx_workbook_sheet_events events
            (case (attributes ''name'', attributes ''id'') of
               (Some name, Some relationship_id) \<Rightarrow>
                 sheets @ [\<lparr>wsr_name = name, wsr_relationship_id = relationship_id\<rparr>]
             | _ \<Rightarrow> sheets))
      | None \<Rightarrow>
          (case event of
             XmlEof \<Rightarrow> Inr sheets
           | XmlDocType \<Rightarrow> Inl doctype_error
           | XmlFailed reason \<Rightarrow> Inl (xml_error ''failed to parse xl/workbook.xml'' reason)
           | _ \<Rightarrow> xlsx_workbook_sheet_events events sheets))"

fun xlsx_relationship_events ::
    "xml_event list \<Rightarrow> (string \<times> workbook_relationship) list \<Rightarrow> (string \<times> workbook_relationship) list result" where
  "xlsx_relationship_events [] relationships = Inr relationships"
| "xlsx_relationship_events (event # events) relationships =
     (case filter_option (\<lambda>element. after_last_colon (fst element) = ''Relationship'') (element_of event) of
        Some (name, attributes) \<Rightarrow>
          rbind (xml_attributes attributes) (\<lambda>attributes.
          xlsx_relationship_events events
            (case (attributes ''Id'', attributes ''Target'') of
               (Some rel_id, Some target) \<Rightarrow>
                 AList.update rel_id
                   \<lparr>wr_target = target,
                    wr_external = (case attributes ''TargetMode'' of
                       Some mode \<Rightarrow> eq_ignore_ascii_case mode ''External'' | None \<Rightarrow> False)\<rparr> relationships
             | _ \<Rightarrow> relationships))
      | None \<Rightarrow>
          (case event of
             XmlEof \<Rightarrow> Inr relationships
           | XmlDocType \<Rightarrow> Inl doctype_error
           | XmlFailed reason \<Rightarrow> Inl (xml_error ''failed to parse workbook relationships'' reason)
           | _ \<Rightarrow> xlsx_relationship_events events relationships))"

definition parse_xlsx_workbook_sheets :: "xml_env \<Rightarrow> byte list \<Rightarrow> workbook_sheet_reference list result" where
  "parse_xlsx_workbook_sheets X xml = xlsx_workbook_sheet_events (xml_events X xml) []"

definition parse_xlsx_relationships :: "xml_env \<Rightarrow> byte list \<Rightarrow> (string \<times> workbook_relationship) list result" where
  "parse_xlsx_relationships X xml = xlsx_relationship_events (xml_events X xml) []"

fun ooxml_parts :: "string list \<Rightarrow> string list \<Rightarrow> string list option" where
  "ooxml_parts parts [] = Some parts"
| "ooxml_parts parts (part # rest) =
     (if part = [] \<or> part = ''.'' then ooxml_parts parts rest
      else if part = ''..'' then (if parts = [] then None else ooxml_parts (butlast parts) rest)
      else if CHR '':'' \<in> set part then None
      else ooxml_parts (parts @ [part]) rest)"

definition resolve_ooxml_target :: "string \<Rightarrow> string \<Rightarrow> string option" where
  "resolve_ooxml_target base target =
     (let slashes = map (\<lambda>c. if c = CHR 0x5C then CHR ''/'' else c);
          combined = (if take 1 target = ''/'' then slashes (dropWhile (\<lambda>c. c = CHR ''/'') target)
                      else base @ slashes target)
      in Option.bind (ooxml_parts [] (split_char CHR ''/'' combined)) (\<lambda>parts.
         if parts \<noteq> [] then Some (join_char CHR ''/'' parts) else None))"

section \<open>Workbooks\<close>

definition empty_presentation :: "'f workbook_presentation" where
  "empty_presentation = \<lparr>wbp_styles = [], wbp_sheets = []\<rparr>"

definition insert_sheet ::
    "string \<Rightarrow> 'f worksheet_presentation \<Rightarrow> 'f workbook_presentation \<Rightarrow> 'f workbook_presentation" where
  "insert_sheet name layout p = p\<lparr>wbp_sheets := AList.update name layout (wbp_sheets p)\<rparr>"

text \<open>One sheet of the workbook part into the presentation.\<close>

definition xlsx_sheet ::
    "xml_env \<Rightarrow> 'f float_ops \<Rightarrow> zip_archive \<Rightarrow> excel_limits \<Rightarrow> (string \<times> workbook_relationship) list \<Rightarrow>
      nat option list \<Rightarrow> 'f workbook_presentation \<Rightarrow> workbook_sheet_reference \<Rightarrow> 'f workbook_presentation result" where
  "xlsx_sheet X F archive limits relationships styles p sheet =
     (case map_of relationships (wsr_relationship_id sheet) of
        None \<Rightarrow> Inr p
      | Some relationship \<Rightarrow>
          if wr_external relationship then Inr p
          else
            (case resolve_ooxml_target ''xl/'' (wr_target relationship) of
               None \<Rightarrow> Inl (with_detail
                 (new_error ParseFailed ''XLSX worksheet relationship has an unsafe target'')
                 ''target'' (DetailString (wr_target relationship)))
             | Some path \<Rightarrow>
                 rbind (read_zip_entry archive path limits) (\<lambda>xml.
                 case xml of
                   None \<Rightarrow> Inl (with_detail
                     (new_error ParseFailed ''XLSX worksheet relationship target is missing'')
                     ''target'' (DetailString path))
                 | Some xml \<Rightarrow>
                     rbind (parse_xlsx_worksheet X F xml styles limits) (\<lambda>layout.
                     Inr (insert_sheet (wsr_name sheet) layout p)))))"

definition required_entry :: "zip_archive \<Rightarrow> string \<Rightarrow> excel_limits \<Rightarrow> string \<Rightarrow> byte list result" where
  "required_entry archive name limits message =
     rbind (read_zip_entry archive name limits) (\<lambda>xml. ok_or xml (new_error ParseFailed message))"

definition xlsx_style_part ::
    "('f presentation_style \<Rightarrow> 'k) \<Rightarrow> xml_env \<Rightarrow> 'f float_ops \<Rightarrow> zip_archive \<Rightarrow> excel_limits \<Rightarrow>
      failure + 'f style_table" where
  "xlsx_style_part key X F archive limits =
     rbind (fallible (read_zip_entry archive ''xl/styles.xml'' limits)) (\<lambda>styles.
     case styles of
       Some styles \<Rightarrow> parse_xlsx_styles key X F styles limits
     | None \<Rightarrow> Inr empty_style_table)"

definition parse_xlsx ::
    "('f presentation_style \<Rightarrow> 'k) \<Rightarrow> container_env \<Rightarrow> xml_env \<Rightarrow> 'f float_ops \<Rightarrow> byte list \<Rightarrow> excel_limits \<Rightarrow>
      failure + 'f workbook_presentation" where
  "parse_xlsx key E X F bytes limits =
     rbind (fallible (with_reason ParseFailed ''invalid XLSX ZIP container'' (zip_archive_new E bytes))) (\<lambda>archive.
     rbind (fallible (required_entry archive ''xl/workbook.xml'' limits
       ''XLSX workbook is missing xl/workbook.xml'')) (\<lambda>workbook.
     rbind (fallible (required_entry archive ''xl/_rels/workbook.xml.rels'' limits
       ''XLSX workbook is missing workbook relationships'')) (\<lambda>relationships.
     rbind (fallible (parse_xlsx_workbook_sheets X workbook)) (\<lambda>sheets.
     rbind (fallible (parse_xlsx_relationships X relationships)) (\<lambda>relationships.
     rbind (xlsx_style_part key X F archive limits) (\<lambda>styles.
     rbind (fallible (rfold (xlsx_sheet X F archive limits relationships (st_raw_to_deduplicated styles))
       empty_presentation sheets)) (\<lambda>p.
     Inr (p\<lparr>wbp_styles := st_styles styles\<rparr>))))))))"

definition is_workbook_stream :: "compound_entry \<Rightarrow> bool" where
  "is_workbook_stream entry \<longleftrightarrow> ce_is_stream entry \<and>
     (eq_ignore_ascii_case (ce_name entry) ''Workbook'' \<or> eq_ignore_ascii_case (ce_name entry) ''Book'')"

definition workbook_stream :: "container_env \<Rightarrow> byte list \<Rightarrow> byte list result" where
  "workbook_stream E bytes =
     rbind (with_reason ParseFailed ''invalid Excel compound file'' (compound_file_open E bytes)) (\<lambda>compound.
     rbind (ok_or (map_option ce_path (find is_workbook_stream (cf_walk compound)))
       (new_error ParseFailed ''Excel compound file does not contain a Workbook stream'')) (\<lambda>path.
     rbind (with_reason ParseFailed ''failed to open the Excel Workbook stream'' (cf_open_stream compound path)) (\<lambda>stream.
     with_reason ParseFailed ''failed to read the Excel Workbook stream'' (stream_rest stream 0))))"

definition biff8_sheet_into ::
    "'f float_ops \<Rightarrow> byte list \<Rightarrow> nat option list \<Rightarrow> excel_limits \<Rightarrow>
      'f workbook_presentation \<Rightarrow> biff8_bound_sheet \<Rightarrow> 'f workbook_presentation result" where
  "biff8_sheet_into F workbook styles limits p sheet =
     rbind (parse_biff8_worksheet F workbook (bs_offset sheet) styles limits) (\<lambda>layout.
     Inr (insert_sheet (bs_name sheet) layout p))"

definition parse_biff8 ::
    "('f presentation_style \<Rightarrow> 'k) \<Rightarrow> container_env \<Rightarrow> 'f float_ops \<Rightarrow> byte list \<Rightarrow> excel_limits \<Rightarrow>
      'f workbook_presentation result" where
  "parse_biff8 key E F bytes limits =
     rbind (workbook_stream E bytes) (\<lambda>workbook.
     rbind (parse_biff8_styles key F workbook limits) (\<lambda>styles.
     rbind (parse_biff8_bound_sheets workbook) (\<lambda>sheets.
     rbind (rfold (biff8_sheet_into F workbook (st_raw_to_deduplicated styles) limits) empty_presentation sheets) (\<lambda>p.
     Inr (p\<lparr>wbp_styles := st_styles styles\<rparr>)))))"

fun parse_presentation ::
    "('f presentation_style \<Rightarrow> 'k) \<Rightarrow> container_env \<Rightarrow> xml_env \<Rightarrow> 'f float_ops \<Rightarrow> excel_format \<Rightarrow> byte list \<Rightarrow>
      excel_limits \<Rightarrow> failure + 'f workbook_presentation" where
  "parse_presentation key E X F Xlsx bytes limits = parse_xlsx key E X F bytes limits"
| "parse_presentation key E X F Xls bytes limits = fallible (parse_biff8 key E F bytes limits)"

section \<open>Which styles a layout uses\<close>

definition style_ids :: "'f worksheet_presentation \<Rightarrow> nat set" where
  "style_ids layout = snd ` set (wp_styles layout)"

definition styled_by :: "nat set \<Rightarrow> 'f worksheet_presentation result \<Rightarrow> bool" where
  "styled_by K r \<longleftrightarrow> (\<forall>layout. r = Inr layout \<longrightarrow> style_ids layout \<subseteq> K)"

lemma styled_by_insert:
  assumes "style \<in> K" and "style_ids layout \<subseteq> K"
  shows "styled_by K (insert_cell_style coordinate style limits message layout)"
proof -
  have "set (AList.update coordinate style (wp_styles layout)) \<subseteq> insert (coordinate, style) (set (wp_styles layout))"
    using update_entry by fast
  then show ?thesis using assms by (fastforce simp: styled_by_def insert_cell_style_def style_ids_def)
qed

lemma styled_by_rfold:
  assumes "\<And>layout x. style_ids layout \<subseteq> K \<Longrightarrow> styled_by K (f layout x)" and "style_ids layout \<subseteq> K"
  shows "styled_by K (rfold f layout xs)"
  using assms(2)
proof (induction xs arbitrary: layout)
  case (Cons x xs)
  then show ?case using assms(1) [of layout x] by (auto simp: styled_by_def)
qed (simp add: styled_by_def)

lemma styled_by_control:
  "styled_by K m \<Longrightarrow> styled_by K m' \<Longrightarrow> styled_by K (if b then m else m')"
  "styled_by K (Inl e)"
  "style_ids layout \<subseteq> K \<Longrightarrow> styled_by K (Inr layout)"
  "(\<And>v. styled_by K (g v)) \<Longrightarrow> styled_by K (rbind n g)"
  "styled_by K m \<Longrightarrow> (\<And>v. opt = Some v \<Longrightarrow> styled_by K (g v)) \<Longrightarrow>
     styled_by K (case opt of None \<Rightarrow> m | Some v \<Rightarrow> g v)"
  "(\<And>a b. styled_by K (h a b)) \<Longrightarrow> styled_by K (case p of (a, b) \<Rightarrow> h a b)"
  "(\<And>v. style_ids (k v) \<subseteq> K) \<Longrightarrow> styled_by K (map_sum id k n')"
  by (auto simp: styled_by_def map_sum_Inr_iff split: option.splits prod.splits)

lemma styled_by_rbind:
  "styled_by K m \<Longrightarrow> (\<And>layout. style_ids layout \<subseteq> K \<Longrightarrow> styled_by K (f layout)) \<Longrightarrow> styled_by K (rbind m f)"
  by (cases m) (simp_all add: styled_by_def)

lemma styled_by_extent:
  "style_ids layout \<subseteq> K \<Longrightarrow> styled_by K (update_layout_extent row column limits resource message layout)"
  "style_ids layout \<subseteq> K \<Longrightarrow> styled_by K (update_biff8_extent row column limits message layout)"
  by (simp_all add: styled_by_def update_layout_extent_def update_biff8_extent_def style_ids_def Let_def)

lemmas styled_by_intros = styled_by_rbind styled_by_control styled_by_extent styled_by_insert

lemma style_at_in: "style_at styles raw = Some style \<Longrightarrow> {k. Some k \<in> set styles} \<subseteq> K \<Longrightarrow> style \<in> K"
  unfolding style_at_def by (metis mem_Collect_eq nth_mem option.distinct(1) subsetD)

lemma style_ids_fields [simp]:
  "style_ids (layout\<lparr>wp_rows := rows\<rparr>) = style_ids layout"
  "style_ids (layout\<lparr>wp_columns := columns\<rparr>) = style_ids layout"
  "style_ids (layout\<lparr>wp_frozen_rows := n\<rparr>) = style_ids layout"
  "style_ids (layout\<lparr>wp_frozen_columns := n\<rparr>) = style_ids layout"
  "style_ids (layout\<lparr>wp_merged_cells := regions\<rparr>) = style_ids layout"
  "style_ids empty_layout = {}"
  by (simp_all add: style_ids_def empty_layout_def)

lemma styled_xlsx_element:
  assumes "{k. Some k \<in> set styles} \<subseteq> K" and "style_ids layout \<subseteq> K"
  shows "styled_by K (apply_xlsx_element F styles limits name attributes layout)"
  unfolding apply_xlsx_element_def apply_xlsx_dimension_def apply_xlsx_row_def apply_xlsx_column_def
    apply_xlsx_merge_def apply_xlsx_cell_style_def Let_def
  by (intro styled_by_intros)
    (use assms in \<open>auto simp: apply_xlsx_pane_def Let_def intro: style_at_in split: option.splits\<close>)

lemma styled_xlsx_events:
  assumes "{k. Some k \<in> set styles} \<subseteq> K" and "style_ids layout \<subseteq> K"
  shows "styled_by K (xlsx_worksheet_events F styles limits events layout)"
  using assms(2)
proof (induction events arbitrary: layout)
  case (Cons event events)
  show ?case
  proof (cases "element_of event")
    case None
    then show ?thesis using Cons by (cases event) (auto intro: styled_by_intros)
  next
    case (Some element)
    obtain name attributes where "element = (name, attributes)" by force
    then have "xlsx_worksheet_events F styles limits (event # events) layout =
        rbind (xml_attributes attributes) (\<lambda>attributes.
          rbind (apply_xlsx_element F styles limits name attributes layout)
            (xlsx_worksheet_events F styles limits events))"
      using Some by simp
    then show ?thesis
      by (simp only:) (rule styled_by_control(4), rule styled_by_rbind,
        rule styled_xlsx_element [OF assms(1) Cons.prems], rule Cons.IH)
  qed
qed (simp add: styled_by_control)

lemma styled_biff8_cell:
  assumes "{k. Some k \<in> set styles} \<subseteq> K" and "style_ids layout \<subseteq> K"
  shows "styled_by K (apply_biff8_cell_style row column raw styles limits layout)"
  unfolding apply_biff8_cell_style_def
  by (intro styled_by_intros) (use assms in \<open>auto intro: style_at_in\<close>)

lemma styled_biff8_record:
  assumes "{k. Some k \<in> set styles} \<subseteq> K" and "style_ids (b8_layout sheet) \<subseteq> K"
    and "biff8_sheet_record F styles limits record_type data sheet = Inr sheet'"
  shows "style_ids (b8_layout sheet') \<subseteq> K"
proof -
  let ?layout = "b8_layout sheet"
  have extent: "styled_by K (update_biff8_extent row column limits message ?layout)" for row column message
    by (intro styled_by_intros assms(2))
  have cell: "styled_by K (biff8_cell data styles limits ?layout)"
    unfolding biff8_cell_def Let_def by (intro styled_by_intros styled_biff8_cell assms(1,2))
  have multi: "styled_by K (biff8_multi_cell record_type data styles limits ?layout)"
    unfolding biff8_multi_cell_def Let_def
    by (intro styled_by_intros styled_by_rfold styled_biff8_cell assms(1,2))
  have row: "styled_by K (biff8_row F data limits ?layout)"
    unfolding biff8_row_def Let_def by (intro styled_by_intros) (use assms(2) in simp)
  have columns: "styled_by K (biff8_columns F data limits ?layout)"
    unfolding biff8_columns_def Let_def by (intro styled_by_intros) (use assms(2) in simp)
  have merges: "styled_by K (biff8_merges data limits ?layout)"
    unfolding biff8_merges_def biff8_merge_at_def Let_def
    by (intro styled_by_rfold styled_by_intros) (use assms(2) in simp_all)
  note kept = extent [unfolded styled_by_def, rule_format] cell [unfolded styled_by_def, rule_format]
    multi [unfolded styled_by_def, rule_format] row [unfolded styled_by_def, rule_format]
    columns [unfolded styled_by_def, rule_format] merges [unfolded styled_by_def, rule_format]
  show ?thesis
    using assms(2,3) unfolding biff8_sheet_record_def Let_def
    by (simp add: map_sum_Inr_iff split: if_splits) ((elim exE conjE, simp, rule kept, assumption) | force)+
qed

lemma styled_biff8_records:
  "biff8_sheet_records F styles limits workbook position sheet = Inr sheet' \<Longrightarrow>
    {k. Some k \<in> set styles} \<subseteq> K \<Longrightarrow> style_ids (b8_layout sheet) \<subseteq> K \<Longrightarrow> style_ids (b8_layout sheet') \<subseteq> K"
proof (induction F styles limits workbook position sheet rule: biff8_sheet_records.induct)
  case (1 F styles limits workbook position sheet)
  note run = 1(2) [unfolded biff8_sheet_records.simps [of F styles limits workbook position sheet]]
  consider "sheet' = sheet" | record_type data after mid where
      "next_biff_record workbook position = Inr (Some (record_type, data, after))" "record_type \<noteq> 0xA"
      "biff8_sheet_record F styles limits record_type data sheet = Inr mid"
      "biff8_sheet_records F styles limits workbook after mid = Inr sheet'"
    using run by (auto split: sum.splits option.splits if_splits)
  then show ?case
  proof cases
    case 1
    then show ?thesis using "1.prems"(3) by simp
  next
    case 2
    show ?thesis
      by (rule "1.IH" [OF 2(1) refl refl refl 2(2,3,4) "1.prems"(2) styled_biff8_record [OF "1.prems"(2,3) 2(3)]])
  qed
qed

lemma styled_biff8_worksheet:
  assumes "parse_biff8_worksheet F workbook offset styles limits = Inr layout" and "{k. Some k \<in> set styles} \<subseteq> K"
  shows "style_ids layout \<subseteq> K"
proof -
  obtain sheet where "biff8_sheet_records F styles limits workbook offset
      \<lparr>b8_layout = empty_layout, b8_pane = None, b8_frozen = False\<rparr> = Inr sheet" "layout = finish_biff8_sheet sheet"
    using assms(1) by (auto simp: parse_biff8_worksheet_def map_sum_Inr_iff split: if_splits)
  moreover from this(1) assms(2) have "style_ids (b8_layout sheet) \<subseteq> K" by (rule styled_biff8_records) simp
  moreover have "style_ids (finish_biff8_sheet sheet) = style_ids (b8_layout sheet)"
    by (simp add: finish_biff8_sheet_def split: option.split)
  ultimately show ?thesis by simp
qed

text \<open>A presentation whose layouts are sound and only use styles of the table.\<close>

definition sheets_sound :: "excel_limits \<Rightarrow> nat set \<Rightarrow> 'f workbook_presentation \<Rightarrow> bool" where
  "sheets_sound limits K p \<longleftrightarrow> distinct (map fst (wbp_sheets p)) \<and>
     (\<forall>layout \<in> snd ` set (wbp_sheets p). layout_ok limits layout \<and> style_ids layout \<subseteq> K)"

lemma sheets_sound_empty: "sheets_sound limits K empty_presentation"
  by (simp add: sheets_sound_def empty_presentation_def)

lemma sheets_sound_insert:
  assumes "sheets_sound limits K p" and "layout_ok limits layout" and "style_ids layout \<subseteq> K"
  shows "sheets_sound limits K (insert_sheet name layout p)"
proof -
  let ?sheets = "AList.update name layout (wbp_sheets p)"
  have old: "layout_ok limits other \<and> style_ids other \<subseteq> K" if "(n, other) \<in> set (wbp_sheets p)" for n other
    using that assms(1) by (force simp: sheets_sound_def)
  have "layout_ok limits layout' \<and> style_ids layout' \<subseteq> K" if new: "layout' \<in> snd ` set ?sheets" for layout'
  proof -
    obtain n where "(n, layout') \<in> set ?sheets" using new by force
    then show ?thesis using update_entry old assms(2,3) by metis
  qed
  moreover have "distinct (map fst ?sheets)" using assms(1) by (simp add: sheets_sound_def distinct_update)
  ultimately show ?thesis by (simp add: sheets_sound_def insert_sheet_def)
qed

lemma sheets_sound_rfold:
  assumes "rfold f p sheets = Inr p'" and "sheets_sound limits K p"
    and "\<And>p sheet p'. f p sheet = Inr p' \<Longrightarrow> sheets_sound limits K p \<Longrightarrow> sheets_sound limits K p'"
  shows "sheets_sound limits K p'"
  using assms(1,2) by (induction sheets arbitrary: p) (auto dest: assms(3))

lemma table_of_ids:
  assumes "table_of rendered table"
  shows "{k. Some k \<in> set (st_raw_to_deduplicated table)} \<subseteq> {..<length (st_styles table)}"
proof -
  have "resolves (st_styles table) (rendered ! i) (st_raw_to_deduplicated table ! i)"
    if "i < length (st_raw_to_deduplicated table)" for i
    using table_of_nth [OF assms] table_of_length [OF assms] that by simp
  then show ?thesis by (force simp: in_set_conv_nth resolves_def)
qed

lemma xlsx_sheet_sound:
  assumes "xlsx_sheet X F archive limits relationships styles p sheet = Inr p'" and "sheets_sound limits K p"
    and "{k. Some k \<in> set styles} \<subseteq> K"
  shows "sheets_sound limits K p'"
proof -
  consider "p' = p" | xml layout where "parse_xlsx_worksheet X F xml styles limits = Inr layout"
      "p' = insert_sheet (wsr_name sheet) layout p"
    using assms(1) by (auto simp: xlsx_sheet_def split: option.splits if_splits)
  then show ?thesis
  proof cases
    case 2
    have "layout_ok limits layout"
      by (rule xlsx_events_ok [OF 2(1) [unfolded parse_xlsx_worksheet_def] empty_layout_ok])
    moreover have "style_ids layout \<subseteq> K"
      using styled_xlsx_events [OF assms(3), of empty_layout F limits "xml_events X xml"] 2(1)
      by (simp add: styled_by_def parse_xlsx_worksheet_def)
    ultimately show ?thesis unfolding 2(2) by (rule sheets_sound_insert [OF assms(2)])
  qed (use assms(2) in simp)
qed

lemma biff8_limits_weaken: "layout_ok (biff8_limits limits) layout \<Longrightarrow> layout_ok limits layout"
  by (auto simp: layout_ok_def extent_ok_def styles_ok_def merges_ok_def axis_ok_def biff8_limits_def)

lemma biff8_sheet_sound:
  assumes "biff8_sheet_into F workbook styles limits p sheet = Inr p'" and "sheets_sound limits K p"
    and "{k. Some k \<in> set styles} \<subseteq> K"
  shows "sheets_sound limits K p'"
proof -
  obtain layout where "parse_biff8_worksheet F workbook (bs_offset sheet) styles limits = Inr layout"
      "p' = insert_sheet (bs_name sheet) layout p"
    using assms(1) by (auto simp: biff8_sheet_into_def)
  then show ?thesis
    using sheets_sound_insert [OF assms(2) biff8_limits_weaken [OF parse_biff8_worksheet_ok] styled_biff8_worksheet [OF _ assms(3)]]
    by simp
qed

text \<open>A style table whose entries are sound, and the parsers that return one.\<close>

definition table_sound :: "excel_limits \<Rightarrow> 'f style_table \<Rightarrow> bool" where
  "table_sound limits table \<longleftrightarrow>
     {k. Some k \<in> set (st_raw_to_deduplicated table)} \<subseteq> {..<length (st_styles table)} \<and>
     distinct (st_styles table) \<and> length (st_styles table) \<le> max_styles limits"

lemma deduplicated_sound:
  assumes "inj key" and "deduplicate_styles key limits m1 m2 rendered = Inr table"
  shows "table_sound limits table"
  using deduplicate_styles_exact [OF assms] table_of_ids by (auto simp: table_sound_def table_of_def)

lemma biff8_styles_sound:
  "inj key \<Longrightarrow> parse_biff8_styles key F workbook limits = Inr table \<Longrightarrow> table_sound limits table"
  by (auto simp: parse_biff8_styles_def intro: deduplicated_sound)

lemma xlsx_style_part_sound:
  assumes "inj key" and "xlsx_style_part key X F archive limits = Inr table"
  shows "table_sound limits table"
proof -
  have "table_sound limits empty_style_table" by (simp add: table_sound_def empty_style_table_def)
  then show ?thesis
    using assms deduplicated_sound
    by (fastforce simp: xlsx_style_part_def parse_xlsx_styles_def xlsx_styles_finish_def split: option.splits)
qed

lemma parse_presentation_sound:
  assumes "inj key" and "parse_presentation key E X F format bytes limits = Inr p"
  shows "sheets_sound limits {..<length (wbp_styles p)} p \<and> distinct (wbp_styles p) \<and>
    length (wbp_styles p) \<le> max_styles limits"
proof -
  have with_styles: "sheets_sound limits K (q\<lparr>wbp_styles := styles\<rparr>) = sheets_sound limits K q" for K q styles
    by (simp add: sheets_sound_def)
  show ?thesis
  proof (cases format)
    case Xlsx
    then obtain archive sheets relationships table q where "xlsx_style_part key X F archive limits = Inr table"
      and q: "rfold (xlsx_sheet X F archive limits relationships (st_raw_to_deduplicated table)) empty_presentation sheets = Inr q"
      and p: "p = q\<lparr>wbp_styles := st_styles table\<rparr>"
      using assms(2) by (auto simp: parse_xlsx_def)
    then have table: "table_sound limits table" using xlsx_style_part_sound [OF assms(1)] by blast
    have "sheets_sound limits {..<length (st_styles table)} q"
      by (rule sheets_sound_rfold [OF q sheets_sound_empty], rule xlsx_sheet_sound, assumption, assumption)
        (use table in \<open>simp add: table_sound_def\<close>)
    then show ?thesis using table by (simp add: p with_styles table_sound_def)
  next
    case Xls
    then obtain workbook table sheets q where "parse_biff8_styles key F workbook limits = Inr table"
      and q: "rfold (biff8_sheet_into F workbook (st_raw_to_deduplicated table) limits) empty_presentation sheets = Inr q"
      and p: "p = q\<lparr>wbp_styles := st_styles table\<rparr>"
      using assms(2) by (auto simp: parse_biff8_def)
    then have table: "table_sound limits table" using biff8_styles_sound [OF assms(1)] by blast
    have "sheets_sound limits {..<length (st_styles table)} q"
      by (rule sheets_sound_rfold [OF q sheets_sound_empty], rule biff8_sheet_sound, assumption, assumption)
        (use table in \<open>simp add: table_sound_def\<close>)
    then show ?thesis using table by (simp add: p with_styles table_sound_def)
  qed
qed

lemma range_style_ids:
  assumes "presentation_range p descriptor q = Inr answer" and "range_valid q" and "i < row_count q" and "j < column_count q"
    and keys: "\<And>layout. sheet_layout p descriptor = Some layout \<Longrightarrow> distinct (map fst (wp_styles layout))"
  shows "tr_style_ids answer ! i ! j = Option.bind (sheet_layout p descriptor)
    (\<lambda>layout. map_of (wp_styles layout) (row_start q + i, column_start q + j))"
proof -
  let ?blank = "replicate (row_count q) (replicate (column_count q) None) :: nat option list list"
  have valid: "validate_public q = Inr ()" using assms(2) validate_public_ok [of q "()"] by (rule iffD2 [rotated])
  show ?thesis
  proof (cases "sheet_layout p descriptor")
    case None
    then show ?thesis using assms(1-4) valid
      by (auto simp: presentation_range_def range_valid_ends Let_def simp del: validate_public_ok)
  next
    case (Some layout)
    then have "tr_style_ids answer = fold (\<lambda>e grid. place_style q (row_start q + row_count q, column_start q + column_count q) grid e)
        (wp_styles layout) ?blank"
      using assms(1,2) valid by (auto simp: presentation_range_def range_valid_ends Let_def simp del: validate_public_ok)
    moreover have "length ?blank = row_count q" "\<forall>line \<in> set ?blank. length line = column_count q" by simp_all
    note place_styles_at [OF this assms(3,4) keys [OF Some]]
    ultimately show ?thesis using assms(3,4) Some
      by (cases "map_of (wp_styles layout) (row_start q + i, column_start q + j)") simp_all
  qed
qed

text \<open>
  C28: A parsed workbook presentation is consistent. Whatever the container, the archive and the
  XML readers answer, every sheet of a presentation the parser returns has its name once and
  a layout within the configured limits; every style identifier of a cell in it leads to a
  style of the table, and the table has no duplicates and respects the style limit. So a
  client can follow each identifier of a presentation range without a further check.
\<close>

theorem presentation_styles_resolve:
  assumes "inj key" and "parse_presentation key E X F format bytes limits = Inr p"
  shows "distinct (map fst (wbp_sheets p)) \<and>
    (\<forall>layout \<in> snd ` set (wbp_sheets p). layout_ok limits layout \<and>
       (\<forall>(cell, style) \<in> set (wp_styles layout). style < length (wbp_styles p))) \<and>
    distinct (wbp_styles p) \<and> length (wbp_styles p) \<le> max_styles limits \<and>
    (\<forall>descriptor q answer i j style. presentation_range p descriptor q = Inr answer \<longrightarrow> range_valid q \<longrightarrow>
       i < row_count q \<longrightarrow> j < column_count q \<longrightarrow> tr_style_ids answer ! i ! j = Some style \<longrightarrow>
       style < length (tp_styles (presentation_table p descriptor)))"
proof -
  note sound = parse_presentation_sound [OF assms]
  have layouts: "layout_ok limits layout \<and> (\<forall>(cell, style) \<in> set (wp_styles layout). style < length (wbp_styles p))"
    if "layout \<in> snd ` set (wbp_sheets p)" for layout
    using sound that by (force simp: sheets_sound_def style_ids_def)
  have member: "layout \<in> snd ` set (wbp_sheets p)" if "sheet_layout p descriptor = Some layout" for descriptor layout
    using map_of_SomeD [OF that [unfolded sheet_layout_def]] by force
  have "style < length (wbp_styles p)"
    if "presentation_range p descriptor q = Inr answer" "range_valid q" "i < row_count q" "j < column_count q"
      "tr_style_ids answer ! i ! j = Some style" for descriptor q answer i j style
  proof -
    have "distinct (map fst (wp_styles layout))" if "sheet_layout p descriptor = Some layout" for layout
      using layouts [OF member [OF that]] by (simp add: layout_ok_def styles_ok_def)
    from range_style_ids [OF that(1-4) this] that(5)
    have "Option.bind (sheet_layout p descriptor)
        (\<lambda>layout. map_of (wp_styles layout) (row_start q + i, column_start q + j)) = Some style" by metis
    then obtain layout where "sheet_layout p descriptor = Some layout" "map_of (wp_styles layout) (row_start q + i, column_start q + j) = Some style"
      unfolding bind_eq_Some_conv by blast
    then show ?thesis using layouts [OF member] map_of_SomeD by fastforce
  qed
  then show ?thesis using sound layouts by (simp add: sheets_sound_def presentation_table_def Let_def)
qed

text \<open>A workbook with one sheet whose only cell uses the workbook's only style.\<close>

definition styled_workbook :: "byte list" where
  "styled_workbook = [0x09, 0x08, 4, 0, 0, 6, 5, 0] @ [0xE0, 0, 20, 0] @ centered_xf @ [0x85, 0, 9, 0, 49, 0, 0, 0, 0, 0, 1, 0, 83] @
     [0x0A, 0, 0, 0] @ [0x09, 0x08, 4, 0, 0, 6, 0x10, 0] @
     [0x01, 0x02, 6, 0, 0, 0, 0, 0, 0, 0] @ [0x0A, 0, 0, 0]"

lemma styled_records:
  "next_biff_record styled_workbook 0 = Inr (Some (0x0809, [0, 6, 5, 0], 8))"
  "next_biff_record styled_workbook 8 = Inr (Some (0xE0, centered_xf, 32))"
  "next_biff_record styled_workbook 32 = Inr (Some (0x85, [49, 0, 0, 0, 0, 0, 1, 0, 83], 45))"
  "next_biff_record styled_workbook 45 = Inr (Some (0x0A, [], 49))"
  "next_biff_record styled_workbook 49 = Inr (Some (0x0809, [0, 6, 0x10, 0], 57))"
  "next_biff_record styled_workbook 57 = Inr (Some (0x0201, [0, 0, 0, 0, 0, 0], 67))"
  "next_biff_record styled_workbook 67 = Inr (Some (0x0A, [], 71))"
  by (simp_all add: next_biff_record_def styled_workbook_def centered_xf_def u16_at_def bytes_at_def or_zero_def Let_def
    u64_max_def)

definition styled_compound :: compound_file where
  "styled_compound = \<lparr>cf_walk = [\<lparr>ce_is_stream = True, ce_name = ''Workbook'', ce_path = ''/Workbook'', ce_len = length styled_workbook\<rparr>],
     cf_open_stream = (\<lambda>_. Inr \<lparr>stream_exact = (\<lambda>n. Inr (take n styled_workbook)),
       stream_rest = (\<lambda>n. Inr (drop n styled_workbook))\<rparr>)\<rparr>"

definition styled_containers :: container_env where
  "styled_containers = \<lparr>zip_archive_new = (\<lambda>_. Inl ''not a package''), compound_file_open = (\<lambda>_. Inr styled_compound)\<rparr>"

definition styled_layout :: "unit worksheet_presentation" where
  "styled_layout = empty_layout\<lparr>wp_extent_rows := 1, wp_extent_columns := 1, wp_styles := [((0, 0), 0)]\<rparr>"

lemma styled_globals:
  "biff8_globals_from unit_floats excel_limits_default styled_workbook 0 empty_globals = Inr centered_globals"
  by (simp add: biff8_globals_from.simps [of _ _ _ 0] biff8_globals_from.simps [of _ _ _ 8]
    biff8_globals_from.simps [of _ _ _ 32] biff8_globals_from.simps [of _ _ _ 45] styled_records biff8_global_record_def
    centered_parsed centered_globals_def)
    (simp add: empty_globals_def excel_limits_default_def)

lemma styled_sheets: "parse_biff8_bound_sheets styled_workbook = Inr [\<lparr>bs_name = ''S'', bs_offset = 49\<rparr>]"
  by (simp add: parse_biff8_bound_sheets_def biff8_bound_sheets_from.simps [of _ 0] biff8_bound_sheets_from.simps [of _ 8]
    biff8_bound_sheets_from.simps [of _ 32] biff8_bound_sheets_from.simps [of _ 45] styled_records bound_sheet_of_def
    decode_biff8_short_string_def
    decode_biff8_chars_def encode_utf8_def u32_at_def bytes_at_def or_zero_def char_of_def bit_0)

lemma styled_sheet:
  "parse_biff8_worksheet unit_floats styled_workbook 49 [Some 0] excel_limits_default = Inr styled_layout"
proof -
  have "length styled_workbook = 71" by (simp add: styled_workbook_def centered_xf_def)
  moreover have "biff8_cell [0, 0, 0, 0, 0, 0] [Some 0] excel_limits_default empty_layout = Inr styled_layout"
    by (simp add: biff8_cell_def u16_at_def bytes_at_def or_zero_def update_biff8_extent_def update_layout_extent_def
      apply_biff8_cell_style_def style_at_def insert_cell_style_def styled_layout_def empty_layout_def
      excel_limits_default_def biff8_max_rows_def biff8_max_columns_def u64_max_def Let_def saturating_add_def)
  ultimately show ?thesis
    by (simp add: parse_biff8_worksheet_def biff8_sheet_records.simps [of _ _ _ _ 49] biff8_sheet_records.simps [of _ _ _ _ 57]
      biff8_sheet_records.simps [of _ _ _ _ 67]
      styled_records biff8_sheet_record_def biff8_cell_record_def biff8_multi_cell_record_def
      finish_biff8_sheet_def)
qed

theorem presentation_styles_resolve_witness:
  "\<exists>p. parse_presentation id styled_containers merged_xml unit_floats Xls [] excel_limits_default = Inr p \<and>
    wbp_sheets p = [(''S'', styled_layout)] \<and> wp_styles styled_layout = [((0, 0), 0)] \<and> 0 < length (wbp_styles p)"
proof -
  have room: "0 < max_styles excel_limits_default" by (simp add: excel_limits_default_def)
  have count: "length (bg_xfs centered_globals) = 1" by (simp add: centered_globals_def)
  obtain table where table: "parse_biff8_styles id unit_floats styled_workbook excel_limits_default = Inr table"
      and raw: "st_raw_to_deduplicated table = [Some 0]"
    using centered_style(1) room
    by (simp add: parse_biff8_styles_def styled_globals count deduplicate_styles_def deduplicate_style_def
      empty_style_table_def Let_def not_le)
  have "workbook_stream styled_containers [] = Inr styled_workbook"
    by (simp add: workbook_stream_def styled_containers_def styled_compound_def is_workbook_stream_def with_reason_def
      eq_ignore_ascii_case_def)
  then obtain p where p: "parse_presentation id styled_containers merged_xml unit_floats Xls [] excel_limits_default = Inr p"
      and sheets: "wbp_sheets p = [(''S'', styled_layout)]"
    by (simp add: parse_biff8_def table raw styled_sheets styled_sheet biff8_sheet_into_def insert_sheet_def empty_presentation_def)
  from presentation_styles_resolve [OF inj_on_id p] have "0 < length (wbp_styles p)"
    by (simp add: sheets styled_layout_def)
  then show ?thesis using p sheets by (simp add: styled_layout_def)
qed

end
