(* ===== verification/Excel_Preflight.thy ===== *)
theory Excel_Preflight
  imports Workbook_Layout
begin

unbundle bit_operations_syntax

text \<open>
  crates/tabulark-excel-wasm/src/lib.rs: what is known of a workbook before it is parsed. The
  container is inspected with the archive readers of \<open>Workbook_Layout\<close>, the BIFF8 records and
  the shared strings are counted, and the memory that parsing needs is reserved against the
  budget. A worksheet that was counted needs no more than what was reserved for it.
\<close>

section \<open>Counting BIFF8 records\<close>

text \<open>The message and the two numbers of a count that passes its limit.\<close>

definition count_error :: "string \<Rightarrow> string \<Rightarrow> nat \<Rightarrow> nat \<Rightarrow> tabulark_error" where
  "count_error message resource required available =
     with_detail (with_detail (with_detail (new_error ResourceLimit message)
       ''resource'' (DetailString resource)) ''required'' (DetailNumber required))
       ''available'' (DetailNumber available)"

definition count_up :: "string \<Rightarrow> nat \<Rightarrow> nat \<Rightarrow> nat result" where
  "count_up message count more_of = ok_or (checked_add count more_of) (new_error ResourceLimit message)"

record biff8_presentation_counts =
  bc_global_style_records :: nat
  bc_fonts :: nat
  bc_number_formats :: nat
  bc_xfs :: nat
  bc_styled_cells :: nat
  bc_layout_entries :: nat
  bc_merged_cells :: nat

text \<open>The local variables of the loop of \<open>biff8_presentation_reservation\<close>.\<close>

record biff8_preflight =
  bp_counts :: biff8_presentation_counts
  bp_in_globals :: bool
  bp_in_worksheet :: bool
  bp_styled_cells :: nat
  bp_rows :: nat
  bp_columns :: nat
  bp_merged_cells :: nat

definition biff8_preflight_start :: biff8_preflight where
  "biff8_preflight_start =
     \<lparr>bp_counts = \<lparr>bc_global_style_records = 0, bc_fonts = 0, bc_number_formats = 0, bc_xfs = 0,
        bc_styled_cells = 0, bc_layout_entries = 0, bc_merged_cells = 0\<rparr>,
      bp_in_globals = True, bp_in_worksheet = False, bp_styled_cells = 0, bp_rows = 0, bp_columns = 0,
      bp_merged_cells = 0\<rparr>"

definition biff8_styled_cells_in_record :: "nat \<Rightarrow> byte list \<Rightarrow> nat result" where
  "biff8_styled_cells_in_record record_type data =
     (if biff8_cell_record record_type \<and> length data \<ge> 6 then Inr 1
      else if \<not> biff8_multi_cell_record record_type \<or> length data < 6 then Inr 0
      else
        let first = or_zero (u16_at data 2);
            final = or_zero (u16_at data (saturating_sub (length data) 2))
        in
        if final < first
        then Inl (new_error ParseFailed ''BIFF8 multi-cell record has an inverted column range'')
        else
          let declared = final - first + 1;
              item_width = (if record_type = 0x00BD then 6 else 2);
              available = (length data - 6) div item_width
          in
          if declared > available
          then Inl (new_error ParseFailed ''BIFF8 multi-cell record contains fewer styles than declared'')
          else Inr declared)"

definition next_biff8_preflight_record :: "byte list \<Rightarrow> nat \<Rightarrow> (nat \<times> byte list \<times> nat) option result" where
  "next_biff8_preflight_record data position =
     (if position = length data then Inr None
      else
        rbind (ok_or (checked_add position 4)
          (new_error ParseFailed ''BIFF8 preflight record header offset overflows'')) (\<lambda>header_end.
        if header_end > length data
        then Inl (new_error ParseFailed ''BIFF8 Workbook stream ends in a truncated record header'')
        else
          let record_type = or_zero (u16_at data position);
              size = or_zero (u16_at data (position + 2))
          in
          rbind (ok_or (checked_add header_end size)
            (new_error ParseFailed ''BIFF8 record length overflows'')) (\<lambda>record_end.
          if record_end > length data
          then Inl (new_error ParseFailed ''BIFF8 Workbook stream ends in a truncated record'')
          else Inr (Some (record_type, take size (drop header_end data), record_end)))))"

definition count_global_style ::
    "string \<Rightarrow> excel_limits \<Rightarrow> nat \<Rightarrow> nat result" where
  "count_global_style resource limits count =
     rbind (count_up ''BIFF8 style collection count overflows'' count 1) (\<lambda>count.
     if count > max_styles limits
     then Inl (count_error ''BIFF8 workbook exceeds a configured style collection limit'' resource count (max_styles limits))
     else Inr count)"

definition preflight_global ::
    "nat \<Rightarrow> excel_limits \<Rightarrow> biff8_presentation_counts \<Rightarrow> biff8_presentation_counts result" where
  "preflight_global record_type limits c =
     (let counted = (\<lambda>c. map_sum id (\<lambda>n. c\<lparr>bc_global_style_records := n\<rparr>)
            (count_up ''BIFF8 style record count overflows'' (bc_global_style_records c) 1))
      in
      if record_type = 0x0031
      then rbind (count_global_style ''fonts'' limits (bc_fonts c)) (\<lambda>n. counted (c\<lparr>bc_fonts := n\<rparr>))
      else if record_type = 0x041E
      then rbind (count_global_style ''number-formats'' limits (bc_number_formats c)) (\<lambda>n.
             counted (c\<lparr>bc_number_formats := n\<rparr>))
      else if record_type = 0x00E0
      then rbind (count_global_style ''styles'' limits (bc_xfs c)) (\<lambda>n. counted (c\<lparr>bc_xfs := n\<rparr>))
      else Inr c)"

text \<open>A count of the worksheet with its limit, then the aggregate beside it.\<close>

definition count_sheet ::
    "string \<Rightarrow> string \<Rightarrow> string \<Rightarrow> string \<Rightarrow> nat \<Rightarrow> nat \<Rightarrow> nat \<Rightarrow> nat \<Rightarrow> (nat \<times> nat) result" where
  "count_sheet overflow exceeded resource total_overflow limit by_count sheet_count total_count =
     rbind (count_up overflow sheet_count by_count) (\<lambda>sheet_count.
     if sheet_count > limit then Inl (count_error exceeded resource sheet_count limit)
     else
       rbind (count_up total_overflow total_count by_count) (\<lambda>total_count.
       Inr (sheet_count, total_count)))"

definition preflight_styled ::
    "nat \<Rightarrow> byte list \<Rightarrow> excel_limits \<Rightarrow> biff8_preflight \<Rightarrow> biff8_preflight result" where
  "preflight_styled record_type data limits st =
     rbind (biff8_styled_cells_in_record record_type data) (\<lambda>styled.
     rbind (count_sheet ''BIFF8 styled-cell count overflows''
       ''BIFF8 worksheet exceeds the configured styled-cell limit'' ''styled-cells''
       ''BIFF8 aggregate styled-cell count overflows'' (max_styled_cells limits) styled
       (bp_styled_cells st) (bc_styled_cells (bp_counts st))) (\<lambda>(sheet_count, total_count).
     Inr (st\<lparr>bp_styled_cells := sheet_count,
             bp_counts := (bp_counts st)\<lparr>bc_styled_cells := total_count\<rparr>\<rparr>)))"

definition preflight_row :: "excel_limits \<Rightarrow> biff8_preflight \<Rightarrow> biff8_preflight result" where
  "preflight_row limits st =
     rbind (count_sheet ''BIFF8 row layout count overflows''
       ''BIFF8 worksheet exceeds the configured row-layout limit'' ''row-layout-entries''
       ''BIFF8 aggregate layout count overflows'' (max_layout_entries limits) 1
       (bp_rows st) (bc_layout_entries (bp_counts st))) (\<lambda>(sheet_count, total_count).
     Inr (st\<lparr>bp_rows := sheet_count, bp_counts := (bp_counts st)\<lparr>bc_layout_entries := total_count\<rparr>\<rparr>))"

definition preflight_columns :: "byte list \<Rightarrow> excel_limits \<Rightarrow> biff8_preflight \<Rightarrow> biff8_preflight result" where
  "preflight_columns data limits st =
     (let first = or_zero (u16_at data 0); final = or_zero (u16_at data 2) in
      if final < first then Inl (new_error ParseFailed ''BIFF8 column layout has an inverted range'')
      else
        rbind (count_sheet ''BIFF8 column layout count overflows''
          ''BIFF8 worksheet exceeds the configured column-layout limit'' ''column-layout-entries''
          ''BIFF8 aggregate layout count overflows'' (max_layout_entries limits) (final - first + 1)
          (bp_columns st) (bc_layout_entries (bp_counts st))) (\<lambda>(sheet_count, total_count).
        Inr (st\<lparr>bp_columns := sheet_count, bp_counts := (bp_counts st)\<lparr>bc_layout_entries := total_count\<rparr>\<rparr>)))"

definition preflight_merges :: "byte list \<Rightarrow> excel_limits \<Rightarrow> biff8_preflight \<Rightarrow> biff8_preflight result" where
  "preflight_merges data limits st =
     (let declared = or_zero (u16_at data 0); available = (length data - 2) div 8 in
      if declared > available
      then Inl (new_error ParseFailed ''BIFF8 merged-cell record contains fewer regions than declared'')
      else
        rbind (count_sheet ''BIFF8 merged-cell count overflows''
          ''BIFF8 worksheet exceeds the configured merged-cell limit'' ''merged-cells''
          ''BIFF8 aggregate merged-cell count overflows'' (max_merged_cells limits) declared
          (bp_merged_cells st) (bc_merged_cells (bp_counts st))) (\<lambda>(sheet_count, total_count).
        Inr (st\<lparr>bp_merged_cells := sheet_count, bp_counts := (bp_counts st)\<lparr>bc_merged_cells := total_count\<rparr>\<rparr>)))"

definition preflight_sheet_record ::
    "nat \<Rightarrow> byte list \<Rightarrow> excel_limits \<Rightarrow> biff8_preflight \<Rightarrow> biff8_preflight result" where
  "preflight_sheet_record record_type data limits st =
     rbind (preflight_styled record_type data limits st) (\<lambda>st.
     if record_type = 0x0208 \<and> length data \<ge> 16 then preflight_row limits st
     else if record_type = 0x007D \<and> length data \<ge> 10 then preflight_columns data limits st
     else if record_type = 0x00E5 \<and> length data \<ge> 2 then preflight_merges data limits st
     else Inr st)"

definition preflight_record ::
    "nat \<Rightarrow> byte list \<Rightarrow> excel_limits \<Rightarrow> biff8_preflight \<Rightarrow> biff8_preflight result" where
  "preflight_record record_type data limits st =
     (if record_type = 0x0809 \<and> \<not> bp_in_globals st
      then Inr (st\<lparr>bp_in_worksheet := (u16_at data 2 = Some 0x0010), bp_styled_cells := 0, bp_rows := 0,
                  bp_columns := 0, bp_merged_cells := 0\<rparr>)
      else if record_type = 0x000A
      then Inr (if bp_in_globals st then st\<lparr>bp_in_globals := False\<rparr> else st\<lparr>bp_in_worksheet := False\<rparr>)
      else if bp_in_globals st
      then map_sum id (\<lambda>c. st\<lparr>bp_counts := c\<rparr>) (preflight_global record_type limits (bp_counts st))
      else if \<not> bp_in_worksheet st then Inr st
      else preflight_sheet_record record_type data limits st)"

lemma next_biff8_preflight_record_advances:
  "next_biff8_preflight_record data position = Inr (Some (record_type, payload, after)) \<Longrightarrow>
     position < after \<and> after \<le> length data"
  by (auto simp: next_biff8_preflight_record_def Let_def split: if_splits)

function preflight_records :: "excel_limits \<Rightarrow> byte list \<Rightarrow> nat \<Rightarrow> biff8_preflight \<Rightarrow> biff8_preflight result" where
  "preflight_records limits workbook position st =
     (case next_biff8_preflight_record workbook position of
        Inl e \<Rightarrow> Inl e
      | Inr None \<Rightarrow> Inr st
      | Inr (Some (record_type, data, after)) \<Rightarrow>
          (case preflight_record record_type data limits st of
             Inl e \<Rightarrow> Inl e
           | Inr st \<Rightarrow> preflight_records limits workbook after st))"
  by pat_completeness auto
termination
  by (relation "measure (\<lambda>(limits, workbook, position, st). length workbook - position)")
    (auto dest!: next_biff8_preflight_record_advances)

declare preflight_records.simps [simp del]

definition counted_bytes :: "biff8_presentation_counts \<Rightarrow> nat option" where
  "counted_bytes c =
     Option.bind (checked_mul (bc_global_style_records c) 512) (\<lambda>v.
     Option.bind (Option.bind (checked_mul (bc_styled_cells c) 96) (\<lambda>bytes. checked_add v bytes)) (\<lambda>v.
     Option.bind (Option.bind (checked_mul (bc_layout_entries c) 96) (\<lambda>bytes. checked_add v bytes)) (\<lambda>v.
     Option.bind (checked_mul (bc_merged_cells c) 64) (\<lambda>bytes. checked_add v bytes))))"

definition biff8_presentation_reservation :: "byte list \<Rightarrow> excel_limits \<Rightarrow> nat result" where
  "biff8_presentation_reservation workbook limits =
     rbind (preflight_records limits workbook 0 biff8_preflight_start) (\<lambda>st.
     ok_or (counted_bytes (bp_counts st))
       (new_error ResourceLimit ''BIFF8 presentation memory reservation overflows''))"

section \<open>Compound files\<close>

text \<open>The local variables of the walk over the entries.\<close>

record cfb_walk =
  cw_entry_count :: nat
  cw_stream_bytes :: nat
  cw_workbook_path :: "string option"
  cw_encrypted :: bool

definition walk_cfb_entry :: "excel_limits \<Rightarrow> cfb_walk \<Rightarrow> compound_entry \<Rightarrow> cfb_walk result" where
  "walk_cfb_entry limits w entry =
     rbind (count_up ''Excel CFB entry count overflows'' (cw_entry_count w) 1) (\<lambda>entry_count.
     if entry_count > max_cfb_entries limits
     then Inl (count_error ''Excel compound file exceeds the configured entry limit''
            ''cfb-entries'' entry_count (max_cfb_entries limits))
     else if \<not> ce_is_stream entry then Inr (w\<lparr>cw_entry_count := entry_count\<rparr>)
     else
       rbind (count_up ''Excel compound stream size total overflows'' (cw_stream_bytes w) (ce_len entry)) (\<lambda>stream_bytes.
       if stream_bytes > max_cfb_stream_bytes limits
       then Inl (excel_resource_limit ''cfb-stream-bytes'' stream_bytes (max_cfb_stream_bytes limits)
              ''Excel compound file exceeds the configured stream-byte limit'')
       else
         let name = ce_name entry in
         Inr (w\<lparr>cw_entry_count := entry_count, cw_stream_bytes := stream_bytes,
                cw_encrypted := (cw_encrypted w \<or> eq_ignore_ascii_case name ''EncryptionInfo'' \<or>
                   eq_ignore_ascii_case name ''EncryptedPackage''),
                cw_workbook_path :=
                  (if cw_workbook_path w = None \<and>
                      (eq_ignore_ascii_case name ''Workbook'' \<or> eq_ignore_ascii_case name ''Book'')
                   then Some (ce_path entry) else cw_workbook_path w)\<rparr>)))"

text \<open>\<open>{:04X}\<close> of a 16-bit number.\<close>

definition hex_u16 :: "nat \<Rightarrow> string" where
  "hex_u16 n = map (\<lambda>place. hex_digit (n div 16 ^ place mod 16)) [3, 2, 1, 0]"

definition check_bof :: "byte list \<Rightarrow> unit result" where
  "check_bof bof =
     (let record_type = or_zero (u16_at bof 0); record_length = or_zero (u16_at bof 2);
          biff_version = or_zero (u16_at bof 4)
      in
      if record_type \<noteq> 0x0809 \<or> record_length < 4
      then Inl (new_error ParseFailed ''Excel Workbook stream does not begin with a valid BOF record'')
      else if biff_version \<noteq> 0x0600
      then Inl (with_detail (new_error UnsupportedFeature ''only Excel 97-2003 BIFF8 XLS workbooks are supported'')
             ''biffVersion'' (DetailString (''0x'' @ hex_u16 biff_version)))
      else Inr ())"

definition validate_biff8_container ::
    "container_env \<Rightarrow> byte list \<Rightarrow> excel_limits \<Rightarrow> nat \<Rightarrow> nat result" where
  "validate_biff8_container E bytes limits available_bytes =
     rbind (with_reason ParseFailed ''invalid Excel compound file'' (compound_file_open E bytes)) (\<lambda>compound.
     rbind (rfold (walk_cfb_entry limits)
       \<lparr>cw_entry_count = 0, cw_stream_bytes = 0, cw_workbook_path = None, cw_encrypted = False\<rparr>
       (cf_walk compound)) (\<lambda>w.
     if cw_encrypted w then Inl (new_error UnsupportedFeature ''encrypted Excel workbooks are not supported'')
     else
       let stream_bytes = cw_stream_bytes w in
       rbind (checked_reservation_bytes (length bytes) stream_bytes 0) (\<lambda>reserved_bytes.
       rbind (ensure_reservation_budget ''xls-parse-working-set'' reserved_bytes available_bytes
         ''Excel XLS source and parse working set exceed the available memory budget'') (\<lambda>_.
       rbind (ok_or (cw_workbook_path w)
         (new_error ParseFailed ''Excel compound file does not contain a Workbook stream'')) (\<lambda>path.
       rbind (with_reason ParseFailed ''failed to open the Excel Workbook stream'' (cf_open_stream compound path)) (\<lambda>stream.
       rbind (with_reason ParseFailed ''Excel Workbook stream has no complete BOF record'' (stream_exact stream 8)) (\<lambda>bof.
       rbind (check_bof bof) (\<lambda>_.
       rbind (with_reason ParseFailed ''failed to read the complete Excel Workbook stream for preflight''
         (stream_rest stream 8)) (\<lambda>rest.
       rbind (biff8_presentation_reservation (bof @ rest) limits) (\<lambda>presentation_bytes.
       rbind (checked_reservation_bytes (length bytes) stream_bytes presentation_bytes) (\<lambda>reserved_bytes.
       rbind (ensure_reservation_budget ''xls-presentation-working-set'' reserved_bytes available_bytes
         ''Excel XLS source, parse, and presentation working set exceed the available memory budget'') (\<lambda>_.
       Inr reserved_bytes))))))))))))"

section \<open>Shared strings\<close>

fun shared_string_unique_count :: "xml_attribute list \<Rightarrow> nat result" where
  "shared_string_unique_count [] = Inr 0"
| "shared_string_unique_count (XmlBadAttribute reason # attributes) =
     Inl (xml_error ''invalid XLSX shared-string attribute'' reason)"
| "shared_string_unique_count (XmlAttribute key v # attributes) =
     (if after_last_colon key \<noteq> ''uniqueCount'' then shared_string_unique_count attributes
      else
        (case v of
           Inl reason \<Rightarrow> Inl (xml_error ''invalid XLSX shared-string count'' reason)
         | Inr v \<Rightarrow>
             ok_or (parse_u64 v)
               (with_detail (new_error ResourceLimit ''XLSX shared-string count exceeds the supported integer range'')
                 ''resource'' (DetailString ''xlsx-shared-strings''))))"

fun shared_string_events :: "xml_event list \<Rightarrow> nat \<times> nat \<Rightarrow> nat result" where
  "shared_string_events [] (declared, actual) = Inr (max declared actual)"
| "shared_string_events (event # events) (declared, actual) =
     (case element_of event of
        Some (name, attributes) \<Rightarrow>
          if after_last_colon name = ''sst''
          then rbind (shared_string_unique_count attributes) (\<lambda>n.
                 shared_string_events events (max declared n, actual))
          else if after_last_colon name = ''si''
          then rbind (count_up ''XLSX shared-string count overflows'' actual 1) (\<lambda>actual.
                 shared_string_events events (declared, actual))
          else shared_string_events events (declared, actual)
      | None \<Rightarrow>
          (case event of
             XmlDocType \<Rightarrow> Inl (new_error UnsupportedFeature ''XLSX XML document type declarations are not supported'')
           | XmlEof \<Rightarrow> Inr (max declared actual)
           | XmlFailed reason \<Rightarrow> Inl (xml_error ''invalid XLSX shared strings XML'' reason)
           | _ \<Rightarrow> shared_string_events events (declared, actual)))"

definition parse_shared_string_slots :: "xml_env \<Rightarrow> byte list \<Rightarrow> nat result" where
  "parse_shared_string_slots X xml = shared_string_events (xml_events X xml) (0, 0)"

section \<open>Packages\<close>

definition forward_slashes :: "string \<Rightarrow> string" where
  "forward_slashes name = map (\<lambda>c. if c = CHR 0x5C then CHR ''/'' else c) name"

text \<open>\<open>to_ascii_lowercase().ends_with(suffix)\<close>.\<close>

definition ends_with_lowercase :: "string \<Rightarrow> string \<Rightarrow> bool" where
  "ends_with_lowercase name suffix \<longleftrightarrow> length suffix \<le> length name \<and>
     drop (length name - length suffix) (map ascii_lower name) = suffix"

text \<open>The local variables of the first pass.\<close>

record zip_pass =
  zp_total :: nat
  zp_workbook_xml :: bool
  zp_workbook_bin :: bool

definition inspect_zip_entry :: "zip_archive \<Rightarrow> nat \<Rightarrow> zip_file result" where
  "inspect_zip_entry archive index =
     with_reason ParseFailed ''failed to inspect an XLSX ZIP entry'' (za_by_index archive index)"

definition declare_zip_entry :: "zip_archive \<Rightarrow> excel_limits \<Rightarrow> zip_pass \<Rightarrow> nat \<Rightarrow> zip_pass result" where
  "declare_zip_entry archive limits z index =
     rbind (inspect_zip_entry archive index) (\<lambda>file.
     if \<not> zf_enclosed file
     then Inl (new_error ParseFailed ''XLSX archive contains an unsafe entry path'')
     else if zf_encrypted file
     then Inl (new_error UnsupportedFeature ''encrypted Excel workbooks are not supported'')
     else if zf_size file > max_zip_entry_bytes limits
     then Inl (with_detail (with_detail (with_detail (with_detail
            (new_error ResourceLimit ''XLSX archive entry exceeds the configured uncompressed-byte limit'')
            ''resource'' (DetailString ''zip-entry-bytes'')) ''entry'' (DetailString (zf_name file)))
            ''requiredBytes'' (DetailNumber (zf_size file)))
            ''availableBytes'' (DetailNumber (max_zip_entry_bytes limits)))
     else
       rbind (count_up ''XLSX aggregate uncompressed size overflows'' (zp_total z) (zf_size file)) (\<lambda>total_bytes.
       if total_bytes > max_zip_uncompressed_bytes limits
       then Inl (excel_resource_limit ''zip-uncompressed-bytes'' total_bytes (max_zip_uncompressed_bytes limits)
              ''XLSX archive exceeds the configured aggregate uncompressed-byte limit'')
       else
         let name = forward_slashes (zf_name file) in
         Inr \<lparr>zp_total = total_bytes,
              zp_workbook_xml = (zp_workbook_xml z \<or> eq_ignore_ascii_case name ''xl/workbook.xml''),
              zp_workbook_bin = (zp_workbook_bin z \<or> eq_ignore_ascii_case name ''xl/workbook.bin'')\<rparr>))"

text \<open>The local variables of the second pass.\<close>

record zip_scan =
  zs_content_types :: "byte list option"
  zs_ods_mimetype :: bool
  zs_shared_string_slots :: nat

definition content_types_part :: string where
  "content_types_part = ''[Content_Types].xml''"

definition shared_string_bytes :: "nat \<Rightarrow> nat \<Rightarrow> nat result" where
  "shared_string_bytes size_of_string slots =
     ok_or (checked_mul slots size_of_string)
       (new_error ResourceLimit ''XLSX shared-string allocation estimate overflows'')"

definition scan_zip_entry ::
    "xml_env \<Rightarrow> nat \<Rightarrow> zip_archive \<Rightarrow> nat \<Rightarrow> nat \<Rightarrow> nat \<Rightarrow> zip_scan \<Rightarrow> nat \<Rightarrow> zip_scan result" where
  "scan_zip_entry X size_of_string archive source_bytes total_uncompressed available_bytes z index =
     rbind (inspect_zip_entry archive index) (\<lambda>file.
     let name = forward_slashes (zf_name file);
         scan_xml = ends_with_lowercase name ''.xml'' \<or> ends_with_lowercase name ''.rels''
     in
     if \<not> (scan_xml \<or> eq_ignore_ascii_case name content_types_part \<or> eq_ignore_ascii_case name ''mimetype'')
     then Inr z
     else
       rbind (map_sum (\<lambda>reason. with_detail (with_detail
           (new_error ParseFailed ''failed to read an XLSX ZIP entry'')
           ''entry'' (DetailString name)) ''reason'' (DetailString reason)) id (zf_read_to_end file)) (\<lambda>contents.
       let characters = string_of_bytes contents in
       if scan_xml \<and> (contains_ascii_case_insensitive characters ''<!DOCTYPE'' \<or>
                      contains_ascii_case_insensitive characters ''<!ENTITY'')
       then Inl (with_detail (new_error UnsupportedFeature
              ''XLSX XML document type declarations and external entities are not supported'')
              ''entry'' (DetailString name))
       else if eq_ignore_ascii_case name content_types_part
       then Inr (z\<lparr>zs_content_types := Some contents\<rparr>)
       else if eq_ignore_ascii_case name ''xl/sharedStrings.xml''
       then
         rbind (parse_shared_string_slots X contents) (\<lambda>slots.
         let slots = max (zs_shared_string_slots z) slots in
         rbind (shared_string_bytes size_of_string slots) (\<lambda>string_bytes.
         rbind (checked_reservation_bytes source_bytes total_uncompressed string_bytes) (\<lambda>reservation.
         rbind (ensure_reservation_budget ''xlsx-shared-strings'' reservation available_bytes
           ''Excel XLSX shared strings exceed the available memory budget'') (\<lambda>_.
         Inr (z\<lparr>zs_shared_string_slots := slots\<rparr>)))))
       else if eq_ignore_ascii_case name ''mimetype'' \<and>
         contains_ascii_case_insensitive characters ''application/vnd.oasis.opendocument.spreadsheet''
       then Inr (z\<lparr>zs_ods_mimetype := True\<rparr>)
       else Inr z))"

definition check_zip_package :: "zip_pass \<Rightarrow> zip_scan \<Rightarrow> unit result" where
  "check_zip_package z s =
     (if zs_ods_mimetype s
      then Inl (new_error UnsupportedFeature ''OpenDocument spreadsheets are not supported by the Excel adapter'')
      else if zp_workbook_bin z then Inl (new_error UnsupportedFeature ''XLSB workbooks are not supported'')
      else
        rbind (ok_or (zs_content_types s)
          (new_error ParseFailed ''OOXML workbook is missing [Content_Types].xml'')) (\<lambda>content_types.
        if contains_ascii_case_insensitive (string_of_bytes content_types) ''macroEnabled''
        then Inl (new_error UnsupportedFeature ''macro-enabled OOXML workbooks are not supported'')
        else if \<not> zp_workbook_xml z \<or>
           \<not> contains_ascii_case_insensitive (string_of_bytes content_types) xlsx_workbook_content_type
        then Inl (new_error ParseFailed ''ZIP source is not an XLSX SpreadsheetML workbook'')
        else Inr ()))"

definition validate_xlsx_container ::
    "container_env \<Rightarrow> xml_env \<Rightarrow> nat \<Rightarrow> byte list \<Rightarrow> excel_limits \<Rightarrow> nat \<Rightarrow> nat result" where
  "validate_xlsx_container E X size_of_string bytes limits available_bytes =
     rbind (with_reason ParseFailed ''invalid XLSX ZIP container'' (zip_archive_new E bytes)) (\<lambda>archive.
     if za_len archive > max_archive_entries limits
     then Inl (count_error ''XLSX archive exceeds the configured entry limit''
            ''zip-entries'' (za_len archive) (max_archive_entries limits))
     else
       rbind (rfold (declare_zip_entry archive limits)
         \<lparr>zp_total = 0, zp_workbook_xml = False, zp_workbook_bin = False\<rparr> [0..<za_len archive]) (\<lambda>z.
       rbind (checked_reservation_bytes (length bytes) (zp_total z) 0) (\<lambda>base_reservation.
       rbind (ensure_reservation_budget ''xlsx-decompression-working-set'' base_reservation available_bytes
         ''Excel XLSX source and decompression working set exceed the available memory budget'') (\<lambda>_.
       rbind (rfold (scan_zip_entry X size_of_string archive (length bytes) (zp_total z) available_bytes)
         \<lparr>zs_content_types = None, zs_ods_mimetype = False, zs_shared_string_slots = 0\<rparr> [0..<za_len archive]) (\<lambda>s.
       rbind (check_zip_package z s) (\<lambda>_.
       rbind (shared_string_bytes size_of_string (zs_shared_string_slots s)) (\<lambda>string_bytes.
       rbind (checked_reservation_bytes (length bytes) (zp_total z) string_bytes) (\<lambda>reserved_bytes.
       rbind (ensure_reservation_budget ''xlsx-parse-working-set'' reserved_bytes available_bytes
         ''Excel XLSX source and parse working set exceed the available memory budget'') (\<lambda>_.
       Inr reserved_bytes)))))))))"

section \<open>Inspection\<close>

record excel_inspection =
  ins_format :: excel_format
  ins_reserved_bytes :: nat

definition inspect_excel_source ::
    "container_env \<Rightarrow> xml_env \<Rightarrow> nat \<Rightarrow> byte list \<Rightarrow> excel_limits \<Rightarrow> nat \<Rightarrow> excel_inspection result" where
  "inspect_excel_source E X size_of_string bytes limits available_bytes =
     rbind (excel_limits_validate limits) (\<lambda>_.
     if length bytes > max_source_bytes limits
     then Inl (excel_resource_limit ''staging'' (length bytes) (max_source_bytes limits)
            ''Excel source exceeds the configured staging limit'')
     else
       rbind (recognize_excel_container bytes) (\<lambda>container.
       case container of
         CompoundFile \<Rightarrow>
           rbind (validate_biff8_container E bytes limits available_bytes) (\<lambda>reserved_bytes.
           Inr \<lparr>ins_format = Xls, ins_reserved_bytes = reserved_bytes\<rparr>)
       | ZipContainer \<Rightarrow>
           rbind (validate_xlsx_container E X size_of_string bytes limits available_bytes) (\<lambda>reserved_bytes.
           Inr \<lparr>ins_format = Xlsx, ins_reserved_bytes = reserved_bytes\<rparr>)))"

definition detect_excel_format ::
    "container_env \<Rightarrow> xml_env \<Rightarrow> nat \<Rightarrow> byte list \<Rightarrow> excel_format result" where
  "detect_excel_format E X size_of_string bytes =
     map_sum id ins_format (inspect_excel_source E X size_of_string bytes excel_limits_default u64_max)"

section \<open>What a record is counted for\<close>

text \<open>The preflight and the parser read the same records.\<close>

lemma preflight_record_same:
  "next_biff8_preflight_record data position = Inr r \<longleftrightarrow> next_biff_record data position = Inr r"
proof -
  have "u16_at (take 4 (drop position data)) 0 = u16_at data position"
    "u16_at (take 4 (drop position data)) 2 = u16_at data (position + 2)" if "position + 4 \<le> length data"
    using that by (auto simp: u16_at_def bytes_at_def drop_take min_def add.commute)
  then show ?thesis by (auto simp: next_biff8_preflight_record_def next_biff_record_def Let_def)
qed

definition weight :: "biff8_presentation_counts \<Rightarrow> nat" where
  "weight c = bc_global_style_records c * 512 + bc_styled_cells c * 96 + bc_layout_entries c * 96 + bc_merged_cells c * 64"

definition layout_bytes :: "'f worksheet_presentation \<Rightarrow> nat" where
  "layout_bytes layout = length (wp_styles layout) * 96 + (length (wp_rows layout) + length (wp_columns layout)) * 96 +
     length (wp_merged_cells layout) * 64"

lemma counted_bytes_Some: "counted_bytes c = Some n \<Longrightarrow> n = weight c"
  by (auto simp: counted_bytes_def weight_def bind_eq_Some_conv)

lemma count_up_ok [simp]: "count_up message count n = Inr m \<longleftrightarrow> count + n \<le> u64_max \<and> m = count + n"
  by (simp add: count_up_def)

lemma count_sheet_ok:
  "count_sheet m1 m2 r m3 limit n sheet_count total_count = Inr (s, t) \<Longrightarrow> s = sheet_count + n \<and> t = total_count + n"
  by (auto simp: count_sheet_def split: if_splits)

lemma preflight_styled_ok:
  "preflight_styled record_type data limits st = Inr st' \<Longrightarrow>
     \<exists>n. biff8_styled_cells_in_record record_type data = Inr n \<and>
       bc_layout_entries (bp_counts st') = bc_layout_entries (bp_counts st) \<and>
       bp_in_globals st' = bp_in_globals st \<and> bp_in_worksheet st' = bp_in_worksheet st \<and>
       weight (bp_counts st') = weight (bp_counts st) + 96 * n"
  by (auto simp: preflight_styled_def weight_def dest!: count_sheet_ok)

lemma preflight_row_ok:
  "preflight_row limits st = Inr st' \<Longrightarrow>
     bp_in_globals st' = bp_in_globals st \<and> bp_in_worksheet st' = bp_in_worksheet st \<and>
     weight (bp_counts st') = weight (bp_counts st) + 96"
  by (auto simp: preflight_row_def weight_def dest!: count_sheet_ok)

lemma preflight_columns_ok:
  "preflight_columns data limits st = Inr st' \<Longrightarrow>
     bp_in_globals st' = bp_in_globals st \<and> bp_in_worksheet st' = bp_in_worksheet st \<and>
     or_zero (u16_at data 0) \<le> or_zero (u16_at data 2) \<and>
     weight (bp_counts st') = weight (bp_counts st) + 96 * (or_zero (u16_at data 2) - or_zero (u16_at data 0) + 1)"
  by (auto simp: preflight_columns_def weight_def Let_def dest!: count_sheet_ok split: if_splits)

lemma preflight_merges_ok:
  "preflight_merges data limits st = Inr st' \<Longrightarrow>
     bp_in_globals st' = bp_in_globals st \<and> bp_in_worksheet st' = bp_in_worksheet st \<and>
     or_zero (u16_at data 0) \<le> (length data - 2) div 8 \<and>
     weight (bp_counts st') = weight (bp_counts st) + 64 * or_zero (u16_at data 0)"
  by (auto simp: preflight_merges_def weight_def Let_def dest!: count_sheet_ok split: if_splits)

lemma preflight_global_ok: "preflight_global record_type limits c = Inr c' \<Longrightarrow> weight c \<le> weight c'"
  by (auto simp: preflight_global_def weight_def Let_def map_sum_Inr_iff split: if_splits)

lemma preflight_sheet_record_ok:
  "preflight_sheet_record record_type data limits st = Inr st' \<Longrightarrow>
     bp_in_globals st' = bp_in_globals st \<and> bp_in_worksheet st' = bp_in_worksheet st \<and>
     weight (bp_counts st) \<le> weight (bp_counts st')"
  unfolding preflight_sheet_record_def
  by (auto split: if_splits dest!: preflight_styled_ok preflight_row_ok preflight_columns_ok preflight_merges_ok)

lemma preflight_record_mono:
  assumes "preflight_record record_type data limits st = Inr st'"
  shows "weight (bp_counts st) \<le> weight (bp_counts st')"
    and "bp_in_globals st' \<longrightarrow> bp_in_globals st"
    and "record_type = 0x000A \<Longrightarrow> \<not> bp_in_globals st'"
  using assms unfolding preflight_record_def
  by (auto simp: map_sum_Inr_iff split: if_splits dest: preflight_sheet_record_ok preflight_global_ok)

section \<open>What a record adds to a layout\<close>

lemma length_alist_update: "length (AList.update k v xs) \<le> Suc (length xs)"
  by (induction xs) auto

lemma alist_update_weight: "length (AList.update k v xs) * 96 \<le> length xs * 96 + 96"
  using length_alist_update [of k v xs] by simp

lemma length_insert_le: "length (ordered_insert k v m) \<le> Suc (length m)"
proof -
  have "length (filter (\<lambda>p. fst p < k) m) + length (filter (\<lambda>p. k < fst p) m) \<le> length m" by (induction m) auto
  then show ?thesis by (simp add: ordered_insert_def)
qed

text \<open>A fold whose body adds at most a fixed weight.\<close>

lemma rfold_weight:
  assumes "rfold f s xs = Inr t" and "\<And>s t x. x \<in> set xs \<Longrightarrow> f s x = Inr t \<Longrightarrow> w t \<le> w s + (k :: nat)"
  shows "w t \<le> w s + k * length xs"
  using assms
proof (induction xs arbitrary: s)
  case (Cons x xs)
  obtain u where u: "f s x = Inr u" and rest: "rfold f u xs = Inr t" using Cons.prems(1) by auto
  have "w t \<le> w u + k * length xs" by (rule Cons.IH [OF rest], rule Cons.prems(2)) simp_all
  moreover have "w u \<le> w s + k" by (rule Cons.prems(2) [OF _ u]) simp
  ultimately show ?case by simp
qed simp

lemma axis_entry_weight:
  "insert_axis_entry index pixels hidden limits entries = Inr entries' \<Longrightarrow> length entries' \<le> length entries + 1"
  using length_insert_le by (auto simp: insert_axis_entry_def Let_def split: if_splits option.splits)

lemma axis_entries_weight:
  assumes "insert_axis_entries first final pixels hidden limits entries = Inr entries'"
  shows "length entries' \<le> length entries + (Suc final - first)"
proof -
  have "length entries' \<le> length entries + 1 * length [first..<Suc final]"
    by (rule rfold_weight [OF assms [unfolded insert_axis_entries_def], where w = length]) (rule axis_entry_weight)
  then show ?thesis by (simp del: upt_Suc)
qed

lemma layout_extent_weight:
  "update_layout_extent r c limits resource message layout = Inr layout' \<Longrightarrow> layout_bytes layout' = layout_bytes layout"
  by (auto simp: update_layout_extent_def layout_bytes_def Let_def split: if_splits)

lemma biff8_extent_weight:
  "update_biff8_extent r c limits message layout = Inr layout' \<Longrightarrow> layout_bytes layout' = layout_bytes layout"
  by (auto simp: update_biff8_extent_def layout_extent_weight split: if_splits)

lemma cell_style_weight:
  "apply_biff8_cell_style row column raw styles limits layout = Inr layout' \<Longrightarrow>
     layout_bytes layout' \<le> layout_bytes layout + 96"
  by (auto simp: apply_biff8_cell_style_def insert_cell_style_def layout_bytes_def
    intro: alist_update_weight split: if_splits option.splits)

lemma cell_weight: "biff8_cell data styles limits layout = Inr layout' \<Longrightarrow> layout_bytes layout' \<le> layout_bytes layout + 96"
  by (auto simp: biff8_cell_def Let_def dest!: cell_style_weight biff8_extent_weight)

lemma multi_cell_weight:
  assumes run: "biff8_multi_cell record_type data styles limits layout = Inr layout'"
    and multi: "biff8_multi_cell_record record_type" and size: "length data \<ge> 6"
    and count: "biff8_styled_cells_in_record record_type data = Inr n"
  shows "layout_bytes layout' \<le> layout_bytes layout + 96 * n"
proof -
  let ?row = "or_zero (u16_at data 0)" and ?first = "or_zero (u16_at data 2)"
    and ?final = "or_zero (u16_at data (saturating_sub (length data) 2))"
  have single: "\<not> biff8_cell_record record_type" using multi by (auto simp: biff8_multi_cell_record_def biff8_cell_record_def)
  have n: "n = ?final - ?first + 1"
    using count multi size by (auto simp: biff8_styled_cells_in_record_def single Let_def split: if_splits)
  obtain grown where grown: "layout_bytes grown = layout_bytes layout"
      and rest: "rfold (\<lambda>layout index.
            rbind (ok_or (checked_add ?first index)
              (new_error ResourceLimit ''BIFF8 multi-cell column coordinate overflows'')) (\<lambda>column.
            apply_biff8_cell_style ?row column
              (or_zero (u16_at data (4 + index * multi_cell_width record_type))) styles limits layout))
            grown [0..<n] = Inr layout'"
    using run unfolding biff8_multi_cell_def Let_def n
    by (auto split: if_splits dest!: biff8_extent_weight)
  have "layout_bytes layout' \<le> layout_bytes grown + 96 * length [0..<n]"
    by (rule rfold_weight [OF rest, where w = layout_bytes]) (auto dest: cell_style_weight)
  then show ?thesis by (simp add: grown)
qed

lemma row_weight: "biff8_row F data limits layout = Inr layout' \<Longrightarrow> layout_bytes layout' \<le> layout_bytes layout + 96"
  by (auto simp: biff8_row_def Let_def map_sum_Inr_iff layout_bytes_def split: if_splits dest!: axis_entry_weight)

lemma columns_weight:
  "biff8_columns F data limits layout = Inr layout' \<Longrightarrow>
     layout_bytes layout' \<le> layout_bytes layout + 96 * (or_zero (u16_at data 2) - or_zero (u16_at data 0) + 1)"
  by (auto simp: biff8_columns_def Let_def map_sum_Inr_iff layout_bytes_def split: if_splits dest!: axis_entries_weight)

lemma merge_weight:
  "biff8_merge_at data limits layout index = Inr layout' \<Longrightarrow> layout_bytes layout' \<le> layout_bytes layout + 64"
  by (auto simp: biff8_merge_at_def Let_def layout_bytes_def split: if_splits dest!: biff8_extent_weight)

lemma merges_weight:
  assumes "biff8_merges data limits layout = Inr layout'"
  shows "layout_bytes layout' \<le> layout_bytes layout + 64 * or_zero (u16_at data 0)"
proof -
  have "layout_bytes layout' \<le> layout_bytes layout + 64 * length [0..<min (or_zero (u16_at data 0)) ((length data - 2) div 8)]"
    by (rule rfold_weight [OF assms [unfolded biff8_merges_def Let_def]]) (rule merge_weight)
  then show ?thesis by simp
qed

text \<open>What the parser adds for a record, the preflight has counted for it.\<close>

lemma record_covered:
  assumes run: "biff8_sheet_record F styles limits record_type data sheet = Inr sheet'"
    and counted: "preflight_sheet_record record_type data limits st = Inr st'"
  shows "layout_bytes (b8_layout sheet') + weight (bp_counts st) \<le> layout_bytes (b8_layout sheet) + weight (bp_counts st')"
proof -
  obtain n st1 where n: "biff8_styled_cells_in_record record_type data = Inr n"
      and st1: "weight (bp_counts st1) = weight (bp_counts st) + 96 * n"
      and st': "(if record_type = 0x0208 \<and> length data \<ge> 16 then preflight_row limits st1
         else if record_type = 0x007D \<and> length data \<ge> 10 then preflight_columns data limits st1
         else if record_type = 0x00E5 \<and> length data \<ge> 2 then preflight_merges data limits st1
         else Inr st1) = Inr st'"
    using counted unfolding preflight_sheet_record_def by (auto dest!: preflight_styled_ok)
  have grew: "weight (bp_counts st1) \<le> weight (bp_counts st')"
    using st' by (auto split: if_splits dest!: preflight_row_ok preflight_columns_ok preflight_merges_ok)
  have single: "n = 1" if "biff8_cell_record record_type" "length data \<ge> 6"
    using n that by (simp add: biff8_styled_cells_in_record_def)
  consider (same) "layout_bytes (b8_layout sheet') = layout_bytes (b8_layout sheet)"
    | (cell) "biff8_cell_record record_type" "length data \<ge> 6"
        "layout_bytes (b8_layout sheet') \<le> layout_bytes (b8_layout sheet) + 96"
    | (multi) "layout_bytes (b8_layout sheet') \<le> layout_bytes (b8_layout sheet) + 96 * n"
    | (row) "record_type = 0x0208" "length data \<ge> 16"
        "layout_bytes (b8_layout sheet') \<le> layout_bytes (b8_layout sheet) + 96"
    | (columns) "record_type = 0x007D" "length data \<ge> 10" "layout_bytes (b8_layout sheet') \<le>
        layout_bytes (b8_layout sheet) + 96 * (or_zero (u16_at data 2) - or_zero (u16_at data 0) + 1)"
    | (merges) "record_type = 0x00E5" "length data \<ge> 2"
        "layout_bytes (b8_layout sheet') \<le> layout_bytes (b8_layout sheet) + 64 * or_zero (u16_at data 0)"
    using run unfolding biff8_sheet_record_def Let_def
    by (auto simp: map_sum_Inr_iff split: if_splits
      dest!: biff8_extent_weight cell_weight row_weight columns_weight merges_weight multi_cell_weight [OF _ _ _ n])
  then show ?thesis
  proof cases
    case row
    have "preflight_row limits st1 = Inr st'" using st' row by simp
    from preflight_row_ok [OF this] show ?thesis using row st1 by simp
  next
    case columns
    have "preflight_columns data limits st1 = Inr st'" using st' columns by simp
    from preflight_columns_ok [OF this] show ?thesis using columns st1 by simp
  next
    case merges
    have "preflight_merges data limits st1 = Inr st'" using st' merges by simp
    from preflight_merges_ok [OF this] show ?thesis using merges st1 by simp
  qed (use st1 grew single in auto)
qed

section \<open>Substreams\<close>

text \<open>The records from one position to another, where the walk over the stream joins them.\<close>

function records_between :: "byte list \<Rightarrow> nat \<Rightarrow> nat \<Rightarrow> (nat \<times> byte list) list option" where
  "records_between workbook p q =
     (if p = q then Some []
      else
        (case next_biff_record workbook p of
           Inr (Some (record_type, data, after)) \<Rightarrow>
             map_option (Cons (record_type, data)) (records_between workbook after q)
         | _ \<Rightarrow> None))"
  by pat_completeness auto
termination
  by (relation "measure (\<lambda>(workbook, p, q). length workbook - p)") (auto dest!: next_biff_record_Some)

declare records_between.simps [simp del]

lemma records_between_refl [simp]: "records_between workbook p p = Some []"
  by (simp add: records_between.simps)

lemma records_between_step:
  assumes "records_between workbook p q = Some rs" and "p \<noteq> q"
  obtains record_type data after rest where "next_biff_record workbook p = Inr (Some (record_type, data, after))"
    and "rs = (record_type, data) # rest" and "records_between workbook after q = Some rest"
  using assms by (subst (asm) records_between.simps) (auto split: sum.splits option.splits prod.splits)

lemma records_between_Nil: "records_between workbook p q = Some [] \<Longrightarrow> p = q"
  by (rule ccontr, erule (1) records_between_step) simp

lemma records_between_forward: "records_between workbook p q = Some rs \<Longrightarrow> p \<le> q"
proof (induction rs arbitrary: p)
  case Nil
  then show ?case using records_between_Nil by force
next
  case (Cons r rs)
  show ?case
  proof (cases "p = q")
    case False
    from records_between_step [OF Cons.prems False] Cons.IH show ?thesis
      by (metis list.inject next_biff_record_Some order_trans less_imp_le)
  qed simp
qed

lemma records_between_split:
  assumes "records_between workbook p q = Some xs" and "records_between workbook p r = Some ys"
  shows "(\<exists>zs. records_between workbook q r = Some zs \<and> ys = xs @ zs) \<or>
    (\<exists>zs. records_between workbook r q = Some zs \<and> xs = ys @ zs \<and> r \<noteq> q)"
  using assms
proof (induction xs arbitrary: p ys)
  case Nil
  then show ?case using records_between_Nil by force
next
  case (Cons x xs)
  have "p \<noteq> q" using Cons.prems(1) by auto
  from records_between_step [OF Cons.prems(1) this] obtain after
    where x: "next_biff_record workbook p = Inr (Some (fst x, snd x, after))"
      and xs: "records_between workbook after q = Some xs" by (metis fst_conv snd_conv list.inject)
  show ?case
  proof (cases "p = r")
    case True
    then show ?thesis using Cons.prems \<open>p \<noteq> q\<close> by auto
  next
    case False
    from records_between_step [OF Cons.prems(2) this] x obtain ys'
      where ys: "ys = x # ys'" and ys': "records_between workbook after r = Some ys'"
      by (metis Inr_inject option.inject prod.collapse prod.inject)
    from Cons.IH [OF xs ys'] show ?thesis by (auto simp: ys)
  qed
qed

text \<open>
  A worksheet substream: it starts at a record of the stream, after the globals, with the BOF
  record of a worksheet, and no other substream starts before its EOF record.
\<close>

definition worksheet_at :: "byte list \<Rightarrow> nat \<Rightarrow> bool" where
  "worksheet_at workbook offset \<longleftrightarrow>
     (\<exists>before bof first body stop eof after.
        records_between workbook 0 offset = Some before \<and> 0x000A \<in> fst ` set before \<and>
        next_biff_record workbook offset = Inr (Some (0x0809, bof, first)) \<and> u16_at bof 2 = Some 0x0010 \<and>
        records_between workbook first stop = Some body \<and> 0x0809 \<notin> fst ` set body \<and> 0x000A \<notin> fst ` set body \<and>
        next_biff_record workbook stop = Inr (Some (0x000A, eof, after)))"

lemma preflight_records_step:
  assumes "preflight_records limits workbook p st = Inr final"
    and "next_biff_record workbook p = Inr (Some (record_type, data, after))"
  obtains st' where "preflight_record record_type data limits st = Inr st'"
    and "preflight_records limits workbook after st' = Inr final"
  using assms(1) preflight_record_same [THEN iffD2, OF assms(2)]
  by (auto simp: preflight_records.simps [of limits workbook p] split: sum.splits)

lemma preflight_records_mono:
  "preflight_records limits workbook p st = Inr final \<Longrightarrow> weight (bp_counts st) \<le> weight (bp_counts final)"
proof (induction limits workbook p st rule: preflight_records.induct)
  case (1 limits workbook p st)
  then show ?case
    by (subst (asm) (2) preflight_records.simps)
      (auto split: sum.splits option.splits prod.splits dest: preflight_record_mono(1) intro: order_trans)
qed

text \<open>One worksheet: from its first record to its EOF record.\<close>

lemma substream_covered:
  assumes "records_between workbook p q = Some body" and "0x0809 \<notin> fst ` set body" and "0x000A \<notin> fst ` set body"
    and "next_biff_record workbook q = Inr (Some (0x000A, eof, after))"
    and "biff8_sheet_records F styles limits workbook p sheet = Inr sheet'"
    and "preflight_records limits workbook p st = Inr final" and "bp_in_worksheet st" and "\<not> bp_in_globals st"
  shows "\<exists>st'. preflight_records limits workbook q st' = Inr final \<and> \<not> bp_in_globals st' \<and>
    layout_bytes (b8_layout sheet') + weight (bp_counts st) \<le> layout_bytes (b8_layout sheet) + weight (bp_counts st')"
  using assms
proof (induction body arbitrary: p sheet st)
  case Nil
  then have "p = q" by (simp add: records_between_Nil)
  then have "sheet' = sheet" using Nil.prems(4,5) by (simp add: biff8_sheet_records.simps [of F styles limits workbook q])
  then show ?case using Nil.prems \<open>p = q\<close> by auto
next
  case (Cons r body)
  have "p \<noteq> q" using Cons.prems(1) by auto
  from records_between_step [OF Cons.prems(1) this] obtain record_type data next_p
    where r: "next_biff_record workbook p = Inr (Some (record_type, data, next_p))" "r = (record_type, data)"
      and rest: "records_between workbook next_p q = Some body" by auto
  have kind: "record_type \<noteq> 0x0809" "record_type \<noteq> 0x000A" using Cons.prems(2,3) by (auto simp: r)
  obtain sheet1 where sheet1: "biff8_sheet_record F styles limits record_type data sheet = Inr sheet1"
      and run: "biff8_sheet_records F styles limits workbook next_p sheet1 = Inr sheet'"
    using Cons.prems(5) kind by (subst (asm) biff8_sheet_records.simps) (auto simp: r split: sum.splits)
  obtain st1 where st1: "preflight_record record_type data limits st = Inr st1"
      and go: "preflight_records limits workbook next_p st1 = Inr final"
    by (rule preflight_records_step [OF Cons.prems(6) r(1)])
  have counted: "preflight_sheet_record record_type data limits st = Inr st1"
    using st1 kind Cons.prems(7,8) by (simp add: preflight_record_def)
  have "bp_in_worksheet st1" "\<not> bp_in_globals st1"
    using preflight_sheet_record_ok [OF counted] Cons.prems(7,8) by auto
  from Cons.IH [OF rest _ _ Cons.prems(4) run go this] Cons.prems(2,3)
  obtain st' where st': "preflight_records limits workbook q st' = Inr final" "\<not> bp_in_globals st'"
      "layout_bytes (b8_layout sheet') + weight (bp_counts st1) \<le> layout_bytes (b8_layout sheet1) + weight (bp_counts st')"
    by auto
  then show ?case using record_covered [OF sheet1 counted] by (intro exI [of _ st']) linarith
qed

definition offset_bytes ::
    "'f float_ops \<Rightarrow> byte list \<Rightarrow> nat option list \<Rightarrow> excel_limits \<Rightarrow> nat \<Rightarrow> nat" where
  "offset_bytes F workbook styles limits offset =
     (case parse_biff8_worksheet F workbook offset styles limits of Inr layout \<Rightarrow> layout_bytes layout | Inl _ \<Rightarrow> 0)"

lemma finish_layout_bytes [simp]: "layout_bytes (finish_biff8_sheet sheet) = layout_bytes (b8_layout sheet)"
  by (auto simp: finish_biff8_sheet_def layout_bytes_def split: option.splits)

lemma empty_layout_bytes [simp]: "layout_bytes empty_layout = 0"
  by (simp add: layout_bytes_def empty_layout_def)

text \<open>Where the offsets lie once the walk has moved past a record or a worksheet.\<close>

lemma offset_after_record:
  assumes "records_between workbook p q = Some before" and "p \<noteq> q"
    and "next_biff_record workbook p = Inr (Some (record_type, data, after))"
  shows "\<exists>rest. before = (record_type, data) # rest \<and> records_between workbook after q = Some rest"
  using records_between_step [OF assms(1,2)] assms(3)
  by (metis Inr_inject option.inject prod.inject)

lemma offset_after_worksheet:
  assumes body: "records_between workbook first stop = Some body" "0x0809 \<notin> fst ` set body"
    and reach: "records_between workbook first q = Some rest" and sheet: "worksheet_at workbook q"
  shows "\<exists>zs. records_between workbook stop q = Some zs"
  using records_between_split [OF body(1) reach]
proof (elim disjE exE conjE)
  fix zs assume zs: "records_between workbook q stop = Some zs" "body = rest @ zs" "q \<noteq> stop"
  obtain bof after where "next_biff_record workbook q = Inr (Some (0x0809, bof, after))"
    using sheet unfolding worksheet_at_def by blast
  from offset_after_record [OF zs(1,3) this] have "0x0809 \<in> fst ` set zs" by force
  then show ?thesis using body(2) zs(2) by auto
qed auto

text \<open>One worksheet of the workbook, from its BOF record.\<close>

lemma worksheet_covered:
  assumes sheet: "worksheet_at workbook p" and parsed: "is_ok (parse_biff8_worksheet F workbook p styles limits)"
    and counted: "preflight_records limits workbook p st = Inr final" and outside: "\<not> bp_in_globals st"
  obtains stop st' where "preflight_records limits workbook stop st' = Inr final" and "\<not> bp_in_globals st'"
    and "offset_bytes F workbook styles limits p + weight (bp_counts st) \<le> weight (bp_counts st')"
    and "p < stop" and "p < length workbook"
    and "\<And>q before. records_between workbook p q = Some before \<Longrightarrow> p \<noteq> q \<Longrightarrow> worksheet_at workbook q \<Longrightarrow>
      \<exists>zs. records_between workbook stop q = Some zs"
proof -
  obtain bof first body stop eof after where bof: "next_biff_record workbook p = Inr (Some (0x0809, bof, first))"
      and kind: "u16_at bof 2 = Some 0x0010"
      and body: "records_between workbook first stop = Some body" "0x0809 \<notin> fst ` set body" "0x000A \<notin> fst ` set body"
      and eof: "next_biff_record workbook stop = Inr (Some (0x000A, eof, after))"
    using sheet unfolding worksheet_at_def by blast
  obtain st1 where st1: "preflight_record 0x0809 bof limits st = Inr st1"
      and go: "preflight_records limits workbook first st1 = Inr final"
    by (rule preflight_records_step [OF counted bof])
  have st1_is: "bp_in_worksheet st1" "\<not> bp_in_globals st1" "bp_counts st1 = bp_counts st"
    using st1 outside kind by (auto simp: preflight_record_def)
  obtain layout where layout: "parse_biff8_worksheet F workbook p styles limits = Inr layout"
    using parsed by (cases "parse_biff8_worksheet F workbook p styles limits") (auto simp: is_ok_def)
  let ?fresh = "\<lparr>b8_layout = empty_layout, b8_pane = None, b8_frozen = False\<rparr>"
  obtain sheet where sheet: "biff8_sheet_records F styles limits workbook p ?fresh = Inr sheet"
      and bytes: "layout_bytes layout = layout_bytes (b8_layout sheet)"
    using layout by (auto simp: parse_biff8_worksheet_def map_sum_Inr_iff split: if_splits)
  have skip: "biff8_sheet_record F styles limits 0x0809 bof ?fresh = Inr ?fresh"
    by (simp add: biff8_sheet_record_def biff8_cell_record_def biff8_multi_cell_record_def)
  have run: "biff8_sheet_records F styles limits workbook first ?fresh = Inr sheet"
    using sheet by (simp add: biff8_sheet_records.simps [of F styles limits workbook p] bof skip)
  obtain st' where st': "preflight_records limits workbook stop st' = Inr final" "\<not> bp_in_globals st'"
      and used: "layout_bytes (b8_layout sheet) + weight (bp_counts st1) \<le> weight (bp_counts st')"
    using substream_covered [OF body eof run go st1_is(1,2)] by auto
  have p: "p < first" "first \<le> length workbook" "first \<le> stop"
    using next_biff_record_Some [OF bof] records_between_forward [OF body(1)] by auto
  show ?thesis
  proof (rule that [OF st'])
    show "offset_bytes F workbook styles limits p + weight (bp_counts st) \<le> weight (bp_counts st')"
      using used bytes st1_is(3) by (simp add: offset_bytes_def layout)
    show "p < stop" "p < length workbook" using p by auto
    fix q before
    assume "records_between workbook p q = Some before" "p \<noteq> q" and q: "worksheet_at workbook q"
    then obtain rest where "records_between workbook first q = Some rest"
      using offset_after_record [OF _ _ bof] by blast
    from offset_after_worksheet [OF body(1,2) this q] show "\<exists>zs. records_between workbook stop q = Some zs" .
  qed
qed

text \<open>All worksheets whose substreams start at distinct offsets.\<close>

definition ahead :: "byte list \<Rightarrow> nat \<Rightarrow> biff8_preflight \<Rightarrow> nat \<Rightarrow> bool" where
  "ahead workbook p st q \<longleftrightarrow> worksheet_at workbook q \<and>
     (\<exists>before. records_between workbook p q = Some before \<and> (bp_in_globals st \<longrightarrow> 0x000A \<in> fst ` set before))"

lemma ahead_step:
  assumes "ahead workbook p st q" and "p \<noteq> q"
    and "next_biff_record workbook p = Inr (Some (record_type, data, after))"
    and "preflight_record record_type data limits st = Inr st'"
  shows "ahead workbook after st' q"
proof -
  obtain before where before: "records_between workbook p q = Some before"
      and globals: "bp_in_globals st \<longrightarrow> 0x000A \<in> fst ` set before" and q: "worksheet_at workbook q"
    using assms(1) by (auto simp: ahead_def)
  from offset_after_record [OF before assms(2,3)] obtain rest
    where rest: "before = (record_type, data) # rest" "records_between workbook after q = Some rest" by blast
  then show ?thesis using globals q preflight_record_mono(2,3) [OF assms(4)] by (auto simp: ahead_def)
qed

lemma offsets_covered:
  assumes "preflight_records limits workbook p st = Inr final" and "finite offsets"
    and "\<forall>q \<in> offsets. ahead workbook p st q"
    and "\<forall>q \<in> offsets. is_ok (parse_biff8_worksheet F workbook q styles limits)"
  shows "(\<Sum>q \<in> offsets. offset_bytes F workbook styles limits q) + weight (bp_counts st) \<le> weight (bp_counts final)"
  using assms
proof (induction "length workbook - p" arbitrary: p st offsets rule: less_induct)
  case less
  let ?w = "offset_bytes F workbook styles limits"
  consider (none) "offsets = {}" | (here) "p \<in> offsets" | (later) q where "q \<in> offsets" "p \<notin> offsets" by blast
  then show ?case
  proof cases
    case none
    then show ?thesis using preflight_records_mono [OF less.prems(1)] by simp
  next
    case here
    have sheet: "worksheet_at workbook p" and "\<not> bp_in_globals st"
      using less.prems(3) here by (force simp: ahead_def)+
    obtain stop st' where st': "preflight_records limits workbook stop st' = Inr final" "\<not> bp_in_globals st'"
        and used: "?w p + weight (bp_counts st) \<le> weight (bp_counts st')" and stop: "p < stop" "p < length workbook"
        and rest: "\<And>q before. records_between workbook p q = Some before \<Longrightarrow> p \<noteq> q \<Longrightarrow> worksheet_at workbook q \<Longrightarrow>
          \<exists>zs. records_between workbook stop q = Some zs"
      by (rule worksheet_covered [OF sheet bspec [OF less.prems(4) here] less.prems(1) \<open>\<not> bp_in_globals st\<close>]) metis
    have "ahead workbook stop st' q" if "q \<in> offsets - {p}" for q
      using that less.prems(3) rest st'(2) by (fastforce simp: ahead_def)
    then have "(\<Sum>q \<in> offsets - {p}. ?w q) + weight (bp_counts st') \<le> weight (bp_counts final)"
      using stop less.prems(2,4) by (intro less.hyps [OF _ st'(1)]) auto
    moreover have "(\<Sum>q \<in> offsets. ?w q) = ?w p + (\<Sum>q \<in> offsets - {p}. ?w q)"
      by (rule sum.remove [OF less.prems(2) here])
    ultimately show ?thesis using used by simp
  next
    case (later q)
    obtain before where "records_between workbook p q = Some before"
      using less.prems(3) later by (auto simp: ahead_def)
    moreover have "p \<noteq> q" using later by auto
    ultimately obtain record_type data after
      where r: "next_biff_record workbook p = Inr (Some (record_type, data, after))" by (rule records_between_step)
    obtain st1 where st1: "preflight_record record_type data limits st = Inr st1"
        and go: "preflight_records limits workbook after st1 = Inr final"
      by (rule preflight_records_step [OF less.prems(1) r])
    have "length workbook - after < length workbook - p" using next_biff_record_Some [OF r] by auto
    moreover have "\<forall>q \<in> offsets. ahead workbook after st1 q"
      using less.prems(3) later(2) ahead_step [OF _ _ r st1] by metis
    ultimately have "(\<Sum>q \<in> offsets. ?w q) + weight (bp_counts st1) \<le> weight (bp_counts final)"
      using less.hyps [OF _ go less.prems(2)] less.prems(4) by blast
    then show ?thesis using preflight_record_mono(1) [OF st1] by simp
  qed
qed

section \<open>The reservation covers the workbook\<close>

definition sheets_bytes :: "'f workbook_presentation \<Rightarrow> nat" where
  "sheets_bytes p = (\<Sum>(name, layout) \<leftarrow> wbp_sheets p. layout_bytes layout)"

lemma insert_sheet_bytes: "sheets_bytes (insert_sheet name layout p) \<le> sheets_bytes p + layout_bytes layout"
proof -
  have "(\<Sum>(name, layout) \<leftarrow> AList.update name layout xs. layout_bytes layout) \<le>
      (\<Sum>(name, layout) \<leftarrow> xs. layout_bytes layout) + layout_bytes layout" for xs
    by (induction xs) auto
  then show ?thesis by (simp add: sheets_bytes_def insert_sheet_def)
qed

lemma sheets_gathered:
  assumes "rfold (biff8_sheet_into F workbook styles limits) p sheets = Inr p'"
  shows "sheets_bytes p' \<le> sheets_bytes p + (\<Sum>sheet \<leftarrow> sheets. offset_bytes F workbook styles limits (bs_offset sheet)) \<and>
    (\<forall>sheet \<in> set sheets. is_ok (parse_biff8_worksheet F workbook (bs_offset sheet) styles limits))"
  using assms
proof (induction sheets arbitrary: p)
  case (Cons sheet sheets)
  obtain layout where layout: "parse_biff8_worksheet F workbook (bs_offset sheet) styles limits = Inr layout"
      and rest: "rfold (biff8_sheet_into F workbook styles limits) (insert_sheet (bs_name sheet) layout p) sheets = Inr p'"
    using Cons.prems by (cases "parse_biff8_worksheet F workbook (bs_offset sheet) styles limits")
      (simp_all add: biff8_sheet_into_def [of F workbook styles limits p])
  show ?case using Cons.IH [OF rest] insert_sheet_bytes [of "bs_name sheet" layout p]
    by (simp add: layout is_ok_def offset_bytes_def)
qed simp

lemma walk_path:
  assumes "rfold (walk_cfb_entry limits) w entries = Inr w'"
  shows "cw_workbook_path w' =
    (case cw_workbook_path w of Some path \<Rightarrow> Some path | None \<Rightarrow> map_option ce_path (find is_workbook_stream entries))"
  using assms
proof (induction entries arbitrary: w)
  case (Cons entry entries)
  obtain w1 where w1: "walk_cfb_entry limits w entry = Inr w1" and rest: "rfold (walk_cfb_entry limits) w1 entries = Inr w'"
    using Cons.prems by auto
  have "cw_workbook_path w1 = (case cw_workbook_path w of Some path \<Rightarrow> Some path
      | None \<Rightarrow> if is_workbook_stream entry then Some (ce_path entry) else None)"
    using w1 unfolding walk_cfb_entry_def is_workbook_stream_def
    by (auto simp: Let_def split: if_splits option.splits)
  then show ?case using Cons.IH [OF rest] by (auto split: option.splits)
qed (auto split: option.splits)

text \<open>What reading a stream in two steps gives is what reading it at once gives.\<close>

definition steady_streams :: "container_env \<Rightarrow> bool" where
  "steady_streams E \<longleftrightarrow>
     (\<forall>bytes compound path stream n front rest.
        compound_file_open E bytes = Inr compound \<longrightarrow> cf_open_stream compound path = Inr stream \<longrightarrow>
        stream_exact stream n = Inr front \<longrightarrow> stream_rest stream n = Inr rest \<longrightarrow>
        stream_rest stream 0 = Inr (front @ rest))"

lemma with_reason_Inr [simp]: "with_reason code message r = Inr a \<longleftrightarrow> r = Inr a"
  by (cases r) (simp_all add: with_reason_def)

lemma biff8_validated:
  assumes "validate_biff8_container E bytes limits available = Inr reserved" and "steady_streams E"
    and "workbook_stream E bytes = Inr workbook"
  obtains n where "biff8_presentation_reservation workbook limits = Inr n"
    and "length bytes + n \<le> reserved" and "reserved \<le> available"
proof -
  obtain compound w path stream bof rest n
    where compound: "compound_file_open E bytes = Inr compound"
      and walk: "rfold (walk_cfb_entry limits)
         \<lparr>cw_entry_count = 0, cw_stream_bytes = 0, cw_workbook_path = None, cw_encrypted = False\<rparr> (cf_walk compound) = Inr w"
      and path: "cw_workbook_path w = Some path" and stream: "cf_open_stream compound path = Inr stream"
      and bof: "stream_exact stream 8 = Inr bof" and rest: "stream_rest stream 8 = Inr rest"
      and n: "biff8_presentation_reservation (bof @ rest) limits = Inr n"
      and reserved: "reserved = length bytes + cw_stream_bytes w + n" "reserved \<le> available"
    using assms(1) unfolding validate_biff8_container_def Let_def
    by (auto split: if_splits)
  have "map_option ce_path (find is_workbook_stream (cf_walk compound)) = Some path"
    using walk_path [OF walk] path by simp
  then have "stream_rest stream 0 = Inr workbook"
    using assms(3) compound stream by (auto simp: workbook_stream_def)
  moreover have "stream_rest stream 0 = Inr (bof @ rest)"
    using assms(2) compound stream bof rest unfolding steady_streams_def by blast
  ultimately show ?thesis using n reserved by (intro that) auto
qed

text \<open>
  C27: Memory for a BIFF8 workbook is reserved before it is parsed, and the reservation is
  enough. When the inspection of a source accepts it as XLS within the available budget, and
  the sheets of the workbook start at distinct worksheet substreams, then the source together
  with everything the parsed presentation keeps for all its sheets, at 96 bytes for a styled
  cell or a sized row or column and 64 bytes for a merged region, needs no more than the
  reservation, which is within the budget. (Two sheets that share an offset are counted once
  and kept twice, so the hypothesis is needed.)
\<close>

theorem preflight_covers_workbook:
  assumes "inspect_excel_source E X size_of_string bytes limits available = Inr i" and "ins_format i = Xls"
    and "steady_streams E"
    and "workbook_stream E bytes = Inr workbook" and "parse_biff8_bound_sheets workbook = Inr sheets"
    and "distinct (map bs_offset sheets)" and "\<forall>sheet \<in> set sheets. worksheet_at workbook (bs_offset sheet)"
    and "parse_biff8 key E F bytes limits = Inr p"
  shows "length bytes + sheets_bytes p \<le> ins_reserved_bytes i \<and> ins_reserved_bytes i \<le> available"
proof -
  have checked: "validate_biff8_container E bytes limits available = Inr (ins_reserved_bytes i)"
    using assms(1,2) unfolding inspect_excel_source_def
    by (auto split: if_splits excel_container.split_asm) (metis excel_container.exhaust)
  obtain n where n: "biff8_presentation_reservation workbook limits = Inr n"
      and room: "length bytes + n \<le> ins_reserved_bytes i" "ins_reserved_bytes i \<le> available"
    by (rule biff8_validated [OF checked assms(3,4)])
  obtain final where final: "preflight_records limits workbook 0 biff8_preflight_start = Inr final"
      and counted: "counted_bytes (bp_counts final) = Some n"
    using n unfolding biff8_presentation_reservation_def
    by (auto elim: ok_or.elims)
  obtain styles q where q: "rfold (biff8_sheet_into F workbook styles limits) empty_presentation sheets = Inr q"
      and p: "wbp_sheets p = wbp_sheets q"
    using assms(8) by (auto simp: parse_biff8_def assms(4,5))
  let ?w = "offset_bytes F workbook styles limits"
  note gathered = sheets_gathered [OF q]
  have "ahead workbook 0 biff8_preflight_start q" if "worksheet_at workbook q" for q
    using that unfolding ahead_def worksheet_at_def by blast
  then have "\<forall>q \<in> bs_offset ` set sheets. ahead workbook 0 biff8_preflight_start q" using assms(7) by blast
  from offsets_covered [OF final _ this, of F styles] gathered
  have "(\<Sum>q \<in> bs_offset ` set sheets. ?w q) \<le> n"
    using counted_bytes_Some [OF counted] by auto
  moreover have "(\<Sum>sheet \<leftarrow> sheets. ?w (bs_offset sheet)) = (\<Sum>q \<in> bs_offset ` set sheets. ?w q)"
    using sum_list_distinct_conv_sum_set [OF assms(6), of ?w] by (simp add: comp_def)
  moreover have "sheets_bytes (empty_presentation :: 'a workbook_presentation) = 0"
    by (simp add: sheets_bytes_def empty_presentation_def)
  moreover have "sheets_bytes p = sheets_bytes q" by (simp add: sheets_bytes_def p)
  ultimately show ?thesis using gathered room by simp
qed

text \<open>The workbook of one styled cell: a compound file of which only the signature is a source.\<close>

definition styled_source :: "byte list" where
  "styled_source = cfb_signature"

lemma styled_length: "length styled_workbook = 71"
  by (simp add: styled_workbook_def centered_xf_def)

lemma default_limits:
  "max_styles excel_limits_default = 65536" "max_styled_cells excel_limits_default = 1000000"
  "max_cfb_entries excel_limits_default = 10000" "max_cfb_stream_bytes excel_limits_default = 536870912"
  "max_source_bytes excel_limits_default = 134217728"
  by (simp_all add: excel_limits_default_def)

definition styled_globals_part :: "(nat \<times> byte list) list" where
  "styled_globals_part = [(0x0809, [0, 6, 5, 0]), (0xE0, centered_xf), (0x85, [49, 0, 0, 0, 0, 0, 1, 0, 83]), (0x0A, [])]"

lemma styled_worksheet: "worksheet_at styled_workbook 49"
proof -
  note walk = records_between.simps [of styled_workbook]
  have "records_between styled_workbook 0 49 = Some styled_globals_part"
    by (simp add: walk [of 0] walk [of 8] walk [of 32] walk [of 45] styled_records styled_globals_part_def)
  moreover have "0x0A \<in> fst ` set styled_globals_part" by (simp add: styled_globals_part_def)
  moreover have "records_between styled_workbook 57 67 = Some [(0x0201, [0, 0, 0, 0, 0, 0])]"
    by (simp add: walk [of 57] styled_records)
  moreover have "u16_at [0, 6, 0x10, 0] 2 = Some 0x10" by (simp add: u16_at_def bytes_at_def)
  ultimately show ?thesis
    unfolding worksheet_at_def
    by (intro exI [of _ styled_globals_part] exI [of _ "[0, 6, 0x10, 0]"] exI [of _ 57]
        exI [of _ "[(0x0201, [0, 0, 0, 0, 0, 0])]"] exI [of _ 67] exI [of _ "[]"] exI [of _ 71])
      (simp add: styled_records)
qed

lemma styled_reservation: "biff8_presentation_reservation styled_workbook excel_limits_default = Inr 608"
proof -
  note walk = preflight_records.simps [of excel_limits_default styled_workbook]
  have same: "next_biff_record styled_workbook p = Inr r \<Longrightarrow> next_biff8_preflight_record styled_workbook p = Inr r" for p r
    by (simp add: preflight_record_same)
  note records = styled_records [THEN same]
  have "next_biff8_preflight_record styled_workbook 71 = Inr None"
    by (simp add: next_biff8_preflight_record_def styled_length)
  with records show ?thesis
    by (simp add: biff8_presentation_reservation_def biff8_preflight_start_def walk [of 0] walk [of 8] walk [of 32]
      walk [of 45] walk [of 49] walk [of 57] walk [of 67] walk [of 71] preflight_record_def preflight_global_def
      count_global_style_def count_up_def u64_max_def default_limits preflight_sheet_record_def
      preflight_styled_def biff8_styled_cells_in_record_def biff8_cell_record_def count_sheet_def
      u16_at_def bytes_at_def counted_bytes_def)
qed

lemma styled_stream: "workbook_stream styled_containers styled_source = Inr styled_workbook"
  by (simp add: workbook_stream_def styled_containers_def styled_compound_def is_workbook_stream_def with_reason_def
    eq_ignore_ascii_case_def)

lemma styled_accepted:
  assumes "687 \<le> available"
  shows "inspect_excel_source styled_containers merged_xml 24 styled_source excel_limits_default available =
     Inr \<lparr>ins_format = Xls, ins_reserved_bytes = 687\<rparr>"
proof -
  have limits: "excel_limits_validate excel_limits_default = Inr ()"
    by (simp add: excel_limits_validate_def excel_limits_default_def)
  have container: "recognize_excel_container styled_source = Inr CompoundFile"
    by (simp add: recognize_excel_container_def styled_source_def starts_with_def)
  have walk: "rfold (walk_cfb_entry excel_limits_default)
      \<lparr>cw_entry_count = 0, cw_stream_bytes = 0, cw_workbook_path = None, cw_encrypted = False\<rparr> (cf_walk styled_compound) =
      Inr \<lparr>cw_entry_count = 1, cw_stream_bytes = 71, cw_workbook_path = Some ''/Workbook'', cw_encrypted = False\<rparr>"
    by (simp add: styled_compound_def walk_cfb_entry_def count_up_def u64_max_def default_limits styled_length
      eq_ignore_ascii_case_def ascii_lower_def)
  have bof: "check_bof (take 8 styled_workbook) = Inr ()"
    by (simp add: check_bof_def styled_workbook_def u16_at_def bytes_at_def or_zero_def Let_def)
  have streams: "compound_file_open styled_containers styled_source = Inr styled_compound"
    "cf_open_stream styled_compound path = Inr \<lparr>stream_exact = (\<lambda>n. Inr (take n styled_workbook)),
       stream_rest = (\<lambda>n. Inr (drop n styled_workbook))\<rparr>" for path
    by (simp_all add: styled_containers_def styled_compound_def)
  have bytes: "length styled_source = 8" by (simp add: styled_source_def cfb_signature_def)
  have "validate_biff8_container styled_containers styled_source excel_limits_default available = Inr 687"
    using assms by (simp add: validate_biff8_container_def with_reason_def streams walk bof styled_reservation Let_def bytes
      checked_reservation_bytes_def ensure_reservation_budget_def u64_max_def)
  then show ?thesis
    by (simp add: inspect_excel_source_def limits container default_limits bytes)
qed

lemma styled_presentation:
  "\<exists>p. parse_biff8 id styled_containers unit_floats styled_source excel_limits_default = Inr p \<and>
    wbp_sheets p = [(''S'', styled_layout)]"
proof -
  have room: "0 < max_styles excel_limits_default" by (simp add: excel_limits_default_def)
  have count: "length (bg_xfs centered_globals) = 1" by (simp add: centered_globals_def)
  obtain table where table: "parse_biff8_styles id unit_floats styled_workbook excel_limits_default = Inr table"
      and raw: "st_raw_to_deduplicated table = [Some 0]"
    using centered_style(1) room
    by (simp add: parse_biff8_styles_def styled_globals count deduplicate_styles_def deduplicate_style_def
      empty_style_table_def Let_def not_le)
  then show ?thesis
    by (simp add: parse_biff8_def styled_stream styled_sheets styled_sheet biff8_sheet_into_def insert_sheet_def
      empty_presentation_def)
qed

theorem preflight_covers_workbook_witness:
  "\<exists>p. parse_biff8 id styled_containers unit_floats styled_source excel_limits_default = Inr p \<and>
    wbp_sheets p = [(''S'', styled_layout)] \<and> sheets_bytes p \<le> 679"
proof -
  obtain p where p: "parse_biff8 id styled_containers unit_floats styled_source excel_limits_default = Inr p"
      and sheets: "wbp_sheets p = [(''S'', styled_layout)]"
    using styled_presentation by blast
  have "steady_streams styled_containers"
    by (auto simp: steady_streams_def styled_containers_def styled_compound_def)
  from preflight_covers_workbook [OF styled_accepted [OF order_refl] _ this styled_stream styled_sheets _ _ p] styled_worksheet
  have "sheets_bytes p \<le> 679" by (simp add: styled_source_def cfb_signature_def)
  with p sheets show ?thesis by blast
qed

end
