(* ===== verification/Excel_Cells.thy ===== *)
theory Excel_Cells
  imports Excel_Presentation A1_References String_Builder Batch_Pool
begin

text \<open>
  crates/tabulark-excel-wasm/src/lib.rs: what the runtime does with one worksheet. The
  worksheets of a workbook and their shapes, the memory a worksheet needs, its metadata, the
  display text of a cell, and how a range of cells becomes a batch. The values are those of
  the calamine reader, seen through the constructors the code matches on and the methods it
  calls; the text of a float is a parameter.
\<close>

section \<open>Values\<close>

record owned_string =
  os_text :: string
  os_capacity :: nat

text \<open>A date as the answers of its methods: year, month, day, hour, minute, second, millisecond.\<close>

record 'f excel_datetime =
  dt_is_duration :: bool
  dt_as_f64 :: 'f
  dt_ymd_hms_milli :: "nat \<times> nat \<times> nat \<times> nat \<times> nat \<times> nat \<times> nat"

datatype 'f cell_data =
    DataInt int
  | DataFloat 'f
  | DataString owned_string
  | DataBool bool
  | DataDateTime "'f excel_datetime"
  | DataDateTimeIso owned_string
  | DataDurationIso owned_string
  | DataError string
  | DataEmpty

record 'v cell_range =
  cr_start :: "(nat \<times> nat) option"
  cr_end :: "(nat \<times> nat) option"
  cr_get_value :: "nat \<times> nat \<Rightarrow> 'v option"
  cr_used_cells :: "(nat \<times> nat \<times> 'v) list"

datatype sheet_type = WorkSheet | DialogSheet | MacroSheet | ChartSheet | VbaModule

record calamine_sheet =
  cs_name :: string
  cs_typ :: sheet_type
  cs_visible :: sheet_visibility

section \<open>Worksheets of a workbook\<close>

fun sheet_type_name :: "sheet_type \<Rightarrow> string" where
  "sheet_type_name WorkSheet = ''worksheet''"
| "sheet_type_name DialogSheet = ''dialog sheet''"
| "sheet_type_name MacroSheet = ''macro sheet''"
| "sheet_type_name ChartSheet = ''chart sheet''"
| "sheet_type_name VbaModule = ''VBA module''"

definition quote_mark :: char where
  "quote_mark = CHR 0x27"

definition describe_sheet ::
    "excel_limits \<Rightarrow> excel_table_descriptor list \<times> excel_warning list \<Rightarrow> nat \<times> calamine_sheet \<Rightarrow>
      (excel_table_descriptor list \<times> excel_warning list) result" where
  "describe_sheet limits state item =
     (let (tables, warnings) = state; (workbook_ordinal, sheet) = item in
      if cs_typ sheet = WorkSheet
      then if length tables \<ge> max_worksheets limits
           then Inl (with_detail (with_detail (with_detail
                  (new_error ResourceLimit ''Excel workbook exceeds the configured worksheet limit'')
                  ''resource'' (DetailString ''worksheets''))
                  ''required'' (DetailNumber (saturating_add (length tables) 1)))
                  ''available'' (DetailNumber (max_worksheets limits)))
           else Inr (tables @ [\<lparr>xd_id = ''sheet-'' @ nat_to_dec (length tables), xd_name = cs_name sheet,
                       xd_workbook_ordinal = workbook_ordinal, xd_visibility = cs_visible sheet\<rparr>], warnings)
      else if length warnings < max_warnings limits
      then Inr (tables, warnings @ [\<lparr>xw_kind = SkippedSheet,
             xw_message = ''sheet '' @ [quote_mark] @ cs_name sheet @ [quote_mark] @ '' is a '' @
               sheet_type_name (cs_typ sheet) @ '' and is not exposed as a table'',
             xw_table_id = None, xw_row = None, xw_column = None\<rparr>])
      else Inr (tables, warnings))"

definition describe_tables ::
    "calamine_sheet list \<Rightarrow> excel_limits \<Rightarrow> (excel_table_descriptor list \<times> excel_warning list) result" where
  "describe_tables sheets limits = rfold (describe_sheet limits) ([], []) (enumerate 0 sheets)"

section \<open>Shape, reservation, metadata\<close>

record sheet_shape =
  ss_rows :: nat
  ss_columns :: nat

definition validate_sheet_shape :: "nat \<Rightarrow> nat \<Rightarrow> excel_limits \<Rightarrow> sheet_shape result" where
  "validate_sheet_shape rows columns limits =
     (if rows > max_worksheet_rows limits
      then Inl (with_detail (with_detail (with_detail
             (new_error ResourceLimit ''Excel worksheet exceeds the configured row limit'')
             ''resource'' (DetailString ''worksheet-rows'')) ''required'' (DetailNumber rows))
             ''available'' (DetailNumber (max_worksheet_rows limits)))
      else if columns > max_worksheet_columns limits
      then Inl (with_detail (with_detail (with_detail
             (new_error ResourceLimit ''Excel worksheet exceeds the configured column limit'')
             ''resource'' (DetailString ''worksheet-columns'')) ''required'' (DetailNumber columns))
             ''available'' (DetailNumber (max_worksheet_columns limits)))
      else
        rbind (ok_or (checked_mul rows columns)
          (new_error ResourceLimit ''Excel worksheet cell extent overflows'')) (\<lambda>cells.
        if cells > max_worksheet_cells limits
        then Inl (with_detail (with_detail (with_detail
               (new_error ResourceLimit ''Excel worksheet exceeds the configured rectangular cell limit'')
               ''resource'' (DetailString ''worksheet-cells'')) ''required'' (DetailNumber cells))
               ''available'' (DetailNumber (max_worksheet_cells limits)))
        else Inr \<lparr>ss_rows = rows, ss_columns = columns\<rparr>))"

definition sheet_shape_of ::
    "'v cell_range \<Rightarrow> (nat \<times> nat) option \<Rightarrow> excel_limits \<Rightarrow> sheet_shape result" where
  "sheet_shape_of cells dimensions limits =
     (let (rows, columns) = (case cr_end cells of
            Some (row, column) \<Rightarrow> (row + 1, column + 1) | None \<Rightarrow> (0, 0));
          (rows, columns) = (case dimensions of
            Some (presentation_rows, presentation_columns) \<Rightarrow>
              (max rows presentation_rows, max columns presentation_columns)
          | None \<Rightarrow> (rows, columns))
      in validate_sheet_shape rows columns limits)"

record worksheet_reservation =
  wr_retained_bytes :: nat
  wr_open_bytes :: nat

text \<open>The sizes the compiler gives a value and an owned string.\<close>

record cell_sizes =
  size_of_data :: nat
  size_of_string :: nat

definition worksheet_reservation_of :: "cell_sizes \<Rightarrow> sheet_shape \<Rightarrow> worksheet_reservation result" where
  "worksheet_reservation_of S shape =
     rbind (ok_or (checked_mul (ss_rows shape) (ss_columns shape))
       (new_error ResourceLimit ''Excel worksheet cell reservation overflows'')) (\<lambda>cells.
     rbind (ok_or (checked_mul cells (size_of_data S))
       (new_error ResourceLimit ''Excel worksheet data reservation overflows'')) (\<lambda>retained_bytes.
     rbind (ok_or (checked_mul cells (size_of_string S))
       (new_error ResourceLimit ''Excel worksheet formula reservation overflows'')) (\<lambda>formula_bytes.
     rbind (ok_or (checked_add retained_bytes formula_bytes)
       (new_error ResourceLimit ''Excel worksheet open reservation overflows'')) (\<lambda>open_bytes.
     Inr \<lparr>wr_retained_bytes = retained_bytes, wr_open_bytes = open_bytes\<rparr>))))"

fun heap_capacity :: "'f cell_data \<Rightarrow> nat" where
  "heap_capacity (DataString s) = os_capacity s"
| "heap_capacity (DataDateTimeIso s) = os_capacity s"
| "heap_capacity (DataDurationIso s) = os_capacity s"
| "heap_capacity _ = 0"

definition heap_bytes :: "('v \<Rightarrow> nat) \<Rightarrow> string \<Rightarrow> 'v cell_range \<Rightarrow> nat result" where
  "heap_bytes capacity message cells =
     rfold (\<lambda>bytes (_, _, v). ok_or (checked_add bytes (capacity v)) (new_error ResourceLimit message))
       0 (cr_used_cells cells)"

definition worksheet_reservation_with_contents ::
    "cell_sizes \<Rightarrow> sheet_shape \<Rightarrow> 'f cell_data cell_range \<Rightarrow> owned_string cell_range \<Rightarrow> worksheet_reservation result" where
  "worksheet_reservation_with_contents S shape vals formulas =
     rbind (worksheet_reservation_of S shape) (\<lambda>reservation.
     rbind (heap_bytes heap_capacity ''Excel worksheet value-string reservation overflows'' vals) (\<lambda>value_heap_bytes.
     rbind (heap_bytes os_capacity ''Excel worksheet formula-string reservation overflows'' formulas) (\<lambda>formula_heap_bytes.
     rbind (ok_or (checked_add (wr_retained_bytes reservation) value_heap_bytes)
       (new_error ResourceLimit ''Excel retained worksheet reservation overflows'')) (\<lambda>retained_bytes.
     rbind (ok_or (Option.bind (checked_add (wr_open_bytes reservation) value_heap_bytes)
         (\<lambda>bytes. checked_add bytes formula_heap_bytes))
       (new_error ResourceLimit ''Excel worksheet open string reservation overflows'')) (\<lambda>open_bytes.
     Inr \<lparr>wr_retained_bytes = retained_bytes, wr_open_bytes = open_bytes\<rparr>)))))"

definition excel_column_schema :: "nat \<Rightarrow> column_schema result" where
  "excel_column_schema index =
     rbind (excel_column_name index) (\<lambda>name.
     column_schema_new (CHR ''c'' # nat_to_dec index) name index TUtf8 True)"

definition build_metadata :: "excel_table_descriptor \<Rightarrow> sheet_shape \<Rightarrow> table_metadata result" where
  "build_metadata descriptor shape =
     rbind (rcollect excel_column_schema [0..<ss_columns shape]) (\<lambda>columns.
     rbind (axis_exact (ss_rows shape)) (\<lambda>rows_extent.
     rbind (axis_exact (ss_columns shape)) (\<lambda>columns_extent.
     rbind (schema_new 0 columns) (\<lambda>schema.
     Inr (table_metadata_new (xd_id descriptor) (xd_name descriptor) 0
       \<lparr>extent_rows = rows_extent, extent_columns = columns_extent\<rparr> schema
       (capabilities_spreadsheet FullAccess))))))"

section \<open>Display text\<close>

definition is_empty_cell :: "'f cell_data option \<Rightarrow> bool" where
  "is_empty_cell v \<longleftrightarrow> (case v of None \<Rightarrow> True | Some d \<Rightarrow> d = DataEmpty)"

definition missing_formula_cache_warnings ::
    "excel_table_descriptor \<Rightarrow> 'f cell_data cell_range \<Rightarrow> owned_string cell_range \<Rightarrow> nat \<Rightarrow> excel_warning list" where
  "missing_formula_cache_warnings descriptor vals formulas max_count =
     (let start = (case cr_start formulas of Some s \<Rightarrow> s | None \<Rightarrow> (0, 0));
          warning_of = (\<lambda>(relative_row, relative_column, formula).
            Option.bind (u32_try_from relative_row) (\<lambda>relative_row.
            Option.bind (u32_try_from relative_column) (\<lambda>relative_column.
            Option.bind (u32_try_from (fst start + relative_row)) (\<lambda>row.
            Option.bind (u32_try_from (snd start + relative_column)) (\<lambda>column.
            if os_text formula = [] \<or> \<not> is_empty_cell (cr_get_value vals (row, column)) then None
            else Some \<lparr>xw_kind = MissingFormulaCache,
                       xw_message = ''formula has no cached result and is exposed as null'',
                       xw_table_id = Some (xd_id descriptor), xw_row = Some row, xw_column = Some column\<rparr>)))));
          found = List.map_filter warning_of (cr_used_cells formulas)
      in if max_count = 0 then found else take max_count found)"

definition zero_padded :: "nat \<Rightarrow> nat \<Rightarrow> string" where
  "zero_padded width n = (let s = nat_to_dec n in replicate (width - length s) CHR ''0'' @ s)"

definition int_to_dec :: "int \<Rightarrow> string" where
  "int_to_dec i = (if i < 0 then CHR ''-'' # nat_to_dec (nat (- i)) else nat_to_dec (nat i))"

definition display_datetime :: "('f \<Rightarrow> string) \<Rightarrow> 'f excel_datetime \<Rightarrow> string" where
  "display_datetime show_f64 v =
     (if dt_is_duration v then show_f64 (dt_as_f64 v)
      else
        let (year, month, day, hour, minute, second, millisecond) = dt_ymd_hms_milli v;
            date = zero_padded 4 year @ ''-'' @ zero_padded 2 month @ ''-'' @ zero_padded 2 day;
            time = '' '' @ zero_padded 2 hour @ '':'' @ zero_padded 2 minute @ '':'' @ zero_padded 2 second
        in if hour = 0 \<and> minute = 0 \<and> second = 0 \<and> millisecond = 0 then date
           else if millisecond = 0 then date @ time
           else date @ time @ ''.'' @ zero_padded 3 millisecond)"

fun display_string :: "('f \<Rightarrow> string) \<Rightarrow> 'f cell_data \<Rightarrow> string option" where
  "display_string show_f64 DataEmpty = None"
| "display_string show_f64 (DataInt i) = Some (int_to_dec i)"
| "display_string show_f64 (DataFloat f) = Some (show_f64 f)"
| "display_string show_f64 (DataString s) = Some (os_text s)"
| "display_string show_f64 (DataBool b) = Some (if b then ''TRUE'' else ''FALSE'')"
| "display_string show_f64 (DataDateTime v) = Some (display_datetime show_f64 v)"
| "display_string show_f64 (DataDateTimeIso s) = Some (os_text s)"
| "display_string show_f64 (DataDurationIso s) = Some (os_text s)"
| "display_string show_f64 (DataError s) = Some s"

definition validate_range_request :: "range_request \<Rightarrow> sheet_shape \<Rightarrow> excel_limits \<Rightarrow> unit result" where
  "validate_range_request q shape limits =
     rbind (validate_public q) (\<lambda>_.
     rbind (cell_count q) (\<lambda>cells.
     if cells > max_excel_range_cells limits
     then Inl (with_detail (with_detail (with_detail
            (new_error ResourceLimit ''Excel range exceeds the configured cell limit'')
            ''resource'' (DetailString ''range-cells'')) ''required'' (DetailNumber cells))
            ''available'' (DetailNumber (max_excel_range_cells limits)))
     else
       rbind (column_end q) (\<lambda>column_limit.
       if column_limit > ss_columns shape
       then Inl (with_detail
              (new_error InvalidRange ''requested columns exceed the Excel worksheet schema'')
              ''schemaColumns'' (DetailNumber (ss_columns shape)))
       else Inr ())))"

end
