(* ===== verification/Excel_Reading.thy ===== *)
theory Excel_Reading
  imports Excel_Cells Excel_Styles
begin

text \<open>
  crates/tabulark-excel-wasm/src/lib.rs: reading a range of a worksheet into a batch. One
  builder per column grows cell by cell within the byte limit of the batch; cells a merged
  region hides are null.
\<close>

section \<open>Definitions\<close>

text \<open>\<open>StringColumnBuilder::append\<close>; a failed call is never followed by another on its builder.\<close>

definition excel_append ::
    "byte list option \<Rightarrow> nat \<Rightarrow> string_column_builder \<times> nat \<Rightarrow> (string_column_builder \<times> nat) result" where
  "excel_append v max_batch_bytes state =
     (let (b, batch_bytes) = state;
          validity_growth = (if cb_values b mod 8 = 0 then 1 else 0);
          value_bytes = length (value_data v)
      in
      rbind (ok_or (Option.bind (checked_add 4 validity_growth) (\<lambda>bytes. checked_add bytes value_bytes))
        (batch_limit_error max_batch_bytes)) (\<lambda>encoded_bytes.
      rbind (ok_or (checked_add batch_bytes encoded_bytes) (batch_limit_error max_batch_bytes)) (\<lambda>required.
      if required > max_batch_bytes
      then Inl (excel_resource_limit ''batch'' required max_batch_bytes
             ''Excel range response exceeds the configured byte limit'')
      else
        let data = cb_data b @ value_data v in
        rbind (ok_or (u32_try_from (length data))
          (new_error ResourceLimit ''one Excel string column exceeds the u32 offset limit'')) (\<lambda>offset.
        Inr (b\<lparr>cb_data := data,
               cb_validity := validity_mark (v \<noteq> None) (cb_values b) (cb_validity b),
               cb_offsets := cb_offsets b @ [offset],
               cb_values := cb_values b + 1\<rparr>, required)))))"

record 'f open_table =
  ot_source :: nat
  ot_descriptor :: excel_table_descriptor
  ot_metadata :: table_metadata
  ot_shape :: sheet_shape
  ot_range :: "'f cell_data cell_range"
  ot_reserved_bytes :: nat

text \<open>The body of the inner loop: one cell into the builder of its column.\<close>

definition append_cell ::
    "('f \<Rightarrow> string) \<Rightarrow> 'f cell_data cell_range \<Rightarrow> range_request \<Rightarrow> bool list \<Rightarrow> nat \<Rightarrow> nat \<Rightarrow> nat \<Rightarrow>
      string_column_builder list \<times> nat \<Rightarrow> nat \<Rightarrow> (string_column_builder list \<times> nat) result" where
  "append_cell show_f64 cells q hidden max_batch_bytes row_offset row state column_delta =
     (let (builders, batch_bytes) = state in
      rbind (ok_or (Option.bind (checked_mul row_offset (column_count q)) (\<lambda>v. checked_add v column_delta))
        (new_error ResourceLimit ''Excel merged-cell mask index overflows'')) (\<lambda>mask_index.
      rbind (ok_or (get_at hidden mask_index)
        (new_error ParseFailed ''Excel merged-cell mask does not align with the returned range'')) (\<lambda>suppress_value.
      rbind (ok_or (checked_add (column_start q) column_delta)
        (new_error InvalidRange ''Excel column coordinate overflows'')) (\<lambda>column.
      rbind (ok_or (u32_try_from column)
        (new_error ResourceLimit ''Excel column coordinate exceeds the supported worksheet grid'')) (\<lambda>column.
      let v = (if suppress_value then None
               else Option.bind (cr_get_value cells (row, column)) (display_string show_f64))
      in
      rbind (excel_append (map_option bytes_of_string v) max_batch_bytes (builders ! column_delta, batch_bytes)) (\<lambda>(b, n).
      Inr (builders[column_delta := b], n)))))))"

definition append_row ::
    "('f \<Rightarrow> string) \<Rightarrow> 'f cell_data cell_range \<Rightarrow> range_request \<Rightarrow> bool list \<Rightarrow> nat \<Rightarrow>
      string_column_builder list \<times> nat \<Rightarrow> nat \<Rightarrow> (string_column_builder list \<times> nat) result" where
  "append_row show_f64 cells q hidden max_batch_bytes state row_delta =
     rbind (ok_or (checked_add (row_start q) row_delta)
       (new_error InvalidRange ''Excel row coordinate overflows'')) (\<lambda>row.
     rbind (ok_or (u32_try_from row)
       (new_error ResourceLimit ''Excel row coordinate exceeds the supported worksheet grid'')) (\<lambda>row.
     rfold (append_cell show_f64 cells q hidden max_batch_bytes row_delta row) state [0..<length (fst state)]))"

definition excel_returned_rows :: "range_request \<Rightarrow> sheet_shape \<Rightarrow> nat" where
  "excel_returned_rows q shape =
     (if row_start q \<ge> ss_rows shape then 0 else min (row_count q) (ss_rows shape - row_start q))"

definition excel_read_range ::
    "('f \<Rightarrow> string) \<Rightarrow> 'f workbook_presentation \<Rightarrow> 'f open_table \<Rightarrow> range_request \<Rightarrow> excel_limits \<Rightarrow> nat \<Rightarrow>
      table_batch result" where
  "excel_read_range show_f64 presentation table q limits max_batch_bytes =
     rbind (validate_range_request q (ot_shape table) limits) (\<lambda>_.
     let returned_rows = excel_returned_rows q (ot_shape table) in
     rbind (range_request_new (row_start q) returned_rows (column_start q) (column_count q)) (\<lambda>returned_range.
     rbind (merged_non_anchor_mask presentation (ot_descriptor table) returned_range) (\<lambda>hidden.
     let columns = take (column_count q) (drop (column_start q) (schema_columns (meta_schema (ot_metadata table))));
         builders = map (\<lambda>column. builder_new (col_id column)) columns
     in
     rbind (ok_or (checked_mul (column_count q) 4) (batch_limit_error max_batch_bytes)) (\<lambda>batch_bytes.
     if batch_bytes > max_batch_bytes then Inl (batch_limit_error max_batch_bytes)
     else
       rbind (rfold (append_row show_f64 (ot_range table) q hidden max_batch_bytes) (builders, batch_bytes)
         [0..<returned_rows]) (\<lambda>(builders, _).
       rbind (rcollect builder_finish builders) (\<lambda>columns.
       Inr (table_batch_new (xd_id (ot_descriptor table)) (meta_revision (ot_metadata table))
         (schema_version (meta_schema (ot_metadata table))) returned_range
         (returned_rows = row_count q) columns)))))))"

section \<open>One cell\<close>

lemma excel_append_Inr:
  assumes "excel_append v max_bytes (b, n) = Inr (b', n')" and "builds b cid vs"
  shows "builds b' cid (vs @ [v]) \<and> n' + encoded_size vs = n + encoded_size (vs @ [v]) \<and> n' \<le> max_bytes"
  using assms marks_snoc [of "cb_validity b" vs v]
  by (auto simp: excel_append_def builds_def encoded_size_snoc column_offsets_snoc column_data_snoc Let_def
    bind_eq_Some_conv split: if_splits)

lemma excel_append_ok:
  assumes "builds b cid vs" and "max_bytes \<le> u32_max"
    and "n + encoded_size (vs @ [v]) \<le> max_bytes + encoded_size vs" and "length (column_data vs) \<le> n"
  shows "\<exists>b' n'. excel_append v max_bytes (b, n) = Inr (b', n')"
  using assms
  by (auto simp: excel_append_def builds_def encoded_size_snoc Let_def u32_max_def u64_max_def)

section \<open>The grid\<close>

text \<open>The text of a cell of the request, or null.\<close>

definition cell_text ::
    "('f \<Rightarrow> string) \<Rightarrow> 'f cell_data cell_range \<Rightarrow> range_request \<Rightarrow> bool list \<Rightarrow> nat \<Rightarrow> nat \<Rightarrow> byte list option" where
  "cell_text show_f64 cells q hidden i j =
     (if hidden ! (i * column_count q + j) then None
      else map_option bytes_of_string
        (Option.bind (cr_get_value cells (row_start q + i, column_start q + j)) (display_string show_f64)))"

text \<open>Builders holding the first rows of every column, and one more cell in the first columns.\<close>

definition grid_bytes :: "(nat \<Rightarrow> nat \<Rightarrow> byte list option) \<Rightarrow> nat \<Rightarrow> nat \<Rightarrow> nat \<Rightarrow> nat" where
  "grid_bytes text rows columns upto_column =
     4 * columns + (\<Sum>j<columns. encoded_size (map (\<lambda>i. text i j) [0..<(if j < upto_column then Suc rows else rows)]))"

definition holds_grid ::
    "(nat \<Rightarrow> nat \<Rightarrow> byte list option) \<Rightarrow> (nat \<Rightarrow> string) \<Rightarrow> nat \<Rightarrow> nat \<Rightarrow> nat \<Rightarrow> string_column_builder list \<times> nat \<Rightarrow> bool" where
  "holds_grid text ids rows columns upto_column state \<longleftrightarrow>
     length (fst state) = columns \<and> snd state = grid_bytes text rows columns upto_column \<and>
     (\<forall>j < columns. builds (fst state ! j) (ids j) (map (\<lambda>i. text i j) [0..<(if j < upto_column then Suc rows else rows)]))"

lemma grid_bytes_Suc:
  assumes "upto_column < columns"
  shows "grid_bytes text rows columns (Suc upto_column) + encoded_size (map (\<lambda>i. text i upto_column) [0..<rows]) =
    grid_bytes text rows columns upto_column + encoded_size (map (\<lambda>i. text i upto_column) [0..<Suc rows])"
proof -
  let ?size = "\<lambda>upto_column j. encoded_size (map (\<lambda>i. text i j) [0..<(if j < upto_column then Suc rows else rows)])"
  have split: "(\<Sum>j<columns. f j) = f upto_column + (\<Sum>j \<in> {..<columns} - {upto_column}. f j)" for f :: "nat \<Rightarrow> nat"
    using assms by (intro sum.remove) auto
  have "(\<Sum>j \<in> {..<columns} - {upto_column}. ?size (Suc upto_column) j) = (\<Sum>j \<in> {..<columns} - {upto_column}. ?size upto_column j)"
    by (rule sum.cong) auto
  then show ?thesis unfolding grid_bytes_def split by (simp del: upt_Suc)
qed

lemma grid_bytes_row: "grid_bytes text rows columns columns = grid_bytes text (Suc rows) columns 0"
  by (simp add: grid_bytes_def del: upt_Suc)

lemma grid_bytes_mono:
  assumes "Suc rows \<le> final"
  shows "grid_bytes text rows columns upto_column \<le> grid_bytes text final columns 0"
proof -
  have "encoded_size (map (\<lambda>i. text i j) [0..<(if j < upto_column then Suc rows else rows)]) \<le>
      encoded_size (map (\<lambda>i. text i j) [0..<final])" for j
  proof -
    let ?m = "if j < upto_column then Suc rows else rows"
    have "[0..<final] = [0..<?m] @ [?m..<final]" using assms upt_add_eq_append [of 0 ?m "final - ?m"] by (simp split: if_splits)
    then show ?thesis using encoded_size_mono by (metis map_append)
  qed
  then show ?thesis unfolding grid_bytes_def by (intro add_left_mono sum_mono) simp
qed

lemma holds_grid_row: "holds_grid text ids rows columns columns state \<longleftrightarrow> holds_grid text ids (Suc rows) columns 0 state"
  by (simp add: holds_grid_def grid_bytes_row del: upt_Suc)

section \<open>The loops\<close>

text \<open>What the loops rely on: the mask covers the returned rows and the coordinates fit 32 bits.\<close>

definition readable :: "range_request \<Rightarrow> bool list \<Rightarrow> nat \<Rightarrow> nat \<Rightarrow> bool" where
  "readable q hidden rows max_bytes \<longleftrightarrow> length hidden = rows * column_count q \<and> rows * column_count q \<le> u64_max \<and>
     (rows = 0 \<or> row_start q + rows \<le> u32_max) \<and> column_start q + column_count q \<le> u32_max \<and> max_bytes \<le> u32_max"

lemma append_cell_reads:
  assumes "readable q hidden rows max_bytes" and "r < rows" and "k < column_count q"
  shows "append_cell show_f64 cells q hidden max_bytes r (row_start q + r) (bs, n) k =
    rbind (excel_append (cell_text show_f64 cells q hidden r k) max_bytes (bs ! k, n)) (\<lambda>(b, n). Inr (bs[k := b], n))"
proof -
  have index: "r * column_count q + k < rows * column_count q" by (rule grid_index_less [OF assms(2,3)])
  then have "Option.bind (checked_mul r (column_count q)) (\<lambda>v. checked_add v k) = Some (r * column_count q + k)"
    using assms(1) by (simp add: readable_def bind_eq_Some_conv)
  moreover have "get_at hidden (r * column_count q + k) = Some (hidden ! (r * column_count q + k))"
    using index assms(1) by (simp add: readable_def get_at_def)
  moreover have "checked_add (column_start q) k = Some (column_start q + k)" "u32_try_from (column_start q + k) = Some (column_start q + k)"
    using assms(1,3) by (auto simp: readable_def u32_max_def u64_max_def u32_try_from_def checked_add_def)
  ultimately show ?thesis
    by (simp add: append_cell_def cell_text_def)
qed

lemma append_cell_step:
  assumes "readable q hidden rows max_bytes" and "r < rows" and "k < column_count q"
    and holds: "holds_grid (cell_text show_f64 cells q hidden) ids r (column_count q) k state"
  shows "case append_cell show_f64 cells q hidden max_bytes r (row_start q + r) state k of
      Inr state' \<Rightarrow> holds_grid (cell_text show_f64 cells q hidden) ids r (column_count q) (Suc k) state' \<and> snd state' \<le> max_bytes
    | Inl e \<Rightarrow> grid_bytes (cell_text show_f64 cells q hidden) r (column_count q) (Suc k) > max_bytes"
proof -
  obtain bs n where state: "state = (bs, n)" by force
  let ?text = "cell_text show_f64 cells q hidden" and ?C = "column_count q"
  let ?vs = "map (\<lambda>i. ?text i k) [0..<r]"
  have n: "n = grid_bytes ?text r ?C k" and b: "builds (bs ! k) (ids k) ?vs"
    using holds assms(3) by (auto simp: holds_grid_def state)
  have next_vs: "map (\<lambda>i. ?text i k) [0..<Suc r] = ?vs @ [?text r k]" by simp
  note grown = grid_bytes_Suc [OF assms(3), of ?text r, unfolded next_vs, folded n]
  note reads = append_cell_reads [OF assms(1-3), of show_f64 cells bs n]
  show ?thesis
  proof (cases "excel_append (?text r k) max_bytes (bs ! k, n)")
    case (Inl e)
    have "encoded_size ?vs \<le> grid_bytes ?text r ?C k"
      using member_le_sum [of k "{..<?C}" "\<lambda>j. encoded_size (map (\<lambda>i. ?text i j) [0..<(if j < k then Suc r else r)])"] assms(3)
      by (simp add: grid_bytes_def del: upt_Suc)
    then have "length (column_data ?vs) \<le> n" by (simp add: n encoded_size_def)
    then have "\<not> n + encoded_size (?vs @ [?text r k]) \<le> max_bytes + encoded_size ?vs"
      using excel_append_ok [OF b, of max_bytes n "?text r k"] Inl assms(1) by (auto simp: readable_def)
    then show ?thesis using grown by (simp add: state reads Inl)
  next
    case (Inr result)
    obtain b' n' where result: "result = (b', n')" by force
    note appended = excel_append_Inr [OF Inr [unfolded result] b]
    then have "n' = grid_bytes ?text r ?C (Suc k)" using grown by simp
    moreover have "builds (bs[k := b'] ! j) (ids j) (map (\<lambda>i. ?text i j) [0..<(if j < Suc k then Suc r else r)])"
      if "j < ?C" for j
      using that holds appended next_vs by (cases "j = k") (auto simp: holds_grid_def state less_Suc_eq simp del: upt_Suc)
    ultimately have "holds_grid ?text ids r ?C (Suc k) (bs[k := b'], n')"
      using holds by (simp add: holds_grid_def state del: upt_Suc)
    moreover have "append_cell show_f64 cells q hidden max_bytes r (row_start q + r) state k = Inr (bs[k := b'], n')"
      unfolding state reads Inr result by simp
    ultimately show ?thesis using appended by simp
  qed
qed

text \<open>A whole row, and all rows.\<close>

lemma append_cells_step:
  assumes "readable q hidden rows max_bytes" and "r < rows" and "k \<le> column_count q"
    and holds: "holds_grid (cell_text show_f64 cells q hidden) ids r (column_count q) 0 state"
  shows "case rfold (append_cell show_f64 cells q hidden max_bytes r (row_start q + r)) state [0..<k] of
      Inr state' \<Rightarrow> holds_grid (cell_text show_f64 cells q hidden) ids r (column_count q) k state' \<and>
        (k > 0 \<longrightarrow> snd state' \<le> max_bytes)
    | Inl e \<Rightarrow> grid_bytes (cell_text show_f64 cells q hidden) (Suc r) (column_count q) 0 > max_bytes"
  using assms(3)
proof (induction k)
  case 0
  then show ?case using holds by simp
next
  case (Suc k)
  let ?f = "append_cell show_f64 cells q hidden max_bytes r (row_start q + r)"
  have k: "k < column_count q" using Suc.prems by simp
  show ?case
  proof (cases "rfold ?f state [0..<k]")
    case (Inl e)
    then show ?thesis using Suc by (simp add: rfold_append)
  next
    case (Inr mid)
    then have "holds_grid (cell_text show_f64 cells q hidden) ids r (column_count q) k mid" using Suc by simp
    note one = append_cell_step [OF assms(1,2) k this]
    have "grid_bytes (cell_text show_f64 cells q hidden) r (column_count q) (Suc k) \<le>
        grid_bytes (cell_text show_f64 cells q hidden) (Suc r) (column_count q) 0"
      by (rule grid_bytes_mono) simp
    then show ?thesis using one Inr by (cases "?f mid k") (simp_all add: rfold_append)
  qed
qed

lemma append_row_step:
  assumes "readable q hidden rows max_bytes" and "r < rows"
    and holds: "holds_grid (cell_text show_f64 cells q hidden) ids r (column_count q) 0 state"
    and room: "4 * column_count q \<le> max_bytes" "snd state \<le> max_bytes"
  shows "case append_row show_f64 cells q hidden max_bytes state r of
      Inr state' \<Rightarrow> holds_grid (cell_text show_f64 cells q hidden) ids (Suc r) (column_count q) 0 state' \<and>
        snd state' \<le> max_bytes
    | Inl e \<Rightarrow> grid_bytes (cell_text show_f64 cells q hidden) (Suc r) (column_count q) 0 > max_bytes"
proof -
  have "checked_add (row_start q) r = Some (row_start q + r)" "u32_try_from (row_start q + r) = Some (row_start q + r)"
    using assms(1,2) by (auto simp: readable_def u32_max_def u64_max_def u32_try_from_def checked_add_def)
  moreover have "length (fst state) = column_count q" using holds by (simp add: holds_grid_def)
  ultimately have run: "append_row show_f64 cells q hidden max_bytes state r =
      rfold (append_cell show_f64 cells q hidden max_bytes r (row_start q + r)) state [0..<column_count q]"
    by (simp add: append_row_def)
  show ?thesis
    using append_cells_step [OF assms(1,2) order_refl holds] room(2)
    unfolding run holds_grid_row by (cases "column_count q = 0") (auto split: sum.splits)
qed

lemma append_rows_step:
  assumes "readable q hidden rows max_bytes" and "m \<le> rows" and room: "4 * column_count q \<le> max_bytes"
    and holds: "holds_grid (cell_text show_f64 cells q hidden) ids 0 (column_count q) 0 state"
  shows "case rfold (append_row show_f64 cells q hidden max_bytes) state [0..<m] of
      Inr state' \<Rightarrow> holds_grid (cell_text show_f64 cells q hidden) ids m (column_count q) 0 state' \<and>
        snd state' \<le> max_bytes
    | Inl e \<Rightarrow> grid_bytes (cell_text show_f64 cells q hidden) rows (column_count q) 0 > max_bytes"
  using assms(2)
proof (induction m)
  case 0
  have "snd state \<le> max_bytes" using holds room by (simp add: holds_grid_def grid_bytes_def encoded_size_def column_data_def div_ceil_def)
  then show ?case using holds by simp
next
  case (Suc m)
  let ?f = "append_row show_f64 cells q hidden max_bytes"
  show ?case
  proof (cases "rfold ?f state [0..<m]")
    case (Inl e)
    then show ?thesis using Suc by (simp add: rfold_append)
  next
    case (Inr mid)
    then have mid: "holds_grid (cell_text show_f64 cells q hidden) ids m (column_count q) 0 mid" "snd mid \<le> max_bytes"
      using Suc by simp_all
    have m: "m < rows" using Suc.prems by simp
    have "grid_bytes (cell_text show_f64 cells q hidden) (Suc m) (column_count q) 0 \<le>
        grid_bytes (cell_text show_f64 cells q hidden) rows (column_count q) 0"
    proof (cases "Suc m = rows")
      case False
      then show ?thesis using m by (intro grid_bytes_mono) simp
    qed simp
    then show ?thesis
      using append_row_step [OF assms(1) m mid(1) room mid(2)] Inr
      by (cases "?f mid m") (simp_all add: rfold_append)
  qed
qed

section \<open>The batch\<close>

lemma built_columns:
  assumes "build_metadata descriptor shape = Inr metadata"
  shows "length (schema_columns (meta_schema metadata)) = ss_columns shape" and
    "j < ss_columns shape \<Longrightarrow> col_id (schema_columns (meta_schema metadata) ! j) = CHR ''c'' # nat_to_dec j"
  using assms
  by (auto simp: build_metadata_def rcollect_ok schema_new_ok table_metadata_new_def excel_column_schema_def
    column_schema_new_ok simp del: upt_Suc)

text \<open>A cell of the sheet a merged region covers beside its anchor.\<close>

definition hidden_cell :: "'f workbook_presentation \<Rightarrow> excel_table_descriptor \<Rightarrow> nat \<Rightarrow> nat \<Rightarrow> bool" where
  "hidden_cell p descriptor row column \<longleftrightarrow> (\<exists>layout. sheet_layout p descriptor = Some layout \<and>
     (\<exists>region \<in> set (wp_merged_cells layout). region_covers region row column \<and> \<not> is_anchor region row column))"

lemma hidden_cells_mask:
  assumes "range_valid q" and "row_count q * column_count q \<le> u64_max"
    and apart: "\<And>layout. sheet_layout p descriptor = Some layout \<Longrightarrow> disjoint_regions q (wp_merged_cells layout)"
  shows "\<exists>hidden. merged_non_anchor_mask p descriptor q = Inr hidden \<and> length hidden = row_count q * column_count q \<and>
    (\<forall>i < row_count q. \<forall>j < column_count q.
       hidden ! (i * column_count q + j) = hidden_cell p descriptor (row_start q + i) (column_start q + j))"
proof (cases "sheet_layout p descriptor")
  case None
  have valid: "validate_public q = Inr ()" using assms(1) validate_public_ok [of q "()"] by (rule iffD2 [rotated])
  have "cell_count q = Inr (row_count q * column_count q)" using assms(2) by (simp add: cell_count_def)
  then show ?thesis using None valid grid_index_less
    by (simp add: merged_non_anchor_mask_def hidden_cell_def del: validate_public_ok)
next
  case (Some layout)
  then show ?thesis using merged_mask_run [OF Some assms(1,2)] apart [OF Some] by (auto simp: hidden_cell_def)
qed

lemma finished_columns:
  assumes holds: "holds_grid text ids rows columns 0 (builders, n)"
    and valid: "\<And>i j. i < rows \<Longrightarrow> j < columns \<Longrightarrow> utf8_valid (value_data (text i j))"
  shows "\<exists>finished. rcollect builder_finish builders = Inr finished \<and> length finished = columns \<and>
    (\<forall>j < columns. scb_column_id (finished ! j) = ids j \<and> scb_len (finished ! j) = rows \<and>
       (\<forall>i < rows. scb_value (finished ! j) i = Returns (Some (text i j))))"
proof -
  have "\<exists>c. builder_finish (builders ! j) = Inr c \<and> scb_column_id c = ids j \<and> scb_len c = rows \<and>
      (\<forall>i < rows. scb_value c i = Returns (Some (text i j)))" if j: "j < columns" for j
  proof -
    have "builds (builders ! j) (ids j) (map (\<lambda>i. text i j) [0..<rows])" using holds j by (simp add: holds_grid_def)
    moreover have "present_valid (map (\<lambda>i. text i j) [0..<rows])" using valid j by (simp add: present_valid_def)
    ultimately show ?thesis using builder_finish_ok by fastforce
  qed
  then obtain c where c: "\<And>j. j < columns \<Longrightarrow> builder_finish (builders ! j) = Inr (c j) \<and> scb_column_id (c j) = ids j \<and>
      scb_len (c j) = rows \<and> (\<forall>i < rows. scb_value (c j) i = Returns (Some (text i j)))" by metis
  have "length builders = columns" using holds by (simp add: holds_grid_def)
  then have "rcollect builder_finish builders = Inr (map c [0..<columns])" using c by (simp add: rcollect_ok)
  then show ?thesis using c by (intro exI [of _ "map c [0..<columns]"]) simp
qed

text \<open>The run of the whole operation.\<close>

lemma range_read_run:
  fixes table :: "'f open_table" and p :: "'f workbook_presentation" and show_f64 :: "'f \<Rightarrow> string" and q :: range_request
  defines "cell \<equiv> \<lambda>row column. if hidden_cell p (ot_descriptor table) row column then None
    else map_option bytes_of_string (Option.bind (cr_get_value (ot_range table) (row, column)) (display_string show_f64))"
    and "rows \<equiv> min (row_count q) (ss_rows (ot_shape table) - row_start q)"
  assumes "build_metadata (ot_descriptor table) (ot_shape table) = Inr (ot_metadata table)"
    and "ss_rows (ot_shape table) \<le> u32_max" and "ss_columns (ot_shape table) \<le> u32_max" and "max_bytes \<le> u32_max"
    and valid: "validate_range_request q (ot_shape table) limits = Inr ()"
    and apart: "\<And>layout. sheet_layout p (ot_descriptor table) = Some layout \<Longrightarrow>
      disjoint_regions (q\<lparr>row_count := rows\<rparr>) (wp_merged_cells layout)"
    and encoded: "\<And>row column. utf8_valid (value_data (cell row column))"
  shows "is_ok (excel_read_range show_f64 p table q limits max_bytes) =
      (4 * column_count q + (\<Sum>j < column_count q.
         encoded_size (map (\<lambda>i. cell (row_start q + i) (column_start q + j)) [0..<rows])) \<le> max_bytes) \<and>
    (\<forall>batch. excel_read_range show_f64 p table q limits max_bytes = Inr batch \<longrightarrow>
       tb_table_id batch = xd_id (ot_descriptor table) \<and>
       tb_range batch = q\<lparr>row_count := rows\<rparr> \<and> tb_complete batch = (rows = row_count q) \<and>
       length (tb_columns batch) = column_count q \<and>
       (\<forall>j < column_count q. scb_column_id (tb_columns batch ! j) = CHR ''c'' # nat_to_dec (column_start q + j) \<and>
          scb_len (tb_columns batch ! j) = rows \<and>
          (\<forall>i < rows. scb_value (tb_columns batch ! j) i =
             Returns (Some (cell (row_start q + i) (column_start q + j))))))"
proof -
  let ?shape = "ot_shape table" and ?C = "column_count q"
  let ?returned = "q\<lparr>row_count := rows\<rparr>"
  have limits: "range_valid q" "row_count q * column_count q \<le> u64_max" "column_start q + ?C \<le> ss_columns ?shape"
    using valid by (auto simp: validate_range_request_def cell_count_def range_valid_ends split: if_splits)
  have returned: "excel_returned_rows q ?shape = rows" by (simp add: excel_returned_rows_def rows_def)
  have "rows \<le> row_count q" by (simp add: rows_def)
  then have "rows * ?C \<le> row_count q * ?C" by (rule mult_le_mono1)
  then have small: "rows * ?C \<le> u64_max" using limits(2) by (rule order_trans)
  have rv: "range_valid ?returned" using limits(1) \<open>rows \<le> row_count q\<close> by (simp add: range_valid_def)
  have new: "range_request_new (row_start q) rows (column_start q) ?C = Inr ?returned"
    using rv by (simp add: range_request_new_ok)
  obtain hidden where hidden: "merged_non_anchor_mask p (ot_descriptor table) ?returned = Inr hidden"
      and "length hidden = rows * ?C"
      and flag: "\<And>i j. i < rows \<Longrightarrow> j < ?C \<Longrightarrow>
        hidden ! (i * ?C + j) = hidden_cell p (ot_descriptor table) (row_start q + i) (column_start q + j)"
    using hidden_cells_mask [OF rv, of p "ot_descriptor table"] small apart by auto
  have rows_end: "row_start q + rows \<le> u32_max \<or> rows = 0" using assms(4) by (auto simp: rows_def)
  have text_of: "cell_text show_f64 (ot_range table) q hidden i j = cell (row_start q + i) (column_start q + j)"
    if "i < rows" "j < ?C" for i j
    using flag [OF that] by (simp add: cell_text_def cell_def)
  let ?text = "cell_text show_f64 (ot_range table) q hidden"
  let ?ids = "\<lambda>j. CHR ''c'' # nat_to_dec (column_start q + j)"
  let ?builders = "map (\<lambda>column. builder_new (col_id column))
    (take ?C (drop (column_start q) (schema_columns (meta_schema (ot_metadata table)))))"
  let ?used = "4 * ?C + (\<Sum>j < ?C. encoded_size (map (\<lambda>i. cell (row_start q + i) (column_start q + j)) [0..<rows]))"
  have used: "grid_bytes ?text rows ?C 0 = ?used"
    unfolding grid_bytes_def by (intro arg_cong2 [of _ _ _ _ "(+)"] sum.cong refl arg_cong [of _ _ encoded_size]) (simp add: text_of)
  have start: "holds_grid ?text ?ids 0 ?C 0 (?builders, 4 * ?C)"
    using built_columns [OF assms(3)] limits(3) builds_new
    by (simp add: holds_grid_def grid_bytes_def encoded_size_def column_data_def div_ceil_def)
  have product: "checked_mul ?C 4 = Some (?C * 4)"
    using limits(3) assms(5) by (simp add: u32_max_def u64_max_def checked_mul_def)
  have ready: "readable q hidden rows max_bytes"
    using rows_end limits(3) assms(5,6) small \<open>length hidden = rows * ?C\<close> by (auto simp: readable_def)
  let ?loop = "rfold (append_row show_f64 (ot_range table) q hidden max_bytes) (?builders, 4 * ?C) [0..<rows]"
  have run: "excel_read_range show_f64 p table q limits max_bytes =
      (if 4 * ?C > max_bytes then Inl (batch_limit_error max_bytes)
       else rbind ?loop (\<lambda>(builders, _). rbind (rcollect builder_finish builders) (\<lambda>columns.
         Inr (table_batch_new (xd_id (ot_descriptor table)) (meta_revision (ot_metadata table))
           (schema_version (meta_schema (ot_metadata table))) ?returned (rows = row_count q) columns))))"
    unfolding excel_read_range_def valid returned Let_def rbind.simps new hidden product ok_or.simps
    by (simp add: mult.commute)
  show ?thesis
  proof (cases "4 * ?C > max_bytes")
    case True
    then show ?thesis unfolding run by simp
  next
    case False
    then have loop: "case ?loop of
        Inr state \<Rightarrow> holds_grid ?text ?ids rows ?C 0 state \<and> snd state \<le> max_bytes
      | Inl e \<Rightarrow> ?used > max_bytes"
      using append_rows_step [OF ready order_refl _ start] unfolding used by simp
    show ?thesis
    proof (cases ?loop)
      case (Inl e)
      then show ?thesis using loop False unfolding run by simp
    next
      case (Inr state)
      obtain builders n where state: "state = (builders, n)" by force
      have holds: "holds_grid ?text ?ids rows ?C 0 (builders, n)" and "n \<le> max_bytes" using loop Inr state by auto
      then have fits: "?used \<le> max_bytes" using used by (simp add: holds_grid_def)
      obtain finished where finished: "rcollect builder_finish builders = Inr finished" "length finished = ?C"
          "\<forall>j < ?C. scb_column_id (finished ! j) = ?ids j \<and> scb_len (finished ! j) = rows \<and>
             (\<forall>i < rows. scb_value (finished ! j) i = Returns (Some (?text i j)))"
        using finished_columns [OF holds] encoded text_of by auto
      have "excel_read_range show_f64 p table q limits max_bytes =
          Inr (table_batch_new (xd_id (ot_descriptor table)) (meta_revision (ot_metadata table))
            (schema_version (meta_schema (ot_metadata table))) ?returned (rows = row_count q) finished)"
        unfolding run using False Inr state finished(1) by simp
      then show ?thesis using fits finished(2,3) text_of by (simp add: table_batch_new_def)
    qed
  qed
qed

text \<open>
  Reading a range returns the sheet's cells. A valid request inside the columns of an open
  worksheet whose regions do not overlap there is answered exactly when its columns fit the
  byte limit of the batch. The batch then has the requested columns in order and the rows the
  sheet has of the request; it is complete when those are all rows; and each cell is null if
  a merged region hides it and the display text of the sheet's value otherwise.
\<close>

theorem excel_range_read_exact:
  fixes table :: "'f open_table" and p :: "'f workbook_presentation" and show_f64 :: "'f \<Rightarrow> string" and q :: range_request
  defines "cell \<equiv> \<lambda>row column. if hidden_cell p (ot_descriptor table) row column then None
    else map_option bytes_of_string (Option.bind (cr_get_value (ot_range table) (row, column)) (display_string show_f64))"
    and "rows \<equiv> min (row_count q) (ss_rows (ot_shape table) - row_start q)"
  assumes "build_metadata (ot_descriptor table) (ot_shape table) = Inr (ot_metadata table)"
    and "ss_rows (ot_shape table) \<le> u32_max" and "ss_columns (ot_shape table) \<le> u32_max" and "max_bytes \<le> u32_max"
    and valid: "validate_range_request q (ot_shape table) limits = Inr ()"
    and apart: "\<And>layout. sheet_layout p (ot_descriptor table) = Some layout \<Longrightarrow>
      disjoint_regions (q\<lparr>row_count := rows\<rparr>) (wp_merged_cells layout)"
    and encoded: "\<And>row column. utf8_valid (value_data (cell row column))"
  shows "is_ok (excel_read_range show_f64 p table q limits max_bytes) =
      (4 * column_count q + (\<Sum>j < column_count q.
         encoded_size (map (\<lambda>i. cell (row_start q + i) (column_start q + j)) [0..<rows])) \<le> max_bytes) \<and>
    (\<forall>batch. excel_read_range show_f64 p table q limits max_bytes = Inr batch \<longrightarrow>
       tb_table_id batch = xd_id (ot_descriptor table) \<and>
       tb_range batch = q\<lparr>row_count := rows\<rparr> \<and> tb_complete batch = (rows = row_count q) \<and>
       length (tb_columns batch) = column_count q \<and>
       (\<forall>j < column_count q. scb_column_id (tb_columns batch ! j) = CHR ''c'' # nat_to_dec (column_start q + j) \<and>
          scb_len (tb_columns batch ! j) = rows \<and>
          (\<forall>i < rows. scb_value (tb_columns batch ! j) i =
             Returns (Some (cell (row_start q + i) (column_start q + j))))))"
  unfolding cell_def rows_def
  by (rule range_read_run [OF assms(3-6) valid apart [unfolded rows_def] encoded [unfolded cell_def]])

text \<open>A sheet of four rows and three columns with one text, at the anchor of its merged region.\<close>

definition greeting_cells :: "unit cell_data cell_range" where
  "greeting_cells = \<lparr>cr_start = Some (0, 0), cr_end = Some (3, 2),
     cr_get_value = (\<lambda>at. if at = (1, 1) then Some (DataString \<lparr>os_text = ''hi'', os_capacity = 2\<rparr>) else Some DataEmpty),
     cr_used_cells = [(1, 1, DataString \<lparr>os_text = ''hi'', os_capacity = 2\<rparr>)]\<rparr>"

theorem excel_range_read_exact_witness:
  "\<exists>metadata batch. build_metadata data_sheet \<lparr>ss_rows = 4, ss_columns = 3\<rparr> = Inr metadata \<and>
    excel_read_range (\<lambda>_. []) merged_book \<lparr>ot_source = 1, ot_descriptor = data_sheet, ot_metadata = metadata,
        ot_shape = \<lparr>ss_rows = 4, ss_columns = 3\<rparr>, ot_range = greeting_cells, ot_reserved_bytes = 0\<rparr>
      \<lparr>row_start = 1, row_count = 2, column_start = 1, column_count = 2\<rparr> excel_limits_default 64 = Inr batch \<and>
    scb_value (tb_columns batch ! 0) 0 = Returns (Some (Some [0x68, 0x69])) \<and>
    scb_value (tb_columns batch ! 1) 0 = Returns (Some None)"
proof -
  let ?shape = "\<lparr>ss_rows = 4, ss_columns = 3\<rparr>"
  let ?q = "\<lparr>row_start = 1, row_count = 2, column_start = 1, column_count = 2\<rparr>"
  have "\<exists>metadata. build_metadata data_sheet ?shape = Inr metadata"
    by (simp add: build_metadata_def excel_column_schema_def excel_column_name_ok column_schema_new_def u64_max_def
      validate_safe_integer_def max_safe_integer_def axis_exact_def schema_new_def upt_rec)
  then obtain metadata where metadata: "build_metadata data_sheet ?shape = Inr metadata" ..
  let ?table = "\<lparr>ot_source = 1, ot_descriptor = data_sheet, ot_metadata = metadata, ot_shape = ?shape,
    ot_range = greeting_cells, ot_reserved_bytes = 0\<rparr>"
  have layout: "sheet_layout merged_book data_sheet = Some merged_layout"
    by (simp add: sheet_layout_def merged_book_def data_sheet_def)
  have valid: "validate_range_request ?q ?shape excel_limits_default = Inr ()"
    by (simp add: validate_range_request_def validate_public_def validate_safe_integer_def row_end_def column_end_def
      cell_count_def max_safe_integer_def u64_max_def excel_limits_default_def checked_end_def)
  have hidden: "hidden_cell merged_book data_sheet 1 2" "\<not> hidden_cell merged_book data_sheet 1 1"
      "hidden_cell merged_book data_sheet 2 1" "hidden_cell merged_book data_sheet 2 2"
    by (simp_all add: hidden_cell_def layout merged_layout_def region_covers_def is_anchor_def)
  let ?cell = "\<lambda>row column. if hidden_cell merged_book data_sheet row column then None
    else map_option bytes_of_string (Option.bind (cr_get_value greeting_cells (row, column)) (display_string (\<lambda>_. [])))"
  have cells: "?cell row column = (if row = 1 \<and> column = 1 then Some [0x68, 0x69] else None)" for row column
    using hidden by (auto simp: greeting_cells_def bytes_of_string_def)
  have apart: "disjoint_regions \<lparr>row_start = 1, row_count = min 2 (4 - 1), column_start = 1, column_count = 2\<rparr>
      (wp_merged_cells layout)" if "sheet_layout merged_book data_sheet = Some layout" for layout
  proof -
    have "layout = merged_layout" using that layout by simp
    then show ?thesis by (simp add: disjoint_regions_def merged_layout_def)
  qed
  have utf8: "utf8_valid (value_data (?cell row column))" for row column
    unfolding cells by (simp add: value_data_def utf8_step_def)
  have small: "4 \<le> u32_max" "3 \<le> u32_max" "64 \<le> u32_max" by (simp_all add: u32_max_def)
  note ex = excel_range_read_exact [of ?table 64 ?q excel_limits_default merged_book "\<lambda>_. []",
    unfolded open_table.select_convs range_request.simps sheet_shape.select_convs, OF metadata small valid apart utf8]
  have exact: "is_ok (excel_read_range (\<lambda>_. []) merged_book ?table ?q excel_limits_default 64) =
      (4 * 2 + (\<Sum>j < 2. encoded_size (map (\<lambda>i. ?cell (1 + i) (1 + j)) [0..<2])) \<le> 64)"
    "excel_read_range (\<lambda>_. []) merged_book ?table ?q excel_limits_default 64 = Inr batch \<Longrightarrow> j < 2 \<Longrightarrow> i < 2 \<Longrightarrow>
       scb_value (tb_columns batch ! j) i = Returns (Some (?cell (1 + i) (1 + j)))" for batch i j
    using ex by simp_all
  have "(\<Sum>j < 2. encoded_size (map (\<lambda>i. ?cell (1 + i) (1 + j)) [0..<2])) = 20"
    unfolding cells by (simp add: numeral_2_eq_2 encoded_size_def column_data_def value_data_def div_ceil_def)
  then obtain batch where batch: "excel_read_range (\<lambda>_. []) merged_book ?table ?q excel_limits_default 64 = Inr batch"
    using exact(1) by (auto simp: is_ok_iff)
  show ?thesis using metadata batch exact(2) [OF batch, of 0 0] exact(2) [OF batch, of 1 0] unfolding cells by auto
qed

end
