(* ===== verification/Presentation_Bytes.thy ===== *)
theory Presentation_Bytes
  imports Excel_Presentation
begin

text \<open>
  crates/tabulark-excel-wasm/src/presentation.rs: the memory a parsed presentation keeps and
  the size of the answer to a table query. Capacities of allocations and sizes of types are the
  compiler's and the allocator's, so they are the parameter \<open>presentation_alloc\<close>.
\<close>

record 'f presentation_alloc =
  text_capacity :: "string \<Rightarrow> nat"
  styles_capacity :: "'f presentation_style list \<Rightarrow> nat"
  sheets_capacity :: "(string \<times> 'f worksheet_presentation) list \<Rightarrow> nat"
  cells_capacity :: "(cell_coordinate \<times> nat) list \<Rightarrow> nat"
  merged_capacity :: "merged_cell list \<Rightarrow> nat"
  size_of_presentation :: nat
  size_of_style :: nat
  size_of_text :: nat
  size_of_layout :: nat
  size_of_coordinate :: nat
  size_of_merged :: nat

text \<open>Every allocation holds what is in it.\<close>

definition holds_contents :: "'f presentation_alloc \<Rightarrow> bool" where
  "holds_contents A \<longleftrightarrow> (\<forall>s. length s \<le> text_capacity A s) \<and> (\<forall>xs. length xs \<le> styles_capacity A xs) \<and>
     (\<forall>xs. length xs \<le> sheets_capacity A xs) \<and> (\<forall>xs. length xs \<le> cells_capacity A xs) \<and>
     (\<forall>xs. length xs \<le> merged_capacity A xs)"

definition presentation_reservation_overflow :: tabulark_error where
  "presentation_reservation_overflow = new_error ResourceLimit ''Excel presentation memory reservation overflows''"

definition add_presentation_bytes :: "nat \<Rightarrow> nat \<Rightarrow> nat result" where
  "add_presentation_bytes additional bytes = ok_or (checked_add bytes additional) presentation_reservation_overflow"

definition scaled_bytes :: "nat \<Rightarrow> nat \<Rightarrow> nat result" where
  "scaled_bytes count unit_bytes = ok_or (checked_mul count unit_bytes) presentation_reservation_overflow"

definition add_scaled_bytes :: "nat \<Rightarrow> nat \<Rightarrow> nat \<Rightarrow> nat result" where
  "add_scaled_bytes count unit_bytes bytes =
     rbind (scaled_bytes count unit_bytes) (\<lambda>additional. add_presentation_bytes additional bytes)"

fun present :: "'a option \<Rightarrow> 'a list" where
  "present None = []"
| "present (Some a) = [a]"

definition add_texts :: "'f presentation_alloc \<Rightarrow> string list \<Rightarrow> nat \<Rightarrow> nat result" where
  "add_texts A texts bytes = rfold (\<lambda>bytes s. add_presentation_bytes (text_capacity A s) bytes) bytes texts"

definition add_color_heap_bytes :: "'f presentation_alloc \<Rightarrow> presentation_color \<Rightarrow> nat \<Rightarrow> nat result" where
  "add_color_heap_bytes A color bytes = add_texts A (present (pc_css color)) bytes"

definition add_side_heap_bytes :: "'f presentation_alloc \<Rightarrow> border_side_style \<Rightarrow> nat \<Rightarrow> nat result" where
  "add_side_heap_bytes A side bytes =
     rbind (add_texts A (present (bss_style side)) bytes) (\<lambda>bytes.
     rfold (\<lambda>bytes color. add_color_heap_bytes A color bytes) bytes (present (bss_color side)))"

definition add_style_heap_bytes :: "'f presentation_alloc \<Rightarrow> 'f presentation_style \<Rightarrow> nat \<Rightarrow> nat result" where
  "add_style_heap_bytes A style bytes =
     rbind (add_texts A (present (ps_number_format style) @ present (ps_horizontal_alignment style) @
       present (ps_vertical_alignment style)) bytes) (\<lambda>bytes.
     rbind (rfold (\<lambda>bytes font.
         rbind (add_texts A (present (pf_family font)) bytes) (\<lambda>bytes.
         rfold (\<lambda>bytes color. add_color_heap_bytes A color bytes) bytes (present (pf_color font))))
       bytes (present (ps_font style))) (\<lambda>bytes.
     rbind (rfold (\<lambda>bytes color. add_color_heap_bytes A color bytes) bytes
       (present (ps_foreground_color style) @ present (ps_background_color style) @ present (ps_fill_color style))) (\<lambda>bytes.
     rfold (\<lambda>bytes borders. rfold (\<lambda>bytes side. add_side_heap_bytes A side bytes) bytes
         (present (pb_top borders) @ present (pb_right borders) @ present (pb_bottom borders) @ present (pb_left borders)))
       bytes (present (ps_borders style)))))"

definition add_sheet_bytes :: "'f presentation_alloc \<Rightarrow> nat \<Rightarrow> string \<times> 'f worksheet_presentation \<Rightarrow> nat result" where
  "add_sheet_bytes A bytes sheet =
     (let (name, layout) = sheet in
      rbind (add_presentation_bytes (text_capacity A name) bytes) (\<lambda>bytes.
      rbind (add_scaled_bytes (length (wp_rows layout)) 96 bytes) (\<lambda>bytes.
      rbind (add_scaled_bytes (length (wp_columns layout)) 96 bytes) (\<lambda>bytes.
      rbind (ok_or (Option.bind (checked_add (size_of_coordinate A) 4) (\<lambda>v. checked_add v 16))
        presentation_reservation_overflow) (\<lambda>style_bucket_bytes.
      rbind (add_scaled_bytes (cells_capacity A (wp_styles layout)) style_bucket_bytes bytes) (\<lambda>bytes.
      add_scaled_bytes (merged_capacity A (wp_merged_cells layout)) (size_of_merged A) bytes))))))"

definition presentation_retained_bytes :: "'f presentation_alloc \<Rightarrow> 'f workbook_presentation \<Rightarrow> nat result" where
  "presentation_retained_bytes A p =
     rbind (add_scaled_bytes (styles_capacity A (wbp_styles p)) (size_of_style A) (size_of_presentation A)) (\<lambda>bytes.
     rbind (rfold (\<lambda>bytes style. add_style_heap_bytes A style bytes) bytes (wbp_styles p)) (\<lambda>bytes.
     rbind (ok_or (Option.bind (checked_add (size_of_text A) (size_of_layout A)) (\<lambda>v. checked_add v 16))
       presentation_reservation_overflow) (\<lambda>sheet_bucket_bytes.
     rbind (add_scaled_bytes (sheets_capacity A (wbp_sheets p)) sheet_bucket_bytes bytes) (\<lambda>bytes.
     rfold (add_sheet_bytes A) bytes (wbp_sheets p)))))"

definition output_reservation_bytes :: "'f presentation_alloc \<Rightarrow> 'f table_presentation \<Rightarrow> nat result" where
  "output_reservation_bytes A t =
     rbind (ok_or (Option.bind (checked_add (length (tp_rows t)) (length (tp_columns t)))
         (\<lambda>count. checked_mul count 128)) presentation_reservation_overflow) (\<lambda>axes.
     rbind (add_presentation_bytes axes 512) (\<lambda>bytes.
     rbind (add_scaled_bytes (length (tp_styles t)) 768 bytes) (\<lambda>bytes.
     rfold (\<lambda>bytes style. add_style_heap_bytes A style bytes) bytes (tp_styles t))))"

section \<open>Monotonicity\<close>

lemma add_presentation_bytes_ok [simp]:
  "add_presentation_bytes additional bytes = Inr n \<longleftrightarrow> bytes + additional \<le> u64_max \<and> n = bytes + additional"
  by (auto simp: add_presentation_bytes_def)

lemma add_scaled_bytes_ok [simp]:
  "add_scaled_bytes count unit_bytes bytes = Inr n \<longleftrightarrow>
     bytes + count * unit_bytes \<le> u64_max \<and> n = bytes + count * unit_bytes"
  by (auto simp: add_scaled_bytes_def scaled_bytes_def)

lemma rfold_grows:
  assumes "rfold f s xs = Inr t" and "\<And>s t x. f s x = Inr t \<Longrightarrow> s + g x \<le> (t :: nat)"
  shows "s + (\<Sum>x \<leftarrow> xs. g x) \<le> t"
  using assms(1)
proof (induction xs arbitrary: s)
  case (Cons x xs)
  obtain u where u: "f s x = Inr u" and rest: "rfold f u xs = Inr t" using Cons.prems by auto
  show ?case using Cons.IH [OF rest] assms(2) [OF u] by simp
qed simp

lemma rfold_never_shrinks:
  "rfold f s xs = Inr t \<Longrightarrow> (\<And>s t x. f s x = Inr t \<Longrightarrow> s \<le> t) \<Longrightarrow> s \<le> (t :: nat)"
  using rfold_grows [where g = "\<lambda>_. 0"] by fastforce

lemma texts_grow: "add_texts A texts bytes = Inr n \<Longrightarrow> bytes \<le> n"
  unfolding add_texts_def by (erule rfold_never_shrinks) simp

lemma colors_grow: "rfold (\<lambda>bytes color. add_color_heap_bytes A color bytes) bytes colors = Inr n \<Longrightarrow> bytes \<le> n"
  by (erule rfold_never_shrinks) (simp add: add_color_heap_bytes_def texts_grow)

lemma style_heap_grows: "add_style_heap_bytes A style bytes = Inr n \<Longrightarrow> bytes \<le> n"
proof -
  have side: "add_side_heap_bytes A side b = Inr m \<Longrightarrow> b \<le> m" for side b m
    by (auto simp: add_side_heap_bytes_def dest!: texts_grow colors_grow)
  have fonts: "rfold (\<lambda>bytes font.
         rbind (add_texts A (present (pf_family font)) bytes) (\<lambda>bytes.
         rfold (\<lambda>bytes color. add_color_heap_bytes A color bytes) bytes (present (pf_color font)))) b fs = Inr m \<Longrightarrow> b \<le> m"
    for b m fs by (erule rfold_never_shrinks) (auto dest!: texts_grow colors_grow)
  have sides: "rfold (\<lambda>bytes side. add_side_heap_bytes A side bytes) b ss = Inr m \<Longrightarrow> b \<le> m" for b m ss
    by (erule rfold_never_shrinks) (rule side)
  have borders: "rfold (\<lambda>bytes borders. rfold (\<lambda>bytes side. add_side_heap_bytes A side bytes) bytes
         (present (pb_top borders) @ present (pb_right borders) @ present (pb_bottom borders) @ present (pb_left borders)))
       b bs = Inr m \<Longrightarrow> b \<le> m" for b m bs
    by (erule rfold_never_shrinks) (rule sides)
  show "add_style_heap_bytes A style bytes = Inr n \<Longrightarrow> bytes \<le> n"
    unfolding add_style_heap_bytes_def rbind_Inr_iff
    by (elim exE conjE, (drule texts_grow fonts colors_grow borders)+, linarith)
qed

text \<open>What the layout of one sheet needs.\<close>

definition sheet_need :: "'f presentation_alloc \<Rightarrow> 'f worksheet_presentation \<Rightarrow> nat" where
  "sheet_need A layout = (length (wp_rows layout) + length (wp_columns layout)) * 96 +
     length (wp_styles layout) * (size_of_coordinate A + 20) + length (wp_merged_cells layout) * size_of_merged A"

lemma sheet_bytes_cover:
  assumes "add_sheet_bytes A bytes (name, layout) = Inr n" and "holds_contents A"
  shows "bytes + sheet_need A layout \<le> n"
proof -
  have "n = bytes + text_capacity A name + length (wp_rows layout) * 96 + length (wp_columns layout) * 96 +
      cells_capacity A (wp_styles layout) * (size_of_coordinate A + 20) +
      merged_capacity A (wp_merged_cells layout) * size_of_merged A"
    using assms(1) by (auto simp: add_sheet_bytes_def bind_eq_Some_conv)
  moreover have "length (wp_styles layout) * (size_of_coordinate A + 20) \<le> cells_capacity A (wp_styles layout) * (size_of_coordinate A + 20)"
    by (rule mult_le_mono1) (use assms(2) in \<open>simp add: holds_contents_def\<close>)
  moreover have "length (wp_merged_cells layout) * size_of_merged A \<le> merged_capacity A (wp_merged_cells layout) * size_of_merged A"
    by (rule mult_le_mono1) (use assms(2) in \<open>simp add: holds_contents_def\<close>)
  ultimately show ?thesis unfolding sheet_need_def add_mult_distrib add_mult_distrib2 by linarith
qed

lemma retained_bytes_cover:
  assumes "presentation_retained_bytes A p = Inr n" and "holds_contents A"
  shows "length (wbp_styles p) * size_of_style A + (\<Sum>(name, layout) \<leftarrow> wbp_sheets p. sheet_need A layout) \<le> n"
proof -
  obtain heap sheets
    where heap: "rfold (\<lambda>bytes style. add_style_heap_bytes A style bytes)
        (size_of_presentation A + styles_capacity A (wbp_styles p) * size_of_style A) (wbp_styles p) = Inr heap"
      and sheets: "heap \<le> sheets" and rest: "rfold (add_sheet_bytes A) sheets (wbp_sheets p) = Inr n"
    using assms(1) by (auto simp: presentation_retained_bytes_def) (meson le_add1)
  have "size_of_presentation A + styles_capacity A (wbp_styles p) * size_of_style A \<le> heap"
    by (rule rfold_never_shrinks [OF heap]) (rule style_heap_grows)
  moreover have "length (wbp_styles p) * size_of_style A \<le> styles_capacity A (wbp_styles p) * size_of_style A"
    using assms(2) by (simp add: holds_contents_def)
  moreover have "sheets + (\<Sum>sheet \<leftarrow> wbp_sheets p. sheet_need A (snd sheet)) \<le> n"
    by (rule rfold_grows [OF rest]) (use sheet_bytes_cover [OF _ assms(2)] in force)
  moreover have "(\<Sum>(name, layout) \<leftarrow> wbp_sheets p. sheet_need A layout) = (\<Sum>sheet \<leftarrow> wbp_sheets p. sheet_need A (snd sheet))"
    by (simp add: split_def)
  ultimately show ?thesis using sheets by linarith
qed

end
