(* ===== verification/Excel_Runtime.thy ===== *)
theory Excel_Runtime
  imports Excel_Preflight Excel_Reading Presentation_Bytes
begin

text \<open>
  crates/tabulark-excel-wasm/src/lib.rs: the registry of open workbooks and worksheets. It
  inspects a source, opens it, hands out handles and keeps the memory of everything open
  within the budget. The calamine reader is a parameter: what opening bytes gives, the sheets
  of a workbook, and the values and formulas of a worksheet, whose reading may change the
  workbook. Hash maps are association lists with distinct keys.
\<close>

section \<open>Environment\<close>

record ('f, 'w) calamine =
  cal_xls_new :: "byte list \<Rightarrow> string + 'w"
  cal_xlsx_new :: "byte list \<Rightarrow> string + 'w"
  cal_sheets :: "'w \<Rightarrow> calamine_sheet list"
  cal_range :: "string \<Rightarrow> 'w \<Rightarrow> (string + 'f cell_data cell_range) \<times> 'w"
  cal_formula :: "string \<Rightarrow> 'w \<Rightarrow> (string + owned_string cell_range) \<times> 'w"

record ('k, 'f, 'w) excel_env =
  xe_containers :: container_env
  xe_xml :: xml_env
  xe_floats :: "'f float_ops"
  xe_style_key :: "'f presentation_style \<Rightarrow> 'k"
  xe_alloc :: "'f presentation_alloc"
  xe_cell_sizes :: cell_sizes
  xe_size_of_mask_cell :: nat
  xe_show_f64 :: "'f \<Rightarrow> string"
  xe_calamine :: "('f, 'w) calamine"

section \<open>Workbooks\<close>

datatype 'w workbook = WorkbookXls 'w | WorkbookXlsx 'w

fun workbook_sheets :: "('f, 'w) calamine \<Rightarrow> 'w workbook \<Rightarrow> calamine_sheet list" where
  "workbook_sheets C (WorkbookXls w) = cal_sheets C w"
| "workbook_sheets C (WorkbookXlsx w) = cal_sheets C w"

definition worksheet_call ::
    "(string \<Rightarrow> 'w \<Rightarrow> (string + 'a) \<times> 'w) \<Rightarrow> string \<Rightarrow> ('w workbook, tabulark_error, 'a) prog" where
  "worksheet_call call name workbook =
     (case workbook of
        WorkbookXls w \<Rightarrow> map_prod (map_sum (worksheet_error Xls name) id) WorkbookXls (call name w)
      | WorkbookXlsx w \<Rightarrow> map_prod (map_sum (worksheet_error Xlsx name) id) WorkbookXlsx (call name w))"

definition worksheet_range ::
    "('f, 'w) calamine \<Rightarrow> string \<Rightarrow> ('w workbook, tabulark_error, 'f cell_data cell_range) prog" where
  "worksheet_range C = worksheet_call (cal_range C)"

definition worksheet_formula ::
    "('f, 'w) calamine \<Rightarrow> string \<Rightarrow> ('w workbook, tabulark_error, owned_string cell_range) prog" where
  "worksheet_formula C = worksheet_call (cal_formula C)"

section \<open>Sources\<close>

record ('f, 'w) excel_source =
  es_format :: excel_format
  es_source_name :: "string option"
  es_reserved_bytes :: nat
  es_workbook :: "'w workbook"
  es_tables :: "excel_table_descriptor list"
  es_warnings :: "excel_warning list"
  es_presentation :: "'f workbook_presentation"

record 'f prepared_table =
  pt_descriptor :: excel_table_descriptor
  pt_metadata :: table_metadata
  pt_warnings :: "excel_warning list"
  pt_shape :: sheet_shape
  pt_range :: "'f cell_data cell_range"
  pt_reservation :: worksheet_reservation

definition source_reservation ::
    "'f presentation_alloc \<Rightarrow> excel_inspection \<Rightarrow> nat \<Rightarrow> 'f workbook_presentation \<Rightarrow> nat result" where
  "source_reservation A inspection available_bytes presentation =
     (if ins_format inspection = Xlsx
      then
        rbind (presentation_retained_bytes A presentation) (\<lambda>retained.
        rbind (ok_or (checked_add (ins_reserved_bytes inspection) retained)
          (new_error ResourceLimit ''Excel XLSX presentation reservation overflows'')) (\<lambda>reserved_bytes.
        rbind (ensure_reservation_budget ''xlsx-presentation-working-set'' reserved_bytes available_bytes
          ''Excel XLSX source, parse, and retained presentation exceed the available memory budget'') (\<lambda>_.
        Inr reserved_bytes)))
      else Inr (ins_reserved_bytes inspection))"

definition open_workbook :: "('f, 'w) calamine \<Rightarrow> excel_format \<Rightarrow> byte list \<Rightarrow> 'w workbook result" where
  "open_workbook C format bytes =
     (case format of
        Xls \<Rightarrow> map_sum (workbook_open_error format) WorkbookXls (cal_xls_new C bytes)
      | Xlsx \<Rightarrow> map_sum (workbook_open_error format) WorkbookXlsx (cal_xlsx_new C bytes))"

definition excel_source_open ::
    "('k, 'f, 'w) excel_env \<Rightarrow> byte list \<Rightarrow> excel_options \<Rightarrow> excel_limits \<Rightarrow> excel_inspection \<Rightarrow> nat \<Rightarrow>
      failure + ('f, 'w) excel_source" where
  "excel_source_open E bytes options limits inspection available_bytes =
     (let format = ins_format inspection in
      rbind (fallible (ensure_format_hint (xo_format options) format)) (\<lambda>_.
      rbind (parse_presentation (xe_style_key E) (xe_containers E) (xe_xml E) (xe_floats E) format bytes limits) (\<lambda>presentation.
      rbind (fallible (source_reservation (xe_alloc E) inspection available_bytes presentation)) (\<lambda>reserved_bytes.
      rbind (fallible (open_workbook (xe_calamine E) format bytes)) (\<lambda>workbook.
      rbind (fallible (describe_tables (workbook_sheets (xe_calamine E) workbook) limits)) (\<lambda>(tables, warnings).
      if tables = []
      then Inl (Failed (new_error UnsupportedFeature ''Excel workbook contains no worksheet tables''))
      else Inr \<lparr>es_format = format, es_source_name = xo_source_name options, es_reserved_bytes = reserved_bytes,
             es_workbook = workbook, es_tables = tables, es_warnings = warnings, es_presentation = presentation\<rparr>))))))"

definition source_descriptor :: "('f, 'w) excel_source \<Rightarrow> string \<Rightarrow> excel_table_descriptor result" where
  "source_descriptor s table_id =
     ok_or (find (\<lambda>table. xd_id table = table_id) (es_tables s))
       (with_detail (new_error InvalidArgument ''Excel dataset does not contain the requested worksheet'')
         ''tableId'' (DetailString table_id))"

definition declared_shape :: "('f, 'w) excel_source \<Rightarrow> string \<Rightarrow> excel_limits \<Rightarrow> sheet_shape result" where
  "declared_shape s table_id limits =
     rbind (source_descriptor s table_id) (\<lambda>descriptor.
     let (rows, columns) = (case presentation_dimensions (es_presentation s) descriptor of
           Some dimensions \<Rightarrow> dimensions | None \<Rightarrow> (0, 0))
     in validate_sheet_shape rows columns limits)"

text \<open>An operation on the workbook of a source.\<close>

definition on_workbook :: "('w workbook, tabulark_error, 'a) prog \<Rightarrow> (('f, 'w) excel_source, tabulark_error, 'a) prog" where
  "on_workbook m s = (case m (es_workbook s) of (r, workbook) \<Rightarrow> (r, s\<lparr>es_workbook := workbook\<rparr>))"

definition prepare_table ::
    "('k, 'f, 'w) excel_env \<Rightarrow> string \<Rightarrow> excel_limits \<Rightarrow>
      (('f, 'w) excel_source, tabulark_error, 'f prepared_table) prog" where
  "prepare_table E table_id limits =
     pbind pget (\<lambda>s.
     pbind (plift (source_descriptor s table_id)) (\<lambda>descriptor.
     pbind (on_workbook (worksheet_range (xe_calamine E) (xd_name descriptor))) (\<lambda>cells.
     pbind (plift (sheet_shape_of cells (presentation_dimensions (es_presentation s) descriptor) limits)) (\<lambda>shape.
     pbind (plift (build_metadata descriptor shape)) (\<lambda>metadata.
     pbind (on_workbook (worksheet_formula (xe_calamine E) (xd_name descriptor))) (\<lambda>formulas.
     pbind (plift (worksheet_reservation_with_contents (xe_cell_sizes E) shape cells formulas)) (\<lambda>reservation.
     preturn \<lparr>pt_descriptor = descriptor, pt_metadata = metadata,
       pt_warnings = missing_formula_cache_warnings descriptor cells formulas (max_warnings limits),
       pt_shape = shape, pt_range = cells, pt_reservation = reservation\<rparr>)))))))"

section \<open>The registry\<close>

record ('f, 'w) excel_runtime =
  xr_config :: excel_runtime_config
  xr_next_handle :: nat
  xr_retained_bytes :: nat
  xr_sources :: "(nat \<times> ('f, 'w) excel_source) list"
  xr_tables :: "(nat \<times> 'f open_table) list"

record excel_table_open_result =
  to_table_handle :: nat
  to_metadata :: table_metadata
  to_warnings :: "excel_warning list"

definition excel_runtime_new :: "excel_runtime_config \<Rightarrow> ('f, 'w) excel_runtime result" where
  "excel_runtime_new config =
     rbind (excel_limits_validate (xc_limits config)) (\<lambda>_.
     if xc_memory_budget_bytes config = 0 \<or> xc_max_sources config = 0
     then Inl (new_error InvalidArgument ''Excel runtime resource limits must be greater than zero'')
     else if max_source_bytes (xc_limits config) > xc_memory_budget_bytes config
     then Inl (with_detail (with_detail
            (new_error InvalidArgument ''Excel source limit must not exceed the runtime memory budget'')
            ''maxSourceBytes'' (DetailNumber (max_source_bytes (xc_limits config))))
            ''memoryBudgetBytes'' (DetailNumber (xc_memory_budget_bytes config)))
     else Inr \<lparr>xr_config = config, xr_next_handle = 1, xr_retained_bytes = 0, xr_sources = [], xr_tables = []\<rparr>)"

definition excel_allocate_handle :: "(('f, 'w) excel_runtime, tabulark_error, nat) prog" where
  "excel_allocate_handle =
     pbind pget (\<lambda>r.
     case checked_add_u32 (xr_next_handle r) 1 of
       None \<Rightarrow> pfail (new_error ResourceLimit ''Excel runtime handle space exhausted'')
     | Some n \<Rightarrow> pbind (pmodify (\<lambda>r. r\<lparr>xr_next_handle := n\<rparr>)) (\<lambda>_. preturn (xr_next_handle r)))"

definition available_memory :: "('f, 'w) excel_runtime \<Rightarrow> nat result" where
  "available_memory r =
     ok_or (checked_sub (xc_memory_budget_bytes (xr_config r)) (xr_retained_bytes r))
       (new_error RuntimeFailure ''Excel memory reservations exceed the runtime budget'')"

text \<open>A step of the registry that reports an error and cannot panic.\<close>

definition pfallible :: "('s, tabulark_error, 'a) prog \<Rightarrow> ('s, failure, 'a) prog" where
  "pfallible m s = (case m s of (r, s') \<Rightarrow> (fallible r, s'))"

text \<open>Everything of \<open>open_source\<close> up to the first mutation: the source and the new total.\<close>

definition stage_source ::
    "('k, 'f, 'w) excel_env \<Rightarrow> byte list \<Rightarrow> excel_options \<Rightarrow> ('f, 'w) excel_runtime \<Rightarrow>
      failure + ('f, 'w) excel_source \<times> nat" where
  "stage_source E bytes options r =
     (let config = xr_config r; limits = xc_limits config in
      if length (xr_sources r) \<ge> xc_max_sources config
      then Inl (Failed (count_error ''Excel runtime has reached its open-source limit'' ''open-sources''
             (saturating_add (length (xr_sources r)) 1) (xc_max_sources config)))
      else
        rbind (fallible (available_memory r)) (\<lambda>available_bytes.
        rbind (fallible (inspect_excel_source (xe_containers E) (xe_xml E) (size_of_string (xe_cell_sizes E))
          bytes limits available_bytes)) (\<lambda>inspection.
        rbind (excel_source_open E bytes options limits inspection available_bytes) (\<lambda>source.
        rbind (fallible (ok_or (checked_add (xr_retained_bytes r) (es_reserved_bytes source))
          (new_error ResourceLimit ''Excel source memory reservation overflows''))) (\<lambda>total_bytes.
        if total_bytes > xc_memory_budget_bytes config
        then Inl (Failed (excel_resource_limit ''staging'' total_bytes (xc_memory_budget_bytes config)
               ''Excel runtime exceeds its aggregate staging budget''))
        else Inr (source, total_bytes))))))"

definition excel_open_source ::
    "('k, 'f, 'w) excel_env \<Rightarrow> byte list \<Rightarrow> excel_options \<Rightarrow> (('f, 'w) excel_runtime, failure, nat) prog" where
  "excel_open_source E bytes options =
     pbind pget (\<lambda>r.
     pbind (plift (stage_source E bytes options r)) (\<lambda>(source, total_bytes).
     pbind (pfallible excel_allocate_handle) (\<lambda>handle.
     pbind (pmodify (\<lambda>r. r\<lparr>xr_retained_bytes := total_bytes,
       xr_sources := AList.update handle source (xr_sources r)\<rparr>)) (\<lambda>_.
     preturn handle))))"

definition excel_source_of :: "('f, 'w) excel_runtime \<Rightarrow> nat \<Rightarrow> ('f, 'w) excel_source result" where
  "excel_source_of r source = ok_or (map_of (xr_sources r) source) (closed_handle ''source'')"

definition excel_table_of :: "('f, 'w) excel_runtime \<Rightarrow> nat \<Rightarrow> 'f open_table result" where
  "excel_table_of r table = ok_or (map_of (xr_tables r) table) (closed_handle ''table'')"

definition excel_source_format :: "('f, 'w) excel_runtime \<Rightarrow> nat \<Rightarrow> excel_format result" where
  "excel_source_format r source = map_sum id es_format (excel_source_of r source)"

definition excel_source_name :: "('f, 'w) excel_runtime \<Rightarrow> nat \<Rightarrow> string option result" where
  "excel_source_name r source = map_sum id es_source_name (excel_source_of r source)"

definition excel_list_tables :: "('f, 'w) excel_runtime \<Rightarrow> nat \<Rightarrow> excel_table_descriptor list result" where
  "excel_list_tables r source = map_sum id es_tables (excel_source_of r source)"

definition excel_source_warnings :: "('f, 'w) excel_runtime \<Rightarrow> nat \<Rightarrow> excel_warning list result" where
  "excel_source_warnings r source = map_sum id es_warnings (excel_source_of r source)"

text \<open>An operation on a registered source.\<close>

definition on_source ::
    "nat \<Rightarrow> (('f, 'w) excel_source, tabulark_error, 'a) prog \<Rightarrow> (('f, 'w) excel_runtime, tabulark_error, 'a) prog" where
  "on_source source m r =
     (case map_of (xr_sources r) source of
        None \<Rightarrow> (Inl (closed_handle ''source''), r)
      | Some s \<Rightarrow>
          (case m s of (result, s') \<Rightarrow> (result, r\<lparr>xr_sources := AList.update source s' (xr_sources r)\<rparr>)))"

definition open_working_set :: "worksheet_reservation \<Rightarrow> nat \<Rightarrow> unit result" where
  "open_working_set reservation available_bytes =
     ensure_reservation_budget ''worksheet-open-working-set'' (wr_open_bytes reservation) available_bytes
       ''Excel worksheet parse working set exceeds the available memory budget''"

definition excel_open_table ::
    "('k, 'f, 'w) excel_env \<Rightarrow> nat \<Rightarrow> string \<Rightarrow>
      (('f, 'w) excel_runtime, tabulark_error, excel_table_open_result) prog" where
  "excel_open_table E source table_id =
     pbind pget (\<lambda>r.
     let limits = xc_limits (xr_config r) in
     pbind (plift (rbind (excel_source_of r source) (\<lambda>s. declared_shape s table_id limits))) (\<lambda>declared.
     pbind (plift (worksheet_reservation_of (xe_cell_sizes E) declared)) (\<lambda>declared_reservation.
     pbind (plift (available_memory r)) (\<lambda>available_bytes.
     pbind (plift (open_working_set declared_reservation available_bytes)) (\<lambda>_.
     pbind (on_source source (prepare_table E table_id limits)) (\<lambda>prepared.
     let reservation = pt_reservation prepared in
     pbind (plift (open_working_set reservation available_bytes)) (\<lambda>_.
     pbind excel_allocate_handle (\<lambda>table_handle.
     pbind pget (\<lambda>r.
     pbind (plift (ok_or (checked_add (xr_retained_bytes r) (wr_retained_bytes reservation))
       (new_error ResourceLimit ''Excel opened-worksheet memory reservation overflows''))) (\<lambda>total_bytes.
     pbind (pmodify (\<lambda>r. r\<lparr>xr_retained_bytes := total_bytes,
       xr_tables := AList.update table_handle
         \<lparr>ot_source = source, ot_descriptor = pt_descriptor prepared, ot_metadata = pt_metadata prepared,
          ot_shape = pt_shape prepared, ot_range = pt_range prepared,
          ot_reserved_bytes = wr_retained_bytes reservation\<rparr> (xr_tables r)\<rparr>)) (\<lambda>_.
     preturn \<lparr>to_table_handle = table_handle, to_metadata = pt_metadata prepared,
       to_warnings = pt_warnings prepared\<rparr>)))))))))))"

section \<open>Open worksheets\<close>

definition excel_metadata :: "('f, 'w) excel_runtime \<Rightarrow> nat \<Rightarrow> table_metadata result" where
  "excel_metadata r table = map_sum id ot_metadata (excel_table_of r table)"

definition excel_table_descriptor_of :: "('f, 'w) excel_runtime \<Rightarrow> nat \<Rightarrow> excel_table_descriptor result" where
  "excel_table_descriptor_of r table = map_sum id ot_descriptor (excel_table_of r table)"

definition excel_presentation :: "('f, 'w) excel_runtime \<Rightarrow> nat \<Rightarrow> 'f table_presentation result" where
  "excel_presentation r table =
     rbind (excel_table_of r table) (\<lambda>open.
     rbind (excel_source_of r (ot_source open)) (\<lambda>source.
     Inr (presentation_table (es_presentation source) (ot_descriptor open))))"

definition excel_read_presentation_range ::
    "('f, 'w) excel_runtime \<Rightarrow> nat \<Rightarrow> range_request \<Rightarrow> 'f table_presentation_range result" where
  "excel_read_presentation_range r table q =
     rbind (excel_table_of r table) (\<lambda>open.
     rbind (validate_range_request q (ot_shape open) (xc_limits (xr_config r))) (\<lambda>_.
     rbind (excel_source_of r (ot_source open)) (\<lambda>source.
     presentation_range (es_presentation source) (ot_descriptor open) q)))"

definition excel_runtime_read_range ::
    "('k, 'f, 'w) excel_env \<Rightarrow> ('f, 'w) excel_runtime \<Rightarrow> nat \<Rightarrow> range_request \<Rightarrow> table_batch result" where
  "excel_runtime_read_range E r table q =
     rbind (validate_public q) (\<lambda>_.
     rbind (cell_count q) (\<lambda>cells.
     rbind (ok_or (checked_mul cells (xe_size_of_mask_cell E))
       (new_error ResourceLimit ''Excel read working-set reservation overflows'')) (\<lambda>mask_bytes.
     rbind (available_memory r) (\<lambda>available_bytes.
     rbind (ensure_reservation_budget ''range-mask-working-set'' mask_bytes available_bytes
       ''Excel range mask working set exceeds the available memory budget'') (\<lambda>_.
     let limits = xc_limits (xr_config r);
         max_batch_bytes = min (max_excel_batch_bytes limits) (saturating_sub available_bytes mask_bytes)
     in
     if max_batch_bytes = 0
     then Inl (excel_resource_limit ''batch'' 1 0 ''Excel range response has no available memory budget'')
     else
       rbind (excel_table_of r table) (\<lambda>open.
       rbind (excel_source_of r (ot_source open)) (\<lambda>source.
       excel_read_range (xe_show_f64 E) (es_presentation source) open q limits max_batch_bytes)))))))"

definition excel_close_table :: "nat \<Rightarrow> ('f, 'w) excel_runtime \<Rightarrow> bool \<times> ('f, 'w) excel_runtime" where
  "excel_close_table table r =
     (case map_of (xr_tables r) table of
        None \<Rightarrow> (False, r)
      | Some t \<Rightarrow> (True, r\<lparr>xr_tables := AList.delete table (xr_tables r),
          xr_retained_bytes := saturating_sub (xr_retained_bytes r) (ot_reserved_bytes t)\<rparr>))"

definition released_bytes :: "nat \<Rightarrow> nat \<Rightarrow> (nat \<times> 'f open_table) list \<Rightarrow> nat" where
  "released_bytes source bytes tables =
     fold (\<lambda>(_, t) bytes. if ot_source t = source then saturating_add bytes (ot_reserved_bytes t) else bytes)
       tables bytes"

definition excel_close_source :: "nat \<Rightarrow> ('f, 'w) excel_runtime \<Rightarrow> bool \<times> ('f, 'w) excel_runtime" where
  "excel_close_source source r =
     (case map_of (xr_sources r) source of
        None \<Rightarrow> (False, r)
      | Some s \<Rightarrow> (True, r\<lparr>xr_sources := AList.delete source (xr_sources r),
          xr_tables := filter (\<lambda>(_, t). ot_source t \<noteq> source) (xr_tables r),
          xr_retained_bytes := saturating_sub (xr_retained_bytes r)
            (released_bytes source (es_reserved_bytes s) (xr_tables r))\<rparr>))"

definition excel_shutdown :: "('f, 'w) excel_runtime \<Rightarrow> ('f, 'w) excel_runtime" where
  "excel_shutdown r = r\<lparr>xr_tables := [], xr_sources := [], xr_retained_bytes := 0\<rparr>"

definition excel_source_count :: "('f, 'w) excel_runtime \<Rightarrow> nat" where
  "excel_source_count r = length (xr_sources r)"

definition excel_table_count :: "('f, 'w) excel_runtime \<Rightarrow> nat" where
  "excel_table_count r = length (xr_tables r)"

end
