(* ===== verification/Excel_Safety.thy ===== *)
theory Excel_Safety
  imports Excel_Runtime
begin

text \<open>
  What the workbook registry keeps over any sequence of calls: the memory counter is the sum of
  what is open and stays within the budget, every worksheet belongs to an open source and is
  ready to be read, and a handle is never given out twice.
\<close>

section \<open>The invariant\<close>

definition sources_reserved :: "('f, 'w) excel_runtime \<Rightarrow> nat" where
  "sources_reserved r = (\<Sum>(h, s) \<leftarrow> xr_sources r. es_reserved_bytes s)"

definition tables_reserved :: "('f, 'w) excel_runtime \<Rightarrow> nat" where
  "tables_reserved r = (\<Sum>(h, t) \<leftarrow> xr_tables r. ot_reserved_bytes t)"

text \<open>A worksheet that can be read: its schema has its columns and its cells are paid for.\<close>

definition table_ready :: "cell_sizes \<Rightarrow> excel_limits \<Rightarrow> 'f open_table \<Rightarrow> bool" where
  "table_ready S limits t \<longleftrightarrow> build_metadata (ot_descriptor t) (ot_shape t) = Inr (ot_metadata t) \<and>
     ss_rows (ot_shape t) \<le> max_worksheet_rows limits \<and> ss_columns (ot_shape t) \<le> max_worksheet_columns limits \<and>
     ss_rows (ot_shape t) * ss_columns (ot_shape t) \<le> max_worksheet_cells limits \<and>
     ss_rows (ot_shape t) * ss_columns (ot_shape t) * size_of_data S \<le> ot_reserved_bytes t"

definition table_owned :: "('f, 'w) excel_runtime \<Rightarrow> 'f open_table \<Rightarrow> bool" where
  "table_owned r t \<longleftrightarrow>
     (\<exists>s. map_of (xr_sources r) (ot_source t) = Some s \<and> ot_descriptor t \<in> set (es_tables s))"

definition excel_source_keys :: "('f, 'w) excel_runtime \<Rightarrow> nat set" where
  "excel_source_keys r = fst ` set (xr_sources r)"

definition excel_table_keys :: "('f, 'w) excel_runtime \<Rightarrow> nat set" where
  "excel_table_keys r = fst ` set (xr_tables r)"

definition excel_handles_ok :: "('f, 'w) excel_runtime \<Rightarrow> bool" where
  "excel_handles_ok r \<longleftrightarrow> distinct (map fst (xr_sources r)) \<and> distinct (map fst (xr_tables r)) \<and>
     excel_source_keys r \<inter> excel_table_keys r = {} \<and>
     (\<forall>h \<in> excel_source_keys r \<union> excel_table_keys r. h < xr_next_handle r) \<and> xr_next_handle r \<le> u32_max"

definition memory_ok :: "('f, 'w) excel_runtime \<Rightarrow> bool" where
  "memory_ok r \<longleftrightarrow> xr_retained_bytes r = sources_reserved r + tables_reserved r \<and>
     xr_retained_bytes r \<le> xc_memory_budget_bytes (xr_config r) \<and> xc_memory_budget_bytes (xr_config r) \<le> u64_max"

definition excel_inv :: "cell_sizes \<Rightarrow> ('f, 'w) excel_runtime \<Rightarrow> bool" where
  "excel_inv S r \<longleftrightarrow> excel_limits_validate (xc_limits (xr_config r)) = Inr () \<and>
     length (xr_sources r) \<le> xc_max_sources (xr_config r) \<and> memory_ok r \<and> excel_handles_ok r \<and>
     (\<forall>h t. (h, t) \<in> set (xr_tables r) \<longrightarrow> table_ready S (xc_limits (xr_config r)) t \<and> table_owned r t)"

text \<open>\<open>excel_spent h r\<close>: the handle was given out and names nothing any more.\<close>

definition excel_spent :: "nat \<Rightarrow> ('f, 'w) excel_runtime \<Rightarrow> bool" where
  "excel_spent h r \<longleftrightarrow> h < xr_next_handle r \<and> h \<notin> excel_source_keys r \<and> h \<notin> excel_table_keys r"

definition excel_good :: "cell_sizes \<Rightarrow> ('f, 'w) excel_runtime \<Rightarrow> ('f, 'w) excel_runtime \<Rightarrow> bool" where
  "excel_good S r r' \<longleftrightarrow> excel_inv S r' \<and> xr_config r' = xr_config r \<and> xr_next_handle r \<le> xr_next_handle r' \<and>
     (\<forall>h. excel_spent h r \<longrightarrow> excel_spent h r')"

lemma excel_good_refl: "excel_inv S r \<Longrightarrow> excel_good S r r"
  by (simp add: excel_good_def)

lemma excel_good_trans: "excel_good S r r' \<Longrightarrow> excel_good S r' r'' \<Longrightarrow> excel_good S r r''"
  by (auto simp: excel_good_def)

lemma excel_new_inv:
  "excel_runtime_new config = Inr r \<Longrightarrow> xc_memory_budget_bytes config \<le> u64_max \<Longrightarrow> excel_inv S r"
  by (auto simp: excel_runtime_new_def excel_inv_def memory_ok_def excel_handles_ok_def excel_source_keys_def
    excel_table_keys_def sources_reserved_def tables_reserved_def u32_max_def split: if_splits)

section \<open>Changes of the registry\<close>

lemma excel_allocated:
  assumes "excel_inv S r" and "xr_next_handle r + 1 \<le> u32_max"
  shows "excel_good S r (r\<lparr>xr_next_handle := Suc (xr_next_handle r)\<rparr>)"
  using assms
  by (auto simp: excel_good_def excel_inv_def memory_ok_def excel_handles_ok_def excel_source_keys_def
    excel_table_keys_def sources_reserved_def tables_reserved_def excel_spent_def table_owned_def less_Suc_eq)

lemma excel_fresh:
  assumes "excel_inv S r"
  shows "xr_next_handle r \<notin> fst ` set (xr_sources r)" and "xr_next_handle r \<notin> fst ` set (xr_tables r)"
  using assms unfolding excel_inv_def excel_handles_ok_def excel_source_keys_def excel_table_keys_def by blast+

lemma excel_source_added:
  assumes "excel_inv S r" and "xr_next_handle r + 1 \<le> u32_max"
    and "length (xr_sources r) < xc_max_sources (xr_config r)"
    and "xr_retained_bytes r + es_reserved_bytes s \<le> xc_memory_budget_bytes (xr_config r)"
  shows "excel_good S r (r\<lparr>xr_next_handle := Suc (xr_next_handle r),
    xr_retained_bytes := xr_retained_bytes r + es_reserved_bytes s,
    xr_sources := AList.update (xr_next_handle r) s (xr_sources r)\<rparr>)" (is "excel_good S r ?r")
proof -
  note fresh = excel_fresh [OF assms(1)]
  have sources: "xr_sources ?r = xr_sources r @ [(xr_next_handle r, s)]" by (simp add: update_fresh fresh(1))
  have "table_owned ?r t" if "table_owned r t" for t
    using that fresh(1) by (auto simp: table_owned_def sources map_add_def split: option.splits)
  moreover have "excel_handles_ok ?r"
    using assms(1,2) fresh by (auto simp: excel_inv_def excel_handles_ok_def excel_source_keys_def
      excel_table_keys_def sources less_Suc_eq)
  moreover have "memory_ok ?r"
    using assms(1,4) by (auto simp: excel_inv_def memory_ok_def sources_reserved_def tables_reserved_def
      update_fresh fresh)
  moreover have "excel_spent h ?r" if "excel_spent h r" for h
    using that by (auto simp: excel_spent_def excel_source_keys_def excel_table_keys_def sources)
  ultimately show ?thesis using assms(1,3) by (auto simp: excel_good_def excel_inv_def sources)
qed

lemma excel_table_added:
  assumes "excel_inv S r" and "xr_next_handle r + 1 \<le> u32_max"
    and "table_ready S (xc_limits (xr_config r)) t" and "table_owned r t"
    and "xr_retained_bytes r + ot_reserved_bytes t \<le> xc_memory_budget_bytes (xr_config r)"
  shows "excel_good S r (r\<lparr>xr_next_handle := Suc (xr_next_handle r),
    xr_retained_bytes := xr_retained_bytes r + ot_reserved_bytes t,
    xr_tables := AList.update (xr_next_handle r) t (xr_tables r)\<rparr>)" (is "excel_good S r ?r")
proof -
  note fresh = excel_fresh [OF assms(1)]
  have tables: "xr_tables ?r = xr_tables r @ [(xr_next_handle r, t)]" by (simp add: update_fresh fresh(2))
  have "excel_handles_ok ?r"
    using assms(1,2) fresh by (auto simp: excel_inv_def excel_handles_ok_def excel_source_keys_def
      excel_table_keys_def tables less_Suc_eq)
  moreover have "memory_ok ?r"
    using assms(1,5) by (auto simp: excel_inv_def memory_ok_def sources_reserved_def tables_reserved_def
      update_fresh fresh)
  moreover have "excel_spent h ?r" if "excel_spent h r" for h
    using that by (auto simp: excel_spent_def excel_source_keys_def excel_table_keys_def tables)
  moreover have "table_owned ?r u \<longleftrightarrow> table_owned r u" for u by (simp add: table_owned_def)
  ultimately show ?thesis using assms(1,3,4) by (auto simp: excel_good_def excel_inv_def tables)
qed

text \<open>A source whose workbook has been read.\<close>

lemma update_same_measure:
  "map_of al k = Some v \<Longrightarrow> g w = g v \<Longrightarrow> map (\<lambda>(h, x). g x) (AList.update k w al) = map (\<lambda>(h, x). g x) al"
  by (induction al) auto

lemma excel_source_touched:
  assumes "excel_inv S r" and "map_of (xr_sources r) h = Some s"
    and "es_reserved_bytes s' = es_reserved_bytes s" and "es_tables s' = es_tables s"
  shows "excel_good S r (r\<lparr>xr_sources := AList.update h s' (xr_sources r)\<rparr>)" (is "excel_good S r ?r")
proof -
  have present: "h \<in> fst ` set (xr_sources r)" using assms(2) by (rule lookup_key [THEN conjunct2])
  have keys: "map fst (xr_sources ?r) = map fst (xr_sources r)" "length (xr_sources ?r) = length (xr_sources r)"
    using present by (simp_all add: update_present_keys update_present_length)
  have key_sets: "excel_source_keys ?r = excel_source_keys r" "excel_table_keys ?r = excel_table_keys r"
    using arg_cong [OF keys(1), of set] by (simp_all add: excel_source_keys_def excel_table_keys_def)
  have "excel_handles_ok ?r" using assms(1) keys key_sets by (simp add: excel_inv_def excel_handles_ok_def)
  moreover have "sources_reserved ?r = sources_reserved r"
    using update_same_measure [where g = es_reserved_bytes, OF assms(2,3)] by (simp add: sources_reserved_def)
  then have "memory_ok ?r" using assms(1) by (simp add: excel_inv_def memory_ok_def tables_reserved_def)
  moreover have "table_owned ?r t" if "table_owned r t" for t
    using that assms(2,4) by (auto simp: table_owned_def update_conv')
  ultimately show ?thesis
    using assms(1) keys key_sets by (auto simp: excel_good_def excel_inv_def excel_spent_def)
qed

section \<open>Closing\<close>

lemma delete_sum:
  "distinct (map fst al) \<Longrightarrow> map_of al k = Some v \<Longrightarrow>
     (\<Sum>(h, x) \<leftarrow> AList.delete k al. g x) + g v = (\<Sum>(h, x) \<leftarrow> al. g x)" for g :: "'a \<Rightarrow> nat"
proof (induction al)
  case (Cons p al)
  then show ?case
    by (cases p; cases "fst p = k") (auto simp: delete_conv' delete_idem map_of_eq_None_iff split: if_splits)
qed simp

lemma released_bytes_sum:
  "bytes + (\<Sum>(h, t) \<leftarrow> filter (\<lambda>(_, t). ot_source t = source) tables. ot_reserved_bytes t) \<le> u64_max \<Longrightarrow>
     released_bytes source bytes tables =
       bytes + (\<Sum>(h, t) \<leftarrow> filter (\<lambda>(_, t). ot_source t = source) tables. ot_reserved_bytes t)"
  unfolding released_bytes_def
  by (induction tables arbitrary: bytes) (auto simp: saturating_add_def)

lemma filter_sum_split:
  "(\<Sum>(h, t) \<leftarrow> filter (\<lambda>(_, t). P t) tables. g t) + (\<Sum>(h, t) \<leftarrow> filter (\<lambda>(_, t). \<not> P t) tables. g t) =
     (\<Sum>(h, t) \<leftarrow> tables. g t)" for g :: "'a \<Rightarrow> nat"
  by (induction tables) auto

lemma excel_table_removed:
  assumes "excel_inv S r"
  shows "excel_good S r (snd (excel_close_table h r))"
proof (cases "map_of (xr_tables r) h")
  case None
  then show ?thesis using excel_good_refl [OF assms] by (simp add: excel_close_table_def)
next
  case (Some t)
  let ?r = "snd (excel_close_table h r)"
  have r: "xr_tables ?r = AList.delete h (xr_tables r)" "xr_sources ?r = xr_sources r"
      "xr_retained_bytes ?r = xr_retained_bytes r - ot_reserved_bytes t" "xr_config ?r = xr_config r"
      "xr_next_handle ?r = xr_next_handle r"
    by (simp_all add: excel_close_table_def Some saturating_sub_def)
  have "tables_reserved ?r + ot_reserved_bytes t = tables_reserved r"
    using assms delete_sum [of "xr_tables r" h t ot_reserved_bytes] Some
    by (simp add: tables_reserved_def r excel_inv_def excel_handles_ok_def)
  moreover have "sources_reserved ?r = sources_reserved r" by (simp add: sources_reserved_def r)
  ultimately have "memory_ok ?r" using assms by (auto simp: excel_inv_def memory_ok_def r)
  moreover have "excel_table_keys ?r \<subseteq> excel_table_keys r" "excel_source_keys ?r = excel_source_keys r"
    by (auto simp: excel_table_keys_def excel_source_keys_def r delete_keys)
  moreover from this have "excel_handles_ok ?r"
    using assms by (auto simp: excel_inv_def excel_handles_ok_def r distinct_delete)
  moreover have "table_owned ?r u \<longleftrightarrow> table_owned r u" for u by (simp add: table_owned_def r)
  ultimately show ?thesis
    using assms by (auto simp: excel_good_def excel_inv_def excel_spent_def r delete_entry)
qed

lemma excel_source_removed:
  assumes "excel_inv S r"
  shows "excel_good S r (snd (excel_close_source h r))"
proof (cases "map_of (xr_sources r) h")
  case None
  then show ?thesis using excel_good_refl [OF assms] by (simp add: excel_close_source_def)
next
  case (Some s)
  let ?r = "snd (excel_close_source h r)"
  let ?mine = "\<Sum>(_, t) \<leftarrow> filter (\<lambda>(_, t). ot_source t = h) (xr_tables r). ot_reserved_bytes t"
  have r: "xr_tables ?r = filter (\<lambda>(_, t). ot_source t \<noteq> h) (xr_tables r)" "xr_sources ?r = AList.delete h (xr_sources r)"
      "xr_retained_bytes ?r = xr_retained_bytes r - released_bytes h (es_reserved_bytes s) (xr_tables r)"
      "xr_config ?r = xr_config r" "xr_next_handle ?r = xr_next_handle r"
    by (simp_all add: excel_close_source_def Some saturating_sub_def)
  have mem: "xr_retained_bytes r = sources_reserved r + tables_reserved r" "xr_retained_bytes r \<le> u64_max"
    using assms by (auto simp: excel_inv_def memory_ok_def)
  have sources: "sources_reserved ?r + es_reserved_bytes s = sources_reserved r"
    using assms delete_sum [of "xr_sources r" h s es_reserved_bytes] Some
    by (simp add: sources_reserved_def r excel_inv_def excel_handles_ok_def)
  have tables: "?mine + tables_reserved ?r = tables_reserved r"
    using filter_sum_split [of ot_reserved_bytes "\<lambda>t. ot_source t = h" "xr_tables r"] by (simp add: tables_reserved_def r)
  have "released_bytes h (es_reserved_bytes s) (xr_tables r) = es_reserved_bytes s + ?mine"
    by (rule released_bytes_sum) (use mem sources tables in linarith)
  then have "xr_retained_bytes ?r = sources_reserved ?r + tables_reserved ?r"
    using mem sources tables by (simp add: r)
  then have "memory_ok ?r" using assms sources tables by (auto simp: excel_inv_def memory_ok_def r(4))
  moreover have keys: "excel_table_keys ?r \<subseteq> excel_table_keys r" "excel_source_keys ?r = excel_source_keys r - {h}"
    by (auto simp: excel_table_keys_def excel_source_keys_def r delete_keys)
  moreover have "excel_handles_ok ?r"
    using assms keys by (auto simp: excel_inv_def excel_handles_ok_def r distinct_delete filter_keys_distinct)
  moreover have "table_owned ?r t" if "table_owned r t" "ot_source t \<noteq> h" for t
    using that by (auto simp: table_owned_def r delete_conv')
  moreover have "length (xr_sources ?r) \<le> length (xr_sources r)" by (simp add: r delete_length)
  ultimately show ?thesis
    using assms by (auto simp: excel_good_def excel_inv_def excel_spent_def r(1,4,5))
qed

lemma excel_shut_down: "excel_inv S r \<Longrightarrow> excel_good S r (excel_shutdown r)"
  by (auto simp: excel_shutdown_def excel_good_def excel_inv_def memory_ok_def excel_handles_ok_def
    excel_source_keys_def excel_table_keys_def sources_reserved_def tables_reserved_def excel_spent_def)

section \<open>Calls\<close>

lemma excel_allocate_cases:
  "excel_allocate_handle r = (if xr_next_handle r + 1 \<le> u32_max
     then (Inr (xr_next_handle r), r\<lparr>xr_next_handle := Suc (xr_next_handle r)\<rparr>)
     else (Inl (new_error ResourceLimit ''Excel runtime handle space exhausted''), r))"
  by (simp add: excel_allocate_handle_def prog_defs checked_add_u32_def)

lemma stage_source_ok:
  "stage_source E bytes options r = Inr (s, total_bytes) \<Longrightarrow>
     length (xr_sources r) < xc_max_sources (xr_config r) \<and>
     total_bytes = xr_retained_bytes r + es_reserved_bytes s \<and> total_bytes \<le> xc_memory_budget_bytes (xr_config r)"
  by (auto simp: stage_source_def Let_def split: if_splits)

text \<open>A refused source changes nothing.\<close>

lemma excel_open_source_cases:
  "excel_open_source E bytes options r =
     (case stage_source E bytes options r of
        Inl e \<Rightarrow> (Inl e, r)
      | Inr (s, total_bytes) \<Rightarrow>
          if xr_next_handle r + 1 \<le> u32_max
          then (Inr (xr_next_handle r), r\<lparr>xr_next_handle := Suc (xr_next_handle r), xr_retained_bytes := total_bytes,
                  xr_sources := AList.update (xr_next_handle r) s (xr_sources r)\<rparr>)
          else (Inl (Failed (new_error ResourceLimit ''Excel runtime handle space exhausted'')), r))"
  by (simp add: excel_open_source_def prog_defs pfallible_def fallible_def excel_allocate_cases split: sum.split prod.split)

lemma open_source_good:
  assumes "excel_inv S r"
  shows "excel_good S r (snd (excel_open_source E bytes options r))"
proof (cases "stage_source E bytes options r")
  case (Inl e)
  then show ?thesis using excel_good_refl [OF assms] by (simp add: excel_open_source_cases)
next
  case (Inr p)
  then obtain s n where p: "stage_source E bytes options r = Inr (s, n)" by (cases p) auto
  show ?thesis
    using stage_source_ok [OF p] excel_source_added [OF assms] excel_good_refl [OF assms]
    by (simp add: excel_open_source_cases p)
qed

lemma rcollect_columns: "build_metadata descriptor shape = Inr m \<Longrightarrow> length (schema_columns (meta_schema m)) = ss_columns shape"
  by (rule built_columns)

lemma validate_sheet_shape_ok:
  "validate_sheet_shape rows columns limits = Inr shape \<longleftrightarrow>
     rows \<le> max_worksheet_rows limits \<and> columns \<le> max_worksheet_columns limits \<and>
     rows * columns \<le> max_worksheet_cells limits \<and> rows * columns \<le> u64_max \<and>
     shape = \<lparr>ss_rows = rows, ss_columns = columns\<rparr>"
  by (auto simp: validate_sheet_shape_def)

lemma sheet_shape_within:
  "sheet_shape_of cells dimensions limits = Inr shape \<Longrightarrow>
     ss_rows shape \<le> max_worksheet_rows limits \<and> ss_columns shape \<le> max_worksheet_columns limits \<and>
     ss_rows shape * ss_columns shape \<le> max_worksheet_cells limits"
  by (auto simp: sheet_shape_of_def validate_sheet_shape_ok split: option.splits prod.splits)

lemma contents_reservation:
  "worksheet_reservation_with_contents S shape cells formulas = Inr w \<Longrightarrow>
     ss_rows shape * ss_columns shape * size_of_data S \<le> wr_retained_bytes w \<and> wr_retained_bytes w \<le> wr_open_bytes w"
  by (auto simp: worksheet_reservation_with_contents_def worksheet_reservation_of_def bind_eq_Some_conv)

text \<open>Reading a worksheet leaves the source its tables and its reservation.\<close>

definition prepared_from :: "cell_sizes \<Rightarrow> excel_limits \<Rightarrow> ('f, 'w) excel_source \<Rightarrow> 'f prepared_table \<Rightarrow> bool" where
  "prepared_from S limits s t \<longleftrightarrow> pt_descriptor t \<in> set (es_tables s) \<and>
     build_metadata (pt_descriptor t) (pt_shape t) = Inr (pt_metadata t) \<and>
     ss_rows (pt_shape t) \<le> max_worksheet_rows limits \<and> ss_columns (pt_shape t) \<le> max_worksheet_columns limits \<and>
     ss_rows (pt_shape t) * ss_columns (pt_shape t) \<le> max_worksheet_cells limits \<and>
     ss_rows (pt_shape t) * ss_columns (pt_shape t) * size_of_data S \<le> wr_retained_bytes (pt_reservation t) \<and>
     wr_retained_bytes (pt_reservation t) \<le> wr_open_bytes (pt_reservation t)"

definition same_source :: "('f, 'w) excel_source \<Rightarrow> ('f, 'w) excel_source \<Rightarrow> bool" where
  "same_source s s' \<longleftrightarrow> (\<exists>w. s' = s\<lparr>es_workbook := w\<rparr>)"

lemma same_source_fields:
  "same_source s s' \<Longrightarrow> es_reserved_bytes s' = es_reserved_bytes s \<and> es_tables s' = es_tables s \<and>
     es_presentation s' = es_presentation s \<and> es_format s' = es_format s"
  by (auto simp: same_source_def)

lemma on_workbook_wp:
  assumes "same_source s0 s" and "\<And>a s'. same_source s0 s' \<Longrightarrow> Q a s'" and "\<And>e s'. same_source s0 s' \<Longrightarrow> F e s'"
  shows "wp (on_workbook m) Q F s"
proof -
  obtain r w where "m (es_workbook s) = (r, w)" by force
  moreover have "same_source s0 (s\<lparr>es_workbook := w\<rparr>)" using assms(1) by (auto simp: same_source_def)
  ultimately show ?thesis using assms(2,3) by (cases r) (auto simp: wp_def on_workbook_def)
qed

lemma source_descriptor_ok: "source_descriptor s table_id = Inr d \<Longrightarrow> d \<in> set (es_tables s) \<and> xd_id d = table_id"
  by (auto simp: source_descriptor_def find_Some_iff elim!: ok_or.elims)

lemma prepare_table_wp:
  "wp (prepare_table E table_id limits) (\<lambda>t s'. same_source s s' \<and> prepared_from (xe_cell_sizes E) limits s t \<and>
       xd_id (pt_descriptor t) = table_id)
     (\<lambda>_ s'. same_source s s') s"
proof -
  have refl: "same_source s s" unfolding same_source_def by (rule exI [of _ "es_workbook s"]) simp
  show ?thesis
    unfolding prepare_table_def wps
    by (auto split: sum.splits intro!: on_workbook_wp [of s] simp: refl prepared_from_def wps
      dest: source_descriptor_ok sheet_shape_within contents_reservation)
qed

definition opened_table :: "nat \<Rightarrow> 'f prepared_table \<Rightarrow> 'f open_table" where
  "opened_table source t =
     \<lparr>ot_source = source, ot_descriptor = pt_descriptor t, ot_metadata = pt_metadata t, ot_shape = pt_shape t,
      ot_range = pt_range t, ot_reserved_bytes = wr_retained_bytes (pt_reservation t)\<rparr>"

text \<open>
  Opening a worksheet ends in one of three ways: before the source is read, with only the
  workbook of the source changed, or with a new worksheet.
\<close>

definition touched_source :: "nat \<Rightarrow> ('f, 'w) excel_source \<Rightarrow> ('f, 'w) excel_runtime \<Rightarrow> ('f, 'w) excel_runtime" where
  "touched_source h s r = r\<lparr>xr_sources := AList.update h s (xr_sources r)\<rparr>"

definition added_table :: "'f open_table \<Rightarrow> ('f, 'w) excel_runtime \<Rightarrow> ('f, 'w) excel_runtime" where
  "added_table t r = r\<lparr>xr_next_handle := Suc (xr_next_handle r),
     xr_retained_bytes := xr_retained_bytes r + ot_reserved_bytes t,
     xr_tables := AList.update (xr_next_handle r) t (xr_tables r)\<rparr>"

lemma touched_source_fields [simp]:
  "xr_config (touched_source h s r) = xr_config r" "xr_next_handle (touched_source h s r) = xr_next_handle r"
  "xr_retained_bytes (touched_source h s r) = xr_retained_bytes r" "xr_tables (touched_source h s r) = xr_tables r"
  by (simp_all add: touched_source_def)

lemma prepared_room:
  assumes "prepared_from S limits s t" and "open_working_set (pt_reservation t) available = Inr u"
    and "available_memory r = Inr available" and "xc_memory_budget_bytes (xr_config r) \<le> u64_max"
  shows "xr_retained_bytes r + wr_retained_bytes (pt_reservation t) \<le> xc_memory_budget_bytes (xr_config r) \<and>
    checked_add (xr_retained_bytes r) (wr_retained_bytes (pt_reservation t)) =
      Some (xr_retained_bytes r + wr_retained_bytes (pt_reservation t))"
  using assms by (auto simp: prepared_from_def open_working_set_def available_memory_def elim!: ok_or.elims)

lemma open_table_outcome:
  assumes inv: "excel_inv (xe_cell_sizes E) r" and run: "excel_open_table E h table_id r = (result, r')"
  shows "(\<exists>e. result = Inl e \<and> r' = r) \<or>
    (\<exists>e s s'. result = Inl e \<and> map_of (xr_sources r) h = Some s \<and> same_source s s' \<and> r' = touched_source h s' r) \<or>
    (\<exists>s s' t. map_of (xr_sources r) h = Some s \<and> same_source s s' \<and>
       prepared_from (xe_cell_sizes E) (xc_limits (xr_config r)) s t \<and> xd_id (pt_descriptor t) = table_id \<and>
       xr_next_handle r + 1 \<le> u32_max \<and>
       xr_retained_bytes r + wr_retained_bytes (pt_reservation t) \<le> xc_memory_budget_bytes (xr_config r) \<and>
       result = Inr \<lparr>to_table_handle = xr_next_handle r, to_metadata = pt_metadata t, to_warnings = pt_warnings t\<rparr> \<and>
       r' = added_table (opened_table h t) (touched_source h s' r))"
proof -
  let ?limits = "xc_limits (xr_config r)"
  let ?checks = "rbind (rbind (excel_source_of r h) (\<lambda>s. declared_shape s table_id ?limits)) (\<lambda>declared.
     rbind (worksheet_reservation_of (xe_cell_sizes E) declared) (\<lambda>reservation.
     rbind (available_memory r) (\<lambda>available.
     rbind (open_working_set reservation available) (\<lambda>_. Inr available))))"
  show ?thesis
  proof (cases ?checks)
    case (Inl e)
    then have "result = Inl e \<and> r' = r"
      using run unfolding excel_open_table_def prog_defs Let_def
      by (auto simp: rbind_Inl_iff split: sum.splits)
    then show ?thesis by simp
  next
    case checks: (Inr available)
    then obtain s where s: "map_of (xr_sources r) h = Some s" and available: "available_memory r = Inr available"
      by (auto simp: excel_source_of_def elim!: ok_or.elims)
    obtain prepared s' where prepared: "prepare_table E table_id ?limits s = (prepared, s')" by force
    have on: "on_source h (prepare_table E table_id ?limits) r = (prepared, touched_source h s' r)"
      by (simp add: on_source_def s prepared touched_source_def)
    note wp = prepare_table_wp [of E table_id ?limits s]
    show ?thesis
    proof (cases prepared)
      case (Inl e)
      then have "same_source s s'" using wp prepared by (simp add: wp_def)
      moreover have "result = Inl e \<and> r' = touched_source h s' r"
        using run checks on Inl unfolding excel_open_table_def prog_defs Let_def
        by (auto split: sum.splits)
      ultimately show ?thesis using s by blast
    next
      case (Inr t)
      then have t: "same_source s s'" "prepared_from (xe_cell_sizes E) ?limits s t" "xd_id (pt_descriptor t) = table_id"
        using wp prepared by (simp_all add: wp_def)
      have rest: "excel_open_table E h table_id r =
          pbind (plift (open_working_set (pt_reservation t) available)) (\<lambda>_.
          pbind excel_allocate_handle (\<lambda>table_handle.
          pbind pget (\<lambda>r.
          pbind (plift (ok_or (checked_add (xr_retained_bytes r) (wr_retained_bytes (pt_reservation t)))
            (new_error ResourceLimit ''Excel opened-worksheet memory reservation overflows''))) (\<lambda>total_bytes.
          pbind (pmodify (\<lambda>r. r\<lparr>xr_retained_bytes := total_bytes,
            xr_tables := AList.update table_handle (opened_table h t) (xr_tables r)\<rparr>)) (\<lambda>_.
          preturn \<lparr>to_table_handle = table_handle, to_metadata = pt_metadata t, to_warnings = pt_warnings t\<rparr>)))))
          (touched_source h s' r)"
        using checks on Inr unfolding excel_open_table_def prog_defs Let_def opened_table_def
        by (auto split: sum.splits)
      have budget: "xc_memory_budget_bytes (xr_config r) \<le> u64_max" using inv by (simp add: excel_inv_def memory_ok_def)
      consider (tight) e where "open_working_set (pt_reservation t) available = Inl e"
        | (spent) u where "open_working_set (pt_reservation t) available = Inr u" "\<not> xr_next_handle r + 1 \<le> u32_max"
        | (opened) u where "open_working_set (pt_reservation t) available = Inr u" "xr_next_handle r + 1 \<le> u32_max"
        by (cases "open_working_set (pt_reservation t) available") auto
      then show ?thesis
      proof cases
        case opened
        note room = prepared_room [OF t(2) opened(1) available budget]
        have "excel_open_table E h table_id r =
            (Inr \<lparr>to_table_handle = xr_next_handle r, to_metadata = pt_metadata t, to_warnings = pt_warnings t\<rparr>,
             added_table (opened_table h t) (touched_source h s' r))"
          unfolding rest prog_defs using opened room
          by (simp add: excel_allocate_cases added_table_def opened_table_def)
        then show ?thesis using run s t opened(2) room by auto
      qed (use run s t(1) in \<open>auto simp: rest prog_defs excel_allocate_cases\<close>)
    qed
  qed
qed

lemma open_table_good:
  assumes inv: "excel_inv (xe_cell_sizes E) r"
  shows "excel_good (xe_cell_sizes E) r (snd (excel_open_table E h table_id r))"
proof -
  obtain result r' where run: "excel_open_table E h table_id r = (result, r')" by force
  have touched: "excel_good (xe_cell_sizes E) r (touched_source h s' r)"
    if "map_of (xr_sources r) h = Some s" "same_source s s'" for s s'
    unfolding touched_source_def
    by (rule excel_source_touched [OF inv that(1)]) (simp_all add: same_source_fields [OF that(2)])
  from open_table_outcome [OF inv run] show ?thesis
  proof (elim disjE exE conjE)
    fix s s' t
    assume s: "map_of (xr_sources r) h = Some s" "same_source s s'"
      and t: "prepared_from (xe_cell_sizes E) (xc_limits (xr_config r)) s t" and next_handle: "xr_next_handle r + 1 \<le> u32_max"
      and room: "xr_retained_bytes r + wr_retained_bytes (pt_reservation t) \<le> xc_memory_budget_bytes (xr_config r)"
      and r': "r' = added_table (opened_table h t) (touched_source h s' r)"
    note good = touched [OF s]
    have "table_owned (touched_source h s' r) (opened_table h t)"
      using t same_source_fields [OF s(2)]
      by (auto simp: table_owned_def touched_source_def opened_table_def prepared_from_def update_conv')
    moreover have "table_ready (xe_cell_sizes E) (xc_limits (xr_config r)) (opened_table h t)"
      using t by (simp add: table_ready_def opened_table_def prepared_from_def)
    ultimately have "excel_good (xe_cell_sizes E) (touched_source h s' r) r'"
      unfolding r' added_table_def using good next_handle room
      by (intro excel_table_added) (simp_all add: excel_good_def opened_table_def)
    with good show ?thesis using run by (auto intro: excel_good_trans)
  qed (use run touched excel_good_refl [OF inv] in auto)
qed

section \<open>Any sequence of calls\<close>

datatype excel_call =
    CallOpenSource "byte list" excel_options
  | CallOpenTable nat string
  | CallCloseTable nat
  | CallCloseSource nat
  | CallShutdown

fun excel_step :: "('k, 'f, 'w) excel_env \<Rightarrow> excel_call \<Rightarrow> ('f, 'w) excel_runtime \<Rightarrow> ('f, 'w) excel_runtime" where
  "excel_step E (CallOpenSource bytes options) r = snd (excel_open_source E bytes options r)"
| "excel_step E (CallOpenTable h table_id) r = snd (excel_open_table E h table_id r)"
| "excel_step E (CallCloseTable h) r = snd (excel_close_table h r)"
| "excel_step E (CallCloseSource h) r = snd (excel_close_source h r)"
| "excel_step E CallShutdown r = excel_shutdown r"

lemma excel_step_good:
  "excel_inv (xe_cell_sizes E) r \<Longrightarrow> excel_good (xe_cell_sizes E) r (excel_step E call r)"
  by (cases call) (simp_all add: open_source_good open_table_good excel_table_removed excel_source_removed excel_shut_down)

lemma excel_inv_within: "excel_inv S r \<Longrightarrow> xr_retained_bytes r \<le> xc_memory_budget_bytes (xr_config r)"
  by (simp add: excel_inv_def memory_ok_def)

lemma excel_step_keeps:
  assumes "excel_inv (xe_cell_sizes E) r"
  shows "excel_inv (xe_cell_sizes E) (excel_step E call r)" and "xr_config (excel_step E call r) = xr_config r"
    and "excel_spent h r \<Longrightarrow> excel_spent h (excel_step E call r)"
  using excel_step_good [OF assms, of call] by (simp_all add: excel_good_def)

interpretation workbooks: metered_machine "excel_step E" "excel_inv (xe_cell_sizes E)" xr_retained_bytes
  "\<lambda>r. xc_memory_budget_bytes (xr_config r)" for E
  by unfold_locales (simp_all add: excel_step_keeps excel_inv_within)

interpretation retired: step_machine "excel_step E" "\<lambda>r. excel_inv (xe_cell_sizes E) r \<and> excel_spent h r" for E h
  by unfold_locales (simp add: excel_step_keeps)

lemma excel_run_config: "excel_inv (xe_cell_sizes E) r \<Longrightarrow> xr_config (fold (excel_step E) calls r) = xr_config r"
  by (induction calls arbitrary: r) (simp_all add: excel_step_keeps)

text \<open>
  C23: The registry never holds more than its budget. After any sequence of calls on a new
  registry the memory counter is exactly what the open sources and worksheets reserve, within
  the configured budget, and there are at most the configured number of sources. Every open
  worksheet belongs to an open source that lists it, is within the worksheet limits (rows,
  columns and cells), has a schema of exactly its columns, and is charged at least one cell slot for each of its cells.
\<close>

theorem excel_registry_within_budget:
  assumes "excel_runtime_new config = Inr (r0 :: ('f, 'w) excel_runtime)" and "xc_memory_budget_bytes config \<le> u64_max"
    and "r = fold (excel_step E) calls r0"
  shows "xr_retained_bytes r = (\<Sum>(h, s) \<leftarrow> xr_sources r. es_reserved_bytes s) + (\<Sum>(h, t) \<leftarrow> xr_tables r. ot_reserved_bytes t) \<and>
    xr_retained_bytes r \<le> xc_memory_budget_bytes config \<and> length (xr_sources r) \<le> xc_max_sources config \<and>
    (\<forall>(h, t) \<in> set (xr_tables r).
       (\<exists>s. map_of (xr_sources r) (ot_source t) = Some s \<and> ot_descriptor t \<in> set (es_tables s)) \<and>
       ss_rows (ot_shape t) \<le> max_worksheet_rows (xc_limits config) \<and>
       ss_columns (ot_shape t) \<le> max_worksheet_columns (xc_limits config) \<and>
       ss_rows (ot_shape t) * ss_columns (ot_shape t) \<le> max_worksheet_cells (xc_limits config) \<and>
       length (schema_columns (meta_schema (ot_metadata t))) = ss_columns (ot_shape t) \<and>
       ss_rows (ot_shape t) * ss_columns (ot_shape t) * size_of_data (xe_cell_sizes E) \<le> ot_reserved_bytes t)"
proof -
  have r0: "excel_inv (xe_cell_sizes E) r0" "xr_config r0 = config"
    using excel_new_inv [OF assms(1,2)] assms(1) by (auto simp: excel_runtime_new_def split: if_splits)
  have "excel_inv (xe_cell_sizes E) r" unfolding assms(3) by (rule workbooks.run_inv [OF r0(1)])
  moreover have "xr_config r = config" unfolding assms(3) using excel_run_config [OF r0(1)] r0(2) by simp
  ultimately show ?thesis
    by (auto simp: excel_inv_def memory_ok_def sources_reserved_def tables_reserved_def table_ready_def table_owned_def
      dest: built_columns(1))
qed

lemma closed_source_spent:
  assumes inv: "excel_inv S r" and s: "map_of (xr_sources r) h = Some s"
    and k: "k = h \<or> (\<exists>t. (k, t) \<in> set (xr_tables r) \<and> ot_source t = h)"
  shows "excel_spent k (snd (excel_close_source h r))"
proof -
  let ?r = "snd (excel_close_source h r)"
  have fields: "xr_next_handle ?r = xr_next_handle r" "excel_source_keys ?r = excel_source_keys r - {h}"
      "excel_table_keys ?r = fst ` set (filter (\<lambda>(_, t). ot_source t \<noteq> h) (xr_tables r))"
    by (simp_all add: excel_close_source_def s excel_source_keys_def excel_table_keys_def delete_keys)
  have ok: "excel_source_keys r \<inter> excel_table_keys r = {}" "distinct (map fst (xr_tables r))"
      "\<And>h. h \<in> excel_source_keys r \<union> excel_table_keys r \<Longrightarrow> h < xr_next_handle r"
    using inv by (simp_all add: excel_inv_def excel_handles_ok_def)
  have h: "h \<in> excel_source_keys r" using lookup_key [OF s] by (simp add: excel_source_keys_def)
  have filtered: "fst ` set (filter (\<lambda>(_, t). ot_source t \<noteq> h) (xr_tables r)) \<subseteq> excel_table_keys r"
    by (auto simp: excel_table_keys_def)
  show ?thesis
  proof (cases "k = h")
    case True
    then have "k \<notin> excel_table_keys ?r" using h ok(1) filtered fields(3) by blast
    then show ?thesis using True h ok(3) by (simp add: excel_spent_def fields)
  next
    case False
    then obtain t where t: "(k, t) \<in> set (xr_tables r)" "ot_source t = h" using k by blast
    then have key: "k \<in> excel_table_keys r" by (force simp: excel_table_keys_def)
    have "k \<notin> fst ` set (filter (\<lambda>(_, t). ot_source t \<noteq> h) (xr_tables r))"
    proof
      assume "k \<in> fst ` set (filter (\<lambda>(_, t). ot_source t \<noteq> h) (xr_tables r))"
      then obtain u where "(k, u) \<in> set (xr_tables r)" "ot_source u \<noteq> h" by auto
      with t ok(2) show False using eq_key_imp_eq_value by metis
    qed
    then show ?thesis using key ok(1,3) by (auto simp: excel_spent_def fields)
  qed
qed

lemma spent_handle_closed:
  assumes inv: "excel_inv (xe_cell_sizes E) r" and spent: "excel_spent k r"
  shows "excel_source_of r k = Inl (closed_handle ''source'')" and "excel_table_of r k = Inl (closed_handle ''table'')"
    and "fst (excel_open_source E bytes options r) \<noteq> Inr k"
    and "fst (excel_open_table E h table_id r) = Inr result \<Longrightarrow> to_table_handle result \<noteq> k"
proof -
  have k: "map_of (xr_sources r) k = None" "map_of (xr_tables r) k = None" "k < xr_next_handle r"
    using spent by (simp_all add: excel_spent_def excel_source_keys_def excel_table_keys_def lookup_none)
  then show "excel_source_of r k = Inl (closed_handle ''source'')" "excel_table_of r k = Inl (closed_handle ''table'')"
    by (simp_all add: excel_source_of_def excel_table_of_def)
  show "fst (excel_open_source E bytes options r) \<noteq> Inr k"
    using k(3) by (simp add: excel_open_source_cases split: sum.split prod.split)
  assume "fst (excel_open_table E h table_id r) = Inr result"
  then obtain r' where "excel_open_table E h table_id r = (Inr result, r')" by (metis prod.collapse)
  from open_table_outcome [OF inv this] k(3) show "to_table_handle result \<noteq> k" by auto
qed

text \<open>
  C25: Closing a source closes its worksheets for good. Once an open source is closed, no
  sequence of later calls makes its handle, or the handle of a worksheet opened from it, name
  anything again: using it reports a closed handle, and no handle given out later equals it.
\<close>

theorem excel_closed_stays_closed:
  assumes "excel_runtime_new config = Inr (r0 :: ('f, 'w) excel_runtime)" and "xc_memory_budget_bytes config \<le> u64_max"
    and "r = fold (excel_step E) calls r0" and "map_of (xr_sources r) h = Some s"
    and "k = h \<or> (\<exists>t. (k, t) \<in> set (xr_tables r) \<and> ot_source t = h)"
    and "r' = fold (excel_step E) later (snd (excel_close_source h r))"
  shows "excel_source_of r' k = Inl (closed_handle ''source'') \<and> excel_table_of r' k = Inl (closed_handle ''table'') \<and>
    fst (excel_open_source E bytes options r') \<noteq> Inr k \<and>
    (\<forall>result. fst (excel_open_table E h' table_id r') = Inr result \<longrightarrow> to_table_handle result \<noteq> k)"
proof -
  have inv: "excel_inv (xe_cell_sizes E) r"
    unfolding assms(3) by (rule workbooks.run_inv [OF excel_new_inv [OF assms(1,2)]])
  have "excel_inv (xe_cell_sizes E) (snd (excel_close_source h r))"
    using excel_source_removed [OF inv] by (simp add: excel_good_def)
  with closed_source_spent [OF inv assms(4,5)]
  have "excel_inv (xe_cell_sizes E) r' \<and> excel_spent k r'"
    unfolding assms(6) by (intro retired.run_inv) simp
  then show ?thesis using spent_handle_closed by blast
qed

text \<open>
  C26: A failed call costs nothing. When a source is refused or its parser panics the registry
  is exactly as before. When a worksheet is refused the counters, the handles and the open
  worksheets are as before, and every source is as before but for the workbook the reader may
  have advanced.
\<close>

theorem excel_failed_call_keeps:
  assumes "excel_runtime_new config = Inr (r0 :: ('f, 'w) excel_runtime)" and "xc_memory_budget_bytes config \<le> u64_max"
    and "r = fold (excel_step E) calls r0"
  shows "(excel_open_source E bytes options r = (Inl e, r1) \<longrightarrow> r1 = r) \<and>
    (excel_open_table E h table_id r = (Inl e', r2) \<longrightarrow>
       xr_config r2 = xr_config r \<and> xr_next_handle r2 = xr_next_handle r \<and> xr_retained_bytes r2 = xr_retained_bytes r \<and>
       xr_tables r2 = xr_tables r \<and> map fst (xr_sources r2) = map fst (xr_sources r) \<and>
       (\<forall>k w. map_option (\<lambda>s. s\<lparr>es_workbook := w\<rparr>) (map_of (xr_sources r2) k) =
          map_option (\<lambda>s. s\<lparr>es_workbook := w\<rparr>) (map_of (xr_sources r) k)))"
proof -
  have inv: "excel_inv (xe_cell_sizes E) r"
    unfolding assms(3) by (rule workbooks.run_inv [OF excel_new_inv [OF assms(1,2)]])
  have "r1 = r" if "excel_open_source E bytes options r = (Inl e, r1)"
    using that by (auto simp: excel_open_source_cases split: sum.splits prod.splits if_splits)
  moreover have "r2 = r \<or> (\<exists>s s'. map_of (xr_sources r) h = Some s \<and> same_source s s' \<and> r2 = touched_source h s' r)"
    if "excel_open_table E h table_id r = (Inl e', r2)"
    using open_table_outcome [OF inv that] by auto
  moreover have "map fst (xr_sources (touched_source h s' r)) = map fst (xr_sources r) \<and>
      map_option (\<lambda>s. s\<lparr>es_workbook := w\<rparr>) (map_of (xr_sources (touched_source h s' r)) k) =
      map_option (\<lambda>s. s\<lparr>es_workbook := w\<rparr>) (map_of (xr_sources r) k)"
    if "map_of (xr_sources r) h = Some s" "same_source s s'" for s s' k w
    using that lookup_key [OF that(1)]
    by (auto simp: touched_source_def same_source_def update_conv' update_present_keys)
  ultimately show ?thesis by auto
qed

end
