(* ===== verification/Excel_Queries.thy ===== *)
theory Excel_Queries
  imports Excel_Safety
begin

text \<open>
  Reading a worksheet through the registry: which requests are answered, with which cells, and
  that the answer fits the memory that is left. Then one session over a concrete workbook, the
  witness of what holds of every session.
\<close>

section \<open>Reading\<close>

text \<open>What a read may use: the memory left, and what the answer may take of it.\<close>

definition mask_room :: "('k, 'f, 'w) excel_env \<Rightarrow> range_request \<Rightarrow> nat" where
  "mask_room E q = row_count q * column_count q * xe_size_of_mask_cell E"

definition answer_room :: "('k, 'f, 'w) excel_env \<Rightarrow> ('f, 'w) excel_runtime \<Rightarrow> range_request \<Rightarrow> nat" where
  "answer_room E r q = min (max_excel_batch_bytes (xc_limits (xr_config r)))
     (xc_memory_budget_bytes (xr_config r) - xr_retained_bytes r - mask_room E q)"

lemma runtime_read_run:
  assumes inv: "excel_inv S r" and valid: "validate_range_request q shape limits = Inr ()"
    and table: "map_of (xr_tables r) h = Some t" and source: "map_of (xr_sources r) (ot_source t) = Some s"
  shows "xr_retained_bytes r + mask_room E q \<le> xc_memory_budget_bytes (xr_config r) \<Longrightarrow> answer_room E r q \<noteq> 0 \<Longrightarrow>
      excel_runtime_read_range E r h q =
        excel_read_range (xe_show_f64 E) (es_presentation s) t q (xc_limits (xr_config r)) (answer_room E r q)" and
    "is_ok (excel_runtime_read_range E r h q) \<Longrightarrow>
       xr_retained_bytes r + mask_room E q \<le> xc_memory_budget_bytes (xr_config r) \<and> answer_room E r q \<noteq> 0"
proof -
  have budget: "xr_retained_bytes r \<le> xc_memory_budget_bytes (xr_config r)" "xc_memory_budget_bytes (xr_config r) \<le> u64_max"
    using inv by (simp_all add: excel_inv_def memory_ok_def)
  have available: "available_memory r = Inr (xc_memory_budget_bytes (xr_config r) - xr_retained_bytes r)"
    using budget by (simp add: available_memory_def)
  have checks: "validate_public q = Inr ()" "cell_count q = Inr (row_count q * column_count q)"
    using valid by (auto simp: validate_range_request_def cell_count_def split: if_splits)
  note run = excel_runtime_read_range_def [of E r h q, unfolded checks available rbind.simps Let_def
    excel_table_of_def excel_source_of_def table ok_or.simps source, folded mask_room_def]
  {
    assume fits: "xr_retained_bytes r + mask_room E q \<le> xc_memory_budget_bytes (xr_config r)" "answer_room E r q \<noteq> 0"
    then have "mask_room E q \<le> u64_max" using budget by simp
    then have mask: "checked_mul (row_count q * column_count q) (xe_size_of_mask_cell E) = Some (mask_room E q)"
      by (simp add: mask_room_def)
    show "excel_runtime_read_range E r h q =
        excel_read_range (xe_show_f64 E) (es_presentation s) t q (xc_limits (xr_config r)) (answer_room E r q)"
    proof -
      have reserve: "ensure_reservation_budget ''range-mask-working-set'' (mask_room E q)
          (xc_memory_budget_bytes (xr_config r) - xr_retained_bytes r)
          ''Excel range mask working set exceeds the available memory budget'' = Inr ()"
        using fits(1) by simp
      then show ?thesis
        using fits(2) unfolding run mask ok_or.simps rbind.simps reserve saturating_sub_def answer_room_def [symmetric]
        by simp
    qed
  }
  assume "is_ok (excel_runtime_read_range E r h q)"
  then show "xr_retained_bytes r + mask_room E q \<le> xc_memory_budget_bytes (xr_config r) \<and> answer_room E r q \<noteq> 0"
    using budget unfolding run
    by (auto simp: is_ok_iff mask_room_def answer_room_def saturating_sub_def split: if_splits)
qed

text \<open>
  C24: A range of an open worksheet is read exactly when it fits. In any registry reached by
  calls, a valid request on an open worksheet whose merged regions do not overlap there is
  answered exactly when the mask of hidden cells fits the memory that is left and the columns
  of the answer fit both the batch limit and what is left then. The answer has the rows the
  sheet has of the request, each cell null if a merged region hides it and the display text of
  the sheet's value otherwise, and what is open, the mask and the answer together stay within
  the budget.
\<close>

theorem excel_read_exact:
  fixes E :: "('k, 'f, 'w) excel_env" and t :: "'f open_table" and s :: "('f, 'w) excel_source" and q :: range_request
  defines "cell \<equiv> \<lambda>row column. if hidden_cell (es_presentation s) (ot_descriptor t) row column then None
    else map_option bytes_of_string (Option.bind (cr_get_value (ot_range t) (row, column)) (display_string (xe_show_f64 E)))"
    and "rows \<equiv> min (row_count q) (ss_rows (ot_shape t) - row_start q)"
  defines "used \<equiv> 4 * column_count q + (\<Sum>j < column_count q.
      encoded_size (map (\<lambda>i. cell (row_start q + i) (column_start q + j)) [0..<rows]))"
  assumes "excel_runtime_new config = Inr (r0 :: ('f, 'w) excel_runtime)" and "xc_memory_budget_bytes config \<le> u64_max"
    and "r = fold (excel_step E) calls r0" and "max_excel_batch_bytes (xc_limits config) \<le> u32_max"
    and table: "map_of (xr_tables r) h = Some t" and source: "map_of (xr_sources r) (ot_source t) = Some s"
    and valid: "validate_range_request q (ot_shape t) (xc_limits config) = Inr ()"
    and apart: "\<And>layout. sheet_layout (es_presentation s) (ot_descriptor t) = Some layout \<Longrightarrow>
      disjoint_regions (q\<lparr>row_count := rows\<rparr>) (wp_merged_cells layout)"
    and encoded: "\<And>row column. utf8_valid (value_data (cell row column))"
  shows "is_ok (excel_runtime_read_range E r h q) =
      (xr_retained_bytes r + mask_room E q \<le> xc_memory_budget_bytes config \<and> 0 < answer_room E r q \<and>
       used \<le> answer_room E r q) \<and>
    (\<forall>batch. excel_runtime_read_range E r h q = Inr batch \<longrightarrow>
       xr_retained_bytes r + mask_room E q + used \<le> xc_memory_budget_bytes config \<and>
       tb_range batch = q\<lparr>row_count := rows\<rparr> \<and> tb_complete batch = (rows = row_count q) \<and>
       length (tb_columns batch) = column_count q \<and>
       (\<forall>j < column_count q. scb_len (tb_columns batch ! j) = rows \<and>
          (\<forall>i < rows. scb_value (tb_columns batch ! j) i =
             Returns (Some (cell (row_start q + i) (column_start q + j))))))"
proof -
  have r0: "excel_inv (xe_cell_sizes E) r0" "xr_config r0 = config"
    using excel_new_inv [OF assms(4,5)] assms(4) by (auto simp: excel_runtime_new_def split: if_splits)
  have inv: "excel_inv (xe_cell_sizes E) r" unfolding assms(6) by (rule workbooks.run_inv [OF r0(1)])
  have config: "xr_config r = config" unfolding assms(6) using excel_run_config [OF r0(1)] r0(2) by simp
  have ready: "table_ready (xe_cell_sizes E) (xc_limits config) t"
    using inv lookup_key [OF table] config by (auto simp: excel_inv_def)
  have "excel_limits_validate (xc_limits config) = Inr ()" using inv config by (simp add: excel_inv_def)
  then have "max_worksheet_rows (xc_limits config) \<le> u32_max" "max_worksheet_columns (xc_limits config) \<le> u32_max"
    by (auto dest!: excel_limits_validated simp: u32_max_def)
  then have small: "ss_rows (ot_shape t) \<le> u32_max" "ss_columns (ot_shape t) \<le> u32_max"
    using ready by (auto simp: table_ready_def)
  have metadata: "build_metadata (ot_descriptor t) (ot_shape t) = Inr (ot_metadata t)"
    using ready by (simp add: table_ready_def)
  have room: "answer_room E r q \<le> u32_max" using assms(7) by (simp add: answer_room_def config)
  have exact: "is_ok (excel_read_range (xe_show_f64 E) (es_presentation s) t q (xc_limits config) (answer_room E r q)) =
      (used \<le> answer_room E r q) \<and>
    (\<forall>batch. excel_read_range (xe_show_f64 E) (es_presentation s) t q (xc_limits config) (answer_room E r q) = Inr batch \<longrightarrow>
       tb_table_id batch = xd_id (ot_descriptor t) \<and>
       tb_range batch = q\<lparr>row_count := rows\<rparr> \<and> tb_complete batch = (rows = row_count q) \<and>
       length (tb_columns batch) = column_count q \<and>
       (\<forall>j < column_count q. scb_column_id (tb_columns batch ! j) = CHR ''c'' # nat_to_dec (column_start q + j) \<and>
          scb_len (tb_columns batch ! j) = rows \<and>
          (\<forall>i < rows. scb_value (tb_columns batch ! j) i =
             Returns (Some (cell (row_start q + i) (column_start q + j))))))"
    unfolding used_def cell_def rows_def
    by (rule range_read_run [OF metadata small room valid apart [unfolded rows_def] encoded [unfolded cell_def]])
  note run = runtime_read_run [OF inv valid table source, of E, unfolded config]
  show ?thesis
  proof (cases "xr_retained_bytes r + mask_room E q \<le> xc_memory_budget_bytes config \<and> answer_room E r q \<noteq> 0")
    case True
    then have same: "excel_runtime_read_range E r h q =
        excel_read_range (xe_show_f64 E) (es_presentation s) t q (xc_limits config) (answer_room E r q)"
      using run(1) by simp
    have fits: "xr_retained_bytes r + mask_room E q + used \<le> xc_memory_budget_bytes config" if "used \<le> answer_room E r q"
      using that True by (auto simp: answer_room_def config)
    have "used \<le> answer_room E r q"
      if "excel_read_range (xe_show_f64 E) (es_presentation s) t q (xc_limits config) (answer_room E r q) = Inr batch" for batch
      using exact that by (simp add: is_ok_def)
    then show ?thesis unfolding same using exact True fits by blast
  next
    case False
    then have "\<not> is_ok (excel_runtime_read_range E r h q)" using run(2) by blast
    moreover from this have "excel_runtime_read_range E r h q \<noteq> Inr batch" for batch by (auto simp: is_ok_def)
    ultimately show ?thesis using False by blast
  qed
qed

section \<open>A session\<close>

text \<open>The workbook of one styled cell, whose only worksheet holds one text.\<close>

definition one_text :: "unit cell_data cell_range" where
  "one_text = \<lparr>cr_start = Some (0, 0), cr_end = Some (0, 0),
     cr_get_value = (\<lambda>at. if at = (0, 0) then Some (DataString \<lparr>os_text = ''hi'', os_capacity = 2\<rparr>) else None),
     cr_used_cells = [(0, 0, DataString \<lparr>os_text = ''hi'', os_capacity = 2\<rparr>)]\<rparr>"

definition no_formulas :: "owned_string cell_range" where
  "no_formulas = \<lparr>cr_start = None, cr_end = None, cr_get_value = (\<lambda>_. None), cr_used_cells = []\<rparr>"

definition text_reader :: "(unit, unit) calamine" where
  "text_reader = \<lparr>cal_xls_new = (\<lambda>_. Inr ()), cal_xlsx_new = (\<lambda>_. Inl ''not a package''),
     cal_sheets = (\<lambda>_. [\<lparr>cs_name = ''S'', cs_typ = WorkSheet, cs_visible = SheetVisible\<rparr>]),
     cal_range = (\<lambda>_ w. (Inr one_text, w)), cal_formula = (\<lambda>_ w. (Inr no_formulas, w))\<rparr>"

definition bare_alloc :: "unit presentation_alloc" where
  "bare_alloc = \<lparr>text_capacity = length, styles_capacity = length, sheets_capacity = length, cells_capacity = length,
     merged_capacity = length, size_of_presentation = 72, size_of_style = 400, size_of_text = 24, size_of_layout = 152,
     size_of_coordinate = 16, size_of_merged = 32\<rparr>"

definition session_env :: "(unit presentation_style, unit, unit) excel_env" where
  "session_env = \<lparr>xe_containers = styled_containers, xe_xml = merged_xml, xe_floats = unit_floats, xe_style_key = id,
     xe_alloc = bare_alloc, xe_cell_sizes = \<lparr>size_of_data = 24, size_of_string = 24\<rparr>, xe_size_of_mask_cell = 17,
     xe_show_f64 = (\<lambda>_. []), xe_calamine = text_reader\<rparr>"

definition sheet_zero :: excel_table_descriptor where
  "sheet_zero = \<lparr>xd_id = ''sheet-0'', xd_name = ''S'', xd_workbook_ordinal = 0, xd_visibility = SheetVisible\<rparr>"

definition any_format :: excel_options where
  "any_format = \<lparr>xo_format = HintAuto, xo_source_name = None\<rparr>"

definition fresh_registry :: "(unit, unit) excel_runtime" where
  "fresh_registry = \<lparr>xr_config = excel_runtime_config_default, xr_next_handle = 1, xr_retained_bytes = 0,
     xr_sources = [], xr_tables = []\<rparr>"

definition text_source :: "unit workbook_presentation \<Rightarrow> (unit, unit) excel_source" where
  "text_source p = \<lparr>es_format = Xls, es_source_name = None, es_reserved_bytes = 687, es_workbook = WorkbookXls (),
     es_tables = [sheet_zero], es_warnings = [], es_presentation = p\<rparr>"

definition text_table :: "table_metadata \<Rightarrow> unit open_table" where
  "text_table m = \<lparr>ot_source = 1, ot_descriptor = sheet_zero, ot_metadata = m, ot_shape = \<lparr>ss_rows = 1, ss_columns = 1\<rparr>,
     ot_range = one_text, ot_reserved_bytes = 26\<rparr>"

definition session_calls :: "excel_call list" where
  "session_calls = [CallOpenSource styled_source any_format, CallOpenTable 1 ''sheet-0'']"

lemma session_config:
  "xc_memory_budget_bytes excel_runtime_config_default = 268435456" "xc_max_sources excel_runtime_config_default = 8"
  "xc_limits excel_runtime_config_default = excel_limits_default"
  by (simp_all add: excel_runtime_config_default_def)

lemma session_limits:
  "max_worksheets excel_limits_default = 1024" "max_worksheet_rows excel_limits_default = 1048576"
  "max_worksheet_columns excel_limits_default = 16384" "max_worksheet_cells excel_limits_default = 16000000"
  "max_warnings excel_limits_default = 1024" "max_excel_batch_bytes excel_limits_default = 33554432"
  "max_excel_range_cells excel_limits_default = 250000"
  by (simp_all add: excel_limits_default_def)

lemma fresh_registry_new: "excel_runtime_new excel_runtime_config_default = Inr fresh_registry"
  by (simp add: excel_runtime_new_def fresh_registry_def excel_runtime_config_default_def excel_limits_validate_def
    excel_limits_default_def)

lemma zero_digit: "nat_to_dec 0 = ''0''"
  by code_simp

lemma session_staged:
  "\<exists>p. stage_source session_env styled_source any_format fresh_registry = Inr (text_source p, 687) \<and>
    wbp_sheets p = [(''S'', styled_layout)]"
proof -
  obtain p where p: "parse_biff8 id styled_containers unit_floats styled_source excel_limits_default = Inr p"
      and sheets: "wbp_sheets p = [(''S'', styled_layout)]"
    using styled_presentation by blast
  have sheets_of: "describe_tables (workbook_sheets text_reader (WorkbookXls ())) excel_limits_default = Inr ([sheet_zero], [])"
    by (simp add: describe_tables_def describe_sheet_def text_reader_def sheet_zero_def session_limits zero_digit)
  have "excel_source_open session_env styled_source any_format excel_limits_default
      \<lparr>ins_format = Xls, ins_reserved_bytes = 687\<rparr> 268435456 = Inr (text_source p)"
    using sheets_of by (simp add: excel_source_open_def session_env_def any_format_def ensure_format_hint_def hint_accepts_def p
      source_reservation_def open_workbook_def text_source_def text_reader_def)
  moreover have "inspect_excel_source styled_containers merged_xml 24 styled_source excel_limits_default 268435456 =
      Inr \<lparr>ins_format = Xls, ins_reserved_bytes = 687\<rparr>"
    by (rule styled_accepted) simp
  ultimately have "stage_source session_env styled_source any_format fresh_registry = Inr (text_source p, 687)"
    by (simp add: stage_source_def fresh_registry_def session_config available_memory_def session_env_def text_source_def
      u64_max_def)
  then show ?thesis using sheets by blast
qed

lemma session_metadata: "\<exists>m. build_metadata sheet_zero \<lparr>ss_rows = 1, ss_columns = 1\<rparr> = Inr m"
  by (simp add: build_metadata_def excel_column_schema_def excel_column_name_ok column_schema_new_def u64_max_def
    validate_safe_integer_def max_safe_integer_def axis_exact_def schema_new_def)

lemma session_prepared:
  assumes "wbp_sheets p = [(''S'', styled_layout)]" and "build_metadata sheet_zero \<lparr>ss_rows = 1, ss_columns = 1\<rparr> = Inr m"
  shows "prepare_table session_env ''sheet-0'' excel_limits_default (text_source p) =
    (Inr \<lparr>pt_descriptor = sheet_zero, pt_metadata = m, pt_warnings = [], pt_shape = \<lparr>ss_rows = 1, ss_columns = 1\<rparr>,
       pt_range = one_text, pt_reservation = \<lparr>wr_retained_bytes = 26, wr_open_bytes = 50\<rparr>\<rparr>, text_source p)"
proof -
  have dimensions: "presentation_dimensions p sheet_zero = Some (1, 1)"
    by (simp add: presentation_dimensions_def sheet_layout_def assms(1) sheet_zero_def styled_layout_def)
  have shape: "sheet_shape_of one_text (Some (1, 1)) excel_limits_default = Inr \<lparr>ss_rows = 1, ss_columns = 1\<rparr>"
    by (simp add: sheet_shape_of_def one_text_def validate_sheet_shape_ok session_limits u64_max_def)
  have reservation: "worksheet_reservation_with_contents \<lparr>size_of_data = 24, size_of_string = 24\<rparr>
      \<lparr>ss_rows = 1, ss_columns = 1\<rparr> one_text no_formulas = Inr \<lparr>wr_retained_bytes = 26, wr_open_bytes = 50\<rparr>"
    by (simp add: worksheet_reservation_with_contents_def worksheet_reservation_of_def heap_bytes_def one_text_def
      no_formulas_def u64_max_def)
  have warnings: "missing_formula_cache_warnings sheet_zero one_text no_formulas n = []" for n
    by (simp add: missing_formula_cache_warnings_def no_formulas_def)
  have descriptor: "source_descriptor (text_source p) ''sheet-0'' = Inr sheet_zero"
    by (simp add: source_descriptor_def text_source_def sheet_zero_def)
  have parsed: "es_presentation (text_source p) = p" by (simp add: text_source_def)
  have calls: "on_workbook (worksheet_range text_reader name) (text_source p) = (Inr one_text, text_source p)"
    "on_workbook (worksheet_formula text_reader name) (text_source p) = (Inr no_formulas, text_source p)" for name
    by (simp_all add: on_workbook_def worksheet_range_def worksheet_formula_def worksheet_call_def text_source_def text_reader_def)
  show ?thesis
    unfolding prepare_table_def prog_defs
    by (simp add: descriptor session_env_def calls parsed dimensions shape assms(2) reservation warnings del: One_nat_def)
qed

text \<open>What the two calls lead to.\<close>

lemma session_reached:
  obtains p m where "wbp_sheets p = [(''S'', styled_layout)]"
    and "build_metadata sheet_zero \<lparr>ss_rows = 1, ss_columns = 1\<rparr> = Inr m"
    and "fold (excel_step session_env) session_calls fresh_registry =
      fresh_registry\<lparr>xr_next_handle := 3, xr_retained_bytes := 713, xr_sources := [(1, text_source p)],
        xr_tables := [(2, text_table m)]\<rparr>"
proof -
  obtain p where staged: "stage_source session_env styled_source any_format fresh_registry = Inr (text_source p, 687)"
      and sheets: "wbp_sheets p = [(''S'', styled_layout)]"
    using session_staged by blast
  obtain m where m: "build_metadata sheet_zero \<lparr>ss_rows = 1, ss_columns = 1\<rparr> = Inr m" using session_metadata by blast
  define r1 where "r1 = fresh_registry\<lparr>xr_next_handle := 2, xr_retained_bytes := 687, xr_sources := [(1, text_source p)]\<rparr>"
  have opened: "excel_step session_env (CallOpenSource styled_source any_format) fresh_registry = r1"
    by (simp add: excel_open_source_cases staged r1_def) (simp add: fresh_registry_def u32_max_def)
  have fields: "xr_config r1 = excel_runtime_config_default" "map_of (xr_sources r1) 1 = Some (text_source p)"
    "xr_next_handle r1 = 2" "xr_retained_bytes r1 = 687" "xr_tables r1 = []"
    by (simp_all add: r1_def fresh_registry_def)
  have declared: "declared_shape (text_source p) ''sheet-0'' excel_limits_default = Inr \<lparr>ss_rows = 1, ss_columns = 1\<rparr>"
    by (simp add: declared_shape_def source_descriptor_def text_source_def sheet_zero_def presentation_dimensions_def
      sheet_layout_def sheets styled_layout_def validate_sheet_shape_ok session_limits u64_max_def)
  have reserved: "worksheet_reservation_of (xe_cell_sizes session_env) \<lparr>ss_rows = 1, ss_columns = 1\<rparr> =
      Inr \<lparr>wr_retained_bytes = 24, wr_open_bytes = 48\<rparr>"
    by (simp add: worksheet_reservation_of_def session_env_def u64_max_def)
  have available: "available_memory r1 = Inr 268434769" by (simp add: available_memory_def fields session_config)
  note prepared = session_prepared [OF sheets m]
  have on: "on_source 1 (prepare_table session_env ''sheet-0'' excel_limits_default) r1 =
      (Inr \<lparr>pt_descriptor = sheet_zero, pt_metadata = m, pt_warnings = [], pt_shape = \<lparr>ss_rows = 1, ss_columns = 1\<rparr>,
         pt_range = one_text, pt_reservation = \<lparr>wr_retained_bytes = 26, wr_open_bytes = 50\<rparr>\<rparr>, r1)"
    by (simp add: on_source_def prepared fields del: One_nat_def) (simp add: r1_def)
  have room: "open_working_set reservation 268434769 = Inr ()" if "wr_open_bytes reservation \<le> 50" for reservation
    using that by (simp add: open_working_set_def ensure_reservation_budget_def)
  have "excel_step session_env (CallOpenTable 1 ''sheet-0'') r1 =
      r1\<lparr>xr_next_handle := 3, xr_retained_bytes := 713, xr_tables := [(2, text_table m)]\<rparr>"
    unfolding excel_step.simps excel_open_table_def prog_defs
    by (simp add: fields excel_source_of_def declared reserved available room session_config on
      excel_allocate_cases text_table_def u32_max_def u64_max_def Let_def del: One_nat_def)
  then have "fold (excel_step session_env) session_calls fresh_registry =
      fresh_registry\<lparr>xr_next_handle := 3, xr_retained_bytes := 713, xr_sources := [(1, text_source p)],
        xr_tables := [(2, text_table m)]\<rparr>"
    by (simp add: session_calls_def opened del: excel_step.simps) (simp add: r1_def)
  with sheets m show ?thesis by (rule that)
qed

lemma session_budget: "xc_memory_budget_bytes excel_runtime_config_default \<le> u64_max"
  by (simp add: session_config u64_max_def)

theorem excel_registry_within_budget_witness:
  "\<exists>m. xr_tables (fold (excel_step session_env) session_calls fresh_registry) = [(2, text_table m)] \<and>
    xr_retained_bytes (fold (excel_step session_env) session_calls fresh_registry) = 687 + 26 \<and>
    1 * 1 * size_of_data (xe_cell_sizes session_env) \<le> ot_reserved_bytes (text_table m)"
proof -
  obtain p m where m: "fold (excel_step session_env) session_calls fresh_registry =
      fresh_registry\<lparr>xr_next_handle := 3, xr_retained_bytes := 713, xr_sources := [(1, text_source p)],
        xr_tables := [(2, text_table m)]\<rparr>"
    by (rule session_reached)
  have shape: "ot_shape (text_table m) = \<lparr>ss_rows = 1, ss_columns = 1\<rparr>" by (simp add: text_table_def)
  from excel_registry_within_budget [OF fresh_registry_new session_budget refl, of session_env session_calls]
  have "xr_retained_bytes (fold (excel_step session_env) session_calls fresh_registry) = 687 + 26"
    and "1 * 1 * size_of_data (xe_cell_sizes session_env) \<le> ot_reserved_bytes (text_table m)"
    unfolding m by (simp_all add: text_source_def text_table_def)
  then show ?thesis unfolding m by (intro exI [of _ m]) simp
qed

theorem excel_closed_stays_closed_witness:
  "excel_table_of (fold (excel_step session_env) [CallOpenSource styled_source any_format]
      (snd (excel_close_source 1 (fold (excel_step session_env) session_calls fresh_registry)))) 2 =
     Inl (closed_handle ''table'')"
proof -
  obtain p m where m: "fold (excel_step session_env) session_calls fresh_registry =
      fresh_registry\<lparr>xr_next_handle := 3, xr_retained_bytes := 713, xr_sources := [(1, text_source p)],
        xr_tables := [(2, text_table m)]\<rparr>"
    by (rule session_reached)
  have "map_of (xr_sources (fold (excel_step session_env) session_calls fresh_registry)) 1 = Some (text_source p)"
    "\<exists>t. (2, t) \<in> set (xr_tables (fold (excel_step session_env) session_calls fresh_registry)) \<and> ot_source t = 1"
    unfolding m by (simp_all add: text_table_def)
  from excel_closed_stays_closed [OF fresh_registry_new session_budget refl this(1) disjI2 [OF this(2)] refl]
  show ?thesis by blast
qed

theorem excel_failed_call_keeps_witness:
  "\<exists>e. excel_open_table session_env 9 [] (fold (excel_step session_env) session_calls fresh_registry) =
      (Inl e, fold (excel_step session_env) session_calls fresh_registry) \<and>
    xr_retained_bytes (snd (excel_open_table session_env 9 [] (fold (excel_step session_env) session_calls fresh_registry))) = 713"
proof -
  let ?r = "fold (excel_step session_env) session_calls fresh_registry"
  obtain p m where m: "?r = fresh_registry\<lparr>xr_next_handle := 3, xr_retained_bytes := 713, xr_sources := [(1, text_source p)],
        xr_tables := [(2, text_table m)]\<rparr>"
    by (rule session_reached)
  have "map_of (xr_sources ?r) 9 = None" unfolding m by simp
  then have failed: "excel_open_table session_env 9 [] ?r = (Inl (closed_handle ''source''), ?r)"
    by (simp add: excel_open_table_def prog_defs excel_source_of_def Let_def)
  from excel_failed_call_keeps [OF fresh_registry_new session_budget refl] failed
  have "xr_retained_bytes (snd (excel_open_table session_env 9 [] ?r)) = xr_retained_bytes ?r" by simp
  with failed show ?thesis unfolding m by simp
qed

theorem excel_read_exact_witness:
  "\<exists>batch. excel_runtime_read_range session_env (fold (excel_step session_env) session_calls fresh_registry) 2
      \<lparr>row_start = 0, row_count = 1, column_start = 0, column_count = 1\<rparr> = Inr batch \<and>
    scb_value (tb_columns batch ! 0) 0 = Returns (Some (Some [0x68, 0x69]))"
proof -
  let ?r = "fold (excel_step session_env) session_calls fresh_registry"
  let ?q = "\<lparr>row_start = 0, row_count = 1, column_start = 0, column_count = 1\<rparr>"
  obtain p m where sheets: "wbp_sheets p = [(''S'', styled_layout)]"
    and m: "?r = fresh_registry\<lparr>xr_next_handle := 3, xr_retained_bytes := 713, xr_sources := [(1, text_source p)],
        xr_tables := [(2, text_table m)]\<rparr>"
    by (rule session_reached)
  let ?t = "text_table m" and ?s = "text_source p"
  have known: "map_of (xr_tables ?r) 2 = Some ?t" "map_of (xr_sources ?r) (ot_source ?t) = Some ?s"
    unfolding m by (simp_all add: text_table_def)
  have valid: "validate_range_request ?q (ot_shape ?t) (xc_limits excel_runtime_config_default) = Inr ()"
    by (simp add: validate_range_request_def validate_public_def validate_safe_integer_def row_end_def column_end_def
      cell_count_def max_safe_integer_def u64_max_def session_config session_limits checked_end_def text_table_def)
  have layout: "sheet_layout (es_presentation ?s) (ot_descriptor ?t) = Some styled_layout"
    by (simp add: sheet_layout_def text_source_def text_table_def sheet_zero_def sheets)
  have plain: "\<not> hidden_cell (es_presentation ?s) (ot_descriptor ?t) row column" for row column
    by (simp add: hidden_cell_def layout styled_layout_def empty_layout_def)
  let ?cell = "\<lambda>row column. if hidden_cell (es_presentation ?s) (ot_descriptor ?t) row column then None
    else map_option bytes_of_string (Option.bind (cr_get_value (ot_range ?t) (row, column))
      (display_string (xe_show_f64 session_env)))"
  have cells: "?cell row column = (if row = 0 \<and> column = 0 then Some [0x68, 0x69] else None)" for row column
    using plain by (simp add: text_table_def one_text_def bytes_of_string_def)
  have apart: "disjoint_regions (?q\<lparr>row_count := min (row_count ?q) (ss_rows (ot_shape ?t) - row_start ?q)\<rparr>)
      (wp_merged_cells layout)" if "sheet_layout (es_presentation ?s) (ot_descriptor ?t) = Some layout" for layout
  proof -
    have "layout = styled_layout" using that layout by simp
    then show ?thesis by (simp add: disjoint_regions_def styled_layout_def empty_layout_def)
  qed
  have utf8: "utf8_valid (value_data (?cell row column))" for row column
    unfolding cells by (simp add: value_data_def utf8_step_def)
  have small: "max_excel_batch_bytes (xc_limits excel_runtime_config_default) \<le> u32_max"
    by (simp add: session_config session_limits u32_max_def)
  note exact = excel_read_exact [OF fresh_registry_new session_budget refl small known valid apart utf8]
  have rows: "min (row_count ?q) (ss_rows (ot_shape ?t) - row_start ?q) = 1" by (simp add: text_table_def)
  have room: "answer_room session_env ?r ?q = 33554432" "mask_room session_env ?q = 17" "xr_retained_bytes ?r = 713"
    unfolding m by (simp_all add: answer_room_def mask_room_def session_config session_limits fresh_registry_def session_env_def)
  have "(\<Sum>j < column_count ?q. encoded_size (map (\<lambda>i. ?cell (row_start ?q + i) (column_start ?q + j)) [0..<1])) \<le> 100"
    unfolding cells by (simp add: encoded_size_def column_data_def value_data_def div_ceil_def)
  then have "is_ok (excel_runtime_read_range session_env ?r 2 ?q)"
    using exact [THEN conjunct1] unfolding rows room session_config by simp
  then obtain batch where batch: "excel_runtime_read_range session_env ?r 2 ?q = Inr batch" by (auto simp: is_ok_iff)
  with exact [THEN conjunct2] have "scb_value (tb_columns batch ! 0) 0 = Returns (Some (?cell 0 0))"
    unfolding rows by simp
  then show ?thesis using batch unfolding cells by simp
qed

end
