(* ===== verification/Spec2Isabelle.thy ===== *)
theory Spec2Isabelle
  imports Ledger Protocol Zstd_Frame Runtime_Safety Arrow_Framing Entry_Fetch Workbook_Layout Excel_Queries
begin

text \<open>
  \<^bold>\<open>A verified model of the tabulark core.\<close>

  The program previews tables (delimited text, Arrow, Parquet, workbooks) inside a browser
  worker. Its Rust core never reads a whole source: a client asks for a rectangle of cells,
  the core answers with the byte ranges it needs, validates what comes back and returns a
  bounded columnar batch. Everything crosses a JavaScript boundary, so every count is kept
  within the safe integers and every allocation within a configured limit. This library
  models that core; \<open>src/\<close> below is the directory of the Rust crate at the root of the
  repository.

  \<^bold>\<open>Foundations.\<close>
  \<^item> \<open>Prelude\<close>: results (\<open>Inl\<close> the error, \<open>Inr\<close> the value), programs that thread a state
    and keep it when they fail (\<open>prog\<close>), checked and saturating arithmetic on \<open>usize\<close>,
    \<open>u64\<close> and \<open>u32\<close> with the bounds written out, and the locale \<open>step_machine\<close> from which
    every state-keeping component gets its runs, reachability and invariants.
  \<^item> \<open>Rust_Text\<close>, \<open>Utf8\<close>: decimal formatting, text search and UTF-8 validity as the Rust
    standard library has them.
  \<^item> \<open>Looping\<close>: loops that may not return, as \<open>partial_function (option)\<close>, and slices that
    panic out of range, with rules for what they keep and a separate predicate that they
    return.

  \<^bold>\<open>The model of tables.\<close>
  \<^item> \<open>Errors\<close> (\<open>src/error.rs\<close>), \<open>Ledger\<close> (\<open>src/resource.rs\<close>): structured errors and the
    byte ledger. Its lemmas show that the ledger never exceeds its budget, when exactly an
    admission is granted, and what a failed replacement leaves behind.
  \<^item> \<open>Table_Model\<close>, \<open>Batches\<close>, \<open>Batch_Pool\<close> (\<open>src/lib.rs\<close>, \<open>src/model.rs\<close>): shapes, schemas
    and requests; string columns and typed layouts; the conversion between them. The
    lemmas show that an accepted batch cannot be read out of bounds and that the
    conversion is total, lossless and stores no buffer twice.
  \<^item> \<open>Protocol\<close> (\<open>src/protocol.rs\<close>): messages, adapter steps and the operation cursor, which
    accepts every result set once and only under its own revision.
  \<^item> \<open>Zstd_Frame\<close> (\<open>crates/zstd-pure-compat/src/lib.rs\<close>): the bulk Zstandard interface. The
    block decoder of the third-party crate is a record of functions; a raw-block decoder
    written from the format's definition shows that its hypotheses can hold.

  \<^bold>\<open>Delimited text\<close> (\<open>src/csv.rs\<close>).
  \<^item> \<open>Csv_Types\<close>, \<open>Quote_Tracker\<close>, \<open>Csv_Scanner\<close>, \<open>Csv_Scan_Invariant\<close>, \<open>Csv_Scanning\<close>:
    options and diagnostics, the byte machine that locates malformed quotes in any chunking,
    and the incremental scanner. The third-party record reader is a parameter (\<open>csv_env\<close>):
    no theorem about the scanner's state relies on its answers; that a call returns, without
    looping or panicking, relies only on its documented progress within its buffers.
  \<^item> \<open>String_Builder\<close>: the columns of a range while they grow. What was pushed is what the
    finished column reads back, and the bytes charged are the bytes the column takes.
  \<^item> \<open>Csv_Range\<close>, \<open>Csv_Decoding\<close>, \<open>Csv_Window\<close>: the range decoder, the invariant under which
    every batch answers its request, and the simulation of the decoder by the table the
    external reader finds in the source: a batch is the requested window of that table.
  \<^item> \<open>Memory_Source\<close>: the native client that scans a source, plans a range at a checkpoint and
    decodes it. Here the scanner's and the decoder's invariants are put together.

  \<^bold>\<open>The runtime\<close> (\<open>src/runtime.rs\<close>).
  \<^item> \<open>Handle_Table\<close>, \<open>Runtime\<close>, \<open>Runtime_Safety\<close>: the registry of open sources and active
    ranges. Every call is an operation of a \<open>step_machine\<close>, so the registry's invariant holds
    in every reachable state, a closed handle is never valid again, and what a range has
    been fed stays within its cap. The estimate of the memory a scanner retains depends on
    vector capacities, which the language leaves open: it is the parameter \<open>est\<close>.

  \<^bold>\<open>Arrow ingress\<close> (\<open>src/arrow.rs\<close>).
  \<^item> \<open>Arrow_Types\<close>: containers, limits, the byte ranges the adapter asks for and the answers it
    accepts, the part of a table a request is answered with.
  \<^item> \<open>Arrow_Wire\<close>, \<open>Arrow_Framing\<close>: the validator that follows the framing of an Arrow stream
    before the third-party decoder sees the bytes. Its limits hold after every chunk that is
    accepted, every call returns, and its verdict does not depend on how the stream was cut.
    The FlatBuffers library that reads a message's metadata is the parameter \<open>parse\<close>; no
    theorem relies on its answers.

  \<^bold>\<open>Workbooks: getting the bytes\<close> (\<open>crates/tabulark-excel-wasm/src/range.rs\<close>, \<open>wasm.rs\<close>).
  \<^item> \<open>Ordered_Map\<close>, \<open>Indexed_Ranges\<close>, \<open>Range_Store\<close>: the store of the source ranges a host has
    delivered, and the locale \<open>byte_store\<close> of what its readers rely on. The lemmas show that
    the store refines a partial function from offsets to bytes, that the first gap of a
    query is found exactly, and that bytes are never mixed up.
  \<^item> \<open>Byte_Order\<close>, \<open>Sparse_Reader\<close>: little-endian fields, and the \<open>Read + Seek\<close> view of the
    store through which a compound-file parser reads.
  \<^item> \<open>Zip_Index\<close>, \<open>Zip_Package\<close>, \<open>Zip_Roundtrip\<close>: the index of a ZIP or ZIP64 package from its
    tail, the entries a worksheet needs and the compact package built of them. What the
    writer produces, the parser reads back. The inflater and the hash order of the entries
    are the parameters \<open>unzip\<close> and \<open>order\<close>.
  \<^item> \<open>Entry_Fetch\<close>: the rounds in which an open operation fetches the entries, one missing
    range at a time, compared with a reader that has the whole source at hand.

  \<^bold>\<open>Workbooks: presentation\<close> (\<open>crates/tabulark-excel-wasm/src/presentation.rs\<close>).
  \<^item> \<open>Xml_Events\<close>, \<open>Excel_Types\<close>: documents as the third-party XML reader presents them (the
    parameter \<open>xml_env\<close>), formats, limits and errors.
  \<^item> \<open>Excel_Layout\<close>, \<open>Biff8_Records\<close>, \<open>A1_References\<close>, \<open>Layout_Limits\<close>: the layout of a worksheet
    from SpreadsheetML and from BIFF8, references and column names that read each other, and
    the bounds that every layout of either format keeps. Sizes are floats whose operations
    are the parameter \<open>float_ops\<close>.
  \<^item> \<open>Excel_Styles\<close>, \<open>Biff8_Styles\<close>, \<open>Xlsx_Styles\<close>: colours, fonts, fills, borders and formats of
    both formats, resolved and deduplicated into one table. The text under which two styles
    are the same is a parameter (\<open>key\<close>, and \<open>show_f64\<close> within it).
  \<^item> \<open>Excel_Presentation\<close>, \<open>Presentation_Bytes\<close>, \<open>Workbook_Layout\<close>: a whole workbook's
    presentation, the queries on it, the memory it keeps, and that every identifier a cell
    carries leads to a style. The archive and compound-file readers are the parameter
    \<open>container_env\<close>; capacities and type sizes are \<open>presentation_alloc\<close> and \<open>cell_sizes\<close>.

  \<^bold>\<open>Workbooks: values\<close> (\<open>crates/tabulark-excel-wasm/src/lib.rs\<close>).
  \<^item> \<open>Excel_Preflight\<close>: what is checked and reserved before a workbook is parsed, and that a
    worksheet that was counted needs no more than was reserved for it.
  \<^item> \<open>Excel_Cells\<close>, \<open>Excel_Reading\<close>: the display text of a cell and the batch a range of cells
    becomes. The values are those of the calamine crate, which is a parameter.
  \<^item> \<open>Excel_Runtime\<close>, \<open>Excel_Safety\<close>, \<open>Excel_Queries\<close>: the registry of open workbooks, again as a
    \<open>step_machine\<close>: memory accounts for what is open, handles are never reused, a failed call
    keeps what was open, and a request through the registry answers with the cells of the
    worksheet.

  \<^bold>\<open>Bounds and fuel.\<close> Three definitions take fuel. \<open>scanner_finish_loop\<close> and \<open>decoder_eof_loop\<close>
  have the bound of four turns that the source has. \<open>fetch_rounds\<close> runs with one round more than
  there are unread bytes, and that this is enough is a theorem; the budget of issued actions
  that the operation cursor adds is modelled in \<open>Protocol\<close> and is not part of these rounds. The
  loops around third-party readers are partial functions, and so are the slices they take at
  the counts a reader answers: \<open>None\<close> is a loop or a panic, and that there is none of either
  is a theorem of its own, for readers that stay within their buffers. \<open>usize\<close> has 64 bits; on the 32-bit target of
  the browser build the checked conversions from 64 bits fail earlier, with the same errors.

  \<^bold>\<open>Not modelled.\<close> The JavaScript side, the marshalling of values in the WebAssembly bindings,
  serialisation derives, the walk of an error chain by dynamic type in \<open>range.rs\<close>, and the
  decoding and encoding of Arrow and Parquet: the rest of \<open>src/arrow.rs\<close> and \<open>src/parquet.rs\<close> drive
  the arrow-rs and parquet crates, whose arrays, footers and decoders are not part of the repository.
\<close>

end
